(* ===== verification/Prelude.thy ===== *)
theory Prelude
  imports Complex_Main "HOL-Library.Sublist" "HOL-Library.Multiset"
begin

text \<open>
  Shared vocabulary of the development: the types that stand for Python's numbers,
  strings and JSON values, the operations of the standard library the
  broker uses on them, SQL tables as lists of rows with an identity column, and the
  generic lemmas (options, lists, tables, transition systems) the components rest on.

  Conventions. Dollars, seconds and instants are exact rationals: the rounding of IEEE
  doubles is not modelled. An instant is a number of seconds on the UTC time line (naive
  UTC in the database) or on the process's monotonic clock; a clock reading is always an
  argument. Strings are lists of 8-bit characters; case folding is that of ASCII.
\<close>

section \<open>Collections of facts\<close>

named_theorems table_simps \<open>reading a table after an update\<close>
named_theorems str_simps \<open>unfolding the string operations on literals\<close>

section \<open>Numbers\<close>

type_synonym usd = rat
type_synonym secs = rat
type_synonym instant = rat

section \<open>Strings\<close>

text \<open>\<^verbatim>\<open>str.lower()\<close> on ASCII: bit 5 of the letters A to Z is set.\<close>

fun lower_char :: "char \<Rightarrow> char" where
  "lower_char (Char b0 b1 b2 b3 b4 b5 b6 b7) =
     (if \<not> b5 \<and> b6 \<and> \<not> b7 \<and> (b0 \<or> b1 \<or> b2 \<or> b3 \<or> b4) \<and> \<not> (b4 \<and> b3 \<and> (b2 \<or> b1 \<and> b0))
      then Char b0 b1 b2 b3 b4 True b6 b7 else Char b0 b1 b2 b3 b4 b5 b6 b7)"

definition py_lower :: "string \<Rightarrow> string" where
  "py_lower s = map lower_char s"

text \<open>\<^verbatim>\<open>s.startswith(p)\<close>, \<^verbatim>\<open>s.endswith(p)\<close> and \<^verbatim>\<open>needle in s\<close>.\<close>

definition starts_with :: "string \<Rightarrow> string \<Rightarrow> bool" where
  "starts_with s p \<longleftrightarrow> take (length p) s = p"

definition ends_with :: "string \<Rightarrow> string \<Rightarrow> bool" where
  "ends_with s p \<longleftrightarrow> length p \<le> length s \<and> drop (length s - length p) s = p"

fun py_in :: "string \<Rightarrow> string \<Rightarrow> bool" where
  "py_in n [] \<longleftrightarrow> n = []"
| "py_in n (c # cs) \<longleftrightarrow> take (length n) (c # cs) = n \<or> py_in n cs"

definition any_in :: "string list \<Rightarrow> string \<Rightarrow> bool" where
  "any_in ns s \<longleftrightarrow> list_ex (\<lambda>n. py_in n s) ns"

text \<open>\<^verbatim>\<open>c.isspace()\<close> for the ASCII blanks, and \<^verbatim>\<open>s.strip()\<close>.\<close>

definition is_space :: "char \<Rightarrow> bool" where
  "is_space c \<longleftrightarrow> c \<in> {CHR '' '', CHR 0x09, CHR 0x0A, CHR 0x0B, CHR 0x0C, CHR 0x0D,
                       CHR 0x1C, CHR 0x1D, CHR 0x1E, CHR 0x1F}"

definition py_strip :: "string \<Rightarrow> string" where
  "py_strip s = rev (dropWhile is_space (rev (dropWhile is_space s)))"

text \<open>
  \<^verbatim>\<open>s.split(c, 1)\<close> and \<^verbatim>\<open>s.partition(c)\<close>: the text before the first \<open>c\<close> and, when there
  is one, the text after it; \<^verbatim>\<open>s.rsplit(c, 1)\<close> is its mirror.
\<close>

fun split_first :: "char \<Rightarrow> string \<Rightarrow> string \<times> string option" where
  "split_first c [] = ([], None)"
| "split_first c (x # xs) =
     (if x = c then ([], Some xs)
      else case split_first c xs of (a, b) \<Rightarrow> (x # a, b))"

definition rsplit_last :: "char \<Rightarrow> string \<Rightarrow> string option \<times> string" where
  "rsplit_last c s = (case split_first c (rev s) of
      (a, None) \<Rightarrow> (None, rev a)
    | (a, Some b) \<Rightarrow> (Some (rev b), rev a))"

lemma py_in_sublist: "py_in n h \<longleftrightarrow> sublist n h"
proof (induction h)
  case (Cons c cs)
  have "take (length n) (c # cs) = n \<longleftrightarrow> prefix n (c # cs)"
    by (metis append_take_drop_id append_eq_conv_conj prefix_def)
  with Cons show ?case by (simp add: sublist_Cons_right)
qed simp

lemma starts_with_prefix: "starts_with s p \<longleftrightarrow> prefix p s"
  unfolding starts_with_def by (metis append_take_drop_id append_eq_conv_conj prefix_def)

lemma lower_char_idem [simp]: "lower_char (lower_char c) = lower_char c"
  by (cases c) auto

lemma py_lower_idem [simp]: "py_lower (py_lower s) = py_lower s"
  by (simp add: py_lower_def comp_def)

lemma py_lower_append: "py_lower (a @ b) = py_lower a @ py_lower b"
  by (simp add: py_lower_def)

lemma split_first_None: "split_first c s = (a, None) \<Longrightarrow> a = s \<and> c \<notin> set s"
  by (induction s arbitrary: a) (auto split: if_splits prod.splits)

lemma split_first_Some: "split_first c s = (a, Some b) \<Longrightarrow> s = a @ c # b \<and> c \<notin> set a"
  by (induction s arbitrary: a) (auto split: if_splits prod.splits)

lemma split_first_append:
  "c \<notin> set a \<Longrightarrow> split_first c (a @ c # b) = (a, Some b)"
  by (induction a) auto

lemma split_first_absent: "c \<notin> set a \<Longrightarrow> split_first c a = (a, None)"
  by (induction a) auto

lemmas [str_simps] = py_lower_def starts_with_def ends_with_def any_in_def

section \<open>JSON values\<close>

text \<open>
  The values a request, a response or a JSONB column holds; an object keeps its keys in
  insertion order, as a Python \<^verbatim>\<open>dict\<close> does.
\<close>

datatype json =
    JNull
  | JBool bool
  | JInt int
  | JFloat rat
  | JStr string
  | JList "json list"
  | JObj "(string \<times> json) list"

text \<open>\<^verbatim>\<open>d.get(k)\<close> on an object; \<^verbatim>\<open>bool(v)\<close> of a JSON value.\<close>

definition obj_get :: "(string \<times> json) list \<Rightarrow> string \<Rightarrow> json option" where
  "obj_get kvs k = map_of kvs k"

fun truthy :: "json \<Rightarrow> bool" where
  "truthy JNull = False"
| "truthy (JBool b) = b"
| "truthy (JInt i) = (i \<noteq> 0)"
| "truthy (JFloat r) = (r \<noteq> 0)"
| "truthy (JStr s) = (s \<noteq> [])"
| "truthy (JList l) = (l \<noteq> [])"
| "truthy (JObj l) = (l \<noteq> [])"

definition is_obj :: "json \<Rightarrow> bool" where
  "is_obj j \<longleftrightarrow> (case j of JObj _ \<Rightarrow> True | _ \<Rightarrow> False)"

section \<open>Integers as text\<close>

definition digits :: string where "digits = ''0123456789''"

definition digit_val :: "char \<Rightarrow> int option" where
  "digit_val c = map_of (zip digits [0, 1, 2, 3, 4, 5, 6, 7, 8, 9]) c"

text \<open>\<^verbatim>\<open>str(n)\<close> of an integer.\<close>

fun show_nat :: "nat \<Rightarrow> string" where
  "show_nat n = (if n < 10 then [digits ! n] else show_nat (n div 10) @ [digits ! (n mod 10)])"

declare show_nat.simps [simp del]

definition show_int :: "int \<Rightarrow> string" where
  "show_int i = (if i < 0 then CHR ''-'' # show_nat (nat (- i)) else show_nat (nat i))"

text \<open>
  \<^verbatim>\<open>int(s)\<close> of a string: blanks around, an optional sign, digits with single underscores
  between them; anything else raises \<^verbatim>\<open>ValueError\<close> (\<open>None\<close>).
\<close>

fun parse_digits :: "int \<Rightarrow> string \<Rightarrow> int option" where
  "parse_digits acc [] = Some acc"
| "parse_digits acc (c # cs) = (case digit_val c of
      Some d \<Rightarrow> parse_digits (10 * acc + d) cs
    | None \<Rightarrow> if c = CHR ''_'' \<and> cs \<noteq> [] \<and> digit_val (hd cs) \<noteq> None
              then parse_digits acc cs else None)"

definition parse_unsigned :: "string \<Rightarrow> int option" where
  "parse_unsigned s = (if s = [] \<or> digit_val (hd s) = None then None else parse_digits 0 s)"

definition py_int_str :: "string \<Rightarrow> int option" where
  "py_int_str s = (case py_strip s of
      [] \<Rightarrow> None
    | c # cs \<Rightarrow> if c = CHR ''-'' then map_option uminus (parse_unsigned cs)
               else if c = CHR ''+'' then parse_unsigned cs else parse_unsigned (c # cs))"

text \<open>\<^verbatim>\<open>int(v)\<close> of a JSON value; a float is truncated towards zero.\<close>

definition py_trunc :: "rat \<Rightarrow> int" where
  "py_trunc r = (if r < 0 then - \<lfloor>- r\<rfloor> else \<lfloor>r\<rfloor>)"

fun py_int :: "json \<Rightarrow> int option" where
  "py_int (JInt i) = Some i"
| "py_int (JBool b) = Some (if b then 1 else 0)"
| "py_int (JFloat r) = Some (py_trunc r)"
| "py_int (JStr s) = py_int_str s"
| "py_int _ = None"

section \<open>Tables\<close>

text \<open>
  A SQL table is the list of its rows. \<open>update_where\<close> is \<^verbatim>\<open>UPDATE ... SET ... WHERE\<close>,
  \<open>delete_where\<close> is \<^verbatim>\<open>DELETE ... WHERE\<close> and \<open>find_row\<close> the lookup by primary key.
\<close>

definition update_where :: "('r \<Rightarrow> bool) \<Rightarrow> ('r \<Rightarrow> 'r) \<Rightarrow> 'r list \<Rightarrow> 'r list" where
  "update_where P f rows = map (\<lambda>r. if P r then f r else r) rows"

definition delete_where :: "('r \<Rightarrow> bool) \<Rightarrow> 'r list \<Rightarrow> 'r list" where
  "delete_where P rows = filter (\<lambda>r. \<not> P r) rows"

definition find_row :: "('r \<Rightarrow> 'k) \<Rightarrow> 'k \<Rightarrow> 'r list \<Rightarrow> 'r option" where
  "find_row key k rows = find (\<lambda>r. key r = k) rows"

definition row_count :: "('r \<Rightarrow> bool) \<Rightarrow> 'r list \<Rightarrow> nat" where
  "row_count P rows = length (filter P rows)"

lemma update_where_Nil [simp]: "update_where P f [] = []"
  by (simp add: update_where_def)

lemma update_where_Cons [simp]:
  "update_where P f (r # rs) = (if P r then f r else r) # update_where P f rs"
  by (simp add: update_where_def)

lemma length_update_where [simp]: "length (update_where P f rows) = length rows"
  by (simp add: update_where_def)

lemma set_update_where: "set (update_where P f rows) = (\<lambda>r. if P r then f r else r) ` set rows"
  by (simp add: update_where_def)

lemma update_where_none: "(\<And>r. r \<in> set rows \<Longrightarrow> \<not> P r) \<Longrightarrow> update_where P f rows = rows"
  by (induction rows) auto

lemma find_row_Nil [simp]: "find_row key k [] = None"
  by (simp add: find_row_def)

lemma find_row_Cons [simp]:
  "find_row key k (r # rs) = (if key r = k then Some r else find_row key k rs)"
  by (simp add: find_row_def)

lemma find_row_SomeD: "find_row key k rows = Some r \<Longrightarrow> r \<in> set rows \<and> key r = k"
  by (induction rows) (auto split: if_splits)

lemma find_row_None_iff: "find_row key k rows = None \<longleftrightarrow> k \<notin> key ` set rows"
  by (induction rows) auto

lemma find_row_distinct:
  "distinct (map key rows) \<Longrightarrow> r \<in> set rows \<Longrightarrow> find_row key (key r) rows = Some r"
  by (induction rows) force+

lemma find_row_append:
  "find_row key k (xs @ ys) = (case find_row key k xs of None \<Rightarrow> find_row key k ys | Some r \<Rightarrow> Some r)"
  by (induction xs) auto

text \<open>The contract of an update that never touches the primary key.\<close>

locale row_update =
  fixes key :: "'r \<Rightarrow> 'k" and f :: "'r \<Rightarrow> 'r"
  assumes key_kept: "key (f r) = key r"
begin

lemma keys_kept: "map key (update_where P f rows) = map key rows"
  by (induction rows) (auto simp: key_kept)

lemma find_updated:
  "find_row key k (update_where P f rows)
   = map_option (\<lambda>r. if P r then f r else r) (find_row key k rows)"
  by (induction rows) (auto simp: key_kept)

lemma find_updated_key:
  "find_row key k (update_where (\<lambda>r. key r = k' \<and> P r) f rows)
   = (if k = k' then map_option (\<lambda>r. if P r then f r else r) (find_row key k rows)
      else find_row key k rows)"
  by (induction rows) (auto simp: key_kept)

lemma distinct_kept:
  "distinct (map key rows) \<Longrightarrow> distinct (map key (update_where P f rows))"
  by (simp add: keys_kept)

end

section \<open>Transition systems\<close>

text \<open>
  The states a component reaches from its initial states, and the rule that proves an
  invariant: what holds initially and is kept by every step holds of every reachable
  state. Components interpret the locale on their own step relation.
\<close>

inductive reach :: "('s \<Rightarrow> bool) \<Rightarrow> ('s \<Rightarrow> 's \<Rightarrow> bool) \<Rightarrow> 's \<Rightarrow> bool"
  for init :: "'s \<Rightarrow> bool" and step :: "'s \<Rightarrow> 's \<Rightarrow> bool"
where
  reach_init: "init s \<Longrightarrow> reach init step s"
| reach_step: "reach init step s \<Longrightarrow> step s t \<Longrightarrow> reach init step t"

locale invariant_system =
  fixes init :: "'s \<Rightarrow> bool" and step :: "'s \<Rightarrow> 's \<Rightarrow> bool" and inv :: "'s \<Rightarrow> bool"
  assumes inv_init: "init s \<Longrightarrow> inv s"
    and inv_step: "inv s \<Longrightarrow> step s t \<Longrightarrow> inv t"
begin

lemma reach_inv: "reach init step s \<Longrightarrow> inv s"
  by (induction rule: reach.induct) (blast intro: inv_init inv_step)+

lemma steps_inv: "step\<^sup>*\<^sup>* s t \<Longrightarrow> inv s \<Longrightarrow> inv t"
  by (induction rule: rtranclp_induct) (blast intro: inv_step)+

end

section \<open>Lists and sums\<close>

lemma sum_list_update_where:
  fixes g :: "'r \<Rightarrow> 'a::comm_monoid_add"
  assumes "\<And>r. r \<in> set rows \<Longrightarrow> g (if P r then f r else r) = g r + d r"
  shows "sum_list (map g (update_where P f rows)) = sum_list (map g rows) + sum_list (map d rows)"
  using assms by (induction rows) (auto simp: ac_simps)

lemma mset_filter_partition:
  "mset (filter P xs @ filter (\<lambda>x. \<not> P x) xs) = mset xs"
  by (induction xs) auto

lemma filter_filter_imp: "(\<And>x. P x \<Longrightarrow> Q x) \<Longrightarrow> filter P (filter Q xs) = filter P xs"
  by (induction xs) auto

lemma sorted_wrt_all: "(\<And>x y. x \<in> set xs \<Longrightarrow> y \<in> set xs \<Longrightarrow> R x y) \<Longrightarrow> sorted_wrt R xs"
  by (induction xs) auto

lemma sorted_wrt_partition:
  "sorted_wrt (\<lambda>p q. P p \<longrightarrow> P q) (filter (\<lambda>x. \<not> P x) xs @ filter P xs)"
  by (auto simp: sorted_wrt_append intro!: sorted_wrt_all)

lemma filter_partition_left:
  "filter (\<lambda>p. C p \<and> \<not> U p) (filter (\<lambda>p. \<not> U p) (filter C xs) @ filter U (filter C xs))
   = filter (\<lambda>p. C p \<and> \<not> U p) xs"
  by (induction xs) (auto simp del: filter_filter)

lemma filter_partition_right:
  "(\<And>x. U x \<Longrightarrow> C x) \<Longrightarrow>
   filter U (filter (\<lambda>p. \<not> U p) (filter C xs) @ filter U (filter C xs)) = filter U xs"
  by (induction xs) (auto simp del: filter_filter)

lemma dropWhile_prefix_Cons:
  "(\<And>x. x \<in> set xs \<Longrightarrow> P x) \<Longrightarrow> \<not> P y \<Longrightarrow> dropWhile P (xs @ y # ys) = y # ys"
  by (induction xs) auto

lemma distinct_set_singleton:
  assumes "distinct zs" "set zs = {k}"
  shows "zs = [k]"
proof (cases zs)
  case (Cons a as)
  with assms have "a = k" "set as \<subseteq> {k}" "k \<notin> set as" by auto
  then have "as = []" by (cases as) auto
  with Cons \<open>a = k\<close> show ?thesis by simp
qed (use assms in simp)

end
