(* ===== verification/Calendar.thy ===== *)
theory Calendar
  imports Prelude
begin

text \<open>
  The part of Python's \<^verbatim>\<open>datetime\<close> the broker computes with: UTC datetimes by their
  fields, the proleptic Gregorian calendar (leap years, month lengths, day ordinals,
  weekdays), the next day, and the instant a datetime stands for. The lemmas say that
  the day after has the next ordinal and that the first of the next month lies exactly
  the length of the month after the first of this one.
\<close>

section \<open>The civil calendar\<close>

text \<open>A calendar date is year, month, day, as Python's \<^verbatim>\<open>date\<close> holds it.\<close>

type_synonym date = "int \<times> int \<times> int"

record datetime =
  dt_year :: int
  dt_month :: int
  dt_day :: int
  dt_hour :: int
  dt_minute :: int
  dt_second :: int
  dt_microsecond :: int

definition date_of :: "datetime \<Rightarrow> date" where
  "date_of d = (dt_year d, dt_month d, dt_day d)"

definition is_leap :: "int \<Rightarrow> bool" where
  "is_leap y \<longleftrightarrow> y mod 4 = 0 \<and> (y mod 100 \<noteq> 0 \<or> y mod 400 = 0)"

definition days_in_month :: "int \<Rightarrow> int \<Rightarrow> int" where
  "days_in_month y m =
     (if m = 2 then (if is_leap y then 29 else 28)
      else if m \<in> {4, 6, 9, 11} then 30 else 31)"

definition days_before_year :: "int \<Rightarrow> int" where
  "days_before_year y = (y - 1) * 365 + (y - 1) div 4 - (y - 1) div 100 + (y - 1) div 400"

definition days_before_month :: "int \<Rightarrow> int \<Rightarrow> int" where
  "days_before_month y m =
     (if m \<le> 1 then 0 else if m = 2 then 31
      else (if is_leap y then 1 else 0) +
        (if m = 3 then 59 else if m = 4 then 90 else if m = 5 then 120
         else if m = 6 then 151 else if m = 7 then 181 else if m = 8 then 212
         else if m = 9 then 243 else if m = 10 then 273 else if m = 11 then 304
         else 334))"

definition ordinal :: "date \<Rightarrow> int" where
  "ordinal d = (case d of (y, m, dd) \<Rightarrow> days_before_year y + days_before_month y m + dd)"

text \<open>Monday is 0, as in \<^verbatim>\<open>datetime.weekday()\<close>; ordinal 1 was a Monday.\<close>

definition weekday :: "date \<Rightarrow> int" where
  "weekday d = (ordinal d + 6) mod 7"

definition valid_datetime :: "datetime \<Rightarrow> bool" where
  "valid_datetime d \<longleftrightarrow>
     1 \<le> dt_year d \<and> 1 \<le> dt_month d \<and> dt_month d \<le> 12 \<and>
     1 \<le> dt_day d \<and> dt_day d \<le> days_in_month (dt_year d) (dt_month d) \<and>
     0 \<le> dt_hour d \<and> dt_hour d \<le> 23 \<and> 0 \<le> dt_minute d \<and> dt_minute d \<le> 59 \<and>
     0 \<le> dt_second d \<and> dt_second d \<le> 59 \<and>
     0 \<le> dt_microsecond d \<and> dt_microsecond d \<le> 999999"

definition second_of_day :: "datetime \<Rightarrow> secs" where
  "second_of_day d =
     of_int (dt_hour d * 3600 + dt_minute d * 60 + dt_second d)
     + of_int (dt_microsecond d) / 1000000"

definition instant_of :: "datetime \<Rightarrow> instant" where
  "instant_of d = of_int (ordinal (date_of d)) * 86400 + second_of_day d"

definition midnight :: "date \<Rightarrow> datetime" where
  "midnight d = (case d of (y, m, dd) \<Rightarrow>
     \<lparr>dt_year = y, dt_month = m, dt_day = dd, dt_hour = 0, dt_minute = 0,
      dt_second = 0, dt_microsecond = 0\<rparr>)"

text \<open>The day after, as adding \<^verbatim>\<open>timedelta(days=1)\<close> to a date gives it.\<close>

definition next_date :: "date \<Rightarrow> date" where
  "next_date d = (case d of (y, m, dd) \<Rightarrow>
     if dd < days_in_month y m then (y, m, dd + 1)
     else if m < 12 then (y, m + 1, 1) else (y + 1, 1, 1))"

lemma second_of_day_bounds:
  assumes "valid_datetime d"
  shows "0 \<le> second_of_day d" and "second_of_day d < 86400"
proof -
  let ?s = "dt_hour d * 3600 + dt_minute d * 60 + dt_second d"
  have s: "0 \<le> ?s" "?s \<le> 86399"
    using assms by (auto simp: valid_datetime_def)
  have m: "(0::rat) \<le> of_int (dt_microsecond d) / 1000000"
      "of_int (dt_microsecond d) / 1000000 < (1::rat)"
    using assms by (auto simp: valid_datetime_def)
  have "(0::rat) \<le> of_int ?s" "of_int ?s \<le> (86399::rat)"
    using s by (simp_all only: of_int_0_le_iff of_int_le_numeral_iff)
  with m show "0 \<le> second_of_day d" "second_of_day d < 86400"
    unfolding second_of_day_def by linarith+
qed

lemma div_pred:
  fixes y n :: int
  assumes "0 < n"
  shows "y div n = (y - 1) div n + (if y mod n = 0 then 1 else 0)"
proof (cases "y mod n = 0")
  case True
  then have "y - 1 = n * (y div n - 1) + (n - 1)"
    using mult_div_mod_eq[of n y] by (simp add: algebra_simps)
  moreover have "0 \<le> n - 1" "n - 1 < n"
    using assms by simp_all
  ultimately have "(y - 1) div n = y div n - 1"
    by (rule int_div_pos_eq)
  with True show ?thesis by simp
next
  case False
  then have "y - 1 = n * (y div n) + (y mod n - 1)"
    using mult_div_mod_eq[of n y] by (simp add: algebra_simps)
  moreover have "0 \<le> y mod n - 1" "y mod n - 1 < n"
    using False assms pos_mod_sign[of n y] pos_mod_bound[of n y] by linarith+
  ultimately have "(y - 1) div n = y div n"
    by (rule int_div_pos_eq)
  with False show ?thesis by simp
qed

lemma days_before_year_Suc:
  "days_before_year (y + 1) = days_before_year y + (if is_leap y then 366 else 365)"
proof -
  have m: "y mod 100 = 0 \<Longrightarrow> y mod 4 = 0" "y mod 400 = 0 \<Longrightarrow> y mod 100 = 0"
    by presburger+
  define a b c a' b' c' where defs: "a = y div 4" "b = y div 100" "c = y div 400"
    "a' = (y - 1) div 4" "b' = (y - 1) div 100" "c' = (y - 1) div 400"
  have d: "a = a' + (if y mod 4 = 0 then 1 else 0)" "b = b' + (if y mod 100 = 0 then 1 else 0)"
      "c = c' + (if y mod 400 = 0 then 1 else 0)"
    unfolding defs by (rule div_pred; simp)+
  have "days_before_year (y + 1) = y * 365 + a - b + c"
       "days_before_year y = (y - 1) * 365 + a' - b' + c'"
    by (simp_all add: days_before_year_def defs)
  note e = this
  define P Q R where "P = (y mod 4 = 0)" "Q = (y mod 100 = 0)" "R = (y mod 400 = 0)"
  then have "a = a' + (if P then 1 else 0)" "b = b' + (if Q then 1 else 0)"
      "c = c' + (if R then 1 else 0)" "Q \<longrightarrow> P" "R \<longrightarrow> Q"
      "is_leap y = (P \<and> (\<not> Q \<or> R))"
    using d m by (simp_all add: is_leap_def)
  then show ?thesis
    unfolding e by (cases P; cases Q; cases R) simp_all
qed

lemma days_before_month_Suc:
  assumes "1 \<le> m" "m < 12"
  shows "days_before_month y (m + 1) = days_before_month y m + days_in_month y m"
proof -
  have "m \<in> {1, 2, 3, 4, 5, 6, 7, 8, 9, 10, 11}"
    using assms by (simp, presburger)
  then show ?thesis
    by (auto simp: days_before_month_def days_in_month_def)
qed

lemma days_in_year_end: "days_before_month y 12 + 31 = (if is_leap y then 366 else 365)"
  by (simp add: days_before_month_def)

lemma ordinal_first_of_next_month:
  assumes "1 \<le> m" "m \<le> 12"
  shows "ordinal (if m = 12 then (y + 1, 1, 1) else (y, m + 1, 1))
         = ordinal (y, m, 1) + days_in_month y m"
proof (cases "m = 12")
  case True
  then show ?thesis
    using days_before_year_Suc[of y] days_in_year_end[of y]
    by (simp add: ordinal_def days_in_month_def) (simp add: days_before_month_def)
next
  case False
  with assms days_before_month_Suc[of m y] show ?thesis
    by (simp add: ordinal_def)
qed

lemma ordinal_next_date:
  assumes "1 \<le> m" "m \<le> 12" "dd \<le> days_in_month y m"
  shows "ordinal (next_date (y, m, dd)) = ordinal (y, m, dd) + 1"
proof (cases "dd < days_in_month y m")
  case True
  then show ?thesis by (simp add: next_date_def ordinal_def)
next
  case False
  with assms(3) have dd: "dd = days_in_month y m" by simp
  have "next_date (y, m, dd) = (if m = 12 then (y + 1, 1, 1) else (y, m + 1, 1))"
    using dd assms by (simp add: next_date_def)
  moreover have "ordinal (y, m, 1) + days_in_month y m = ordinal (y, m, dd) + 1"
    using dd by (simp add: ordinal_def)
  ultimately show ?thesis
    using ordinal_first_of_next_month[OF assms(1,2), of y] by simp
qed

lemma instant_of_midnight [simp]: "instant_of (midnight d) = of_int (ordinal d) * 86400"
  by (cases d) (simp add: instant_of_def midnight_def second_of_day_def date_of_def)

end
