(* ===== verification/Registry.thy ===== *)
theory Registry
  imports Prelude
begin

text \<open>
  The data model of \<^verbatim>\<open>providers/registry.py\<close>: quotas, model specs, probes and provider
  specs as records with the source's fields, \<^verbatim>\<open>ProbeSpec.build\<close>, \<^verbatim>\<open>build_provider\<close> (which
  derives the model table from the default and rotation tables) and \<^verbatim>\<open>register\<close>. A Python
  dict is an association list in insertion order. The provider facts themselves, and the
  views over the filled registry, are in the theory of the provider specs.
\<close>

section \<open>Records\<close>

datatype json_reliability = Reliable | Unreliable | Incapable

datatype pricing = P_litellm | P_override | P_per_minute | P_free | P_local | P_subscription

datatype auth_style = A_bearer | A_anthropic | A_gemini | A_gemini_key

text \<open>The adapter classes of \<^verbatim>\<open>providers/adapters.py\<close>, by name.\<close>

datatype adapter =
    ProviderAdapter | ZaiAdapter | GeminiAdapter | AnthropicAdapter
  | DeepseekAdapter | CerebrasAdapter | CloudflareAdapter | SambanovaAdapter

definition DEFAULT_COOLDOWN_S :: int where "DEFAULT_COOLDOWN_S = 300"
definition DEFAULT_MAX_KEYS :: nat where "DEFAULT_MAX_KEYS = 5"

record Quota =
  req_per_day :: "int option"
  tok_per_day :: "int option"
  tok_in_per_day :: "int option"
  tok_out_per_day :: "int option"
  q_doc :: string

record ModelSpec =
  ms_id :: string
  ms_provider :: string
  ms_capabilities :: "string list"
  ms_transport :: string
  ms_pricing :: pricing
  ms_input_usd_per_mtok :: "rat option"
  ms_output_usd_per_mtok :: "rat option"
  ms_cache_read_usd_per_mtok :: "rat option"
  ms_usd_per_minute :: "rat option"
  ms_litellm_extra :: "(string \<times> json) list"
  ms_register :: bool
  ms_note :: string

record ProbeSpec =
  pr_url :: string
  pr_body :: "(string \<times> json) list option"
  pr_auth :: auth_style
  pr_needs_account_id :: bool

record ProviderSpec =
  ps_name :: string
  ps_adapter :: adapter
  ps_probe :: "ProbeSpec option"
  ps_billing_probe :: "ProbeSpec option"
  ps_quota :: Quota
  ps_cooldown_base_s :: int
  ps_json_reliability :: json_reliability
  ps_cache_sticky :: bool
  ps_explicit_cache :: bool
  ps_cache_key_param :: "string option"
  ps_rate_limit_signs :: "string list"
  ps_auth_signs :: "string list"
  ps_monthly_signs :: "string list"
  ps_quota_headers :: string
  ps_trust_req_header :: bool
  ps_max_request_tokens :: "int option"
  ps_max_keys :: nat
  ps_paid :: bool
  ps_rank :: int
  ps_empty_is_failure :: bool
  ps_native_tools :: bool
  ps_transport_factories :: "(string \<times> string) list"
  ps_defaults :: "(string \<times> string) list"
  ps_rotation :: "(string \<times> string list) list"
  ps_models :: "(string \<times> ModelSpec) list"

definition no_quota :: Quota where
  "no_quota = \<lparr>req_per_day = None, tok_per_day = None, tok_in_per_day = None,
     tok_out_per_day = None, q_doc = []\<rparr>"

text \<open>The dataclass defaults of a \<^verbatim>\<open>ModelSpec\<close>, a \<^verbatim>\<open>ProbeSpec\<close> and a \<^verbatim>\<open>ProviderSpec\<close>.\<close>

definition new_ModelSpec :: "string \<Rightarrow> string \<Rightarrow> string list \<Rightarrow> ModelSpec" where
  "new_ModelSpec mid prov caps =
     \<lparr>ms_id = mid, ms_provider = prov, ms_capabilities = caps, ms_transport = ''litellm'',
      ms_pricing = P_litellm, ms_input_usd_per_mtok = None, ms_output_usd_per_mtok = None,
      ms_cache_read_usd_per_mtok = None, ms_usd_per_minute = None, ms_litellm_extra = [],
      ms_register = True, ms_note = []\<rparr>"

definition new_ProbeSpec :: "string \<Rightarrow> (string \<times> json) list option \<Rightarrow> ProbeSpec" where
  "new_ProbeSpec url body =
     \<lparr>pr_url = url, pr_body = body, pr_auth = A_bearer, pr_needs_account_id = False\<rparr>"

definition new_ProviderSpec :: "string \<Rightarrow> ProviderSpec" where
  "new_ProviderSpec name =
     \<lparr>ps_name = name, ps_adapter = ProviderAdapter, ps_probe = None, ps_billing_probe = None,
      ps_quota = no_quota, ps_cooldown_base_s = DEFAULT_COOLDOWN_S,
      ps_json_reliability = Reliable, ps_cache_sticky = False, ps_explicit_cache = False,
      ps_cache_key_param = None, ps_rate_limit_signs = [], ps_auth_signs = [],
      ps_monthly_signs = [], ps_quota_headers = [], ps_trust_req_header = True,
      ps_max_request_tokens = None, ps_max_keys = DEFAULT_MAX_KEYS, ps_paid = False,
      ps_rank = 1000, ps_empty_is_failure = False, ps_native_tools = False,
      ps_transport_factories = [], ps_defaults = [], ps_rotation = [], ps_models = []\<rparr>"

section \<open>Probes\<close>

text \<open>
  \<^verbatim>\<open>url.format(account_id=...)\<close>: the one replacement field the probe urls use is filled in.
\<close>

fun format_account :: "string \<Rightarrow> string \<Rightarrow> string" where
  "format_account acc [] = []"
| "format_account acc (c # cs) =
     (if starts_with (c # cs) ''{account_id}''
      then acc @ format_account acc (drop 11 cs) else c # format_account acc cs)"

definition probe_build ::
  "ProbeSpec \<Rightarrow> string \<Rightarrow> string option
   \<Rightarrow> (string \<times> string \<times> (string \<times> string) list \<times> (string \<times> json) list option) option" where
  "probe_build p key account_id =
     (if pr_needs_account_id p \<and> (account_id = None \<or> account_id = Some []) then None
      else
        let headers = (case pr_auth p of
              A_anthropic \<Rightarrow> [(''x-api-key'', key), (''anthropic-version'', ''2023-06-01''),
                              (''content-type'', ''application/json'')]
            | A_gemini \<Rightarrow> [(''content-type'', ''application/json''), (''x-goog-api-key'', key)]
            | A_gemini_key \<Rightarrow> [(''x-goog-api-key'', key)]
            | A_bearer \<Rightarrow> [(''Authorization'', ''Bearer '' @ key),
                           (''content-type'', ''application/json'')]);
          meth = (if pr_body p \<noteq> None then ''POST'' else ''GET'')
        in Some (meth,
                 format_account (case account_id of None \<Rightarrow> [] | Some a \<Rightarrow> a) (pr_url p),
                 headers, pr_body p))"

section \<open>Models of one provider\<close>

definition spec_model_for :: "ProviderSpec \<Rightarrow> string \<Rightarrow> string option" where
  "spec_model_for s cap = map_of (ps_defaults s) cap"

definition spec_rotation :: "ProviderSpec \<Rightarrow> string \<Rightarrow> string list" where
  "spec_rotation s cap = (case map_of (ps_rotation s) cap of None \<Rightarrow> [] | Some ms \<Rightarrow> ms)"

definition spec_models_for :: "ProviderSpec \<Rightarrow> string \<Rightarrow> string list" where
  "spec_models_for s cap = (case spec_model_for s cap of
      None \<Rightarrow> []
    | Some primary \<Rightarrow> primary # filter (\<lambda>m. m \<noteq> primary) (spec_rotation s cap))"

text \<open>
  The keyword overrides of one entry of \<^verbatim>\<open>model_meta\<close>: a field left \<open>None\<close> was not given.
\<close>

record model_meta =
  mm_capabilities :: "string list"
  mm_transport :: "string option"
  mm_pricing :: "pricing option"
  mm_input_usd_per_mtok :: "rat option"
  mm_output_usd_per_mtok :: "rat option"
  mm_cache_read_usd_per_mtok :: "rat option"
  mm_usd_per_minute :: "rat option"
  mm_litellm_extra :: "(string \<times> json) list"
  mm_note :: string

definition no_meta :: model_meta where
  "no_meta = \<lparr>mm_capabilities = [], mm_transport = None, mm_pricing = None,
     mm_input_usd_per_mtok = None, mm_output_usd_per_mtok = None,
     mm_cache_read_usd_per_mtok = None, mm_usd_per_minute = None, mm_litellm_extra = [],
     mm_note = []\<rparr>"

definition opt_or :: "'a option \<Rightarrow> 'a \<Rightarrow> 'a" where
  "opt_or x d = (case x of None \<Rightarrow> d | Some v \<Rightarrow> v)"

definition apply_meta :: "model_meta \<Rightarrow> ModelSpec \<Rightarrow> ModelSpec" where
  "apply_meta mm m = m\<lparr>
     ms_transport := opt_or (mm_transport mm) (ms_transport m),
     ms_pricing := opt_or (mm_pricing mm) (ms_pricing m),
     ms_input_usd_per_mtok := mm_input_usd_per_mtok mm,
     ms_output_usd_per_mtok := mm_output_usd_per_mtok mm,
     ms_cache_read_usd_per_mtok := mm_cache_read_usd_per_mtok mm,
     ms_usd_per_minute := mm_usd_per_minute mm,
     ms_litellm_extra := mm_litellm_extra mm,
     ms_note := mm_note mm\<rparr>"

text \<open>\<^verbatim>\<open>caps.setdefault(model, set()).update(cs)\<close> on a dict of capability sets.\<close>

fun add_caps :: "string \<Rightarrow> string list \<Rightarrow> (string \<times> string list) list \<Rightarrow> (string \<times> string list) list"
where
  "add_caps m cs [] = [(m, remdups cs)]"
| "add_caps m cs ((m', xs) # rest) =
     (if m = m' then (m', xs @ filter (\<lambda>c. c \<notin> set xs) (remdups cs)) # rest
      else (m', xs) # add_caps m cs rest)"

definition caps_of_tables ::
  "(string \<times> string) list \<Rightarrow> (string \<times> string list) list \<Rightarrow> string list \<Rightarrow> (string \<times> string list) list"
where
  "caps_of_tables defaults rotation meta_ids =
     (let c1 = fold (\<lambda>(cap, model). add_caps model [cap]) defaults [];
          c2 = fold (\<lambda>(cap, models). fold (\<lambda>model. add_caps model [cap]) models) rotation c1
      in fold (\<lambda>model. add_caps model []) meta_ids c2)"

definition build_models ::
  "string \<Rightarrow> (string \<times> string) list \<Rightarrow> (string \<times> string list) list \<Rightarrow> (string \<times> model_meta) list
   \<Rightarrow> (string \<times> ModelSpec) list" where
  "build_models name defaults rotation metas =
     map (\<lambda>(mid, c).
        let mm = opt_or (map_of metas mid) no_meta
        in (mid, apply_meta mm (new_ModelSpec mid name
                  (c @ filter (\<lambda>x. x \<notin> set c) (remdups (mm_capabilities mm))))))
       (caps_of_tables defaults rotation (map fst metas))"

text \<open>
  \<^verbatim>\<open>build_provider\<close>: the remaining keyword fields are the update \<open>kw\<close> of the
  all-defaults spec.
\<close>

definition build_provider ::
  "string \<Rightarrow> (string \<times> string) list \<Rightarrow> (string \<times> string list) list \<Rightarrow> (string \<times> model_meta) list
   \<Rightarrow> (ProviderSpec \<Rightarrow> ProviderSpec) \<Rightarrow> ProviderSpec" where
  "build_provider name defaults rotation metas kw =
     (kw (new_ProviderSpec name))
       \<lparr>ps_name := name, ps_defaults := defaults, ps_rotation := rotation,
        ps_models := build_models name defaults rotation metas\<rparr>"

section \<open>Registration\<close>

type_synonym registry = "(string \<times> ProviderSpec) list"

datatype registry_error = RegisteredTwice string

definition register :: "ProviderSpec \<Rightarrow> registry \<Rightarrow> registry_error + registry" where
  "register spec reg =
     (if map_of reg (ps_name spec) \<noteq> None then Inl (RegisteredTwice (ps_name spec))
      else Inr (reg @ [(ps_name spec, spec)]))"

fun register_all :: "ProviderSpec list \<Rightarrow> registry \<Rightarrow> registry_error + registry" where
  "register_all [] reg = Inr reg"
| "register_all (s # ss) reg = (case register s reg of
      Inl e \<Rightarrow> Inl e
    | Inr reg' \<Rightarrow> register_all ss reg')"

section \<open>What the derivation guarantees\<close>

lemma register_all_distinct:
  "register_all ss reg = Inr reg' \<Longrightarrow> distinct (map fst reg) \<Longrightarrow>
   distinct (map fst reg') \<and> map fst reg' = map fst reg @ map ps_name ss"
proof (induction ss arbitrary: reg)
  case (Cons s ss)
  from Cons.prems(1) obtain r where r: "register s reg = Inr r" "register_all ss r = Inr reg'"
    by (auto split: sum.splits)
  then have "r = reg @ [(ps_name s, s)]" "map_of reg (ps_name s) = None"
    by (auto simp: register_def split: if_splits)
  then have "distinct (map fst r)" "map fst r = map fst reg @ [ps_name s]"
    using Cons.prems(2) by (auto simp: map_of_eq_None_iff)
  then show ?case
    using Cons.IH[OF r(2)] by (metis append_Cons append_Nil append_assoc list.simps(9))
qed simp

lemma register_all_append:
  "distinct (map ps_name ss) \<Longrightarrow> set (map ps_name ss) \<inter> fst ` set reg = {} \<Longrightarrow>
   register_all ss reg = Inr (reg @ map (\<lambda>s. (ps_name s, s)) ss)"
proof (induction ss arbitrary: reg)
  case (Cons s ss)
  then have "register s reg = Inr (reg @ [(ps_name s, s)])"
    by (simp add: register_def map_of_eq_None_iff)
  then show ?case using Cons.IH[of "reg @ [(ps_name s, s)]"] Cons.prems by auto
qed simp

lemma map_of_add_caps:
  "map_of (add_caps m cs t) x =
     (if x = m then Some (opt_or (map_of t m) [] @
          filter (\<lambda>c. c \<notin> set (opt_or (map_of t m) [])) (remdups cs))
      else map_of t x)"
  by (induction t) (auto simp: opt_or_def)

lemma keys_add_caps: "fst ` set (add_caps m cs t) = insert m (fst ` set t)"
  by (induction m cs t rule: add_caps.induct) (simp_all add: insert_commute)

lemma distinct_add_caps: "distinct (map fst t) \<Longrightarrow> distinct (map fst (add_caps m cs t))"
proof (induction t)
  case (Cons p t)
  obtain a b where "p = (a, b)" by fastforce
  then show ?case
    using Cons.IH Cons.prems by (simp add: keys_add_caps)
qed simp

lemma caps_in_add_caps:
  "set (opt_or (map_of (add_caps m cs t) x) []) =
   set (opt_or (map_of t x) []) \<union> (if x = m then set cs else {})"
proof (cases "x = m")
  case True
  have "set (opt_or (map_of (add_caps m cs t) m) [])
        = set (opt_or (map_of t m) []) \<union> (set cs - set (opt_or (map_of t m) []))"
    by (simp add: map_of_add_caps) (auto simp: opt_or_def)
  with True show ?thesis by auto
qed (simp add: map_of_add_caps)

text \<open>The capability set of a model after a fold of additions is the union of what was added.\<close>

lemma caps_in_fold_add_caps:
  "set (opt_or (map_of (fold (\<lambda>(c, m). add_caps m [c]) ps t) x) []) =
   set (opt_or (map_of t x) []) \<union> {c. (c, x) \<in> set ps}"
  by (induction ps arbitrary: t) (auto simp: caps_in_add_caps split: if_splits)

lemma caps_in_fold_models:
  "set (opt_or (map_of (fold (\<lambda>m. add_caps m [c]) ms t) x) []) =
   set (opt_or (map_of t x) []) \<union> (if x \<in> set ms then {c} else {})"
  by (induction ms arbitrary: t) (auto simp: caps_in_add_caps split: if_splits)

lemma caps_in_fold_rotation:
  "set (opt_or (map_of (fold (\<lambda>(c, ms). fold (\<lambda>m. add_caps m [c]) ms) rs t) x) []) =
   set (opt_or (map_of t x) []) \<union> {c. \<exists>ms. (c, ms) \<in> set rs \<and> x \<in> set ms}"
  by (induction rs arbitrary: t) (auto simp: caps_in_fold_models split: if_splits)

lemma caps_in_fold_meta:
  "set (opt_or (map_of (fold (\<lambda>m. add_caps m []) ms t) x) []) = set (opt_or (map_of t x) [])"
  by (induction ms arbitrary: t) (auto simp: caps_in_add_caps split: if_splits)

lemma caps_of_tables_spec:
  "set (opt_or (map_of (caps_of_tables defaults rotation ids) m) [])
   = {c. (c, m) \<in> set defaults} \<union> {c. \<exists>ms. (c, ms) \<in> set rotation \<and> m \<in> set ms}"
  by (simp add: caps_of_tables_def Let_def caps_in_fold_meta caps_in_fold_rotation
        caps_in_fold_add_caps) (simp add: opt_or_def)

end
