(* ===== verification/Provider_Specs.thy ===== *)
theory Provider_Specs
  imports Registry
begin

text \<open>
  The provider facts of \<^verbatim>\<open>providers/provider_specs/*.py\<close>, one definition per \<^verbatim>\<open>SPEC\<close>, the
  registry they fill in the order of \<^verbatim>\<open>providers/specs.py\<close>, and the views over it that the
  rest of the broker consults. Evaluated tables (which providers are paid, sticky,
  unreliable with JSON, which models they serve) are proved once here, so that no other
  proof unfolds the registry.
\<close>

section \<open>Shared constants\<close>

definition OSS :: string where "OSS = ''gpt-oss-120b''"

definition CHAT_USER_PING :: json where
  "CHAT_USER_PING = JList [JObj [(''role'', JStr ''user''), (''content'', JStr ''.'')]]"

definition chat_probe :: "string \<Rightarrow> string \<Rightarrow> ProbeSpec" where
  "chat_probe url model = new_ProbeSpec url
     (Some [(''model'', JStr model), (''messages'', CHAT_USER_PING), (''max_tokens'', JInt 1)])"

definition quota_doc :: "string \<Rightarrow> Quota" where
  "quota_doc doc = no_quota\<lparr>q_doc := doc\<rparr>"

section \<open>The specs\<close>

definition cerebras_SPEC :: ProviderSpec where
  "cerebras_SPEC = build_provider ''cerebras''
     [(''chat:fast'', ''cerebras/'' @ OSS), (''chat:smart'', ''cerebras/'' @ OSS),
      (''chat:code'', ''cerebras/'' @ OSS), (''structured'', ''cerebras/'' @ OSS)] [] []
     (\<lambda>s. s\<lparr>ps_rank := 10, ps_max_keys := 3, ps_cooldown_base_s := 60,
        ps_adapter := CerebrasAdapter, ps_json_reliability := Unreliable,
        ps_cache_key_param := Some ''prompt_cache_key'',
        ps_quota := (quota_doc ''https://inference-docs.cerebras.ai/support/rate-limits'')
          \<lparr>tok_per_day := Some 1000000\<rparr>,
        ps_probe := Some (chat_probe ''https://api.cerebras.ai/v1/chat/completions'' OSS),
        ps_quota_headers := ''openai'', ps_trust_req_header := False\<rparr>)"

definition groq_SPEC :: ProviderSpec where
  "groq_SPEC = build_provider ''groq''
     [(''chat:fast'', ''groq/openai/'' @ OSS), (''chat:smart'', ''groq/openai/'' @ OSS),
      (''chat:code'', ''groq/openai/'' @ OSS), (''prefilter'', ''groq/openai/'' @ OSS),
      (''structured'', ''groq/openai/'' @ OSS), (''translate'', ''groq/openai/'' @ OSS),
      (''transcription'', ''groq/whisper-large-v3-turbo'')] []
     [(''groq/whisper-large-v3-turbo'',
         no_meta\<lparr>mm_pricing := Some P_per_minute, mm_usd_per_minute := Some (4 / 100 / 60)\<rparr>),
      (''groq/whisper-large-v3'',
         no_meta\<lparr>mm_pricing := Some P_per_minute, mm_usd_per_minute := Some (111 / 1000 / 60)\<rparr>)]
     (\<lambda>s. s\<lparr>ps_rank := 20, ps_cooldown_base_s := 60, ps_max_request_tokens := Some 8000,
        ps_json_reliability := Unreliable,
        ps_quota := (quota_doc ''https://console.groq.com/docs/rate-limits'')
          \<lparr>req_per_day := Some 14400, tok_per_day := Some 500000\<rparr>,
        ps_probe := Some (chat_probe ''https://api.groq.com/openai/v1/chat/completions''
                            (''openai/'' @ OSS)),
        ps_quota_headers := ''openai''\<rparr>)"

definition GEMINI_CHAT_ROTATION :: "string list" where
  "GEMINI_CHAT_ROTATION = [''gemini/gemini-3.5-flash-lite'', ''gemini/gemini-3.6-flash'',
     ''gemini/gemini-3.1-flash-lite'', ''gemini/gemini-3.5-flash'']"

definition GEMINI_VISION_ROTATION :: "string list" where
  "GEMINI_VISION_ROTATION = [''gemini/gemini-3.5-flash-lite'', ''gemini/gemini-3.5-flash'',
     ''gemini/gemini-3.1-flash-lite'']"

definition GEMINI_CHAT_LANES :: "string list" where
  "GEMINI_CHAT_LANES = [''chat:fast'', ''chat:smart'', ''chat:sales'', ''chat:code'',
     ''chat:edit'', ''structured'', ''prefilter'', ''translate'']"

definition gemini_SPEC :: ProviderSpec where
  "gemini_SPEC = build_provider ''gemini''
     [(''chat:fast'', ''gemini/gemini-2.5-flash''), (''chat:smart'', ''gemini/gemini-2.5-flash''),
      (''chat:sales'', ''gemini/gemini-2.5-flash''), (''chat:code'', ''gemini/gemini-2.5-flash''),
      (''chat:edit'', ''gemini/gemini-2.5-flash''), (''structured'', ''gemini/gemini-2.5-flash''),
      (''vision'', ''gemini/gemini-2.5-flash''), (''prefilter'', ''gemini/gemini-2.5-flash-lite''),
      (''translate'', ''gemini/gemini-2.5-flash-lite''),
      (''transcription'', ''gemini/gemini-3.5-transcribe'')]
     (map (\<lambda>c. (c, GEMINI_CHAT_ROTATION)) GEMINI_CHAT_LANES @ [(''vision'', GEMINI_VISION_ROTATION)])
     [(''gemini/gemini-3.5-transcribe'',
         no_meta\<lparr>mm_transport := Some ''gemini_asr'', mm_pricing := Some P_per_minute,
           mm_usd_per_minute := Some (5 / 1000)\<rparr>)]
     (\<lambda>s. s\<lparr>ps_rank := 30, ps_max_keys := 3, ps_cooldown_base_s := 60,
        ps_adapter := GeminiAdapter, ps_native_tools := True,
        ps_transport_factories :=
          [(''gemini_asr'', ''aibroker.providers.gemini_asr:GeminiAsrTransport'')],
        ps_quota := (quota_doc ''https://ai.google.dev/gemini-api/docs/rate-limits'')
          \<lparr>req_per_day := Some 1500\<rparr>,
        ps_probe := Some ((new_ProbeSpec
          ''https://generativelanguage.googleapis.com/v1beta/models?pageSize=1'' None)
            \<lparr>pr_auth := A_gemini_key\<rparr>),
        ps_billing_probe := Some ((new_ProbeSpec
          (''https://generativelanguage.googleapis.com/v1beta/models/'' @
           ''gemini-2.5-flash-lite:generateContent'')
          (Some [(''contents'', JList [JObj [(''parts'', JList [JObj [(''text'', JStr ''ping'')]])]]),
                 (''generationConfig'', JObj [(''maxOutputTokens'', JInt 1)])]))
            \<lparr>pr_auth := A_gemini\<rparr>)\<rparr>)"

definition sambanova_SPEC :: ProviderSpec where
  "sambanova_SPEC = build_provider ''sambanova''
     [(''chat:fast'', ''sambanova/gemma-4-31B-it''), (''chat:smart'', ''sambanova/DeepSeek-V3.2''),
      (''chat:sales'', ''sambanova/DeepSeek-V3.2''), (''chat:code'', ''sambanova/DeepSeek-V3.2''),
      (''prefilter'', ''sambanova/gemma-4-31B-it''), (''vision'', ''sambanova/gemma-4-31B-it'')] [] []
     (\<lambda>s. s\<lparr>ps_rank := 40, ps_cooldown_base_s := 120, ps_adapter := SambanovaAdapter,
        ps_quota_headers := ''openai'',
        ps_quota := (quota_doc ''https://docs.sambanova.ai/cloud/docs/get-started/rate-limits'')
          \<lparr>req_per_day := Some 20\<rparr>,
        ps_probe := Some (chat_probe ''https://api.sambanova.ai/v1/chat/completions''
                            ''gemma-4-31B-it'')\<rparr>)"

definition zai_SPEC :: ProviderSpec where
  "zai_SPEC = build_provider ''zai''
     [(''chat:fast'', ''zai/glm-4.7-flash''), (''prefilter'', ''zai/glm-4.7-flash'')] [] []
     (\<lambda>s. s\<lparr>ps_rank := 50, ps_cooldown_base_s := 60, ps_adapter := ZaiAdapter,
        ps_json_reliability := Incapable, ps_auth_signs := [''invalid api parameter''],
        ps_quota := quota_doc ''https://docs.z.ai/guides/overview/quick-start'',
        ps_probe := Some (chat_probe ''https://api.z.ai/api/paas/v4/chat/completions''
                            ''glm-4.5-flash'')\<rparr>)"

definition cloudflare_SPEC :: ProviderSpec where
  "cloudflare_SPEC = build_provider ''cloudflare''
     [(''vision'', ''cloudflare/@cf/llava-hf/llava-1.5-7b-hf''),
      (''chat:fast'', ''cloudflare/@cf/openai/gpt-oss-120b''),
      (''chat:smart'', ''cloudflare/@cf/openai/gpt-oss-120b''),
      (''chat:code'', ''cloudflare/@cf/openai/gpt-oss-120b''),
      (''prefilter'', ''cloudflare/@cf/openai/gpt-oss-120b'')] []
     [(''cloudflare/@cf/llava-hf/llava-1.5-7b-hf'',
         no_meta\<lparr>mm_pricing := Some P_free,
           mm_note := ''no litellm price; free neuron budget, no card on file''\<rparr>)]
     (\<lambda>s. s\<lparr>ps_rank := 60, ps_cooldown_base_s := 120, ps_adapter := CloudflareAdapter,
        ps_rate_limit_signs := [''daily free allocation'', ''neurons''],
        ps_quota := quota_doc ''https://developers.cloudflare.com/workers-ai/platform/pricing/'',
        ps_probe := Some ((chat_probe
          ''https://api.cloudflare.com/client/v4/accounts/{account_id}/ai/v1/chat/completions''
          ''@cf/openai/gpt-oss-120b'')\<lparr>pr_needs_account_id := True\<rparr>)\<rparr>)"

definition openrouter_SPEC :: ProviderSpec where
  "openrouter_SPEC = build_provider ''openrouter''
     [(''chat:fast'', ''openrouter/google/gemma-4-31b-it:free''),
      (''chat:smart'', ''openrouter/google/gemma-4-31b-it:free''),
      (''chat:code'', ''openrouter/google/gemma-4-31b-it:free''),
      (''prefilter'', ''openrouter/google/gemma-4-31b-it:free''),
      (''structured'', ''openrouter/google/gemma-4-31b-it:free''),
      (''vision'', ''openrouter/google/gemma-4-31b-it:free''),
      (''decision'', ''openrouter/typesafe/jev-1.13'')] []
     [(''openrouter/typesafe/jev-1.13'',
         no_meta\<lparr>mm_transport := Some ''openrouter_decisions'', mm_pricing := Some P_override,
           mm_input_usd_per_mtok := Some (42 / 1000), mm_output_usd_per_mtok := Some 0\<rparr>),
      (''openrouter/google/gemma-4-31b-it:free'', no_meta\<lparr>mm_pricing := Some P_free\<rparr>),
      (''openrouter/meta/muse-wonder'',
         no_meta\<lparr>mm_pricing := Some P_override, mm_capabilities := [''chat:code''],
           mm_input_usd_per_mtok := Some 4, mm_output_usd_per_mtok := Some 20\<rparr>),
      (''openrouter/x-ai/grok-4.7'',
         no_meta\<lparr>mm_pricing := Some P_override, mm_capabilities := [''chat:code''],
           mm_input_usd_per_mtok := Some 2, mm_output_usd_per_mtok := Some 6\<rparr>),
      (''openrouter/xiaomi/mimo-v2.6-pro'',
         no_meta\<lparr>mm_pricing := Some P_override, mm_capabilities := [''chat:code''],
           mm_input_usd_per_mtok := Some (435 / 1000), mm_output_usd_per_mtok := Some (87 / 100)\<rparr>),
      (''openrouter/qwen/qwen3.8-max-0902'',
         no_meta\<lparr>mm_pricing := Some P_override, mm_capabilities := [''chat:code''],
           mm_input_usd_per_mtok := Some 2, mm_output_usd_per_mtok := Some 6\<rparr>),
      (''openrouter/moonshotai/kimi-k3'',
         no_meta\<lparr>mm_pricing := Some P_override, mm_capabilities := [''chat:code''],
           mm_input_usd_per_mtok := Some (45 / 100), mm_output_usd_per_mtok := Some 15\<rparr>),
      (''openrouter/inception/mercury-decide:free'',
         no_meta\<lparr>mm_transport := Some ''openrouter_decisions'', mm_pricing := Some P_free,
           mm_capabilities := [''decision'']\<rparr>)]
     (\<lambda>s. s\<lparr>ps_rank := 70, ps_cooldown_base_s := 300, ps_json_reliability := Unreliable,
        ps_transport_factories :=
          [(''openrouter_decisions'', ''aibroker.providers.decisions:OpenRouterDecisions'')],
        ps_cache_key_param := Some ''session_id'', ps_quota_headers := ''openai'',
        ps_quota := (quota_doc ''https://openrouter.ai/docs/api-reference/limits'')
          \<lparr>req_per_day := Some 200\<rparr>,
        ps_probe := Some (new_ProbeSpec ''https://openrouter.ai/api/v1/auth/key'' None),
        ps_billing_probe := Some (chat_probe ''https://openrouter.ai/api/v1/chat/completions''
                                    ''openai/gpt-4o-mini'')\<rparr>)"

definition mistral_SPEC :: ProviderSpec where
  "mistral_SPEC = build_provider ''mistral''
     [(''chat:fast'', ''mistral/mistral-small-latest''),
      (''chat:smart'', ''mistral/mistral-large-latest''),
      (''chat:code'', ''mistral/codestral-latest''),
      (''prefilter'', ''mistral/mistral-small-latest''),
      (''structured'', ''mistral/mistral-small-latest''),
      (''translate'', ''mistral/mistral-small-latest'')] [] []
     (\<lambda>s. s\<lparr>ps_rank := 80, ps_cooldown_base_s := 10, ps_native_tools := True,
        ps_cache_key_param := Some ''prompt_cache_key'',
        ps_rate_limit_signs := [''unauthorized''], ps_monthly_signs := [''unauthorized''],
        ps_quota_headers := ''openai'',
        ps_quota := quota_doc ''https://docs.mistral.ai/deployment/laplateforme/tier/'',
        ps_probe := Some (new_ProbeSpec ''https://api.mistral.ai/v1/models'' None),
        ps_billing_probe := Some (chat_probe ''https://api.mistral.ai/v1/chat/completions''
                                    ''mistral-small-latest'')\<rparr>)"

definition cohere_SPEC :: ProviderSpec where
  "cohere_SPEC = build_provider ''cohere''
     [(''chat:fast'', ''cohere/command-r7b-12-2024''), (''chat:smart'', ''cohere/command-r7b-12-2024''),
      (''chat:code'', ''cohere/command-r7b-12-2024''), (''prefilter'', ''cohere/command-r7b-12-2024''),
      (''structured'', ''cohere/command-r7b-12-2024''), (''translate'', ''cohere/command-r7b-12-2024''),
      (''embedding'', ''cohere/embed-english-v3.0'')] [] []
     (\<lambda>s. s\<lparr>ps_rank := 90, ps_cooldown_base_s := 60, ps_json_reliability := Unreliable,
        ps_quota := (quota_doc ''https://docs.cohere.com/v2/docs/rate-limits'')
          \<lparr>req_per_day := Some 1000\<rparr>,
        ps_probe := Some (new_ProbeSpec ''https://api.cohere.com/v1/models?page_size=1'' None),
        ps_billing_probe := Some (new_ProbeSpec ''https://api.cohere.com/v2/chat''
          (Some [(''model'', JStr ''command-r7b-12-2024''), (''max_tokens'', JInt 1),
                 (''messages'', CHAT_USER_PING)]))\<rparr>)"

definition nvidia_SPEC :: ProviderSpec where
  "nvidia_SPEC = build_provider ''nvidia''
     [(''chat:deep'', ''nvidia_nim/nvidia/nemotron-3-ultra-550b-a55b'')] []
     [(''nvidia_nim/nvidia/nemotron-3-ultra-550b-a55b'',
         no_meta\<lparr>mm_pricing := Some P_free,
           mm_note := ''no litellm price; credits-based free tier'',
           mm_litellm_extra := [(''litellm_provider'', JStr ''nvidia_nim'')]\<rparr>)]
     (\<lambda>s. s\<lparr>ps_rank := 100, ps_cooldown_base_s := 300,
        ps_quota := quota_doc ''https://build.nvidia.com/settings/api-keys'',
        ps_probe := Some (chat_probe ''https://integrate.api.nvidia.com/v1/chat/completions''
                            ''nvidia/nemotron-3-ultra-550b-a55b'')\<rparr>)"

definition voyage_SPEC :: ProviderSpec where
  "voyage_SPEC = build_provider ''voyage'' [(''embedding'', ''voyage/voyage-4'')] []
     [(''voyage/voyage-4'',
         no_meta\<lparr>mm_pricing := Some P_override, mm_input_usd_per_mtok := Some (6 / 100),
           mm_output_usd_per_mtok := Some 0,
           mm_litellm_extra := [(''litellm_provider'', JStr ''voyage''), (''mode'', JStr ''embedding'')]\<rparr>)]
     (\<lambda>s. s\<lparr>ps_rank := 300, ps_cooldown_base_s := 60,
        ps_rate_limit_signs := [''reduced rate limits''],
        ps_quota := quota_doc ''https://docs.voyageai.com/docs/pricing'',
        ps_probe := Some (new_ProbeSpec ''https://api.voyageai.com/v1/embeddings''
          (Some [(''model'', JStr ''voyage-4''), (''input'', JStr ''.'')]))\<rparr>)"

definition local_SPEC :: ProviderSpec where
  "local_SPEC = build_provider ''local'' [(''vision'', ''local/qwen3vl'')] []
     [(''local/qwen3vl'',
         no_meta\<lparr>mm_transport := Some ''local_vision'', mm_pricing := Some P_local\<rparr>)]
     (\<lambda>s. s\<lparr>ps_rank := 5, ps_cooldown_base_s := 30,
        ps_transport_factories :=
          [(''local_vision'', ''aibroker.providers.local_vision:LocalVisionTransport'')],
        ps_empty_is_failure := True,
        ps_quota := quota_doc
          ''https://github.com/zapleoceo/muai/blob/master/vera3/docs/asr-local.md''\<rparr>)"

definition deepseek_SPEC :: ProviderSpec where
  "deepseek_SPEC = build_provider ''deepseek''
     [(''chat:fast'', ''deepseek/deepseek-flash''), (''chat:smart'', ''deepseek/deepseek-flash''),
      (''chat:sales'', ''deepseek/deepseek-flash''), (''chat:edit'', ''deepseek/deepseek-flash''),
      (''chat:code'', ''deepseek/deepseek-flash''), (''vision'', ''deepseek/deepseek-flash'')] []
     [(''deepseek/deepseek-flash'',
         no_meta\<lparr>mm_pricing := Some P_override, mm_input_usd_per_mtok := Some (15 / 100),
           mm_cache_read_usd_per_mtok := Some (3 / 1000), mm_output_usd_per_mtok := Some (60 / 100),
           mm_litellm_extra := [(''max_input_tokens'', JInt 1000000),
             (''max_output_tokens'', JInt 384000), (''litellm_provider'', JStr ''deepseek''),
             (''mode'', JStr ''chat''), (''supports_vision'', JBool True),
             (''supports_response_schema'', JBool True), (''supports_prompt_caching'', JBool True)]\<rparr>)]
     (\<lambda>s. s\<lparr>ps_rank := 200, ps_paid := True, ps_cache_sticky := True, ps_cooldown_base_s := 30,
        ps_adapter := DeepseekAdapter,
        ps_rate_limit_signs := [''response_format type is unavailable''],
        ps_quota_headers := ''openai'',
        ps_quota := quota_doc ''https://api-docs.deepseek.com/quick_start/pricing'',
        ps_probe := Some (new_ProbeSpec ''https://api.deepseek.com/chat/completions''
          (Some [(''model'', JStr ''deepseek-flash''), (''messages'', CHAT_USER_PING),
                 (''max_tokens'', JInt 1), (''thinking'', JObj [(''type'', JStr ''disabled'')])]))\<rparr>)"

definition anthropic_SPEC :: ProviderSpec where
  "anthropic_SPEC = build_provider ''anthropic''
     [(''chat:fast'', ''anthropic/claude-haiku-4-5''), (''chat:smart'', ''anthropic/claude-sonnet-5''),
      (''chat:sales'', ''anthropic/claude-sonnet-5''), (''chat:code'', ''anthropic/claude-sonnet-5''),
      (''chat:edit'', ''anthropic/claude-sonnet-5''), (''structured'', ''anthropic/claude-haiku-4-5''),
      (''vision'', ''anthropic/claude-sonnet-5'')] [] []
     (\<lambda>s. s\<lparr>ps_rank := 210, ps_paid := True, ps_cache_sticky := True, ps_explicit_cache := True,
        ps_cooldown_base_s := 120, ps_native_tools := True, ps_adapter := AnthropicAdapter,
        ps_quota_headers := ''anthropic'',
        ps_quota := quota_doc ''https://docs.claude.com/en/docs/about-claude/usage-limits'',
        ps_probe := Some ((new_ProbeSpec ''https://api.anthropic.com/v1/messages''
          (Some [(''model'', JStr ''claude-haiku-4-5''), (''max_tokens'', JInt 1),
                 (''messages'', CHAT_USER_PING)]))\<lparr>pr_auth := A_anthropic\<rparr>)\<rparr>)"

definition openai_SPEC :: ProviderSpec where
  "openai_SPEC = build_provider ''openai''
     [(''chat:fast'', ''openai/gpt-5-mini''), (''chat:smart'', ''openai/gpt-5''),
      (''chat:code'', ''openai/gpt-5''), (''structured'', ''openai/gpt-5-mini''),
      (''vision'', ''openai/gpt-5-mini''), (''transcription'', ''openai/whisper-1'')] []
     [(''openai/whisper-1'',
         no_meta\<lparr>mm_pricing := Some P_per_minute, mm_usd_per_minute := Some (6 / 1000)\<rparr>)]
     (\<lambda>s. s\<lparr>ps_rank := 220, ps_paid := True, ps_cooldown_base_s := 120, ps_native_tools := True,
        ps_cache_key_param := Some ''prompt_cache_key'', ps_quota_headers := ''openai'',
        ps_quota := quota_doc ''https://platform.openai.com/docs/guides/rate-limits'',
        ps_probe := Some (chat_probe ''https://api.openai.com/v1/chat/completions''
                            ''gpt-4o-mini'')\<rparr>)"

section \<open>The filled registry\<close>

definition SPECS :: "ProviderSpec list" where
  "SPECS = [cerebras_SPEC, groq_SPEC, gemini_SPEC, sambanova_SPEC, zai_SPEC, cloudflare_SPEC,
     openrouter_SPEC, mistral_SPEC, cohere_SPEC, nvidia_SPEC, voyage_SPEC, local_SPEC,
     deepseek_SPEC, anthropic_SPEC, openai_SPEC]"

text \<open>
  The registry after the import of \<^verbatim>\<open>specs.py\<close>; \<open>REGISTRY_filled\<close> below shows that no
  registration raises, so the \<open>Inl\<close> branch is never taken.
\<close>

definition REGISTRY :: registry where
  "REGISTRY = (case register_all SPECS [] of Inr reg \<Rightarrow> reg | Inl _ \<Rightarrow> [])"

section \<open>Views\<close>

definition get_spec :: "string \<Rightarrow> ProviderSpec option" where
  "get_spec provider = map_of REGISTRY provider"

definition spec_or_default :: "string option \<Rightarrow> ProviderSpec" where
  "spec_or_default provider =
     opt_or (map_of REGISTRY (opt_or provider [])) (new_ProviderSpec [])"

definition provider_names :: "string list" where
  "provider_names = map fst REGISTRY"

definition provider_of_model_id :: "string \<Rightarrow> string" where
  "provider_of_model_id model = fst (split_first CHR ''/'' model)"

definition paid_providers :: "string list" where
  "paid_providers = map fst (filter (\<lambda>(n, s). ps_paid s) REGISTRY)"

definition cache_sticky_providers :: "string list" where
  "cache_sticky_providers = map fst (filter (\<lambda>(n, s). ps_cache_sticky s) REGISTRY)"

definition providers_with_json :: "json_reliability \<Rightarrow> string list" where
  "providers_with_json level = map fst (filter (\<lambda>(n, s). ps_json_reliability s = level) REGISTRY)"

definition max_keys_for :: "string \<Rightarrow> nat" where
  "max_keys_for provider = ps_max_keys (spec_or_default (Some provider))"

definition cooldown_base_for :: "string \<Rightarrow> int" where
  "cooldown_base_for provider = ps_cooldown_base_s (spec_or_default (Some provider))"

definition quotas :: "(string \<times> Quota) list" where
  "quotas = map (\<lambda>(n, s). (n, ps_quota s)) REGISTRY"

definition model_for :: "string \<Rightarrow> string \<Rightarrow> string option" where
  "model_for provider capability = spec_model_for (spec_or_default (Some provider)) capability"

definition models_for :: "string \<Rightarrow> string \<Rightarrow> string list" where
  "models_for provider capability = spec_models_for (spec_or_default (Some provider)) capability"

definition rotation_for :: "string \<Rightarrow> string \<Rightarrow> string list" where
  "rotation_for provider capability = spec_rotation (spec_or_default (Some provider)) capability"

definition model_spec :: "string \<Rightarrow> ModelSpec option" where
  "model_spec model_id =
     (case map_of REGISTRY (provider_of_model_id model_id) of
        Some s \<Rightarrow> (case map_of (ps_models s) model_id of
            Some m \<Rightarrow> Some m
          | None \<Rightarrow> map_of (concat (map (\<lambda>(n, s). ps_models s) REGISTRY)) model_id)
      | None \<Rightarrow> map_of (concat (map (\<lambda>(n, s). ps_models s) REGISTRY)) model_id)"

definition all_models :: "ModelSpec list" where
  "all_models = concat (map (\<lambda>(n, s). map snd (ps_models s)) REGISTRY)"

definition default_models :: "(string \<times> (string \<times> string) list) list" where
  "default_models = map (\<lambda>(n, s). (n, ps_defaults s)) REGISTRY"

section \<open>Evaluated tables\<close>

lemmas spec_defs = SPECS_def cerebras_SPEC_def groq_SPEC_def gemini_SPEC_def sambanova_SPEC_def zai_SPEC_def cloudflare_SPEC_def openrouter_SPEC_def mistral_SPEC_def cohere_SPEC_def nvidia_SPEC_def voyage_SPEC_def local_SPEC_def deepseek_SPEC_def anthropic_SPEC_def openai_SPEC_def
  build_provider_def new_ProviderSpec_def new_ProbeSpec_def chat_probe_def quota_doc_def no_quota_def
  DEFAULT_COOLDOWN_S_def DEFAULT_MAX_KEYS_def OSS_def

lemma SPECS_names: "map ps_name SPECS = [''cerebras'', ''groq'', ''gemini'', ''sambanova'',
   ''zai'', ''cloudflare'', ''openrouter'', ''mistral'', ''cohere'', ''nvidia'', ''voyage'', ''local'',
   ''deepseek'', ''anthropic'', ''openai'']"
  by (simp add: spec_defs)

lemma REGISTRY_filled: "register_all SPECS [] = Inr REGISTRY"
  and REGISTRY_eq: "REGISTRY = map (\<lambda>s. (ps_name s, s)) SPECS"
proof -
  have "register_all SPECS [] = Inr (map (\<lambda>s. (ps_name s, s)) SPECS)"
    using register_all_append[of SPECS "[]"] by (simp add: SPECS_names)
  then show "register_all SPECS [] = Inr REGISTRY" "REGISTRY = map (\<lambda>s. (ps_name s, s)) SPECS"
    by (simp_all add: REGISTRY_def)
qed

text \<open>A fact about every spec of the registry, read off the list of specs.\<close>

lemma REGISTRY_map: "map (\<lambda>(n, s). f n s) REGISTRY = map (\<lambda>s. f (ps_name s) s) SPECS"
  by (simp add: REGISTRY_eq comp_def)

lemma REGISTRY_filter: "map fst (filter (\<lambda>(n, s). P s) REGISTRY) = map ps_name (filter P SPECS)"
  by (simp add: REGISTRY_eq filter_map comp_def)

lemma provider_names_eval [code]: "provider_names = [''cerebras'', ''groq'', ''gemini'', ''sambanova'',
   ''zai'', ''cloudflare'', ''openrouter'', ''mistral'', ''cohere'', ''nvidia'', ''voyage'', ''local'',
   ''deepseek'', ''anthropic'', ''openai'']"
  unfolding provider_names_def REGISTRY_eq by (simp add: comp_def SPECS_names)

lemma paid_providers_eval [code]: "paid_providers = [''deepseek'', ''anthropic'', ''openai'']"
  unfolding paid_providers_def REGISTRY_filter by (simp add: spec_defs)

lemma cache_sticky_eval [code]: "cache_sticky_providers = [''deepseek'', ''anthropic'']"
  unfolding cache_sticky_providers_def REGISTRY_filter by (simp add: spec_defs)

lemma json_unreliable_eval:
  "providers_with_json Unreliable = [''cerebras'', ''groq'', ''openrouter'', ''cohere'']"
  unfolding providers_with_json_def REGISTRY_filter by (simp add: spec_defs)

lemma json_incapable_eval: "providers_with_json Incapable = [''zai'']"
  unfolding providers_with_json_def REGISTRY_filter by (simp add: spec_defs)

text \<open>The default models of every provider, written out.\<close>

definition default_table :: "(string \<times> (string \<times> string) list) list" where
  "default_table =
    [(''cerebras'',
      [(''chat:fast'', ''cerebras/gpt-oss-120b''), (''chat:smart'', ''cerebras/gpt-oss-120b''),
       (''chat:code'', ''cerebras/gpt-oss-120b''), (''structured'', ''cerebras/gpt-oss-120b'')]),
     (''groq'',
      [(''chat:fast'', ''groq/openai/gpt-oss-120b''), (''chat:smart'', ''groq/openai/gpt-oss-120b''),
       (''chat:code'', ''groq/openai/gpt-oss-120b''), (''prefilter'', ''groq/openai/gpt-oss-120b''),
       (''structured'', ''groq/openai/gpt-oss-120b''), (''translate'', ''groq/openai/gpt-oss-120b''),
       (''transcription'', ''groq/whisper-large-v3-turbo'')]),
     (''gemini'',
      [(''chat:fast'', ''gemini/gemini-2.5-flash''), (''chat:smart'', ''gemini/gemini-2.5-flash''),
       (''chat:sales'', ''gemini/gemini-2.5-flash''), (''chat:code'', ''gemini/gemini-2.5-flash''),
       (''chat:edit'', ''gemini/gemini-2.5-flash''), (''structured'', ''gemini/gemini-2.5-flash''),
       (''vision'', ''gemini/gemini-2.5-flash''), (''prefilter'', ''gemini/gemini-2.5-flash-lite''),
       (''translate'', ''gemini/gemini-2.5-flash-lite''),
       (''transcription'', ''gemini/gemini-3.5-transcribe'')]),
     (''sambanova'',
      [(''chat:fast'', ''sambanova/gemma-4-31B-it''), (''chat:smart'', ''sambanova/DeepSeek-V3.2''),
       (''chat:sales'', ''sambanova/DeepSeek-V3.2''), (''chat:code'', ''sambanova/DeepSeek-V3.2''),
       (''prefilter'', ''sambanova/gemma-4-31B-it''), (''vision'', ''sambanova/gemma-4-31B-it'')]),
     (''zai'',
      [(''chat:fast'', ''zai/glm-4.7-flash''), (''prefilter'', ''zai/glm-4.7-flash'')]),
     (''cloudflare'',
      [(''vision'', ''cloudflare/@cf/llava-hf/llava-1.5-7b-hf''),
       (''chat:fast'', ''cloudflare/@cf/openai/gpt-oss-120b''),
       (''chat:smart'', ''cloudflare/@cf/openai/gpt-oss-120b''),
       (''chat:code'', ''cloudflare/@cf/openai/gpt-oss-120b''),
       (''prefilter'', ''cloudflare/@cf/openai/gpt-oss-120b'')]),
     (''openrouter'',
      [(''chat:fast'', ''openrouter/google/gemma-4-31b-it:free''),
       (''chat:smart'', ''openrouter/google/gemma-4-31b-it:free''),
       (''chat:code'', ''openrouter/google/gemma-4-31b-it:free''),
       (''prefilter'', ''openrouter/google/gemma-4-31b-it:free''),
       (''structured'', ''openrouter/google/gemma-4-31b-it:free''),
       (''vision'', ''openrouter/google/gemma-4-31b-it:free''),
       (''decision'', ''openrouter/typesafe/jev-1.13'')]),
     (''mistral'',
      [(''chat:fast'', ''mistral/mistral-small-latest''),
       (''chat:smart'', ''mistral/mistral-large-latest''),
       (''chat:code'', ''mistral/codestral-latest''),
       (''prefilter'', ''mistral/mistral-small-latest''),
       (''structured'', ''mistral/mistral-small-latest''),
       (''translate'', ''mistral/mistral-small-latest'')]),
     (''cohere'',
      [(''chat:fast'', ''cohere/command-r7b-12-2024''), (''chat:smart'', ''cohere/command-r7b-12-2024''),
       (''chat:code'', ''cohere/command-r7b-12-2024''), (''prefilter'', ''cohere/command-r7b-12-2024''),
       (''structured'', ''cohere/command-r7b-12-2024''), (''translate'', ''cohere/command-r7b-12-2024''),
       (''embedding'', ''cohere/embed-english-v3.0'')]),
     (''nvidia'',
      [(''chat:deep'', ''nvidia_nim/nvidia/nemotron-3-ultra-550b-a55b'')]),
     (''voyage'',
      [(''embedding'', ''voyage/voyage-4'')]),
     (''local'',
      [(''vision'', ''local/qwen3vl'')]),
     (''deepseek'',
      [(''chat:fast'', ''deepseek/deepseek-flash''), (''chat:smart'', ''deepseek/deepseek-flash''),
       (''chat:sales'', ''deepseek/deepseek-flash''), (''chat:edit'', ''deepseek/deepseek-flash''),
       (''chat:code'', ''deepseek/deepseek-flash''), (''vision'', ''deepseek/deepseek-flash'')]),
     (''anthropic'',
      [(''chat:fast'', ''anthropic/claude-haiku-4-5''), (''chat:smart'', ''anthropic/claude-sonnet-5''),
       (''chat:sales'', ''anthropic/claude-sonnet-5''), (''chat:code'', ''anthropic/claude-sonnet-5''),
       (''chat:edit'', ''anthropic/claude-sonnet-5''), (''structured'', ''anthropic/claude-haiku-4-5''),
       (''vision'', ''anthropic/claude-sonnet-5'')]),
     (''openai'',
      [(''chat:fast'', ''openai/gpt-5-mini''), (''chat:smart'', ''openai/gpt-5''),
       (''chat:code'', ''openai/gpt-5''), (''structured'', ''openai/gpt-5-mini''),
       (''vision'', ''openai/gpt-5-mini''), (''transcription'', ''openai/whisper-1'')])]"

lemma default_models_table: "default_models = default_table"
  unfolding default_models_def REGISTRY_map by (simp add: spec_defs default_table_def)

text \<open>
  The provider facts the router consults one at a time, written out: JSON level, number of
  keys tried, cooldown base.
\<close>

definition facts_table :: "(string \<times> json_reliability \<times> nat \<times> int) list" where
  "facts_table =
    [(''cerebras'', Unreliable, 3, 60), (''groq'', Unreliable, 5, 60), (''gemini'', Reliable, 3, 60),
     (''sambanova'', Reliable, 5, 120), (''zai'', Incapable, 5, 60), (''cloudflare'', Reliable, 5, 120),
     (''openrouter'', Unreliable, 5, 300), (''mistral'', Reliable, 5, 10),
     (''cohere'', Unreliable, 5, 60), (''nvidia'', Reliable, 5, 300), (''voyage'', Reliable, 5, 60),
     (''local'', Reliable, 5, 30), (''deepseek'', Reliable, 5, 30), (''anthropic'', Reliable, 5, 120),
     (''openai'', Reliable, 5, 120)]"

definition facts_of :: "ProviderSpec \<Rightarrow> json_reliability \<times> nat \<times> int" where
  "facts_of s = (ps_json_reliability s, ps_max_keys s, ps_cooldown_base_s s)"

lemma facts_table_eval: "map (\<lambda>(n, s). (n, facts_of s)) REGISTRY = facts_table"
  unfolding REGISTRY_map by (simp add: spec_defs facts_of_def facts_table_def)

lemma map_of_map_snd: "map_of (map (\<lambda>(n, s). (n, f s)) xs) k = map_option f (map_of xs k)"
  by (induction xs) auto

lemma model_for_table [code]:
  "model_for p cap = (case map_of default_table p of None \<Rightarrow> None | Some d \<Rightarrow> map_of d cap)"
proof -
  have "map_of default_table p = map_option ps_defaults (map_of REGISTRY p)"
    by (simp add: default_models_table[symmetric] default_models_def map_of_map_snd)
  then show ?thesis
    by (cases "map_of REGISTRY p")
       (simp_all add: model_for_def spec_model_for_def spec_or_default_def opt_or_def
          new_ProviderSpec_def)
qed

lemma facts_of_spec:
  "facts_of (spec_or_default (Some p)) = opt_or (map_of facts_table p) (Reliable, 5, 300)"
proof -
  have "map_of facts_table p = map_option facts_of (map_of REGISTRY p)"
    by (simp add: facts_table_eval[symmetric] map_of_map_snd)
  then show ?thesis
    by (cases "map_of REGISTRY p")
       (simp_all add: spec_or_default_def opt_or_def new_ProviderSpec_def facts_of_def
          DEFAULT_COOLDOWN_S_def DEFAULT_MAX_KEYS_def)
qed

lemma max_keys_for_table [code]:
  "max_keys_for p = fst (snd (opt_or (map_of facts_table p) (Reliable, 5, 300)))"
  using facts_of_spec[of p] by (metis facts_of_def fst_conv snd_conv max_keys_for_def)

lemma cooldown_base_for_table [code]:
  "cooldown_base_for p = snd (snd (opt_or (map_of facts_table p) (Reliable, 5, 300)))"
  using facts_of_spec[of p] by (metis facts_of_def snd_conv cooldown_base_for_def)

lemma providers_with_json_table [code]:
  "providers_with_json level = map fst (filter (\<lambda>(n, j, r). j = level) facts_table)"
  unfolding facts_table_eval[symmetric] providers_with_json_def
  by (simp add: filter_map comp_def facts_of_def case_prod_beta case_prod_beta')

lemma max_keys_bounds: "3 \<le> max_keys_for p" "max_keys_for p \<le> 5"
proof -
  have "list_all (\<lambda>(n, j, k, c). 3 \<le> k \<and> k \<le> 5) facts_table"
    by code_simp
  then have "3 \<le> max_keys_for p \<and> max_keys_for p \<le> 5"
    by (cases "map_of facts_table p")
       (auto simp: max_keys_for_table opt_or_def list_all_iff dest!: map_of_SomeD)
  then show "3 \<le> max_keys_for p" "max_keys_for p \<le> 5" by simp_all
qed

lemma cooldown_base_bounds: "10 \<le> cooldown_base_for p" "cooldown_base_for p \<le> 300"
proof -
  have "list_all (\<lambda>(n, j, k, c). 10 \<le> c \<and> c \<le> 300) facts_table"
    by code_simp
  then have "10 \<le> cooldown_base_for p \<and> cooldown_base_for p \<le> 300"
    by (cases "map_of facts_table p")
       (auto simp: cooldown_base_for_table opt_or_def list_all_iff dest!: map_of_SomeD)
  then show "10 \<le> cooldown_base_for p" "cooldown_base_for p \<le> 300" by simp_all
qed

text \<open>The daily quota seeds (requests, tokens); no provider seeds the input and output axes.\<close>

definition quota_table :: "(string \<times> int option \<times> int option) list" where
  "quota_table =
    [(''cerebras'', None, Some 1000000), (''groq'', Some 14400, Some 500000),
     (''gemini'', Some 1500, None), (''sambanova'', Some 20, None), (''zai'', None, None),
     (''cloudflare'', None, None), (''openrouter'', Some 200, None), (''mistral'', None, None),
     (''cohere'', Some 1000, None), (''nvidia'', None, None), (''voyage'', None, None),
     (''local'', None, None), (''deepseek'', None, None), (''anthropic'', None, None),
     (''openai'', None, None)]"

definition quota_axes :: "Quota \<Rightarrow> int option \<times> int option" where
  "quota_axes q = (req_per_day q, tok_per_day q)"

lemma quota_table_eval: "map (\<lambda>(n, q). (n, quota_axes q)) quotas = quota_table"
  unfolding quotas_def REGISTRY_map by (simp add: spec_defs quota_axes_def quota_table_def)

lemma map_of_quota_table: "map_of quota_table p = map_option quota_axes (map_of quotas p)"
  unfolding quota_table_eval[symmetric] by (rule map_of_map_snd)

lemma quotas_no_split_axes:
  "list_all (\<lambda>(n, q). tok_in_per_day q = None \<and> tok_out_per_day q = None) quotas"
  unfolding quotas_def REGISTRY_map by (simp add: spec_defs)

text \<open>The provider-scoped error signs (rate limit, auth, monthly), written out.\<close>

definition signs_table :: "(string \<times> string list \<times> string list \<times> string list) list" where
  "signs_table =
    [(''zai'', [], [''invalid api parameter''], []),
     (''cloudflare'', [''daily free allocation'', ''neurons''], [], []),
     (''mistral'', [''unauthorized''], [], [''unauthorized'']),
     (''voyage'', [''reduced rate limits''], [], []),
     (''deepseek'', [''response_format type is unavailable''], [], [])]"

definition signs_of :: "ProviderSpec \<Rightarrow> string list \<times> string list \<times> string list" where
  "signs_of s = (ps_rate_limit_signs s, ps_auth_signs s, ps_monthly_signs s)"

lemma signs_table_eval:
  "list_all (\<lambda>(n, s). signs_of s = opt_or (map_of signs_table n) ([], [], [])) REGISTRY \<and>
   list_all (\<lambda>n. n \<in> set (map fst REGISTRY)) (map fst signs_table)"
  unfolding REGISTRY_eq by (simp add: spec_defs signs_of_def signs_table_def opt_or_def)

lemma signs_of_spec:
  "signs_of (spec_or_default (Some p)) = opt_or (map_of signs_table p) ([], [], [])"
proof (cases "map_of REGISTRY p")
  case None
  then have "p \<notin> set (map fst REGISTRY)" by (simp add: map_of_eq_None_iff)
  then have "p \<notin> set (map fst signs_table)"
    using signs_table_eval by (auto simp: list_all_iff)
  then have "map_of signs_table p = None" by (simp add: map_of_eq_None_iff)
  with None show ?thesis
    by (simp add: spec_or_default_def opt_or_def signs_of_def new_ProviderSpec_def)
next
  case (Some s)
  then have "(p, s) \<in> set REGISTRY" by (rule map_of_SomeD)
  with Some show ?thesis
    using signs_table_eval by (auto simp: list_all_iff spec_or_default_def opt_or_def)
qed

text \<open>Size seed, empty-answer policy, native tools and rank, written out.\<close>

definition traits_of :: "ProviderSpec \<Rightarrow> int option \<times> bool \<times> bool \<times> int" where
  "traits_of s = (ps_max_request_tokens s, ps_empty_is_failure s, ps_native_tools s, ps_rank s)"

definition traits_table :: "(string \<times> int option \<times> bool \<times> bool \<times> int) list" where
  "traits_table =
    [(''cerebras'', None, False, False, 10),
     (''groq'', Some 8000, False, False, 20),
     (''gemini'', None, False, True, 30),
     (''sambanova'', None, False, False, 40),
     (''zai'', None, False, False, 50),
     (''cloudflare'', None, False, False, 60),
     (''openrouter'', None, False, False, 70),
     (''mistral'', None, False, True, 80),
     (''cohere'', None, False, False, 90),
     (''nvidia'', None, False, False, 100),
     (''voyage'', None, False, False, 300),
     (''local'', None, True, False, 5),
     (''deepseek'', None, False, False, 200),
     (''anthropic'', None, False, True, 210),
     (''openai'', None, False, True, 220)]"

lemma traits_table_eval: "map (\<lambda>(n, s). (n, traits_of s)) REGISTRY = traits_table"
  unfolding REGISTRY_map by (simp add: spec_defs traits_of_def traits_table_def)

lemma traits_of_spec:
  "traits_of (spec_or_default (Some p)) = opt_or (map_of traits_table p) (None, False, False, 1000)"
proof -
  have "map_of traits_table p = map_option traits_of (map_of REGISTRY p)"
    by (simp add: traits_table_eval[symmetric] map_of_map_snd)
  then show ?thesis
    by (cases "map_of REGISTRY p")
       (simp_all add: spec_or_default_def opt_or_def new_ProviderSpec_def traits_of_def)
qed

lemma max_request_tokens_table:
  "ps_max_request_tokens (spec_or_default (Some p)) = fst (opt_or (map_of traits_table p) (None, False, False, 1000))"
  using traits_of_spec[of p] by (metis fst_conv traits_of_def)

lemma empty_is_failure_table:
  "ps_empty_is_failure (spec_or_default (Some p)) = fst (snd (opt_or (map_of traits_table p) (None, False, False, 1000)))"
  using traits_of_spec[of p] by (metis fst_conv snd_conv traits_of_def)

end
