(* ===== verification/Chains.thy ===== *)
theory Chains
  imports Provider_Specs
begin

text \<open>
  \<^verbatim>\<open>routing/chains.py\<close>: which providers serve a capability in which order, the scope a
  capability needs, and the shapings of a chain (drop the paid tail of a free walk, put
  JSON-unreliable providers last, sink deepseek behind the free providers after it).
  The properties say what each shaping keeps: the providers, their order, the head.
\<close>

datatype chain_error = UnknownCapability string

definition CAPABILITY_CHAINS :: "(string \<times> string list) list" where
  "CAPABILITY_CHAINS =
    [(''chat:fast'', [''cerebras'', ''groq'', ''gemini'', ''sambanova'', ''zai'', ''cloudflare'']),
     (''chat:smart'', [''gemini'', ''deepseek'', ''sambanova'', ''anthropic'']),
     (''chat:sales'', [''anthropic'', ''gemini'', ''deepseek'', ''sambanova'']),
     (''chat:code'', [''cerebras'', ''groq'', ''openrouter'', ''gemini'', ''sambanova'',
                      ''cloudflare'', ''anthropic'', ''deepseek'', ''openai'']),
     (''chat:edit'', [''gemini'', ''deepseek'', ''anthropic'']),
     (''chat:deep'', [''nvidia'']),
     (''prefilter'', [''groq'', ''gemini'', ''openrouter'', ''sambanova'', ''cloudflare'']),
     (''translate'', [''gemini'', ''groq'']),
     (''structured'', [''groq'', ''gemini'', ''anthropic'', ''openai'']),
     (''vision'', [''local'', ''gemini'', ''sambanova'', ''openrouter'', ''deepseek'', ''openai'']),
     (''transcription'', [''gemini'', ''groq'', ''openai'']),
     (''embedding'', [''voyage'', ''cohere'']),
     (''decision'', [''openrouter''])]"

definition CAPABILITY_SCOPE :: "(string \<times> string) list" where
  "CAPABILITY_SCOPE =
    [(''chat:fast'', ''llm:chat''), (''chat:smart'', ''llm:chat''), (''chat:sales'', ''llm:chat''),
     (''chat:code'', ''llm:chat''), (''chat:edit'', ''llm:edit''), (''chat:deep'', ''llm:deep''),
     (''structured'', ''llm:chat''), (''prefilter'', ''llm:chat''), (''translate'', ''llm:chat''),
     (''vision'', ''llm:vision''), (''transcription'', ''llm:audio''), (''embedding'', ''llm:embed''),
     (''decision'', ''llm:decision'')]"

text \<open>\<^verbatim>\<open>model_for(...)\<close> used as a condition: a model that is present and not the empty string.\<close>

definition has_model :: "string \<Rightarrow> string \<Rightarrow> bool" where
  "has_model provider cap \<longleftrightarrow> (case model_for provider cap of None \<Rightarrow> False | Some m \<Rightarrow> m \<noteq> [])"

definition usable_scopes_for_provider :: "string \<Rightarrow> string list" where
  "usable_scopes_for_provider provider =
     map (\<lambda>(cap, chain). opt_or (map_of CAPABILITY_SCOPE cap) [])
       (filter (\<lambda>(cap, chain). provider \<in> set chain \<and> has_model provider cap) CAPABILITY_CHAINS)"

definition FREE_WALK_CAPABILITIES :: "string list" where
  "FREE_WALK_CAPABILITIES = [''vision'']"

definition free_first_walk :: "string \<Rightarrow> string list \<Rightarrow> bool \<Rightarrow> string list" where
  "free_first_walk capability chain paid_only =
     (if paid_only \<or> capability \<notin> set FREE_WALK_CAPABILITIES then chain
      else filter (\<lambda>p. p \<notin> set paid_providers) chain)"

definition has_paid_tail :: "string \<Rightarrow> bool" where
  "has_paid_tail capability =
     list_ex (\<lambda>p. p \<in> set paid_providers \<and> has_model p capability)
       (opt_or (map_of CAPABILITY_CHAINS capability) [])"

definition is_known_capability :: "string \<Rightarrow> bool" where
  "is_known_capability capability \<longleftrightarrow> map_of CAPABILITY_CHAINS capability \<noteq> None"

definition chain_for :: "string \<Rightarrow> chain_error + string list" where
  "chain_for capability = (case map_of CAPABILITY_CHAINS capability of
      None \<Rightarrow> Inl (UnknownCapability capability) | Some c \<Rightarrow> Inr c)"

definition scope_for :: "string \<Rightarrow> chain_error + string" where
  "scope_for capability = (case map_of CAPABILITY_SCOPE capability of
      None \<Rightarrow> Inl (UnknownCapability capability) | Some s \<Rightarrow> Inr s)"

definition deprioritize_for_json :: "string list \<Rightarrow> string list" where
  "deprioritize_for_json chain =
     (let incapable = providers_with_json Incapable;
          unreliable = providers_with_json Unreliable;
          capable = filter (\<lambda>p. p \<notin> set incapable) chain
      in filter (\<lambda>p. p \<notin> set unreliable) capable @ filter (\<lambda>p. p \<in> set unreliable) capable)"

text \<open>\<^verbatim>\<open>chain.index(x)\<close> splits a chain into what comes before and after the first \<open>x\<close>.\<close>

definition deprioritize_deepseek_for_savings :: "string list \<Rightarrow> bool \<Rightarrow> string list" where
  "deprioritize_deepseek_for_savings chain should_defer =
     (if \<not> should_defer \<or> ''deepseek'' \<notin> set chain then chain
      else
        let pre = takeWhile (\<lambda>p. p \<noteq> ''deepseek'') chain;
            suf = drop 1 (dropWhile (\<lambda>p. p \<noteq> ''deepseek'') chain);
            free_after = filter (\<lambda>p. p \<notin> set paid_providers) suf
        in if free_after = [] then chain
           else pre @ free_after @ [''deepseek''] @ filter (\<lambda>p. p \<in> set paid_providers) suf)"

section \<open>The tables\<close>

lemma chains_and_scopes_same_keys:
  "set (map fst CAPABILITY_CHAINS) = set (map fst CAPABILITY_SCOPE)"
  by code_simp

lemma known_capability_has_scope:
  "is_known_capability cap \<longleftrightarrow> map_of CAPABILITY_SCOPE cap \<noteq> None"
  using chains_and_scopes_same_keys
  by (auto simp: is_known_capability_def map_of_eq_None_iff simp del: map_of.simps)

definition chain_wired :: "string \<times> string list \<Rightarrow> bool" where
  "chain_wired e \<longleftrightarrow> distinct (snd e) \<and> snd e \<noteq> [] \<and>
     list_all (\<lambda>p. p \<in> set provider_names \<and> has_model p (fst e)) (snd e)"

lemma chains_wired: "list_all chain_wired CAPABILITY_CHAINS"
  by code_simp

lemma chain_for_Inr: "chain_for cap = Inr ch \<longleftrightarrow> map_of CAPABILITY_CHAINS cap = Some ch"
  by (simp add: chain_for_def split: option.splits)

lemma chain_for_wired:
  assumes "chain_for cap = Inr ch"
  shows "chain_wired (cap, ch)"
proof -
  have "(cap, ch) \<in> set CAPABILITY_CHAINS"
    using assms by (simp add: chain_for_Inr map_of_SomeD)
  with chains_wired show ?thesis by (auto simp: list_all_iff)
qed

section \<open>The shapings\<close>

lemma set_free_first_walk: "set (free_first_walk cap ch po) \<subseteq> set ch"
  by (auto simp: free_first_walk_def)

lemma free_walk_no_paid:
  "cap \<in> set FREE_WALK_CAPABILITIES \<Longrightarrow> set (free_first_walk cap ch False) \<inter> set paid_providers = {}"
  by (auto simp: free_first_walk_def)

lemma mset_deprioritize_for_json:
  "mset (deprioritize_for_json ch) = mset (filter (\<lambda>p. p \<notin> set (providers_with_json Incapable)) ch)"
  using mset_filter_partition[where P = "\<lambda>p. p \<notin> set (providers_with_json Unreliable)"
      and xs = "filter (\<lambda>p. p \<notin> set (providers_with_json Incapable)) ch"]
  by (simp only: deprioritize_for_json_def Let_def not_not)

lemma set_deprioritize_for_json:
  "set (deprioritize_for_json ch) = set ch - set (providers_with_json Incapable)"
  by (auto simp: deprioritize_for_json_def Let_def)

lemma deepseek_split:
  assumes "''deepseek'' \<in> set ch"
  shows "ch = takeWhile (\<lambda>p. p \<noteq> ''deepseek'') ch @ ''deepseek'' #
              drop 1 (dropWhile (\<lambda>p. p \<noteq> ''deepseek'') ch)"
proof -
  have "dropWhile (\<lambda>p. p \<noteq> ''deepseek'') ch \<noteq> []"
    using assms by (auto simp: dropWhile_eq_Nil_conv)
  then obtain x xs where d: "dropWhile (\<lambda>p. p \<noteq> ''deepseek'') ch = x # xs"
    by (cases "dropWhile (\<lambda>p. p \<noteq> ''deepseek'') ch") auto
  then have "x = ''deepseek''"
    using hd_dropWhile[of "\<lambda>p. p \<noteq> ''deepseek''" ch] by auto
  with d show ?thesis
    using takeWhile_dropWhile_id[of "\<lambda>p. p \<noteq> ''deepseek''" ch] by simp
qed

lemma mset_deprioritize_deepseek:
  "mset (deprioritize_deepseek_for_savings ch b) = mset ch"
proof (cases "\<not> b \<or> ''deepseek'' \<notin> set ch")
  case True
  then show ?thesis by (auto simp: deprioritize_deepseek_for_savings_def)
next
  case False
  let ?suf = "drop 1 (dropWhile (\<lambda>p. p \<noteq> ''deepseek'') ch)"
  let ?pre = "takeWhile (\<lambda>p. p \<noteq> ''deepseek'') ch"
  have part: "mset ?suf = mset (filter (\<lambda>p. p \<notin> set paid_providers) ?suf)
      + mset (filter (\<lambda>p. p \<in> set paid_providers) ?suf)"
    using mset_filter_partition[of "\<lambda>p. p \<notin> set paid_providers" ?suf] by (simp only: not_not mset_append)
  have "mset ch = mset (?pre @ ''deepseek'' # ?suf)"
    using False deepseek_split[of ch] by presburger
  also have "\<dots> = mset (?pre @ filter (\<lambda>p. p \<notin> set paid_providers) ?suf @ [''deepseek''] @
      filter (\<lambda>p. p \<in> set paid_providers) ?suf)"
    using part by (simp only: mset_append mset.simps) (simp add: ac_simps)
  finally show ?thesis
    using False by (simp add: deprioritize_deepseek_for_savings_def Let_def)
qed

text \<open>What stands before deepseek keeps its place.\<close>

lemma deprioritize_deepseek_prefix:
  "takeWhile (\<lambda>p. p \<noteq> ''deepseek'') ch
   = take (length (takeWhile (\<lambda>p. p \<noteq> ''deepseek'') ch)) (deprioritize_deepseek_for_savings ch b)"
proof -
  have "ch = takeWhile (\<lambda>p. p \<noteq> ''deepseek'') ch @ dropWhile (\<lambda>p. p \<noteq> ''deepseek'') ch"
    by (rule takeWhile_dropWhile_id[symmetric])
  then have "takeWhile (\<lambda>p. p \<noteq> ''deepseek'') ch = take (length (takeWhile (\<lambda>p. p \<noteq> ''deepseek'') ch)) ch"
    by (metis append_eq_conv_conj)
  then show ?thesis
    by (simp add: deprioritize_deepseek_for_savings_def Let_def)
qed

lemma set_deprioritize_deepseek: "set (deprioritize_deepseek_for_savings ch b) = set ch"
  using mset_deprioritize_deepseek[of ch b] by (metis set_mset_mset)

lemma filter_free_deprioritize_deepseek:
  assumes "\<And>p. P p \<Longrightarrow> p \<notin> set paid_providers"
  shows "filter P (deprioritize_deepseek_for_savings ch b) = filter P ch"
proof (cases "\<not> b \<or> ''deepseek'' \<notin> set ch")
  case True
  then show ?thesis by (auto simp: deprioritize_deepseek_for_savings_def)
next
  case False
  let ?suf = "drop 1 (dropWhile (\<lambda>p. p \<noteq> ''deepseek'') ch)"
  let ?pre = "takeWhile (\<lambda>p. p \<noteq> ''deepseek'') ch"
  have "\<not> P ''deepseek''"
    using assms[of "''deepseek''"] by (auto simp: paid_providers_eval)
  moreover have "filter P (filter (\<lambda>p. p \<notin> set paid_providers) ?suf) = filter P ?suf"
    using assms by (rule filter_filter_imp)
  moreover have "filter P (filter (\<lambda>p. p \<in> set paid_providers) ?suf) = []"
    using assms by (auto simp: filter_empty_conv)
  moreover have "filter P ch = filter P (?pre @ ''deepseek'' # ?suf)"
    using False deepseek_split[of ch] by presburger
  ultimately show ?thesis
    using False by (simp add: deprioritize_deepseek_for_savings_def Let_def)
qed

section \<open>Properties\<close>



text \<open>
  Shaping a chain for a JSON request keeps exactly the providers that can return JSON,
  with their multiplicities, puts every reliable provider before every unreliable one, and
  keeps the order of the chain within both groups.
\<close>

theorem json_shaping_is_stable_partition:
  "mset (deprioritize_for_json ch) = mset (filter (\<lambda>p. p \<notin> set (providers_with_json Incapable)) ch) \<and>
   sorted_wrt (\<lambda>p q. p \<in> set (providers_with_json Unreliable) \<longrightarrow> q \<in> set (providers_with_json Unreliable))
     (deprioritize_for_json ch) \<and>
   filter (\<lambda>p. p \<notin> set (providers_with_json Incapable) \<and> p \<notin> set (providers_with_json Unreliable))
       (deprioritize_for_json ch)
     = filter (\<lambda>p. p \<notin> set (providers_with_json Incapable) \<and> p \<notin> set (providers_with_json Unreliable)) ch \<and>
   filter (\<lambda>p. p \<in> set (providers_with_json Unreliable)) (deprioritize_for_json ch)
     = filter (\<lambda>p. p \<in> set (providers_with_json Unreliable)) ch"
proof (intro conjI)
  have unr: "x \<notin> set (providers_with_json Incapable)" if "x \<in> set (providers_with_json Unreliable)" for x
    using that by (auto simp: json_unreliable_eval json_incapable_eval)
  show "sorted_wrt (\<lambda>p q. p \<in> set (providers_with_json Unreliable) \<longrightarrow> q \<in> set (providers_with_json Unreliable))
      (deprioritize_for_json ch)"
    unfolding deprioritize_for_json_def Let_def by (rule sorted_wrt_partition)
  show "filter (\<lambda>p. p \<notin> set (providers_with_json Incapable) \<and> p \<notin> set (providers_with_json Unreliable))
      (deprioritize_for_json ch)
    = filter (\<lambda>p. p \<notin> set (providers_with_json Incapable) \<and> p \<notin> set (providers_with_json Unreliable)) ch"
    unfolding deprioritize_for_json_def Let_def by (rule filter_partition_left)
  show "filter (\<lambda>p. p \<in> set (providers_with_json Unreliable)) (deprioritize_for_json ch)
      = filter (\<lambda>p. p \<in> set (providers_with_json Unreliable)) ch"
    unfolding deprioritize_for_json_def Let_def by (rule filter_partition_right) (rule unr)
qed (rule mset_deprioritize_for_json)

theorem json_shaping_is_stable_partition_witness:
  "sorted_wrt (\<lambda>p q. p \<in> set (providers_with_json Unreliable) \<longrightarrow> q \<in> set (providers_with_json Unreliable))
     (deprioritize_for_json [''cerebras'', ''gemini'', ''zai'']) \<and>
   deprioritize_for_json [''cerebras'', ''gemini'', ''zai''] = [''gemini'', ''cerebras'']"
proof
  show "deprioritize_for_json [''cerebras'', ''gemini'', ''zai''] = [''gemini'', ''cerebras'']"
    by code_simp
qed (use json_shaping_is_stable_partition[of "[''cerebras'', ''gemini'', ''zai'']"] in simp)

text \<open>
  Sinking deepseek for savings only reorders a chain: the providers and their
  multiplicities stay, everything ahead of deepseek keeps its place, the free providers
  keep their order, and when the chain is reordered no free provider is left after deepseek.
\<close>

theorem deepseek_sink_only_reorders:
  "mset (deprioritize_deepseek_for_savings ch b) = mset ch \<and>
   prefix (takeWhile (\<lambda>p. p \<noteq> ''deepseek'') ch) (deprioritize_deepseek_for_savings ch b) \<and>
   filter (\<lambda>p. p \<notin> set paid_providers) (deprioritize_deepseek_for_savings ch b)
     = filter (\<lambda>p. p \<notin> set paid_providers) ch \<and>
   (deprioritize_deepseek_for_savings ch True \<noteq> ch \<and> distinct ch \<longrightarrow>
      set (dropWhile (\<lambda>p. p \<noteq> ''deepseek'') (deprioritize_deepseek_for_savings ch True))
        \<subseteq> set paid_providers)"
proof (intro conjI impI)
  show "prefix (takeWhile (\<lambda>p. p \<noteq> ''deepseek'') ch) (deprioritize_deepseek_for_savings ch b)"
    using deprioritize_deepseek_prefix[of ch b] by (metis take_is_prefix)
  show "filter (\<lambda>p. p \<notin> set paid_providers) (deprioritize_deepseek_for_savings ch b)
      = filter (\<lambda>p. p \<notin> set paid_providers) ch"
    by (rule filter_free_deprioritize_deepseek)
  assume a: "deprioritize_deepseek_for_savings ch True \<noteq> ch \<and> distinct ch"
  let ?pre = "takeWhile (\<lambda>p. p \<noteq> ''deepseek'') ch"
  let ?suf = "drop 1 (dropWhile (\<lambda>p. p \<noteq> ''deepseek'') ch)"
  have e: "deprioritize_deepseek_for_savings ch True = ?pre @ filter (\<lambda>p. p \<notin> set paid_providers) ?suf
      @ ''deepseek'' # filter (\<lambda>p. p \<in> set paid_providers) ?suf"
    using a by (auto simp: deprioritize_deepseek_for_savings_def Let_def split: if_splits)
  have "x \<noteq> ''deepseek''" if "x \<in> set (?pre @ filter (\<lambda>p. p \<notin> set paid_providers) ?suf)" for x
    using that by (auto simp: paid_providers_eval dest: set_takeWhileD)
  then have "dropWhile (\<lambda>p. p \<noteq> ''deepseek'') (deprioritize_deepseek_for_savings ch True)
      = ''deepseek'' # filter (\<lambda>p. p \<in> set paid_providers) ?suf"
    unfolding e append_assoc[symmetric] by (intro dropWhile_prefix_Cons) blast+
  then show "set (dropWhile (\<lambda>p. p \<noteq> ''deepseek'') (deprioritize_deepseek_for_savings ch True))
      \<subseteq> set paid_providers"
    by (auto simp: paid_providers_eval)
qed (rule mset_deprioritize_deepseek)

theorem deepseek_sink_only_reorders_witness:
  "deprioritize_deepseek_for_savings [''gemini'', ''deepseek'', ''sambanova'', ''anthropic''] True
     = [''gemini'', ''sambanova'', ''deepseek'', ''anthropic''] \<and>
   set (dropWhile (\<lambda>p. p \<noteq> ''deepseek'')
     (deprioritize_deepseek_for_savings [''gemini'', ''deepseek'', ''sambanova'', ''anthropic''] True))
     \<subseteq> set paid_providers"
proof -
  have e: "deprioritize_deepseek_for_savings [''gemini'', ''deepseek'', ''sambanova'', ''anthropic''] True
      = [''gemini'', ''sambanova'', ''deepseek'', ''anthropic'']"
    by code_simp
  show ?thesis
    using deepseek_sink_only_reorders[of "[''gemini'', ''deepseek'', ''sambanova'', ''anthropic'']" True]
    unfolding e by simp
qed

end
