(* ===== verification/Db_Models.thy ===== *)
theory Db_Models
  imports Calendar
begin

text \<open>
  The rows of \<^verbatim>\<open>db/models.py\<close> the routing core reads and writes (projects, API keys,
  per-model cooldowns, the usage log), and the clock readings one operation takes: the
  database's \<^verbatim>\<open>now()\<close> and \<^verbatim>\<open>CURRENT_DATE\<close>, the process's UTC date, wall clock and
  monotonic clock. A timestamp column is a naive UTC instant.
\<close>

record clock =
  ck_now :: instant
  ck_date :: date
  ck_utc_date :: date
  ck_time :: secs
  ck_mono :: secs

record ProjectRow =
  p_id :: int
  p_name :: string
  p_owner_email :: "string option"
  p_key_hash :: string
  p_key_prefix :: string
  p_allowed_scopes :: "string list"
  p_daily_cost_cap_usd :: "usd option"
  p_monthly_cost_cap_usd :: "usd option"
  p_total_request_cap :: "int option"
  p_total_requests_used :: int
  p_self_signup :: bool
  p_signup_ip :: "string option"
  p_is_active :: bool
  p_notes :: string
  p_agent_enabled :: bool
  p_agent_models :: "string list"
  p_agent_accounts :: "string list"
  p_created_at :: instant
  p_updated_at :: instant

record ApiKeyRow =
  k_id :: int
  k_provider :: string
  k_label :: string
  k_tier :: string
  k_scopes :: "string list"
  k_token_encrypted :: string
  k_is_active :: bool
  k_is_alive :: bool
  k_is_reserve :: bool
  k_daily_limit :: int
  k_daily_used :: int
  k_daily_cost_cap_usd :: "usd option"
  k_daily_cost_used_usd :: usd
  k_monthly_cost_cap_usd :: "usd option"
  k_monthly_cost_used_usd :: usd
  k_total_cost_usd :: usd
  k_daily_reset_at :: "date option"
  k_monthly_reset_at :: "date option"
  k_cooldown_until :: "instant option"
  k_error_count :: int
  k_last_used_at :: "instant option"
  k_last_alive_check_at :: "instant option"
  k_last_error :: "string option"
  k_discovered_req_limit :: "int option"
  k_discovered_tok_limit :: "int option"
  k_limits_discovered_at :: "instant option"
  k_manual_req_limit :: "int option"
  k_manual_tok_limit :: "int option"
  k_manual_tok_in_limit :: "int option"
  k_manual_tok_out_limit :: "int option"
  k_account_id :: "string option"
  k_notes :: string
  k_created_at :: instant

record ModelCooldownRow =
  mc_api_key_id :: int
  mc_model :: string
  mc_cooldown_until :: instant
  mc_reason :: "string option"

record UsageLogRow =
  u_id :: int
  u_api_key_id :: "int option"
  u_project_id :: "int option"
  u_lease_id :: "string option"
  u_provider :: string
  u_model :: "string option"
  u_model_served :: "string option"
  u_request_id :: "string option"
  u_capability :: "string option"
  u_workflow :: "string option"
  u_tokens_in :: int
  u_tokens_out :: int
  u_cache_read_tokens :: int
  u_cache_write_tokens :: int
  u_cost_usd :: usd
  u_latency_ms :: "int option"
  u_status :: string
  u_error_kind :: "string option"
  u_http_status :: "int option"
  u_created_at :: instant

text \<open>
  A key row with the column defaults of the table, for the given identity. Timestamps that
  the database fills are the instant 0 until a caller sets them.
\<close>

definition new_key :: "int \<Rightarrow> string \<Rightarrow> string \<Rightarrow> string list \<Rightarrow> ApiKeyRow" where
  "new_key i provider label scopes =
     \<lparr>k_id = i, k_provider = provider, k_label = label, k_tier = ''free'', k_scopes = scopes,
      k_token_encrypted = [], k_is_active = True, k_is_alive = True, k_is_reserve = False,
      k_daily_limit = 999999, k_daily_used = 0, k_daily_cost_cap_usd = None,
      k_daily_cost_used_usd = 0, k_monthly_cost_cap_usd = None, k_monthly_cost_used_usd = 0,
      k_total_cost_usd = 0, k_daily_reset_at = None, k_monthly_reset_at = None,
      k_cooldown_until = None, k_error_count = 0, k_last_used_at = None,
      k_last_alive_check_at = None, k_last_error = None, k_discovered_req_limit = None,
      k_discovered_tok_limit = None, k_limits_discovered_at = None, k_manual_req_limit = None,
      k_manual_tok_limit = None, k_manual_tok_in_limit = None, k_manual_tok_out_limit = None,
      k_account_id = None, k_notes = [], k_created_at = 0\<rparr>"

definition new_project :: "int \<Rightarrow> string \<Rightarrow> string list \<Rightarrow> ProjectRow" where
  "new_project i name scopes =
     \<lparr>p_id = i, p_name = name, p_owner_email = None, p_key_hash = [], p_key_prefix = [],
      p_allowed_scopes = scopes, p_daily_cost_cap_usd = None, p_monthly_cost_cap_usd = None,
      p_total_request_cap = None, p_total_requests_used = 0, p_self_signup = False,
      p_signup_ip = None, p_is_active = True, p_notes = [], p_agent_enabled = False,
      p_agent_models = [], p_agent_accounts = [], p_created_at = 0, p_updated_at = 0\<rparr>"

text \<open>\<^verbatim>\<open>(reason or "")[:200] or None\<close>.\<close>

definition clip_reason :: "string option \<Rightarrow> string option" where
  "clip_reason reason = (case reason of
      None \<Rightarrow> None
    | Some r \<Rightarrow> if take 200 r = [] then None else Some (take 200 r))"

lemma clip_reason_length: "clip_reason r = Some s \<Longrightarrow> s \<noteq> [] \<and> length s \<le> 200"
  by (auto simp: clip_reason_def split: option.splits if_splits)

end
