(* ===== verification/Circuit.thy ===== *)
theory Circuit
  imports Db_Models
begin

text \<open>
  \<^verbatim>\<open>routing/circuit.py\<close>: the per-process memory of keys that timed out or returned an
  empty body, and the storm verdicts drawn from it. A Python dict is an association list
  with at most one entry per key; \<open>dict_set\<close> is \<^verbatim>\<open>d[k] = v\<close>. Every reader prunes, so it
  returns the verdict together with the pruned state.
\<close>

section \<open>Dicts\<close>

fun dict_set :: "'k \<Rightarrow> 'v \<Rightarrow> ('k \<times> 'v) list \<Rightarrow> ('k \<times> 'v) list" where
  "dict_set k v [] = [(k, v)]"
| "dict_set k v ((k', v') # d) = (if k = k' then (k, v) # d else (k', v') # dict_set k v d)"

definition dict_del :: "'k \<Rightarrow> ('k \<times> 'v) list \<Rightarrow> ('k \<times> 'v) list" where
  "dict_del k d = filter (\<lambda>(k', v). k' \<noteq> k) d"

lemma map_of_dict_set [simp]: "map_of (dict_set k v d) = (map_of d)(k \<mapsto> v)"
  by (induction d) (auto simp: fun_upd_twist)

lemma fst_set_dict_set [simp]: "fst ` set (dict_set k v d) = insert k (fst ` set d)"
  by (induction k v d rule: dict_set.induct) (simp_all add: insert_commute)

lemma distinct_dict_set [simp]: "distinct (map fst d) \<Longrightarrow> distinct (map fst (dict_set k v d))"
  by (induction k v d rule: dict_set.induct) auto

lemma map_of_dict_del [simp]: "map_of (dict_del k d) = (map_of d)(k := None)"
  by (induction d) (auto simp: dict_del_def)

lemma distinct_dict_del [simp]: "distinct (map fst d) \<Longrightarrow> distinct (map fst (dict_del k d))"
  by (induction d) (auto simp: dict_del_def)

lemma length_dict_set: "length (dict_set k v d) = (if k \<in> fst ` set d then length d else Suc (length d))"
  by (induction k v d rule: dict_set.induct) auto

section \<open>State and operations\<close>

definition TIMEOUT_MEMORY_S :: secs where "TIMEOUT_MEMORY_S = 120"
definition EMPTY_MEMORY_S :: secs where "EMPTY_MEMORY_S = 600"

record circuit_state =
  key_timeouts :: "(int \<times> secs) list"
  provider_timeouts :: "((string \<times> string option) \<times> (int \<times> secs) list) list"
  provider_empties :: "(string \<times> (int \<times> secs) list) list"

definition circuit_reset :: circuit_state where
  "circuit_reset = \<lparr>key_timeouts = [], provider_timeouts = [], provider_empties = []\<rparr>"

definition bucket_of :: "'k \<Rightarrow> ('k \<times> (int \<times> secs) list) list \<Rightarrow> (int \<times> secs) list" where
  "bucket_of b d = (case map_of d b of None \<Rightarrow> [] | Some m \<Rightarrow> m)"

definition note_timeout :: "secs \<Rightarrow> string \<Rightarrow> int \<Rightarrow> string option \<Rightarrow> circuit_state \<Rightarrow> circuit_state" where
  "note_timeout now provider key_id scope c =
     c\<lparr>key_timeouts := dict_set key_id now (key_timeouts c),
       provider_timeouts := dict_set (provider, scope)
         (dict_set key_id now (bucket_of (provider, scope) (provider_timeouts c)))
         (provider_timeouts c)\<rparr>"

definition recent_timeout_key_ids :: "secs \<Rightarrow> circuit_state \<Rightarrow> int list \<times> circuit_state" where
  "recent_timeout_key_ids now c =
     (let kept = filter (\<lambda>(k, ts). \<not> now - ts \<ge> TIMEOUT_MEMORY_S) (key_timeouts c)
      in (map fst kept, c\<lparr>key_timeouts := kept\<rparr>))"

text \<open>
  The loop of both storm readers: keep the fresh entries of every bucket, drop the buckets
  left empty, and report the buckets of interest with enough keys.
\<close>

definition prune_buckets ::
  "secs \<Rightarrow> secs \<Rightarrow> ('k \<times> (int \<times> secs) list) list \<Rightarrow> ('k \<times> (int \<times> secs) list) list" where
  "prune_buckets now window bs =
     filter (\<lambda>(b, m). m \<noteq> []) (map (\<lambda>(b, m). (b, filter (\<lambda>(k, ts). now - ts < window) m)) bs)"

definition providers_in_timeout_storm ::
  "secs \<Rightarrow> nat \<Rightarrow> string option \<Rightarrow> circuit_state \<Rightarrow> string list \<times> circuit_state" where
  "providers_in_timeout_storm now min_keys scope c =
     (let bs = prune_buckets now TIMEOUT_MEMORY_S (provider_timeouts c)
      in (map (\<lambda>((p, s), m). p) (filter (\<lambda>((p, s), m). s = scope \<and> length m \<ge> min_keys) bs),
          c\<lparr>provider_timeouts := bs\<rparr>))"

definition note_empty_body :: "secs \<Rightarrow> string \<Rightarrow> int \<Rightarrow> circuit_state \<Rightarrow> circuit_state" where
  "note_empty_body now provider key_id c =
     c\<lparr>provider_empties := dict_set provider
         (dict_set key_id now (bucket_of provider (provider_empties c))) (provider_empties c)\<rparr>"

definition providers_in_empty_storm ::
  "secs \<Rightarrow> nat \<Rightarrow> circuit_state \<Rightarrow> string list \<times> circuit_state" where
  "providers_in_empty_storm now min_keys c =
     (let bs = prune_buckets now EMPTY_MEMORY_S (provider_empties c)
      in (map fst (filter (\<lambda>(p, m). length m \<ge> min_keys) bs), c\<lparr>provider_empties := bs\<rparr>))"

section \<open>Well-formed state\<close>

text \<open>Every dict of the state has distinct keys.\<close>

definition circuit_ok :: "circuit_state \<Rightarrow> bool" where
  "circuit_ok c \<longleftrightarrow> distinct (map fst (key_timeouts c)) \<and>
     distinct (map fst (provider_timeouts c)) \<and> distinct (map fst (provider_empties c)) \<and>
     list_all (\<lambda>(b, m). distinct (map fst m)) (provider_timeouts c) \<and>
     list_all (\<lambda>(b, m). distinct (map fst m)) (provider_empties c)"

lemma list_all_dict_set:
  "list_all (\<lambda>(b, m). P m) d \<Longrightarrow> P v \<Longrightarrow> list_all (\<lambda>(b, m). P m) (dict_set k v d)"
  by (induction k v d rule: dict_set.induct) auto

lemma bucket_of_all:
  "list_all (\<lambda>(b, m). distinct (map fst m)) d \<Longrightarrow> distinct (map fst (bucket_of b d))"
  by (auto simp: bucket_of_def list_all_iff split: option.splits dest: map_of_SomeD)

lemma distinct_map_filter: "distinct (map f xs) \<Longrightarrow> distinct (map f (filter P xs))"
  by (induction xs) auto

lemma map_fst_prune: "distinct (map fst bs) \<Longrightarrow> distinct (map fst (prune_buckets now w bs))"
  unfolding prune_buckets_def by (intro distinct_map_filter) (simp add: comp_def case_prod_beta)

lemma prune_all:
  "list_all (\<lambda>(b, m). distinct (map fst m)) bs \<Longrightarrow>
   list_all (\<lambda>(b, m). distinct (map fst m)) (prune_buckets now w bs)"
  by (auto simp: prune_buckets_def list_all_iff distinct_map_filter)

lemma circuit_ok_reset: "circuit_ok circuit_reset"
  by (simp add: circuit_ok_def circuit_reset_def)

lemma circuit_ok_note_timeout: "circuit_ok c \<Longrightarrow> circuit_ok (note_timeout now p k s c)"
  by (auto simp: circuit_ok_def note_timeout_def intro!: list_all_dict_set distinct_dict_set bucket_of_all)

lemma circuit_ok_note_empty: "circuit_ok c \<Longrightarrow> circuit_ok (note_empty_body now p k c)"
  by (auto simp: circuit_ok_def note_empty_body_def intro!: list_all_dict_set distinct_dict_set bucket_of_all)

lemma circuit_ok_recent: "circuit_ok c \<Longrightarrow> circuit_ok (snd (recent_timeout_key_ids now c))"
  by (auto simp: circuit_ok_def recent_timeout_key_ids_def Let_def distinct_map_filter)

lemma circuit_ok_timeout_storm: "circuit_ok c \<Longrightarrow> circuit_ok (snd (providers_in_timeout_storm now n s c))"
  by (auto simp: circuit_ok_def providers_in_timeout_storm_def Let_def map_fst_prune prune_all)

lemma circuit_ok_empty_storm: "circuit_ok c \<Longrightarrow> circuit_ok (snd (providers_in_empty_storm now n c))"
  by (auto simp: circuit_ok_def providers_in_empty_storm_def Let_def map_fst_prune prune_all)

lemmas circuit_ok_intros [intro] = circuit_ok_reset circuit_ok_note_timeout circuit_ok_note_empty
  circuit_ok_recent circuit_ok_timeout_storm circuit_ok_empty_storm

section \<open>What a storm is\<close>

text \<open>The keys of a bucket that are still inside the window.\<close>

definition fresh_keys :: "secs \<Rightarrow> secs \<Rightarrow> 'k \<Rightarrow> ('k \<times> (int \<times> secs) list) list \<Rightarrow> int set" where
  "fresh_keys now window b bs = {k. \<exists>ts. map_of (bucket_of b bs) k = Some ts \<and> now - ts < window}"

lemma fresh_keys_card:
  assumes "distinct (map fst m)"
  shows "card {k. \<exists>ts. map_of m k = Some ts \<and> now - ts < w}
         = length (filter (\<lambda>(k, ts). now - ts < w) m)"
proof -
  have "{k. \<exists>ts. map_of m k = Some ts \<and> now - ts < w}
      = set (map fst (filter (\<lambda>(k, ts). now - ts < w) m))"
    using map_of_eq_Some_iff[OF assms] by (auto simp: image_iff)
  moreover have "distinct (map fst (filter (\<lambda>(k, ts). now - ts < w) m))"
    by (rule distinct_map_filter[OF assms])
  ultimately show ?thesis by (simp only: distinct_card length_map)
qed

lemma in_prune_buckets:
  "(b, m) \<in> set (prune_buckets now w bs) \<longleftrightarrow>
   m \<noteq> [] \<and> (\<exists>m0. (b, m0) \<in> set bs \<and> m = filter (\<lambda>(k, ts). now - ts < w) m0)"
  by (auto simp: prune_buckets_def)

lemma ex_pair_unique:
  "(b, m0) \<in> S \<Longrightarrow> (\<And>m. (b, m) \<in> S \<Longrightarrow> m = m0) \<Longrightarrow> (\<exists>m. (b, m) \<in> S \<and> Q m) \<longleftrightarrow> Q m0"
  by blast

lemma storm_bucket_iff:
  assumes "distinct (map fst bs)" "list_all (\<lambda>(b, m). distinct (map fst m)) bs" "0 < n"
  shows "(\<exists>m. (b, m) \<in> set (prune_buckets now w bs) \<and> n \<le> length m)
         \<longleftrightarrow> n \<le> card (fresh_keys now w b bs)"
proof (cases "map_of bs b")
  case None
  have "b \<notin> fst ` set bs" using None by (simp add: map_of_eq_None_iff)
  moreover have "fresh_keys now w b bs = {}" using None by (simp add: fresh_keys_def bucket_of_def)
  ultimately show ?thesis using assms(3) by (force simp: in_prune_buckets)
next
  case (Some m0)
  then have in0: "(b, m0) \<in> set bs" by (rule map_of_SomeD)
  then have d: "distinct (map fst m0)" using assms(2) by (auto simp: list_all_iff)
  have uniq: "m = m0" if "(b, m) \<in> set bs" for m
    by (rule eq_key_imp_eq_value[OF assms(1) that in0])
  define fm where "fm = filter (\<lambda>(k, ts). now - ts < w) m0"
  have "card (fresh_keys now w b bs) = length fm"
    using fresh_keys_card[OF d, of now w] Some by (simp add: fresh_keys_def bucket_of_def fm_def)
  moreover have ex: "(\<exists>m1. (b, m1) \<in> set bs \<and> m = filter (\<lambda>(k, ts). now - ts < w) m1) \<longleftrightarrow> m = fm" for m
    unfolding fm_def by (rule ex_pair_unique[OF in0 uniq])
  moreover have "(b, m) \<in> set (prune_buckets now w bs) \<longleftrightarrow> m = fm \<and> fm \<noteq> []" for m
    unfolding in_prune_buckets ex by blast
  ultimately show ?thesis
    using assms(3) by (cases fm) auto
qed

lemma timeout_storm_iff:
  assumes "circuit_ok c" "0 < n"
  shows "p \<in> set (fst (providers_in_timeout_storm now n s c)) \<longleftrightarrow>
         n \<le> card (fresh_keys now TIMEOUT_MEMORY_S (p, s) (provider_timeouts c))"
proof -
  have "p \<in> set (fst (providers_in_timeout_storm now n s c)) \<longleftrightarrow>
     (\<exists>m. ((p, s), m) \<in> set (prune_buckets now TIMEOUT_MEMORY_S (provider_timeouts c)) \<and> n \<le> length m)"
    by (force simp: providers_in_timeout_storm_def Let_def)
  then show ?thesis
    using storm_bucket_iff[of "provider_timeouts c" n "(p, s)" now TIMEOUT_MEMORY_S] assms
    by (simp add: circuit_ok_def)
qed

lemma empty_storm_iff:
  assumes "circuit_ok c" "0 < n"
  shows "p \<in> set (fst (providers_in_empty_storm now n c)) \<longleftrightarrow>
         n \<le> card (fresh_keys now EMPTY_MEMORY_S p (provider_empties c))"
proof -
  have "p \<in> set (fst (providers_in_empty_storm now n c)) \<longleftrightarrow>
     (\<exists>m. (p, m) \<in> set (prune_buckets now EMPTY_MEMORY_S (provider_empties c)) \<and> n \<le> length m)"
    by (force simp: providers_in_empty_storm_def Let_def)
  then show ?thesis
    using storm_bucket_iff[of "provider_empties c" n p now EMPTY_MEMORY_S] assms
    by (simp add: circuit_ok_def)
qed

text \<open>Pruning never changes a verdict: what it drops is already outside the window.\<close>

lemma map_of_prune:
  assumes "distinct (map fst bs)"
  shows "bucket_of b (prune_buckets now w bs) = filter (\<lambda>(k, ts). now - ts < w) (bucket_of b bs)"
proof (cases "map_of bs b")
  case None
  then have "map_of (prune_buckets now w bs) b = None"
    by (force simp: map_of_eq_None_iff in_prune_buckets)
  with None show ?thesis by (simp add: bucket_of_def)
next
  case (Some m)
  let ?f = "filter (\<lambda>(k, ts). now - ts < w) m"
  have uniq: "m' = m" if "(b, m') \<in> set bs" for m'
    by (rule eq_key_imp_eq_value[OF assms that map_of_SomeD[OF Some]])
  have "map_of (prune_buckets now w bs) b = (if ?f = [] then None else Some ?f)"
  proof (cases "?f = []")
    case True
    then have "b \<notin> fst ` set (prune_buckets now w bs)"
      using uniq by (auto simp: in_prune_buckets)
    with True show ?thesis by (simp add: map_of_eq_None_iff)
  next
    case False
    then have "(b, ?f) \<in> set (prune_buckets now w bs)"
      using Some by (auto simp: in_prune_buckets dest: map_of_SomeD)
    then show ?thesis
      using False map_fst_prune[OF assms, of now w] by (simp add: map_of_eq_Some_iff)
  qed
  with Some show ?thesis by (simp add: bucket_of_def)
qed

lemma fresh_keys_prune:
  assumes "now \<le> now'" "distinct (map fst bs)" "list_all (\<lambda>(b, m). distinct (map fst m)) bs"
  shows "fresh_keys now' w b (prune_buckets now w bs) = fresh_keys now' w b bs"
proof -
  have d: "distinct (map fst (bucket_of b bs))" by (rule bucket_of_all[OF assms(3)])
  have "map_of (filter (\<lambda>(k, ts). now - ts < w) (bucket_of b bs)) k = Some ts
      \<longleftrightarrow> map_of (bucket_of b bs) k = Some ts \<and> now - ts < w" for k ts
    using map_of_eq_Some_iff[OF d] map_of_eq_Some_iff[OF distinct_map_filter[OF d]] by auto
  then show ?thesis
    using assms(1) by (auto simp: fresh_keys_def map_of_prune[OF assms(2)])
qed

end
