(* ===== verification/Shared_State.thy ===== *)
theory Shared_State
  imports Db_Models
begin

text \<open>
  \<^verbatim>\<open>routing/shared_state.py\<close>: the fail-open Redis client of the selector's hot state. Redis
  itself is outside the model: \<open>redis_reply\<close> is what one \<^verbatim>\<open>client.get\<close> followed by
  \<^verbatim>\<open>json.loads\<close> gives, and whether a \<^verbatim>\<open>setex\<close> fails is an argument. The state is the
  singleton client, the window in which the store is off after a failure, and the
  warned-once flag.
\<close>

datatype redis_reply = RedisError | RedisMiss | RedisCorrupt | RedisJson json

record redis_env =
  rd_url_set :: bool
  rd_import_ok :: bool

record shared_store =
  ss_client :: bool
  ss_disabled_until :: secs
  ss_warned :: bool

definition REDIS_RETRY_S :: secs where "REDIS_RETRY_S = 60"

definition SAT_KEY :: string where "SAT_KEY = ''aib:sat''"

definition fresh_store :: shared_store where
  "fresh_store = \<lparr>ss_client = False, ss_disabled_until = 0, ss_warned = False\<rparr>"

definition aff_key :: "int \<Rightarrow> string \<Rightarrow> string" where
  "aff_key project_id provider = ''aib:aff:'' @ show_int project_id @ '':'' @ provider"

definition trip :: "secs \<Rightarrow> shared_store \<Rightarrow> shared_store" where
  "trip now ss = ss\<lparr>ss_disabled_until := now + REDIS_RETRY_S, ss_warned := True\<rparr>"

definition get_client :: "secs \<Rightarrow> redis_env \<Rightarrow> shared_store \<Rightarrow> bool \<times> shared_store" where
  "get_client now env ss =
     (if now < ss_disabled_until ss then (False, ss)
      else if \<not> rd_url_set env then (False, ss)
      else if \<not> ss_client ss then
        (if \<not> rd_import_ok env then (False, trip now ss)
         else (True, ss\<lparr>ss_client := True\<rparr>))
      else (True, ss))"

text \<open>A JSON \<^verbatim>\<open>null\<close> reads as \<^verbatim>\<open>None\<close>, that is, as a miss.\<close>

definition get_json ::
  "secs \<Rightarrow> redis_env \<Rightarrow> (string \<Rightarrow> redis_reply) \<Rightarrow> string \<Rightarrow> shared_store \<Rightarrow> json option \<times> shared_store" where
  "get_json now env redis key ss = (case get_client now env ss of
      (False, ss1) \<Rightarrow> (None, ss1)
    | (True, ss1) \<Rightarrow> (case redis key of
          RedisError \<Rightarrow> (None, trip now ss1)
        | RedisMiss \<Rightarrow> (None, ss1)
        | RedisCorrupt \<Rightarrow> (None, ss1)
        | RedisJson v \<Rightarrow> ((if v = JNull then None else Some v), ss1)))"

text \<open>
  A write: what is sent to Redis (key, lifetime in whole seconds, value) when the client is
  up, and the state afterwards; \<open>fails\<close> says that the command raised.
\<close>

definition set_json ::
  "secs \<Rightarrow> redis_env \<Rightarrow> bool \<Rightarrow> string \<Rightarrow> json \<Rightarrow> secs \<Rightarrow> shared_store
   \<Rightarrow> (string \<times> int \<times> json) option \<times> shared_store" where
  "set_json now env fails key v ttl_s ss = (case get_client now env ss of
      (False, ss1) \<Rightarrow> (None, ss1)
    | (True, ss1) \<Rightarrow> if fails then (None, trip now ss1)
                    else (Some (key, max 1 (py_trunc ttl_s), v), ss1))"

text \<open>\<^verbatim>\<open>int(value)\<close> can raise: \<open>Inl\<close> carries the value it was applied to.\<close>

definition get_affinity ::
  "secs \<Rightarrow> redis_env \<Rightarrow> (string \<Rightarrow> redis_reply) \<Rightarrow> int \<Rightarrow> string \<Rightarrow> shared_store
   \<Rightarrow> (json + int option) \<times> shared_store" where
  "get_affinity now env redis project_id provider ss =
     (case get_json now env redis (aff_key project_id provider) ss of
        (None, ss1) \<Rightarrow> (Inr None, ss1)
      | (Some v, ss1) \<Rightarrow> (case py_int v of
            None \<Rightarrow> (Inl v, ss1)
          | Some i \<Rightarrow> (Inr (Some i), ss1)))"

definition set_affinity ::
  "secs \<Rightarrow> redis_env \<Rightarrow> bool \<Rightarrow> int \<Rightarrow> string \<Rightarrow> int \<Rightarrow> secs \<Rightarrow> shared_store
   \<Rightarrow> (string \<times> int \<times> json) option \<times> shared_store" where
  "set_affinity now env fails project_id provider key_id ttl_s ss =
     set_json now env fails (aff_key project_id provider) (JInt key_id) ttl_s ss"

text \<open>
  \<^verbatim>\<open>frozenset(int(x) for x in json.loads(raw))\<close>: a payload that is not iterable or holds a
  value \<^verbatim>\<open>int\<close> rejects is a miss. Iterating a string gives its characters, an object its keys.
\<close>

fun all_ints :: "json list \<Rightarrow> int list option" where
  "all_ints [] = Some []"
| "all_ints (v # vs) = (case (py_int v, all_ints vs) of
      (Some i, Some is) \<Rightarrow> Some (i # is)
    | _ \<Rightarrow> None)"

definition ints_of_json :: "json \<Rightarrow> int list option" where
  "ints_of_json v = (case v of
      JList l \<Rightarrow> all_ints l
    | JStr s \<Rightarrow> all_ints (map (\<lambda>c. JStr [c]) s)
    | JObj kvs \<Rightarrow> all_ints (map (\<lambda>(k, v). JStr k) kvs)
    | _ \<Rightarrow> None)"

definition get_saturated ::
  "secs \<Rightarrow> redis_env \<Rightarrow> (string \<Rightarrow> redis_reply) \<Rightarrow> shared_store \<Rightarrow> int list option \<times> shared_store" where
  "get_saturated now env redis ss = (case get_client now env ss of
      (False, ss1) \<Rightarrow> (None, ss1)
    | (True, ss1) \<Rightarrow> (case redis SAT_KEY of
          RedisError \<Rightarrow> (None, trip now ss1)
        | RedisMiss \<Rightarrow> (None, ss1)
        | RedisCorrupt \<Rightarrow> (None, ss1)
        | RedisJson v \<Rightarrow> (ints_of_json v, ss1)))"

definition set_saturated ::
  "secs \<Rightarrow> redis_env \<Rightarrow> bool \<Rightarrow> int list \<Rightarrow> secs \<Rightarrow> shared_store
   \<Rightarrow> (string \<times> int \<times> json) option \<times> shared_store" where
  "set_saturated now env fails ids ttl ss =
     set_json now env fails SAT_KEY (JList (map JInt (sort (remdups ids)))) ttl ss"

section \<open>Fail-open\<close>

lemma get_client_off: "now < ss_disabled_until ss \<Longrightarrow> get_client now env ss = (False, ss)"
  by (simp add: get_client_def)

lemma trip_off: "now' < now + REDIS_RETRY_S \<Longrightarrow> fst (get_client now' env (trip now ss)) = False"
  by (simp add: get_client_def trip_def)

text \<open>A failed command turns the store off: no Redis call is made for the retry window.\<close>

lemma get_json_error_trips:
  assumes "redis key = RedisError" "now' < now + REDIS_RETRY_S"
    and up: "fst (get_client now env ss)"
  shows "fst (get_json now env redis key ss) = None \<and>
         fst (get_client now' env (snd (get_json now env redis key ss))) = False"
proof -
  obtain ss1 where "get_client now env ss = (True, ss1)"
    using up by (cases "get_client now env ss") auto
  with assms show ?thesis by (simp add: get_json_def trip_off)
qed

text \<open>What \<^verbatim>\<open>set_affinity\<close> sends, \<^verbatim>\<open>get_affinity\<close> reads back.\<close>

lemma affinity_roundtrip:
  assumes "fst (set_affinity now env False pid prov kid ttl ss) = Some (key, life, v)"
    and "redis (aff_key pid prov) = RedisJson v" "fst (get_client now' env ss')"
  shows "fst (get_affinity now' env redis pid prov ss') = Inr (Some kid) \<and> key = aff_key pid prov \<and> 1 \<le> life"
proof -
  have w: "key = aff_key pid prov" "v = JInt kid" "1 \<le> life"
    using assms(1) by (auto simp: set_affinity_def set_json_def split: prod.splits bool.splits)
  obtain s where "get_client now' env ss' = (True, s)"
    using assms(3) by (cases "get_client now' env ss'") auto
  with w assms(2) show ?thesis
    by (simp add: get_affinity_def get_json_def)
qed

lemma all_ints_map_JInt: "all_ints (map JInt is) = Some is"
  by (induction "is") auto

lemma saturated_roundtrip:
  assumes "fst (set_saturated now env False ids ttl ss) = Some (key, life, v)"
    and "redis SAT_KEY = RedisJson v" "fst (get_client now' env ss')"
  shows "\<exists>is. fst (get_saturated now' env redis ss') = Some is \<and> set is = set ids"
proof -
  have "v = JList (map JInt (sort (remdups ids)))"
    using assms(1) by (auto simp: set_saturated_def set_json_def split: prod.splits bool.splits)
  moreover obtain s where "get_client now' env ss' = (True, s)"
    using assms(3) by (cases "get_client now' env ss'") auto
  ultimately show ?thesis
    using assms(2) by (simp add: get_saturated_def ints_of_json_def all_ints_map_JInt)
qed

end
