(* ===== verification/Affinity.thy ===== *)
theory Affinity
  imports Shared_State Circuit Chains
begin

text \<open>
  \<^verbatim>\<open>routing/affinity.py\<close>: the key pin (project, provider) and the route pin (project,
  workflow, capability, pin), each an in-process dict with a time stamp behind the shared
  Redis store, and the rule that decides whether a pinned target may jump ahead of the
  walk. The locale \<open>ttl_store\<close> states what a stamped dict promises; both pins interpret it.
  The SHA-256 prefix in a route key is the argument \<open>digest\<close>, and \<open>py_repr\<close> stands for
  \<^verbatim>\<open>str\<close> of a float, a list or an object.
\<close>

section \<open>Stores with a time to live\<close>

locale ttl_store =
  fixes put :: "secs \<Rightarrow> 'k \<Rightarrow> 'v \<Rightarrow> 's \<Rightarrow> 's"
    and get :: "secs \<Rightarrow> 'k \<Rightarrow> 's \<Rightarrow> 'v option \<times> 's"
    and ttl :: secs
  assumes get_put: "fst (get t' k (put t k v s)) = (if t' - t > ttl then None else Some v)"
    and get_put_other: "k \<noteq> k' \<Longrightarrow> fst (get t' k' (put t k v s)) = fst (get t' k' s)"
    and get_get: "t \<le> t' \<Longrightarrow> fst (get t' k' (snd (get t k s))) = fst (get t' k' s)"
begin

text \<open>After any run of writes a read gives the last value written under its key, or nothing
  once that value is older than the lifetime.\<close>

lemma get_after_puts:
  assumes "k \<notin> (\<lambda>(t, k, v). k) ` set later"
  shows "fst (get t' k (fold (\<lambda>(t, k, v). put t k v) (earlier @ (t, k, v) # later) s))
         = (if t' - t > ttl then None else Some v)"
proof -
  have "fst (get t' k (fold (\<lambda>(t, k, v). put t k v) later s0)) = fst (get t' k s0)" for s0
    using assms by (induction later arbitrary: s0) (auto simp: get_put_other)
  then show ?thesis by (simp add: get_put)
qed

text \<open>Reads do not disturb later reads.\<close>

lemma get_after_gets:
  assumes "list_all (\<lambda>(t, k). t \<le> t') reads"
  shows "fst (get t' k' (fold (\<lambda>(t, k) s. snd (get t k s)) reads s)) = fst (get t' k' s)"
  using assms by (induction reads arbitrary: s) (auto simp: get_get)

end

section \<open>State\<close>

record AffinityTarget =
  at_provider :: string
  at_model :: string
  at_key_id :: int

record affinity_state =
  af_keys :: "((int \<times> string) \<times> (int \<times> secs)) list"
  af_routes :: "(string \<times> (AffinityTarget \<times> secs)) list"

definition affinity_reset :: affinity_state where
  "affinity_reset = \<lparr>af_keys = [], af_routes = []\<rparr>"

text \<open>What one visit to the shared store is given: clock, environment, replies, failure.\<close>

record shared_ctx =
  sc_now :: secs
  sc_env :: redis_env
  sc_redis :: "string \<Rightarrow> redis_reply"
  sc_fails :: bool

section \<open>Key pin\<close>

definition note_affinity :: "secs \<Rightarrow> int \<times> string \<Rightarrow> int \<Rightarrow> affinity_state \<Rightarrow> affinity_state" where
  "note_affinity now pp api_key_id a = a\<lparr>af_keys := dict_set pp (api_key_id, now) (af_keys a)\<rparr>"

text \<open>The local read for a present project: an expired pin is deleted.\<close>

definition affinity_local ::
  "secs \<Rightarrow> secs \<Rightarrow> int \<times> string \<Rightarrow> affinity_state \<Rightarrow> int option \<times> affinity_state" where
  "affinity_local ttl now pp a = (case map_of (af_keys a) pp of
      None \<Rightarrow> (None, a)
    | Some (api_key_id, noted_at) \<Rightarrow>
        if now - noted_at > ttl then (None, a\<lparr>af_keys := dict_del pp (af_keys a)\<rparr>)
        else (Some api_key_id, a))"

definition affinity_for ::
  "secs \<Rightarrow> secs \<Rightarrow> int option \<Rightarrow> string \<Rightarrow> affinity_state \<Rightarrow> int option \<times> affinity_state" where
  "affinity_for ttl now project_id provider a = (case project_id of
      None \<Rightarrow> (None, a)
    | Some pid \<Rightarrow> affinity_local ttl now (pid, provider) a)"

definition note_affinity_shared ::
  "secs \<Rightarrow> shared_ctx \<Rightarrow> int \<Rightarrow> string \<Rightarrow> int \<Rightarrow> affinity_state \<times> shared_store
   \<Rightarrow> affinity_state \<times> shared_store" where
  "note_affinity_shared ttl sc project_id provider api_key_id st = (case st of (a, ss) \<Rightarrow>
     (note_affinity (sc_now sc) (project_id, provider) api_key_id a,
      snd (set_affinity (sc_now sc) (sc_env sc) (sc_fails sc) project_id provider api_key_id ttl ss)))"

text \<open>\<open>Inl\<close>: the shared value was one \<^verbatim>\<open>int()\<close> rejects, and the exception leaves the pick.\<close>

definition affinity_for_shared ::
  "secs \<Rightarrow> shared_ctx \<Rightarrow> int option \<Rightarrow> string \<Rightarrow> affinity_state \<times> shared_store
   \<Rightarrow> (json + int option) \<times> affinity_state \<times> shared_store" where
  "affinity_for_shared ttl sc project_id provider st = (case st of (a, ss) \<Rightarrow>
     (case project_id of
        None \<Rightarrow> (Inr None, a, ss)
      | Some pid \<Rightarrow>
          (case get_affinity (sc_now sc) (sc_env sc) (sc_redis sc) pid provider ss of
             (Inl v, ss1) \<Rightarrow> (Inl v, a, ss1)
           | (Inr (Some i), ss1) \<Rightarrow> (Inr (Some i), a, ss1)
           | (Inr None, ss1) \<Rightarrow>
               (case affinity_for ttl (sc_now sc) (Some pid) provider a of
                  (r, a1) \<Rightarrow> (Inr r, a1, ss1)))))"

section \<open>Route pin\<close>

definition route_key ::
  "(string \<Rightarrow> string) \<Rightarrow> int \<Rightarrow> string option \<Rightarrow> string \<Rightarrow> string option \<Rightarrow> string" where
  "route_key digest project_id workflow capability pinned_model =
     ''aib:raff:'' @ show_int project_id @ '':'' @
     take 20 (digest (opt_or workflow [] @ [CHR 0x1F] @ capability @ [CHR 0x1F] @
                      opt_or pinned_model []))"

fun py_str :: "(json \<Rightarrow> string) \<Rightarrow> json \<Rightarrow> string" where
  "py_str py_repr (JStr s) = s"
| "py_str py_repr (JInt i) = show_int i"
| "py_str py_repr (JBool b) = (if b then ''True'' else ''False'')"
| "py_str py_repr JNull = ''None''"
| "py_str py_repr v = py_repr v"

definition route_of_json :: "(json \<Rightarrow> string) \<Rightarrow> json option \<Rightarrow> AffinityTarget option" where
  "route_of_json py_repr raw = (case raw of
      Some (JObj kvs) \<Rightarrow>
        (case (obj_get kvs ''p'', obj_get kvs ''m'', obj_get kvs ''k'') of
           (Some p, Some m, Some k) \<Rightarrow>
             (case py_int k of
                Some i \<Rightarrow> Some \<lparr>at_provider = py_str py_repr p, at_model = py_str py_repr m,
                                at_key_id = i\<rparr>
              | None \<Rightarrow> None)
         | _ \<Rightarrow> None)
    | _ \<Rightarrow> None)"

definition note_route_local :: "secs \<Rightarrow> string \<Rightarrow> AffinityTarget \<Rightarrow> affinity_state \<Rightarrow> affinity_state" where
  "note_route_local now key target a = a\<lparr>af_routes := dict_set key (target, now) (af_routes a)\<rparr>"

definition route_local ::
  "secs \<Rightarrow> secs \<Rightarrow> string \<Rightarrow> affinity_state \<Rightarrow> AffinityTarget option \<times> affinity_state" where
  "route_local ttl now key a = (case map_of (af_routes a) key of
      None \<Rightarrow> (None, a)
    | Some (target, noted_at) \<Rightarrow>
        if now - noted_at > ttl then (None, a\<lparr>af_routes := dict_del key (af_routes a)\<rparr>)
        else (Some target, a))"

definition lookup_route ::
  "(string \<Rightarrow> string) \<Rightarrow> (json \<Rightarrow> string) \<Rightarrow> secs \<Rightarrow> shared_ctx \<Rightarrow> int \<Rightarrow> string option \<Rightarrow> string
   \<Rightarrow> string option \<Rightarrow> affinity_state \<times> shared_store
   \<Rightarrow> AffinityTarget option \<times> affinity_state \<times> shared_store" where
  "lookup_route digest py_repr ttl sc project_id workflow capability pinned_model st =
     (case st of (a, ss) \<Rightarrow>
      let key = route_key digest project_id workflow capability pinned_model
      in (case get_json (sc_now sc) (sc_env sc) (sc_redis sc) key ss of (raw, ss1) \<Rightarrow>
           (case route_of_json py_repr raw of
              Some t \<Rightarrow> (Some t, a, ss1)
            | None \<Rightarrow> (case route_local ttl (sc_now sc) key a of (r, a1) \<Rightarrow> (r, a1, ss1)))))"

definition json_of_target :: "AffinityTarget \<Rightarrow> json" where
  "json_of_target t = JObj [(''p'', JStr (at_provider t)), (''m'', JStr (at_model t)),
                            (''k'', JInt (at_key_id t))]"

definition note_route ::
  "(string \<Rightarrow> string) \<Rightarrow> secs \<Rightarrow> shared_ctx \<Rightarrow> int \<Rightarrow> string option \<Rightarrow> string \<Rightarrow> string option
   \<Rightarrow> AffinityTarget \<Rightarrow> affinity_state \<times> shared_store \<Rightarrow> affinity_state \<times> shared_store" where
  "note_route digest ttl sc project_id workflow capability pinned_model target st =
     (case st of (a, ss) \<Rightarrow>
      let key = route_key digest project_id workflow capability pinned_model
      in (note_route_local (sc_now sc) key target a,
          snd (set_json (sc_now sc) (sc_env sc) (sc_fails sc) key (json_of_target target) ttl ss)))"

definition note_success ::
  "(string \<Rightarrow> string) \<Rightarrow> secs \<Rightarrow> shared_ctx \<Rightarrow> int \<Rightarrow> string option \<Rightarrow> string \<Rightarrow> string option
   \<Rightarrow> string \<Rightarrow> string \<Rightarrow> int \<Rightarrow> affinity_state \<times> shared_store \<Rightarrow> affinity_state \<times> shared_store" where
  "note_success digest ttl sc project_id workflow capability pinned_model provider model key_id st =
     note_route digest ttl sc project_id workflow capability pinned_model
       \<lparr>at_provider = provider, at_model = model, at_key_id = key_id\<rparr>
       (note_affinity_shared ttl sc project_id provider key_id st)"

definition may_promote :: "AffinityTarget \<Rightarrow> string option \<Rightarrow> bool \<Rightarrow> bool" where
  "may_promote target head_provider paid_only =
     (if paid_only then True
      else \<not> (at_provider target \<in> set paid_providers \<and>
              (case head_provider of None \<Rightarrow> True | Some h \<Rightarrow> h \<notin> set paid_providers)))"

section \<open>The pins as stores\<close>

lemma affinity_local_fst:
  "fst (affinity_local ttl now pp a) =
   (case map_of (af_keys a) pp of None \<Rightarrow> None | Some (i, t) \<Rightarrow> if now - t > ttl then None else Some i)"
  by (auto simp: affinity_local_def split: option.splits)

lemma affinity_local_keys:
  "map_of (af_keys (snd (affinity_local ttl now pp a))) q =
   (if q = pp \<and> fst (affinity_local ttl now pp a) = None then None else map_of (af_keys a) q)"
  by (auto simp: affinity_local_def split: option.splits)

interpretation key_pin: ttl_store note_affinity "affinity_local ttl" ttl for ttl
proof unfold_locales
  fix t t' :: secs and k k' :: "int \<times> string" and s
  show "fst (affinity_local ttl t' k (note_affinity t k v s)) = (if t' - t > ttl then None else Some v)" for v
    by (simp add: affinity_local_fst note_affinity_def)
  show "k \<noteq> k' \<Longrightarrow> fst (affinity_local ttl t' k' (note_affinity t k v s)) = fst (affinity_local ttl t' k' s)" for v
    by (simp add: affinity_local_fst note_affinity_def)
  assume "t \<le> t'"
  then show "fst (affinity_local ttl t' k' (snd (affinity_local ttl t k s))) = fst (affinity_local ttl t' k' s)"
    unfolding affinity_local_fst affinity_local_keys by (auto split: option.splits)
qed

lemma route_local_fst:
  "fst (route_local ttl now key a) =
   (case map_of (af_routes a) key of None \<Rightarrow> None | Some (i, t) \<Rightarrow> if now - t > ttl then None else Some i)"
  by (auto simp: route_local_def split: option.splits)

lemma route_local_routes:
  "map_of (af_routes (snd (route_local ttl now key a))) q =
   (if q = key \<and> fst (route_local ttl now key a) = None then None else map_of (af_routes a) q)"
  by (auto simp: route_local_def split: option.splits)

interpretation route_pin: ttl_store note_route_local "route_local ttl" ttl for ttl
proof unfold_locales
  fix t t' :: secs and k k' :: string and s
  show "fst (route_local ttl t' k (note_route_local t k v s)) = (if t' - t > ttl then None else Some v)" for v
    by (simp add: route_local_fst note_route_local_def)
  show "k \<noteq> k' \<Longrightarrow> fst (route_local ttl t' k' (note_route_local t k v s)) = fst (route_local ttl t' k' s)" for v
    by (simp add: route_local_fst note_route_local_def)
  assume "t \<le> t'"
  then show "fst (route_local ttl t' k' (snd (route_local ttl t k s))) = fst (route_local ttl t' k' s)"
    unfolding route_local_fst route_local_routes by (auto split: option.splits)
qed

section \<open>Pinning\<close>

lemma route_json_roundtrip: "route_of_json py_repr (Some (json_of_target t)) = Some t"
  by (cases t) (simp add: route_of_json_def json_of_target_def obj_get_def)

lemma get_json_down: "\<not> fst (get_client now env ss) \<Longrightarrow> fst (get_json now env redis key ss) = None"
  by (auto simp: get_json_def split: prod.splits bool.splits)

lemma may_promote_paid:
  assumes "may_promote t h False" "at_provider t \<in> set paid_providers"
  shows "\<exists>p. h = Some p \<and> p \<in> set paid_providers"
  using assms by (auto simp: may_promote_def split: option.splits)

end
