(* ===== verification/Quotas.thy ===== *)
theory Quotas
  imports Provider_Specs Db_Models
begin

text \<open>
  \<^verbatim>\<open>providers/quotas.py\<close>: the effective daily quota of a key, per axis the manual value,
  else the discovered one, else the provider's seed (which a paid key does not inherit),
  and the dashboard's breakdown by axis.
\<close>

definition quota_for :: "string \<Rightarrow> Quota" where
  "quota_for provider = ps_quota (spec_or_default (Some provider))"

fun first_some :: "'a option list \<Rightarrow> 'a option" where
  "first_some [] = None"
| "first_some (Some v # vs) = Some v"
| "first_some (None # vs) = first_some vs"

definition quota_for_key :: "ApiKeyRow \<Rightarrow> Quota" where
  "quota_for_key key =
     (let b0 = quota_for (k_provider key);
          base = (if k_tier key = ''paid'' then no_quota\<lparr>q_doc := q_doc b0\<rparr> else b0)
      in \<lparr>req_per_day = first_some [k_manual_req_limit key, k_discovered_req_limit key, req_per_day base],
          tok_per_day = first_some [k_manual_tok_limit key, k_discovered_tok_limit key, tok_per_day base],
          tok_in_per_day = first_some [k_manual_tok_in_limit key, tok_in_per_day base],
          tok_out_per_day = first_some [k_manual_tok_out_limit key, tok_out_per_day base],
          q_doc = q_doc base\<rparr>)"

record quota_axis =
  ax_name :: string
  ax_short :: string
  ax_used :: int
  ax_cap :: int
  ax_pct :: int

definition axis_pct :: "int \<Rightarrow> int \<Rightarrow> int" where
  "axis_pct used cap = min 100 (py_trunc (of_int used / of_int cap * 100))"

definition axis_row :: "string \<Rightarrow> string \<Rightarrow> int \<Rightarrow> int option \<Rightarrow> quota_axis list" where
  "axis_row name short used cap = (case cap of
      Some c \<Rightarrow> if c \<noteq> 0 then [\<lparr>ax_name = name, ax_short = short, ax_used = used, ax_cap = c,
                                ax_pct = axis_pct used c\<rparr>] else []
    | None \<Rightarrow> [])"

text \<open>\<^verbatim>\<open>rows.sort(key=pct, reverse=True)\<close> is stable also in reverse: ties keep their order.\<close>

definition axes_for_key :: "int \<Rightarrow> int \<Rightarrow> ApiKeyRow \<Rightarrow> int \<Rightarrow> int \<Rightarrow> quota_axis list" where
  "axes_for_key reqs toks key toks_in toks_out =
     (let q = quota_for_key key
      in sort_key (\<lambda>r. - ax_pct r)
           (axis_row ''requests'' ''req'' reqs (req_per_day q) @
            axis_row ''tokens'' ''tok'' toks (tok_per_day q) @
            axis_row ''input'' ''in'' toks_in (tok_in_per_day q) @
            axis_row ''output'' ''out'' toks_out (tok_out_per_day q)))"

definition severity_class :: "int option \<Rightarrow> string" where
  "severity_class pct = (case pct of
      None \<Rightarrow> []
    | Some p \<Rightarrow> if p \<ge> 90 then ''bad'' else if p \<ge> 70 then ''warn'' else [])"

section \<open>Lemmas\<close>

lemma quota_for_table:
  "quota_axes (quota_for p) = opt_or (map_of quota_table p) (None, None)"
  unfolding map_of_quota_table quotas_def map_of_map_snd
  by (cases "map_of REGISTRY p")
     (simp_all add: quota_for_def spec_or_default_def opt_or_def quota_axes_def new_ProviderSpec_def no_quota_def)

lemma axes_sorted: "sorted (map (\<lambda>r. - ax_pct r) (axes_for_key reqs toks key ti tout))"
  by (simp add: axes_for_key_def Let_def)

lemma axis_row_pct: "r \<in> set (axis_row n s u c) \<Longrightarrow> ax_pct r \<le> 100 \<and> c = Some (ax_cap r) \<and> ax_cap r \<noteq> 0"
  by (auto simp: axis_row_def axis_pct_def split: option.splits if_splits)

lemma paid_key_has_no_seed:
  assumes "k_tier key = ''paid''" "k_manual_req_limit key = None" "k_discovered_req_limit key = None"
    "k_manual_tok_limit key = None" "k_discovered_tok_limit key = None"
    "k_manual_tok_in_limit key = None" "k_manual_tok_out_limit key = None"
  shows "axes_for_key reqs toks key ti tout = []"
  using assms by (simp add: axes_for_key_def quota_for_key_def Let_def axis_row_def no_quota_def)

end
