(* ===== verification/Broker_State.thy ===== *)
theory Broker_State
  imports Affinity
begin

text \<open>
  The state the routing core shares: the tables of the database and the in-process memory
  of one worker (circuit breaker, saturation verdict, affinity pins, the shared-store
  client, the cached global spend, the usage-log columns found missing). Each component
  updates its own fields; the record keeps them together so that an attempt can thread
  them through its calls.
\<close>

record broker =
  b_keys :: "ApiKeyRow list"
  b_cooldowns :: "ModelCooldownRow list"
  b_usage :: "UsageLogRow list"
  b_next_usage_id :: int
  b_circuit :: circuit_state
  b_sat_ids :: "int list"
  b_sat_fetched_at :: "secs option"
  b_aff :: affinity_state
  b_shared :: shared_store
  b_global_value :: usd
  b_global_fetched_at :: secs
  b_missing_usage_cols :: "string list"

definition broker_init :: "ApiKeyRow list \<Rightarrow> broker" where
  "broker_init keys =
     \<lparr>b_keys = keys, b_cooldowns = [], b_usage = [], b_next_usage_id = 1,
      b_circuit = circuit_reset, b_sat_ids = [], b_sat_fetched_at = None,
      b_aff = affinity_reset, b_shared = fresh_store, b_global_value = 0,
      b_global_fetched_at = 0, b_missing_usage_cols = []\<rparr>"

text \<open>Writing one key row: \<^verbatim>\<open>UPDATE api_keys SET ... WHERE id = :id AND ...\<close>.\<close>

definition update_key :: "int \<Rightarrow> (ApiKeyRow \<Rightarrow> bool) \<Rightarrow> (ApiKeyRow \<Rightarrow> ApiKeyRow) \<Rightarrow> broker \<Rightarrow> broker" where
  "update_key i P f b = b\<lparr>b_keys := update_where (\<lambda>k. k_id k = i \<and> P k) f (b_keys b)\<rparr>"

definition key_of :: "int \<Rightarrow> broker \<Rightarrow> ApiKeyRow option" where
  "key_of i b = find_row k_id i (b_keys b)"

definition keys_ok :: "broker \<Rightarrow> bool" where
  "keys_ok b \<longleftrightarrow> distinct (map k_id (b_keys b))"

lemma key_of_update_key:
  assumes "\<And>k. k_id (f k) = k_id k"
  shows "key_of j (update_key i P f b)
         = (if j = i then map_option (\<lambda>k. if P k then f k else k) (key_of j b) else key_of j b)"
  using row_update.find_updated_key[of k_id f j i P "b_keys b"] assms
  by (simp add: key_of_def update_key_def row_update_def)

lemma keys_ok_update_key:
  assumes "\<And>k. k_id (f k) = k_id k"
  shows "keys_ok (update_key i P f b) \<longleftrightarrow> keys_ok b"
  using row_update.keys_kept[of k_id f _ "b_keys b"] assms
  by (simp add: keys_ok_def update_key_def row_update_def)

lemma key_of_in: "key_of i b = Some k \<Longrightarrow> k \<in> set (b_keys b) \<and> k_id k = i"
  unfolding key_of_def by (rule find_row_SomeD)

lemma update_key_other_fields [simp]:
  "b_usage (update_key i P f b) = b_usage b"
  "b_cooldowns (update_key i P f b) = b_cooldowns b"
  "b_circuit (update_key i P f b) = b_circuit b"
  "b_global_value (update_key i P f b) = b_global_value b"
  "b_global_fetched_at (update_key i P f b) = b_global_fetched_at b"
  "b_next_usage_id (update_key i P f b) = b_next_usage_id b"
  by (simp_all add: update_key_def)

end
