(* ===== verification/Selector.thy ===== *)
theory Selector
  imports Broker_State Quotas "HOL-Library.Product_Lexorder"
begin

text \<open>
  \<^verbatim>\<open>routing/selector.py\<close> and \<^verbatim>\<open>routing/model_cooldown.py\<close>: the lazily reset counters of a
  key, the saturation verdict, the pick of a key (\<^verbatim>\<open>SELECT ... FOR UPDATE SKIP LOCKED\<close>),
  the cooldown and dead marks, and \<^verbatim>\<open>record_usage\<close>. One pick is given the clock, a random
  number per key, the set of rows other transactions hold locked, and the shared store's
  replies; all are arbitrary, so what is proved holds for every schedule.
\<close>

section \<open>Fresh counters\<close>

definition month_start_utc :: "clock \<Rightarrow> date" where
  "month_start_utc ck = (case ck_utc_date ck of (y, m, d) \<Rightarrow> (y, m, 1))"

definition fresh_daily_used :: "clock \<Rightarrow> ApiKeyRow \<Rightarrow> int" where
  "fresh_daily_used ck k = (if k_daily_reset_at k \<noteq> Some (ck_date ck) then 0 else k_daily_used k)"

definition fresh_daily_cost :: "clock \<Rightarrow> ApiKeyRow \<Rightarrow> usd" where
  "fresh_daily_cost ck k = (if k_daily_reset_at k \<noteq> Some (ck_date ck) then 0 else k_daily_cost_used_usd k)"

definition fresh_monthly_cost :: "clock \<Rightarrow> ApiKeyRow \<Rightarrow> usd" where
  "fresh_monthly_cost ck k =
     (if k_monthly_reset_at k \<noteq> Some (month_start_utc ck) then 0 else k_monthly_cost_used_usd k)"

definition monthly_cap_ok :: "clock \<Rightarrow> ApiKeyRow \<Rightarrow> bool" where
  "monthly_cap_ok ck k = (case k_monthly_cost_cap_usd k of
      None \<Rightarrow> True | Some cap \<Rightarrow> fresh_monthly_cost ck k < cap)"

section \<open>Saturation\<close>

definition SATURATION_TTL_S :: secs where "SATURATION_TTL_S = 15"
definition INF_CAP :: int where "INF_CAP = 999999999999"
definition TIMEOUT_STORM_MIN_KEYS :: nat where "TIMEOUT_STORM_MIN_KEYS = 2"

definition invalidate_saturation_cache :: "broker \<Rightarrow> broker" where
  "invalidate_saturation_cache b = b\<lparr>b_sat_fetched_at := None\<rparr>"

text \<open>The defaults CTE: a seed of 0 is rendered as \<^verbatim>\<open>NULL\<close>.\<close>

definition quota_values :: "(string \<times> int option \<times> int option) list" where
  "quota_values = map (\<lambda>(p, q). let f = (\<lambda>v. if v = Some 0 then None else v)
                              in (p, f (req_per_day q), f (tok_per_day q))) quotas"

definition utc_day_start :: "instant \<Rightarrow> instant" where
  "utc_day_start t = of_int \<lfloor>t / 86400\<rfloor> * 86400"

definition usage_today :: "clock \<Rightarrow> int \<Rightarrow> UsageLogRow list \<Rightarrow> UsageLogRow list" where
  "usage_today ck kid us =
     filter (\<lambda>u. u_api_key_id u = Some kid \<and> utc_day_start (ck_now ck) \<le> u_created_at u \<and>
                 u_created_at u < utc_day_start (ck_now ck) + 86400) us"

definition over_95 :: "int \<Rightarrow> int option list \<Rightarrow> bool" where
  "over_95 used caps \<longleftrightarrow>
     of_int used \<ge> (of_int (opt_or (first_some caps) INF_CAP) :: rat) * (95 / 100)"

text \<open>The join drops keys without a usage row today.\<close>

definition key_saturated :: "clock \<Rightarrow> UsageLogRow list \<Rightarrow> ApiKeyRow \<Rightarrow> bool" where
  "key_saturated ck us k =
     (let rows = usage_today ck (k_id k) us;
          tin = sum_list (map u_tokens_in rows);
          tout = sum_list (map u_tokens_out rows);
          d = opt_or (map_of quota_values (k_provider k)) (None, None)
      in rows \<noteq> [] \<and>
         (over_95 (int (length rows)) [k_manual_req_limit k, k_discovered_req_limit k, fst d] \<or>
          over_95 (tin + tout) [k_manual_tok_limit k, k_discovered_tok_limit k, snd d] \<or>
          over_95 tin [k_manual_tok_in_limit k] \<or>
          over_95 tout [k_manual_tok_out_limit k]))"

definition saturated_ids_db :: "clock \<Rightarrow> broker \<Rightarrow> int list" where
  "saturated_ids_db ck b = map k_id (filter (key_saturated ck (b_usage b)) (b_keys b))"

definition saturated_key_ids :: "clock \<Rightarrow> shared_ctx \<Rightarrow> broker \<Rightarrow> int list \<times> broker" where
  "saturated_key_ids ck sc b =
     (if (case b_sat_fetched_at b of None \<Rightarrow> False | Some t \<Rightarrow> ck_mono ck - t < SATURATION_TTL_S)
      then (b_sat_ids b, b)
      else case get_saturated (sc_now sc) (sc_env sc) (sc_redis sc) (b_shared b) of
          (Some ids, ss) \<Rightarrow>
            (ids, b\<lparr>b_sat_ids := ids, b_sat_fetched_at := Some (ck_mono ck), b_shared := ss\<rparr>)
        | (None, ss) \<Rightarrow>
            let ids = saturated_ids_db ck b
            in (ids, b\<lparr>b_sat_ids := ids, b_sat_fetched_at := Some (ck_mono ck),
                       b_shared := snd (set_saturated (sc_now sc) (sc_env sc) (sc_fails sc) ids
                                          SATURATION_TTL_S ss)\<rparr>))"

section \<open>Per-model cooldowns\<close>

definition mark_model_cooldown ::
  "int \<Rightarrow> string \<Rightarrow> instant \<Rightarrow> string option \<Rightarrow> broker \<Rightarrow> broker" where
  "mark_model_cooldown kid model until reason b =
     (let m = take 120 model; cds = b_cooldowns b
      in if list_ex (\<lambda>c. mc_api_key_id c = kid \<and> mc_model c = m) cds
         then b\<lparr>b_cooldowns := update_where (\<lambda>c. mc_api_key_id c = kid \<and> mc_model c = m)
                  (\<lambda>c. c\<lparr>mc_cooldown_until := (if mc_cooldown_until c > until
                                               then mc_cooldown_until c else until),
                         mc_reason := clip_reason reason\<rparr>) cds\<rparr>
         else b\<lparr>b_cooldowns := cds @ [\<lparr>mc_api_key_id = kid, mc_model = m,
                  mc_cooldown_until = until, mc_reason = clip_reason reason\<rparr>]\<rparr>)"

definition cooled_models :: "instant \<Rightarrow> int \<Rightarrow> broker \<Rightarrow> string list" where
  "cooled_models now kid b =
     map mc_model (filter (\<lambda>c. mc_api_key_id c = kid \<and> mc_cooldown_until c > now) (b_cooldowns b))"

section \<open>The pick\<close>

text \<open>
  The \<^verbatim>\<open>WHERE\<close> clause. \<open>models\<close> is \<^verbatim>\<open>None\<close> or empty when per-model cooldowns are ignored.
\<close>

definition models_left :: "clock \<Rightarrow> broker \<Rightarrow> string list \<Rightarrow> ApiKeyRow \<Rightarrow> bool" where
  "models_left ck b models k \<longleftrightarrow>
     models = [] \<or>
     row_count (\<lambda>c. mc_api_key_id c = k_id k \<and> mc_model c \<in> set models \<and>
                    mc_cooldown_until c > ck_now ck) (b_cooldowns b)
       < length (remdups models)"

definition key_available ::
  "clock \<Rightarrow> broker \<Rightarrow> string \<Rightarrow> string \<Rightarrow> string option \<Rightarrow> string list \<Rightarrow> ApiKeyRow \<Rightarrow> bool" where
  "key_available ck b provider scope require_tier models k \<longleftrightarrow>
     k_provider k = provider \<and> k_is_active k \<and> k_is_alive k \<and> scope \<in> set (k_scopes k) \<and>
     (case k_cooldown_until k of None \<Rightarrow> True | Some t \<Rightarrow> t < ck_now ck) \<and>
     (case k_daily_cost_cap_usd k of None \<Rightarrow> True | Some cap \<Rightarrow> fresh_daily_cost ck k < cap) \<and>
     monthly_cap_ok ck k \<and>
     (k_daily_limit k = 0 \<or> fresh_daily_used ck k < k_daily_limit k) \<and>
     (case require_tier of None \<Rightarrow> True | Some t \<Rightarrow> t = [] \<or> k_tier k = t) \<and>
     models_left ck b models k"

text \<open>
  \<^verbatim>\<open>ORDER BY is_reserve, saturated, timed_out, (id = aff) DESC, random()\<close>: false sorts
  before true.
\<close>

definition pick_rank ::
  "int list \<Rightarrow> int list \<Rightarrow> int option \<Rightarrow> (int \<Rightarrow> rat) \<Rightarrow> ApiKeyRow \<Rightarrow> bool \<times> bool \<times> bool \<times> bool \<times> rat" where
  "pick_rank saturated timed_out aff rnd k =
     (k_is_reserve k, k_id k \<in> set saturated, k_id k \<in> set timed_out, aff \<noteq> Some (k_id k), rnd (k_id k))"

text \<open>
  \<^verbatim>\<open>_hydrate_key_row\<close> rebuilds an \<^verbatim>\<open>ApiKeyRow\<close> from the returned columns; the columns it does
  not name keep no value.
\<close>

definition hydrate_key_row :: "ApiKeyRow \<Rightarrow> ApiKeyRow" where
  "hydrate_key_row k = k\<lparr>k_last_error := None, k_discovered_req_limit := None,
     k_discovered_tok_limit := None, k_limits_discovered_at := None, k_manual_req_limit := None,
     k_manual_tok_limit := None, k_manual_tok_in_limit := None, k_manual_tok_out_limit := None\<rparr>"

text \<open>\<^verbatim>\<open>UPDATE ... SET last_used_at = now() WHERE id = ... RETURNING\<close> of one key.\<close>

definition touch_key :: "clock \<Rightarrow> int \<Rightarrow> broker \<Rightarrow> broker" where
  "touch_key ck kid b = update_key kid (\<lambda>k. True) (\<lambda>k. k\<lparr>k_last_used_at := Some (ck_now ck)\<rparr>) b"

definition take_key :: "clock \<Rightarrow> int \<Rightarrow> broker \<Rightarrow> ApiKeyRow option \<times> broker" where
  "take_key ck kid b =
     (let b' = touch_key ck kid b in (map_option hydrate_key_row (key_of kid b'), b'))"

record pick_env =
  pe_clock :: clock
  pe_shared :: shared_ctx
  pe_ttl :: secs
  pe_rnd :: "int \<Rightarrow> rat"
  pe_locked :: "int \<Rightarrow> bool"

definition pick_exact ::
  "clock \<Rightarrow> (ApiKeyRow \<Rightarrow> bool) \<Rightarrow> int \<Rightarrow> broker \<Rightarrow> ApiKeyRow option \<times> broker" where
  "pick_exact ck avail kid b = (case key_of kid b of
      Some k \<Rightarrow> if avail k then take_key ck kid b else (None, b)
    | None \<Rightarrow> (None, b))"

definition pick_best ::
  "pick_env \<Rightarrow> (ApiKeyRow \<Rightarrow> bool) \<Rightarrow> (ApiKeyRow \<Rightarrow> bool \<times> bool \<times> bool \<times> bool \<times> rat) \<Rightarrow> broker
   \<Rightarrow> ApiKeyRow option \<times> broker" where
  "pick_best pe avail rank b =
     (case filter (\<lambda>k. avail k \<and> \<not> pe_locked pe (k_id k)) (b_keys b) of
        [] \<Rightarrow> (None, b)
      | k # ks \<Rightarrow> take_key (pe_clock pe) (k_id (arg_min_list rank (k # ks))) b)"

text \<open>
  The circuit breaker before the pick: a provider in a timeout storm for this scope is
  skipped, except when a paid key is required.
\<close>

definition storm_gate :: "pick_env \<Rightarrow> string \<Rightarrow> string \<Rightarrow> string option \<Rightarrow> broker \<Rightarrow> bool \<times> broker" where
  "storm_gate pe provider scope require_tier b =
     (if require_tier = Some ''paid'' then (False, b)
      else let r = providers_in_timeout_storm (ck_mono (pe_clock pe)) TIMEOUT_STORM_MIN_KEYS
                     (Some scope) (b_circuit b)
           in (provider \<in> set (fst r), b\<lparr>b_circuit := snd r\<rparr>))"

text \<open>
  What the pick reads before it orders the keys: the saturated keys, the keys that timed
  out lately, and the pinned key, which is dropped when it timed out lately. \<open>Inl\<close> is the
  exception of a shared affinity value that is no integer.
\<close>

definition pick_context ::
  "pick_env \<Rightarrow> string \<Rightarrow> int option \<Rightarrow> broker \<Rightarrow> (json + int list \<times> int list \<times> int option) \<times> broker" where
  "pick_context pe provider project_id b =
     (let s = saturated_key_ids (pe_clock pe) (pe_shared pe) b;
          t = recent_timeout_key_ids (ck_mono (pe_clock pe)) (b_circuit (snd s));
          b3 = (snd s)\<lparr>b_circuit := snd t\<rparr>;
          f = affinity_for_shared (pe_ttl pe) (pe_shared pe) project_id provider (b_aff b3, b_shared b3)
      in ((case fst f of
             Inl v \<Rightarrow> Inl v
           | Inr None \<Rightarrow> Inr (fst s, fst t, None)
           | Inr (Some i) \<Rightarrow> Inr (fst s, fst t, if i \<in> set (fst t) then None else Some i)),
          b3\<lparr>b_aff := fst (snd f), b_shared := snd (snd f)\<rparr>))"

text \<open>The statement sent: exactly one key, the sticky pin first, or the best of the pool.\<close>

definition pick_statement ::
  "pick_env \<Rightarrow> string \<Rightarrow> string option \<Rightarrow> (ApiKeyRow \<Rightarrow> bool)
   \<Rightarrow> (ApiKeyRow \<Rightarrow> bool \<times> bool \<times> bool \<times> bool \<times> rat) \<Rightarrow> int option \<Rightarrow> int option \<Rightarrow> broker
   \<Rightarrow> ApiKeyRow option \<times> broker" where
  "pick_statement pe provider require_tier avail rank aff only_key_id b =
     (case only_key_id of
        Some kid \<Rightarrow> pick_exact (pe_clock pe) avail kid b
      | None \<Rightarrow>
          (case aff of
             Some i \<Rightarrow>
               if provider \<in> set cache_sticky_providers \<and> require_tier \<noteq> Some ''free'' then
                 (case pick_exact (pe_clock pe) avail i b of
                    (Some k, b') \<Rightarrow> (Some k, b')
                  | (None, b') \<Rightarrow> pick_best pe avail rank b')
               else pick_best pe avail rank b
           | None \<Rightarrow> pick_best pe avail rank b))"

definition pick_and_reserve ::
  "pick_env \<Rightarrow> string \<Rightarrow> string \<Rightarrow> string option \<Rightarrow> int option \<Rightarrow> string list \<Rightarrow> int option \<Rightarrow> broker
   \<Rightarrow> (json + ApiKeyRow option) \<times> broker" where
  "pick_and_reserve pe provider scope require_tier project_id models only_key_id b =
     (case storm_gate pe provider scope require_tier b of
        (True, b1) \<Rightarrow> (Inr None, b1)
      | (False, b1) \<Rightarrow>
          (case pick_context pe provider project_id b1 of
             (Inl v, b4) \<Rightarrow> (Inl v, b4)
           | (Inr (saturated, timed_out, aff), b4) \<Rightarrow>
               (case pick_statement pe provider require_tier
                       (key_available (pe_clock pe) b4 provider scope require_tier models)
                       (pick_rank saturated timed_out aff (pe_rnd pe)) aff only_key_id b4 of
                  (k, b5) \<Rightarrow> (Inr k, b5))))"

section \<open>Marks\<close>

definition mark_cooldown :: "int \<Rightarrow> instant \<Rightarrow> string option \<Rightarrow> broker \<Rightarrow> broker" where
  "mark_cooldown kid until reason b = update_key kid (\<lambda>k. True)
     (\<lambda>k. k\<lparr>k_cooldown_until := Some until, k_error_count := k_error_count k + 1,
            k_last_error := clip_reason reason\<rparr>) b"

definition mark_dead :: "int \<Rightarrow> string option \<Rightarrow> broker \<Rightarrow> broker" where
  "mark_dead kid reason b = update_key kid (\<lambda>k. True)
     (\<lambda>k. k\<lparr>k_is_alive := False, k_error_count := k_error_count k + 1,
            k_last_error := clip_reason reason\<rparr>) b"

section \<open>Usage\<close>

definition OPTIONAL_USAGE_COLS :: "string list" where
  "OPTIONAL_USAGE_COLS = [''model_served'', ''request_id'']"

text \<open>A database error as the code inspects it: SQLSTATE, when there is one, and message.\<close>

record db_error =
  de_sqlstate :: "string option"
  de_message :: string

definition missing_optional_columns :: "db_error \<Rightarrow> string list" where
  "missing_optional_columns e =
     (let msg = py_lower (de_message e);
          named = filter (\<lambda>c. py_in c msg) OPTIONAL_USAGE_COLS
      in case de_sqlstate e of
           Some code \<Rightarrow>
             if code \<noteq> ''42703'' then []
             else if named \<noteq> [] then named else OPTIONAL_USAGE_COLS
         | None \<Rightarrow>
             if any_in [''no such column'', ''undefined column'', ''has no column named''] msg
             then named else [])"

definition recover :: "string \<Rightarrow> string option \<Rightarrow> ApiKeyRow \<Rightarrow> ApiKeyRow" where
  "recover status error_kind k =
     (if status = ''ok'' \<and> error_kind = None
      then k\<lparr>k_last_error := None, k_error_count := 0, k_cooldown_until := None\<rparr> else k)"

text \<open>The counter \<^verbatim>\<open>UPDATE\<close>: every right-hand side reads the row before the statement.\<close>

definition book_usage :: "clock \<Rightarrow> usd \<Rightarrow> string \<Rightarrow> string option \<Rightarrow> ApiKeyRow \<Rightarrow> ApiKeyRow" where
  "book_usage ck cost status error_kind k =
     recover status error_kind
       (k\<lparr>k_daily_used := fresh_daily_used ck k + 1,
          k_daily_cost_used_usd := fresh_daily_cost ck k + cost,
          k_daily_reset_at := Some (ck_date ck),
          k_monthly_cost_used_usd := fresh_monthly_cost ck k + cost,
          k_monthly_reset_at := Some (month_start_utc ck),
          k_total_cost_usd := k_total_cost_usd k + cost\<rparr>)"

text \<open>
  One write: the inserted row gets the next id and the database's time; the columns the
  statement leaves out hold \<^verbatim>\<open>NULL\<close>.
\<close>

definition write_usage :: "clock \<Rightarrow> string list \<Rightarrow> UsageLogRow \<Rightarrow> broker \<Rightarrow> int \<times> broker" where
  "write_usage ck missing u b =
     (let uid = b_next_usage_id b;
          row = u\<lparr>u_id := uid, u_created_at := ck_now ck,
                  u_model_served := (if ''model_served'' \<in> set missing then None else u_model_served u),
                  u_request_id := (if ''request_id'' \<in> set missing then None else u_request_id u)\<rparr>;
          b1 = b\<lparr>b_usage := b_usage b @ [row], b_next_usage_id := uid + 1\<rparr>
      in (uid, case u_api_key_id u of
                 None \<Rightarrow> b1
               | Some kid \<Rightarrow> update_key kid (\<lambda>k. True)
                   (book_usage ck (u_cost_usd u) (u_status u) (u_error_kind u)) b1))"

text \<open>
  \<open>db\<close> is the database's answer to an \<^verbatim>\<open>INSERT\<close> without the given columns: \<open>None\<close> when it
  is accepted. A refused statement changes nothing (one transaction).
\<close>

definition record_usage ::
  "clock \<Rightarrow> (string list \<Rightarrow> db_error option) \<Rightarrow> UsageLogRow \<Rightarrow> broker \<Rightarrow> (db_error + int) \<times> broker" where
  "record_usage ck db u b =
     (case db (b_missing_usage_cols b) of
        None \<Rightarrow> (case write_usage ck (b_missing_usage_cols b) u b of (i, b') \<Rightarrow> (Inr i, b'))
      | Some e \<Rightarrow>
          let named = missing_optional_columns e
          in if named = [] then (Inl e, b)
             else
               let miss = b_missing_usage_cols b @
                          filter (\<lambda>c. c \<notin> set (b_missing_usage_cols b)) named;
                   b1 = b\<lparr>b_missing_usage_cols := miss\<rparr>
               in (case db miss of
                     None \<Rightarrow> (case write_usage ck miss u b1 of (i, b') \<Rightarrow> (Inr i, b'))
                   | Some e' \<Rightarrow> (Inl e', b1)))"

section \<open>What the caches leave alone\<close>

lemma quota_values_table [code]: "quota_values = quota_table"
proof -
  have "quota_values = map (\<lambda>(n, a). (n, map_prod (\<lambda>v. if v = Some 0 then None else v)
                                             (\<lambda>v. if v = Some 0 then None else v) a)) quota_table"
    unfolding quota_table_eval[symmetric] by (simp add: quota_values_def quota_axes_def Let_def comp_def case_prod_beta)
  then show ?thesis by (simp add: quota_table_def)
qed

lemma saturated_key_ids_tables [simp]:
  "b_keys (snd (saturated_key_ids ck sc b)) = b_keys b"
  "b_cooldowns (snd (saturated_key_ids ck sc b)) = b_cooldowns b"
  "b_circuit (snd (saturated_key_ids ck sc b)) = b_circuit b"
  "b_usage (snd (saturated_key_ids ck sc b)) = b_usage b"
  by (auto simp: saturated_key_ids_def Let_def split: prod.splits option.splits)

lemma key_available_cong:
  "b_cooldowns b = b_cooldowns b' \<Longrightarrow> key_available ck b = key_available ck b'"
  by (intro ext) (simp add: key_available_def models_left_def)

lemma touch_key_id: "k_id (k\<lparr>k_last_used_at := x\<rparr>) = k_id k"
  by simp

lemma key_of_touch:
  "key_of j (touch_key ck i b) =
   (if j = i then map_option (\<lambda>k. k\<lparr>k_last_used_at := Some (ck_now ck)\<rparr>) (key_of j b) else key_of j b)"
  unfolding touch_key_def by (subst key_of_update_key) simp_all

text \<open>The row handed to the caller: the picked row, touched and rebuilt.\<close>

definition handed_out :: "clock \<Rightarrow> ApiKeyRow \<Rightarrow> ApiKeyRow" where
  "handed_out ck k = hydrate_key_row (k\<lparr>k_last_used_at := Some (ck_now ck)\<rparr>)"

lemma pick_exact_spec:
  "pick_exact ck avail kid b =
   (case key_of kid b of
      Some k \<Rightarrow> if avail k then (Some (handed_out ck k), touch_key ck kid b) else (None, b)
    | None \<Rightarrow> (None, b))"
  by (simp add: pick_exact_def take_key_def Let_def key_of_touch handed_out_def split: option.splits)

lemma key_of_member: "keys_ok b \<Longrightarrow> k \<in> set (b_keys b) \<Longrightarrow> key_of (k_id k) b = Some k"
  unfolding keys_ok_def key_of_def by (rule find_row_distinct)

lemma pick_best_spec:
  assumes "keys_ok b"
  shows "(\<exists>k. k \<in> set (b_keys b) \<and> avail k \<and> \<not> pe_locked pe (k_id k) \<and>
            (\<forall>k'. k' \<in> set (b_keys b) \<and> avail k' \<and> \<not> pe_locked pe (k_id k') \<longrightarrow> rank k \<le> rank k') \<and>
            pick_best pe avail rank b = (Some (handed_out (pe_clock pe) k), touch_key (pe_clock pe) (k_id k) b))
         \<or> (\<forall>k \<in> set (b_keys b). \<not> avail k \<or> pe_locked pe (k_id k)) \<and> pick_best pe avail rank b = (None, b)"
proof (cases "filter (\<lambda>k. avail k \<and> \<not> pe_locked pe (k_id k)) (b_keys b)")
  case Nil
  then have "\<forall>k \<in> set (b_keys b). \<not> avail k \<or> pe_locked pe (k_id k)"
    by (auto simp: filter_empty_conv)
  with Nil show ?thesis by (simp add: pick_best_def)
next
  case (Cons k0 ks)
  let ?m = "arg_min_list rank (k0 # ks)"
  have set_c: "set (k0 # ks) = {k \<in> set (b_keys b). avail k \<and> \<not> pe_locked pe (k_id k)}"
    by (metis Cons set_filter)
  have "?m \<in> set (k0 # ks)" by (rule arg_min_list_in) simp
  then have m: "?m \<in> set (b_keys b)" "avail ?m" "\<not> pe_locked pe (k_id ?m)"
    unfolding set_c by simp_all
  have "rank ?m = Min (rank ` set (k0 # ks))"
    using f_arg_min_list_f[of "k0 # ks" rank] by simp
  then have min: "rank ?m \<le> rank k'" if "k' \<in> set (k0 # ks)" for k'
    using that by (simp del: list.set)
  have "key_of (k_id ?m) b = Some ?m" by (rule key_of_member[OF assms m(1)])
  then have "pick_best pe avail rank b = (Some (handed_out (pe_clock pe) ?m), touch_key (pe_clock pe) (k_id ?m) b)"
    using Cons by (simp add: pick_best_def take_key_def Let_def key_of_touch handed_out_def)
  with m min set_c show ?thesis by (intro disjI1 exI[of _ ?m]) auto
qed

section \<open>The pick\<close>

lemma storm_gate_tables [simp]:
  "b_keys (snd (storm_gate pe p sc t b)) = b_keys b"
  "b_cooldowns (snd (storm_gate pe p sc t b)) = b_cooldowns b"
  by (simp_all add: storm_gate_def Let_def)

lemma pick_context_tables [simp]:
  "b_keys (snd (pick_context pe p pid b)) = b_keys b"
  "b_cooldowns (snd (pick_context pe p pid b)) = b_cooldowns b"
  by (simp_all add: pick_context_def Let_def)

lemma keys_ok_cong: "b_keys b = b_keys b' \<Longrightarrow> keys_ok b = keys_ok b'"
  by (simp add: keys_ok_def)

lemma pick_statement_sound:
  assumes "keys_ok b" "pick_statement pe provider tier avail rank aff only b = (Some k, b')"
  shows "\<exists>k0. k0 \<in> set (b_keys b) \<and> avail k0 \<and> k = handed_out (pe_clock pe) k0 \<and>
              b' = touch_key (pe_clock pe) (k_id k0) b \<and> (only = None \<or> only = Some (k_id k0))"
proof -
  have ex: "\<exists>k0. k0 \<in> set (b_keys b) \<and> avail k0 \<and> k = handed_out (pe_clock pe) k0 \<and>
              b' = touch_key (pe_clock pe) (k_id k0) b \<and> k_id k0 = i"
    if "pick_exact (pe_clock pe) avail i b = (Some k, b')" for i
    using that key_of_in[of i b] by (force simp: pick_exact_spec split: option.splits if_splits)
  have best: "\<exists>k0. k0 \<in> set (b_keys b) \<and> avail k0 \<and> k = handed_out (pe_clock pe) k0 \<and>
              b' = touch_key (pe_clock pe) (k_id k0) b"
    if "pick_best pe avail rank b = (Some k, b')"
    using that pick_best_spec[OF assms(1), of avail pe rank] by auto
  have none: "b'' = b" if "pick_exact (pe_clock pe) avail i b = (None, b'')" for i b''
    using that by (auto simp: pick_exact_spec split: option.splits if_splits)
  show ?thesis
  proof (cases only)
    case (Some i)
    then show ?thesis using assms(2) ex[of i] by (auto simp: pick_statement_def)
  next
    case None
    then show ?thesis
      using assms(2) ex best none
      by (auto simp: pick_statement_def split: option.splits if_splits prod.splits)
  qed
qed

lemma pick_cases:
  obtains (storm) "fst (storm_gate pe p sc t b)"
      "pick_and_reserve pe p sc t pid ms only b = (Inr None, snd (storm_gate pe p sc t b))"
  | (raised) v where "\<not> fst (storm_gate pe p sc t b)"
      "pick_and_reserve pe p sc t pid ms only b = (Inl v, snd (pick_context pe p pid (snd (storm_gate pe p sc t b))))"
  | (picked) b4 sat tmo aff where "\<not> fst (storm_gate pe p sc t b)"
      "pick_context pe p pid (snd (storm_gate pe p sc t b)) = (Inr (sat, tmo, aff), b4)"
      "b_keys b4 = b_keys b" "b_cooldowns b4 = b_cooldowns b"
      "pick_and_reserve pe p sc t pid ms only b
       = map_prod Inr id (pick_statement pe p t (key_available (pe_clock pe) b p sc t ms)
            (pick_rank sat tmo aff (pe_rnd pe)) aff only b4)"
proof -
  obtain g b1 where g: "storm_gate pe p sc t b = (g, b1)" by fastforce
  obtain r b4 where r: "pick_context pe p pid b1 = (r, b4)" by fastforce
  have tabs: "b_keys b4 = b_keys b" "b_cooldowns b4 = b_cooldowns b"
    using storm_gate_tables[of pe p sc t b] pick_context_tables[of pe p pid b1] g r by auto
  show ?thesis
  proof (cases g)
    case True
    with g show ?thesis by (intro storm) (simp_all add: pick_and_reserve_def)
  next
    case ng: False
    show ?thesis
    proof (cases r)
      case (Inl v)
      with g r ng show ?thesis by (intro raised) (simp_all add: pick_and_reserve_def)
    next
      case (Inr x)
      obtain sat tmo aff where x: "x = (sat, tmo, aff)" by (cases x)
      show ?thesis
      proof (rule picked)
        show "pick_and_reserve pe p sc t pid ms only b
         = map_prod Inr id (pick_statement pe p t (key_available (pe_clock pe) b p sc t ms)
            (pick_rank sat tmo aff (pe_rnd pe)) aff only b4)"
          using g r ng Inr x key_available_cong[OF tabs(2), of "pe_clock pe"]
          by (simp add: pick_and_reserve_def map_prod_def case_prod_beta)
      qed (use g r ng Inr x tabs in auto)
    qed
  qed
qed

lemma pick_context_verdicts:
  assumes "pick_context pe p pid b = (Inr (sat, tmo, aff), b4)"
  shows "b_sat_ids b4 = sat" "map fst (key_timeouts (b_circuit b4)) = tmo"
proof -
  have "b_sat_ids (snd (saturated_key_ids ck sc b)) = fst (saturated_key_ids ck sc b)" for ck sc
    by (auto simp: saturated_key_ids_def Let_def split: prod.splits option.splits)
  then show "b_sat_ids b4 = sat"
    using assms by (auto simp: pick_context_def Let_def split: sum.splits option.splits if_splits)
  show "map fst (key_timeouts (b_circuit b4)) = tmo"
    using assms by (auto simp: pick_context_def Let_def recent_timeout_key_ids_def
        split: sum.splits option.splits if_splits)
qed

lemma touch_key_verdicts [simp]:
  "b_sat_ids (touch_key ck i b) = b_sat_ids b" "b_circuit (touch_key ck i b) = b_circuit b"
  "b_usage (touch_key ck i b) = b_usage b" "b_cooldowns (touch_key ck i b) = b_cooldowns b"
  by (simp_all add: touch_key_def update_key_def)

lemma handed_out_fields [simp]:
  "k_id (handed_out ck k) = k_id k" "k_provider (handed_out ck k) = k_provider k"
  "k_tier (handed_out ck k) = k_tier k" "k_is_active (handed_out ck k) = k_is_active k"
  "k_is_alive (handed_out ck k) = k_is_alive k" "k_scopes (handed_out ck k) = k_scopes k"
  "k_is_reserve (handed_out ck k) = k_is_reserve k"
  "k_cooldown_until (handed_out ck k) = k_cooldown_until k"
  "k_daily_cost_cap_usd (handed_out ck k) = k_daily_cost_cap_usd k"
  "k_monthly_cost_cap_usd (handed_out ck k) = k_monthly_cost_cap_usd k"
  "k_daily_cost_used_usd (handed_out ck k) = k_daily_cost_used_usd k"
  "k_monthly_cost_used_usd (handed_out ck k) = k_monthly_cost_used_usd k"
  "k_daily_reset_at (handed_out ck k) = k_daily_reset_at k"
  "k_monthly_reset_at (handed_out ck k) = k_monthly_reset_at k"
  "k_token_encrypted (handed_out ck k) = k_token_encrypted k"
  by (simp_all add: handed_out_def hydrate_key_row_def)

lemma pick_sound:
  assumes "keys_ok b" "pick_and_reserve pe p sc t pid ms only b = (Inr (Some k), b')"
  shows "\<exists>k0. k0 \<in> set (b_keys b) \<and> key_available (pe_clock pe) b p sc t ms k0 \<and>
              k = handed_out (pe_clock pe) k0 \<and> (only = None \<or> only = Some (k_id k0)) \<and>
              b_keys b' = update_where (\<lambda>k. k_id k = k_id k0) (\<lambda>k. k\<lparr>k_last_used_at := Some (ck_now (pe_clock pe))\<rparr>) (b_keys b)"
proof (cases rule: pick_cases[of pe p sc t b pid ms only])
  case (picked b4 sat tmo aff)
  have "keys_ok b4" using assms(1) picked(3) by (simp add: keys_ok_def)
  moreover have "pick_statement pe p t (key_available (pe_clock pe) b p sc t ms)
            (pick_rank sat tmo aff (pe_rnd pe)) aff only b4 = (Some k, b')"
    using assms(2) picked(5) by (metis Inr_inject eq_id_iff fst_map_prod snd_map_prod fst_conv snd_conv prod.collapse)
  ultimately obtain k0 where "k0 \<in> set (b_keys b4)" "key_available (pe_clock pe) b p sc t ms k0"
      "k = handed_out (pe_clock pe) k0" "b' = touch_key (pe_clock pe) (k_id k0) b4"
      "only = None \<or> only = Some (k_id k0)"
    using pick_statement_sound by blast
  then show ?thesis
    using picked(3) by (intro exI[of _ k0]) (simp add: touch_key_def update_key_def)
qed (use assms in simp_all)

lemma pick_minimal:
  assumes "keys_ok b" "p \<notin> set cache_sticky_providers"
    and "pick_and_reserve pe p sc t pid ms None b = (Inr (Some k), b')"
  shows "\<exists>k0 aff. k = handed_out (pe_clock pe) k0 \<and> k0 \<in> set (b_keys b) \<and>
     (\<forall>k'. k' \<in> set (b_keys b) \<and> key_available (pe_clock pe) b p sc t ms k' \<and> \<not> pe_locked pe (k_id k') \<longrightarrow>
        pick_rank (b_sat_ids b') (map fst (key_timeouts (b_circuit b'))) aff (pe_rnd pe) k0
        \<le> pick_rank (b_sat_ids b') (map fst (key_timeouts (b_circuit b'))) aff (pe_rnd pe) k')"
proof (cases rule: pick_cases[of pe p sc t b pid ms None])
  case (picked b4 sat tmo aff)
  let ?av = "key_available (pe_clock pe) b p sc t ms"
  let ?rk = "pick_rank sat tmo aff (pe_rnd pe)"
  have ok: "keys_ok b4" using assms(1) picked(3) by (simp add: keys_ok_def)
  have "pick_statement pe p t ?av ?rk aff None b4 = pick_best pe ?av ?rk b4"
    using assms(2) by (simp add: pick_statement_def split: option.splits)
  then have "pick_best pe ?av ?rk b4 = (Some k, b')"
    using assms(3) picked(5) by (cases "pick_best pe ?av ?rk b4") simp
  then obtain k0 where k0: "k0 \<in> set (b_keys b4)" "k = handed_out (pe_clock pe) k0"
      "b' = touch_key (pe_clock pe) (k_id k0) b4"
      "\<forall>k'. k' \<in> set (b_keys b4) \<and> ?av k' \<and> \<not> pe_locked pe (k_id k') \<longrightarrow> ?rk k0 \<le> ?rk k'"
    using pick_best_spec[OF ok, of ?av pe ?rk] by auto
  have v: "b_sat_ids b' = sat" "map fst (key_timeouts (b_circuit b')) = tmo"
    using pick_context_verdicts[OF picked(2)] k0(3) by simp_all
  show ?thesis
    unfolding v using k0 picked(3) by (intro exI[of _ k0] exI[of _ aff]) simp
qed (use assms(3) in simp_all)

lemma pick_complete:
  assumes "keys_ok b" "\<not> fst (storm_gate pe p sc t b)"
    and "fst (pick_and_reserve pe p sc t pid ms None b) = Inr None"
  shows "\<forall>k \<in> set (b_keys b). \<not> key_available (pe_clock pe) b p sc t ms k \<or> pe_locked pe (k_id k)"
proof (cases rule: pick_cases[of pe p sc t b pid ms None])
  case (picked b4 sat tmo aff)
  let ?av = "key_available (pe_clock pe) b p sc t ms"
  let ?rk = "pick_rank sat tmo aff (pe_rnd pe)"
  have ok: "keys_ok b4" using assms(1) picked(3) by (simp add: keys_ok_def)
  have "fst (pick_statement pe p t ?av ?rk aff None b4) = None"
    using assms(3) picked(5) by simp
  then have "fst (pick_best pe ?av ?rk b4) = None"
    by (auto simp: pick_statement_def pick_exact_spec split: option.splits if_splits prod.splits)
  then show ?thesis
    using pick_best_spec[OF ok, of ?av pe ?rk] picked(3) by auto
qed (use assms in simp_all)

lemma storm_gate_iff:
  assumes "circuit_ok (b_circuit b)" "t \<noteq> Some ''paid''"
  shows "fst (storm_gate pe p sc t b) \<longleftrightarrow>
         TIMEOUT_STORM_MIN_KEYS \<le> card (fresh_keys (ck_mono (pe_clock pe)) TIMEOUT_MEMORY_S
                                     (p, Some sc) (provider_timeouts (b_circuit b)))"
  using timeout_storm_iff[OF assms(1), of TIMEOUT_STORM_MIN_KEYS] assms(2)
  by (simp add: storm_gate_def Let_def TIMEOUT_STORM_MIN_KEYS_def)

section \<open>A concrete pool\<close>

text \<open>
  A clock, an environment without Redis and a pool of keys, on which the properties below
  are instantiated.
\<close>

definition demo_clock :: clock where
  "demo_clock = \<lparr>ck_now = 1000000, ck_date = (2026, 10, 15), ck_utc_date = (2026, 10, 15),
                 ck_time = 1000000, ck_mono = 500\<rparr>"

definition demo_shared :: shared_ctx where
  "demo_shared = \<lparr>sc_now = 500, sc_env = \<lparr>rd_url_set = False, rd_import_ok = False\<rparr>,
                  sc_redis = (\<lambda>_. RedisMiss), sc_fails = False\<rparr>"

definition demo_env :: pick_env where
  "demo_env = \<lparr>pe_clock = demo_clock, pe_shared = demo_shared, pe_ttl = 7200,
               pe_rnd = (\<lambda>i. of_int i), pe_locked = (\<lambda>_. False)\<rparr>"

definition demo_keys :: "ApiKeyRow list" where
  "demo_keys =
    [(new_key 1 ''gemini'' ''reserve'' [''llm:chat''])\<lparr>k_is_reserve := True\<rparr>,
     new_key 2 ''gemini'' ''shared'' [''llm:chat''],
     (new_key 3 ''deepseek'' ''shared'' [''llm:chat''])\<lparr>k_tier := ''paid'',
        k_daily_cost_cap_usd := Some 5\<rparr>,
     (new_key 4 ''deepseek'' ''reserve'' [''llm:chat''])\<lparr>k_tier := ''paid'', k_is_reserve := True\<rparr>]"

definition demo_broker :: broker where
  "demo_broker = broker_init demo_keys"

lemma demo_keys_ok: "keys_ok demo_broker"
  by (simp add: keys_ok_def demo_broker_def broker_init_def demo_keys_def new_key_def)

lemma demo_pick_gemini:
  "map_sum id (map_option k_id)
     (fst (pick_and_reserve demo_env ''gemini'' ''llm:chat'' None (Some 1) [] None demo_broker))
   = Inr (Some 2)"
  by code_simp

section \<open>Properties\<close>



text \<open>
  Outside the cache-sticky providers a pick takes a reserve key only when every unlocked
  usable key is a reserve key, and more generally takes a key that is least in the order
  reserve, saturated, timed out lately, not the pinned key, random number.
\<close>

theorem reserve_keys_are_picked_last:
  assumes "keys_ok b" "provider \<notin> set cache_sticky_providers"
    and "pick_and_reserve pe provider scope tier pid models None b = (Inr (Some k), b')"
  shows "(\<forall>k'. k' \<in> set (b_keys b) \<and> key_available (pe_clock pe) b provider scope tier models k' \<and>
              \<not> pe_locked pe (k_id k') \<and> k_is_reserve k \<longrightarrow> k_is_reserve k') \<and>
         (\<exists>aff. \<forall>k'. k' \<in> set (b_keys b) \<and> key_available (pe_clock pe) b provider scope tier models k' \<and>
              \<not> pe_locked pe (k_id k') \<longrightarrow>
              pick_rank (b_sat_ids b') (map fst (key_timeouts (b_circuit b'))) aff (pe_rnd pe) k
              \<le> pick_rank (b_sat_ids b') (map fst (key_timeouts (b_circuit b'))) aff (pe_rnd pe) k')"
proof -
  obtain k0 aff where k0: "k = handed_out (pe_clock pe) k0"
      "\<forall>k'. k' \<in> set (b_keys b) \<and> key_available (pe_clock pe) b provider scope tier models k' \<and> \<not> pe_locked pe (k_id k') \<longrightarrow>
        pick_rank (b_sat_ids b') (map fst (key_timeouts (b_circuit b'))) aff (pe_rnd pe) k0
        \<le> pick_rank (b_sat_ids b') (map fst (key_timeouts (b_circuit b'))) aff (pe_rnd pe) k'"
    using pick_minimal[OF assms] by blast
  have "pick_rank s t a r k = pick_rank s t a r k0" for s t a r
    by (simp add: k0(1) pick_rank_def)
  moreover have "k_is_reserve k'" if "pick_rank s t a r k \<le> pick_rank s t a r k'" "k_is_reserve k" for s t a r k'
    using that by (auto simp: pick_rank_def)
  ultimately show ?thesis using k0(2) by metis
qed

theorem reserve_keys_are_picked_last_witness:
  "\<exists>k b'. pick_and_reserve demo_env ''gemini'' ''llm:chat'' None (Some 1) [] None demo_broker
            = (Inr (Some k), b') \<and>
     (\<forall>k'. k' \<in> set (b_keys demo_broker) \<and>
           key_available demo_clock demo_broker ''gemini'' ''llm:chat'' None [] k' \<and> k_is_reserve k
           \<longrightarrow> k_is_reserve k')"
proof -
  obtain r b' where r: "pick_and_reserve demo_env ''gemini'' ''llm:chat'' None (Some 1) [] None demo_broker = (r, b')"
    by fastforce
  then have "map_sum id (map_option k_id) r = Inr (Some 2)"
    using demo_pick_gemini by simp
  then obtain k where k: "r = Inr (Some k)"
    by (cases r) auto
  have "''gemini'' \<notin> set cache_sticky_providers" by (simp add: cache_sticky_eval)
  from reserve_keys_are_picked_last[OF demo_keys_ok this r[unfolded k]] r k
  show ?thesis by (auto simp: demo_env_def)
qed

text \<open>
  Outside the cache-sticky providers, and unless the shared store raises, a pick comes
  back empty exactly when the provider is in a timeout storm for the scope (at least two of
  its keys timed out within the window, and no paid key is required) or no unlocked key is
  usable: no usable key is ever overlooked, and no call is sent into a storm.
\<close>

theorem pick_empty_iff_storm_or_exhausted:
  assumes "keys_ok b" "circuit_ok (b_circuit b)" "provider \<notin> set cache_sticky_providers"
    and "\<forall>v. fst (pick_and_reserve pe provider scope tier pid models None b) \<noteq> Inl v"
  shows "fst (pick_and_reserve pe provider scope tier pid models None b) = Inr None \<longleftrightarrow>
         tier \<noteq> Some ''paid'' \<and>
           2 \<le> card (fresh_keys (ck_mono (pe_clock pe)) TIMEOUT_MEMORY_S (provider, Some scope)
                       (provider_timeouts (b_circuit b))) \<or>
         (\<forall>k. k \<in> set (b_keys b) \<longrightarrow>
            key_available (pe_clock pe) b provider scope tier models k \<longrightarrow> pe_locked pe (k_id k))"
proof -
  let ?card = "card (fresh_keys (ck_mono (pe_clock pe)) TIMEOUT_MEMORY_S (provider, Some scope)
                 (provider_timeouts (b_circuit b)))"
  have gate: "fst (storm_gate pe provider scope tier b) \<longleftrightarrow> tier \<noteq> Some ''paid'' \<and> 2 \<le> ?card"
    using storm_gate_iff[OF assms(2), of tier pe provider scope]
    by (cases "tier = Some ''paid''") (simp_all add: storm_gate_def TIMEOUT_STORM_MIN_KEYS_def)
  have "fst (pick_and_reserve pe provider scope tier pid models None b) = Inr None"
    if "fst (storm_gate pe provider scope tier b)"
    using that by (cases "storm_gate pe provider scope tier b") (simp add: pick_and_reserve_def)
  moreover have "fst (pick_and_reserve pe provider scope tier pid models None b) = Inr None"
    if none: "\<forall>k. k \<in> set (b_keys b) \<longrightarrow>
            key_available (pe_clock pe) b provider scope tier models k \<longrightarrow> pe_locked pe (k_id k)"
  proof (cases rule: pick_cases[of pe provider scope tier b pid models None])
    case (picked b4 sat tmo aff)
    have "filter (\<lambda>k. key_available (pe_clock pe) b provider scope tier models k \<and> \<not> pe_locked pe (k_id k)) (b_keys b4) = []"
      using none picked(3) by (auto simp: filter_empty_conv)
    then show ?thesis
      using picked(5) assms(3) by (simp add: pick_statement_def pick_best_def split: option.splits)
  qed (use assms(4) in auto)
  moreover note pick_complete[OF assms(1), of pe provider scope tier pid models]
  ultimately show ?thesis using gate by blast
qed

theorem pick_empty_iff_storm_or_exhausted_witness:
  "fst (pick_and_reserve demo_env ''gemini'' ''llm:vision'' None (Some 1) [] None demo_broker) = Inr None"
proof -
  have ok: "circuit_ok (b_circuit demo_broker)" "''gemini'' \<notin> set cache_sticky_providers"
    by (simp_all add: demo_broker_def broker_init_def circuit_ok_reset cache_sticky_eval)
  have nr: "\<forall>v. fst (pick_and_reserve demo_env ''gemini'' ''llm:vision'' None (Some 1) [] None demo_broker) \<noteq> Inl v"
  proof -
    have "\<not> isl (fst (pick_and_reserve demo_env ''gemini'' ''llm:vision'' None (Some 1) [] None demo_broker))"
      by code_simp
    then show ?thesis by auto
  qed
  have "\<not> key_available demo_clock demo_broker ''gemini'' ''llm:vision'' None [] k"
    if "k \<in> set (b_keys demo_broker)" for k
    using that by (auto simp: demo_broker_def broker_init_def demo_keys_def new_key_def key_available_def)
  then show ?thesis
    using pick_empty_iff_storm_or_exhausted[OF demo_keys_ok ok nr]
    by (auto simp: demo_env_def)
qed

section \<open>Where the pick departs from its documentation\<close>

definition pinned_reserve :: broker where
  "pinned_reserve = demo_broker\<lparr>b_aff := note_affinity 400 (1, ''deepseek'') 4 affinity_reset\<rparr>"

text \<open>
  The documentation says that a reserve key is picked only when every shared key of its
  group is exhausted. For a cache-sticky provider the pinned key is taken first, reserve or
  not: with a usable shared key in the pool the reserve key is handed out.
\<close>

theorem sticky_pin_hands_out_reserve_key:
  "\<exists>k k' b'. pick_and_reserve demo_env ''deepseek'' ''llm:chat'' None (Some 1) [] None pinned_reserve
               = (Inr (Some k), b') \<and> k_is_reserve k \<and>
     k' \<in> set (b_keys pinned_reserve) \<and> \<not> k_is_reserve k' \<and> \<not> pe_locked demo_env (k_id k') \<and>
     key_available demo_clock pinned_reserve ''deepseek'' ''llm:chat'' None [] k'"
proof -
  obtain r b' where r: "pick_and_reserve demo_env ''deepseek'' ''llm:chat'' None (Some 1) [] None pinned_reserve = (r, b')"
    by fastforce
  have "map_sum id (map_option k_is_reserve)
      (fst (pick_and_reserve demo_env ''deepseek'' ''llm:chat'' None (Some 1) [] None pinned_reserve))
      = Inr (Some True)"
    by code_simp
  with r obtain k where k: "r = Inr (Some k)" "k_is_reserve k"
    by (cases r) auto
  have "list_ex (\<lambda>k'. \<not> k_is_reserve k' \<and> \<not> pe_locked demo_env (k_id k') \<and>
      key_available demo_clock pinned_reserve ''deepseek'' ''llm:chat'' None [] k') (b_keys pinned_reserve)"
    by code_simp
  with r k show ?thesis by (auto simp: list_ex_iff)
qed

definition paid_sambanova :: ApiKeyRow where
  "paid_sambanova = (new_key 7 ''sambanova'' ''paid'' [''llm:chat''])\<lparr>k_tier := ''paid''\<rparr>"

definition usage_of_key :: "int \<Rightarrow> instant \<Rightarrow> UsageLogRow" where
  "usage_of_key kid t =
     \<lparr>u_id = 0, u_api_key_id = Some kid, u_project_id = Some 1, u_lease_id = None,
      u_provider = [], u_model = None, u_model_served = None, u_request_id = None,
      u_capability = None, u_workflow = None, u_tokens_in = 0, u_tokens_out = 0,
      u_cache_read_tokens = 0, u_cache_write_tokens = 0, u_cost_usd = 0, u_latency_ms = None,
      u_status = ''ok'', u_error_kind = None, u_http_status = None, u_created_at = t\<rparr>"

text \<open>
  The quota module gives a paid key no free-tier seed, so its dashboard shows no capped
  axis; the saturation query still applies the seed and sinks the same key.
\<close>

theorem saturation_applies_free_seed_to_paid_key:
  "k_tier paid_sambanova = ''paid'' \<and> (\<forall>r t i j. axes_for_key r t paid_sambanova i j = []) \<and>
   key_saturated demo_clock (replicate 19 (usage_of_key 7 1000000)) paid_sambanova"
proof (intro conjI allI)
  show "axes_for_key r t paid_sambanova i j = []" for r t i j
    by (rule paid_key_has_no_seed) (simp_all add: paid_sambanova_def new_key_def)
  show "key_saturated demo_clock (replicate 19 (usage_of_key 7 1000000)) paid_sambanova"
    by code_simp
qed (simp add: paid_sambanova_def)

end
