(* ===== verification/Cost_Guard.thy ===== *)
theory Cost_Guard
  imports Selector
begin

text \<open>
  \<^verbatim>\<open>routing/cost_guard.py\<close>: admission of an attempt against the per-key, per-project and
  global cost caps. \<open>reserve_row\<close> is the one atomic \<^verbatim>\<open>UPDATE ... WHERE ... RETURNING\<close> that
  debits a key, \<open>release_row\<close> its refund; \<open>reserve_cost\<close> is the whole admission with the
  refunds on its error paths. The locale \<open>reservation_ledger\<close> states what the counters
  promise; the daily and the monthly window interpret it. The step relation \<open>ledger_step\<close>
  interleaves reservations, refunds and bookings of any number of concurrent attempts.
\<close>

section \<open>State and errors\<close>

record CostGuardError =
  cg_kind :: string
  cg_window :: string
  cg_limit :: usd
  cg_used :: usd
  cg_attempted :: usd

definition new_CostGuardError :: "string \<Rightarrow> usd \<Rightarrow> usd \<Rightarrow> usd \<Rightarrow> string \<Rightarrow> CostGuardError" where
  "new_CostGuardError kind limit used attempted window =
     \<lparr>cg_kind = kind, cg_window = window, cg_limit = limit, cg_used = used, cg_attempted = attempted\<rparr>"

definition GLOBAL_TTL_S :: secs where "GLOBAL_TTL_S = 30"

definition day_instant :: "date \<Rightarrow> instant" where
  "day_instant d = of_int (ordinal d) * 86400"

definition cost_between :: "instant \<Rightarrow> instant \<Rightarrow> (UsageLogRow \<Rightarrow> bool) \<Rightarrow> UsageLogRow list \<Rightarrow> usd" where
  "cost_between lo hi P us =
     sum_list (map u_cost_usd (filter (\<lambda>u. P u \<and> lo \<le> u_created_at u \<and> u_created_at u < hi) us))"

definition global_cost_today :: "clock \<Rightarrow> broker \<Rightarrow> usd \<times> broker" where
  "global_cost_today ck b =
     (if ck_time ck - b_global_fetched_at b < GLOBAL_TTL_S then (b_global_value b, b)
      else let start = day_instant (ck_utc_date ck);
               v = cost_between start (start + 86400) (\<lambda>u. True) (b_usage b)
           in (v, b\<lparr>b_global_value := v, b_global_fetched_at := ck_time ck\<rparr>))"

definition invalidate_global_cache :: "broker \<Rightarrow> broker" where
  "invalidate_global_cache b = b\<lparr>b_global_fetched_at := 0\<rparr>"

section \<open>The per-key statements\<close>

text \<open>
  \<open>daily\<close> and \<open>monthly\<close> say which windows the caller's key object caps. The comparison reads
  the row's own cap: against a \<^verbatim>\<open>NULL\<close> cap it is not true.
\<close>

definition under_cap :: "usd \<Rightarrow> usd option \<Rightarrow> bool" where
  "under_cap v cap = (case cap of None \<Rightarrow> False | Some c \<Rightarrow> v \<le> c)"

definition reserve_cond :: "clock \<Rightarrow> bool \<Rightarrow> bool \<Rightarrow> usd \<Rightarrow> ApiKeyRow \<Rightarrow> bool" where
  "reserve_cond ck daily monthly c k \<longleftrightarrow>
     (daily \<longrightarrow> under_cap (fresh_daily_cost ck k + c) (k_daily_cost_cap_usd k)) \<and>
     (monthly \<longrightarrow> under_cap (fresh_monthly_cost ck k + c) (k_monthly_cost_cap_usd k))"

definition reserve_set :: "clock \<Rightarrow> bool \<Rightarrow> bool \<Rightarrow> usd \<Rightarrow> ApiKeyRow \<Rightarrow> ApiKeyRow" where
  "reserve_set ck daily monthly c k =
     (let k1 = (if daily then k\<lparr>k_daily_cost_used_usd := fresh_daily_cost ck k + c,
                                k_daily_reset_at := Some (ck_date ck)\<rparr> else k)
      in if monthly then k1\<lparr>k_monthly_cost_used_usd := fresh_monthly_cost ck k + c,
                            k_monthly_reset_at := Some (month_start_utc ck)\<rparr> else k1)"

definition reserve_row :: "clock \<Rightarrow> usd \<Rightarrow> ApiKeyRow \<Rightarrow> ApiKeyRow option" where
  "reserve_row ck c k =
     (let daily = k_daily_cost_cap_usd k \<noteq> None; monthly = k_monthly_cost_cap_usd k \<noteq> None
      in if reserve_cond ck daily monthly c k then Some (reserve_set ck daily monthly c k) else None)"

definition release_set :: "bool \<Rightarrow> bool \<Rightarrow> usd \<Rightarrow> ApiKeyRow \<Rightarrow> ApiKeyRow" where
  "release_set daily monthly c k =
     (let k1 = (if daily then k\<lparr>k_daily_cost_used_usd := max 0 (k_daily_cost_used_usd k - c)\<rparr> else k)
      in if monthly then k1\<lparr>k_monthly_cost_used_usd := max 0 (k_monthly_cost_used_usd k - c)\<rparr> else k1)"

definition release_row :: "usd \<Rightarrow> ApiKeyRow \<Rightarrow> ApiKeyRow" where
  "release_row c k = release_set (k_daily_cost_cap_usd k \<noteq> None) (k_monthly_cost_cap_usd k \<noteq> None) c k"

section \<open>Admission\<close>

definition release_cost :: "ApiKeyRow \<Rightarrow> usd \<Rightarrow> broker \<Rightarrow> broker" where
  "release_cost api_key est b =
     (let daily = k_daily_cost_cap_usd api_key \<noteq> None; monthly = k_monthly_cost_cap_usd api_key \<noteq> None
      in if \<not> (daily \<or> monthly) \<or> est \<le> 0 then b
         else update_key (k_id api_key) (\<lambda>k. True) (release_set daily monthly est) b)"

text \<open>The refusals of a paid key under a zero cap, before anything is reserved.\<close>

definition zero_cap_error :: "ApiKeyRow \<Rightarrow> ProjectRow \<Rightarrow> usd \<Rightarrow> bool \<Rightarrow> CostGuardError option" where
  "zero_cap_error api_key project est known_free_model =
     (if k_tier api_key = ''paid'' \<and> \<not> known_free_model then
        (if k_daily_cost_cap_usd api_key = Some 0 then
           Some (new_CostGuardError ''api_key'' 0 (k_daily_cost_used_usd api_key) est ''daily'')
         else if k_monthly_cost_cap_usd api_key = Some 0 then
           Some (new_CostGuardError ''api_key'' 0 (k_monthly_cost_used_usd api_key) est ''monthly'')
         else if p_daily_cost_cap_usd project = Some 0 then
           Some (new_CostGuardError ''project'' 0 0 est ''daily'')
         else if p_monthly_cost_cap_usd project = Some 0 then
           Some (new_CostGuardError ''project'' 0 0 est ''monthly'')
         else None)
      else None)"

text \<open>The error of a refused per-key statement, built from the caller's key object.\<close>

definition key_cap_error :: "clock \<Rightarrow> ApiKeyRow \<Rightarrow> usd \<Rightarrow> CostGuardError" where
  "key_cap_error ck api_key est =
     (let dcap = k_daily_cost_cap_usd api_key; mcap = k_monthly_cost_cap_usd api_key
      in if mcap \<noteq> None \<and> k_monthly_reset_at api_key = Some (month_start_utc ck) \<and>
            k_monthly_cost_used_usd api_key + est > opt_or mcap 0
         then new_CostGuardError ''api_key'' (opt_or mcap 0) (k_monthly_cost_used_usd api_key) est ''monthly''
         else if dcap \<noteq> None
         then new_CostGuardError ''api_key'' (opt_or dcap 0) (k_daily_cost_used_usd api_key) est ''daily''
         else new_CostGuardError ''api_key'' (opt_or mcap 0) (k_monthly_cost_used_usd api_key) est ''monthly'')"

definition reserve_key :: "clock \<Rightarrow> ApiKeyRow \<Rightarrow> usd \<Rightarrow> broker \<Rightarrow> CostGuardError option \<times> broker" where
  "reserve_key ck api_key est b =
     (let daily = k_daily_cost_cap_usd api_key \<noteq> None; monthly = k_monthly_cost_cap_usd api_key \<noteq> None
      in if \<not> (daily \<or> monthly) then (None, b)
         else if (case key_of (k_id api_key) b of
                    Some k \<Rightarrow> reserve_cond ck daily monthly est k | None \<Rightarrow> False)
         then (None, update_key (k_id api_key) (reserve_cond ck daily monthly est)
                       (reserve_set ck daily monthly est) b)
         else (Some (key_cap_error ck api_key est), b))"

definition project_error :: "clock \<Rightarrow> ProjectRow \<Rightarrow> usd \<Rightarrow> broker \<Rightarrow> CostGuardError option" where
  "project_error ck project est b =
     (case p_daily_cost_cap_usd project of
        None \<Rightarrow> None
      | Some cap \<Rightarrow>
          let start = day_instant (ck_utc_date ck);
              used = cost_between start (start + 86400) (\<lambda>u. u_project_id u = Some (p_id project)) (b_usage b)
          in if used + est > cap then Some (new_CostGuardError ''project'' cap used est ''daily'') else None)"

definition project_month_cost :: "clock \<Rightarrow> ProjectRow \<Rightarrow> broker \<Rightarrow> usd" where
  "project_month_cost ck project b =
     sum_list (map u_cost_usd (filter (\<lambda>u. u_project_id u = Some (p_id project) \<and>
                day_instant (month_start_utc ck) \<le> u_created_at u) (b_usage b)))"

definition project_month_error :: "clock \<Rightarrow> ProjectRow \<Rightarrow> usd \<Rightarrow> broker \<Rightarrow> CostGuardError option" where
  "project_month_error ck project est b =
     (case p_monthly_cost_cap_usd project of
        None \<Rightarrow> None
      | Some cap \<Rightarrow>
          let used = project_month_cost ck project b
          in if used + est > cap then Some (new_CostGuardError ''project'' cap used est ''monthly'') else None)"

definition global_error :: "clock \<Rightarrow> usd \<Rightarrow> usd \<Rightarrow> broker \<Rightarrow> CostGuardError option \<times> broker" where
  "global_error ck gcap est b =
     (if gcap > 0 then
        (case global_cost_today ck b of (used, b') \<Rightarrow>
           ((if used + est > gcap then Some (new_CostGuardError ''global'' gcap used est ''daily'') else None), b'))
      else (None, b))"

text \<open>
  \<^verbatim>\<open>reserve_cost\<close>: \<open>Some e\<close> is the raised error. Every refusal after the per-key statement
  refunds what that statement took.
\<close>

definition reserve_cost ::
  "clock \<Rightarrow> usd \<Rightarrow> ApiKeyRow \<Rightarrow> ProjectRow \<Rightarrow> usd \<Rightarrow> bool \<Rightarrow> broker \<Rightarrow> CostGuardError option \<times> broker" where
  "reserve_cost ck gcap api_key project est known_free_model b =
     (if k_tier api_key = ''free'' \<and> est \<le> 0 then (None, b)
      else case zero_cap_error api_key project est known_free_model of
        Some e \<Rightarrow> (Some e, b)
      | None \<Rightarrow>
          (case reserve_key ck api_key est b of
             (Some e, b1) \<Rightarrow> (Some e, b1)
           | (None, b1) \<Rightarrow>
               (case project_error ck project est b1 of
                  Some e \<Rightarrow> (Some e, release_cost api_key est b1)
                | None \<Rightarrow>
                    (case project_month_error ck project est b1 of
                       Some e \<Rightarrow> (Some e, release_cost api_key est b1)
                     | None \<Rightarrow>
                         (case global_error ck gcap est b1 of
                            (Some e, b2) \<Rightarrow> (Some e, release_cost api_key est b2)
                          | (None, b2) \<Rightarrow> (None, b2))))))"

section \<open>Interleaved attempts\<close>

text \<open>
  Any number of concurrent attempts against one counter, as the sequence of their atomic
  statements: a reservation is admitted or refused, an outstanding reservation is refunded,
  a finished call is booked at its real cost. The state is the counter's row, the
  reservations in flight and the sum booked so far.
\<close>

inductive ledger_step ::
  "(usd \<Rightarrow> 's \<Rightarrow> 's option) \<Rightarrow> (usd \<Rightarrow> 's \<Rightarrow> 's) \<Rightarrow> (usd \<Rightarrow> 's \<Rightarrow> 's)
   \<Rightarrow> 's \<times> usd multiset \<times> usd \<Rightarrow> 's \<times> usd multiset \<times> usd \<Rightarrow> bool"
  for reserve :: "usd \<Rightarrow> 's \<Rightarrow> 's option" and release book :: "usd \<Rightarrow> 's \<Rightarrow> 's"
where
  ls_admit: "0 \<le> c \<Longrightarrow> reserve c s = Some s' \<Longrightarrow>
     ledger_step reserve release book (s, out, booked) (s', add_mset c out, booked)"
| ls_refuse: "0 \<le> c \<Longrightarrow> reserve c s = None \<Longrightarrow>
     ledger_step reserve release book (s, out, booked) (s, out, booked)"
| ls_refund: "c \<in># out \<Longrightarrow>
     ledger_step reserve release book (s, out, booked) (release c s, out - {#c#}, booked)"
| ls_book: "0 \<le> r \<Longrightarrow>
     ledger_step reserve release book (s, out, booked) (book r s, out, booked + r)"

lemma sum_mset_ge_0: "(\<And>x. x \<in># N \<Longrightarrow> (0 :: usd) \<le> x) \<Longrightarrow> 0 \<le> \<Sum>\<^sub># N"
  by (induction N) auto

lemma in_mset_le_sum:
  fixes c :: usd
  assumes "c \<in># M" "\<And>x. x \<in># M \<Longrightarrow> 0 \<le> x"
  shows "c \<le> \<Sum>\<^sub># M" "\<Sum>\<^sub># (M - {#c#}) = \<Sum>\<^sub># M - c"
proof -
  obtain N where N: "M = add_mset c N" using assms(1) by (meson multi_member_split)
  have "0 \<le> \<Sum>\<^sub># N" using assms(2) N by (intro sum_mset_ge_0) auto
  with N show "c \<le> \<Sum>\<^sub># M" "\<Sum>\<^sub># (M - {#c#}) = \<Sum>\<^sub># M - c" by simp_all
qed

section \<open>The ledger interface\<close>

locale reservation_ledger =
  fixes used :: "'s \<Rightarrow> usd" and limit :: "'s \<Rightarrow> usd" and ok :: "'s \<Rightarrow> bool"
    and reserve :: "usd \<Rightarrow> 's \<Rightarrow> 's option" and release :: "usd \<Rightarrow> 's \<Rightarrow> 's" and book :: "usd \<Rightarrow> 's \<Rightarrow> 's"
  assumes reserve_used: "ok s \<Longrightarrow> 0 \<le> c \<Longrightarrow> reserve c s = Some s' \<Longrightarrow> used s' = used s + c"
    and reserve_limit: "ok s \<Longrightarrow> 0 \<le> c \<Longrightarrow> reserve c s = Some s' \<Longrightarrow> used s' \<le> limit s'"
    and reserve_ok: "ok s \<Longrightarrow> 0 \<le> c \<Longrightarrow> reserve c s = Some s' \<Longrightarrow> ok s' \<and> limit s' = limit s"
    and release_used: "ok s \<Longrightarrow> 0 \<le> c \<Longrightarrow> used (release c s) = max 0 (used s - c)"
    and release_ok: "ok s \<Longrightarrow> 0 \<le> c \<Longrightarrow> ok (release c s) \<and> limit (release c s) = limit s"
    and book_used: "ok s \<Longrightarrow> 0 \<le> c \<Longrightarrow> used (book c s) = used s + c"
    and book_ok: "ok s \<Longrightarrow> 0 \<le> c \<Longrightarrow> ok (book c s) \<and> limit (book c s) = limit s"
    and used_nonneg: "ok s \<Longrightarrow> 0 \<le> used s"
begin

text \<open>A reservation followed by its refund leaves the counter where it was.\<close>

lemma reserve_release: "ok s \<Longrightarrow> 0 \<le> c \<Longrightarrow> reserve c s = Some s' \<Longrightarrow> used (release c s') = used s"
  using reserve_used[of s c s'] reserve_ok[of s c s'] release_used[of s' c] used_nonneg[of s] by simp

text \<open>A whole attempt, reserved at the estimate and booked at its real cost, nets that cost.\<close>

lemma attempt_nets_cost:
  assumes "ok s" "0 \<le> c" "0 \<le> r" "reserve c s = Some s'"
  shows "used (book r (release c s')) = used s + r"
  using assms reserve_release[of s c s'] reserve_ok[of s c s'] release_ok[of s' c]
    book_used[of "release c s'" r] by simp

text \<open>Any run of admission attempts: refused ones change nothing, and the counter never
  passes the limit through an admission.\<close>

fun admit_all :: "usd list \<Rightarrow> 's \<Rightarrow> usd list \<times> 's" where
  "admit_all [] s = ([], s)"
| "admit_all (c # cs) s = (case reserve c s of
      None \<Rightarrow> admit_all cs s
    | Some s' \<Rightarrow> (case admit_all cs s' of (admitted, t) \<Rightarrow> (c # admitted, t)))"

lemma admissions_bounded:
  assumes "ok s" "\<And>c. c \<in> set cs \<Longrightarrow> 0 \<le> c" "admit_all cs s = (admitted, t)"
  shows "ok t \<and> limit t = limit s \<and> used t = used s + sum_list admitted \<and>
         (admitted \<noteq> [] \<longrightarrow> used t \<le> limit s)"
  using assms
proof (induction cs arbitrary: s admitted)
  case (Cons c cs)
  show ?case
  proof (cases "reserve c s")
    case None
    then have "admit_all cs s = (admitted, t)" using Cons.prems(3) by simp
    then show ?thesis by (rule Cons.IH[OF Cons.prems(1), rotated]) (use Cons.prems(2) in simp)
  next
    case (Some s')
    obtain a where a: "admit_all cs s' = (a, t)" "admitted = c # a"
      using Cons.prems(3) Some by (auto split: prod.splits)
    have c: "0 \<le> c" using Cons.prems(2) by simp
    have s': "ok s'" "limit s' = limit s" "used s' = used s + c" "used s' \<le> limit s"
      using reserve_used[OF Cons.prems(1) c Some] reserve_limit[OF Cons.prems(1) c Some]
        reserve_ok[OF Cons.prems(1) c Some] by auto
    have IH: "ok t \<and> limit t = limit s' \<and> used t = used s' + sum_list a \<and> (a \<noteq> [] \<longrightarrow> used t \<le> limit s')"
      by (rule Cons.IH[OF s'(1) _ a(1)]) (use Cons.prems(2) in simp)
    show ?thesis
      using IH s' a(2) by (cases "a = []") auto
  qed
qed simp

text \<open>Whatever the interleaving, the counter is what it was at the start, plus what was
  booked, plus what is in flight; no refund is ever clipped at zero.\<close>

definition ledger_inv :: "usd \<Rightarrow> usd \<Rightarrow> 's \<times> usd multiset \<times> usd \<Rightarrow> bool" where
  "ledger_inv base cap x \<longleftrightarrow> (case x of (s, out, booked) \<Rightarrow>
     ok s \<and> limit s = cap \<and> 0 \<le> booked \<and> (\<forall>c. c \<in># out \<longrightarrow> 0 \<le> c) \<and>
     used s = base + booked + \<Sum>\<^sub># out)"

lemma ledger_inv_step:
  assumes "ledger_inv base cap x" "0 \<le> base" "ledger_step reserve release book x y"
  shows "ledger_inv base cap y"
  using assms(3)
proof cases
  case (ls_admit c s s' out booked)
  then have i: "ok s" "limit s = cap" "used s = base + booked + \<Sum>\<^sub># out" "0 \<le> booked"
      "\<forall>c. c \<in># out \<longrightarrow> 0 \<le> c"
    using assms(1) by (auto simp: ledger_inv_def)
  show ?thesis
    unfolding ls_admit(2) ledger_inv_def
    using i ls_admit(3) reserve_used[OF i(1) ls_admit(3,4)] reserve_ok[OF i(1) ls_admit(3,4)] by auto
next
  case (ls_refund c out s booked)
  then have i: "ok s" "limit s = cap" "used s = base + booked + \<Sum>\<^sub># out" "0 \<le> booked"
      "\<forall>c. c \<in># out \<longrightarrow> 0 \<le> c"
    using assms(1) by (auto simp: ledger_inv_def)
  have c: "0 \<le> c" using i(5) ls_refund(3) by blast
  have m: "c \<le> \<Sum>\<^sub># out" "\<Sum>\<^sub># (out - {#c#}) = \<Sum>\<^sub># out - c"
    using in_mset_le_sum[OF ls_refund(3)] i(5) by blast+
  show ?thesis
    unfolding ls_refund(2) ledger_inv_def
    using i m release_used[OF i(1) c] release_ok[OF i(1) c] assms(2) by (auto dest: in_diffD)
next
  case (ls_book r s out booked)
  then have i: "ok s" "limit s = cap" "used s = base + booked + \<Sum>\<^sub># out" "0 \<le> booked"
      "\<forall>c. c \<in># out \<longrightarrow> 0 \<le> c"
    using assms(1) by (auto simp: ledger_inv_def)
  show ?thesis
    unfolding ls_book(2) ledger_inv_def
    using i ls_book(3) book_used[OF i(1) ls_book(3)] book_ok[OF i(1) ls_book(3)] by auto
qed (use assms(1) in simp)

lemma ledger_reach:
  assumes "reach (\<lambda>x. x = (s0, {#}, 0)) (ledger_step reserve release book) x" "ok s0"
  shows "ledger_inv (used s0) (limit s0) x"
  using assms(1)
proof (induction rule: reach.induct)
  case (reach_init x)
  then show ?case using assms(2) by (simp add: ledger_inv_def)
next
  case (reach_step x y)
  then show ?case using ledger_inv_step used_nonneg[OF assms(2)] by blast
qed

end

section \<open>The windows as ledgers\<close>

definition daily_ok :: "ApiKeyRow \<Rightarrow> bool" where
  "daily_ok k \<longleftrightarrow> k_daily_cost_cap_usd k \<noteq> None \<and> 0 \<le> k_daily_cost_used_usd k"

definition daily_limit_of :: "ApiKeyRow \<Rightarrow> usd" where
  "daily_limit_of k = opt_or (k_daily_cost_cap_usd k) 0"

definition monthly_ok :: "ApiKeyRow \<Rightarrow> bool" where
  "monthly_ok k \<longleftrightarrow> k_monthly_cost_cap_usd k \<noteq> None \<and> 0 \<le> k_monthly_cost_used_usd k"

definition monthly_limit_of :: "ApiKeyRow \<Rightarrow> usd" where
  "monthly_limit_of k = opt_or (k_monthly_cost_cap_usd k) 0"

lemmas row_defs = reserve_row_def reserve_cond_def reserve_set_def release_row_def release_set_def
  book_usage_def recover_def fresh_daily_cost_def fresh_monthly_cost_def under_cap_def opt_or_def Let_def

interpretation daily: reservation_ledger "fresh_daily_cost ck" daily_limit_of daily_ok
  "reserve_row ck" release_row "\<lambda>c. book_usage ck c st ek" for ck st ek
  by unfold_locales
     (auto simp: row_defs daily_ok_def daily_limit_of_def split: if_splits option.splits)

interpretation monthly: reservation_ledger "fresh_monthly_cost ck" monthly_limit_of monthly_ok
  "reserve_row ck" release_row "\<lambda>c. book_usage ck c st ek" for ck st ek
  by unfold_locales
     (auto simp: row_defs monthly_ok_def monthly_limit_of_def split: if_splits option.splits)

section \<open>The admission on the key table\<close>

text \<open>The daily and monthly spend of key \<open>i\<close>, as every reader of the table sees it.\<close>

definition spend :: "clock \<Rightarrow> int \<Rightarrow> broker \<Rightarrow> (usd \<times> usd) option" where
  "spend ck i b = map_option (\<lambda>k. (fresh_daily_cost ck k, fresh_monthly_cost ck k)) (key_of i b)"

definition spend_ok :: "broker \<Rightarrow> bool" where
  "spend_ok b \<longleftrightarrow> (\<forall>k \<in> set (b_keys b). 0 \<le> k_daily_cost_used_usd k \<and> 0 \<le> k_monthly_cost_used_usd k)"

lemma reserve_set_id [simp]: "k_id (reserve_set ck d m c k) = k_id k"
  by (simp add: reserve_set_def Let_def)

lemma release_set_id [simp]: "k_id (release_set d m c k) = k_id k"
  by (simp add: release_set_def Let_def)

lemma key_of_release_cost:
  "key_of i (release_cost api_key est b) =
     (if i = k_id api_key \<and> 0 < est \<and> (k_daily_cost_cap_usd api_key \<noteq> None \<or> k_monthly_cost_cap_usd api_key \<noteq> None)
      then map_option (release_set (k_daily_cost_cap_usd api_key \<noteq> None) (k_monthly_cost_cap_usd api_key \<noteq> None) est) (key_of i b)
      else key_of i b)"
  by (auto simp: release_cost_def Let_def key_of_update_key)

lemma key_of_global_error [simp]: "key_of i (snd (global_error ck gcap est b)) = key_of i b"
  by (auto simp: global_error_def global_cost_today_def key_of_def Let_def)

text \<open>Refunding right after reserving restores the spend of the row.\<close>

lemma release_after_reserve_row:
  assumes "0 < c" "0 \<le> k_daily_cost_used_usd k" "0 \<le> k_monthly_cost_used_usd k"
  shows "fresh_daily_cost ck (release_set d m c (reserve_set ck d m c k)) = fresh_daily_cost ck k"
    and "fresh_monthly_cost ck (release_set d m c (reserve_set ck d m c k)) = fresh_monthly_cost ck k"
  using assms by (auto simp: row_defs)

lemma reserve_zero_row:
  "fresh_daily_cost ck (reserve_set ck d m 0 k) = fresh_daily_cost ck k"
  "fresh_monthly_cost ck (reserve_set ck d m 0 k) = fresh_monthly_cost ck k"
  by (auto simp: row_defs)

lemma reserve_key_cases:
  assumes "reserve_key ck api_key est b = (r, b1)"
  obtains (uncapped) "r = None" "b1 = b" "k_daily_cost_cap_usd api_key = None" "k_monthly_cost_cap_usd api_key = None"
  | (admitted) k where "r = None" "key_of (k_id api_key) b = Some k"
      "reserve_cond ck (k_daily_cost_cap_usd api_key \<noteq> None) (k_monthly_cost_cap_usd api_key \<noteq> None) est k"
      "k_daily_cost_cap_usd api_key \<noteq> None \<or> k_monthly_cost_cap_usd api_key \<noteq> None"
      "\<And>i. key_of i b1 = (if i = k_id api_key then Some (reserve_set ck (k_daily_cost_cap_usd api_key \<noteq> None)
              (k_monthly_cost_cap_usd api_key \<noteq> None) est k) else key_of i b)"
      "b_usage b1 = b_usage b"
  | (refused) e where "r = Some e" "b1 = b"
proof (cases "k_daily_cost_cap_usd api_key = None \<and> k_monthly_cost_cap_usd api_key = None")
  case True
  with assms show ?thesis by (intro uncapped) (auto simp: reserve_key_def Let_def)
next
  case False
  show ?thesis
  proof (cases "case key_of (k_id api_key) b of
       Some k \<Rightarrow> reserve_cond ck (k_daily_cost_cap_usd api_key \<noteq> None) (k_monthly_cost_cap_usd api_key \<noteq> None) est k
     | None \<Rightarrow> False")
    case True
    then obtain k where k: "key_of (k_id api_key) b = Some k"
      "reserve_cond ck (k_daily_cost_cap_usd api_key \<noteq> None) (k_monthly_cost_cap_usd api_key \<noteq> None) est k"
      by (auto split: option.splits)
    have eq: "r = None" "b1 = update_key (k_id api_key)
        (reserve_cond ck (k_daily_cost_cap_usd api_key \<noteq> None) (k_monthly_cost_cap_usd api_key \<noteq> None) est)
        (reserve_set ck (k_daily_cost_cap_usd api_key \<noteq> None) (k_monthly_cost_cap_usd api_key \<noteq> None) est) b"
      using assms False k by (auto simp: reserve_key_def Let_def)
    show ?thesis
      by (rule admitted[OF eq(1) k]) (use False k eq(2) in \<open>auto simp: key_of_update_key\<close>)
  next
    case nf: False
    have "reserve_key ck api_key est b = (Some (key_cap_error ck api_key est), b)"
      using False nf by (simp only: reserve_key_def Let_def if_False not_True_eq_False de_Morgan_disj) simp
    with assms show ?thesis by (intro refused) auto
  qed
qed

lemma reserve_then_release_spend:
  assumes "reserve_key ck api_key est b = (None, b1)" "0 \<le> est" "spend_ok b"
    and same: "\<And>i. key_of i b2 = key_of i b1"
  shows "spend ck i (release_cost api_key est b2) = spend ck i b"
  using assms(1)
proof (cases rule: reserve_key_cases)
  case (admitted k)
  have k: "0 \<le> k_daily_cost_used_usd k" "0 \<le> k_monthly_cost_used_usd k"
    using key_of_in[OF admitted(2)] assms(3) by (auto simp: spend_ok_def)
  show ?thesis
  proof (cases "i = k_id api_key")
    case True
    show ?thesis
    proof (cases "est = 0")
      case est0: True
      then show ?thesis
        using True admitted by (simp add: spend_def key_of_release_cost same reserve_zero_row)
    next
      case False
      with assms(2) have "0 < est" by simp
      with True admitted k show ?thesis
        by (simp add: spend_def key_of_release_cost same release_after_reserve_row)
    qed
  next
    case False
    with admitted show ?thesis by (simp add: spend_def key_of_release_cost same)
  qed
qed (simp_all add: spend_def key_of_release_cost same)

lemma reserve_cost_error:
  assumes "reserve_cost ck gcap api_key project est kf b = (Some e, b')" "0 \<le> est" "spend_ok b"
  shows "spend ck i b' = spend ck i b"
proof -
  obtain r b1 where r: "reserve_key ck api_key est b = (r, b1)" by fastforce
  obtain g b2 where g: "global_error ck gcap est b1 = (g, b2)" by fastforce
  have b2: "key_of j b2 = key_of j b1" for j using key_of_global_error[of j ck gcap est b1] g by simp
  consider "b' = b" | "r = Some e" "b' = b1" | "r = None" "b' = release_cost api_key est b1"
    | "r = None" "b' = release_cost api_key est b2"
    using assms(1) r g by (auto simp: reserve_cost_def split: if_splits option.splits)
  then show ?thesis
  proof cases
    case 2
    from r 2 show ?thesis by (cases rule: reserve_key_cases) auto
  next
    case 3
    then show ?thesis using reserve_then_release_spend[of ck api_key est b b1 b1 i] r assms by simp
  next
    case 4
    then show ?thesis using reserve_then_release_spend[of ck api_key est b b1 b2 i] r b2 assms by simp
  qed simp
qed

lemma reserve_cost_admitted:
  assumes "reserve_cost ck gcap api_key project est kf b = (None, b')"
    and "\<not> (k_tier api_key = ''free'' \<and> est \<le> 0)"
  obtains b1 where "zero_cap_error api_key project est kf = None"
    "reserve_key ck api_key est b = (None, b1)" "\<And>i. key_of i b' = key_of i b1"
    "b_usage b' = b_usage b" "project_error ck project est b1 = None"
    "project_month_error ck project est b1 = None" "0 < gcap \<longrightarrow> fst (global_cost_today ck b1) + est \<le> gcap"
proof -
  obtain r b1 where r: "reserve_key ck api_key est b = (r, b1)" by fastforce
  obtain g b2 where g: "global_error ck gcap est b1 = (g, b2)" by fastforce
  have u1: "b_usage b1 = b_usage b"
    using r by (cases rule: reserve_key_cases) auto
  have u2: "b_usage b2 = b_usage b1"
    using g by (auto simp: global_error_def global_cost_today_def Let_def split: if_splits prod.splits)
  have "r = None" "g = None" "b' = b2" "zero_cap_error api_key project est kf = None"
      "project_error ck project est b1 = None" "project_month_error ck project est b1 = None"
    using assms r g by (auto simp: reserve_cost_def split: if_splits option.splits)
  moreover have "0 < gcap \<longrightarrow> fst (global_cost_today ck b1) + est \<le> gcap" if "g = None"
    using g that by (auto simp: global_error_def split: if_splits prod.splits)
  ultimately show ?thesis
    using that[of b1] r u1 u2 key_of_global_error[of _ ck gcap est b1] g by simp
qed

section \<open>Properties\<close>


definition capped_key :: ApiKeyRow where
  "capped_key = (new_key 3 ''deepseek'' ''shared'' [''llm:chat''])\<lparr>k_tier := ''paid'',
     k_daily_cost_cap_usd := Some 5, k_daily_cost_used_usd := 2, k_daily_reset_at := Some (2026, 10, 15)\<rparr>"


text \<open>
  The same for the monthly window: concurrent attempts never take the monthly counter
  of a key over its cap through an admission.
\<close>

theorem concurrent_reservations_respect_monthly_cap:
  assumes "monthly_ok k0"
    and "reach (\<lambda>x. x = (k0, {#}, 0)) (ledger_step (reserve_row ck) release_row (\<lambda>c. book_usage ck c st ek))
           (k, out, booked)"
    and "0 \<le> c" "reserve_row ck c k = Some k'"
  shows "fresh_monthly_cost ck k = fresh_monthly_cost ck k0 + booked + \<Sum>\<^sub># out \<and>
         fresh_monthly_cost ck k0 + booked + \<Sum>\<^sub># (add_mset c out) \<le> monthly_limit_of k0"
proof -
  have inv: "monthly_ok k \<and> monthly_limit_of k = monthly_limit_of k0 \<and>
      fresh_monthly_cost ck k = fresh_monthly_cost ck k0 + booked + \<Sum>\<^sub># out"
    using monthly.ledger_reach[OF assms(2,1)] by (simp add: monthly.ledger_inv_def)
  then show ?thesis
    using monthly.reserve_used[of k c ck k'] monthly.reserve_limit[of k c ck k'] monthly.reserve_ok[of k c ck k'] assms(3,4)
    by (simp add: algebra_simps)
qed

theorem concurrent_reservations_respect_monthly_cap_witness:
  "fresh_monthly_cost demo_clock (capped_key\<lparr>k_monthly_cost_cap_usd := Some 9\<rparr>) + 0 + \<Sum>\<^sub># {#3#}
   \<le> monthly_limit_of (capped_key\<lparr>k_monthly_cost_cap_usd := Some 9\<rparr>)"
proof -
  let ?k = "capped_key\<lparr>k_monthly_cost_cap_usd := Some 9\<rparr>"
  obtain k' where k': "reserve_row demo_clock 3 ?k = Some k'"
    by (simp add: row_defs capped_key_def demo_clock_def new_key_def)
  have ok: "monthly_ok ?k" by (simp add: monthly_ok_def capped_key_def new_key_def)
  have "reach (\<lambda>x. x = (?k, {#}, 0))
      (ledger_step (reserve_row demo_clock) release_row (\<lambda>c. book_usage demo_clock c ''ok'' None)) (?k, {#}, 0)"
    by (rule reach_init) simp
  from concurrent_reservations_respect_monthly_cap[OF ok this _ k'] show ?thesis by simp
qed

text \<open>
  C33. An admission the cost guard refuses, at whatever stage, leaves the daily and monthly
  spend of every key as it was.
\<close>

theorem refused_reservation_is_refunded:
  assumes "reserve_cost ck gcap api_key project est kf b = (Some e, b')" "0 \<le> est" "spend_ok b"
  shows "spend ck i b' = spend ck i b"
  by (rule reserve_cost_error[OF assms])

definition broke_project :: ProjectRow where
  "broke_project = (new_project 1 ''p'' [''llm:chat''])\<lparr>p_daily_cost_cap_usd := Some 1\<rparr>"

theorem refused_reservation_is_refunded_witness:
  "fst (reserve_cost demo_clock 0 capped_key broke_project 2 False (broker_init [capped_key])) \<noteq> None \<and>
   spend demo_clock 3 (snd (reserve_cost demo_clock 0 capped_key broke_project 2 False (broker_init [capped_key])))
     = Some (2, 0)"
proof -
  let ?r = "reserve_cost demo_clock 0 capped_key broke_project 2 False (broker_init [capped_key])"
  have some: "fst ?r \<noteq> None" by code_simp
  then obtain e b' where r: "?r = (Some e, b')" by (cases ?r) auto
  have "spend_ok (broker_init [capped_key])"
    by (simp add: spend_ok_def broker_init_def capped_key_def new_key_def)
  from refused_reservation_is_refunded[OF r _ this, of 3] r some show ?thesis
    by (simp add: spend_def key_of_def broker_init_def capped_key_def new_key_def row_defs demo_clock_def month_start_utc_def)
qed

text \<open>
  An admitted reservation debits exactly the estimate from the capped windows of the
  key, leaves every other key alone, stays within the key's caps, and leaves the estimate
  within the project's daily and monthly caps; and a paid key is never admitted under a
  zero cap unless the model is known to be free.
\<close>

theorem admitted_reservation_is_within_caps:
  assumes "reserve_cost ck gcap api_key project est kf b = (None, b')"
    and "\<not> (k_tier api_key = ''free'' \<and> est \<le> 0)" "key_of (k_id api_key) b = Some k"
    and "k_daily_cost_cap_usd k = k_daily_cost_cap_usd api_key" "k_monthly_cost_cap_usd k = k_monthly_cost_cap_usd api_key"
  shows "(\<forall>cap. k_daily_cost_cap_usd k = Some cap \<longrightarrow> fresh_daily_cost ck k + est \<le> cap) \<and>
         (\<forall>cap. k_monthly_cost_cap_usd k = Some cap \<longrightarrow> fresh_monthly_cost ck k + est \<le> cap) \<and>
         spend ck (k_id api_key) b' =
           Some (fresh_daily_cost ck k + (if k_daily_cost_cap_usd k = None then 0 else est),
                 fresh_monthly_cost ck k + (if k_monthly_cost_cap_usd k = None then 0 else est)) \<and>
         (\<forall>i. i \<noteq> k_id api_key \<longrightarrow> key_of i b' = key_of i b) \<and>
         (\<forall>cap. p_monthly_cost_cap_usd project = Some cap \<longrightarrow> project_month_cost ck project b + est \<le> cap) \<and>
         (k_tier api_key = ''paid'' \<and> \<not> kf \<longrightarrow>
            Some 0 \<notin> {k_daily_cost_cap_usd k, k_monthly_cost_cap_usd k,
                       p_daily_cost_cap_usd project, p_monthly_cost_cap_usd project})"
proof -
  obtain b1 where b1: "zero_cap_error api_key project est kf = None"
      "reserve_key ck api_key est b = (None, b1)" "\<And>i. key_of i b' = key_of i b1"
      "project_month_error ck project est b1 = None" "b_usage b' = b_usage b"
    using reserve_cost_admitted[OF assms(1,2)] by metis
  have zero: "k_tier api_key = ''paid'' \<and> \<not> kf \<longrightarrow>
            Some 0 \<notin> {k_daily_cost_cap_usd k, k_monthly_cost_cap_usd k,
                       p_daily_cost_cap_usd project, p_monthly_cost_cap_usd project}"
    using b1(1) assms(4,5) by (auto simp: zero_cap_error_def split: if_splits)
  have u: "b_usage b1 = b_usage b" using b1(2) by (cases rule: reserve_key_cases) auto
  have month: "\<forall>cap. p_monthly_cost_cap_usd project = Some cap \<longrightarrow> project_month_cost ck project b + est \<le> cap"
    using b1(4) u by (auto simp: project_month_error_def Let_def project_month_cost_def split: if_splits)
  from b1(2) show ?thesis
  proof (cases rule: reserve_key_cases)
    case uncapped
    then show ?thesis using assms(3-5) b1(3) zero month by (auto simp: spend_def)
  next
    case (admitted k1)
    with assms(3) have "k1 = k" by simp
    then show ?thesis
      using admitted assms(4,5) b1(3) zero month
      by (auto simp: spend_def row_defs split: option.splits)
  qed simp
qed

theorem admitted_reservation_is_within_caps_witness:
  "spend demo_clock 3 (snd (reserve_cost demo_clock 0 capped_key (new_project 1 ''p'' []) 2 False (broker_init [capped_key])))
     = Some (4, 0)"
proof -
  let ?r = "reserve_cost demo_clock 0 capped_key (new_project 1 ''p'' []) 2 False (broker_init [capped_key])"
  have none: "fst ?r = None" by code_simp
  then obtain b' where r: "?r = (None, b')" by (cases ?r) auto
  have k: "key_of (k_id capped_key) (broker_init [capped_key]) = Some capped_key"
    by (simp add: key_of_def broker_init_def)
  have nf: "\<not> (k_tier capped_key = ''free'' \<and> (2::usd) \<le> 0)" by simp
  from admitted_reservation_is_within_caps[OF r nf k refl refl] r show ?thesis
    by (simp add: capped_key_def new_key_def row_defs demo_clock_def month_start_utc_def)
qed

section \<open>A refund across midnight\<close>

text \<open>
  The refund is not tied to the day it was reserved in: one that lands after the counter
  was reset and used again takes from the new day, which then reads less than was booked.
\<close>

theorem refund_after_midnight_undercounts:
  "\<exists>ck1 ck2 k1. reserve_row ck1 2 capped_key = Some k1 \<and> ck_date ck2 \<noteq> ck_date ck1 \<and>
     fresh_daily_cost ck2 (release_row 2 (book_usage ck2 1 ''ok'' None k1)) = 0"
proof -
  let ?ck2 = "demo_clock\<lparr>ck_date := (2026, 10, 16), ck_utc_date := (2026, 10, 16)\<rparr>"
  obtain k1 where k1: "reserve_row demo_clock 2 capped_key = Some k1"
    by (simp add: row_defs capped_key_def demo_clock_def new_key_def)
  then have "fresh_daily_cost ?ck2 (release_row 2 (book_usage ?ck2 1 ''ok'' None k1)) = 0"
    by (auto simp: row_defs capped_key_def demo_clock_def new_key_def)
  moreover have "ck_date ?ck2 \<noteq> ck_date demo_clock" by (simp add: demo_clock_def)
  ultimately show ?thesis using k1 by blast
qed

end
