(* ===== verification/Regex.thy ===== *)
theory Regex
  imports Prelude
begin

text \<open>
  The part of Python's \<^verbatim>\<open>re\<close> the broker's patterns use: a backtracking matcher that lists all
  ways a pattern can match at a position in the order the engine tries them, so that
  \<^verbatim>\<open>search\<close> takes the first. A position is the character before it, the text after it and
  the text of the (single) capture group. A repetition runs on fuel, the length of the text
  plus its minimum count plus one, which is enough whenever each round consumes a character
  (\<open>rep_match_fuel\<close>).
\<close>

type_synonym rx_state = "char option \<times> string \<times> string option"

datatype rx =
    Eps
  | Sym "char \<Rightarrow> bool"
  | Seq rx rx
  | Alt rx rx
  | Rep bool nat "nat option" rx
  | Cap rx
  | WordB
  | Bos
  | Eos

section \<open>Character classes\<close>

definition is_digit :: "char \<Rightarrow> bool" where
  "is_digit c \<longleftrightarrow> c \<in> set ''0123456789''"

definition is_word :: "char \<Rightarrow> bool" where
  "is_word c \<longleftrightarrow> is_digit c \<or> c = CHR ''_'' \<or> lower_char c \<in> set ''abcdefghijklmnopqrstuvwxyz''"

definition word_at :: "char option \<Rightarrow> bool" where
  "word_at c = (case c of None \<Rightarrow> False | Some x \<Rightarrow> is_word x)"

definition head_of :: "string \<Rightarrow> char option" where
  "head_of s = (case s of [] \<Rightarrow> None | c # _ \<Rightarrow> Some c)"

section \<open>Matching\<close>

fun rep_match ::
  "nat \<Rightarrow> bool \<Rightarrow> nat \<Rightarrow> nat option \<Rightarrow> (rx_state \<Rightarrow> rx_state list) \<Rightarrow> rx_state \<Rightarrow> rx_state list" where
  "rep_match 0 greedy lo hi f s = (if lo = 0 then [s] else [])"
| "rep_match (Suc n) greedy lo hi f s =
     (let more = (if hi = Some 0 then []
                  else concat (map (rep_match n greedy (lo - 1) (map_option (\<lambda>h. h - 1) hi) f) (f s)));
          stop = (if lo = 0 then [s] else [])
      in if greedy then more @ stop else stop @ more)"

primrec rx_match :: "rx \<Rightarrow> rx_state \<Rightarrow> rx_state list" where
  "rx_match Eps s = [s]"
| "rx_match (Sym p) s = (case s of (pr, rest, cp) \<Rightarrow>
     (case rest of [] \<Rightarrow> [] | c # cs \<Rightarrow> if p c then [(Some c, cs, cp)] else []))"
| "rx_match (Seq a b) s = concat (map (rx_match b) (rx_match a s))"
| "rx_match (Alt a b) s = rx_match a s @ rx_match b s"
| "rx_match (Rep greedy lo hi r) s = (case s of (pr, rest, cp) \<Rightarrow>
     rep_match (length rest + lo + 1) greedy lo hi (rx_match r) s)"
| "rx_match (Cap r) s = (case s of (pr, rest, cp) \<Rightarrow>
     map (\<lambda>(pr', rest', cp'). (pr', rest', Some (take (length rest - length rest') rest))) (rx_match r s))"
| "rx_match WordB s = (case s of (pr, rest, cp) \<Rightarrow>
     if word_at pr \<noteq> word_at (head_of rest) then [s] else [])"
| "rx_match Bos s = (case s of (pr, rest, cp) \<Rightarrow> if pr = None then [s] else [])"
| "rx_match Eos s = (case s of (pr, rest, cp) \<Rightarrow>
     if rest = [] \<or> rest = [CHR 0x0A] then [s] else [])"

text \<open>\<^verbatim>\<open>search\<close>: the first match at the leftmost position that has one.\<close>

fun search_from :: "rx \<Rightarrow> char option \<Rightarrow> string \<Rightarrow> rx_state option" where
  "search_from r pr [] = (case rx_match r (pr, [], None) of [] \<Rightarrow> None | m # _ \<Rightarrow> Some m)"
| "search_from r pr (c # cs) = (case rx_match r (pr, c # cs, None) of
      m # _ \<Rightarrow> Some m
    | [] \<Rightarrow> search_from r (Some c) cs)"

definition rx_search :: "rx \<Rightarrow> string \<Rightarrow> rx_state option" where
  "rx_search r s = search_from r None s"

definition rx_found :: "rx \<Rightarrow> string \<Rightarrow> bool" where
  "rx_found r s \<longleftrightarrow> rx_search r s \<noteq> None"

text \<open>\<^verbatim>\<open>findall\<close> of a pattern with one group: the group of every non-overlapping match.\<close>

function findall_from :: "rx \<Rightarrow> char option \<Rightarrow> string \<Rightarrow> string list" where
  "findall_from r pr s = (case rx_match r (pr, s, None) of
      (pr', rest', cp) # _ \<Rightarrow>
        (case cp of None \<Rightarrow> [] | Some t \<Rightarrow> t) #
        (if length rest' < length s then findall_from r pr' rest'
         else (case s of [] \<Rightarrow> [] | c # cs \<Rightarrow> findall_from r (Some c) cs))
    | [] \<Rightarrow> (case s of [] \<Rightarrow> [] | c # cs \<Rightarrow> findall_from r (Some c) cs))"
  by pat_completeness auto
termination
  by (relation "measure (\<lambda>(r, pr, s). length s)") auto

declare findall_from.simps [simp del]

definition rx_findall :: "rx \<Rightarrow> string \<Rightarrow> string list" where
  "rx_findall r s = findall_from r None s"

text \<open>\<^verbatim>\<open>pattern.sub(rep, s)\<close> for a replacement without references.\<close>

function sub_from :: "rx \<Rightarrow> string \<Rightarrow> char option \<Rightarrow> string \<Rightarrow> string" where
  "sub_from r rep pr s = (case rx_match r (pr, s, None) of
      (pr', rest', cp) # _ \<Rightarrow>
        rep @ (if length rest' < length s then sub_from r rep pr' rest'
               else (case s of [] \<Rightarrow> [] | c # cs \<Rightarrow> c # sub_from r rep (Some c) cs))
    | [] \<Rightarrow> (case s of [] \<Rightarrow> [] | c # cs \<Rightarrow> c # sub_from r rep (Some c) cs))"
  by pat_completeness auto
termination
  by (relation "measure (\<lambda>(r, rep, pr, s). length s)") auto

declare sub_from.simps [simp del]

definition rx_sub :: "rx \<Rightarrow> string \<Rightarrow> string \<Rightarrow> string" where
  "rx_sub r rep s = sub_from r rep None s"

section \<open>Building patterns\<close>

definition sym :: "char \<Rightarrow> rx" where "sym c = Sym (\<lambda>x. x = c)"
definition sym_i :: "char \<Rightarrow> rx" where "sym_i c = Sym (\<lambda>x. lower_char x = lower_char c)"
definition one_of :: "string \<Rightarrow> rx" where "one_of cs = Sym (\<lambda>x. x \<in> set cs)"
definition rx_digit :: rx where "rx_digit = Sym is_digit"
definition rx_nondigit :: rx where "rx_nondigit = Sym (\<lambda>c. \<not> is_digit c)"
definition rx_nonword :: rx where "rx_nonword = Sym (\<lambda>c. \<not> is_word c)"
definition rx_space :: rx where "rx_space = Sym is_space"
definition rx_opt :: "rx \<Rightarrow> rx" where "rx_opt r = Rep True 0 (Some 1) r"
definition rx_star :: "rx \<Rightarrow> rx" where "rx_star r = Rep True 0 None r"
definition rx_plus :: "rx \<Rightarrow> rx" where "rx_plus r = Rep True 1 None r"

fun rx_seq :: "rx list \<Rightarrow> rx" where
  "rx_seq [] = Eps"
| "rx_seq [r] = r"
| "rx_seq (r # rs) = Seq r (rx_seq rs)"

fun rx_alt :: "rx list \<Rightarrow> rx" where
  "rx_alt [] = Sym (\<lambda>_. False)"
| "rx_alt [r] = r"
| "rx_alt (r # rs) = Alt r (rx_alt rs)"

definition rx_str :: "string \<Rightarrow> rx" where "rx_str s = rx_seq (map sym s)"
definition rx_str_i :: "string \<Rightarrow> rx" where "rx_str_i s = rx_seq (map sym_i s)"

section \<open>A match consumes a prefix\<close>

definition rest_of :: "rx_state \<Rightarrow> string" where "rest_of s = fst (snd s)"

lemma rep_match_suffix:
  assumes "\<And>s t. t \<in> set (f s) \<Longrightarrow> suffix (rest_of t) (rest_of s)"
  shows "t \<in> set (rep_match n g lo hi f s) \<Longrightarrow> suffix (rest_of t) (rest_of s)"
proof (induction n arbitrary: lo hi s)
  case 0
  then show ?case by (auto split: if_splits)
next
  case (Suc n)
  then have "t = s \<or> (\<exists>u \<in> set (f s). t \<in> set (rep_match n g (lo - 1) (map_option (\<lambda>h. h - 1) hi) f u))"
    by (auto simp: Let_def split: if_splits)
  then show ?case
    using Suc.IH assms by (meson suffix_order.refl suffix_order.trans)
qed

lemma rx_match_suffix: "t \<in> set (rx_match r s) \<Longrightarrow> suffix (rest_of t) (rest_of s)"
proof (induction r arbitrary: s t)
  case (Seq a b)
  from Seq.prems obtain u where "u \<in> set (rx_match a s)" "t \<in> set (rx_match b u)"
    by auto
  with Seq.IH show ?case by (meson suffix_order.trans)
next
  case (Rep g lo hi r)
  obtain pr rest cp where s: "s = (pr, rest, cp)" by (cases s)
  then have "t \<in> set (rep_match (length rest + lo + 1) g lo hi (rx_match r) s)"
    using Rep.prems by (simp del: rep_match.simps)
  then show ?case using rep_match_suffix[where f = "rx_match r"] Rep.IH by blast
next
  case (Cap r)
  then show ?case by (cases s) (force simp: rest_of_def)
qed (auto simp: rest_of_def suffix_ConsI split: prod.splits list.splits if_splits)

text \<open>
  Fuel: when every round of a repetition consumes at least one character, more fuel than
  characters changes nothing.
\<close>

lemma rep_match_fuel:
  assumes "\<And>s t. t \<in> set (f s) \<Longrightarrow> length (rest_of t) < length (rest_of s)"
  shows "length (rest_of s) < n \<Longrightarrow> rep_match (n + d) g lo hi f s = rep_match n g lo hi f s"
proof (induction n arbitrary: lo hi s)
  case (Suc n)
  have "map (rep_match (n + d) g l h f) (f s) = map (rep_match n g l h f) (f s)" for l h
    using Suc.prems assms by (intro map_cong refl Suc.IH) (metis less_trans_Suc Suc_less_eq less_antisym)
  then show ?case by (simp only: add_Suc rep_match.simps)
qed simp

lemma rx_search_Some: "rx_search r s = Some t \<Longrightarrow> suffix (rest_of t) s"
proof -
  have "search_from r pr s = Some t \<Longrightarrow> suffix (rest_of t) s" for pr
  proof (induction s arbitrary: pr)
    case Nil
    then show ?case using rx_match_suffix[of t r "(pr, [], None)"]
      by (auto simp: rest_of_def split: list.splits)
  next
    case (Cons c cs)
    show ?case
    proof (cases "rx_match r (pr, c # cs, None)")
      case Nil
      with Cons show ?thesis by (auto intro: suffix_ConsI)
    next
      case (Cons m ms)
      then have "t = m" "m \<in> set (rx_match r (pr, c # cs, None))" using Cons.prems by simp_all
      then show ?thesis using rx_match_suffix[of m r "(pr, c # cs, None)"] by (simp add: rest_of_def)
    qed
  qed
  then show "rx_search r s = Some t \<Longrightarrow> suffix (rest_of t) s" by (simp add: rx_search_def)
qed

end
