(* ===== verification/Provider_Errors.thy ===== *)
theory Provider_Errors
  imports Regex Provider_Specs
begin

text \<open>
  \<^verbatim>\<open>providers/provider_errors.py\<close>: how a provider exception becomes one of rate limit, auth or
  error. An exception is what the classifier can see of it: the class names along its MRO,
  whether it is a \<^verbatim>\<open>TimeoutError\<close>, its text and the status codes it carries.
\<close>

record provider_exc =
  ex_names :: "string list"
  ex_is_timeout :: bool
  ex_msg :: string
  ex_status_code :: "int option"
  ex_response_status :: "int option"

datatype error_kind = RateLimit | Auth | Other

definition RATE_LIMIT_SIGNS :: "string list" where
  "RATE_LIMIT_SIGNS = [''rate_limit'', ''ratelimit'', ''resource_exhausted'', ''tokens per day'',
     ''tokens per minute'', ''too many tokens'', ''too many requests'', ''trial key'', ''api calls / month'']"

definition AUTH_SIGNS :: "string list" where
  "AUTH_SIGNS = [''credit balance is too low'']"

definition BILLING_DEPLETED_SIGNS :: "string list" where
  "BILLING_DEPLETED_SIGNS = [''prepayment credits are depleted'', ''credits are depleted'', ''insufficient balance'']"

definition is_billing_error :: "string option \<Rightarrow> bool" where
  "is_billing_error text =
     (let low = py_lower (opt_or text [])
      in any_in (BILLING_DEPLETED_SIGNS @ AUTH_SIGNS) low \<or> py_in ''payment required'' low \<or>
         py_in ''no funds'' low \<or> py_in (CHR 0x22 # ''code'' @ [CHR 0x22] @ '': 402'') low \<or>
         py_in ''error code: 402'' low)"

section \<open>Patterns\<close>

definition STATUS_RE :: rx where
  "STATUS_RE = rx_seq
     [rx_alt
        [rx_seq [WordB,
                 rx_alt [rx_seq [rx_str_i ''status'', rx_opt (rx_seq [one_of '' _'', rx_str_i ''code''])],
                         rx_str_i ''code'', rx_str_i ''http'', rx_str_i ''error'', rx_str_i ''gemini-asr''],
                 WordB, Rep True 0 (Some 4) rx_nonword],
         rx_seq [Bos, rx_star rx_space]],
      Cap (Rep True 3 (Some 3) rx_digit), WordB]"

definition QUOTA_WORD_RE :: rx where
  "QUOTA_WORD_RE = rx_seq [WordB, rx_str ''quota'', rx_opt (sym CHR ''s''), WordB]"

definition AUTH_WORD_RE :: rx where
  "AUTH_WORD_RE = rx_seq [WordB,
     rx_alt [rx_str ''auth'', rx_str ''authentication'', rx_str ''authenticationerror'',
             rx_seq [rx_str ''unauthori'', one_of ''sz'', rx_str ''ed''], rx_str ''unauthenticated'',
             rx_str ''forbidden'', rx_str ''permissiondeniederror'', rx_str ''permission_denied''],
     WordB]"

definition BAD_KEY_RE :: rx where
  "BAD_KEY_RE = rx_seq [WordB,
     rx_alt [rx_str ''api key not valid'',
             rx_seq [rx_str ''invalid'', rx_opt (one_of '' _-''), rx_str ''api'', rx_opt (one_of '' _-''), rx_str ''key''],
             rx_str ''incorrect api key''],
     WordB]"

section \<open>Status\<close>

definition valid_status :: "int option \<Rightarrow> int option" where
  "valid_status c = (case c of Some i \<Rightarrow> if 100 \<le> i \<and> i \<le> 599 then Some i else None | None \<Rightarrow> None)"

definition attr_status :: "provider_exc \<Rightarrow> int option" where
  "attr_status e = (case valid_status (ex_status_code e) of
      Some i \<Rightarrow> Some i | None \<Rightarrow> valid_status (ex_response_status e))"

definition status_numbers :: "string \<Rightarrow> int list" where
  "status_numbers msg = map (\<lambda>d. opt_or (parse_unsigned d) 0) (rx_findall STATUS_RE msg)"

definition http_status_of :: "provider_exc \<Rightarrow> int option" where
  "http_status_of e = (case attr_status e of
      Some i \<Rightarrow> Some i
    | None \<Rightarrow> find (\<lambda>c. 100 \<le> c \<and> c \<le> 599) (status_numbers (py_lower (ex_msg e))))"

section \<open>Classification\<close>

definition rate_limit_signs_for :: "string \<Rightarrow> string list" where
  "rate_limit_signs_for p = ps_rate_limit_signs (spec_or_default (Some p))"

definition auth_signs_for :: "string \<Rightarrow> string list" where
  "auth_signs_for p = ps_auth_signs (spec_or_default (Some p))"

definition named :: "provider_exc \<Rightarrow> string list \<Rightarrow> bool" where
  "named e ns \<longleftrightarrow> list_ex (\<lambda>n. n \<in> set ns) (ex_names e)"

definition AUTH_EXC_NAMES :: "string list" where
  "AUTH_EXC_NAMES = [''AuthenticationError'', ''PermissionDeniedError'']"

definition RATE_EXC_NAMES :: "string list" where
  "RATE_EXC_NAMES = [''RateLimitError'']"

definition NEUTRAL_4XX_EXCLUDED :: "int list" where
  "NEUTRAL_4XX_EXCLUDED = [401, 403, 408, 429]"

definition neutral_4xx :: "int option \<Rightarrow> int list \<Rightarrow> bool" where
  "neutral_4xx attr statuses =
     (let http = (case attr of Some a \<Rightarrow> [a] | None \<Rightarrow> filter (\<lambda>c. 100 \<le> c \<and> c \<le> 599) statuses)
      in http \<noteq> [] \<and> list_all (\<lambda>c. 400 \<le> c \<and> c < 500 \<and> c \<notin> set NEUTRAL_4XX_EXCLUDED) http)"

text \<open>A provider that is \<^verbatim>\<open>None\<close> or empty has no scoped signs.\<close>

definition has_sign :: "(string \<Rightarrow> string list) \<Rightarrow> string option \<Rightarrow> string \<Rightarrow> bool" where
  "has_sign signs provider msg = (case provider of
      None \<Rightarrow> False | Some p \<Rightarrow> p \<noteq> [] \<and> any_in (signs p) msg)"

definition classify_provider_error :: "provider_exc \<Rightarrow> string option \<Rightarrow> error_kind" where
  "classify_provider_error e provider =
     (if ex_is_timeout e then RateLimit
      else
        let emsg = py_lower (ex_msg e);
            attr = attr_status e;
            statuses = status_numbers emsg @ (case attr of Some a \<Rightarrow> [a] | None \<Rightarrow> [])
        in if any_in BILLING_DEPLETED_SIGNS emsg then Auth
           else if has_sign rate_limit_signs_for provider emsg then RateLimit
           else if 429 \<in> set statuses \<or> named e RATE_EXC_NAMES then RateLimit
           else if any_in AUTH_SIGNS emsg \<or> rx_found BAD_KEY_RE emsg \<or>
                   401 \<in> set statuses \<or> 403 \<in> set statuses \<or> named e AUTH_EXC_NAMES then Auth
           else if \<not> neutral_4xx attr statuses \<and> (any_in RATE_LIMIT_SIGNS emsg \<or> rx_found QUOTA_WORD_RE emsg)
             then RateLimit
           else if \<not> neutral_4xx attr statuses \<and> rx_found AUTH_WORD_RE emsg then Auth
           else if has_sign auth_signs_for provider emsg then Auth
           else Other)"

definition MODEL_UNAVAILABLE_SIGNS :: "string list" where
  "MODEL_UNAVAILABLE_SIGNS = [''not found for account'', ''model_not_found'', ''does not exist'', ''no such model'']"

definition type_name :: "provider_exc \<Rightarrow> string" where
  "type_name e = (case ex_names e of [] \<Rightarrow> [] | n # _ \<Rightarrow> n)"

definition is_model_unavailable :: "provider_exc \<Rightarrow> bool" where
  "is_model_unavailable e \<longleftrightarrow>
     type_name e = ''NotFoundError'' \<or> any_in MODEL_UNAVAILABLE_SIGNS (py_lower (ex_msg e))"

definition is_timeout :: "provider_exc \<Rightarrow> bool" where
  "is_timeout e \<longleftrightarrow> ex_is_timeout e \<or> py_in ''timeout'' (py_lower (type_name e))"

section \<open>Quota duration\<close>

definition DAILY_QUOTA_MARKERS :: "string list" where
  "DAILY_QUOTA_MARKERS = [''per day'', ''per-day'', ''perday'', ''tokens per day'', ''daily limit'',
     ''requests per day'', ''tpd'', ''rpd'', ''daily free allocation'']"

definition HOURLY_QUOTA_MARKERS :: "string list" where
  "HOURLY_QUOTA_MARKERS = [''per hour'', ''per-hour'', ''requests per hour'', ''hourly limit'']"

definition MONTHLY_QUOTA_MARKERS :: "string list" where
  "MONTHLY_QUOTA_MARKERS = [''trial key'', ''api calls / month'', ''calls / month'', ''monthly limit'']"

section \<open>Tables and lemmas\<close>

lemma rate_limit_signs_code [code]:
  "rate_limit_signs_for p = fst (opt_or (map_of signs_table p) ([], [], []))"
  using signs_of_spec[of p] by (metis fst_conv rate_limit_signs_for_def signs_of_def)

lemma auth_signs_code [code]:
  "auth_signs_for p = fst (snd (opt_or (map_of signs_table p) ([], [], [])))"
  using signs_of_spec[of p] by (metis fst_conv snd_conv auth_signs_for_def signs_of_def)

lemma any_in_iff: "any_in ns s \<longleftrightarrow> (\<exists>n. n \<in> set ns \<and> sublist n s)"
  by (auto simp: any_in_def list_ex_iff py_in_sublist)

lemma valid_status_range: "valid_status c = Some i \<Longrightarrow> 100 \<le> i \<and> i \<le> 599"
  by (auto simp: valid_status_def split: option.splits if_splits)

lemma http_status_range: "http_status_of e = Some i \<Longrightarrow> 100 \<le> i \<and> i \<le> 599"
  by (auto simp: http_status_of_def attr_status_def find_Some_iff dest!: valid_status_range split: option.splits)

section \<open>Properties\<close>

definition plain_exc :: "string \<Rightarrow> string \<Rightarrow> int option \<Rightarrow> provider_exc" where
  "plain_exc name msg status =
     \<lparr>ex_names = [name, ''Exception''], ex_is_timeout = False, ex_msg = msg,
      ex_status_code = status, ex_response_status = None\<rparr>"

lemma demo_statuses:
  "status_numbers ''error code: 401 - bad key'' = [401]"
  "status_numbers ''429 too many requests'' = [429]"
  "status_numbers ''request req_4291x failed at line 429'' = []"
  by code_simp+

text \<open>
  The HTTP status decides first. A timeout and, unless the text says the credits are
  gone, a 429 are rate limits; a 401 or 403 marks the key as bad unless the provider's own
  signs or a 429 say otherwise; and an exception that carries another 4xx status penalises
  no key for the words in its text: only billing and bad-key phrases, the provider's own
  signs, another status in the text or the exception's type can.
\<close>

theorem status_decides_classification:
  "(ex_is_timeout e \<longrightarrow> classify_provider_error e p = RateLimit) \<and>
   (\<not> ex_is_timeout e \<and> attr_status e = Some 429 \<longrightarrow>
      classify_provider_error e p =
        (if any_in BILLING_DEPLETED_SIGNS (py_lower (ex_msg e)) then Auth else RateLimit)) \<and>
   (\<not> ex_is_timeout e \<and> attr_status e \<in> {Some 401, Some 403} \<and>
      \<not> has_sign rate_limit_signs_for p (py_lower (ex_msg e)) \<and>
      429 \<notin> set (status_numbers (py_lower (ex_msg e))) \<and> \<not> named e RATE_EXC_NAMES \<longrightarrow>
      classify_provider_error e p = Auth) \<and>
   (\<not> ex_is_timeout e \<and> attr_status e = Some c \<and> 400 \<le> c \<and> c < 500 \<and> c \<notin> {401, 403, 408, 429} \<and>
      set (status_numbers (py_lower (ex_msg e))) \<inter> {401, 403, 429} = {} \<and>
      \<not> any_in (BILLING_DEPLETED_SIGNS @ AUTH_SIGNS) (py_lower (ex_msg e)) \<and>
      \<not> rx_found BAD_KEY_RE (py_lower (ex_msg e)) \<and> \<not> named e (RATE_EXC_NAMES @ AUTH_EXC_NAMES) \<and>
      \<not> has_sign rate_limit_signs_for p (py_lower (ex_msg e)) \<and>
      \<not> has_sign auth_signs_for p (py_lower (ex_msg e)) \<longrightarrow>
      classify_provider_error e p = Other)"
proof (intro conjI impI)
  assume a: "\<not> ex_is_timeout e \<and> attr_status e = Some c \<and> 400 \<le> c \<and> c < 500 \<and> c \<notin> {401, 403, 408, 429} \<and>
      set (status_numbers (py_lower (ex_msg e))) \<inter> {401, 403, 429} = {} \<and>
      \<not> any_in (BILLING_DEPLETED_SIGNS @ AUTH_SIGNS) (py_lower (ex_msg e)) \<and>
      \<not> rx_found BAD_KEY_RE (py_lower (ex_msg e)) \<and> \<not> named e (RATE_EXC_NAMES @ AUTH_EXC_NAMES) \<and>
      \<not> has_sign rate_limit_signs_for p (py_lower (ex_msg e)) \<and>
      \<not> has_sign auth_signs_for p (py_lower (ex_msg e))"
  have "neutral_4xx (Some c) s" for s
    using a by (simp add: neutral_4xx_def NEUTRAL_4XX_EXCLUDED_def)
  moreover have "\<not> any_in BILLING_DEPLETED_SIGNS (py_lower (ex_msg e))" "\<not> any_in AUTH_SIGNS (py_lower (ex_msg e))"
    using a by (simp_all add: any_in_def)
  moreover have "\<not> named e RATE_EXC_NAMES" "\<not> named e AUTH_EXC_NAMES"
    using a by (auto simp: named_def list_ex_iff)
  ultimately show "classify_provider_error e p = Other"
    using a by (simp add: classify_provider_error_def Let_def)
next
  assume a: "\<not> ex_is_timeout e \<and> attr_status e \<in> {Some 401, Some 403} \<and>
      \<not> has_sign rate_limit_signs_for p (py_lower (ex_msg e)) \<and>
      429 \<notin> set (status_numbers (py_lower (ex_msg e))) \<and> \<not> named e RATE_EXC_NAMES"
  then consider "attr_status e = Some 401" | "attr_status e = Some 403" by blast
  then show "classify_provider_error e p = Auth"
    by cases (use a in \<open>simp_all add: classify_provider_error_def Let_def\<close>)
qed (simp_all add: classify_provider_error_def Let_def)

theorem status_decides_classification_witness:
  "classify_provider_error (plain_exc ''BadRequestError'' ''Unauthorized quota parameter'' (Some 400)) (Some ''groq'') = Other \<and>
   classify_provider_error (plain_exc ''RateLimitError'' ''Your prepayment credits are depleted'' (Some 429)) (Some ''gemini'') = Auth"
proof
  let ?e = "plain_exc ''BadRequestError'' ''Unauthorized quota parameter'' (Some 400)"
  have "\<not> ex_is_timeout ?e" "attr_status ?e = Some 400" "status_numbers (py_lower (ex_msg ?e)) = []"
      "\<not> any_in (BILLING_DEPLETED_SIGNS @ AUTH_SIGNS) (py_lower (ex_msg ?e))"
      "\<not> rx_found BAD_KEY_RE (py_lower (ex_msg ?e))" "\<not> named ?e (RATE_EXC_NAMES @ AUTH_EXC_NAMES)"
      "\<not> has_sign rate_limit_signs_for (Some ''groq'') (py_lower (ex_msg ?e))"
      "\<not> has_sign auth_signs_for (Some ''groq'') (py_lower (ex_msg ?e))"
    by code_simp+
  then show "classify_provider_error ?e (Some ''groq'') = Other"
    using status_decides_classification[of ?e "Some ''groq''" 400] by simp
  let ?f = "plain_exc ''RateLimitError'' ''Your prepayment credits are depleted'' (Some 429)"
  have "\<not> ex_is_timeout ?f" "attr_status ?f = Some 429" "any_in BILLING_DEPLETED_SIGNS (py_lower (ex_msg ?f))"
    by code_simp+
  then show "classify_provider_error ?f (Some ''gemini'') = Auth"
    using status_decides_classification[of ?f "Some ''gemini''"] by simp
qed

end
