(* ===== verification/Cooldown.thy ===== *)
theory Cooldown
  imports Provider_Errors Selector
begin

text \<open>
  \<^verbatim>\<open>routing/cooldown.py\<close>: how long a rate-limited key is parked. The provider's own retry
  hint, parsed by the pattern below, the monthly, daily and hourly quota signs, and the
  adaptive backoff over the usage log. The random numbers are arguments: \<open>u\<close> the factor of
  \<^verbatim>\<open>random.uniform(1.0, 1.25)\<close> and \<open>j\<close> the offset of \<^verbatim>\<open>random.uniform(0, 90)\<close>. The several
  clock readings of one call are one \<open>now\<close>.
\<close>

definition MAX_COOLDOWN_S :: int where "MAX_COOLDOWN_S = 30 * 60"
definition MAX_RETRY_HINT_S :: secs where "MAX_RETRY_HINT_S = 48 * 60 * 60"
definition BACKOFF_WINDOW_S :: secs where "BACKOFF_WINDOW_S = 60 * 60"
definition ADAPTIVE_JITTER_FRAC :: rat where "ADAPTIVE_JITTER_FRAC = 1 / 4"
definition BOUNDARY_JITTER_S :: secs where "BOUNDARY_JITTER_S = 90"

definition cooldown_seconds :: "string \<Rightarrow> int \<Rightarrow> bool \<Rightarrow> int" where
  "cooldown_seconds provider recent_cooldowns timeout_bump =
     (let steps = recent_cooldowns + (if timeout_bump then 1 else 0)
      in min (cooldown_base_for provider * 2 ^ nat (max 0 steps)) MAX_COOLDOWN_S)"

definition adaptive_jitter :: "rat \<Rightarrow> int \<Rightarrow> secs" where
  "adaptive_jitter u secs = of_int secs * u"

section \<open>The retry hint\<close>

definition RETRY_AFTER_RE :: rx where
  "RETRY_AFTER_RE = rx_seq
     [rx_alt [rx_seq [rx_str_i ''retry'',
                      rx_alt [rx_seq [rx_opt (one_of '' -''), rx_str_i ''after''], rx_str_i '' in'']],
              rx_str_i ''retrydelay''],
      Rep False 0 (Some 4) rx_nondigit,
      Cap (rx_seq [rx_plus rx_digit, rx_opt (rx_seq [sym CHR ''.'', rx_plus rx_digit])]),
      rx_star rx_space,
      rx_alt [rx_seq [sym_i CHR ''s'',
                      rx_opt (rx_seq [rx_str_i ''ec'', rx_opt (rx_seq [rx_str_i ''ond'', rx_opt (sym_i CHR ''s'')])]),
                      WordB],
              Eos]]"

text \<open>\<^verbatim>\<open>float(s)\<close> of digits with an optional fraction, which is all the group can hold.\<close>

definition parse_decimal :: "string \<Rightarrow> rat option" where
  "parse_decimal s = (case split_first CHR ''.'' s of
      (a, None) \<Rightarrow> map_option of_int (parse_unsigned a)
    | (a, Some f) \<Rightarrow> (case (parse_unsigned a, parse_unsigned f) of
          (Some i, Some r) \<Rightarrow> Some (of_int i + of_int r / 10 ^ length f)
        | _ \<Rightarrow> None))"

definition parse_retry_after :: "string \<Rightarrow> secs option" where
  "parse_retry_after msg = (case rx_search RETRY_AFTER_RE msg of
      None \<Rightarrow> None
    | Some (pr, rest, g) \<Rightarrow> (case parse_decimal (opt_or g []) of
          None \<Rightarrow> None
        | Some secs \<Rightarrow> if 0 < secs \<and> secs \<le> MAX_RETRY_HINT_S then Some secs else None))"

definition GEMINI_PER_DAY_QUOTA_RE :: rx where
  "GEMINI_PER_DAY_QUOTA_RE = rx_seq
     [rx_str_i ''quotaid'', Rep True 0 (Some 8) rx_nonword,
      Rep False 0 None (Sym (\<lambda>c. is_word c \<or> c = CHR ''-'')), rx_str_i ''perday'']"

definition is_model_scoped_quota :: "string \<Rightarrow> string \<Rightarrow> bool" where
  "is_model_scoped_quota provider msg \<longleftrightarrow> provider = ''gemini'' \<and> rx_found GEMINI_PER_DAY_QUOTA_RE msg"

definition is_daily_quota_error :: "string \<Rightarrow> bool" where
  "is_daily_quota_error msg = any_in DAILY_QUOTA_MARKERS (py_lower msg)"

definition is_hourly_quota_error :: "string \<Rightarrow> bool" where
  "is_hourly_quota_error msg = any_in HOURLY_QUOTA_MARKERS (py_lower msg)"

definition is_monthly_quota_error :: "string \<Rightarrow> bool" where
  "is_monthly_quota_error msg = any_in MONTHLY_QUOTA_MARKERS (py_lower msg)"

definition monthly_signs_for :: "string \<Rightarrow> string list" where
  "monthly_signs_for p = ps_monthly_signs (spec_or_default (Some p))"

definition is_provider_monthly :: "string \<Rightarrow> string \<Rightarrow> bool" where
  "is_provider_monthly provider msg = any_in (monthly_signs_for provider) (py_lower msg)"

section \<open>Boundaries\<close>

definition next_utc_midnight :: "datetime \<Rightarrow> datetime" where
  "next_utc_midnight now = midnight (next_date (date_of now))"

definition next_hour_boundary :: "datetime \<Rightarrow> datetime" where
  "next_hour_boundary now =
     (if dt_hour now < 23
      then now\<lparr>dt_hour := dt_hour now + 1, dt_minute := 0, dt_second := 0, dt_microsecond := 0\<rparr>
      else midnight (next_date (date_of now)))"

definition next_utc_month_start :: "datetime \<Rightarrow> datetime" where
  "next_utc_month_start now =
     (if dt_month now = 12 then midnight (dt_year now + 1, 1, 1)
      else midnight (dt_year now, dt_month now + 1, 1))"

section \<open>The verdict\<close>

definition recent_throttle_count :: "int \<Rightarrow> instant \<Rightarrow> UsageLogRow list \<Rightarrow> nat" where
  "recent_throttle_count kid since us =
     row_count (\<lambda>u. u_api_key_id u = Some kid \<and> (u_status u = ''rate_limit'' \<or> u_http_status u = Some 429) \<and>
                    since < u_created_at u) us"

definition adaptive_cooldown :: "datetime \<Rightarrow> rat \<Rightarrow> int \<Rightarrow> string \<Rightarrow> bool \<Rightarrow> UsageLogRow list \<Rightarrow> instant" where
  "adaptive_cooldown now u kid provider timeout_bump us =
     (let recent = recent_throttle_count kid (instant_of now - BACKOFF_WINDOW_S) us
      in instant_of now + adaptive_jitter u (cooldown_seconds provider (int recent) timeout_bump))"

definition cooldown_until ::
  "datetime \<Rightarrow> rat \<Rightarrow> secs \<Rightarrow> int \<Rightarrow> string \<Rightarrow> string \<Rightarrow> bool \<Rightarrow> UsageLogRow list \<Rightarrow> instant" where
  "cooldown_until now u j kid provider error_msg is_tmo us =
     (case parse_retry_after error_msg of
        Some retry \<Rightarrow> max (instant_of now + retry) (adaptive_cooldown now u kid provider is_tmo us)
      | None \<Rightarrow>
          if is_monthly_quota_error error_msg \<or> is_provider_monthly provider error_msg
          then instant_of (next_utc_month_start now) + j
          else if is_daily_quota_error error_msg then instant_of (next_utc_midnight now) + j
          else if is_hourly_quota_error error_msg then instant_of (next_hour_boundary now) + j
          else adaptive_cooldown now u kid provider is_tmo us)"

section \<open>Lemmas\<close>

lemma monthly_signs_code [code]:
  "monthly_signs_for p = snd (snd (opt_or (map_of signs_table p) ([], [], [])))"
  using signs_of_spec[of p] by (metis snd_conv monthly_signs_for_def signs_of_def)

lemma parse_retry_after_range: "parse_retry_after msg = Some s \<Longrightarrow> 0 < s \<and> s \<le> 172800"
  by (auto simp: parse_retry_after_def MAX_RETRY_HINT_S_def split: option.splits if_splits)

lemma parse_retry_after_examples:
  "parse_retry_after ''Please retry in 24.5s.'' = Some (49 / 2)"
  "parse_retry_after ''retry after 30'' = Some 30"
  "parse_retry_after ''retry after 30 minutes'' = None"
  "parse_retry_after ''Retry-After: 3 seconds'' = Some 3"
  by code_simp+

lemma cooldown_seconds_bounds:
  "cooldown_base_for p \<le> cooldown_seconds p n b" "cooldown_seconds p n b \<le> 1800" "10 \<le> cooldown_seconds p n b"
proof -
  have base: "10 \<le> cooldown_base_for p" "cooldown_base_for p \<le> 300" by (rule cooldown_base_bounds)+
  have "1 \<le> (2::int) ^ m" for m by simp
  then have "cooldown_base_for p \<le> cooldown_base_for p * 2 ^ m" for m
    using base(1) mult_left_mono[of 1 "2 ^ m" "cooldown_base_for p"] by simp
  with base show "cooldown_base_for p \<le> cooldown_seconds p n b" "cooldown_seconds p n b \<le> 1800"
      "10 \<le> cooldown_seconds p n b"
    by (auto simp: cooldown_seconds_def MAX_COOLDOWN_S_def Let_def min_def intro: order_trans)
qed

lemma cooldown_seconds_mono:
  assumes "n \<le> m"
  shows "cooldown_seconds p n b \<le> cooldown_seconds p m b" "cooldown_seconds p n False \<le> cooldown_seconds p n True"
proof -
  have base: "0 \<le> cooldown_base_for p" using cooldown_base_bounds(1)[of p] by simp
  have mono: "cooldown_base_for p * 2 ^ nat (max 0 x) \<le> cooldown_base_for p * 2 ^ nat (max 0 y)" if "x \<le> y" for x y :: int
    using that base by (intro mult_left_mono power_increasing) auto
  show "cooldown_seconds p n b \<le> cooldown_seconds p m b"
    unfolding cooldown_seconds_def Let_def by (intro min.mono mono order_refl) (use assms in simp)
  show "cooldown_seconds p n False \<le> cooldown_seconds p n True"
    unfolding cooldown_seconds_def Let_def by (intro min.mono mono order_refl) simp
qed

lemma adaptive_cooldown_bounds:
  assumes "1 \<le> u" "u \<le> 5 / 4"
  shows "instant_of now + 10 \<le> adaptive_cooldown now u kid p b us"
    and "adaptive_cooldown now u kid p b us \<le> instant_of now + 2250"
proof -
  let ?c = "cooldown_seconds p (int (recent_throttle_count kid (instant_of now - BACKOFF_WINDOW_S) us)) b"
  have c: "(10::rat) \<le> of_int ?c" "of_int ?c \<le> (1800::rat)"
    using cooldown_seconds_bounds(2,3) by simp_all
  have "(10::rat) * 1 \<le> of_int ?c * u" using c assms by (intro mult_mono) auto
  moreover have "of_int ?c * u \<le> 1800 * (5 / 4)" using c assms by (intro mult_mono) auto
  ultimately show "instant_of now + 10 \<le> adaptive_cooldown now u kid p b us"
    "adaptive_cooldown now u kid p b us \<le> instant_of now + 2250"
    by (simp_all add: adaptive_cooldown_def adaptive_jitter_def Let_def)
qed

lemma instant_next_midnight:
  assumes "valid_datetime now"
  shows "instant_of (midnight (next_date (date_of now)))
         = instant_of now + (86400 - second_of_day now)"
proof -
  have "ordinal (next_date (date_of now)) = ordinal (date_of now) + 1"
    using assms ordinal_next_date[of "dt_month now" "dt_day now" "dt_year now"]
    by (simp add: date_of_def valid_datetime_def)
  then show ?thesis by (simp add: instant_of_def[of now] algebra_simps)
qed

lemma next_utc_midnight_bounds:
  assumes "valid_datetime now"
  shows "instant_of now < instant_of (next_utc_midnight now)"
    and "instant_of (next_utc_midnight now) \<le> instant_of now + 86400"
  using second_of_day_bounds[OF assms] instant_next_midnight[OF assms]
  by (simp_all add: next_utc_midnight_def)

lemma second_of_day_hour:
  assumes "valid_datetime now"
  shows "of_int (dt_hour now) * 3600 \<le> second_of_day now" "second_of_day now < of_int (dt_hour now) * 3600 + 3600"
proof -
  let ?s = "dt_minute now * 60 + dt_second now"
  have s: "0 \<le> ?s" "?s \<le> 3599"
    using assms by (auto simp: valid_datetime_def)
  have m: "(0::rat) \<le> of_int (dt_microsecond now) / 1000000" "of_int (dt_microsecond now) / 1000000 < (1::rat)"
    using assms by (auto simp: valid_datetime_def)
  have "(0::rat) \<le> of_int ?s" "of_int ?s \<le> (3599::rat)"
    using s by (simp_all only: of_int_0_le_iff of_int_le_numeral_iff)
  moreover have "second_of_day now = of_int (dt_hour now) * 3600 + of_int ?s + of_int (dt_microsecond now) / 1000000"
    by (simp add: second_of_day_def)
  ultimately show "of_int (dt_hour now) * 3600 \<le> second_of_day now"
      "second_of_day now < of_int (dt_hour now) * 3600 + 3600"
    using m by linarith+
qed

lemma next_hour_boundary_bounds:
  assumes "valid_datetime now"
  shows "instant_of now < instant_of (next_hour_boundary now)"
    and "instant_of (next_hour_boundary now) \<le> instant_of now + 3600"
proof -
  have "instant_of (next_hour_boundary now)
      = instant_of now + (of_int (dt_hour now) * 3600 + 3600 - second_of_day now)"
  proof (cases "dt_hour now < 23")
    case True
    then show ?thesis
      by (simp add: next_hour_boundary_def instant_of_def second_of_day_def date_of_def algebra_simps)
  next
    case False
    with assms have "dt_hour now = 23" by (simp add: valid_datetime_def)
    then show ?thesis using instant_next_midnight[OF assms] by (simp add: next_hour_boundary_def)
  qed
  with second_of_day_hour[OF assms]
  show "instant_of now < instant_of (next_hour_boundary now)"
    "instant_of (next_hour_boundary now) \<le> instant_of now + 3600" by simp_all
qed

lemma next_utc_month_start_bounds:
  assumes "valid_datetime now"
  shows "instant_of now < instant_of (next_utc_month_start now)"
    and "instant_of (next_utc_month_start now) \<le> instant_of now + 31 * 86400"
proof -
  let ?y = "dt_year now" and ?m = "dt_month now" and ?d = "dt_day now"
  have v: "1 \<le> ?m" "?m \<le> 12" "1 \<le> ?d" "?d \<le> days_in_month ?y ?m"
    using assms by (auto simp: valid_datetime_def)
  have "next_utc_month_start now = midnight (if ?m = 12 then (?y + 1, 1, 1) else (?y, ?m + 1, 1))"
    by (simp add: next_utc_month_start_def)
  then have i: "instant_of (next_utc_month_start now) = of_int (ordinal (?y, ?m, 1) + days_in_month ?y ?m) * 86400"
    using ordinal_first_of_next_month[OF v(1,2), of ?y] by simp
  have n: "instant_of now = of_int (ordinal (?y, ?m, 1) + ?d - 1) * 86400 + second_of_day now"
    by (simp add: instant_of_def date_of_def ordinal_def)
  have "days_in_month ?y ?m \<le> 31" by (simp add: days_in_month_def)
  then have l: "1 \<le> days_in_month ?y ?m - ?d + 1" "days_in_month ?y ?m - ?d + 1 \<le> 31" using v by linarith+
  define x :: rat where "x = of_int (days_in_month ?y ?m - ?d + 1)"
  have x: "1 \<le> x" "x \<le> 31"
    using l unfolding x_def by (simp_all only: of_int_1_le_iff of_int_le_numeral_iff)
  have "instant_of (next_utc_month_start now) = instant_of now + (x * 86400 - second_of_day now)"
    unfolding i n x_def by (simp add: algebra_simps)
  then show "instant_of now < instant_of (next_utc_month_start now)"
      "instant_of (next_utc_month_start now) \<le> instant_of now + 31 * 86400"
    using second_of_day_bounds[OF assms] x by simp_all
qed

section \<open>Properties\<close>

text \<open>
  A rate-limited key is always parked into the future and never without bound. With a
  retry hint it waits at least the hint and at most the longer of the hint and 37.5
  minutes; a monthly quota parks it past the start of the next month, a daily one past the
  next midnight, an hourly one past the next hour, each by at most the jitter; anything
  else waits between ten seconds and 37.5 minutes.
\<close>

theorem cooldown_until_is_bounded:
  assumes "valid_datetime now" "1 \<le> u" "u \<le> 5 / 4" "0 \<le> j" "j \<le> BOUNDARY_JITTER_S"
  shows "instant_of now < cooldown_until now u j kid p msg t us \<and>
    cooldown_until now u j kid p msg t us \<le> instant_of now + 31 * 86400 + 90 \<and>
    (\<forall>r. parse_retry_after msg = Some r \<longrightarrow>
       instant_of now + r \<le> cooldown_until now u j kid p msg t us \<and>
       cooldown_until now u j kid p msg t us \<le> instant_of now + max r 2250) \<and>
    (parse_retry_after msg = None \<longrightarrow>
       (if is_monthly_quota_error msg \<or> is_provider_monthly p msg
        then instant_of (next_utc_month_start now) \<le> cooldown_until now u j kid p msg t us
        else if is_daily_quota_error msg
        then instant_of (next_utc_midnight now) \<le> cooldown_until now u j kid p msg t us \<and>
             cooldown_until now u j kid p msg t us \<le> instant_of now + 86400 + 90
        else if is_hourly_quota_error msg
        then instant_of (next_hour_boundary now) \<le> cooldown_until now u j kid p msg t us \<and>
             cooldown_until now u j kid p msg t us \<le> instant_of now + 3600 + 90
        else instant_of now + 10 \<le> cooldown_until now u j kid p msg t us \<and>
             cooldown_until now u j kid p msg t us \<le> instant_of now + 2250))"
proof -
  note b = adaptive_cooldown_bounds[OF assms(2,3), of now kid p t us]
    next_utc_month_start_bounds[OF assms(1)] next_utc_midnight_bounds[OF assms(1)]
    next_hour_boundary_bounds[OF assms(1)]
  have j: "0 \<le> j" "j \<le> 90" using assms(4,5) by (simp_all add: BOUNDARY_JITTER_S_def)
  show ?thesis
  proof (cases "parse_retry_after msg")
    case None
    then show ?thesis unfolding cooldown_until_def using b j by simp
  next
    case (Some r)
    then show ?thesis
      unfolding cooldown_until_def using b parse_retry_after_range[OF Some] by (simp add: max_def)
  qed
qed

definition demo_now :: datetime where
  "demo_now = \<lparr>dt_year = 2026, dt_month = 12, dt_day = 31, dt_hour = 23, dt_minute = 59,
     dt_second = 30, dt_microsecond = 0\<rparr>"

theorem cooldown_until_is_bounded_witness:
  "instant_of demo_now + 49 / 2 \<le> cooldown_until demo_now 1 0 7 ''gemini'' ''Please retry in 24.5s.'' False [] \<and>
   instant_of demo_now < instant_of (next_utc_month_start demo_now)"
proof -
  have v: "valid_datetime demo_now" by (simp add: valid_datetime_def demo_now_def days_in_month_def)
  show ?thesis
    using cooldown_until_is_bounded[OF v, of 1 0 7 "''gemini''" "''Please retry in 24.5s.''" False "[]"]
      next_utc_month_start_bounds(1)[OF v] parse_retry_after_examples(1)
    by (simp add: BOUNDARY_JITTER_S_def)
qed

end
