(* ===== verification/Deep_Jobs.thy ===== *)
theory Deep_Jobs
  imports Db_Models Registry "HOL-Library.List_Lexorder" "HOL-Library.Char_ord"
begin

text \<open>
  \<^verbatim>\<open>services/deep_jobs.py\<close> and \<^verbatim>\<open>services/job_meta.py\<close>: the queue row, the canonical payload
  and its hash, submission with idempotency keys and in-flight deduplication, the guarded
  terminal write, and the poll view. The MD5 of a canonical payload is the argument \<open>md5\<close>.
  A submission reads the table once and inserts later; the two tables are separate
  arguments, so other submissions may land in between.
\<close>

section \<open>Rows\<close>

datatype job_status = Pending | Running | Done | Error | Cancelled

record DeepJobRow =
  j_id :: int
  j_project_id :: int
  j_capability :: string
  j_status :: job_status
  j_request :: "(string \<times> json) list"
  j_payload_hash :: "string option"
  j_result_text :: "string option"
  j_result_meta :: "json option"
  j_error_message :: "string option"
  j_retry_count :: int
  j_run_after :: "instant option"
  j_started_at :: "instant option"
  j_created_at :: instant
  j_completed_at :: "instant option"
  j_trace_id :: "string option"
  j_labels :: "(string \<times> string) list option"
  j_idempotency_key :: "string option"
  j_cancel_requested :: bool
  j_priority :: int

text \<open>The table with the sequence that numbers its rows.\<close>

record job_table =
  jt_rows :: "DeepJobRow list"
  jt_next :: int

definition terminal :: "job_status \<Rightarrow> bool" where
  "terminal s \<longleftrightarrow> s \<in> {Done, Error, Cancelled}"

definition is_agent_job :: "DeepJobRow \<Rightarrow> bool" where
  "is_agent_job r \<longleftrightarrow> starts_with (j_capability r) ''agent:''"

section \<open>Client metadata\<close>

definition MAX_TOKEN_LEN :: nat where "MAX_TOKEN_LEN = 128"
definition MAX_LABELS :: nat where "MAX_LABELS = 8"

definition token_char :: "char \<Rightarrow> bool" where
  "token_char c \<longleftrightarrow> lower_char c \<in> set ''abcdefghijklmnopqrstuvwxyz0123456789._:-''"

text \<open>\<open>None\<close>: a \<^verbatim>\<open>ValueError\<close>.\<close>

definition check_token :: "json \<Rightarrow> string option" where
  "check_token v = (case v of
      JStr s \<Rightarrow> if s = [] \<or> length s > MAX_TOKEN_LEN \<or> \<not> list_all token_char s then None else Some s
    | _ \<Rightarrow> None)"

fun check_label_list :: "(string \<times> string) list \<Rightarrow> (string \<times> string) list option" where
  "check_label_list [] = Some []"
| "check_label_list ((k, v) # kvs) =
     (case (check_token (JStr k), check_token (JStr v), check_label_list kvs) of
        (Some k', Some v', Some rest) \<Rightarrow> Some ((k', v') # rest)
      | _ \<Rightarrow> None)"

definition check_labels :: "(string \<times> string) list option \<Rightarrow> (string \<times> string) list option option" where
  "check_labels labels = (case labels of
      None \<Rightarrow> Some None
    | Some l \<Rightarrow> if length l > MAX_LABELS then None else map_option Some (check_label_list l))"

definition resolve_trace_id :: "string option \<Rightarrow> string option \<Rightarrow> string option option" where
  "resolve_trace_id body_trace_id header_trace_id = (case body_trace_id of
      Some t \<Rightarrow> Some (Some t)
    | None \<Rightarrow> (case header_trace_id of
          None \<Rightarrow> Some None
        | Some h \<Rightarrow> map_option Some (check_token (JStr h))))"

section \<open>Payload hash\<close>

text \<open>
  \<^verbatim>\<open>json.dumps(..., sort_keys=True)\<close> up to its text: the tree with every object's keys in
  order.
\<close>

fun canonical :: "json \<Rightarrow> json" where
  "canonical (JObj kvs) = JObj (sort_key fst (map (\<lambda>(k, v). (k, canonical v)) kvs))"
| "canonical (JList vs) = JList (map canonical vs)"
| "canonical v = v"

definition drop_nulls :: "json \<Rightarrow> json" where
  "drop_nulls m = (case m of JObj kvs \<Rightarrow> JObj (filter (\<lambda>(k, v). v \<noteq> JNull) kvs) | v \<Rightarrow> v)"

text \<open>\<^verbatim>\<open>{**request, "messages": ...}\<close> keeps the place of an existing key.\<close>

definition without_null_message_fields :: "(string \<times> json) list \<Rightarrow> (string \<times> json) list" where
  "without_null_message_fields request = (case obj_get request ''messages'' of
      Some (JList ms) \<Rightarrow> map (\<lambda>(k, v). if k = ''messages'' then (k, JList (map drop_nulls ms)) else (k, v)) request
    | _ \<Rightarrow> request)"

definition payload_hash ::
  "(int \<times> string \<times> json \<Rightarrow> string) \<Rightarrow> int \<Rightarrow> string \<Rightarrow> (string \<times> json) list \<Rightarrow> string" where
  "payload_hash md5 project_id capability request =
     md5 (project_id, capability, canonical (JObj (without_null_message_fields request)))"

section \<open>Priority\<close>

definition PRIORITY_INTERACTIVE :: int where "PRIORITY_INTERACTIVE = 0"
definition PRIORITY_BATCH :: int where "PRIORITY_BATCH = 1"

definition INTERACTIVE_WORKFLOW_LABEL :: string where
  "INTERACTIVE_WORKFLOW_LABEL = ''orchestra:mascot-chat''"

text \<open>\<open>None\<close>: a \<^verbatim>\<open>KeyError\<close> for an unknown priority name.\<close>

definition resolve_priority :: "string option \<Rightarrow> (string \<times> string) list option \<Rightarrow> int option" where
  "resolve_priority requested labels = (case requested of
      Some r \<Rightarrow> map_of [(''interactive'', PRIORITY_INTERACTIVE), (''batch'', PRIORITY_BATCH)] r
    | None \<Rightarrow> if map_of (opt_or labels []) ''workflow'' = Some INTERACTIVE_WORKFLOW_LABEL
              then Some PRIORITY_INTERACTIVE else Some PRIORITY_BATCH)"

definition priority_name :: "int option \<Rightarrow> string" where
  "priority_name code = (if code = Some PRIORITY_INTERACTIVE then ''interactive'' else ''batch'')"

section \<open>Submission\<close>

datatype submit_error = IdempotencyConflict int | IntegrityError

record SubmitOutcome =
  so_job_id :: int
  so_replayed :: bool

definition build_request ::
  "json list \<Rightarrow> string option \<Rightarrow> int \<Rightarrow> rat \<Rightarrow> json option \<Rightarrow> string option
   \<Rightarrow> (string \<times> json) list \<Rightarrow> (string \<times> json) list" where
  "build_request messages model max_tokens temperature response_format workflow extra =
     (let base = [(''messages'', JList messages),
                  (''model'', case model of None \<Rightarrow> JNull | Some m \<Rightarrow> JStr m),
                  (''max_tokens'', JInt max_tokens), (''temperature'', JFloat temperature),
                  (''response_format'', opt_or response_format JNull),
                  (''workflow'', case workflow of None \<Rightarrow> JNull | Some w \<Rightarrow> JStr w)]
      in map (\<lambda>(k, v). (k, opt_or (map_of (rev extra) k) v)) base @
         filter (\<lambda>(k, v). k \<notin> fst ` set base) extra)"

definition find_by_idempotency_key :: "int \<Rightarrow> string \<Rightarrow> job_table \<Rightarrow> (int \<times> string option) option" where
  "find_by_idempotency_key project_id key t =
     map_option (\<lambda>r. (j_id r, j_payload_hash r))
       (find (\<lambda>r. j_project_id r = project_id \<and> j_idempotency_key r = Some key) (jt_rows t))"

definition replayed_job_id :: "int \<Rightarrow> string \<Rightarrow> string \<Rightarrow> job_table \<Rightarrow> submit_error + int option" where
  "replayed_job_id project_id key phash t = (case find_by_idempotency_key project_id key t of
      None \<Rightarrow> Inr None
    | Some (i, h) \<Rightarrow> if h \<noteq> Some phash then Inl (IdempotencyConflict i) else Inr (Some i))"

definition DEDUP_WINDOW_S :: secs where "DEDUP_WINDOW_S = 30 * 60"

text \<open>
  \<open>avail\<close> is the process flag \<^verbatim>\<open>_dedup_available\<close> and \<open>lookup_fails\<close> says that the database
  rejects the query; then the flag goes off. Of several matches the newest counts.
\<close>

definition inflight_match :: "instant \<Rightarrow> int \<Rightarrow> string \<Rightarrow> string \<Rightarrow> DeepJobRow \<Rightarrow> bool" where
  "inflight_match now project_id capability phash r \<longleftrightarrow>
     j_project_id r = project_id \<and> j_capability r = capability \<and> j_payload_hash r = Some phash \<and>
     j_status r \<in> {Pending, Running} \<and> j_created_at r > now - DEDUP_WINDOW_S"

definition find_inflight_duplicate ::
  "instant \<Rightarrow> bool \<Rightarrow> bool \<Rightarrow> int \<Rightarrow> string \<Rightarrow> string \<Rightarrow> job_table \<Rightarrow> int option \<times> bool" where
  "find_inflight_duplicate now avail lookup_fails project_id capability phash t =
     (if \<not> avail then (None, False)
      else if lookup_fails then (None, False)
      else (case filter (inflight_match now project_id capability phash) (jt_rows t) of
              [] \<Rightarrow> (None, True)
            | r # rs \<Rightarrow> (Some (j_id (arg_min_list (\<lambda>r. - j_created_at r) (r # rs))), True)))"

definition key_taken :: "int \<Rightarrow> string option \<Rightarrow> job_table \<Rightarrow> bool" where
  "key_taken project_id key t \<longleftrightarrow> key \<noteq> None \<and>
     list_ex (\<lambda>r. j_project_id r = project_id \<and> j_idempotency_key r = key) (jt_rows t)"

definition insert_job ::
  "instant \<Rightarrow> int \<Rightarrow> string \<Rightarrow> (string \<times> json) list \<Rightarrow> string option \<Rightarrow> string option
   \<Rightarrow> (string \<times> string) list option \<Rightarrow> string option \<Rightarrow> int \<Rightarrow> job_table \<Rightarrow> int \<times> job_table" where
  "insert_job now project_id capability request phash trace_id labels key priority t =
     (let row = \<lparr>j_id = jt_next t, j_project_id = project_id, j_capability = capability,
        j_status = Pending, j_request = request, j_payload_hash = phash, j_result_text = None,
        j_result_meta = None, j_error_message = None, j_retry_count = 0, j_run_after = None,
        j_started_at = None, j_created_at = now, j_completed_at = None, j_trace_id = trace_id,
        j_labels = labels, j_idempotency_key = key, j_cancel_requested = False,
        j_priority = priority\<rparr>
      in (jt_next t, t\<lparr>jt_rows := jt_rows t @ [row], jt_next := jt_next t + 1\<rparr>))"

text \<open>
  The body of \<^verbatim>\<open>submit_job_ex\<close> on its built request, with \<open>t1\<close> the table its lookups read and \<open>t2\<close> the table its insert meets.
  The unique index on (project, key) refuses the loser of a race, which then answers with
  the winner's job. Before migration 010 the insert names neither hash, trace, labels nor
  key, and the column default gives the priority.
\<close>

definition enqueue_request ::
  "(int \<times> string \<times> json \<Rightarrow> string) \<Rightarrow> instant \<Rightarrow> bool \<Rightarrow> bool \<Rightarrow> int \<Rightarrow> string \<Rightarrow> (string \<times> json) list
   \<Rightarrow> string option \<Rightarrow> (string \<times> string) list option \<Rightarrow> string option \<Rightarrow> int
   \<Rightarrow> job_table \<Rightarrow> job_table \<Rightarrow> (submit_error + SubmitOutcome) \<times> job_table \<times> bool" where
  "enqueue_request md5 now avail lookup_fails project_id capability request trace_id labels key priority t1 t2 =
     (let phash = payload_hash md5 project_id capability request;
          has_key = (key \<noteq> None \<and> key \<noteq> Some []);
          replay = (if has_key then replayed_job_id project_id (the key) phash t1 else Inr None);
          dup = (if has_key then (None, avail)
                 else find_inflight_duplicate now avail lookup_fails project_id capability phash t1);
          avail' = snd dup
      in (case replay of
            Inl e \<Rightarrow> (Inl e, t2, avail')
          | Inr (Some i) \<Rightarrow> (Inr \<lparr>so_job_id = i, so_replayed = True\<rparr>, t2, avail')
          | Inr None \<Rightarrow>
              (case fst dup of
                 Some i \<Rightarrow> (Inr \<lparr>so_job_id = i, so_replayed = False\<rparr>, t2, avail')
               | None \<Rightarrow>
                   if avail' \<or> has_key then
                     (if key_taken project_id key t2 then
                        (case (if has_key then replayed_job_id project_id (the key) phash t2 else Inr None) of
                           Inl e \<Rightarrow> (Inl e, t2, avail')
                         | Inr None \<Rightarrow> (Inl IntegrityError, t2, avail')
                         | Inr (Some i) \<Rightarrow> (Inr \<lparr>so_job_id = i, so_replayed = True\<rparr>, t2, avail'))
                      else
                        (case insert_job now project_id capability request (Some phash) trace_id labels key priority t2 of
                           (i, t3) \<Rightarrow> (Inr \<lparr>so_job_id = i, so_replayed = False\<rparr>, t3, avail')))
                   else
                     (case insert_job now project_id capability request None None None None PRIORITY_BATCH t2 of
                        (i, t3) \<Rightarrow> (Inr \<lparr>so_job_id = i, so_replayed = False\<rparr>, t3, avail')))))"

definition submit_job_ex ::
  "(int \<times> string \<times> json \<Rightarrow> string) \<Rightarrow> instant \<Rightarrow> bool \<Rightarrow> bool \<Rightarrow> int \<Rightarrow> string \<Rightarrow> json list \<Rightarrow> string option
   \<Rightarrow> int \<Rightarrow> rat \<Rightarrow> json option \<Rightarrow> string option \<Rightarrow> (string \<times> json) list \<Rightarrow> string option
   \<Rightarrow> (string \<times> string) list option \<Rightarrow> string option \<Rightarrow> int
   \<Rightarrow> job_table \<Rightarrow> job_table \<Rightarrow> (submit_error + SubmitOutcome) \<times> job_table \<times> bool" where
  "submit_job_ex md5 now avail lookup_fails project_id capability messages model max_tokens temperature
       response_format workflow extra trace_id labels key priority t1 t2 =
     enqueue_request md5 now avail lookup_fails project_id capability
       (build_request messages model max_tokens temperature response_format workflow extra)
       trace_id labels key priority t1 t2"

definition submit_job ::
  "(int \<times> string \<times> json \<Rightarrow> string) \<Rightarrow> instant \<Rightarrow> bool \<Rightarrow> bool \<Rightarrow> int \<Rightarrow> string \<Rightarrow> json list \<Rightarrow> string option
   \<Rightarrow> int \<Rightarrow> rat \<Rightarrow> json option \<Rightarrow> string option \<Rightarrow> (string \<times> json) list
   \<Rightarrow> job_table \<Rightarrow> job_table \<Rightarrow> (submit_error + int) \<times> job_table \<times> bool" where
  "submit_job md5 now avail lookup_fails project_id capability messages model max_tokens temperature
       response_format workflow extra t1 t2 =
     (case submit_job_ex md5 now avail lookup_fails project_id capability messages model max_tokens temperature
             response_format workflow extra None None None PRIORITY_BATCH t1 t2 of
        (Inl e, r) \<Rightarrow> (Inl e, r) | (Inr o', r) \<Rightarrow> (Inr (so_job_id o'), r))"

definition submit_deep_job ::
  "(int \<times> string \<times> json \<Rightarrow> string) \<Rightarrow> instant \<Rightarrow> bool \<Rightarrow> bool \<Rightarrow> int \<Rightarrow> json list \<Rightarrow> string option \<Rightarrow> int
   \<Rightarrow> rat \<Rightarrow> string option \<Rightarrow> job_table \<Rightarrow> job_table \<Rightarrow> (submit_error + int) \<times> job_table \<times> bool" where
  "submit_deep_job md5 now avail lookup_fails project_id messages model max_tokens temperature workflow t1 t2 =
     submit_job md5 now avail lookup_fails project_id ''chat:deep'' messages model max_tokens temperature
       None workflow [] t1 t2"

section \<open>The terminal write\<close>

definition AUDIO_FIELD :: string where "AUDIO_FIELD = ''audio_b64''"

definition has_audio :: "(string \<times> json) list \<Rightarrow> bool" where
  "has_audio request = (case obj_get request AUDIO_FIELD of
      None \<Rightarrow> False | Some JNull \<Rightarrow> False | Some (JStr s) \<Rightarrow> s \<noteq> [] | Some _ \<Rightarrow> True)"

definition strip_audio :: "(string \<times> json) list \<Rightarrow> (string \<times> json) list" where
  "strip_audio request =
     (if has_audio request then map (\<lambda>(k, v). if k = AUDIO_FIELD then (k, JNull) else (k, v)) request
      else request)"

text \<open>The claim guard of \<^verbatim>\<open>_finish\<close>: no expectation, or the row still carries the claim.\<close>

definition claim_matches :: "instant option \<Rightarrow> DeepJobRow \<Rightarrow> bool" where
  "claim_matches expected r \<longleftrightarrow> expected = None \<or> j_started_at r = expected"

definition finish_row ::
  "instant \<Rightarrow> job_status \<Rightarrow> string option \<Rightarrow> json option \<Rightarrow> string option \<Rightarrow> DeepJobRow \<Rightarrow> DeepJobRow" where
  "finish_row now status result_text result_meta error_message r =
     r\<lparr>j_status := status, j_result_text := result_text, j_result_meta := result_meta,
       j_error_message := error_message, j_completed_at := Some now,
       j_request := strip_audio (j_request r)\<rparr>"

definition finish ::
  "instant \<Rightarrow> int \<Rightarrow> job_status \<Rightarrow> string option \<Rightarrow> json option \<Rightarrow> string option \<Rightarrow> instant option
   \<Rightarrow> DeepJobRow list \<Rightarrow> DeepJobRow list" where
  "finish now job_id status result_text result_meta error_message expected rows =
     update_where (\<lambda>r. j_id r = job_id \<and> claim_matches expected r)
       (finish_row now status result_text result_meta error_message) rows"

section \<open>Polling\<close>

record JobView =
  v_id :: int
  v_project_id :: int
  v_capability :: string
  v_status :: job_status
  v_result_text :: "string option"
  v_result_meta :: "json option"
  v_error_message :: "string option"
  v_created_at :: instant
  v_trace_id :: "string option"
  v_labels :: "(string \<times> string) list option"
  v_cancel_requested :: bool
  v_started_at :: "instant option"
  v_completed_at :: "instant option"
  v_run_after :: "instant option"
  v_priority :: int
  v_request :: "(string \<times> json) list"

definition POLL_REQUEST_KEYS :: "string list" where
  "POLL_REQUEST_KEYS = [''model'', ''account_id'', ''client_job'']"

definition poll_request :: "(string \<times> json) list \<Rightarrow> (string \<times> json) list" where
  "poll_request request = concat (map (\<lambda>k. case obj_get request k of
      None \<Rightarrow> [] | Some JNull \<Rightarrow> [] | Some v \<Rightarrow> [(k, v)]) POLL_REQUEST_KEYS)"

definition get_job :: "int \<Rightarrow> int \<Rightarrow> DeepJobRow list \<Rightarrow> JobView option" where
  "get_job job_id project_id rows =
     map_option (\<lambda>r. \<lparr>v_id = j_id r, v_project_id = j_project_id r, v_capability = j_capability r,
        v_status = j_status r, v_result_text = j_result_text r, v_result_meta = j_result_meta r,
        v_error_message = j_error_message r, v_created_at = j_created_at r,
        v_trace_id = j_trace_id r, v_labels = j_labels r,
        v_cancel_requested = j_cancel_requested r, v_started_at = j_started_at r,
        v_completed_at = j_completed_at r, v_run_after = j_run_after r, v_priority = j_priority r,
        v_request = poll_request (j_request r)\<rparr>)
       (find (\<lambda>r. j_id r = job_id \<and> j_project_id r = project_id) rows)"

definition next_poll_after_s :: "instant \<Rightarrow> instant \<Rightarrow> int" where
  "next_poll_after_s now created_at =
     (if now - created_at < 30 then 5 else if now - created_at < 120 then 10 else 20)"

section \<open>Lemmas: the payload\<close>

lemma without_nulls_messages:
  assumes "map fst request = ks" "distinct ks" "obj_get request ''messages'' = Some (JList ms)"
  shows "without_null_message_fields request
         = map (\<lambda>(k, v). if k = ''messages'' then (k, JList (map drop_nulls ms)) else (k, v)) request"
  using assms(3) by (simp add: without_null_message_fields_def)

lemma drop_nulls_insert: "drop_nulls (JObj (a @ (k, JNull) # b)) = drop_nulls (JObj (a @ b))"
  by (simp add: drop_nulls_def)

lemma sort_key_mset_unique:
  fixes xs ys :: "('a::linorder \<times> 'b) list"
  assumes "mset xs = mset ys" "distinct (map fst xs)"
  shows "sort_key fst xs = sort_key fst ys"
proof (rule properties_for_sort_key)
  show "mset (sort_key fst ys) = mset xs" using assms(1) by simp
  show "sorted (map fst (sort_key fst ys))" by simp
  fix k assume k0: "k \<in> set (sort_key fst ys)"
  have inj: "inj_on fst (set xs)" using assms(2) by (simp add: distinct_map)
  have sets: "set (sort_key fst ys) = set xs" using assms(1) by (metis set_mset_mset set_sort)
  with k0 have k: "k \<in> set xs" by simp
  have d: "distinct (sort_key fst ys)" "distinct xs"
    using assms by (simp_all add: distinct_map) (metis mset_eq_imp_distinct_iff distinct_map assms(2))
  have one: "filter (\<lambda>x. fst k = fst x) zs = [k]" if "set zs = set xs" "distinct zs" for zs
  proof -
    have "set (filter (\<lambda>x. fst k = fst x) zs) = {k}"
      using that(1) k inj by (auto dest: inj_onD)
    moreover have "distinct (filter (\<lambda>x. fst k = fst x) zs)" using that(2) by simp
    ultimately show ?thesis by (metis distinct_set_singleton)
  qed
  show "filter (\<lambda>x. fst k = fst x) (sort_key fst ys) = filter (\<lambda>x. fst k = fst x) xs"
    using one[of "sort_key fst ys"] one[of xs] sets d by simp
qed

lemma without_nulls_perm:
  assumes "mset r1 = mset r2" "distinct (map fst r1)"
  shows "mset (without_null_message_fields r1) = mset (without_null_message_fields r2) \<and>
         map fst (without_null_message_fields r1) = map fst r1"
proof -
  have d2: "distinct (map fst r2)"
    using assms by (metis mset_eq_imp_distinct_iff mset_map)
  have "map_of r1 k = map_of r2 k" for k
    using assms d2 by (metis map_of_eqI map_of_eq_Some_iff option.exhaust set_mset_mset)
  then have "obj_get r1 k = obj_get r2 k" for k by (simp add: obj_get_def)
  then show ?thesis
    using assms(1) by (auto simp: without_null_message_fields_def comp_def case_prod_beta
        split: option.splits json.splits intro!: image_mset_cong)
qed

lemma payload_hash_perm:
  assumes "mset r1 = mset r2" "distinct (map fst r1)"
  shows "payload_hash md5 pid cap r1 = payload_hash md5 pid cap r2"
proof -
  let ?w1 = "without_null_message_fields r1" and ?w2 = "without_null_message_fields r2"
  let ?c = "map (\<lambda>(k, v). (k, canonical v))"
  have w: "mset ?w1 = mset ?w2" "map fst ?w1 = map fst r1" using without_nulls_perm[OF assms] by simp_all
  have "mset (?c ?w1) = mset (?c ?w2)" using w(1) by simp
  moreover have "distinct (map fst (?c ?w1))" using w(2) assms(2) by (simp add: comp_def case_prod_beta)
  ultimately have "sort_key fst (?c ?w1) = sort_key fst (?c ?w2)" by (rule sort_key_mset_unique)
  then show ?thesis by (simp add: payload_hash_def)
qed

section \<open>Lemmas: the table\<close>

text \<open>The unique index on (project, idempotency key).\<close>

definition idem_ok :: "job_table \<Rightarrow> bool" where
  "idem_ok t \<longleftrightarrow> (\<forall>r \<in> set (jt_rows t). \<forall>r' \<in> set (jt_rows t).
     j_project_id r = j_project_id r' \<and> j_idempotency_key r = j_idempotency_key r' \<and>
     j_idempotency_key r \<noteq> None \<longrightarrow> r = r')"

definition ids_ok :: "job_table \<Rightarrow> bool" where
  "ids_ok t \<longleftrightarrow> distinct (map j_id (jt_rows t)) \<and> (\<forall>r \<in> set (jt_rows t). j_id r < jt_next t)"

lemma replayed_job_id_cases:
  "(replayed_job_id pid key h t = Inr None \<longleftrightarrow> \<not> key_taken pid (Some key) t) \<and>
   (replayed_job_id pid key h t = Inr (Some i) \<longrightarrow>
      (\<exists>r \<in> set (jt_rows t). j_id r = i \<and> j_project_id r = pid \<and> j_idempotency_key r = Some key \<and> j_payload_hash r = Some h)) \<and>
   (replayed_job_id pid key h t = Inl e \<longrightarrow>
      (\<exists>r \<in> set (jt_rows t). e = IdempotencyConflict (j_id r) \<and> j_project_id r = pid \<and>
         j_idempotency_key r = Some key \<and> j_payload_hash r \<noteq> Some h))"
proof (cases "find (\<lambda>r. j_project_id r = pid \<and> j_idempotency_key r = Some key) (jt_rows t)")
  case None
  then have "\<not> key_taken pid (Some key) t" by (auto simp: key_taken_def find_None_iff list_ex_iff)
  with None show ?thesis by (simp add: replayed_job_id_def find_by_idempotency_key_def)
next
  case (Some r)
  then have r: "r \<in> set (jt_rows t)" "j_project_id r = pid" "j_idempotency_key r = Some key"
    by (auto simp: find_Some_iff dest: nth_mem)
  then have "key_taken pid (Some key) t" by (auto simp: key_taken_def list_ex_iff)
  with Some r show ?thesis
    by (auto simp: replayed_job_id_def find_by_idempotency_key_def split: if_splits)
qed

lemma insert_job_rows:
  assumes "insert_job now pid cap req h tr lb key pr t = (i, t')"
  shows "i = jt_next t" "jt_next t' = jt_next t + 1"
    "\<exists>r. jt_rows t' = jt_rows t @ [r] \<and> j_id r = i \<and> j_project_id r = pid \<and> j_capability r = cap \<and>
         j_status r = Pending \<and> j_request r = req \<and> j_payload_hash r = h \<and> j_idempotency_key r = key \<and>
         j_retry_count r = 0 \<and> j_started_at r = None \<and> j_run_after r = None \<and> j_completed_at r = None \<and>
         j_created_at r = now \<and> j_priority r = pr \<and> \<not> j_cancel_requested r"
  using assms by (auto simp: insert_job_def Let_def)

lemma insert_job_idem:
  assumes "insert_job now pid cap req h tr lb key pr t = (i, t')" "idem_ok t" "\<not> key_taken pid key t"
  shows "idem_ok t'"
proof -
  obtain r where r: "jt_rows t' = jt_rows t @ [r]" "j_project_id r = pid" "j_idempotency_key r = key"
    using insert_job_rows(3)[OF assms(1)] by blast
  have clash: False if "x \<in> set (jt_rows t)" "j_project_id x = pid" "j_idempotency_key x = key" "key \<noteq> None" for x
    using assms(3) that by (auto simp: key_taken_def list_ex_iff)
  show ?thesis
    unfolding idem_ok_def r(1) set_append list.set ball_Un ball_simps
  proof (intro conjI ballI impI; (elim conjE)?)
    fix a b assume "a \<in> set (jt_rows t)" "b \<in> set (jt_rows t)" "j_project_id a = j_project_id b"
      "j_idempotency_key a = j_idempotency_key b" "j_idempotency_key a \<noteq> None"
    then show "a = b" using assms(2) unfolding idem_ok_def by blast
  next
    fix a assume "a \<in> set (jt_rows t)" "j_project_id a = j_project_id r"
      "j_idempotency_key a = j_idempotency_key r" "j_idempotency_key a \<noteq> None"
    then show "a = r" using clash[of a] r by simp
  next
    fix a assume "a \<in> set (jt_rows t)" "j_project_id r = j_project_id a"
      "j_idempotency_key r = j_idempotency_key a" "j_idempotency_key r \<noteq> None"
    then show "r = a" using clash[of a] r by simp
  qed simp_all
qed

lemma insert_job_ids:
  assumes "insert_job now pid cap req h tr lb key pr t = (i, t')" "ids_ok t"
  shows "ids_ok t'"
proof -
  obtain r where r: "jt_rows t' = jt_rows t @ [r]" "j_id r = jt_next t"
    using insert_job_rows(1,3)[OF assms(1)] by blast
  have "distinct (map j_id (jt_rows t))" and lt: "\<And>x. x \<in> set (jt_rows t) \<Longrightarrow> j_id x < jt_next t"
    using assms(2) unfolding ids_ok_def by blast+
  moreover have "jt_next t \<notin> j_id ` set (jt_rows t)"
  proof
    assume "jt_next t \<in> j_id ` set (jt_rows t)"
    then obtain x where "x \<in> set (jt_rows t)" "jt_next t = j_id x" by blast
    with lt[of x] show False by simp
  qed
  moreover have "j_id x < jt_next t + 1" if "x \<in> set (jt_rows t)" for x
    using lt[OF that] by simp
  ultimately show ?thesis
    using r insert_job_rows(2)[OF assms(1)] by (simp add: ids_ok_def)
qed

section \<open>Properties\<close>

text \<open>
  C32. With an idempotency key a submission answers with a job of this project that carries
  the key and the same payload, or reports the conflict with the job that used the key for
  another payload; it never fails otherwise, and the key stays unique in the project
  whatever other submissions landed between its lookup and its insert.
\<close>

theorem idempotent_submission:
  assumes "key = Some k" "k \<noteq> []" "idem_ok t2"
    and kept: "\<forall>r \<in> set (jt_rows t1). j_idempotency_key r \<noteq> None \<longrightarrow> r \<in> set (jt_rows t2)"
    and sub: "enqueue_request md5 now avail fails pid cap req tr lb key pr t1 t2 = (res, t3, avail')"
  shows "idem_ok t3 \<and>
    (\<forall>o'. res = Inr o' \<longrightarrow> (\<exists>r \<in> set (jt_rows t3). j_id r = so_job_id o' \<and> j_project_id r = pid \<and>
        j_idempotency_key r = Some k \<and> j_payload_hash r = Some (payload_hash md5 pid cap req)) \<and>
        (so_replayed o' \<longrightarrow> t3 = t2)) \<and>
    (\<forall>e. res = Inl e \<longrightarrow> t3 = t2 \<and> (\<exists>r \<in> set (jt_rows t2). e = IdempotencyConflict (j_id r) \<and>
        j_project_id r = pid \<and> j_idempotency_key r = Some k \<and>
        j_payload_hash r \<noteq> Some (payload_hash md5 pid cap req)))"
proof -
  let ?h = "payload_hash md5 pid cap req"
  note rc1 = replayed_job_id_cases[of pid k ?h t1] and rc2 = replayed_job_id_cases[of pid k ?h t2]
  have hk: "(Some k \<noteq> None \<and> Some k \<noteq> Some []) = True" using assms(2) by simp
  note sub' = sub[unfolded enqueue_request_def Let_def assms(1) hk if_True option.sel fst_conv snd_conv]
  consider (conf) e where "replayed_job_id pid k ?h t1 = Inl e" "res = Inl e" "t3 = t2"
    | (hit) i where "replayed_job_id pid k ?h t1 = Inr (Some i)" "res = Inr \<lparr>so_job_id = i, so_replayed = True\<rparr>" "t3 = t2"
    | (lost) "key_taken pid (Some k) t2" "t3 = t2"
        "res = (case replayed_job_id pid k ?h t2 of Inl e \<Rightarrow> Inl e | Inr None \<Rightarrow> Inl IntegrityError
              | Inr (Some i) \<Rightarrow> Inr \<lparr>so_job_id = i, so_replayed = True\<rparr>)"
    | (new) i where "\<not> key_taken pid (Some k) t2" "res = Inr \<lparr>so_job_id = i, so_replayed = False\<rparr>"
        "insert_job now pid cap req (Some ?h) tr lb (Some k) pr t2 = (i, t3)"
  proof (cases "replayed_job_id pid k ?h t1")
    case (Inl e)
    with sub' show ?thesis by (intro conf[of e]) simp_all
  next
    case (Inr o1)
    show ?thesis
    proof (cases o1)
      case (Some i)
      with sub' Inr show ?thesis by (intro hit[of i]) simp_all
    next
      case None
      show ?thesis
      proof (cases "key_taken pid (Some k) t2")
        case True
        with sub' Inr None show ?thesis
          by (intro lost) (simp_all split: sum.splits option.splits)
      next
        case False
        obtain i t where it: "insert_job now pid cap req (Some ?h) tr lb (Some k) pr t2 = (i, t)" by fastforce
        with sub' Inr None False show ?thesis by (intro new[of i]) simp_all
      qed
    qed
  qed
  then show ?thesis
  proof cases
    case conf
    then show ?thesis using rc1 kept assms(3) by fastforce
  next
    case hit
    then show ?thesis using rc1 kept assms(3) by fastforce
  next
    case lost
    then show ?thesis using rc2 assms(3) by (auto split: sum.splits option.splits)
  next
    case (new i)
    then show ?thesis
      using insert_job_idem[OF new(3) assms(3) new(1)] insert_job_rows(3)[OF new(3)] by fastforce
  qed
qed

definition demo_md5 :: "int \<times> string \<times> json \<Rightarrow> string" where
  "demo_md5 x = (case x of (p, c, j) \<Rightarrow> if j = JObj [] then ''empty'' else c)"

definition demo_table :: job_table where
  "demo_table = snd (insert_job 100 1 ''chat:deep'' [(''model'', JNull)] (Some ''chat:deep'') None None (Some ''k1'') 1
     \<lparr>jt_rows = [], jt_next = 1\<rparr>)"

theorem idempotent_submission_witness:
  "fst (enqueue_request demo_md5 200 True False 1 ''chat:deep'' [(''model'', JNull)] None None (Some ''k1'') 1 demo_table demo_table)
     = Inr \<lparr>so_job_id = 1, so_replayed = True\<rparr> \<and>
   fst (enqueue_request demo_md5 200 True False 1 ''chat:smart'' [(''model'', JNull)] None None (Some ''k1'') 1 demo_table demo_table)
     = Inl (IdempotencyConflict 1) \<and>
   idem_ok (fst (snd (enqueue_request demo_md5 200 True False 1 ''chat:deep'' [(''model'', JNull)] None None (Some ''k1'') 1 demo_table demo_table)))"
proof (intro conjI)
  show "fst (enqueue_request demo_md5 200 True False 1 ''chat:deep'' [(''model'', JNull)] None None (Some ''k1'') 1 demo_table demo_table)
     = Inr \<lparr>so_job_id = 1, so_replayed = True\<rparr>"
    "fst (enqueue_request demo_md5 200 True False 1 ''chat:smart'' [(''model'', JNull)] None None (Some ''k1'') 1 demo_table demo_table)
     = Inl (IdempotencyConflict 1)"
    by code_simp+
  have "idem_ok demo_table" by (simp add: demo_table_def insert_job_def idem_ok_def)
  then show "idem_ok (fst (snd (enqueue_request demo_md5 200 True False 1 ''chat:deep'' [(''model'', JNull)] None None (Some ''k1'') 1 demo_table demo_table)))"
    using idempotent_submission[OF refl, of "''k1''" demo_table demo_table demo_md5 200 True False 1 "''chat:deep''" "[(''model'', JNull)]" None None 1]
    by (metis list.simps(3) prod.collapse)
qed

text \<open>
  Without a key a submission either inserts one fresh pending job or hands back a job
  of the same project, capability and payload that is still pending or running and was
  created within the half-hour window; in the second case the table is untouched.
\<close>

theorem dedup_returns_only_a_live_twin:
  assumes "enqueue_request md5 now avail fails pid cap req tr lb None pr t1 t2 = (res, t3, avail')"
  shows "\<exists>i. res = Inr \<lparr>so_job_id = i, so_replayed = False\<rparr> \<and>
    ((\<exists>r \<in> set (jt_rows t1). j_id r = i \<and> j_project_id r = pid \<and> j_capability r = cap \<and>
        j_payload_hash r = Some (payload_hash md5 pid cap req) \<and> \<not> terminal (j_status r) \<and>
        now - 1800 < j_created_at r) \<and> t3 = t2 \<or>
     i = jt_next t2 \<and> (\<exists>r. jt_rows t3 = jt_rows t2 @ [r] \<and> j_id r = i \<and> j_status r = Pending \<and> j_request r = req))"
proof -
  let ?h = "payload_hash md5 pid cap req"
  have nk: "\<not> key_taken pid None t2" by (simp add: key_taken_def)
  consider (dup) i where "fst (find_inflight_duplicate now avail fails pid cap ?h t1) = Some i" "t3 = t2"
      "res = Inr \<lparr>so_job_id = i, so_replayed = False\<rparr>"
    | (new) i h tr' lb' pr' where "insert_job now pid cap req h tr' lb' None pr' t2 = (i, t3)"
      "res = Inr \<lparr>so_job_id = i, so_replayed = False\<rparr>"
    using assms nk unfolding enqueue_request_def Let_def
    by (auto split: sum.splits option.splits if_splits prod.splits)
  then show ?thesis
  proof cases
    case (dup i)
    let ?f = "filter (inflight_match now pid cap ?h) (jt_rows t1)"
    obtain r rs where f: "?f = r # rs" "i = j_id (arg_min_list (\<lambda>r. - j_created_at r) (r # rs))"
      using dup(1) by (auto simp: find_inflight_duplicate_def split: if_splits list.splits)
    have "arg_min_list (\<lambda>r. - j_created_at r) (r # rs) \<in> set ?f"
      unfolding f(1) by (rule arg_min_list_in) simp
    then show ?thesis
      using dup(2,3) f(2) by (fastforce simp: inflight_match_def terminal_def DEDUP_WINDOW_S_def)
  next
    case (new i)
    then show ?thesis using insert_job_rows(1,3)[OF new(1)] by blast
  qed
qed

theorem dedup_returns_only_a_live_twin_witness:
  "\<exists>i. fst (enqueue_request demo_md5 200 True False 1 ''chat:deep'' [(''model'', JNull)] None None None 1 demo_table demo_table)
     = Inr \<lparr>so_job_id = i, so_replayed = False\<rparr> \<and> i = 1"
proof -
  obtain res t3 av where s: "enqueue_request demo_md5 200 True False 1 ''chat:deep'' [(''model'', JNull)] None None None 1 demo_table demo_table = (res, t3, av)"
    by (cases "enqueue_request demo_md5 200 True False 1 ''chat:deep'' [(''model'', JNull)] None None None 1 demo_table demo_table")
  have "fst (enqueue_request demo_md5 200 True False 1 ''chat:deep'' [(''model'', JNull)] None None None 1 demo_table demo_table)
     = Inr \<lparr>so_job_id = 1, so_replayed = False\<rparr>"
    by code_simp
  with dedup_returns_only_a_live_twin[OF s] s show ?thesis by auto
qed

text \<open>
  Payloads that differ only in the order of the request's keys, or in null-valued
  fields of a message, have the same hash.
\<close>

theorem payload_hash_ignores_order_and_nulls:
  assumes "distinct (map fst req)" "mset req = mset req'"
  shows "payload_hash md5 pid cap req = payload_hash md5 pid cap req' \<and>
    payload_hash md5 pid cap ((''messages'', JList (ms @ JObj (a @ (k, JNull) # b) # ms')) # rest)
    = payload_hash md5 pid cap ((''messages'', JList (ms @ JObj (a @ b) # ms')) # rest)"
proof
  show "payload_hash md5 pid cap req = payload_hash md5 pid cap req'"
    by (rule payload_hash_perm[OF assms(2,1)])
  have wn: "without_null_message_fields ((''messages'', JList X) # rest)
      = (''messages'', JList (map drop_nulls X)) #
        map (\<lambda>(k, v). if k = ''messages'' then (k, JList (map drop_nulls X)) else (k, v)) rest" for X
    by (simp add: without_null_message_fields_def obj_get_def)
  have eq: "map drop_nulls (ms @ JObj (a @ (k, JNull) # b) # ms') = map drop_nulls (ms @ JObj (a @ b) # ms')"
    by (simp add: drop_nulls_insert)
  show "payload_hash md5 pid cap ((''messages'', JList (ms @ JObj (a @ (k, JNull) # b) # ms')) # rest)
    = payload_hash md5 pid cap ((''messages'', JList (ms @ JObj (a @ b) # ms')) # rest)"
    unfolding payload_hash_def wn eq by (rule refl)
qed

theorem payload_hash_ignores_order_and_nulls_witness:
  "payload_hash demo_md5 1 ''c'' [(''a'', JInt 1), (''b'', JNull)] = payload_hash demo_md5 1 ''c'' [(''b'', JNull), (''a'', JInt 1)]"
  using payload_hash_ignores_order_and_nulls[of "[(''a'', JInt 1), (''b'', JNull)]" "[(''b'', JNull), (''a'', JInt 1)]" demo_md5 1 "''c''"]
  by simp

end
