(* ===== verification/Job_Queue.thy ===== *)
theory Job_Queue
  imports Deep_Jobs Chains "HOL-Library.Product_Lexorder"
begin

text \<open>
  \<^verbatim>\<open>services/job_queue.py\<close> with the two plain-job operations of \<^verbatim>\<open>services/job_control.py\<close>
  it interleaves with. A worker claims pending rows, runs them outside any transaction and
  later writes one outcome, guarded by the \<^verbatim>\<open>started_at\<close> it claimed with; meanwhile rows may
  be reclaimed as stale, released at shutdown, cancelled or purged. The database clock, the
  rows locked by other transactions, the provider walk and the cancel flag a worker read are
  arguments. The environment variables have their default values.
\<close>

section \<open>Constants and backoff\<close>

definition MAX_RETRIES :: int where "MAX_RETRIES = 8"
definition MAX_CONTENT_RETRIES :: int where "MAX_CONTENT_RETRIES = 1"
definition STALE_RUNNING_S :: secs where "STALE_RUNNING_S = 25 * 60"
definition JOB_RETENTION_DAYS :: rat where "JOB_RETENTION_DAYS = 7"
definition JOB_RETENTION_BATCH :: nat where "JOB_RETENTION_BATCH = 5000"
definition TICK_BACKOFF_MAX_S :: secs where "TICK_BACKOFF_MAX_S = 30"
definition TICK_TRACEBACK_EVERY_S :: secs where "TICK_TRACEBACK_EVERY_S = 60"

definition backoff_s :: "int \<Rightarrow> int" where
  "backoff_s retry_count = min (5 * 2 ^ nat (max 0 (retry_count - 1))) 300"

record TickFailures =
  tf_consecutive :: nat
  tf_last_traceback :: "instant option"

definition tick_ok :: "TickFailures \<Rightarrow> TickFailures" where
  "tick_ok f = f\<lparr>tf_consecutive := 0\<rparr>"

text \<open>\<^verbatim>\<open>-inf\<close>, the initial mark, is \<open>None\<close>.\<close>

definition tick_failed :: "instant \<Rightarrow> TickFailures \<Rightarrow> (secs \<times> bool) \<times> TickFailures" where
  "tick_failed now f =
     (let n = tf_consecutive f + 1;
          full = (case tf_last_traceback f of None \<Rightarrow> True | Some t \<Rightarrow> now - t \<ge> TICK_TRACEBACK_EVERY_S)
      in ((min (2 ^ (n - 1)) TICK_BACKOFF_MAX_S, full),
          f\<lparr>tf_consecutive := n, tf_last_traceback := (if full then Some now else tf_last_traceback f)\<rparr>))"

section \<open>Cancelling a plain job\<close>

datatype cancel_state = CANCELLED_STATE | CANCEL_REQUESTED | ALREADY_TERMINAL

record CancelResult =
  cr_job_id :: int
  cr_state :: cancel_state
  cr_status :: job_status

definition cancel_flag :: "int \<Rightarrow> DeepJobRow list \<Rightarrow> bool" where
  "cancel_flag job_id rows = (case find_row j_id job_id rows of None \<Rightarrow> False | Some r \<Rightarrow> j_cancel_requested r)"

definition cancel_plain_row :: "instant \<Rightarrow> DeepJobRow \<Rightarrow> DeepJobRow" where
  "cancel_plain_row now r =
     (case j_status r of
        Pending \<Rightarrow> r\<lparr>j_status := Cancelled, j_completed_at := Some now, j_request := strip_audio (j_request r)\<rparr>
      | Running \<Rightarrow> r\<lparr>j_cancel_requested := True\<rparr>
      | _ \<Rightarrow> r)"

definition cancel_plain ::
  "instant \<Rightarrow> int \<Rightarrow> int \<Rightarrow> DeepJobRow list \<Rightarrow> CancelResult option \<times> DeepJobRow list" where
  "cancel_plain now job_id project_id rows =
     (case find (\<lambda>r. j_id r = job_id \<and> j_project_id r = project_id) rows of
        None \<Rightarrow> (None, rows)
      | Some r \<Rightarrow>
          (Some (case j_status r of
               Pending \<Rightarrow> \<lparr>cr_job_id = job_id, cr_state = CANCELLED_STATE, cr_status = Cancelled\<rparr>
             | Running \<Rightarrow> \<lparr>cr_job_id = job_id, cr_state = CANCEL_REQUESTED, cr_status = Running\<rparr>
             | s \<Rightarrow> \<lparr>cr_job_id = job_id, cr_state = ALREADY_TERMINAL, cr_status = s\<rparr>),
           update_where (\<lambda>r. j_id r = job_id \<and> j_project_id r = project_id) (cancel_plain_row now) rows))"

section \<open>Stale workers\<close>

definition stale_running :: "instant \<Rightarrow> DeepJobRow \<Rightarrow> bool" where
  "stale_running now r \<longleftrightarrow> j_status r = Running \<and> \<not> is_agent_job r \<and>
     (case j_started_at r of None \<Rightarrow> False | Some t \<Rightarrow> t < now - STALE_RUNNING_S)"

definition requeue_stale_row :: "instant \<Rightarrow> DeepJobRow \<Rightarrow> DeepJobRow" where
  "requeue_stale_row now r =
     (let give_up = j_retry_count r + 1 > MAX_RETRIES
      in r\<lparr>j_status := (if give_up then Error else Pending),
           j_error_message := (if give_up then Some ''gave up after repeated worker deaths mid-run''
                               else j_error_message r),
           j_completed_at := (if give_up then Some now else j_completed_at r),
           j_started_at := None,
           j_retry_count := j_retry_count r + 1\<rparr>)"

definition requeue_stale_running :: "instant \<Rightarrow> DeepJobRow list \<Rightarrow> DeepJobRow list" where
  "requeue_stale_running now rows = update_where (stale_running now) (requeue_stale_row now) rows"

section \<open>Claiming\<close>

definition claimable :: "instant \<Rightarrow> DeepJobRow \<Rightarrow> bool" where
  "claimable now r \<longleftrightarrow> j_status r = Pending \<and> \<not> is_agent_job r \<and>
     (case j_run_after r of None \<Rightarrow> True | Some t \<Rightarrow> t < now)"

text \<open>\<open>locked\<close>: the rows other transactions hold, which \<^verbatim>\<open>SKIP LOCKED\<close> passes over.\<close>

definition claim_ids :: "instant \<Rightarrow> nat \<Rightarrow> int set \<Rightarrow> DeepJobRow list \<Rightarrow> int list" where
  "claim_ids now limit locked rows =
     map j_id (take limit (sort_key (\<lambda>r. (j_priority r, j_created_at r))
       (filter (\<lambda>r. claimable now r \<and> j_id r \<notin> locked) rows)))"

definition claim_row :: "instant \<Rightarrow> DeepJobRow \<Rightarrow> DeepJobRow" where
  "claim_row now r = r\<lparr>j_status := Running, j_started_at := Some now\<rparr>"

definition claim_batch ::
  "instant \<Rightarrow> int \<Rightarrow> int set \<Rightarrow> DeepJobRow list \<Rightarrow> DeepJobRow list \<times> DeepJobRow list" where
  "claim_batch now limit locked rows =
     (if limit \<le> 0 then ([], rows)
      else let ids = claim_ids now (nat limit) locked rows;
               rows' = update_where (\<lambda>r. j_id r \<in> set ids) (claim_row now) rows
           in (filter (\<lambda>r. j_id r \<in> set ids) rows', rows'))"

section \<open>Outcomes\<close>

definition requeue_row :: "instant \<Rightarrow> int \<Rightarrow> DeepJobRow \<Rightarrow> DeepJobRow" where
  "requeue_row now rc r = r\<lparr>j_status := Pending, j_started_at := None, j_retry_count := rc,
     j_run_after := Some (now + of_int (backoff_s rc))\<rparr>"

text \<open>\<open>flag\<close> is the cancel flag as the worker read it; another transaction may set it later.\<close>

definition requeue_or_fail ::
  "instant \<Rightarrow> bool \<Rightarrow> int \<Rightarrow> int \<Rightarrow> string \<Rightarrow> instant option \<Rightarrow> int option
   \<Rightarrow> DeepJobRow list \<Rightarrow> DeepJobRow list" where
  "requeue_or_fail now flag job_id retry_count reason expected max_retries rows =
     (if flag then finish now job_id Cancelled None None None expected rows
      else if retry_count + 1 > opt_or max_retries MAX_RETRIES
      then finish now job_id Error None None
             (Some (reason @ '' (gave up after '' @ show_int retry_count @ '' retries)'')) expected rows
      else update_where (\<lambda>r. j_id r = job_id \<and> claim_matches expected r)
             (requeue_row now (retry_count + 1)) rows)"

definition release_claim_row :: "instant \<Rightarrow> DeepJobRow \<Rightarrow> DeepJobRow" where
  "release_claim_row now r = r\<lparr>j_status := Pending, j_started_at := None, j_run_after := Some now\<rparr>"

definition held_by :: "int \<Rightarrow> instant \<Rightarrow> DeepJobRow \<Rightarrow> bool" where
  "held_by job_id t r \<longleftrightarrow> j_id r = job_id \<and> j_status r = Running \<and> j_started_at r = Some t"

definition release_claim ::
  "instant \<Rightarrow> int \<Rightarrow> instant option \<Rightarrow> DeepJobRow list \<Rightarrow> bool \<times> DeepJobRow list" where
  "release_claim now job_id started_at rows = (case started_at of
      None \<Rightarrow> (False, rows)
    | Some t \<Rightarrow> (list_ex (held_by job_id t) rows, update_where (held_by job_id t) (release_claim_row now) rows))"

text \<open>\<open>fails\<close>: the jobs whose release raises; their rows stay for the stale sweep.\<close>

fun release_claimed_jobs ::
  "instant \<Rightarrow> int set \<Rightarrow> (int \<times> instant option) list \<Rightarrow> DeepJobRow list \<Rightarrow> nat \<times> DeepJobRow list" where
  "release_claimed_jobs now fails [] rows = (0, rows)"
| "release_claimed_jobs now fails ((i, t) # held) rows =
     (if i \<in> fails then release_claimed_jobs now fails held rows
      else case release_claim now i t rows of
             (ok, rows') \<Rightarrow> (case release_claimed_jobs now fails held rows' of
                (n, rows'') \<Rightarrow> ((if ok then n + 1 else n), rows'')))"

definition em_dash :: string where "em_dash = [CHR 0xE2, CHR 0x80, CHR 0x94]"

definition CAP_MESSAGES :: "(string \<times> string) list" where
  "CAP_MESSAGES =
     [(''daily'', ''daily budget cap reached '' @ em_dash @ '' retry after 00:00 UTC''),
      (''monthly'', ''monthly budget cap reached '' @ em_dash @ '' retry after the 1st of next month, 00:00 UTC'')]"

definition cap_message :: "string \<Rightarrow> string" where
  "cap_message window = opt_or (map_of CAP_MESSAGES window) (the (map_of CAP_MESSAGES ''daily''))"

text \<open>
  What the provider walk of \<^verbatim>\<open>run_chat\<close> or \<^verbatim>\<open>run_transcribe\<close> came to. An optional field is
  \<^verbatim>\<open>JNull\<close> where the outcome has none; the counters of a transcription are 0.
\<close>

record walk_answer =
  wa_text :: string
  wa_provider :: string
  wa_model :: string
  wa_model_served :: json
  wa_tokens_in :: int
  wa_tokens_out :: int
  wa_cost_usd :: usd
  wa_latency_ms :: int
  wa_key_label :: string
  wa_request_id :: string
  wa_cache_read_tokens :: int
  wa_cache_write_tokens :: int
  wa_vision_type :: json
  wa_vision_format :: json
  wa_tool_calls :: json
  wa_finish_reason :: json
  wa_refusal :: json

datatype walk_outcome =
    Answered walk_answer
  | WalkCancelled
  | BudgetExhausted string
  | ContentFailed
  | NoProvider
  | UnknownModelRaised string
  | Raised bool string string

definition result_meta_of :: "walk_answer \<Rightarrow> json" where
  "result_meta_of a = JObj [
     (''provider'', JStr (wa_provider a)), (''model'', JStr (wa_model a)),
     (''model_served'', wa_model_served a),
     (''tokens_in'', JInt (wa_tokens_in a)), (''tokens_out'', JInt (wa_tokens_out a)),
     (''cost_usd'', JFloat (wa_cost_usd a)), (''latency_ms'', JInt (wa_latency_ms a)),
     (''key_label'', JStr (wa_key_label a)), (''request_id'', JStr (wa_request_id a)),
     (''cache_read_tokens'', JInt (wa_cache_read_tokens a)),
     (''cache_write_tokens'', JInt (wa_cache_write_tokens a)),
     (''vision_type'', wa_vision_type a), (''vision_format'', wa_vision_format a),
     (''tool_calls'', wa_tool_calls a), (''finish_reason'', wa_finish_reason a),
     (''refusal'', wa_refusal a)]"

definition paid_only_retry :: "DeepJobRow \<Rightarrow> bool" where
  "paid_only_retry row \<longleftrightarrow> j_retry_count row \<ge> MAX_RETRIES - 1 \<and> has_paid_tail (j_capability row)"

text \<open>
  \<^verbatim>\<open>_execute\<close> of the claimed snapshot \<open>row\<close>: \<open>walk\<close> is the provider walk, given whether it
  may use paid keys only; the first argument of \<open>Raised\<close> says that the exception is one of
  \<^verbatim>\<open>_DETERMINISTIC_ERRORS\<close>. Every branch makes exactly one guarded write.
\<close>

definition execute ::
  "instant \<Rightarrow> bool \<Rightarrow> (DeepJobRow \<Rightarrow> bool \<Rightarrow> walk_outcome) \<Rightarrow> bool \<Rightarrow> DeepJobRow
   \<Rightarrow> DeepJobRow list \<Rightarrow> DeepJobRow list" where
  "execute now project_exists walk flag row rows =
     (let jid = j_id row; claim = j_started_at row; rc = j_retry_count row
      in if \<not> project_exists
         then finish now jid Error None None (Some ''project no longer exists'') claim rows
         else if j_cancel_requested row
         then finish now jid Cancelled None None None claim rows
         else case walk row (paid_only_retry row) of
             UnknownModelRaised msg \<Rightarrow> finish now jid Error None None (Some msg) claim rows
           | Raised deterministic type_name msg \<Rightarrow>
               if deterministic
               then finish now jid Error None None
                      (Some (''invalid job ('' @ type_name @ ''): '' @ msg)) claim rows
               else requeue_or_fail now flag jid rc (''run failed: '' @ msg) claim None rows
           | WalkCancelled \<Rightarrow> finish now jid Cancelled None None None claim rows
           | BudgetExhausted window \<Rightarrow>
               finish now jid Error None None (Some (cap_message window)) claim rows
           | ContentFailed \<Rightarrow>
               requeue_or_fail now flag jid rc
                 ''all providers returned empty/invalid JSON for this prompt'' claim
                 (Some MAX_CONTENT_RETRIES) rows
           | NoProvider \<Rightarrow>
               requeue_or_fail now flag jid rc
                 (''no provider available for '' @ j_capability row) claim None rows
           | Answered a \<Rightarrow>
               finish now jid Done (Some (wa_text a)) (Some (result_meta_of a)) None claim rows)"

section \<open>Retention\<close>

definition purgeable :: "instant \<Rightarrow> DeepJobRow \<Rightarrow> bool" where
  "purgeable now r \<longleftrightarrow> terminal (j_status r) \<and>
     (case j_completed_at r of None \<Rightarrow> False | Some t \<Rightarrow> t < now - JOB_RETENTION_DAYS * 86400)"

definition purge_finished_jobs :: "instant \<Rightarrow> DeepJobRow list \<Rightarrow> nat \<times> DeepJobRow list" where
  "purge_finished_jobs now rows =
     (let ids = map j_id (take JOB_RETENTION_BATCH (filter (purgeable now) rows))
      in (length (filter (\<lambda>r. j_id r \<in> set ids) rows), filter (\<lambda>r. j_id r \<notin> set ids) rows))"

section \<open>One dispatch pass\<close>

text \<open>
  \<^verbatim>\<open>drain_once\<close>: the claimed jobs run concurrently and their writes land in some order;
  \<open>finished\<close> lists them in that order, each with its clock, project lookup, walk and flag.
  The fold ignores an entry that is not a claimed row.
\<close>

definition drain_once ::
  "instant \<Rightarrow> int \<Rightarrow> int set \<Rightarrow> (int \<times> instant \<times> bool \<times> (DeepJobRow \<Rightarrow> bool \<Rightarrow> walk_outcome) \<times> bool) list
   \<Rightarrow> DeepJobRow list \<Rightarrow> nat \<times> DeepJobRow list" where
  "drain_once now limit locked finished rows =
     (case claim_batch now limit locked (requeue_stale_running now rows) of
        (claimed, rows') \<Rightarrow>
          (length claimed,
           fold (\<lambda>(i, t, exists, walk, flag) rs. case find_row j_id i claimed of
                   None \<Rightarrow> rs | Some row \<Rightarrow> execute t exists walk flag row rs) finished rows'))"

end
