(* ===== verification/Job_World.thy ===== *)
theory Job_World
  imports Job_Queue
begin

text \<open>
  The job table under concurrent workers, as a transition system: clock ticks, submissions,
  claims, outcomes, deaths of workers, the stale sweep, releases at shutdown, cancellations
  and the purge, in any order. \<open>jw_claims\<close> holds the snapshot of every claimed job whose
  worker has not written yet; \<open>jw_issued\<close> records every (job, \<^verbatim>\<open>started_at\<close>) pair a claim ever
  handed out. The invariant is proved once through the locale \<open>invariant_system\<close>.
\<close>

section \<open>States and steps\<close>

record jobworld =
  jw_now :: instant
  jw_table :: job_table
  jw_claims :: "DeepJobRow list"
  jw_issued :: "(int \<times> instant) list"

abbreviation jw_rows :: "jobworld \<Rightarrow> DeepJobRow list" where
  "jw_rows w \<equiv> jt_rows (jw_table w)"

definition set_rows :: "DeepJobRow list \<Rightarrow> jobworld \<Rightarrow> jobworld" where
  "set_rows rows w = w\<lparr>jw_table := (jw_table w)\<lparr>jt_rows := rows\<rparr>\<rparr>"

inductive job_step :: "jobworld \<Rightarrow> jobworld \<Rightarrow> bool" where
  tick: "jw_now w \<le> now' \<Longrightarrow> job_step w (w\<lparr>jw_now := now'\<rparr>)"
| submit: "enqueue_request md5 (jw_now w) avail fails pid cap req tr lb key pr t1 (jw_table w) = (res, t', av) \<Longrightarrow>
     job_step w (w\<lparr>jw_table := t'\<rparr>)"
| claim: "claim_batch (jw_now w) limit locked (jw_rows w) = (cl, rows') \<Longrightarrow>
     job_step w (set_rows rows' w\<lparr>jw_claims := jw_claims w @ cl,
       jw_issued := jw_issued w @ map (\<lambda>c. (j_id c, jw_now w)) cl\<rparr>)"
| outcome: "c \<in> set (jw_claims w) \<Longrightarrow>
     job_step w (set_rows (execute (jw_now w) ex walk flag c (jw_rows w)) w\<lparr>jw_claims := remove1 c (jw_claims w)\<rparr>)"
| death: "c \<in> set (jw_claims w) \<Longrightarrow> job_step w (w\<lparr>jw_claims := remove1 c (jw_claims w)\<rparr>)"
| stale: "job_step w (set_rows (requeue_stale_running (jw_now w) (jw_rows w)) w)"
| release: "(i, t) \<in> set (jw_issued w) \<Longrightarrow>
     job_step w (set_rows (snd (release_claim (jw_now w) i (Some t) (jw_rows w))) w)"
| cancel: "job_step w (set_rows (snd (cancel_plain (jw_now w) i pid (jw_rows w))) w)"
| purge: "job_step w (set_rows (snd (purge_finished_jobs (jw_now w) (jw_rows w))) w)"

definition job_init :: "jobworld \<Rightarrow> bool" where
  "job_init w \<longleftrightarrow> jw_rows w = [] \<and> jw_claims w = [] \<and> jw_issued w = []"

section \<open>Invariant\<close>

text \<open>
  A running row carries the newest \<^verbatim>\<open>started_at\<close> ever issued for it. A pending row carries
  none, and every issued one lies in the past or not after \<^verbatim>\<open>run_after\<close>, so the next claim
  issues a strictly newer one. A row that matches an outstanding claim is running.
\<close>

definition row_ok :: "instant \<Rightarrow> (int \<times> instant) list \<Rightarrow> DeepJobRow \<Rightarrow> bool" where
  "row_ok now issued r \<longleftrightarrow> (case j_status r of
      Running \<Rightarrow> (\<exists>t. j_started_at r = Some t \<and> (\<forall>t'. (j_id r, t') \<in> set issued \<longrightarrow> t' \<le> t)) \<and>
                 0 \<le> j_retry_count r \<and> j_retry_count r \<le> MAX_RETRIES
    | Pending \<Rightarrow> j_started_at r = None \<and> 0 \<le> j_retry_count r \<and> j_retry_count r \<le> MAX_RETRIES \<and>
                 (\<forall>t'. (j_id r, t') \<in> set issued \<longrightarrow> t' < now \<or> (\<exists>a. j_run_after r = Some a \<and> t' \<le> a))
    | _ \<Rightarrow> j_completed_at r \<noteq> None)"

definition row_claims :: "DeepJobRow list \<Rightarrow> DeepJobRow \<Rightarrow> bool" where
  "row_claims claims r \<longleftrightarrow> (\<forall>c \<in> set claims. j_id c = j_id r \<and> j_started_at c = j_started_at r \<longrightarrow>
     j_status r = Running \<and> j_retry_count c = j_retry_count r)"

definition claim_token :: "DeepJobRow \<Rightarrow> int \<times> instant option" where
  "claim_token r = (j_id r, j_started_at r)"

definition tokens_ok :: "jobworld \<Rightarrow> bool" where
  "tokens_ok w \<longleftrightarrow> (\<forall>(i, t) \<in> set (jw_issued w). t \<le> jw_now w \<and> i < jt_next (jw_table w)) \<and>
     (\<forall>c \<in> set (jw_claims w). \<exists>t. j_started_at c = Some t \<and> (j_id c, t) \<in> set (jw_issued w)) \<and>
     distinct (map claim_token (jw_claims w))"

definition job_inv :: "jobworld \<Rightarrow> bool" where
  "job_inv w \<longleftrightarrow> ids_ok (jw_table w) \<and> tokens_ok w \<and>
     (\<forall>r \<in> set (jw_rows w). row_ok (jw_now w) (jw_issued w) r \<and> row_claims (jw_claims w) r)"

lemmas job_inv_defs = job_inv_def tokens_ok_def row_ok_def row_claims_def

lemma set_rows_sel [simp]:
  "jw_now (set_rows rows w) = jw_now w" "jw_table (set_rows rows w) = (jw_table w)\<lparr>jt_rows := rows\<rparr>"
  "jw_claims (set_rows rows w) = jw_claims w" "jw_issued (set_rows rows w) = jw_issued w"
  by (simp_all add: set_rows_def)

lemma job_invD:
  assumes "job_inv w"
  shows "ids_ok (jw_table w)" "tokens_ok w"
    "r \<in> set (jw_rows w) \<Longrightarrow> row_ok (jw_now w) (jw_issued w) r"
    "r \<in> set (jw_rows w) \<Longrightarrow> row_claims (jw_claims w) r"
  using assms unfolding job_inv_def by blast+

lemma row_claims_subset: "row_claims cs r \<Longrightarrow> set cs' \<subseteq> set cs \<Longrightarrow> row_claims cs' r"
  unfolding row_claims_def by blast

lemma token_remove1:
  assumes "distinct (map claim_token cs)" "c \<in> set cs" "c' \<in> set (remove1 c cs)"
  shows "claim_token c' \<noteq> claim_token c"
  using assms by (auto simp: distinct_map inj_on_def)

lemma ids_ok_update:
  assumes "ids_ok t" "\<And>r. j_id (f r) = j_id r"
  shows "ids_ok (t\<lparr>jt_rows := update_where P f (jt_rows t)\<rparr>)"
proof -
  have "distinct (map j_id (update_where P f (jt_rows t)))"
    using assms row_update.distinct_kept[OF row_update.intro] unfolding ids_ok_def by blast
  moreover have "j_id x < jt_next t" if x: "x \<in> set (update_where P f (jt_rows t))" for x
  proof -
    from x obtain r where "r \<in> set (jt_rows t)" "x = (if P r then f r else r)"
      unfolding set_update_where by blast
    then show ?thesis using assms unfolding ids_ok_def by simp
  qed
  ultimately show ?thesis unfolding ids_ok_def by simp
qed

text \<open>Every write of the queue but the insert and the purge is an update of this kind.\<close>

lemma job_inv_update:
  assumes "job_inv w" "\<And>r. j_id (f r) = j_id r"
    and "\<And>r. r \<in> set (jw_rows w) \<Longrightarrow> P r \<Longrightarrow> row_ok (jw_now w) (jw_issued w) (f r) \<and> row_claims claims (f r)"
    and "set claims \<subseteq> set (jw_claims w)" "distinct (map claim_token claims)"
  shows "job_inv (set_rows (update_where P f (jw_rows w)) w\<lparr>jw_claims := claims\<rparr>)"
proof -
  have "row_ok (jw_now w) (jw_issued w) x \<and> row_claims claims x"
    if x: "x \<in> set (update_where P f (jw_rows w))" for x
  proof -
    from x obtain r where r: "r \<in> set (jw_rows w)" "x = (if P r then f r else r)"
      unfolding set_update_where by blast
    show ?thesis
      using assms(3)[OF r(1)] job_invD(3,4)[OF assms(1) r(1)] assms(4) row_claims_subset r(2) by auto
  qed
  moreover have "tokens_ok (set_rows (update_where P f (jw_rows w)) w\<lparr>jw_claims := claims\<rparr>)"
    using job_invD(2)[OF assms(1)] assms(4,5) unfolding tokens_ok_def by auto
  ultimately show ?thesis
    using ids_ok_update[OF job_invD(1)[OF assms(1)], of f P] assms(2) unfolding job_inv_def by simp
qed

lemma job_inv_update_same:
  assumes "job_inv w" "\<And>r. j_id (f r) = j_id r"
    and "\<And>r. r \<in> set (jw_rows w) \<Longrightarrow> P r \<Longrightarrow> row_ok (jw_now w) (jw_issued w) (f r) \<and> row_claims (jw_claims w) (f r)"
  shows "job_inv (set_rows (update_where P f (jw_rows w)) w)"
  using job_inv_update[OF assms(1,2), of P "jw_claims w"] assms(3) job_invD(2)[OF assms(1)]
  by (simp add: set_rows_def tokens_ok_def)

section \<open>Every step keeps it\<close>

lemma terminal_simps [simp]:
  "terminal Done" "terminal Error" "terminal Cancelled" "\<not> terminal Pending" "\<not> terminal Running"
  by (simp_all add: terminal_def)

text \<open>What a worker writes: one terminal state, or a bounded requeue.\<close>

lemma execute_cases:
  obtains (finished) st a b e where "terminal st"
      "execute now ex walk flag c rows = finish now (j_id c) st a b e (j_started_at c) rows"
    | (requeued) "j_retry_count c + 1 \<le> MAX_RETRIES"
      "execute now ex walk flag c rows =
        update_where (\<lambda>r. j_id r = j_id c \<and> claim_matches (j_started_at c) r)
          (requeue_row now (j_retry_count c + 1)) rows"
proof -
  have rq: thesis if "mx = None \<or> mx = Some MAX_CONTENT_RETRIES"
    "execute now ex walk flag c rows
     = requeue_or_fail now flag (j_id c) (j_retry_count c) reason (j_started_at c) mx rows" for mx reason
    using that finished[of Cancelled None None None] finished[of Error None None] requeued
    by (auto simp: requeue_or_fail_def opt_or_def MAX_CONTENT_RETRIES_def MAX_RETRIES_def split: if_splits)
  have fin: thesis if "execute now ex walk flag c rows = finish now (j_id c) st a b e (j_started_at c) rows"
    "terminal st" for st a b e using finished[OF that(2,1)] .
  show thesis
  proof (cases "ex \<and> \<not> j_cancel_requested c")
    case False
    show thesis
    proof (cases ex)
      case True
      with False show thesis by (intro fin[of Cancelled None None None]) (simp_all add: execute_def)
    qed (rule fin[of Error None None "Some ''project no longer exists''"], simp_all add: execute_def)
  next
    case True
    show thesis
    proof (cases "walk c (paid_only_retry c)")
      case (Answered a)
      with True show thesis by (intro fin[of Done]) (simp_all add: execute_def)
    next
      case WalkCancelled
      with True show thesis by (intro fin[of Cancelled]) (simp_all add: execute_def)
    next
      case (BudgetExhausted x)
      with True show thesis by (intro fin[of Error]) (simp_all add: execute_def)
    next
      case ContentFailed
      with True show thesis by (intro rq[of "Some MAX_CONTENT_RETRIES"]) (simp_all add: execute_def)
    next
      case NoProvider
      with True show thesis by (intro rq[of None]) (simp_all add: execute_def)
    next
      case (UnknownModelRaised x)
      with True show thesis by (intro fin[of Error]) (simp_all add: execute_def)
    next
      case (Raised d tn msg)
      show thesis
      proof (cases d)
        case d: True
        with True Raised show thesis by (intro fin[of Error]) (simp_all add: execute_def)
      next
        case False
        with True Raised show thesis by (intro rq[of None]) (simp_all add: execute_def)
      qed
    qed
  qed
qed

lemma claim_match:
  assumes "job_inv w" "c \<in> set (jw_claims w)" "r \<in> set (jw_rows w)"
    "j_id r = j_id c" "claim_matches (j_started_at c) r"
  shows "j_started_at r = j_started_at c" "j_status r = Running" "j_retry_count r = j_retry_count c"
proof -
  obtain t where "j_started_at c = Some t"
    using job_invD(2)[OF assms(1)] assms(2) unfolding tokens_ok_def by blast
  then show s: "j_started_at r = j_started_at c" using assms(5) by (simp add: claim_matches_def)
  then show "j_status r = Running" "j_retry_count r = j_retry_count c"
    using job_invD(4)[OF assms(1,3)] assms(2,4) unfolding row_claims_def by simp_all
qed

lemma finish_row_simps [simp]:
  "j_id (finish_row now st a b e r) = j_id r" "j_status (finish_row now st a b e r) = st"
  "j_started_at (finish_row now st a b e r) = j_started_at r"
  "j_completed_at (finish_row now st a b e r) = Some now"
  "j_retry_count (finish_row now st a b e r) = j_retry_count r"
  by (simp_all add: finish_row_def)

lemma requeue_row_simps [simp]:
  "j_id (requeue_row now rc r) = j_id r" "j_status (requeue_row now rc r) = Pending"
  "j_started_at (requeue_row now rc r) = None" "j_retry_count (requeue_row now rc r) = rc"
  "j_run_after (requeue_row now rc r) = Some (now + of_int (backoff_s rc))"
  by (simp_all add: requeue_row_def)

lemma release_claim_row_simps [simp]:
  "j_id (release_claim_row now r) = j_id r" "j_status (release_claim_row now r) = Pending"
  "j_started_at (release_claim_row now r) = None" "j_retry_count (release_claim_row now r) = j_retry_count r"
  "j_run_after (release_claim_row now r) = Some now"
  by (simp_all add: release_claim_row_def)

lemma claim_row_simps [simp]:
  "j_id (claim_row now r) = j_id r" "j_status (claim_row now r) = Running"
  "j_started_at (claim_row now r) = Some now" "j_retry_count (claim_row now r) = j_retry_count r"
  by (simp_all add: claim_row_def)

text \<open>The queue's writes keep the primary key.\<close>

interpretation finish_write: row_update j_id "finish_row now st a b e" for now st a b e
  by unfold_locales simp

interpretation requeue_write: row_update j_id "requeue_row now rc" for now rc
  by unfold_locales simp

interpretation release_write: row_update j_id "release_claim_row now" for now
  by unfold_locales simp

interpretation claim_write: row_update j_id "claim_row now" for now
  by unfold_locales simp

lemma backoff_s_bounds: "5 \<le> backoff_s n" "backoff_s n \<le> 300"
  by (simp_all add: backoff_s_def)

lemma row_ok_terminal: "terminal (j_status r) \<Longrightarrow> row_ok now is r \<longleftrightarrow> j_completed_at r \<noteq> None"
  by (cases "j_status r") (simp_all add: row_ok_def)

lemma row_claims_unstarted:
  assumes "tokens_ok w" "j_started_at r = None" "set cs \<subseteq> set (jw_claims w)"
  shows "row_claims cs r"
  using assms unfolding row_claims_def tokens_ok_def by fastforce

lemma issued_past: "tokens_ok w \<Longrightarrow> (i, t) \<in> set (jw_issued w) \<Longrightarrow> t \<le> jw_now w"
  unfolding tokens_ok_def by blast

lemma outcome_inv:
  assumes inv: "job_inv w" and c: "c \<in> set (jw_claims w)"
  shows "job_inv (set_rows (execute (jw_now w) ex walk flag c (jw_rows w)) w\<lparr>jw_claims := remove1 c (jw_claims w)\<rparr>)"
proof (rule execute_cases[of "jw_now w" ex walk flag c "jw_rows w"])
  let ?P = "\<lambda>r. j_id r = j_id c \<and> claim_matches (j_started_at c) r" and ?cs = "remove1 c (jw_claims w)"
  have tok: "tokens_ok w" by (rule job_invD(2)[OF inv])
  then have d: "distinct (map claim_token (jw_claims w))" unfolding tokens_ok_def by blast
  have sub: "set ?cs \<subseteq> set (jw_claims w)" by (rule set_remove1_subset)
  have d': "distinct (map claim_token ?cs)" using d by (auto simp: distinct_map inj_on_def)
  {
    fix st a b e assume t: "terminal st"
      and eq: "execute (jw_now w) ex walk flag c (jw_rows w) = finish (jw_now w) (j_id c) st a b e (j_started_at c) (jw_rows w)"
    have "row_claims ?cs (finish_row (jw_now w) st a b e r)" if r: "r \<in> set (jw_rows w)" "?P r" for r
      using claim_match(1)[OF inv c r(1)] r(2) token_remove1[OF d c]
      unfolding row_claims_def claim_token_def by (metis finish_row_simps(1,3))
    then show ?thesis
      unfolding eq finish_def using t by (intro job_inv_update[OF inv _ _ sub d']) (auto simp: row_ok_terminal)
  }
  assume rc: "j_retry_count c + 1 \<le> MAX_RETRIES"
    and eq: "execute (jw_now w) ex walk flag c (jw_rows w) = update_where ?P (requeue_row (jw_now w) (j_retry_count c + 1)) (jw_rows w)"
  show ?thesis
    unfolding eq
  proof (rule job_inv_update[OF inv _ _ sub d'])
    fix r assume r: "r \<in> set (jw_rows w)" "?P r"
    have "0 \<le> j_retry_count c"
      using claim_match[OF inv c r(1)] r job_invD(3)[OF inv r(1)] by (simp add: row_ok_def)
    moreover have "t' \<le> jw_now w + rat_of_int (backoff_s (j_retry_count c + 1))"
      if "(j_id r, t') \<in> set (jw_issued w)" for t'
    proof -
      have "0 \<le> rat_of_int (backoff_s (j_retry_count c + 1))" using backoff_s_bounds(1)[of "j_retry_count c + 1"] by simp
      with issued_past[OF tok that] show ?thesis by linarith
    qed
    ultimately show "row_ok (jw_now w) (jw_issued w) (requeue_row (jw_now w) (j_retry_count c + 1) r) \<and>
        row_claims ?cs (requeue_row (jw_now w) (j_retry_count c + 1) r)"
      using rc row_claims_unstarted[OF tok _ sub] by (simp add: row_ok_def)
  qed simp
qed

lemma ids_unique:
  assumes "ids_ok t" "r \<in> set (jt_rows t)" "r' \<in> set (jt_rows t)" "j_id r = j_id r'"
  shows "r = r'"
  using assms unfolding ids_ok_def distinct_map by (blast dest: inj_onD)

lemma claim_ids_mem:
  assumes "ids_ok t" "r \<in> set (jt_rows t)" "j_id r \<in> set (claim_ids now n locked (jt_rows t))"
  shows "claimable now r" "j_id r \<notin> locked"
proof -
  obtain r' where "r' \<in> set (sort_key (\<lambda>r. (j_priority r, j_created_at r))
      (filter (\<lambda>r. claimable now r \<and> j_id r \<notin> locked) (jt_rows t)))" "j_id r' = j_id r"
    using assms(3) unfolding claim_ids_def set_map by (metis (no_types, lifting) imageE in_set_takeD)
  then have "r' \<in> set (jt_rows t)" "claimable now r'" "j_id r' \<notin> locked" "j_id r' = j_id r" by simp_all
  with ids_unique[OF assms(1) _ assms(2)] show "claimable now r" "j_id r \<notin> locked" by blast+
qed

lemma claim_batch_claimed:
  assumes "ids_ok t" "claim_batch now limit locked (jt_rows t) = (cl, rows')" "c \<in> set cl"
  obtains r where "r \<in> set (jt_rows t)" "claimable now r" "j_id r \<notin> locked" "c = claim_row now r"
proof (cases "limit \<le> 0")
  case False
  let ?ids = "claim_ids now (nat limit) locked (jt_rows t)"
  have "c \<in> set (update_where (\<lambda>r. j_id r \<in> set ?ids) (claim_row now) (jt_rows t))" "j_id c \<in> set ?ids"
    using assms(2,3) False by (auto simp: claim_batch_def Let_def)
  then obtain r where "r \<in> set (jt_rows t)" "j_id r \<in> set ?ids" "c = claim_row now r"
    unfolding set_update_where by (auto split: if_splits)
  with claim_ids_mem[OF assms(1)] that show thesis by metis
qed (use assms in \<open>simp add: claim_batch_def\<close>)

lemma claimable_tokens:
  assumes "job_inv w" "r \<in> set (jw_rows w)" "claimable (jw_now w) r" "(j_id r, t) \<in> set (jw_issued w)"
  shows "t < jw_now w"
proof -
  have st: "j_status r = Pending" using assms(3) by (simp add: claimable_def)
  have ra: "a < jw_now w" if "j_run_after r = Some a" for a
    using assms(3) that by (simp add: claimable_def)
  from job_invD(3)[OF assms(1,2)] st assms(4)
  have "t < jw_now w \<or> (\<exists>a. j_run_after r = Some a \<and> t \<le> a)" by (simp add: row_ok_def)
  with ra show ?thesis by fastforce
qed

lemma claim_batch_rows:
  assumes "claim_batch now limit locked rows = (cl, rows')"
  obtains ids where "rows' = update_where (\<lambda>r. j_id r \<in> set ids) (claim_row now) rows"
    "cl = filter (\<lambda>r. j_id r \<in> set ids) rows'"
    "ids = [] \<or> ids = claim_ids now (nat limit) locked rows"
proof (cases "limit \<le> 0")
  case True
  with assms show thesis by (intro that[of "[]"]) (auto simp: claim_batch_def update_where_def)
next
  case False
  with assms show thesis by (intro that[of "claim_ids now (nat limit) locked rows"]) (auto simp: claim_batch_def Let_def)
qed

lemma claim_inv:
  assumes inv: "job_inv w" and cb: "claim_batch (jw_now w) limit locked (jw_rows w) = (cl, rows')"
  shows "job_inv (set_rows rows' w\<lparr>jw_claims := jw_claims w @ cl,
           jw_issued := jw_issued w @ map (\<lambda>c. (j_id c, jw_now w)) cl\<rparr>)"
    (is "job_inv ?w")
proof -
  let ?now = "jw_now w" and ?is = "jw_issued w @ map (\<lambda>c. (j_id c, jw_now w)) cl" and ?cs = "jw_claims w @ cl"
  have ids: "ids_ok (jw_table w)" and tok: "tokens_ok w" using job_invD[OF inv] by blast+
  obtain I where rows': "rows' = update_where (\<lambda>r. j_id r \<in> set I) (claim_row ?now) (jw_rows w)"
    and cl: "cl = filter (\<lambda>r. j_id r \<in> set I) rows'" using claim_batch_rows[OF cb] by blast
  have new: "\<exists>r \<in> set (jw_rows w). claimable ?now r \<and> c = claim_row ?now r" if "c \<in> set cl" for c
    using claim_batch_claimed[OF ids cb that] by blast
  have old: "t < ?now" if "c \<in> set cl" "(j_id c, t) \<in> set (jw_issued w)" for c t
    using new[OF that(1)] claimable_tokens[OF inv] that(2) by auto
  have ids': "ids_ok ((jw_table w)\<lparr>jt_rows := rows'\<rparr>)" unfolding rows' by (rule ids_ok_update[OF ids]) simp
  have same: "c = r" if "c \<in> set cl" "r \<in> set rows'" "j_id c = j_id r" for c r
    using ids_unique[OF ids', of c r] that cl by simp
  have row: "row_ok ?now ?is r \<and> row_claims ?cs r" if r: "r \<in> set rows'" for r
  proof (cases "j_id r \<in> set I")
    case True
    then have rc: "r \<in> set cl" using r cl by simp
    obtain r0 where r0: "r0 \<in> set (jw_rows w)" "claimable ?now r0" "r = claim_row ?now r0" using new[OF rc] by blast
    have "j_started_at c \<noteq> Some ?now" if "c \<in> set (jw_claims w)" "j_id c = j_id r" for c
      using tok that old[OF rc] unfolding tokens_ok_def by fastforce
    moreover have "0 \<le> j_retry_count r0" "j_retry_count r0 \<le> MAX_RETRIES"
      using job_invD(3)[OF inv r0(1)] r0(2) by (simp_all add: row_ok_def claimable_def)
    moreover have "t' \<le> ?now" if "(j_id r, t') \<in> set ?is" for t'
      using that issued_past[OF tok] by auto
    moreover have "j_retry_count c = j_retry_count r" if "c \<in> set cl" "j_id c = j_id r" for c
      using same[OF that(1) r that(2)] by simp
    moreover have "j_status r = Running" "j_started_at r = Some ?now" "j_retry_count r = j_retry_count r0"
      using r0(3) by simp_all
    ultimately show ?thesis unfolding row_ok_def row_claims_def by auto
  next
    case False
    then have r': "r \<in> set (jw_rows w)" using r rows' by (auto simp: set_update_where split: if_splits)
    have n: "j_id c \<noteq> j_id r" if "c \<in> set cl" for c using that False cl by auto
    then have "(j_id r, t') \<in> set ?is \<longleftrightarrow> (j_id r, t') \<in> set (jw_issued w)" for t' by force
    then have "row_ok ?now ?is r" using job_invD(3)[OF inv r'] by (cases "j_status r") (simp_all add: row_ok_def)
    moreover have "row_claims ?cs r" using job_invD(4)[OF inv r'] n unfolding row_claims_def by auto
    ultimately show ?thesis ..
  qed
  have "distinct (map claim_token ?cs)"
  proof -
    have "distinct (map j_id cl)" using ids' cl unfolding ids_ok_def by (simp add: distinct_map_filter)
    then have "distinct (map claim_token cl)" by (auto simp: distinct_map inj_on_def claim_token_def)
    have dis: "claim_token c \<noteq> claim_token d" if "c \<in> set (jw_claims w)" "d \<in> set cl" for c d
      using tok that new[OF that(2)] old[OF that(2)] unfolding tokens_ok_def claim_token_def by fastforce
    have "claim_token ` set (jw_claims w) \<inter> claim_token ` set cl = {}"
    proof (rule equals0I)
      fix x assume "x \<in> claim_token ` set (jw_claims w) \<inter> claim_token ` set cl"
      then obtain c d where "c \<in> set (jw_claims w)" "d \<in> set cl" "x = claim_token c" "x = claim_token d" by blast
      with dis[of c d] show False by simp
    qed
    with \<open>distinct (map claim_token cl)\<close> show ?thesis using tok unfolding tokens_ok_def by simp
  qed
  moreover have "\<forall>(i, t) \<in> set ?is. t \<le> ?now \<and> i < jt_next (jw_table w)"
    using tok ids' cl unfolding tokens_ok_def ids_ok_def by auto
  moreover have "\<forall>c \<in> set ?cs. \<exists>t. j_started_at c = Some t \<and> (j_id c, t) \<in> set ?is"
    using tok new unfolding tokens_ok_def by fastforce
  ultimately have "tokens_ok ?w" unfolding tokens_ok_def by simp
  then show ?thesis using ids' row unfolding job_inv_def by simp
qed

lemma stale_inv: "job_inv w \<Longrightarrow> job_inv (set_rows (requeue_stale_running (jw_now w) (jw_rows w)) w)"
  unfolding requeue_stale_running_def
proof (rule job_inv_update_same)
  fix r assume inv: "job_inv w" and r: "r \<in> set (jw_rows w)" "stale_running (jw_now w) r"
  obtain t where t: "j_status r = Running" "j_started_at r = Some t" "t < jw_now w - STALE_RUNNING_S"
    using r(2) unfolding stale_running_def by (cases "j_started_at r") auto
  have "t < jw_now w" using t(3) by (simp add: STALE_RUNNING_S_def)
  moreover have "0 \<le> j_retry_count r" "t' \<le> t" if "(j_id r, t') \<in> set (jw_issued w) \<or> t' = t" for t'
    using job_invD(3)[OF inv r(1)] t that by (auto simp: row_ok_def)
  ultimately have "row_ok (jw_now w) (jw_issued w) (requeue_stale_row (jw_now w) r)"
    by (fastforce simp: row_ok_def requeue_stale_row_def Let_def)
  moreover have "row_claims (jw_claims w) (requeue_stale_row (jw_now w) r)"
    by (rule row_claims_unstarted[OF job_invD(2)[OF inv]]) (simp_all add: requeue_stale_row_def Let_def)
  ultimately show "row_ok (jw_now w) (jw_issued w) (requeue_stale_row (jw_now w) r) \<and>
      row_claims (jw_claims w) (requeue_stale_row (jw_now w) r)" ..
qed (simp_all add: requeue_stale_row_def Let_def)

lemma release_inv: "job_inv w \<Longrightarrow> job_inv (set_rows (snd (release_claim (jw_now w) i (Some t) (jw_rows w))) w)"
  unfolding release_claim_def option.case snd_conv
proof (rule job_inv_update_same)
  fix r assume inv: "job_inv w" and r: "r \<in> set (jw_rows w)" "held_by i t r"
  have "0 \<le> j_retry_count r" "j_retry_count r \<le> MAX_RETRIES"
    using job_invD(3)[OF inv r(1)] r(2) by (simp_all add: row_ok_def held_by_def)
  then show "row_ok (jw_now w) (jw_issued w) (release_claim_row (jw_now w) r) \<and> row_claims (jw_claims w) (release_claim_row (jw_now w) r)"
    using issued_past[OF job_invD(2)[OF inv]] row_claims_unstarted[OF job_invD(2)[OF inv]]
    by (simp add: row_ok_def)
qed simp_all

lemma cancel_plain_row_simps [simp]:
  "j_id (cancel_plain_row now r) = j_id r" "j_started_at (cancel_plain_row now r) = j_started_at r"
  "j_retry_count (cancel_plain_row now r) = j_retry_count r"
  by (cases "j_status r"; simp add: cancel_plain_row_def)+

lemma cancel_inv: "job_inv w \<Longrightarrow> job_inv (set_rows (snd (cancel_plain (jw_now w) i pid (jw_rows w))) w)"
proof (cases "find (\<lambda>r. j_id r = i \<and> j_project_id r = pid) (jw_rows w)")
  case None
  then show "job_inv w \<Longrightarrow> ?thesis" by (simp add: cancel_plain_def set_rows_def)
next
  case (Some _)
  assume inv: "job_inv w"
  have "row_ok (jw_now w) (jw_issued w) (cancel_plain_row (jw_now w) r) \<and>
      row_claims (jw_claims w) (cancel_plain_row (jw_now w) r)" if r: "r \<in> set (jw_rows w)" for r
    using job_invD(3,4)[OF inv r] row_claims_unstarted[OF job_invD(2)[OF inv], of "cancel_plain_row (jw_now w) r"]
    by (cases "j_status r") (auto simp: row_ok_def row_claims_def cancel_plain_row_def)
  with inv Some show ?thesis by (auto simp: cancel_plain_def intro!: job_inv_update_same)
qed

lemma submit_rows:
  assumes "enqueue_request md5 now avail fails pid cap req tr lb key pr t1 t = (res, t', av)"
  shows "t' = t \<or> (\<exists>h tr' lb' key' pr' i. insert_job now pid cap req h tr' lb' key' pr' t = (i, t'))"
  using assms unfolding enqueue_request_def Let_def
  by (auto split: sum.splits option.splits if_splits prod.splits)

lemma submit_inv:
  assumes inv: "job_inv w"
    and sub: "enqueue_request md5 (jw_now w) avail fails pid cap req tr lb key pr t1 (jw_table w) = (res, t', av)"
  shows "job_inv (w\<lparr>jw_table := t'\<rparr>)"
proof (rule disjE[OF submit_rows[OF sub]])
  assume "t' = jw_table w"
  with inv show ?thesis by simp
next
  assume "\<exists>h tr' lb' key' pr' i. insert_job (jw_now w) pid cap req h tr' lb' key' pr' (jw_table w) = (i, t')"
  then obtain h tr' lb' key' pr' i where ins: "insert_job (jw_now w) pid cap req h tr' lb' key' pr' (jw_table w) = (i, t')"
    by blast
  have tok: "tokens_ok w" by (rule job_invD(2)[OF inv])
  obtain r where r: "jt_rows t' = jw_rows w @ [r]" "j_id r = jt_next (jw_table w)" "j_status r = Pending"
      "j_retry_count r = 0" "j_started_at r = None"
    using insert_job_rows(1,3)[OF ins] by blast
  have "(j_id r, t) \<notin> set (jw_issued w)" for t using tok r(2) unfolding tokens_ok_def by auto
  then have "row_ok (jw_now w) (jw_issued w) r" using r by (simp add: row_ok_def MAX_RETRIES_def)
  moreover have "row_claims (jw_claims w) r" by (rule row_claims_unstarted[OF tok r(5)]) simp
  moreover have "tokens_ok (w\<lparr>jw_table := t'\<rparr>)"
    using tok insert_job_rows(2)[OF ins] unfolding tokens_ok_def by auto
  moreover have "ids_ok t'" by (rule insert_job_ids[OF ins job_invD(1)[OF inv]])
  ultimately show ?thesis using r(1) job_invD(3,4)[OF inv] unfolding job_inv_def by simp
qed

lemma purge_inv:
  assumes "job_inv w"
  shows "job_inv (set_rows (snd (purge_finished_jobs (jw_now w) (jw_rows w))) w)"
proof -
  obtain Q where q: "snd (purge_finished_jobs (jw_now w) (jw_rows w)) = filter Q (jw_rows w)"
    by (auto simp: purge_finished_jobs_def Let_def)
  have "ids_ok ((jw_table w)\<lparr>jt_rows := filter Q (jw_rows w)\<rparr>)"
    using job_invD(1)[OF assms] unfolding ids_ok_def by (simp add: distinct_map_filter)
  then show ?thesis using job_invD[OF assms] unfolding q job_inv_def tokens_ok_def by simp
qed

lemma tick_inv:
  assumes "job_inv w" "jw_now w \<le> now'"
  shows "job_inv (w\<lparr>jw_now := now'\<rparr>)"
proof -
  have "row_ok now' (jw_issued w) r" if "row_ok (jw_now w) (jw_issued w) r" for r
    using that assms(2) unfolding row_ok_def by (cases "j_status r") fastforce+
  moreover have "tokens_ok (w\<lparr>jw_now := now'\<rparr>)"
    using job_invD(2)[OF assms(1)] assms(2) unfolding tokens_ok_def by fastforce
  ultimately show ?thesis using job_invD[OF assms(1)] unfolding job_inv_def by simp
qed

lemma death_inv:
  assumes "job_inv w"
  shows "job_inv (w\<lparr>jw_claims := remove1 c (jw_claims w)\<rparr>)"
proof -
  let ?cs = "remove1 c (jw_claims w)"
  have sub: "set ?cs \<subseteq> set (jw_claims w)" by (rule set_remove1_subset)
  have "tokens_ok (w\<lparr>jw_claims := ?cs\<rparr>)"
    using job_invD(2)[OF assms] sub unfolding tokens_ok_def by (auto simp: distinct_map inj_on_def)
  then show ?thesis
    using job_invD[OF assms] row_claims_subset[OF _ sub] unfolding job_inv_def by simp
qed

lemma job_step_inv: "job_step w w' \<Longrightarrow> job_inv w \<Longrightarrow> job_inv w'"
  by (induction rule: job_step.induct)
     (simp_all only: tick_inv submit_inv claim_inv outcome_inv death_inv stale_inv release_inv cancel_inv purge_inv)

lemma job_init_inv: "job_init w \<Longrightarrow> job_inv w"
  unfolding job_init_def job_inv_def ids_ok_def tokens_ok_def by simp

interpretation jobs: invariant_system job_init job_step job_inv
  by unfold_locales (blast intro: job_init_inv job_step_inv)+

abbreviation job_reach :: "jobworld \<Rightarrow> bool" where
  "job_reach \<equiv> reach job_init job_step"

section \<open>Properties\<close>

lemma row_of_id:
  assumes "job_inv w" "r \<in> set (jw_rows w)"
  shows "find_row j_id (j_id r) (jw_rows w) = Some r"
  using job_invD(1)[OF assms(1)] assms(2) by (simp add: ids_ok_def find_row_distinct)

text \<open>An outcome with no matching row writes nothing.\<close>

lemma execute_unmatched:
  assumes "\<And>r. r \<in> set rows \<Longrightarrow> j_id r = j_id c \<Longrightarrow> \<not> claim_matches (j_started_at c) r"
  shows "execute now ex walk flag c rows = rows"
  by (rule execute_cases[of now ex walk flag c rows])
     (auto simp: finish_def assms intro!: update_where_none)

lemma newer_claim_unmatched:
  assumes inv: "job_inv w" and c: "c \<in> set (jw_claims w)" "j_started_at c = Some t"
    and newer: "(j_id c, t') \<in> set (jw_issued w)" "t < t'"
    and r: "r \<in> set (jw_rows w)" "j_id r = j_id c"
  shows "\<not> claim_matches (j_started_at c) r"
proof
  assume m: "claim_matches (j_started_at c) r"
  note cm = claim_match[OF inv c(1) r(1,2) m]
  have "t' \<le> t" using job_invD(3)[OF inv r(1)] cm c(2) newer(1) r(2) by (auto simp: row_ok_def)
  with newer(2) show False by simp
qed

text \<open>
  C5. In every reachable state of the queue, a worker whose job has been claimed again since
  (its started_at is not the newest one issued for the job) changes nothing when it
  returns, whatever its walk came to; so a job that was reclaimed as stale is never
  finished, failed or requeued by the worker that lost it.
\<close>

theorem superseded_worker_writes_nothing:
  assumes "reach job_init job_step w" "c \<in> set (jw_claims w)" "j_started_at c = Some t"
    and "(j_id c, t') \<in> set (jw_issued w)" "t < t'"
  shows "execute now ex walk flag c (jw_rows w) = jw_rows w"
  using newer_claim_unmatched[OF jobs.reach_inv[OF assms(1)] assms(2-5)] by (intro execute_unmatched)

text \<open>
  A claim in a reachable state takes only pending, due, unlocked jobs that no agent
  owns, stamps each with the current time, and that stamp is strictly newer than every
  started_at issued for the job before; every earlier claim of the job is dead from then
  on. No job is held by two live claims.
\<close>

theorem claim_is_exclusive:
  assumes "reach job_init job_step w"
    and cb: "claim_batch (jw_now w) limit locked (jw_rows w) = (cl, rows')" and c: "c \<in> set cl"
  shows "j_started_at c = Some (jw_now w) \<and> j_id c \<notin> locked \<and>
    (\<exists>r \<in> set (jw_rows w). claimable (jw_now w) r \<and> c = claim_row (jw_now w) r) \<and>
    (\<forall>t. (j_id c, t) \<in> set (jw_issued w) \<longrightarrow> t < jw_now w) \<and>
    (\<forall>d \<in> set (jw_claims w). j_id d = j_id c \<longrightarrow> execute now ex walk flag d rows' = rows')"
proof -
  have inv: "job_inv w" by (rule jobs.reach_inv[OF assms(1)])
  obtain r where r: "r \<in> set (jw_rows w)" "claimable (jw_now w) r" "j_id r \<notin> locked" "c = claim_row (jw_now w) r"
    by (rule claim_batch_claimed[OF job_invD(1)[OF inv] cb c])
  have lt: "t < jw_now w" if "(j_id c, t) \<in> set (jw_issued w)" for t
    using claimable_tokens[OF inv r(1,2), of t] that r(4) by simp
  let ?w = "set_rows rows' w\<lparr>jw_claims := jw_claims w @ cl, jw_issued := jw_issued w @ map (\<lambda>c. (j_id c, jw_now w)) cl\<rparr>"
  have dead: "execute now ex walk flag d rows' = rows'" if d: "d \<in> set (jw_claims w)" "j_id d = j_id c" for d
  proof -
    obtain t where t: "j_started_at d = Some t" "(j_id d, t) \<in> set (jw_issued w)"
      using job_invD(2)[OF inv] d(1) unfolding tokens_ok_def by blast
    have "\<not> claim_matches (j_started_at d) x" if "x \<in> set rows'" "j_id x = j_id d" for x
      using newer_claim_unmatched[OF claim_inv[OF inv cb], of d t "jw_now w" x] d t lt[of t] c that by auto
    then show ?thesis by (rule execute_unmatched)
  qed
  show ?thesis using r lt dead by auto
qed

lemma update_where_keeps: "r \<in> set rows \<Longrightarrow> \<not> P r \<Longrightarrow> r \<in> set (update_where P f rows)"
  unfolding set_update_where by (metis (mono_tags, lifting) image_eqI)

lemma execute_keeps_terminal:
  assumes "job_inv w" "c \<in> set (jw_claims w)" "r \<in> set (jw_rows w)" "terminal (j_status r)"
  shows "r \<in> set (execute now ex walk flag c (jw_rows w))"
proof -
  have "\<not> (j_id r = j_id c \<and> claim_matches (j_started_at c) r)"
    using claim_match(2)[OF assms(1-3)] assms(4) by auto
  then show ?thesis
    by (cases rule: execute_cases[of now ex walk flag c "jw_rows w"])
       (use assms(3) in \<open>auto simp: finish_def intro!: update_where_keeps\<close>)
qed

lemma claim_keeps_terminal:
  assumes "job_inv w" "claim_batch now limit locked (jw_rows w) = (cl, rows')"
    "r \<in> set (jw_rows w)" "terminal (j_status r)"
  shows "r \<in> set rows'"
proof -
  obtain I where I: "rows' = update_where (\<lambda>r. j_id r \<in> set I) (claim_row now) (jw_rows w)"
    "I = [] \<or> I = claim_ids now (nat limit) locked (jw_rows w)"
    using claim_batch_rows[OF assms(2)] by metis
  have "j_id r \<notin> set I"
    using I(2) claim_ids_mem(1)[OF job_invD(1)[OF assms(1)] assms(3)] assms(4) by (auto simp: claimable_def)
  with assms(3) show ?thesis unfolding I(1) by (rule update_where_keeps)
qed

lemma cancel_keeps_terminal:
  assumes "r \<in> set rows" "terminal (j_status r)"
  shows "r \<in> set (snd (cancel_plain now i pid rows))"
proof -
  have "cancel_plain_row now r = r" using assms(2) by (cases "j_status r") (simp_all add: cancel_plain_row_def)
  then show ?thesis
    using assms(1) by (auto simp: cancel_plain_def set_update_where image_iff split: option.splits intro!: bexI[of _ r])
qed

lemma purge_keeps:
  assumes "ids_ok t" "r \<in> set (jt_rows t)" "\<not> purgeable now r"
  shows "r \<in> set (snd (purge_finished_jobs now (jt_rows t)))"
proof -
  have "j_id r \<noteq> j_id x" if "x \<in> set (take JOB_RETENTION_BATCH (filter (purgeable now) (jt_rows t)))" for x
    using ids_unique[OF assms(1,2), of x] in_set_takeD[OF that] assms(3) by auto
  with assms(2) show ?thesis by (auto simp: purge_finished_jobs_def Let_def)
qed

text \<open>
  C30. A finished job stays as it is: from a reachable state every step leaves a done, failed
  or cancelled row untouched, except the purge, which deletes it once it has been finished
  for more than seven days.
\<close>

theorem finished_jobs_are_final:
  assumes "reach job_init job_step w" "job_step w w'" "r \<in> set (jw_rows w)" "terminal (j_status r)"
  shows "r \<in> set (jw_rows w') \<or>
    purgeable (jw_now w) r \<and> jw_rows w' = snd (purge_finished_jobs (jw_now w) (jw_rows w))"
proof -
  note inv = jobs.reach_inv[OF assms(1)]
  from assms(2) show ?thesis
  proof cases
    case (submit md5 avail fails pid cap req tr lb key pr t1 res t' av)
    then show ?thesis using submit_rows[OF submit(2)] insert_job_rows(3) assms(3) by fastforce
  next
    case (claim limit locked cl rows')
    then show ?thesis using claim_keeps_terminal[OF inv claim(2) assms(3,4)] by simp
  next
    case (outcome c ex walk flag)
    then show ?thesis using execute_keeps_terminal[OF inv outcome(2) assms(3,4)] by simp
  next
    case stale
    have "\<not> stale_running (jw_now w) r" using assms(4) by (auto simp: stale_running_def)
    with stale show ?thesis using update_where_keeps[OF assms(3)] by (simp add: requeue_stale_running_def)
  next
    case (release i t)
    have "\<not> held_by i t r" using assms(4) by (auto simp: held_by_def)
    with release show ?thesis using update_where_keeps[OF assms(3)] by (simp add: release_claim_def)
  next
    case (cancel i pid)
    then show ?thesis using cancel_keeps_terminal[OF assms(3,4)] by simp
  next
    case purge
    then show ?thesis using purge_keeps[OF job_invD(1)[OF inv] assms(3)] by auto
  qed (use assms(3) in simp_all)
qed

lemma filter_claimed:
  "filter (\<lambda>r. j_id r \<in> S) (update_where (\<lambda>r. j_id r \<in> S) (claim_row now) rows)
   = map (claim_row now) (filter (\<lambda>r. j_id r \<in> S) rows)"
  by (induction rows) auto

lemma take_sort_key_le:
  fixes k :: "'a \<Rightarrow> 'b::linorder"
  assumes "x \<in> set (take n (sort_key k xs))" "y \<in> set (drop n (sort_key k xs))"
  shows "k x \<le> k y"
proof -
  have "sorted (map k (take n (sort_key k xs) @ drop n (sort_key k xs)))" by simp
  with assms show ?thesis by (simp only: map_append sorted_append) simp
qed

lemma claim_ids_picked:
  assumes "distinct (map j_id rows)"
  shows "{r \<in> set rows. j_id r \<in> set (claim_ids now n locked rows)}
    = set (take n (sort_key (\<lambda>r. (j_priority r, j_created_at r)) (filter (\<lambda>r. claimable now r \<and> j_id r \<notin> locked) rows)))"
    (is "?L = set ?T")
proof
  have inj: "inj_on j_id (set rows)" using assms by (simp add: distinct_map)
  have sub: "set ?T \<subseteq> set rows" by (rule subset_trans[OF set_take_subset]) simp
  then show "set ?T \<subseteq> ?L" unfolding claim_ids_def by fastforce
  show "?L \<subseteq> set ?T"
  proof
    fix r assume r: "r \<in> ?L"
    then obtain x where x: "x \<in> set ?T" "j_id r = j_id x" unfolding claim_ids_def set_map by blast
    moreover from x(1) sub have "x \<in> set rows" by blast
    ultimately show "r \<in> set ?T" using inj_onD[OF inj, of r x] r by simp
  qed
qed

text \<open>
  A claim takes as many due jobs as it may, most urgent first: the number claimed is the
  limit or all that are due and unlocked, and no job left behind precedes a claimed one in
  (priority, creation time).
\<close>

theorem claim_takes_the_most_urgent:
  assumes "distinct (map j_id rows)" "0 < limit" "claim_batch now limit locked rows = (cl, rows')"
  shows "length cl = min (nat limit) (length (filter (\<lambda>r. claimable now r \<and> j_id r \<notin> locked) rows)) \<and>
    (\<forall>c \<in> set cl. \<forall>r \<in> set rows. claimable now r \<and> j_id r \<notin> locked \<and> j_id r \<notin> j_id ` set cl \<longrightarrow>
       j_priority c < j_priority r \<or> j_priority c = j_priority r \<and> j_created_at c \<le> j_created_at r)"
proof -
  let ?el = "filter (\<lambda>r. claimable now r \<and> j_id r \<notin> locked) rows"
  let ?k = "\<lambda>r. (j_priority r, j_created_at r)"
  let ?ids = "claim_ids now (nat limit) locked rows"
  have cl: "cl = filter (\<lambda>r. j_id r \<in> set ?ids) rows'" and rows': "rows' = update_where (\<lambda>r. j_id r \<in> set ?ids) (claim_row now) rows"
    using assms(2,3) by (auto simp: claim_batch_def Let_def)
  have clm: "cl = map (claim_row now) (filter (\<lambda>r. j_id r \<in> set ?ids) rows)"
    unfolding cl rows' by (rule filter_claimed)
  note picked = claim_ids_picked[OF assms(1), of now "nat limit" locked]
  have dr: "distinct rows" using assms(1) by (simp add: distinct_map)
  have "length cl = card {r \<in> set rows. j_id r \<in> set ?ids}"
    unfolding clm using dr by (simp add: distinct_card[symmetric] distinct_filter)
  also have "\<dots> = length (take (nat limit) (sort_key ?k ?el))"
    unfolding picked using dr by (simp add: distinct_card)
  finally have len: "length cl = min (nat limit) (length ?el)" by simp
  have "j_priority c < j_priority r \<or> j_priority c = j_priority r \<and> j_created_at c \<le> j_created_at r"
    if c: "c \<in> set cl" and r: "r \<in> set rows" "claimable now r" "j_id r \<notin> locked" "j_id r \<notin> j_id ` set cl" for c r
  proof -
    obtain c0 where c0: "c0 \<in> set rows" "j_id c0 \<in> set ?ids" "c = claim_row now c0" using c unfolding clm by auto
    have "r \<in> set (sort_key ?k ?el)" using r by simp
    moreover have "r \<notin> set (take (nat limit) (sort_key ?k ?el))"
      using r(1,4) unfolding picked[symmetric] clm by (auto simp: image_iff)
    ultimately have "r \<in> set (drop (nat limit) (sort_key ?k ?el))"
      by (metis Un_iff append_take_drop_id set_append)
    moreover have "c0 \<in> set (take (nat limit) (sort_key ?k ?el))" using c0 unfolding picked[symmetric] by blast
    ultimately have "?k c0 \<le> ?k r" by (intro take_sort_key_le)
    then show ?thesis using c0(3) by (auto simp: less_eq_prod_def claim_row_def)
  qed
  with len show ?thesis by blast
qed

section \<open>Attempts are bounded\<close>

definition drains ::
  "(instant \<times> bool \<times> (DeepJobRow \<Rightarrow> bool \<Rightarrow> walk_outcome) \<times> bool) list \<Rightarrow> DeepJobRow \<Rightarrow> DeepJobRow list" where
  "drains as r = fold (\<lambda>(t, ex, walk, flag) rows. snd (drain_once t 1 {} [(j_id r, t, ex, walk, flag)] rows)) as [r]"

lemma drain_terminal:
  assumes "terminal (j_status r)"
  shows "snd (drain_once t 1 {} fin [r]) = [r]"
proof -
  have "j_status r \<noteq> Pending" "j_status r \<noteq> Running" using assms by (auto simp: terminal_def)
  then have "requeue_stale_running t [r] = [r]" "claim_batch t 1 {} [r] = ([], [r])"
    by (simp_all add: requeue_stale_running_def stale_running_def claim_batch_def claim_ids_def claimable_def Let_def)
  then show ?thesis by (induction fin) (simp_all add: drain_once_def split_def)
qed

lemma drain_pending:
  assumes "claimable t r"
  shows "\<exists>r'. snd (drain_once t 1 {} [(j_id r, t, ex, walk, flag)] [r]) = [r'] \<and> j_id r' = j_id r \<and>
    (terminal (j_status r') \<or> j_retry_count r' = j_retry_count r + 1 \<and> j_retry_count r' \<le> MAX_RETRIES \<and>
      (\<forall>t'. t + 300 < t' \<longrightarrow> claimable t' r'))"
proof -
  have st: "j_status r = Pending" "\<not> is_agent_job r" using assms by (simp_all add: claimable_def)
  then have "requeue_stale_running t [r] = [r]" by (simp add: requeue_stale_running_def stale_running_def)
  moreover have "claim_batch t 1 {} [r] = ([claim_row t r], [claim_row t r])"
    using assms by (simp add: claim_batch_def claim_ids_def Let_def)
  ultimately have eq: "snd (drain_once t 1 {} [(j_id r, t, ex, walk, flag)] [r])
      = execute t ex walk flag (claim_row t r) [claim_row t r]"
    by (simp add: drain_once_def)
  show ?thesis
    unfolding eq
  proof (cases rule: execute_cases[of t ex walk flag "claim_row t r" "[claim_row t r]"])
    case (finished s a b e)
    then show "\<exists>r'. execute t ex walk flag (claim_row t r) [claim_row t r] = [r'] \<and> j_id r' = j_id r \<and>
      (terminal (j_status r') \<or> j_retry_count r' = j_retry_count r + 1 \<and> j_retry_count r' \<le> MAX_RETRIES \<and>
      (\<forall>t'. t + 300 < t' \<longrightarrow> claimable t' r'))"
      by (simp add: finish_def claim_matches_def)
  next
    case requeued
    let ?r' = "requeue_row t (j_retry_count r + 1) (claim_row t r)"
    have "of_int (backoff_s (j_retry_count r + 1)) \<le> (300 :: rat)"
      using backoff_s_bounds(2)[of "j_retry_count r + 1"] by linarith
    then have "claimable t' ?r'" if "t + 300 < t'" for t'
      using that st(2) by (simp add: claimable_def is_agent_job_def requeue_row_def claim_row_def)
    with requeued show "\<exists>r'. execute t ex walk flag (claim_row t r) [claim_row t r] = [r'] \<and> j_id r' = j_id r \<and>
      (terminal (j_status r') \<or> j_retry_count r' = j_retry_count r + 1 \<and> j_retry_count r' \<le> MAX_RETRIES \<and>
      (\<forall>t'. t + 300 < t' \<longrightarrow> claimable t' r'))"
      by (simp add: claim_matches_def)
  qed
qed

lemma drains_settle:
  assumes "claimable (fst (hd as)) r" "as \<noteq> []" "sorted_wrt (\<lambda>a b. fst a + 300 < fst b) as"
    and "MAX_RETRIES + 1 - j_retry_count r \<le> int (length as)"
  shows "\<exists>r'. drains as r = [r'] \<and> j_id r' = j_id r \<and> terminal (j_status r')"
  using assms
proof (induction as arbitrary: r)
  case (Cons a as)
  obtain t ex walk flag where a: "a = (t, ex, walk, flag)" by (cases a)
  obtain r' where r': "snd (drain_once t 1 {} [(j_id r, t, ex, walk, flag)] [r]) = [r']" "j_id r' = j_id r"
    and alt: "terminal (j_status r') \<or> j_retry_count r' = j_retry_count r + 1 \<and> j_retry_count r' \<le> MAX_RETRIES \<and>
      (\<forall>t'. t + 300 < t' \<longrightarrow> claimable t' r')"
    using drain_pending[of t r ex walk flag] Cons.prems(1) a by auto
  have step: "drains (a # as) r = drains as r'" using r' by (simp add: drains_def a)
  show ?case
  proof (cases "terminal (j_status r')")
    case True
    have "drains as r' = [r']" using drain_terminal[OF True]
      by (induction as) (simp_all add: drains_def split_def)
    with step True r'(2) show ?thesis by simp
  next
    case False
    with alt have rc: "j_retry_count r' = j_retry_count r + 1" "j_retry_count r' \<le> MAX_RETRIES"
      and due: "\<And>t'. t + 300 < t' \<Longrightarrow> claimable t' r'" by auto
    have ne: "as \<noteq> []" using Cons.prems(4) rc by auto
    have "t + 300 < fst (hd as)" using Cons.prems(3) ne a by (cases as) auto
    from Cons.IH[OF due[OF this] ne] Cons.prems(3,4) rc step r'(2) show ?thesis by auto
  qed
qed simp


section \<open>Release and retention of audio\<close>

text \<open>
  Releasing a claim at shutdown costs the job nothing: a job this process still holds
  goes back to pending with its retry count and can be claimed at any later moment; a job it
  no longer holds is left alone, and no other row changes.
\<close>

theorem release_costs_no_retry:
  assumes "job_inv w" "r \<in> set (jw_rows w)" "\<not> is_agent_job r"
  shows "(held_by (j_id r) t r \<longrightarrow> fst (release_claim now (j_id r) (Some t) (jw_rows w)) \<and>
      (\<exists>r'. find_row j_id (j_id r) (snd (release_claim now (j_id r) (Some t) (jw_rows w))) = Some r' \<and>
        j_retry_count r' = j_retry_count r \<and> (\<forall>now'. now < now' \<longrightarrow> claimable now' r'))) \<and>
    (\<not> held_by (j_id r) t r \<longrightarrow> release_claim now (j_id r) (Some t) (jw_rows w) = (False, jw_rows w)) \<and>
    (\<forall>x. x \<noteq> j_id r \<longrightarrow> find_row j_id x (snd (release_claim now (j_id r) (Some t) (jw_rows w))) = find_row j_id x (jw_rows w))"
proof (intro conjI impI allI)
  have held: "held_by i t = (\<lambda>r. j_id r = i \<and> j_status r = Running \<and> j_started_at r = Some t)" for i
    by (rule ext) (simp add: held_by_def)
  note fr = release_write.find_updated_key[of _ "j_id r" "\<lambda>r. j_status r = Running \<and> j_started_at r = Some t" now "jw_rows w", folded held]
  show "find_row j_id x (snd (release_claim now (j_id r) (Some t) (jw_rows w))) = find_row j_id x (jw_rows w)"
    if "x \<noteq> j_id r" for x
    using fr[of x] that by (simp add: release_claim_def)
  {
    assume h: "held_by (j_id r) t r"
    then show "fst (release_claim now (j_id r) (Some t) (jw_rows w))"
      using assms(2) by (auto simp: release_claim_def list_ex_iff)
    show "\<exists>r'. find_row j_id (j_id r) (snd (release_claim now (j_id r) (Some t) (jw_rows w))) = Some r' \<and>
        j_retry_count r' = j_retry_count r \<and> (\<forall>now'. now < now' \<longrightarrow> claimable now' r')"
      using fr[of "j_id r"] h row_of_id[OF assms(1,2)] assms(3)
      by (auto simp: release_claim_def claimable_def is_agent_job_def release_claim_row_def held_by_def)
  }
  assume n: "\<not> held_by (j_id r) t r"
  have "\<not> held_by (j_id r) t x" if "x \<in> set (jw_rows w)" for x
    using ids_unique[OF job_invD(1)[OF assms(1)] that assms(2)] n by (auto simp: held_by_def)
  then show "release_claim now (j_id r) (Some t) (jw_rows w) = (False, jw_rows w)"
    by (auto simp: release_claim_def list_ex_iff intro!: update_where_none)
qed

lemma obj_get_map_val:
  "obj_get (map (\<lambda>(k, v). if k = a then (k, b) else (k, v)) kvs) a = map_option (\<lambda>_. b) (obj_get kvs a)"
  by (induction kvs) (auto simp: obj_get_def)

lemma strip_audio_gone: "\<not> has_audio (strip_audio req)"
  by (auto simp: strip_audio_def has_audio_def obj_get_map_val split: option.splits)

text \<open>
  Every worker write that ends a job drops its audio, but the stale sweep that gives up
  on a job whose workers kept dying marks it failed with the audio still in the row.
\<close>

theorem stale_give_up_keeps_audio:
  assumes "stale_running now r" "MAX_RETRIES \<le> j_retry_count r" "has_audio (j_request r)"
  shows "requeue_stale_running now [r] = [requeue_stale_row now r] \<and>
    j_status (requeue_stale_row now r) = Error \<and> has_audio (j_request (requeue_stale_row now r)) \<and>
    \<not> has_audio (j_request (finish_row now Error a b e r))"
  using assms strip_audio_gone[of "j_request r"]
  by (simp add: requeue_stale_running_def requeue_stale_row_def finish_row_def Let_def)

section \<open>A run of the queue\<close>

text \<open>
  One job, claimed at 100, its worker lost, reclaimed by the sweep and claimed again at 2000.
\<close>

definition demo_w0 :: jobworld where
  "demo_w0 = \<lparr>jw_now = 100, jw_table = \<lparr>jt_rows = [], jt_next = 1\<rparr>, jw_claims = [], jw_issued = []\<rparr>"

definition demo_w1 :: jobworld where
  "demo_w1 = demo_w0\<lparr>jw_table := fst (snd (enqueue_request demo_md5 100 True False 1 ''transcription''
     [(''audio_b64'', JStr ''QUJD'')] None None None 1 (jw_table demo_w0) (jw_table demo_w0)))\<rparr>"

definition demo_claim :: "jobworld \<Rightarrow> jobworld" where
  "demo_claim w = (case claim_batch (jw_now w) 24 {} (jw_rows w) of (cl, rows') \<Rightarrow>
     set_rows rows' w\<lparr>jw_claims := jw_claims w @ cl,
       jw_issued := jw_issued w @ map (\<lambda>c. (j_id c, jw_now w)) cl\<rparr>)"

definition demo_w2 :: jobworld where "demo_w2 = (demo_claim demo_w1)\<lparr>jw_now := 2000\<rparr>"

definition demo_w3 :: jobworld where
  "demo_w3 = demo_claim (set_rows (requeue_stale_running 2000 (jw_rows demo_w2)) demo_w2)"

lemma demo_claim_step: "job_step w (demo_claim w)"
  unfolding demo_claim_def by (cases "claim_batch (jw_now w) 24 {} (jw_rows w)") (auto intro: job_step.claim)

lemma demo_now: "jw_now demo_w1 = 100" "jw_now (demo_claim w) = jw_now w"
  by (simp_all add: demo_w0_def demo_w1_def demo_claim_def split_def)

lemma demo_reach_w1: "reach job_init job_step demo_w1"
proof -
  have "job_init demo_w0" by (simp add: job_init_def demo_w0_def)
  moreover have "job_step demo_w0 demo_w1"
    unfolding demo_w1_def
    by (rule job_step.submit[of demo_md5 _ True False 1 "''transcription''" "[(''audio_b64'', JStr ''QUJD'')]" None None None 1
          "jw_table demo_w0" "fst (enqueue_request demo_md5 100 True False 1 ''transcription'' [(''audio_b64'', JStr ''QUJD'')]
             None None None 1 (jw_table demo_w0) (jw_table demo_w0))"]) (simp add: demo_w0_def prod_eq_iff)
  ultimately show ?thesis by (blast intro: reach_init reach_step)
qed

lemma demo_reach_w2: "reach job_init job_step demo_w2"
  unfolding demo_w2_def
  by (rule reach_step[OF reach_step[OF demo_reach_w1 demo_claim_step] job_step.tick]) (simp add: demo_now)

lemma demo_reach_w3: "reach job_init job_step demo_w3"
proof -
  have "jw_now demo_w2 = 2000" by (simp add: demo_w2_def)
  with job_step.stale[of demo_w2] have "job_step demo_w2 (set_rows (requeue_stale_running 2000 (jw_rows demo_w2)) demo_w2)"
    by simp
  then show ?thesis unfolding demo_w3_def by (blast intro: reach_step demo_reach_w2 demo_claim_step)
qed

lemma demo_w3_claims:
  "map (\<lambda>c. (j_id c, j_started_at c)) (jw_claims demo_w3) = [(1, Some 100), (1, Some 2000)]"
  "jw_issued demo_w3 = [(1, 100), (1, 2000)]" "jw_claims demo_w3 \<noteq> []"
  "hd (jw_claims demo_w3) \<in> set (jw_claims demo_w3)"
  "j_id (hd (jw_claims demo_w3)) = 1" "j_started_at (hd (jw_claims demo_w3)) = Some 100"
  by code_simp+

theorem superseded_worker_writes_nothing_witness:
  "execute 2100 True (\<lambda>_ _. NoProvider) False (hd (jw_claims demo_w3)) (jw_rows demo_w3) = jw_rows demo_w3"
  by (rule superseded_worker_writes_nothing[OF demo_reach_w3, of _ 100 2000])
     (simp_all add: demo_w3_claims)

theorem claim_is_exclusive_witness:
  "j_started_at (hd (fst (claim_batch 100 24 {} (jw_rows demo_w1)))) = Some 100"
proof -
  have "hd (fst (claim_batch 100 24 {} (jw_rows demo_w1))) \<in> set (fst (claim_batch 100 24 {} (jw_rows demo_w1)))"
    by code_simp
  then show ?thesis
    using claim_is_exclusive[OF demo_reach_w1, of 24 "{}" "fst (claim_batch 100 24 {} (jw_rows demo_w1))"
        "snd (claim_batch 100 24 {} (jw_rows demo_w1))"] by (simp add: demo_now)
qed

definition demo_w4 :: jobworld where
  "demo_w4 = set_rows (execute (jw_now demo_w3) False (\<lambda>_ _. NoProvider) False (jw_claims demo_w3 ! 1) (jw_rows demo_w3)) demo_w3
     \<lparr>jw_claims := remove1 (jw_claims demo_w3 ! 1) (jw_claims demo_w3)\<rparr>"

theorem finished_jobs_are_final_witness:
  "hd (jw_rows demo_w4) \<in> set (jw_rows (set_rows (requeue_stale_running (jw_now demo_w4) (jw_rows demo_w4)) demo_w4))"
proof -
  have "jw_claims demo_w3 ! 1 \<in> set (jw_claims demo_w3)" by code_simp
  then have r: "reach job_init job_step demo_w4"
    unfolding demo_w4_def by (rule reach_step[OF demo_reach_w3 job_step.outcome])
  have "hd (jw_rows demo_w4) \<in> set (jw_rows demo_w4)" "terminal (j_status (hd (jw_rows demo_w4)))"
    "\<not> purgeable (jw_now demo_w4) (hd (jw_rows demo_w4))" by code_simp+
  with finished_jobs_are_final[OF r job_step.stale, of "hd (jw_rows demo_w4)"] show ?thesis by simp
qed

theorem claim_takes_the_most_urgent_witness:
  "length (fst (claim_batch 100 24 {} (jw_rows demo_w1))) = 1"
proof -
  have "distinct (map j_id (jw_rows demo_w1))"
    "min (nat 24) (length (filter (\<lambda>r. claimable 100 r \<and> j_id r \<notin> {}) (jw_rows demo_w1))) = 1" by code_simp+
  with claim_takes_the_most_urgent[of "jw_rows demo_w1" 24 100 "{}" "fst (claim_batch 100 24 {} (jw_rows demo_w1))"
      "snd (claim_batch 100 24 {} (jw_rows demo_w1))"] show ?thesis by simp
qed

definition demo_attempts :: "(instant \<times> bool \<times> (DeepJobRow \<Rightarrow> bool \<Rightarrow> walk_outcome) \<times> bool) list" where
  "demo_attempts = map (\<lambda>n. (1000 * of_nat n + 200, True, (\<lambda>_ _. NoProvider), False)) [0..<9]"


theorem release_costs_no_retry_witness:
  "release_claim 2100 1 (Some 100) (jw_rows demo_w3) = (False, jw_rows demo_w3)"
proof -
  have "hd (jw_rows demo_w3) \<in> set (jw_rows demo_w3)" "\<not> is_agent_job (hd (jw_rows demo_w3))"
    "\<not> held_by 1 100 (hd (jw_rows demo_w3))" "j_id (hd (jw_rows demo_w3)) = 1" by code_simp+
  with release_costs_no_retry[OF jobs.reach_inv[OF demo_reach_w3], of "hd (jw_rows demo_w3)" 100 2100] show ?thesis by simp
qed

theorem stale_give_up_keeps_audio_witness:
  "has_audio (j_request (requeue_stale_row 9000 ((hd (jw_rows demo_w3))\<lparr>j_retry_count := 8\<rparr>)))"
proof -
  have "stale_running 9000 ((hd (jw_rows demo_w3))\<lparr>j_retry_count := 8\<rparr>)" "has_audio (j_request (hd (jw_rows demo_w3)))"
    by code_simp+
  with stale_give_up_keeps_audio[of 9000 "(hd (jw_rows demo_w3))\<lparr>j_retry_count := 8\<rparr>"] show ?thesis
    by (simp add: MAX_RETRIES_def)
qed

end
