(* ===== verification/Json.thy ===== *)
theory Json
  imports Prelude "HOL-Library.AList"
begin

text \<open>
  JSON text: the encoder \<^verbatim>\<open>json.dumps\<close>, the decoder \<^verbatim>\<open>json.loads\<close> of the standard library
  with its hooks, and the strict decoder of \<^verbatim>\<open>strict_json.py\<close> that the tool-call gate and
  the structured-output gate share. A string stands for the bytes of its UTF-8 encoding.
  The decoder recurses on fuel; twice the length of the text is always enough
  (\<open>loads_terminates\<close>). The interpreter's recursion limit is not modelled.
\<close>

section \<open>JSON text\<close>

text \<open>\<^verbatim>\<open>json.dumps(v, ensure_ascii=False, separators=(",", ":"))\<close>.\<close>

definition hex_digit :: "nat \<Rightarrow> char" where
  "hex_digit n = ''0123456789abcdef'' ! (n mod 16)"

definition json_esc_char :: "char \<Rightarrow> string" where
  "json_esc_char c =
     (if c = CHR 0x22 then [CHR 0x5C, CHR 0x22]
      else if c = CHR 0x5C then [CHR 0x5C, CHR 0x5C]
      else if c = CHR 0x0A then [CHR 0x5C, CHR ''n'']
      else if c = CHR 0x0D then [CHR 0x5C, CHR ''r'']
      else if c = CHR 0x09 then [CHR 0x5C, CHR ''t'']
      else if c = CHR 0x08 then [CHR 0x5C, CHR ''b'']
      else if c = CHR 0x0C then [CHR 0x5C, CHR ''f'']
      else if (of_char c :: nat) < 32
      then [CHR 0x5C] @ ''u00'' @ [hex_digit (of_char c div 16), hex_digit (of_char c)]
      else [c])"

definition json_esc :: "string \<Rightarrow> string" where
  "json_esc s = CHR 0x22 # concat (map json_esc_char s) @ [CHR 0x22]"

fun join_with :: "string \<Rightarrow> string list \<Rightarrow> string" where
  "join_with sep [] = []"
| "join_with sep [x] = x"
| "join_with sep (x # xs) = x @ sep @ join_with sep xs"

fun json_dumps :: "(rat \<Rightarrow> string) \<Rightarrow> string \<Rightarrow> string \<Rightarrow> json \<Rightarrow> string" where
  "json_dumps fr s1 s2 JNull = ''null''"
| "json_dumps fr s1 s2 (JBool b) = (if b then ''true'' else ''false'')"
| "json_dumps fr s1 s2 (JInt i) = show_int i"
| "json_dumps fr s1 s2 (JFloat r) = fr r"
| "json_dumps fr s1 s2 (JStr s) = json_esc s"
| "json_dumps fr s1 s2 (JList vs) = ''['' @ join_with s1 (map (json_dumps fr s1 s2) vs) @ '']''"
| "json_dumps fr s1 s2 (JObj kvs) =
     ''{'' @ join_with s1 (map (\<lambda>(k, v). json_esc k @ s2 @ json_dumps fr s1 s2 v) kvs) @ ''}''"

section \<open>Decoder\<close>

datatype json_error = JSONDecodeError | HookError string | OutOfFuel

type_synonym 'a scan = "json_error + 'a \<times> string"

record json_hooks =
  parse_constant :: "string \<Rightarrow> json_error + json"
  parse_float :: "rat \<Rightarrow> json_error + json"
  object_pairs_hook :: "(string \<times> json) list \<Rightarrow> json_error + json"

definition json_ws :: "char \<Rightarrow> bool" where
  "json_ws c \<longleftrightarrow> c \<in> {CHR '' '', CHR 0x09, CHR 0x0A, CHR 0x0D}"

definition skip_ws :: "string \<Rightarrow> string" where
  "skip_ws s = dropWhile json_ws s"

text \<open>Strings: escapes, \<^verbatim>\<open>\uXXXX\<close> with surrogate pairs, no raw control characters.\<close>

definition hex_val :: "char \<Rightarrow> nat option" where
  "hex_val c = map_of (zip ''0123456789abcdefABCDEF''
     [0, 1, 2, 3, 4, 5, 6, 7, 8, 9, 10, 11, 12, 13, 14, 15, 10, 11, 12, 13, 14, 15]) c"

definition hex4 :: "string \<Rightarrow> nat option" where
  "hex4 s = (case map hex_val (take 4 s) of
      [Some a, Some b, Some c, Some d] \<Rightarrow> Some (((a * 16 + b) * 16 + c) * 16 + d)
    | _ \<Rightarrow> None)"

definition utf8 :: "nat \<Rightarrow> string" where
  "utf8 n = map char_of
     (if n < 0x80 then [n]
      else if n < 0x800 then [0xC0 + n div 64, 0x80 + n mod 64]
      else if n < 0x10000 then [0xE0 + n div 4096, 0x80 + n div 64 mod 64, 0x80 + n mod 64]
      else [0xF0 + n div 262144, 0x80 + n div 4096 mod 64, 0x80 + n div 64 mod 64, 0x80 + n mod 64])"

definition low_surrogate :: "string \<Rightarrow> nat option" where
  "low_surrogate s = (if starts_with s [CHR 0x5C, CHR ''u'']
     then (case hex4 (drop 2 s) of
             Some n \<Rightarrow> if 0xDC00 \<le> n \<and> n \<le> 0xDFFF then Some n else None
           | None \<Rightarrow> None)
     else None)"

definition simple_escape :: "char \<Rightarrow> char option" where
  "simple_escape c = map_of (zip ([CHR 0x22, CHR 0x5C] @ ''/bfnrt'')
     [CHR 0x22, CHR 0x5C, CHR ''/'', CHR 0x08, CHR 0x0C, CHR 0x0A, CHR 0x0D, CHR 0x09]) c"

definition prepend :: "string \<Rightarrow> string scan \<Rightarrow> string scan" where
  "prepend t r = (case r of Inl e \<Rightarrow> Inl e | Inr (u, rest) \<Rightarrow> Inr (t @ u, rest))"

function scan_str :: "string \<Rightarrow> string scan" where
  "scan_str [] = Inl JSONDecodeError"
| "scan_str (c # cs) =
     (if c = CHR 0x22 then Inr ([], cs)
      else if c \<noteq> CHR 0x5C
      then if (of_char c :: nat) < 32 then Inl JSONDecodeError else prepend [c] (scan_str cs)
      else if cs = [] then Inl JSONDecodeError
      else if hd cs \<noteq> CHR ''u''
      then case simple_escape (hd cs) of
             None \<Rightarrow> Inl JSONDecodeError
           | Some d \<Rightarrow> prepend [d] (scan_str (tl cs))
      else case hex4 (tl cs) of
             None \<Rightarrow> Inl JSONDecodeError
           | Some n \<Rightarrow>
               let rest = drop 4 (tl cs) in
               (case (if 0xD800 \<le> n \<and> n \<le> 0xDBFF then low_surrogate rest else None) of
                  Some m \<Rightarrow> prepend (utf8 (0x10000 + (n - 0xD800) * 1024 + (m - 0xDC00))) (scan_str (drop 6 rest))
                | None \<Rightarrow> prepend (utf8 n) (scan_str rest)))"
  by pat_completeness auto

termination scan_str
  by (relation "measure length") (auto simp: less_Suc_eq_le le_diff_conv intro: le_trans[OF diff_le_self])

text \<open>Numbers: an integer part, an optional fraction, an optional exponent.\<close>

definition json_digit :: "char \<Rightarrow> bool" where
  "json_digit c \<longleftrightarrow> digit_val c \<noteq> None"

definition digits_val :: "string \<Rightarrow> int" where
  "digits_val s = (case parse_digits 0 s of Some i \<Rightarrow> i | None \<Rightarrow> 0)"

definition scan_int_part :: "string \<Rightarrow> (string \<times> string) option" where
  "scan_int_part s = (case s of
      [] \<Rightarrow> None
    | c # cs \<Rightarrow> if c = CHR ''0'' then Some ([c], cs)
               else if json_digit c then Some (takeWhile json_digit s, dropWhile json_digit s)
               else None)"

definition scan_frac :: "string \<Rightarrow> string option \<times> string" where
  "scan_frac s = (case s of
      c # d # ds \<Rightarrow> if c = CHR ''.'' \<and> json_digit d
                   then (Some (takeWhile json_digit (d # ds)), dropWhile json_digit (d # ds)) else (None, s)
    | _ \<Rightarrow> (None, s))"

definition scan_exp :: "string \<Rightarrow> (bool \<times> string) option \<times> string" where
  "scan_exp s = (case s of
      [] \<Rightarrow> (None, s)
    | c # cs \<Rightarrow>
        (let signed = cs \<noteq> [] \<and> (hd cs = CHR ''-'' \<or> hd cs = CHR ''+'');
             ds = (if signed then tl cs else cs)
         in if (c = CHR ''e'' \<or> c = CHR ''E'') \<and> ds \<noteq> [] \<and> json_digit (hd ds)
            then (Some (signed \<and> hd cs = CHR ''-'', takeWhile json_digit ds), dropWhile json_digit ds)
            else (None, s)))"

definition float_val :: "int \<Rightarrow> string option \<Rightarrow> (bool \<times> string) option \<Rightarrow> rat" where
  "float_val i fpart ex =
     (let m = of_int i + (case fpart of None \<Rightarrow> 0 | Some f \<Rightarrow> of_int (digits_val f) / 10 ^ length f)
      in case ex of None \<Rightarrow> m
         | Some (neg, e) \<Rightarrow> if neg then m / 10 ^ nat (digits_val e) else m * 10 ^ nat (digits_val e))"

text \<open>\<^verbatim>\<open>int\<close> refuses text of more than 4300 digits (\<^verbatim>\<open>sys.set_int_max_str_digits\<close>).\<close>

definition INT_MAX_STR_DIGITS :: nat where "INT_MAX_STR_DIGITS = 4300"

definition scan_number :: "json_hooks \<Rightarrow> string \<Rightarrow> json scan" where
  "scan_number h s =
     (let neg = s \<noteq> [] \<and> hd s = CHR ''-''; s1 = (if neg then tl s else s)
      in case scan_int_part s1 of
           None \<Rightarrow> Inl JSONDecodeError
         | Some (ip, s2) \<Rightarrow>
             (case scan_frac s2 of (fpart, s3) \<Rightarrow>
              case scan_exp s3 of (ex, s4) \<Rightarrow>
                if fpart = None \<and> ex = None
                then if length ip > INT_MAX_STR_DIGITS then Inl (HookError ''int digits'')
                     else Inr (JInt (if neg then - digits_val ip else digits_val ip), s4)
                else (case parse_float h (if neg then - float_val (digits_val ip) fpart ex
                                          else float_val (digits_val ip) fpart ex) of
                        Inl e \<Rightarrow> Inl e | Inr v \<Rightarrow> Inr (v, s4))))"

definition scan_const :: "json_hooks \<Rightarrow> string \<Rightarrow> string \<Rightarrow> json scan" where
  "scan_const h name s = (case parse_constant h name of
      Inl e \<Rightarrow> Inl e | Inr v \<Rightarrow> Inr (v, drop (length name) s))"

definition scan_atom :: "json_hooks \<Rightarrow> string \<Rightarrow> json scan" where
  "scan_atom h s =
     (if starts_with s ''null'' then Inr (JNull, drop 4 s)
      else if starts_with s ''true'' then Inr (JBool True, drop 4 s)
      else if starts_with s ''false'' then Inr (JBool False, drop 5 s)
      else if starts_with s ''NaN'' then scan_const h ''NaN'' s
      else if starts_with s ''Infinity'' then scan_const h ''Infinity'' s
      else if starts_with s ''-Infinity'' then scan_const h ''-Infinity'' s
      else scan_number h s)"

fun scan_value :: "nat \<Rightarrow> json_hooks \<Rightarrow> string \<Rightarrow> json scan"
  and scan_items :: "nat \<Rightarrow> json_hooks \<Rightarrow> string \<Rightarrow> json list scan"
  and scan_members :: "nat \<Rightarrow> json_hooks \<Rightarrow> string \<Rightarrow> (string \<times> json) list scan" where
  "scan_value 0 h s = Inl OutOfFuel"
| "scan_value (Suc n) h [] = Inl JSONDecodeError"
| "scan_value (Suc n) h (c # cs) =
     (if c = CHR 0x22
      then case scan_str cs of Inl e \<Rightarrow> Inl e | Inr (t, r) \<Rightarrow> Inr (JStr t, r)
      else if c = CHR ''{''
      then (case (if skip_ws cs \<noteq> [] \<and> hd (skip_ws cs) = CHR ''}''
                  then Inr ([], tl (skip_ws cs)) else scan_members n h (skip_ws cs)) of
              Inl e \<Rightarrow> Inl e
            | Inr (kvs, r) \<Rightarrow> (case object_pairs_hook h kvs of Inl e \<Rightarrow> Inl e | Inr v \<Rightarrow> Inr (v, r)))
      else if c = CHR ''[''
      then (case (if skip_ws cs \<noteq> [] \<and> hd (skip_ws cs) = CHR '']''
                  then Inr ([], tl (skip_ws cs)) else scan_items n h (skip_ws cs)) of
              Inl e \<Rightarrow> Inl e | Inr (vs, r) \<Rightarrow> Inr (JList vs, r))
      else scan_atom h (c # cs))"
| "scan_items 0 h s = Inl OutOfFuel"
| "scan_items (Suc n) h s = (case scan_value n h s of
      Inl e \<Rightarrow> Inl e
    | Inr (v, r) \<Rightarrow> (case skip_ws r of
          [] \<Rightarrow> Inl JSONDecodeError
        | c # cs \<Rightarrow> if c = CHR '']'' then Inr ([v], cs)
            else if c \<noteq> CHR '','' then Inl JSONDecodeError
            else case scan_items n h (skip_ws cs) of
                   Inl e \<Rightarrow> Inl e | Inr (vs, r2) \<Rightarrow> Inr (v # vs, r2)))"
| "scan_members 0 h s = Inl OutOfFuel"
| "scan_members (Suc n) h [] = Inl JSONDecodeError"
| "scan_members (Suc n) h (q # s) =
     (if q \<noteq> CHR 0x22 then Inl JSONDecodeError
      else case scan_str s of
        Inl e \<Rightarrow> Inl e
      | Inr (k, r) \<Rightarrow> (case skip_ws r of
          [] \<Rightarrow> Inl JSONDecodeError
        | col # r1 \<Rightarrow> if col \<noteq> CHR '':'' then Inl JSONDecodeError
            else case scan_value n h (skip_ws r1) of
              Inl e \<Rightarrow> Inl e
            | Inr (v, r2) \<Rightarrow> (case skip_ws r2 of
                [] \<Rightarrow> Inl JSONDecodeError
              | c # cs \<Rightarrow> if c = CHR ''}'' then Inr ([(k, v)], cs)
                  else if c \<noteq> CHR '','' then Inl JSONDecodeError
                  else case scan_members n h (skip_ws cs) of
                         Inl e \<Rightarrow> Inl e | Inr (kvs, r4) \<Rightarrow> Inr ((k, v) # kvs, r4))))"

definition json_loads :: "json_hooks \<Rightarrow> string \<Rightarrow> json_error + json" where
  "json_loads h s = (case scan_value (2 * length s + 2) h (skip_ws s) of
      Inl e \<Rightarrow> Inl e
    | Inr (v, r) \<Rightarrow> if skip_ws r = [] then Inr v else Inl JSONDecodeError)"

text \<open>
  The hooks of plain \<^verbatim>\<open>json.loads\<close>: a later duplicate of a key wins. \<^verbatim>\<open>NaN\<close> and the infinities
  are floats; no caller of the plain decoder reads more of them than that.
\<close>

definition plain_hooks :: json_hooks where
  "plain_hooks = \<lparr>parse_constant = (\<lambda>_. Inr (JFloat 0)), parse_float = (\<lambda>r. Inr (JFloat r)),
     object_pairs_hook = (\<lambda>kvs. Inr (JObj (fold (\<lambda>(k, v). AList.update k v) kvs [])))\<rparr>"

section \<open>Strict decoder\<close>

definition invalid_constant :: "string \<Rightarrow> json_error + json" where
  "invalid_constant value = Inl (HookError (''invalid JSON constant: '' @ value))"

text \<open>The least magnitude that \<^verbatim>\<open>float()\<close> rounds to infinity.\<close>

definition FLOAT_LIMIT :: rat where "FLOAT_LIMIT = 2 ^ 1024 - 2 ^ 970"

definition finite_float :: "rat \<Rightarrow> json_error + json" where
  "finite_float r = (if \<bar>r\<bar> < FLOAT_LIMIT then Inr (JFloat r) else Inl (HookError ''nonfinite JSON number''))"

fun unique_from :: "(string \<times> json) list \<Rightarrow> (string \<times> json) list \<Rightarrow> json_error + (string \<times> json) list" where
  "unique_from result [] = Inr result"
| "unique_from result ((k, v) # kvs) =
     (if k \<in> fst ` set result then Inl (HookError ''duplicate JSON key'')
      else unique_from (result @ [(k, v)]) kvs)"

definition unique_object :: "(string \<times> json) list \<Rightarrow> json_error + json" where
  "unique_object kvs = map_sum id JObj (unique_from [] kvs)"

definition strict_hooks :: json_hooks where
  "strict_hooks = \<lparr>parse_constant = invalid_constant, parse_float = finite_float,
     object_pairs_hook = unique_object\<rparr>"

definition loads_strict :: "string \<Rightarrow> json_error + json" where
  "loads_strict s = json_loads strict_hooks s"

section \<open>Progress and termination\<close>

lemma skip_ws_length: "length (skip_ws s) \<le> length s"
  by (simp add: skip_ws_def length_dropWhile_le)

lemma prepend_Inr: "prepend t r = Inr (u, rest) \<longleftrightarrow> (\<exists>v. r = Inr (v, rest) \<and> u = t @ v)"
  by (auto simp: prepend_def split: sum.splits)

lemma scan_str_length: "scan_str s = Inr (t, r) \<Longrightarrow> length r < length s"
proof (induction s arbitrary: t r rule: scan_str.induct)
  case (2 c cs)
  have tl: "length (tl cs) \<le> length cs" by simp
  from 2 show ?case
    by (fastforce simp: prepend_Inr Let_def split: if_splits option.splits)
qed simp

lemma scan_int_part_length: "scan_int_part s = Some (d, r) \<Longrightarrow> length r < length s"
  by (cases s) (auto simp: scan_int_part_def less_Suc_eq_le length_dropWhile_le split: if_splits)

lemma scan_frac_length: "scan_frac s = (f, r) \<Longrightarrow> length r \<le> length s"
proof (cases s)
  case (Cons c t)
  assume "scan_frac s = (f, r)"
  with Cons length_dropWhile_le[of json_digit] show ?thesis
    by (cases t) (auto simp: scan_frac_def split: if_splits intro: le_SucI le_trans)
qed (auto simp: scan_frac_def)

lemma scan_exp_length: "scan_exp s = (e, r) \<Longrightarrow> length r \<le> length s"
proof (cases s)
  case (Cons c cs)
  assume a: "scan_exp s = (e, r)"
  have "length (dropWhile json_digit cs) \<le> length s" "length (dropWhile json_digit (tl cs)) \<le> length s"
    using length_dropWhile_le[of json_digit cs] length_dropWhile_le[of json_digit "tl cs"] Cons by auto
  with a Cons show ?thesis by (auto simp: scan_exp_def Let_def split: if_splits)
qed (auto simp: scan_exp_def)

lemma scan_number_length:
  assumes "scan_number h s = Inr (v, r)"
  shows "length r < length s"
proof -
  let ?s1 = "if s \<noteq> [] \<and> hd s = CHR ''-'' then tl s else s"
  obtain ip s2 where ip: "scan_int_part ?s1 = Some (ip, s2)"
    using assms by (cases "scan_int_part ?s1") (auto simp: scan_number_def Let_def)
  obtain f s3 e s4 where fe: "scan_frac s2 = (f, s3)" "scan_exp s3 = (e, s4)"
    by (cases "scan_frac s2"; cases "scan_exp (snd (scan_frac s2))") auto
  have "r = s4"
    using assms ip fe by (auto simp: scan_number_def Let_def split: if_splits sum.splits)
  moreover have "length s2 < length ?s1" "length s3 \<le> length s2" "length s4 \<le> length s3" "length ?s1 \<le> length s"
    using scan_int_part_length[OF ip] scan_frac_length[OF fe(1)] scan_exp_length[OF fe(2)] by auto
  ultimately show ?thesis by (metis less_le_trans le_less_trans)
qed

lemma starts_with_drop: "starts_with s p \<Longrightarrow> p \<noteq> [] \<Longrightarrow> length (drop (length p) s) < length s"
  unfolding starts_with_def by (cases s) auto

lemma scan_const_length: "scan_const h p s = Inr (v, r) \<Longrightarrow> starts_with s p \<Longrightarrow> p \<noteq> [] \<Longrightarrow> length r < length s"
  by (auto simp: scan_const_def dest!: starts_with_drop split: sum.splits)

lemma scan_atom_length: "scan_atom h s = Inr (v, r) \<Longrightarrow> length r < length s"
  using starts_with_drop[of s "''null''"] starts_with_drop[of s "''true''"] starts_with_drop[of s "''false''"]
  by (auto simp: scan_atom_def split: if_splits dest: scan_const_length scan_number_length)

text \<open>What a successful step of the decoder went through.\<close>

lemma scan_value_InrE:
  assumes "scan_value n h s = Inr (v, r)"
  obtains m c cs where "n = Suc m" "s = c # cs"
    "(\<exists>t. c = CHR 0x22 \<and> scan_str cs = Inr (t, r) \<and> v = JStr t) \<or>
     (\<exists>kvs. c = CHR ''{'' \<and> object_pairs_hook h kvs = Inr v \<and>
        (skip_ws cs = CHR ''}'' # r \<and> kvs = [] \<or> scan_members m h (skip_ws cs) = Inr (kvs, r))) \<or>
     (\<exists>vs. c = CHR ''['' \<and> v = JList vs \<and>
        (skip_ws cs = CHR '']'' # r \<and> vs = [] \<or> scan_items m h (skip_ws cs) = Inr (vs, r))) \<or>
     scan_atom h s = Inr (v, r)"
proof (cases n)
  case (Suc m)
  then obtain c cs where s: "s = c # cs" using assms by (cases s) auto
  show thesis
  proof (rule that[OF Suc s])
    consider (str) "c = CHR 0x22" | (obj) "c = CHR ''{''" | (arr) "c = CHR ''[''" |
      (atom) "c \<notin> {CHR 0x22, CHR ''{'', CHR ''[''}" by auto
    then show "(\<exists>t. c = CHR 0x22 \<and> scan_str cs = Inr (t, r) \<and> v = JStr t) \<or>
     (\<exists>kvs. c = CHR ''{'' \<and> object_pairs_hook h kvs = Inr v \<and>
        (skip_ws cs = CHR ''}'' # r \<and> kvs = [] \<or> scan_members m h (skip_ws cs) = Inr (kvs, r))) \<or>
     (\<exists>vs. c = CHR ''['' \<and> v = JList vs \<and>
        (skip_ws cs = CHR '']'' # r \<and> vs = [] \<or> scan_items m h (skip_ws cs) = Inr (vs, r))) \<or>
     scan_atom h s = Inr (v, r)"
      using assms Suc s
      by cases (cases "skip_ws cs"; auto split: sum.splits prod.splits if_splits)+
  qed
qed (use assms in simp)

lemma scan_items_InrE:
  assumes "scan_items n h s = Inr (vs, r)"
  obtains m v r0 c cs where "n = Suc m" "scan_value m h s = Inr (v, r0)" "skip_ws r0 = c # cs"
    "c = CHR '']'' \<and> vs = [v] \<and> r = cs \<or>
     c = CHR '','' \<and> (\<exists>vs'. scan_items m h (skip_ws cs) = Inr (vs', r) \<and> vs = v # vs')"
proof (cases n)
  case (Suc m)
  with assms that show thesis
    by (auto split: sum.splits prod.splits if_splits list.splits)
qed (use assms in simp)

lemma scan_members_InrE:
  assumes "scan_members n h s = Inr (kvs, r)"
  obtains m k v s1 r0 r1 r2 c cs where "n = Suc m" "s = CHR 0x22 # s1" "scan_str s1 = Inr (k, r0)"
    "skip_ws r0 = CHR '':'' # r1" "scan_value m h (skip_ws r1) = Inr (v, r2)" "skip_ws r2 = c # cs"
    "c = CHR ''}'' \<and> kvs = [(k, v)] \<and> r = cs \<or>
     c = CHR '','' \<and> (\<exists>kvs'. scan_members m h (skip_ws cs) = Inr (kvs', r) \<and> kvs = (k, v) # kvs')"
proof (cases n)
  case (Suc m)
  then obtain q s1 where s: "s = q # s1" using assms by (cases s) auto
  from assms that[OF Suc] s Suc show thesis
    by (auto split: sum.splits prod.splits if_splits list.splits)
qed (use assms in simp)

lemma skip_ws_Cons_length: "skip_ws r = c # cs \<Longrightarrow> length cs < length r"
  using skip_ws_length[of r] by simp

lemma scan_length_all:
  "(\<forall>s v r. scan_value n h s = Inr (v, r) \<longrightarrow> length r < length s) \<and>
   (\<forall>s vs r. scan_items n h s = Inr (vs, r) \<longrightarrow> length r < length s) \<and>
   (\<forall>s kvs r. scan_members n h s = Inr (kvs, r) \<longrightarrow> length r < length s)"
proof (induction n)
  case (Suc n)
  have ws: "length (skip_ws t) \<le> length t" for t by (rule skip_ws_length)
  note IH = Suc[THEN conjunct1, rule_format] Suc[THEN conjunct2, THEN conjunct1, rule_format]
    Suc[THEN conjunct2, THEN conjunct2, rule_format]
  have v: "length r < length s" if scanned: "scan_value (Suc n) h s = Inr (v, r)" for s v r
    using scanned
  proof (rule scan_value_InrE)
    fix m c cs
    assume m: "Suc n = Suc m" "s = c # cs"
    assume "(\<exists>t. c = CHR 0x22 \<and> scan_str cs = Inr (t, r) \<and> v = JStr t) \<or>
     (\<exists>kvs. c = CHR ''{'' \<and> object_pairs_hook h kvs = Inr v \<and>
        (skip_ws cs = CHR ''}'' # r \<and> kvs = [] \<or> scan_members m h (skip_ws cs) = Inr (kvs, r))) \<or>
     (\<exists>vs. c = CHR ''['' \<and> v = JList vs \<and>
        (skip_ws cs = CHR '']'' # r \<and> vs = [] \<or> scan_items m h (skip_ws cs) = Inr (vs, r))) \<or>
     scan_atom h s = Inr (v, r)"
    then show "length r < length s"
    proof (elim disjE exE conjE)
      fix t assume "scan_str cs = Inr (t, r)" then show ?thesis using scan_str_length m by fastforce
    next
      fix kvs assume "scan_members m h (skip_ws cs) = Inr (kvs, r)"
      then show ?thesis using IH(3)[of "skip_ws cs" kvs r] m ws[of cs] by simp
    next
      fix vs assume "scan_items m h (skip_ws cs) = Inr (vs, r)"
      then show ?thesis using IH(2)[of "skip_ws cs" vs r] m ws[of cs] by simp
    next
      assume "scan_atom h s = Inr (v, r)" then show ?thesis by (rule scan_atom_length)
    qed (use m skip_ws_Cons_length[of cs _ r] in auto)
  qed
  have i: "length r < length s" if scanned: "scan_items (Suc n) h s = Inr (vs, r)" for s vs r
    using scanned
  proof (rule scan_items_InrE)
    fix m v r0 c cs
    assume "Suc n = Suc m" "scan_value m h s = Inr (v, r0)" "skip_ws r0 = c # cs"
      and "c = CHR '']'' \<and> vs = [v] \<and> r = cs \<or>
        c = CHR '','' \<and> (\<exists>vs'. scan_items m h (skip_ws cs) = Inr (vs', r) \<and> vs = v # vs')"
    then show ?thesis using IH(1)[of s v r0] IH(2)[of "skip_ws cs" _ r] skip_ws_Cons_length[of r0 c cs] ws[of cs] by fastforce
  qed
  have o: "length r < length s" if scanned: "scan_members (Suc n) h s = Inr (kvs, r)" for s kvs r
    using scanned
  proof (rule scan_members_InrE)
    fix m k v s1 r0 r1 r2 c cs
    assume a: "Suc n = Suc m" "s = CHR 0x22 # s1" "scan_str s1 = Inr (k, r0)"
      "skip_ws r0 = CHR '':'' # r1" "scan_value m h (skip_ws r1) = Inr (v, r2)" "skip_ws r2 = c # cs"
      and d: "c = CHR ''}'' \<and> kvs = [(k, v)] \<and> r = cs \<or>
        c = CHR '','' \<and> (\<exists>kvs'. scan_members m h (skip_ws cs) = Inr (kvs', r) \<and> kvs = (k, v) # kvs')"
    have "length cs < length s"
      using a IH(1)[of "skip_ws r1" v r2] skip_ws_Cons_length[of r0 _ r1] skip_ws_Cons_length[of r2 c cs] ws[of r1]
        scan_str_length[OF a(3)] by simp
    with d a(1) IH(3)[of "skip_ws cs" _ r] ws[of cs] show ?thesis by fastforce
  qed
  from v i o show ?case by blast
qed simp

lemmas scan_length = scan_length_all[THEN conjunct1, rule_format]
  scan_length_all[THEN conjunct2, THEN conjunct1, rule_format]
  scan_length_all[THEN conjunct2, THEN conjunct2, rule_format]

definition hooks_answer :: "json_hooks \<Rightarrow> bool" where
  "hooks_answer h \<longleftrightarrow> (\<forall>c. parse_constant h c \<noteq> Inl OutOfFuel) \<and> (\<forall>r. parse_float h r \<noteq> Inl OutOfFuel) \<and>
     (\<forall>kvs. object_pairs_hook h kvs \<noteq> Inl OutOfFuel)"

lemma scan_number_fuel:
  assumes "hooks_answer h" shows "scan_number h s \<noteq> Inl OutOfFuel"
proof -
  have "parse_float h r \<noteq> Inl OutOfFuel" for r using assms by (simp add: hooks_answer_def)
  then show ?thesis unfolding scan_number_def Let_def
    by (cases "scan_int_part (if s \<noteq> [] \<and> hd s = CHR ''-'' then tl s else s)") (auto split: prod.splits sum.splits)
qed

lemma scan_const_fuel: "hooks_answer h \<Longrightarrow> scan_const h c s \<noteq> Inl OutOfFuel"
  by (auto simp: scan_const_def hooks_answer_def split: sum.splits)

lemma scan_atom_fuel: "hooks_answer h \<Longrightarrow> scan_atom h s \<noteq> Inl OutOfFuel"
  using scan_number_fuel[of h s] scan_const_fuel[of h _ s] by (simp add: scan_atom_def)

lemma prepend_Inl [simp]: "prepend t r = Inl e \<longleftrightarrow> r = Inl e"
  by (auto simp: prepend_def split: sum.splits)

lemma scan_str_fuel: "scan_str s \<noteq> Inl OutOfFuel"
proof (induction s rule: scan_str.induct)
  case (2 c cs)
  consider (q) "c = CHR 0x22" | (raw) "c \<noteq> CHR 0x22" "c \<noteq> CHR 0x5C" | (cut) "c = CHR 0x5C" "cs = []"
    | (esc) "c = CHR 0x5C" "cs \<noteq> []" "hd cs \<noteq> CHR ''u''" | (uni) "c = CHR 0x5C" "cs \<noteq> []" "hd cs = CHR ''u''" by blast
  then show ?case
  proof cases
    case raw
    with 2(1) show ?thesis by simp
  next
    case esc
    with 2(2) show ?thesis by (simp split: option.split)
  next
    case uni
    with 2(3,4) show ?thesis by (simp add: Let_def split: option.split)
  qed simp_all
qed simp

text \<open>A unit of fuel per nesting level and element is enough.\<close>

lemma scan_fuel_all:
  assumes h: "hooks_answer h"
  shows "(\<forall>s. 2 * length s + 1 \<le> n \<longrightarrow> scan_value n h s \<noteq> Inl OutOfFuel) \<and>
   (\<forall>s. 2 * length s + 2 \<le> n \<longrightarrow> scan_items n h s \<noteq> Inl OutOfFuel) \<and>
   (\<forall>s. 2 * length s + 2 \<le> n \<longrightarrow> scan_members n h s \<noteq> Inl OutOfFuel)"
proof (induction n)
  case (Suc n)
  have ws: "length (skip_ws t) \<le> length t" for t by (rule skip_ws_length)
  note IH = Suc[THEN conjunct1, rule_format] Suc[THEN conjunct2, THEN conjunct1, rule_format]
    Suc[THEN conjunct2, THEN conjunct2, rule_format]
  have hook: "object_pairs_hook h kvs \<noteq> Inl OutOfFuel" for kvs using h by (simp add: hooks_answer_def)
  have v: "scan_value (Suc n) h s \<noteq> Inl OutOfFuel" if f: "2 * length s + 1 \<le> Suc n" for s
  proof (cases s)
    case (Cons c cs)
    have "2 * length (skip_ws cs) + 2 \<le> n" using f Cons ws[of cs] by simp
    note sub = IH(2)[OF this] IH(3)[OF this]
    consider (str) "c = CHR 0x22" | (obj) "c = CHR ''{''" | (arr) "c = CHR ''[''" |
      (atom) "c \<notin> {CHR 0x22, CHR ''{'', CHR ''[''}" by auto
    then show ?thesis
    proof cases
      case str
      then show ?thesis using Cons scan_str_fuel[of cs] by (auto split: sum.splits)
    next
      case obj
      then show ?thesis using Cons sub(2) hook by (auto split: sum.splits)
    next
      case arr
      then show ?thesis using Cons sub(1) by (auto split: sum.splits)
    next
      case atom
      then show ?thesis using Cons scan_atom_fuel[OF h, of s] by simp
    qed
  qed simp
  have i: "scan_items (Suc n) h s \<noteq> Inl OutOfFuel" if f: "2 * length s + 2 \<le> Suc n" for s
  proof (cases "scan_value n h s")
    case (Inl e)
    then show ?thesis using IH(1)[of s] f by auto
  next
    case (Inr vr)
    obtain v r where vr: "vr = (v, r)" by (cases vr)
    show ?thesis
    proof (cases "skip_ws r")
      case (Cons c cs)
      have "2 * length (skip_ws cs) + 2 \<le> n"
        using f scan_length(1)[of n h s v r] Inr vr skip_ws_Cons_length[OF Cons] ws[of cs] by simp
      from IH(2)[OF this] show ?thesis using Inr vr Cons by (auto split: sum.splits)
    qed (use Inr vr in simp)
  qed
  have o: "scan_members (Suc n) h s \<noteq> Inl OutOfFuel" if f: "2 * length s + 2 \<le> Suc n" for s
  proof
    assume out: "scan_members (Suc n) h s = Inl OutOfFuel"
    then obtain s1 k r0 r1 where a: "s = CHR 0x22 # s1" "scan_str s1 = Inr (k, r0)" "skip_ws r0 = CHR '':'' # r1"
      using scan_str_fuel by (cases s) (auto split: if_splits sum.splits prod.splits list.splits)
    have r1: "2 * length (skip_ws r1) + 4 \<le> n"
      using f a scan_str_length[OF a(2)] skip_ws_Cons_length[OF a(3)] ws[of r1] by simp
    then obtain v r2 c cs where b: "scan_value n h (skip_ws r1) = Inr (v, r2)" "skip_ws r2 = c # cs"
      "scan_members n h (skip_ws cs) = Inl OutOfFuel"
      using out a IH(1)[of "skip_ws r1"] by (auto split: if_splits sum.splits prod.splits list.splits)
    have "2 * length (skip_ws cs) + 2 \<le> n"
      using r1 scan_length(1)[OF b(1)] skip_ws_Cons_length[OF b(2)] ws[of cs] by simp
    from IH(3)[OF this] b(3) show False by simp
  qed
  from v i o show ?case by blast
qed simp

lemma loads_terminates:
  assumes "hooks_answer h"
  shows "json_loads h s \<noteq> Inl OutOfFuel"
proof -
  have "2 * length (skip_ws s) + 1 \<le> 2 * length s + 2" using skip_ws_length[of s] by linarith
  then show ?thesis
    using scan_fuel_all[OF assms] by (auto simp: json_loads_def split: sum.splits)
qed

section \<open>What the strict decoder guarantees\<close>

fun strict_json :: "json \<Rightarrow> bool" where
  "strict_json (JFloat r) \<longleftrightarrow> \<bar>r\<bar> < FLOAT_LIMIT"
| "strict_json (JList vs) \<longleftrightarrow> list_all strict_json vs"
| "strict_json (JObj kvs) \<longleftrightarrow> distinct (map fst kvs) \<and> list_all (\<lambda>(k, v). strict_json v) kvs"
| "strict_json _ \<longleftrightarrow> True"

lemma unique_from_eq:
  "distinct (map fst acc) \<Longrightarrow> unique_from acc kvs =
    (if distinct (map fst (acc @ kvs)) then Inr (acc @ kvs) else Inl (HookError ''duplicate JSON key''))"
  by (induction acc kvs rule: unique_from.induct) auto

lemma unique_object_eq:
  "unique_object kvs = (if distinct (map fst kvs) then Inr (JObj kvs) else Inl (HookError ''duplicate JSON key''))"
  by (simp add: unique_object_def unique_from_eq)

lemma update_new: "k \<notin> fst ` set al \<Longrightarrow> AList.update k v al = al @ [(k, v)]"
  by (induction al) auto

lemma dict_of_distinct:
  "distinct (map fst (acc @ kvs)) \<Longrightarrow> fold (\<lambda>(k, v). AList.update k v) kvs acc = acc @ kvs"
proof (induction kvs arbitrary: acc)
  case (Cons kv kvs)
  obtain k v where kv: "kv = (k, v)" by (cases kv)
  with Cons.prems have "k \<notin> fst ` set acc" by auto
  with kv Cons show ?case by (simp add: update_new)
qed simp

lemma strict_number:
  assumes "scan_number strict_hooks s = Inr (v, r)"
  shows "strict_json v \<and> scan_number plain_hooks s = Inr (v, r)"
proof -
  have pf: "parse_float strict_hooks x = Inr v \<Longrightarrow> strict_json v \<and> parse_float plain_hooks x = Inr v" for x v
    by (auto simp: strict_hooks_def plain_hooks_def finite_float_def split: if_splits)
  show ?thesis using assms pf unfolding scan_number_def Let_def
    by (cases "scan_int_part (if s \<noteq> [] \<and> hd s = CHR ''-'' then tl s else s)")
       (auto split: prod.splits sum.splits if_splits)
qed

lemma strict_atom:
  assumes "scan_atom strict_hooks s = Inr (v, r)"
  shows "strict_json v \<and> scan_atom plain_hooks s = Inr (v, r)"
proof -
  have "scan_const strict_hooks c s \<noteq> Inr x" for c x
    by (simp add: scan_const_def strict_hooks_def invalid_constant_def)
  then show ?thesis using assms strict_number[of s v r] by (auto simp: scan_atom_def split: if_splits)
qed

text \<open>Whatever the strict decoder returns, the plain decoder returns the same, from the same text.\<close>

lemma strict_simulated:
  "(\<forall>s v r. scan_value n strict_hooks s = Inr (v, r) \<longrightarrow> strict_json v \<and> scan_value n plain_hooks s = Inr (v, r)) \<and>
   (\<forall>s vs r. scan_items n strict_hooks s = Inr (vs, r) \<longrightarrow>
      list_all strict_json vs \<and> scan_items n plain_hooks s = Inr (vs, r)) \<and>
   (\<forall>s kvs r. scan_members n strict_hooks s = Inr (kvs, r) \<longrightarrow>
      list_all (\<lambda>(k, v). strict_json v) kvs \<and> scan_members n plain_hooks s = Inr (kvs, r))"
proof (induction n)
  case (Suc n)
  note IH = Suc[THEN conjunct1, rule_format] Suc[THEN conjunct2, THEN conjunct1, rule_format]
    Suc[THEN conjunct2, THEN conjunct2, rule_format]
  have hook: "distinct (map fst kvs) \<and> v = JObj kvs \<and> object_pairs_hook plain_hooks kvs = Inr v"
    if "object_pairs_hook strict_hooks kvs = Inr v" for kvs v
    using that dict_of_distinct[of "[]" kvs]
    by (auto simp: strict_hooks_def plain_hooks_def unique_object_eq split: if_splits)
  have v: "strict_json v \<and> scan_value (Suc n) plain_hooks s = Inr (v, r)"
    if scanned: "scan_value (Suc n) strict_hooks s = Inr (v, r)" for s v r
  proof (cases s)
    case (Cons c cs)
    consider (str) "c = CHR 0x22" | (obj) "c = CHR ''{''" | (arr) "c = CHR ''[''" |
      (atom) "c \<notin> {CHR 0x22, CHR ''{'', CHR ''[''}" by auto
    then show ?thesis
    proof cases
      case str
      then show ?thesis using scanned Cons by (auto split: sum.splits prod.splits)
    next
      case obj
      then show ?thesis using scanned Cons hook IH(3) by (fastforce split: sum.splits prod.splits if_splits)
    next
      case arr
      then show ?thesis using scanned Cons IH(2) by (fastforce split: sum.splits prod.splits if_splits)
    next
      case atom
      then show ?thesis using scanned Cons strict_atom by auto
    qed
  qed (use scanned in simp)
  have i: "list_all strict_json vs \<and> scan_items (Suc n) plain_hooks s = Inr (vs, r)"
    if scanned: "scan_items (Suc n) strict_hooks s = Inr (vs, r)" for s vs r
    using scanned by (rule scan_items_InrE) (use IH(1,2) in fastforce)
  have o: "list_all (\<lambda>(k, v). strict_json v) kvs \<and> scan_members (Suc n) plain_hooks s = Inr (kvs, r)"
    if scanned: "scan_members (Suc n) strict_hooks s = Inr (kvs, r)" for s kvs r
    using scanned by (rule scan_members_InrE) (use IH(1,3) in fastforce)
  from v i o show ?case by blast
qed simp

lemma hooks_answer_strict: "hooks_answer strict_hooks"
  by (simp add: hooks_answer_def strict_hooks_def invalid_constant_def finite_float_def unique_object_eq)

lemma strict_is_plain:
  assumes "loads_strict s = Inr v"
  shows "json_loads plain_hooks s = Inr v" and strict_result: "strict_json v"
proof -
  obtain r where r: "scan_value (2 * length s + 2) strict_hooks (skip_ws s) = Inr (v, r)" "skip_ws r = []"
    using assms by (auto simp: loads_strict_def json_loads_def split: sum.splits prod.splits if_splits)
  from strict_simulated[THEN conjunct1, rule_format, OF r(1)] r(2)
  show "strict_json v" "json_loads plain_hooks s = Inr v" by (simp_all add: json_loads_def)
qed

text \<open>
  The strict decoder is total and strict: it always ends with a value or an error of the
  text, a value it returns is what plain json.loads returns for the text, and at no depth of
  it is there an object with a repeated key or a number that is not finite.
\<close>

theorem loads_strict_sound:
  "loads_strict s \<noteq> Inl OutOfFuel \<and>
   (\<forall>v. loads_strict s = Inr v \<longrightarrow> strict_json v \<and> json_loads plain_hooks s = Inr v)"
proof
  show "loads_strict s \<noteq> Inl OutOfFuel"
    unfolding loads_strict_def by (rule loads_terminates[OF hooks_answer_strict])
qed (blast intro: strict_is_plain strict_result)

theorem loads_strict_sound_witness:
  "json_loads plain_hooks ''{\"a\": [1, true, null]}'' = Inr (JObj [(''a'', JList [JInt 1, JBool True, JNull])])"
proof -
  have "loads_strict ''{\"a\": [1, true, null]}'' = Inr (JObj [(''a'', JList [JInt 1, JBool True, JNull])])"
    by code_simp
  then show ?thesis using loads_strict_sound by blast
qed

end
