(* ===== verification/Context_Limits.thy ===== *)
theory Context_Limits
  imports Provider_Errors Json
begin

text \<open>
  \<^verbatim>\<open>providers/context_limits.py\<close> and \<^verbatim>\<open>providers/observations.py\<close>: the size estimate of a
  prompt, the ceiling a provider teaches by rejecting a prompt as too large, and the filter
  that keeps over-sized prompts from a provider. Floats in a message print through the
  argument \<open>fr\<close>; the fit margin of 0.9 is exact.
\<close>

section \<open>Size of a prompt\<close>

definition content_chars :: "json option \<Rightarrow> int" where
  "content_chars content = (case content of
      Some (JStr s) \<Rightarrow> int (length s)
    | Some (JList blocks) \<Rightarrow>
        sum_list (map (\<lambda>b. case b of
            JObj kvs \<Rightarrow> if obj_get kvs ''type'' = Some (JStr ''text'')
                        then (case obj_get kvs ''text'' of Some (JStr t) \<Rightarrow> int (length t)
                              | Some (JList l) \<Rightarrow> int (length l) | _ \<Rightarrow> 0)
                        else 1000
          | _ \<Rightarrow> 0) blocks)
    | _ \<Rightarrow> 0)"

definition tool_fields :: "(string \<times> json) list \<Rightarrow> (string \<times> json) list" where
  "tool_fields message = concat (map (\<lambda>f. case obj_get message f of
      None \<Rightarrow> [] | Some JNull \<Rightarrow> [] | Some v \<Rightarrow> [(f, v)]) [''tool_calls'', ''tool_call_id''])"

definition estimate_prompt_tokens :: "(rat \<Rightarrow> string) \<Rightarrow> (string \<times> json) list list \<Rightarrow> int" where
  "estimate_prompt_tokens fr messages =
     (sum_list (map (\<lambda>m. content_chars (obj_get m ''content'')) messages) +
      sum_list (map (\<lambda>m. if tool_fields m = [] then 0
                         else int (length (json_dumps fr '','' '':'' (JObj (tool_fields m))))) messages)) div 4"

section \<open>Too large\<close>

definition TOO_LARGE_MARKERS :: "string list" where
  "TOO_LARGE_MARKERS = [''context length'', ''context_length'', ''maximum context'', ''too large'',
     ''too many tokens'', ''request too large'', ''reduce the length'', ''413'', ''string too long'']"

definition RATE_LIMIT_MARKERS :: "string list" where
  "RATE_LIMIT_MARKERS = [''per minute'', ''per day'', ''tpm'', ''rpm'', ''rate limit'', ''rate_limit'',
     ''ratelimit'', ''quota'', ''429'']"

definition MIN_LEARNABLE_CEILING :: int where "MIN_LEARNABLE_CEILING = 4000"

definition is_too_large_error :: "provider_exc \<Rightarrow> bool" where
  "is_too_large_error e =
     (let msg = py_lower (ex_msg e)
      in if any_in RATE_LIMIT_MARKERS msg then False else any_in TOO_LARGE_MARKERS msg)"

section \<open>Ceilings\<close>

definition FIT_MARGIN :: rat where "FIT_MARGIN = 9 / 10"

definition effective_ceiling :: "string \<Rightarrow> int option \<Rightarrow> int option" where
  "effective_ceiling provider learned =
     (case (learned, ps_max_request_tokens (spec_or_default (Some provider))) of
        (Some l, Some s) \<Rightarrow> Some (min l s)
      | (Some l, None) \<Rightarrow> Some l
      | (None, seed) \<Rightarrow> seed)"

definition fits_context :: "string \<Rightarrow> int \<Rightarrow> int option \<Rightarrow> bool" where
  "fits_context provider est_tokens learned =
     (case effective_ceiling provider learned of
        None \<Rightarrow> True
      | Some cap \<Rightarrow> est_tokens \<le> py_trunc (of_int cap * FIT_MARGIN))"

section \<open>Learned ceilings\<close>

record ObservationRow =
  ob_provider :: string
  ob_learned_max :: "int option"
  ob_learned_at :: "instant option"
  ob_sample_count :: int

definition CEILING_TTL_DAYS :: rat where "CEILING_TTL_DAYS = 14"

definition ttl_cutoff :: "instant \<Rightarrow> instant" where
  "ttl_cutoff now = now - CEILING_TTL_DAYS * 86400"

definition learned_ceilings :: "instant \<Rightarrow> ObservationRow list \<Rightarrow> (string \<times> int) list" where
  "learned_ceilings now obs = concat (map (\<lambda>o'. case (ob_learned_max o', ob_learned_at o') of
      (Some n, Some t) \<Rightarrow> if ttl_cutoff now \<le> t then [(ob_provider o', n)] else []
    | _ \<Rightarrow> []) obs)"

definition relearn :: "instant \<Rightarrow> int \<Rightarrow> ObservationRow \<Rightarrow> ObservationRow" where
  "relearn now n o' = o'\<lparr>
     ob_learned_max := (case (ob_learned_max o', ob_learned_at o') of
         (Some old, Some t) \<Rightarrow> if t < ttl_cutoff now \<or> n < old then Some n else Some old
       | _ \<Rightarrow> Some n),
     ob_learned_at := Some now, ob_sample_count := ob_sample_count o' + 1\<rparr>"

text \<open>\<open>fails\<close>: the upsert raises; the failure is logged and swallowed.\<close>

definition record_too_large ::
  "instant \<Rightarrow> bool \<Rightarrow> string \<Rightarrow> int \<Rightarrow> ObservationRow list \<Rightarrow> ObservationRow list" where
  "record_too_large now fails provider est_tokens obs =
     (if est_tokens < MIN_LEARNABLE_CEILING \<or> fails then obs
      else if list_ex (\<lambda>o'. ob_provider o' = provider) obs
      then update_where (\<lambda>o'. ob_provider o' = provider) (relearn now est_tokens) obs
      else obs @ [\<lparr>ob_provider = provider, ob_learned_max = Some est_tokens,
                   ob_learned_at = Some now, ob_sample_count = 1\<rparr>])"

section \<open>Lemmas\<close>

interpretation observation_upsert: row_update ob_provider "relearn now n" for now n
  by unfold_locales (simp add: relearn_def)

lemma content_chars_nonneg: "0 \<le> content_chars c"
  unfolding content_chars_def
  by (auto split: option.splits json.splits intro!: sum_list_nonneg)

definition obs_ok :: "ObservationRow list \<Rightarrow> bool" where
  "obs_ok obs \<longleftrightarrow> distinct (map ob_provider obs) \<and>
     (\<forall>o' \<in> set obs. \<forall>n. ob_learned_max o' = Some n \<longrightarrow> MIN_LEARNABLE_CEILING \<le> n)"

lemma learned_ceilings_map:
  assumes "distinct (map ob_provider obs)"
  shows "map_of (learned_ceilings now obs) p = (case find_row ob_provider p obs of
      Some o' \<Rightarrow> (case (ob_learned_max o', ob_learned_at o') of
         (Some n, Some t) \<Rightarrow> if ttl_cutoff now \<le> t then Some n else None | _ \<Rightarrow> None)
    | None \<Rightarrow> None)"
  using assms
proof (induction obs)
  case (Cons o' obs)
  have "find_row ob_provider (ob_provider o') obs = None"
    using Cons.prems by (auto simp: find_row_None_iff)
  with Cons show ?case
    by (auto simp: learned_ceilings_def split: option.splits)
qed (simp add: learned_ceilings_def)

lemma record_too_large_find:
  assumes "MIN_LEARNABLE_CEILING \<le> n"
  shows "find_row ob_provider q (record_too_large now False p n obs) =
    (if q = p then Some (case find_row ob_provider p obs of
         Some o' \<Rightarrow> relearn now n o'
       | None \<Rightarrow> \<lparr>ob_provider = p, ob_learned_max = Some n, ob_learned_at = Some now, ob_sample_count = 1\<rparr>)
     else find_row ob_provider q obs)"
proof (cases "list_ex (\<lambda>o'. ob_provider o' = p) obs")
  case True
  then have "find_row ob_provider p obs \<noteq> None"
    by (auto simp: find_row_None_iff list_ex_iff image_iff)
  then show ?thesis
    using True assms observation_upsert.find_updated_key[of q p "\<lambda>_. True" now n obs]
    by (auto simp: record_too_large_def)
next
  case False
  then have "find_row ob_provider p obs = None" by (auto simp: find_row_None_iff list_ex_iff)
  then show ?thesis using False assms by (auto simp: record_too_large_def find_row_append split: option.splits)
qed

lemma record_too_large_ok:
  assumes "obs_ok obs"
  shows "obs_ok (record_too_large now fails p n obs)"
proof -
  have "MIN_LEARNABLE_CEILING \<le> m"
    if "o' \<in> set obs" "ob_learned_max (relearn now n o') = Some m" "MIN_LEARNABLE_CEILING \<le> n" for o' m
    using assms that by (auto simp: obs_ok_def relearn_def split: option.splits if_splits)
  moreover have "distinct (map ob_provider (update_where P (relearn now n) obs))" for P
    using assms observation_upsert.distinct_kept unfolding obs_ok_def by blast
  ultimately show ?thesis
    using assms by (auto simp: record_too_large_def obs_ok_def set_update_where list_ex_iff split: if_splits)
qed

lemma effective_ceiling_code [code]:
  "effective_ceiling provider learned =
     (case (learned, fst (opt_or (map_of traits_table provider) (None, False, False, 1000))) of
        (Some l, Some s) \<Rightarrow> Some (min l s)
      | (Some l, None) \<Rightarrow> Some l
      | (None, seed) \<Rightarrow> seed)"
  unfolding effective_ceiling_def max_request_tokens_table ..

lemma seed_bound:
  assumes "ps_max_request_tokens (spec_or_default (Some p)) = Some c"
  shows "8000 \<le> c"
proof -
  have "list_all (\<lambda>(n, s, r). case s of None \<Rightarrow> True | Some c \<Rightarrow> 8000 \<le> c) traits_table" by code_simp
  with assms show ?thesis
    by (fastforce simp: max_request_tokens_table opt_or_def list_all_iff split: option.splits dest!: map_of_SomeD)
qed

lemma fits_margin: "est \<le> py_trunc (of_int cap * FIT_MARGIN) \<longleftrightarrow> 10 * est \<le> 9 * cap" if "0 \<le> cap"
proof -
  have "py_trunc (of_int cap * FIT_MARGIN) = \<lfloor>(of_int cap * 9 / 10 :: rat)\<rfloor>"
    using that by (simp add: py_trunc_def FIT_MARGIN_def not_less)
  moreover have "est \<le> \<lfloor>(of_int cap * 9 / 10 :: rat)\<rfloor> \<longleftrightarrow> of_int est \<le> (of_int cap * 9 / 10 :: rat)"
    by (rule le_floor_iff)
  moreover have "of_int est \<le> (of_int cap * 9 / 10 :: rat) \<longleftrightarrow> (of_int (10 * est) :: rat) \<le> of_int (9 * cap)"
    by (simp add: field_simps)
  ultimately show ?thesis by (simp only: of_int_le_iff)
qed

section \<open>Properties\<close>

text \<open>
  What a rejection teaches: after a provider refused a prompt of n tokens as too large
  (n at least 4000), prompts of that size or more are kept from it for fourteen days, the
  ceilings of the other providers stay, no learned ceiling falls below 4000, and so a prompt
  of at most 3600 tokens fits every provider.
\<close>

theorem size_learning_is_sound:
  assumes "obs_ok obs" "4000 \<le> n"
  shows "(\<forall>est now'. n \<le> est \<and> now' \<le> now + 14 * 86400 \<longrightarrow>
      \<not> fits_context p est (map_of (learned_ceilings now' (record_too_large now False p n obs)) p)) \<and>
    (\<forall>q now'. q \<noteq> p \<longrightarrow> map_of (learned_ceilings now' (record_too_large now False p n obs)) q
       = map_of (learned_ceilings now' obs) q) \<and>
    obs_ok (record_too_large now False p n obs) \<and>
    (\<forall>q est now'. est \<le> 3600 \<longrightarrow> fits_context q est (map_of (learned_ceilings now' (record_too_large now False p n obs)) q))"
proof (intro conjI allI impI)
  let ?obs = "record_too_large now False p n obs"
  have n: "MIN_LEARNABLE_CEILING \<le> n" using assms(2) by (simp add: MIN_LEARNABLE_CEILING_def)
  show ok: "obs_ok ?obs" by (rule record_too_large_ok[OF assms(1)])
  then have d: "distinct (map ob_provider ?obs)" "distinct (map ob_provider obs)"
    using assms(1) by (simp_all add: obs_ok_def)
  note lc = learned_ceilings_map[OF d(1)]
  show "map_of (learned_ceilings now' ?obs) q = map_of (learned_ceilings now' obs) q" if "q \<noteq> p" for q now'
    using that n by (simp add: lc learned_ceilings_map[OF d(2)] record_too_large_find)
  show "\<not> fits_context p est (map_of (learned_ceilings now' ?obs) p)"
    if "n \<le> est \<and> now' \<le> now + 14 * 86400" for est now'
  proof -
    have "ttl_cutoff now' \<le> now" using that by (simp add: ttl_cutoff_def CEILING_TTL_DAYS_def)
    moreover have "4000 \<le> m" if "find_row ob_provider p obs = Some o'" "ob_learned_max o' = Some m" for o' m
      using assms(1) find_row_SomeD[OF that(1)] that(2) unfolding obs_ok_def MIN_LEARNABLE_CEILING_def by blast
    ultimately obtain m where m: "map_of (learned_ceilings now' ?obs) p = Some m" "4000 \<le> m" "m \<le> n"
      using n assms(2) by (fastforce simp: lc record_too_large_find relearn_def split: option.splits if_splits)
    then obtain c where c: "effective_ceiling p (Some m) = Some c" "c \<le> n" "4000 \<le> c"
      using seed_bound[of p] by (fastforce simp: effective_ceiling_def min_def split: option.splits)
    with m(1) that show ?thesis by (auto simp: fits_context_def fits_margin)
  qed
  show "fits_context q est (map_of (learned_ceilings now' ?obs) q)" if "est \<le> 3600" for q est now'
  proof -
    have "4000 \<le> c" if "effective_ceiling q (map_of (learned_ceilings now' ?obs) q) = Some c" for c
      using that seed_bound[of q] ok find_row_SomeD[of ob_provider q ?obs]
      by (fastforce simp: effective_ceiling_def lc obs_ok_def MIN_LEARNABLE_CEILING_def min_def split: option.splits if_splits)
    with that show ?thesis by (fastforce simp: fits_context_def fits_margin split: option.splits)
  qed
qed

theorem size_learning_is_sound_witness:
  "\<not> fits_context ''zai'' 30000 (map_of (learned_ceilings 86400 (record_too_large 0 False ''zai'' 24000 [])) ''zai'')"
  using size_learning_is_sound[of "[]" 24000 0 "''zai''"] by (simp add: obs_ok_def)

text \<open>
  A learned ceiling of 4000 keeps a prompt of 3900 tokens out although that prompt is
  below the smallest learnable ceiling.
\<close>

theorem small_prompt_may_not_fit:
  "fits_context ''zai'' 3900 (map_of (learned_ceilings 10 (record_too_large 0 False ''zai'' 4000 [])) ''zai'') = False \<and>
   3900 < MIN_LEARNABLE_CEILING"
  by code_simp

end
