(* ===== verification/Model_Table.thy ===== *)
theory Model_Table
  imports Provider_Specs
begin

text \<open>
  The model catalog of the registry written out: provider, price kind, prices and
  capabilities of every model, with the proof that \<open>model_spec\<close> reads exactly this table.
  The components evaluate the table instead of rebuilding the registry.
\<close>

definition registry_models :: "(string \<times> ModelSpec) list" where
  "registry_models = concat (map (\<lambda>(n, s). ps_models s) REGISTRY)"

definition model_facts ::
  "ModelSpec \<Rightarrow> string \<times> pricing \<times> rat option \<times> rat option \<times> rat option \<times> string list" where
  "model_facts m = (ms_provider m, ms_pricing m, ms_input_usd_per_mtok m, ms_output_usd_per_mtok m,
     ms_usd_per_minute m, ms_capabilities m)"

definition model_table ::
  "(string \<times> string \<times> pricing \<times> rat option \<times> rat option \<times> rat option \<times> string list) list" where
  "model_table =
    [(''cerebras/gpt-oss-120b'', ''cerebras'', P_litellm, None, None, None,
       [''chat:fast'', ''chat:smart'', ''chat:code'', ''structured'']),
     (''groq/openai/gpt-oss-120b'', ''groq'', P_litellm, None, None, None,
       [''chat:fast'', ''chat:smart'', ''chat:code'', ''prefilter'', ''structured'', ''translate'']),
     (''groq/whisper-large-v3-turbo'', ''groq'', P_per_minute, None, None, Some (1 / 1500),
       [''transcription'']),
     (''groq/whisper-large-v3'', ''groq'', P_per_minute, None, None, Some (37 / 20000),
       []),
     (''gemini/gemini-2.5-flash'', ''gemini'', P_litellm, None, None, None,
       [''chat:fast'', ''chat:smart'', ''chat:sales'', ''chat:code'', ''chat:edit'', ''structured'', ''vision'']),
     (''gemini/gemini-2.5-flash-lite'', ''gemini'', P_litellm, None, None, None,
       [''prefilter'', ''translate'']),
     (''gemini/gemini-3.5-transcribe'', ''gemini'', P_per_minute, None, None, Some (1 / 200),
       [''transcription'']),
     (''gemini/gemini-3.5-flash-lite'', ''gemini'', P_litellm, None, None, None,
       [''chat:fast'', ''chat:smart'', ''chat:sales'', ''chat:code'', ''chat:edit'', ''structured'', ''prefilter'', ''translate'', ''vision'']),
     (''gemini/gemini-3.6-flash'', ''gemini'', P_litellm, None, None, None,
       [''chat:fast'', ''chat:smart'', ''chat:sales'', ''chat:code'', ''chat:edit'', ''structured'', ''prefilter'', ''translate'']),
     (''gemini/gemini-3.1-flash-lite'', ''gemini'', P_litellm, None, None, None,
       [''chat:fast'', ''chat:smart'', ''chat:sales'', ''chat:code'', ''chat:edit'', ''structured'', ''prefilter'', ''translate'', ''vision'']),
     (''gemini/gemini-3.5-flash'', ''gemini'', P_litellm, None, None, None,
       [''chat:fast'', ''chat:smart'', ''chat:sales'', ''chat:code'', ''chat:edit'', ''structured'', ''prefilter'', ''translate'', ''vision'']),
     (''sambanova/gemma-4-31B-it'', ''sambanova'', P_litellm, None, None, None,
       [''chat:fast'', ''prefilter'', ''vision'']),
     (''sambanova/DeepSeek-V3.2'', ''sambanova'', P_litellm, None, None, None,
       [''chat:smart'', ''chat:sales'', ''chat:code'']),
     (''zai/glm-4.7-flash'', ''zai'', P_litellm, None, None, None,
       [''chat:fast'', ''prefilter'']),
     (''cloudflare/@cf/llava-hf/llava-1.5-7b-hf'', ''cloudflare'', P_free, None, None, None,
       [''vision'']),
     (''cloudflare/@cf/openai/gpt-oss-120b'', ''cloudflare'', P_litellm, None, None, None,
       [''chat:fast'', ''chat:smart'', ''chat:code'', ''prefilter'']),
     (''openrouter/google/gemma-4-31b-it:free'', ''openrouter'', P_free, None, None, None,
       [''chat:fast'', ''chat:smart'', ''chat:code'', ''prefilter'', ''structured'', ''vision'']),
     (''openrouter/typesafe/jev-1.13'', ''openrouter'', P_override, Some (21 / 500), Some 0, None,
       [''decision'']),
     (''openrouter/meta/muse-wonder'', ''openrouter'', P_override, Some 4, Some 20, None,
       [''chat:code'']),
     (''openrouter/x-ai/grok-4.7'', ''openrouter'', P_override, Some 2, Some 6, None,
       [''chat:code'']),
     (''openrouter/xiaomi/mimo-v2.6-pro'', ''openrouter'', P_override, Some (87 / 200), Some (87 / 100), None,
       [''chat:code'']),
     (''openrouter/qwen/qwen3.8-max-0902'', ''openrouter'', P_override, Some 2, Some 6, None,
       [''chat:code'']),
     (''openrouter/moonshotai/kimi-k3'', ''openrouter'', P_override, Some (9 / 20), Some 15, None,
       [''chat:code'']),
     (''openrouter/inception/mercury-decide:free'', ''openrouter'', P_free, None, None, None,
       [''decision'']),
     (''mistral/mistral-small-latest'', ''mistral'', P_litellm, None, None, None,
       [''chat:fast'', ''prefilter'', ''structured'', ''translate'']),
     (''mistral/mistral-large-latest'', ''mistral'', P_litellm, None, None, None,
       [''chat:smart'']),
     (''mistral/codestral-latest'', ''mistral'', P_litellm, None, None, None,
       [''chat:code'']),
     (''cohere/command-r7b-12-2024'', ''cohere'', P_litellm, None, None, None,
       [''chat:fast'', ''chat:smart'', ''chat:code'', ''prefilter'', ''structured'', ''translate'']),
     (''cohere/embed-english-v3.0'', ''cohere'', P_litellm, None, None, None,
       [''embedding'']),
     (''nvidia_nim/nvidia/nemotron-3-ultra-550b-a55b'', ''nvidia'', P_free, None, None, None,
       [''chat:deep'']),
     (''voyage/voyage-4'', ''voyage'', P_override, Some (3 / 50), Some 0, None,
       [''embedding'']),
     (''local/qwen3vl'', ''local'', P_local, None, None, None,
       [''vision'']),
     (''deepseek/deepseek-flash'', ''deepseek'', P_override, Some (3 / 20), Some (3 / 5), None,
       [''chat:fast'', ''chat:smart'', ''chat:sales'', ''chat:edit'', ''chat:code'', ''vision'']),
     (''anthropic/claude-haiku-4-5'', ''anthropic'', P_litellm, None, None, None,
       [''chat:fast'', ''structured'']),
     (''anthropic/claude-sonnet-5'', ''anthropic'', P_litellm, None, None, None,
       [''chat:smart'', ''chat:sales'', ''chat:code'', ''chat:edit'', ''vision'']),
     (''openai/gpt-5-mini'', ''openai'', P_litellm, None, None, None,
       [''chat:fast'', ''structured'', ''vision'']),
     (''openai/gpt-5'', ''openai'', P_litellm, None, None, None,
       [''chat:smart'', ''chat:code'']),
     (''openai/whisper-1'', ''openai'', P_per_minute, None, None, Some (3 / 500),
       [''transcription''])]"

lemma registry_models_table:
  "map (\<lambda>(i, m). (i, model_facts m)) registry_models = model_table \<and> list_all (\<lambda>(i, m). ms_id m = i) registry_models"
  by code_simp

lemma model_table_distinct: "distinct (map fst model_table)"
  by code_simp

lemma registry_models_distinct: "distinct (map fst registry_models)"
proof -
  have "map fst registry_models = map fst model_table"
    unfolding registry_models_table[THEN conjunct1, symmetric] by (simp add: comp_def case_prod_beta)
  then show ?thesis using model_table_distinct by simp
qed

text \<open>The provider's own table and the scan of all providers agree.\<close>

lemma model_spec_registry: "model_spec model = map_of registry_models model"
proof (cases "map_of REGISTRY (provider_of_model_id model)")
  case (Some s)
  show ?thesis
  proof (cases "map_of (ps_models s) model")
    case (Some m)
    have "(model, m) \<in> set registry_models"
      using \<open>map_of REGISTRY (provider_of_model_id model) = Some s\<close> Some
      unfolding registry_models_def by (force dest: map_of_SomeD)
    then have "map_of registry_models model = Some m" by (simp add: registry_models_distinct)
    then show ?thesis using Some \<open>map_of REGISTRY (provider_of_model_id model) = Some s\<close>
      by (simp add: model_spec_def)
  next
    case None
    then show ?thesis using Some by (simp add: model_spec_def registry_models_def)
  qed
qed (simp add: model_spec_def registry_models_def)

lemma model_facts_table: "map_option model_facts (model_spec model) = map_of model_table model"
  unfolding model_spec_registry registry_models_table[THEN conjunct1, symmetric] by (simp add: map_of_map_snd)

lemma model_spec_id: "model_spec model = Some m \<Longrightarrow> ms_id m = model"
  using registry_models_table[THEN conjunct2]
  by (auto simp: model_spec_registry list_all_iff dest!: map_of_SomeD)

text \<open>Only Gemini rotates.\<close>

lemma gemini_rotation_only:
  "filter (\<lambda>(n, r). r \<noteq> []) (map (\<lambda>(n, s). (n, ps_rotation s)) REGISTRY)
   = [(''gemini'', map (\<lambda>c. (c, GEMINI_CHAT_ROTATION)) GEMINI_CHAT_LANES @ [(''vision'', GEMINI_VISION_ROTATION)])]"
  by code_simp

lemma map_of_filter_snd:
  "distinct (map fst xs) \<Longrightarrow> (\<And>v. \<not> P v \<Longrightarrow> v = d) \<Longrightarrow>
   opt_or (map_of (filter (\<lambda>(n, v). P v) xs) k) d = opt_or (map_of xs k) d"
  by (induction xs) (auto simp: opt_or_def image_iff split: option.splits dest: map_of_SomeD)

lemma rotation_for_table [code]:
  "rotation_for provider capability =
     (if provider = ''gemini'' then
        opt_or (map_of (map (\<lambda>c. (c, GEMINI_CHAT_ROTATION)) GEMINI_CHAT_LANES @ [(''vision'', GEMINI_VISION_ROTATION)]) capability) []
      else [])"
proof -
  have "distinct (map fst (map (\<lambda>(n, s). (n, ps_rotation s)) REGISTRY))"
    using SPECS_names unfolding REGISTRY_eq by (simp add: comp_def)
  from map_of_filter_snd[OF this, of "\<lambda>r. r \<noteq> []" "[]" provider]
  have "opt_or (map_option ps_rotation (map_of REGISTRY provider)) [] =
      (if provider = ''gemini'' then map (\<lambda>c. (c, GEMINI_CHAT_ROTATION)) GEMINI_CHAT_LANES @ [(''vision'', GEMINI_VISION_ROTATION)] else [])"
    unfolding gemini_rotation_only by (auto simp: map_of_map_snd opt_or_def)
  moreover have "ps_rotation (spec_or_default (Some provider)) = opt_or (map_option ps_rotation (map_of REGISTRY provider)) []"
    by (cases "map_of REGISTRY provider") (simp_all add: spec_or_default_def opt_or_def new_ProviderSpec_def)
  ultimately show ?thesis
    by (auto simp: rotation_for_def spec_rotation_def opt_or_def split: option.splits)
qed

end
