(* ===== verification/Pricing.thy ===== *)
theory Pricing
  imports Model_Table Calendar
begin

text \<open>
  \<^verbatim>\<open>providers/peak_pricing.py\<close>, \<^verbatim>\<open>providers/pricing.py\<close> and \<^verbatim>\<open>providers/cost.py\<close>: the cost of a
  call, estimated before it is made. LiteLLM's price map is the argument \<open>pm\<close>: what
  \<^verbatim>\<open>cost_per_token\<close> returns (\<open>None\<close>: it raises) and the entry \<^verbatim>\<open>get_model_info\<close> finds.
\<close>

section \<open>Peak hours\<close>

definition DEEPSEEK_PEAK_FROM :: date where "DEEPSEEK_PEAK_FROM = (2026, 7, 15)"
definition DEEPSEEK_PEAK_HOURS_UTC :: "int list" where "DEEPSEEK_PEAK_HOURS_UTC = [1, 2, 3, 6, 7, 8, 9]"
definition DEEPSEEK_PEAK_FACTOR :: rat where "DEEPSEEK_PEAK_FACTOR = 2"
definition DEEPSEEK_PEAK_WEEKDAYS :: "int list" where "DEEPSEEK_PEAK_WEEKDAYS = [0, 1, 2, 3, 4]"

definition peak_multiplier :: "string \<Rightarrow> datetime \<Rightarrow> rat" where
  "peak_multiplier provider now =
     (if provider = ''deepseek'' \<and> ordinal DEEPSEEK_PEAK_FROM \<le> ordinal (date_of now) \<and>
         weekday (date_of now) \<in> set DEEPSEEK_PEAK_WEEKDAYS \<and> dt_hour now \<in> set DEEPSEEK_PEAK_HOURS_UTC
      then DEEPSEEK_PEAK_FACTOR else 1)"

section \<open>The price map\<close>

record model_info =
  mi_input :: "rat option"
  mi_input_audio :: "rat option"
  mi_input_per_second :: "rat option"
  mi_cache_write :: "rat option"
  mi_cache_write_1h :: "rat option"

record price_map =
  pm_cost :: "string \<Rightarrow> int \<Rightarrow> int \<Rightarrow> int \<Rightarrow> int \<Rightarrow> rat option"
  pm_info :: "string \<Rightarrow> model_info option"

definition AUDIO_INPUT_USD_PER_M :: "(string \<times> rat) list" where
  "AUDIO_INPUT_USD_PER_M =
     [(''gemini/gemini-2.5-flash'', 1), (''gemini/gemini-2.5-flash-lite'', 3 / 10),
      (''gemini/gemini-3.1-flash-lite'', 1 / 2)]"

definition MIN_BILLED_AUDIO_S :: "(string \<times> rat) list" where
  "MIN_BILLED_AUDIO_S = [(''groq'', 10)]"

definition nonzero :: "rat option \<Rightarrow> rat option" where
  "nonzero r = (case r of Some x \<Rightarrow> if x = 0 then None else Some x | None \<Rightarrow> None)"

definition audio_input_rate :: "price_map \<Rightarrow> string \<Rightarrow> rat option" where
  "audio_input_rate pm model = (case map_of AUDIO_INPUT_USD_PER_M model of
      Some r \<Rightarrow> Some (r / 1000000)
    | None \<Rightarrow> (case pm_info pm model of None \<Rightarrow> None | Some i \<Rightarrow> nonzero (mi_input_audio i)))"

definition audio_surcharge :: "price_map \<Rightarrow> string \<Rightarrow> int \<Rightarrow> usd" where
  "audio_surcharge pm model audio_tokens =
     (if audio_tokens \<le> 0 then 0
      else case audio_input_rate pm model of
        None \<Rightarrow> 0
      | Some audio \<Rightarrow> (case pm_info pm model of
            None \<Rightarrow> 0
          | Some i \<Rightarrow> max (audio - opt_or (mi_input i) 0) 0 * of_int audio_tokens))"

definition is_priced :: "price_map \<Rightarrow> string \<Rightarrow> bool" where
  "is_priced pm model = (case pm_info pm model of
      None \<Rightarrow> False | Some i \<Rightarrow> mi_input i \<noteq> None \<or> mi_input_per_second i \<noteq> None)"

section \<open>Price overrides\<close>

text \<open>
  What \<^verbatim>\<open>register_price_overrides\<close> pushes into LiteLLM's map: the input, output and cached
  input rate per token of a registered model, with its extra fields.
\<close>

record price_entry =
  pe_input :: rat
  pe_output :: rat
  pe_cache_read :: "rat option"
  pe_extra :: "(string \<times> json) list"

definition price_entry_of :: "ModelSpec \<Rightarrow> price_entry option" where
  "price_entry_of m =
     (if ms_pricing m = P_free \<and> ms_register m
      then Some \<lparr>pe_input = 0, pe_output = 0, pe_cache_read = None,
                 pe_extra = [(''litellm_provider'', JStr (ms_provider m)), (''mode'', JStr ''chat'')] @ ms_litellm_extra m\<rparr>
      else if ms_pricing m \<noteq> P_override \<or> \<not> ms_register m then None
      else Some \<lparr>pe_input = opt_or (ms_input_usd_per_mtok m) 0 / 1000000,
                 pe_output = opt_or (ms_output_usd_per_mtok m) 0 / 1000000,
                 pe_cache_read = map_option (\<lambda>r. r / 1000000) (ms_cache_read_usd_per_mtok m),
                 pe_extra = ms_litellm_extra m\<rparr>)"

definition register_price_overrides :: "(string \<times> price_entry) list" where
  "register_price_overrides =
     concat (map (\<lambda>m. case price_entry_of m of None \<Rightarrow> [] | Some e \<Rightarrow> [(ms_id m, e)]) all_models)"

section \<open>Chat\<close>

definition CACHE_TTL :: "string option" where "CACHE_TTL = Some ''1h''"

definition extended_ttl_write_premium :: "price_map \<Rightarrow> string \<Rightarrow> int \<Rightarrow> usd" where
  "extended_ttl_write_premium pm model cache_write_tokens =
     (if CACHE_TTL = None \<or> cache_write_tokens \<le> 0 then 0
      else case pm_info pm model of
        None \<Rightarrow> 0
      | Some i \<Rightarrow> (case (nonzero (mi_cache_write i), nonzero (mi_cache_write_1h i)) of
            (Some d, Some x) \<Rightarrow> of_int cache_write_tokens * (x - d)
          | _ \<Rightarrow> 0))"

definition bills_on_free_key :: "string option \<Rightarrow> bool" where
  "bills_on_free_key model = (case model of
      None \<Rightarrow> False
    | Some m \<Rightarrow> if m = [] then False else (case model_spec m of
          None \<Rightarrow> False
        | Some s \<Rightarrow> ms_provider s = ''openrouter'' \<and> ms_pricing s = P_override \<and>
            (opt_or (ms_input_usd_per_mtok s) 0 > 0 \<or> opt_or (ms_output_usd_per_mtok s) 0 > 0)))"

definition override_cost :: "string \<Rightarrow> int \<Rightarrow> int \<Rightarrow> usd option" where
  "override_cost model tokens_in tokens_out = (case model_spec model of
      Some s \<Rightarrow> if ms_provider s = ''openrouter'' \<and> ms_pricing s = P_override
         then Some ((of_int tokens_in * opt_or (ms_input_usd_per_mtok s) 0 +
                     of_int tokens_out * opt_or (ms_output_usd_per_mtok s) 0) / 1000000)
         else None
    | None \<Rightarrow> None)"

definition estimate_llm_cost ::
  "price_map \<Rightarrow> datetime \<Rightarrow> string \<Rightarrow> int \<Rightarrow> int \<Rightarrow> int \<Rightarrow> int \<Rightarrow> int \<Rightarrow> usd" where
  "estimate_llm_cost pm tm model tokens_in tokens_out cache_read_tokens cache_write_tokens audio_input_tokens =
     (let mult = peak_multiplier (provider_of_model_id model) tm;
          over = override_cost model tokens_in tokens_out
      in case pm_cost pm model tokens_in tokens_out cache_read_tokens cache_write_tokens of
           None \<Rightarrow> (case over of Some c \<Rightarrow> c * mult | None \<Rightarrow> 0)
         | Some c \<Rightarrow>
             let base = c + extended_ttl_write_premium pm model cache_write_tokens
                          + audio_surcharge pm model audio_input_tokens
             in (case over of Some oc \<Rightarrow> max base oc | None \<Rightarrow> base) * mult)"

section \<open>Audio\<close>

definition GEMINI_AUDIO_TOKENS_PER_S :: rat where "GEMINI_AUDIO_TOKENS_PER_S = 32"
definition ASSUMED_AUDIO_BPS :: rat where "ASSUMED_AUDIO_BPS = 32000"

definition estimate_audio_seconds :: "int \<Rightarrow> rat" where
  "estimate_audio_seconds n_bytes = of_int n_bytes * 8 / ASSUMED_AUDIO_BPS"

definition whisper_cost :: "string \<Rightarrow> rat \<Rightarrow> usd" where
  "whisper_cost model audio_s =
     (case (case model_spec model of
              Some s \<Rightarrow> if ms_pricing s = P_per_minute then ms_usd_per_minute s else None
            | None \<Rightarrow> None) of
        None \<Rightarrow> 0
      | Some rate \<Rightarrow> rate * max audio_s (opt_or (map_of MIN_BILLED_AUDIO_S (provider_of_model_id model)) 0) / 60)"

definition estimate_transcription_cost :: "price_map \<Rightarrow> datetime \<Rightarrow> string \<Rightarrow> int \<Rightarrow> usd" where
  "estimate_transcription_cost pm tm model n_bytes =
     (let audio_s = estimate_audio_seconds n_bytes;
          pricing = map_option ms_pricing (model_spec model)
      in if pricing = Some P_per_minute then whisper_cost model audio_s
         else if pricing = Some P_local then 0
         else let tokens_in = py_trunc (audio_s * GEMINI_AUDIO_TOKENS_PER_S)
              in estimate_llm_cost pm tm model tokens_in 2048 0 0 tokens_in)"

section \<open>Lemmas\<close>

lemma bills_on_free_key_table [code]:
  "bills_on_free_key model = (case model of
      None \<Rightarrow> False
    | Some m \<Rightarrow> if m = [] then False else (case map_of model_table m of
          None \<Rightarrow> False
        | Some (p, pr, i, o', r) \<Rightarrow> p = ''openrouter'' \<and> pr = P_override \<and> (opt_or i 0 > 0 \<or> opt_or o' 0 > 0)))"
  unfolding model_facts_table[symmetric]
  by (auto simp: bills_on_free_key_def model_facts_def split: option.splits)

lemma override_cost_table [code]:
  "override_cost model tokens_in tokens_out = (case map_of model_table model of
      Some (p, pr, i, o', r) \<Rightarrow> if p = ''openrouter'' \<and> pr = P_override
         then Some ((of_int tokens_in * opt_or i 0 + of_int tokens_out * opt_or o' 0) / 1000000) else None
    | None \<Rightarrow> None)"
  unfolding model_facts_table[symmetric]
  by (auto simp: override_cost_def model_facts_def split: option.splits)

lemma peak_multiplier_cases: "peak_multiplier p tm = 1 \<or> p = ''deepseek'' \<and> peak_multiplier p tm = 2"
  by (simp add: peak_multiplier_def DEEPSEEK_PEAK_FACTOR_def)

lemma peak_multiplier_ge: "1 \<le> peak_multiplier p tm"
  using peak_multiplier_cases[of p tm] by auto

lemma audio_surcharge_nonneg: "0 \<le> audio_surcharge pm model n"
  by (auto simp: audio_surcharge_def split: option.splits intro!: mult_nonneg_nonneg)

lemma le_mult_peak: "0 \<le> x \<Longrightarrow> x \<le> x * peak_multiplier p tm"
  using mult_left_mono[OF peak_multiplier_ge[of p tm], of x] by simp

lemma estimate_override_le:
  assumes "override_cost model tin tout = Some oc" "0 \<le> oc"
  shows "oc \<le> estimate_llm_cost pm tm model tin tout cr cw au"
proof (cases "pm_cost pm model tin tout cr cw")
  case None
  then show ?thesis using assms le_mult_peak by (simp add: estimate_llm_cost_def Let_def)
next
  case (Some c)
  let ?base = "c + extended_ttl_write_premium pm model cw + audio_surcharge pm model au"
  have "oc \<le> max ?base oc" "0 \<le> max ?base oc" using assms(2) by simp_all
  then have "oc \<le> max ?base oc * peak_multiplier (provider_of_model_id model) tm"
    using le_mult_peak order_trans by blast
  then show ?thesis using Some assms(1) by (simp add: estimate_llm_cost_def Let_def)
qed

section \<open>Properties\<close>

text \<open>
  A paid OpenRouter route never slips through as free: whatever LiteLLM's map says (no
  price, a zero price, an exception), a model the registry prices on OpenRouter is estimated
  at no less than the registry's price, so a call with a billed token is reserved at a
  positive cost even on a key marked free. Outside DeepSeek's weekday peak hours no
  multiplier applies, and it is never below one.
\<close>

theorem openrouter_route_is_never_free:
  assumes "model_spec model = Some s" "ms_provider s = ''openrouter''" "ms_pricing s = P_override"
    and rates: "0 \<le> opt_or (ms_input_usd_per_mtok s) 0" "0 \<le> opt_or (ms_output_usd_per_mtok s) 0"
    and "0 \<le> tin" "0 \<le> tout"
  shows "(of_int tin * opt_or (ms_input_usd_per_mtok s) 0 + of_int tout * opt_or (ms_output_usd_per_mtok s) 0) / 1000000
      \<le> estimate_llm_cost pm tm model tin tout cr cw au \<and>
    (0 < tin \<and> 0 < tout \<and> bills_on_free_key (Some model) \<longrightarrow> 0 < estimate_llm_cost pm tm model tin tout cr cw au) \<and>
    1 \<le> peak_multiplier p tm \<and> (weekday (date_of tm) \<in> {5, 6} \<longrightarrow> peak_multiplier p tm = 1)"
proof (intro conjI impI)
  let ?i = "opt_or (ms_input_usd_per_mtok s) 0" and ?o = "opt_or (ms_output_usd_per_mtok s) 0"
  let ?c = "(of_int tin * ?i + of_int tout * ?o) / 1000000"
  have oc: "override_cost model tin tout = Some ?c" using assms(1-3) by (simp add: override_cost_def)
  have nn: "0 \<le> of_int tin * ?i" "0 \<le> of_int tout * ?o" using assms(4-7) by (simp_all add: mult_nonneg_nonneg)
  then show le: "?c \<le> estimate_llm_cost pm tm model tin tout cr cw au"
    by (intro estimate_override_le[OF oc]) simp
  show "0 < estimate_llm_cost pm tm model tin tout cr cw au"
    if "0 < tin \<and> 0 < tout \<and> bills_on_free_key (Some model)"
  proof -
    have "0 < ?i \<or> 0 < ?o" using that assms(1) by (auto simp: bills_on_free_key_def split: if_splits)
    then have "0 < of_int tin * ?i \<or> 0 < of_int tout * ?o" using that by auto
    with nn have "0 < ?c" by auto
    with le show ?thesis by simp
  qed
qed (auto simp: peak_multiplier_ge peak_multiplier_def DEEPSEEK_PEAK_WEEKDAYS_def DEEPSEEK_PEAK_FACTOR_def)

definition demo_route :: string where "demo_route = ''openrouter/x-ai/grok-4.7''"

lemma demo_route_spec:
  "map_option (\<lambda>m. (ms_provider m, ms_pricing m, ms_input_usd_per_mtok m, ms_output_usd_per_mtok m)) (model_spec demo_route)
   = Some (''openrouter'', P_override, Some 2, Some 6)"
proof -
  have "map_of model_table demo_route = Some (''openrouter'', P_override, Some 2, Some 6, None, [''chat:code''])" by code_simp
  with model_facts_table[of demo_route] show ?thesis by (auto simp: model_facts_def)
qed

definition no_prices :: price_map where
  "no_prices = \<lparr>pm_cost = (\<lambda>_ _ _ _ _. None), pm_info = (\<lambda>_. None)\<rparr>"

theorem openrouter_route_is_never_free_witness:
  "0 < estimate_llm_cost no_prices (midnight (2026, 10, 15)) demo_route 1000 500 0 0 0"
proof -
  obtain s where s: "model_spec demo_route = Some s" "ms_provider s = ''openrouter''" "ms_pricing s = P_override"
      "ms_input_usd_per_mtok s = Some 2" "ms_output_usd_per_mtok s = Some 6"
    using demo_route_spec by auto
  have "bills_on_free_key (Some demo_route)"
    using s by (simp add: bills_on_free_key_def demo_route_def opt_or_def)
  with openrouter_route_is_never_free[OF s(1-3), of 1000 500 no_prices "midnight (2026, 10, 15)" 0 0 0] s(4,5)
  show ?thesis by (simp add: opt_or_def)
qed

end
