(* ===== verification/Attempt.thy ===== *)
theory Attempt
  imports Cost_Guard Cooldown Context_Limits Pricing
begin

text \<open>
  \<^verbatim>\<open>services/attempt.py\<close>: one attempt on one key. Reserve the estimated cost, decrypt, call,
  release the reservation, pass the quality gate, book the usage, pin the affinity; with one
  error path for every failed call. What the attempt meets outside (clocks, random numbers,
  the decrypted key, the provider's answer, failing statements) is the record \<open>attempt_env\<close>.
\<close>

section \<open>Data\<close>

datatype flow = NEXT_KEY | NEXT_PROVIDER | BUDGET_EXHAUSTED | SUCCESS

record call_meta =
  cm_model :: "string option"
  cm_model_served :: "string option"
  cm_tokens_in :: int
  cm_tokens_out :: int
  cm_cost_usd :: usd
  cm_cache_read_tokens :: int
  cm_cache_write_tokens :: int
  cm_latency_ms :: "int option"
  cm_finish_reason :: json
  cm_refusal :: json
  cm_tool_calls :: json
  cm_vision_type :: json
  cm_vision_format :: json

datatype call_result = Returned json call_meta | CallRaised provider_exc | CallCancelled

text \<open>\<open>rj_note\<close>: the key whose empty body the circuit breaker is to remember.\<close>

record Rejection =
  rj_error_kind :: string
  rj_flow :: flow
  rj_http_status :: int
  rj_bill :: bool
  rj_note :: "(string \<times> int) option"

record Attempt =
  ap_key :: ApiKeyRow
  ap_project :: ProjectRow
  ap_provider :: string
  ap_model :: string
  ap_capability :: string
  ap_workflow :: "string option"
  ap_estimated_cost :: usd
  ap_est_tokens :: int
  ap_check :: "(json \<Rightarrow> call_meta \<Rightarrow> Rejection option) option"
  ap_cap_flow :: flow
  ap_reserve :: bool
  ap_penalize :: bool
  ap_pinned_model :: "string option"
  ap_note_affinity :: bool

datatype attempt_error = CapError CostGuardError | ProviderError provider_exc

record AttemptResult =
  ar_flow :: flow
  ar_payload :: json
  ar_meta :: "call_meta option"
  ar_usage_id :: "int option"
  ar_error :: "attempt_error option"
  ar_rejection :: "string option"

datatype audit_row =
    CapBlock string string CostGuardError
  | KeyDead int string string string string

record service =
  sv_broker :: broker
  sv_obs :: "ObservationRow list"
  sv_audit :: "audit_row list"

text \<open>
  \<open>ae_clock\<close> is read by the reservation, \<open>ae_clock2\<close> by the booking; \<open>ae_now\<close> is the UTC
  wall clock of the penalty. \<open>ae_db\<close> answers the usage \<^verbatim>\<open>INSERT\<close>.
\<close>

record attempt_env =
  ae_clock :: clock
  ae_clock2 :: clock
  ae_now :: datetime
  ae_jitter :: rat
  ae_offset :: secs
  ae_cooldown_fails :: bool
  ae_shared :: shared_ctx
  ae_ttl :: secs
  ae_digest :: "string \<Rightarrow> string"
  ae_global_cap :: usd
  ae_decrypt :: "string \<Rightarrow> provider_exc + string"
  ae_call :: "string \<Rightarrow> call_result"
  ae_release_fails :: bool
  ae_db :: "string list \<Rightarrow> db_error option"
  ae_obs_fails :: bool
  ae_audit_fails :: bool
  ae_request_id :: "string option"

text \<open>How an attempt ends: with a result, or with an exception that leaves it.\<close>

datatype attempt_end = Finished AttemptResult | DbFailed db_error | ClientCancelled | BadCapability chain_error

section \<open>Scrubbing secrets\<close>

definition alnum :: "char \<Rightarrow> bool" where
  "alnum c \<longleftrightarrow> is_word c \<and> c \<noteq> CHR ''_''"

definition SECRET_PATTERNS :: "rx list" where
  "SECRET_PATTERNS =
     [rx_seq [WordB, rx_str ''sk-'', Rep True 8 None (Sym (\<lambda>c. alnum c \<or> c \<in> set ''_-''))],
      rx_seq [WordB, rx_str ''AIza'', Rep True 20 None (Sym (\<lambda>c. alnum c \<or> c \<in> set ''_-''))],
      rx_seq [WordB, rx_str ''gsk_'', Rep True 16 None (Sym alnum)],
      rx_seq [WordB, rx_str ''csk-'', Rep True 16 None (Sym alnum)],
      rx_seq [rx_str_i ''bearer'', rx_plus rx_space, Rep True 16 None (Sym (\<lambda>c. alnum c \<or> c \<in> set ''._-''))],
      rx_seq [rx_alt [rx_seq [rx_str_i ''api'', rx_opt (one_of ''_-''), rx_str_i ''key''], rx_str_i ''token'', rx_str_i ''key''],
              sym CHR ''='',
              Rep True 8 None (Sym (\<lambda>c. c \<noteq> CHR ''&'' \<and> \<not> is_space c \<and> c \<noteq> CHR 0x22 \<and> c \<noteq> CHR 0x27))]]"

definition scrub_secrets :: "string \<Rightarrow> string" where
  "scrub_secrets text = fold (\<lambda>pat t. rx_sub pat ''[redacted]'' t) SECRET_PATTERNS text"

section \<open>Money\<close>

definition billed_cost :: "ApiKeyRow \<Rightarrow> call_meta \<Rightarrow> string option \<Rightarrow> usd" where
  "billed_cost key meta model =
     (let model_id = (case model of Some (c # cs) \<Rightarrow> Some (c # cs) | _ \<Rightarrow> cm_model meta)
      in if k_tier key = ''free'' \<and> \<not> bills_on_free_key model_id then 0 else cm_cost_usd meta)"

definition release_reservation :: "bool \<Rightarrow> ApiKeyRow \<Rightarrow> usd \<Rightarrow> broker \<Rightarrow> broker" where
  "release_reservation fails key estimated_cost b = (if fails then b else release_cost key estimated_cost b)"

section \<open>The penalty\<close>

definition COOLDOWN_S :: secs where "COOLDOWN_S = 300"

definition audit :: "bool \<Rightarrow> audit_row \<Rightarrow> service \<Rightarrow> service" where
  "audit fails row s = (if fails then s else s\<lparr>sv_audit := sv_audit s @ [row]\<rparr>)"

definition on_broker :: "(broker \<Rightarrow> broker) \<Rightarrow> service \<Rightarrow> service" where
  "on_broker f s = s\<lparr>sv_broker := f (sv_broker s)\<rparr>"

text \<open>\<open>Inl\<close>: the scope of the capability is unknown, which raises.\<close>

definition note_call_timeout ::
  "secs \<Rightarrow> ApiKeyRow \<Rightarrow> string \<Rightarrow> service \<Rightarrow> chain_error + service" where
  "note_call_timeout mono_now key capability s =
     (case (if capability = [] then Inr None else map_sum id Some (scope_for capability)) of
        Inl e \<Rightarrow> Inl e
      | Inr scope \<Rightarrow> Inr (on_broker (\<lambda>b. b\<lparr>b_circuit :=
            note_timeout mono_now (k_provider key) (k_id key) scope (b_circuit b)\<rparr>) s))"

definition penalty_until :: "attempt_env \<Rightarrow> ApiKeyRow \<Rightarrow> provider_exc \<Rightarrow> broker \<Rightarrow> instant" where
  "penalty_until env key exc b =
     (if ae_cooldown_fails env then instant_of (ae_now env) + COOLDOWN_S
      else cooldown_until (ae_now env) (ae_jitter env) (ae_offset env) (k_id key) (k_provider key)
             (ex_msg exc) (is_timeout exc) (b_usage b))"

definition penalize ::
  "attempt_env \<Rightarrow> ApiKeyRow \<Rightarrow> provider_exc \<Rightarrow> string \<Rightarrow> string \<Rightarrow> service \<Rightarrow> chain_error + error_kind \<times> service" where
  "penalize env key exc capability model s =
     (let kind = classify_provider_error exc (Some (k_provider key));
          reason = take 200 (scrub_secrets (ex_msg exc));
          noted = (if is_timeout exc then note_call_timeout (ck_mono (ae_clock2 env)) key capability s else Inr s)
      in case noted of
           Inl e \<Rightarrow> Inl e
         | Inr s1 \<Rightarrow> Inr (kind,
             case kind of
               RateLimit \<Rightarrow>
                 (let until = penalty_until env key exc (sv_broker s1)
                  in if model \<noteq> [] \<and> is_model_scoped_quota (k_provider key) (ex_msg exc)
                     then on_broker (mark_model_cooldown (k_id key) model until (Some reason)) s1
                     else on_broker (mark_cooldown (k_id key) until (Some reason)) s1)
             | Auth \<Rightarrow>
                 audit (ae_audit_fails env)
                   (KeyDead (k_id key) (k_provider key) (k_label key) capability reason)
                   (on_broker (mark_dead (k_id key) (Some reason)) s1)
             | Other \<Rightarrow> s1))"

section \<open>Bookings\<close>

definition usage_row ::
  "attempt_env \<Rightarrow> Attempt \<Rightarrow> call_meta option \<Rightarrow> usd \<Rightarrow> string \<Rightarrow> string option \<Rightarrow> int option \<Rightarrow> UsageLogRow" where
  "usage_row env a meta cost status error_kind http_status =
     \<lparr>u_id = 0, u_api_key_id = Some (k_id (ap_key a)), u_project_id = Some (p_id (ap_project a)),
      u_lease_id = None, u_provider = ap_provider a, u_model = Some (ap_model a),
      u_model_served = None, u_request_id = ae_request_id env,
      u_capability = Some (ap_capability a), u_workflow = ap_workflow a,
      u_tokens_in = (case meta of Some m \<Rightarrow> cm_tokens_in m | None \<Rightarrow> 0),
      u_tokens_out = (case meta of Some m \<Rightarrow> cm_tokens_out m | None \<Rightarrow> 0),
      u_cache_read_tokens = (case meta of Some m \<Rightarrow> cm_cache_read_tokens m | None \<Rightarrow> 0),
      u_cache_write_tokens = (case meta of Some m \<Rightarrow> cm_cache_write_tokens m | None \<Rightarrow> 0),
      u_cost_usd = cost, u_latency_ms = None, u_status = status, u_error_kind = error_kind,
      u_http_status = http_status, u_created_at = 0\<rparr>"

definition book :: "attempt_env \<Rightarrow> UsageLogRow \<Rightarrow> service \<Rightarrow> (db_error + int) \<times> service" where
  "book env u s = (case record_usage (ae_clock2 env) (ae_db env) u (sv_broker s) of
      (r, b) \<Rightarrow> (r, s\<lparr>sv_broker := b\<rparr>))"

definition status_by_kind :: "error_kind \<Rightarrow> string" where
  "status_by_kind kind = (case kind of RateLimit \<Rightarrow> ''rate_limit'' | Auth \<Rightarrow> ''auth_fail'' | Other \<Rightarrow> ''error'')"

definition record_error :: "attempt_env \<Rightarrow> Attempt \<Rightarrow> provider_exc \<Rightarrow> service \<Rightarrow> (db_error + int) \<times> service" where
  "record_error env a exc s =
     book env (usage_row env a None 0 (status_by_kind (classify_provider_error exc (Some (ap_provider a))))
                 (Some (type_name exc)) (http_status_of exc)) s"

definition finished_as ::
  "AttemptResult \<Rightarrow> (db_error + int) \<times> service \<Rightarrow> attempt_end \<times> service" where
  "finished_as res r = (case r of (Inl e, s) \<Rightarrow> (DbFailed e, s) | (Inr i, s) \<Rightarrow> (Finished res, s))"

definition failed_with :: "flow \<Rightarrow> attempt_error \<Rightarrow> AttemptResult" where
  "failed_with fl e = \<lparr>ar_flow = fl, ar_payload = JNull, ar_meta = None, ar_usage_id = None,
     ar_error = Some e, ar_rejection = None\<rparr>"

definition handle_call_error :: "attempt_env \<Rightarrow> Attempt \<Rightarrow> provider_exc \<Rightarrow> service \<Rightarrow> attempt_end \<times> service" where
  "handle_call_error env a exc s =
     (if is_model_unavailable exc
      then finished_as (failed_with NEXT_PROVIDER (ProviderError exc)) (record_error env a exc s)
      else case (if ap_penalize a
                 then map_sum id snd (penalize env (ap_key a) exc (ap_capability a) (ap_model a) s)
                 else Inr s) of
        Inl e \<Rightarrow> (BadCapability e, s)
      | Inr s1 \<Rightarrow>
          if ap_est_tokens a \<noteq> 0 \<and> is_too_large_error exc
          then finished_as (failed_with NEXT_PROVIDER (ProviderError exc))
                 (record_error env a exc (s1\<lparr>sv_obs := record_too_large (instant_of (ae_now env))
                    (ae_obs_fails env) (ap_provider a) (ap_est_tokens a) (sv_obs s1)\<rparr>))
          else finished_as (failed_with NEXT_KEY (ProviderError exc)) (record_error env a exc s1))"

definition block_on_cap :: "attempt_env \<Rightarrow> Attempt \<Rightarrow> CostGuardError \<Rightarrow> service \<Rightarrow> attempt_end \<times> service" where
  "block_on_cap env a e s =
     finished_as
       (failed_with (if cg_kind e \<in> {''project'', ''global''} then BUDGET_EXHAUSTED else ap_cap_flow a) (CapError e))
       (book env (usage_row env a None 0 ''error'' (Some ''CapBlock'') (Some 402))
          (audit (ae_audit_fails env) (CapBlock (p_name (ap_project a)) (ap_provider a) e) s))"

definition record_rejection ::
  "attempt_env \<Rightarrow> Attempt \<Rightarrow> Rejection \<Rightarrow> call_meta \<Rightarrow> service \<Rightarrow> (db_error + int) \<times> service" where
  "record_rejection env a rej meta s =
     (case book env ((usage_row env a (if rj_bill rej then Some meta else None)
                        (if rj_bill rej then cm_cost_usd meta else 0) ''error'' (Some (rj_error_kind rej))
                        (Some (rj_http_status rej)))\<lparr>u_latency_ms := cm_latency_ms meta\<rparr>) s of
        (Inl e, s1) \<Rightarrow> (Inl e, s1)
      | (Inr i, s1) \<Rightarrow> (Inr i, case rj_note rej of
            None \<Rightarrow> s1
          | Some (p, kid) \<Rightarrow> on_broker (\<lambda>b. b\<lparr>b_circuit :=
              note_empty_body (ck_mono (ae_clock2 env)) p kid (b_circuit b)\<rparr>) s1))"

section \<open>The attempt\<close>

definition known_free_model :: "string \<Rightarrow> bool" where
  "known_free_model model = (case model_spec model of None \<Rightarrow> False | Some sp \<Rightarrow> ms_pricing sp = P_free)"

definition settle_answer ::
  "attempt_env \<Rightarrow> Attempt \<Rightarrow> json \<Rightarrow> call_meta \<Rightarrow> service \<Rightarrow> attempt_end \<times> service" where
  "settle_answer env a payload meta s =
     (case (case ap_check a of None \<Rightarrow> None | Some check \<Rightarrow> check payload meta) of
        Some rej \<Rightarrow>
          finished_as \<lparr>ar_flow = rj_flow rej, ar_payload = payload, ar_meta = Some meta, ar_usage_id = None,
                       ar_error = None, ar_rejection = Some (rj_error_kind rej)\<rparr>
            (record_rejection env a rej meta s)
      | None \<Rightarrow>
          (case book env ((usage_row env a (Some meta) (cm_cost_usd meta) ''ok'' None (Some 200))
                  \<lparr>u_model_served := cm_model_served meta, u_latency_ms := cm_latency_ms meta\<rparr>) s of
             (Inl e, s1) \<Rightarrow> (DbFailed e, s1)
           | (Inr uid, s1) \<Rightarrow>
               (Finished \<lparr>ar_flow = SUCCESS, ar_payload = payload, ar_meta = Some meta,
                          ar_usage_id = Some uid, ar_error = None, ar_rejection = None\<rparr>,
                if ap_note_affinity a
                then on_broker (\<lambda>b. case note_success (ae_digest env) (ae_ttl env) (ae_shared env)
                         (p_id (ap_project a)) (ap_workflow a) (ap_capability a) (ap_pinned_model a)
                         (ap_provider a) (ap_model a) (k_id (ap_key a)) (b_aff b, b_shared b) of
                       (aff, sh) \<Rightarrow> b\<lparr>b_aff := aff, b_shared := sh\<rparr>) s1
                else s1)))"

definition call_with_key :: "attempt_env \<Rightarrow> Attempt \<Rightarrow> call_result" where
  "call_with_key env a = (case ae_decrypt env (k_token_encrypted (ap_key a)) of
      Inl e \<Rightarrow> CallRaised e
    | Inr plain \<Rightarrow> ae_call env plain)"

definition run_attempt :: "attempt_env \<Rightarrow> Attempt \<Rightarrow> service \<Rightarrow> attempt_end \<times> service" where
  "run_attempt env a s =
     (let reserved = (if ap_reserve a \<and> ap_estimated_cost a > 0 then ap_estimated_cost a else 0);
          admission = (if ap_reserve a
             then reserve_cost (ae_clock env) (ae_global_cap env) (ap_key a) (ap_project a)
                    (ap_estimated_cost a) (known_free_model (ap_model a)) (sv_broker s)
             else (None, sv_broker s));
          s1 = s\<lparr>sv_broker := snd admission\<rparr>;
          release = on_broker (\<lambda>b. if reserved \<noteq> 0
             then release_reservation (ae_release_fails env) (ap_key a) reserved b else b)
      in case fst admission of
           Some e \<Rightarrow> block_on_cap env a e s1
         | None \<Rightarrow>
             (case call_with_key env a of
                CallCancelled \<Rightarrow> (ClientCancelled, release s1)
              | CallRaised exc \<Rightarrow> handle_call_error env a exc (release s1)
              | Returned payload meta \<Rightarrow>
                  settle_answer env a payload
                    (meta\<lparr>cm_cost_usd := billed_cost (ap_key a) meta (Some (ap_model a))\<rparr>) (release s1)))"

lemma known_free_model_table [code]:
  "known_free_model model = (case map_of model_table model of None \<Rightarrow> False | Some (p, pr, r) \<Rightarrow> pr = P_free)"
  unfolding model_facts_table[symmetric]
  by (auto simp: known_free_model_def model_facts_def split: option.splits)

section \<open>What each phase leaves alone\<close>

lemma spend_cong: "b_keys b = b_keys b' \<Longrightarrow> spend ck i b = spend ck i b'"
  by (simp add: spend_def key_of_def)

lemma spend_update_key:
  assumes "\<And>k. k_id (f k) = k_id k"
    "\<And>k. fresh_daily_cost ck (f k) = fresh_daily_cost ck k" "\<And>k. fresh_monthly_cost ck (f k) = fresh_monthly_cost ck k"
  shows "spend ck i (update_key j P f b) = spend ck i b"
  unfolding spend_def using assms by (simp add: key_of_update_key option.map_comp comp_def if_distrib cong: if_cong)

lemma usage_reserve_cost: "b_usage (snd (reserve_cost ck g k p est kf b)) = b_usage b"
proof -
  have rk: "b_usage (snd (reserve_key ck k est b)) = b_usage b" by (simp add: reserve_key_def Let_def)
  have rc: "b_usage (release_cost k est b') = b_usage b'" for b' by (simp add: release_cost_def Let_def)
  have ge: "b_usage (snd (global_error ck g est b')) = b_usage b'" for b'
    by (auto simp: global_error_def global_cost_today_def Let_def split: prod.splits)
  have "snd (reserve_cost ck g k p est kf b) \<in> {b, snd (reserve_key ck k est b),
      release_cost k est (snd (reserve_key ck k est b)), snd (global_error ck g est (snd (reserve_key ck k est b))),
      release_cost k est (snd (global_error ck g est (snd (reserve_key ck k est b))))}"
    by (auto simp: reserve_cost_def split: option.splits prod.splits)
  then show ?thesis using rk rc ge by auto
qed

text \<open>Reserving and releasing, as an admitted attempt does, nets nothing.\<close>

lemma reserve_release_nets_nothing:
  assumes "reserve_cost ck g k p est kf b = (None, b1)" "0 \<le> est" "spend_ok b"
  shows "spend ck i (if est = 0 then b1 else release_cost k est b1) = spend ck i b"
proof (cases "k_tier k = ''free'' \<and> est \<le> 0")
  case True
  then have "b1 = b" "est = 0" using assms(1,2) by (auto simp: reserve_cost_def)
  then show ?thesis by simp
next
  case False
  obtain b0 where b0: "reserve_key ck k est b = (None, b0)" "\<And>i. key_of i b1 = key_of i b0"
    using reserve_cost_admitted[OF assms(1) False] by metis
  have "release_cost k 0 b1 = b1" by (simp add: release_cost_def)
  then show ?thesis using reserve_then_release_spend[OF b0(1) assms(2,3) b0(2), of i] by auto
qed

lemma spend_marks [simp]:
  "spend ck i (mark_cooldown j t r b) = spend ck i b" "spend ck i (mark_dead j r b) = spend ck i b"
  unfolding mark_cooldown_def mark_dead_def
  by (rule spend_update_key; simp add: fresh_daily_cost_def fresh_monthly_cost_def)+

lemma keys_mark_model_cooldown [simp]: "b_keys (mark_model_cooldown j m t r b) = b_keys b"
  by (simp add: mark_model_cooldown_def Let_def)

lemma usage_marks [simp]:
  "b_usage (mark_cooldown j t r b) = b_usage b" "b_usage (mark_dead j r b) = b_usage b"
  "b_usage (mark_model_cooldown j m t r b) = b_usage b"
  by (simp_all add: mark_cooldown_def mark_dead_def mark_model_cooldown_def Let_def)

text \<open>The ledger as one sees it: the spend of every key and the usage log.\<close>

definition ledger_of :: "clock \<Rightarrow> service \<Rightarrow> (int \<Rightarrow> (usd \<times> usd) option) \<times> UsageLogRow list" where
  "ledger_of ck s = ((\<lambda>i. spend ck i (sv_broker s)), b_usage (sv_broker s))"

lemma ledger_on_broker:
  "(\<And>i. spend ck i (f (sv_broker s)) = spend ck i (sv_broker s)) \<Longrightarrow>
   b_usage (f (sv_broker s)) = b_usage (sv_broker s) \<Longrightarrow> ledger_of ck (on_broker f s) = ledger_of ck s"
  by (simp add: ledger_of_def on_broker_def)

lemma ledger_audit [simp]: "ledger_of ck (audit f row s) = ledger_of ck s"
  by (simp add: ledger_of_def audit_def)

lemma ledger_circuit [simp]: "ledger_of ck (on_broker (\<lambda>b. b\<lparr>b_circuit := g b\<rparr>) s) = ledger_of ck s"
  by (rule ledger_on_broker) (simp_all add: spend_def key_of_def)

lemma ledger_penalize:
  assumes "penalize env key exc capability model s = Inr (kind, s')"
  shows "ledger_of ck s' = ledger_of ck s"
proof -
  obtain s1 where s1: "(if is_timeout exc then note_call_timeout (ck_mono (ae_clock2 env)) key capability s else Inr s) = Inr s1"
    "ledger_of ck s1 = ledger_of ck s"
    using assms by (auto simp: penalize_def note_call_timeout_def Let_def split: sum.splits if_splits)
  have "ledger_of ck (on_broker (mark_model_cooldown i m t r) s1) = ledger_of ck s1"
    "ledger_of ck (on_broker (mark_cooldown i t r) s1) = ledger_of ck s1"
    "ledger_of ck (on_broker (mark_dead i r) s1) = ledger_of ck s1" for i m t r
    by (rule ledger_on_broker; simp add: spend_def key_of_def; fail)
       (rule ledger_on_broker; simp)+
  with assms s1 show ?thesis
    by (cases "classify_provider_error exc (Some (k_provider key))") (auto simp: penalize_def Let_def split: if_splits)
qed

text \<open>A booking appends one row and debits its cost to its key.\<close>

definition debited :: "int \<Rightarrow> usd \<Rightarrow> (int \<Rightarrow> (usd \<times> usd) option) \<Rightarrow> int \<Rightarrow> (usd \<times> usd) option" where
  "debited kid c sp = (\<lambda>i. if i = kid then map_option (\<lambda>(d, m). (d + c, m + c)) (sp i) else sp i)"

lemma write_usage_ledger:
  assumes "write_usage ck miss u b = (i, b')" "u_api_key_id u = Some kid"
  shows "\<exists>row. b_usage b' = b_usage b @ [row] \<and> u_cost_usd row = u_cost_usd u \<and> u_status row = u_status u \<and>
    u_error_kind row = u_error_kind u \<and> u_project_id row = u_project_id u \<and>
    (\<forall>j. spend ck j b' = debited kid (u_cost_usd u) (\<lambda>j. spend ck j b) j)"
proof -
  have id: "k_id (book_usage ck c st ek k) = k_id k" for c st ek k by (simp add: book_usage_def recover_def)
  have f: "fresh_daily_cost ck (book_usage ck c st ek k) = fresh_daily_cost ck k + c"
    "fresh_monthly_cost ck (book_usage ck c st ek k) = fresh_monthly_cost ck k + c" for c st ek k
    by (simp_all add: book_usage_def recover_def fresh_daily_cost_def fresh_monthly_cost_def)
  have key: "key_of j (b\<lparr>b_usage := x, b_next_usage_id := y\<rparr>) = key_of j b" for j x y by (simp add: key_of_def)
  show ?thesis
    using assms id
    by (auto simp: write_usage_def Let_def spend_def debited_def key_of_update_key key option.map_comp comp_def f
        intro!: map_option_cong)
qed

lemma book_ledger:
  assumes "book env u s = (Inr i, s')" "u_api_key_id u = Some kid"
  shows "\<exists>row. ledger_of (ae_clock2 env) s' =
      (debited kid (u_cost_usd row) (fst (ledger_of (ae_clock2 env) s)), snd (ledger_of (ae_clock2 env) s) @ [row]) \<and>
    u_cost_usd row = u_cost_usd u \<and> u_status row = u_status u"
proof -
  obtain miss b0 j b' where w: "write_usage (ae_clock2 env) miss u b0 = (j, b')" "sv_broker s' = b'"
      "b_usage b0 = b_usage (sv_broker s)" "\<And>i. spend (ae_clock2 env) i b0 = spend (ae_clock2 env) i (sv_broker s)"
    using assms(1) by (fastforce simp: book_def record_usage_def Let_def spend_def key_of_def split: option.splits prod.splits if_splits)
  show ?thesis
    using write_usage_ledger[OF w(1) assms(2)] w by (auto simp: ledger_of_def debited_def fun_eq_iff)
qed

text \<open>One row of the given cost was booked on the attempt's key.\<close>

definition booked_once :: "attempt_env \<Rightarrow> Attempt \<Rightarrow> usd \<Rightarrow> string \<Rightarrow> service \<Rightarrow> service \<Rightarrow> bool" where
  "booked_once env a c st s s' \<longleftrightarrow> (\<exists>row. ledger_of (ae_clock2 env) s' =
      (debited (k_id (ap_key a)) c (fst (ledger_of (ae_clock2 env) s)), snd (ledger_of (ae_clock2 env) s) @ [row]) \<and>
      u_cost_usd row = c \<and> u_status row = st)"

lemma book_once:
  assumes "book env u s = (Inr i, s')" "u_api_key_id u = Some (k_id (ap_key a))" "u_cost_usd u = c" "u_status u = st"
  shows "booked_once env a c st s s'"
  using book_ledger[OF assms(1,2)] assms(3,4) unfolding booked_once_def by metis

lemma booked_once_cong:
  "ledger_of (ae_clock2 env) s = ledger_of (ae_clock2 env) t \<Longrightarrow>
   ledger_of (ae_clock2 env) s' = ledger_of (ae_clock2 env) t' \<Longrightarrow>
   booked_once env a c st s s' = booked_once env a c st t t'"
  by (simp add: booked_once_def)

lemma usage_row_sel [simp]:
  "u_api_key_id (usage_row env a m c st ek h) = Some (k_id (ap_key a))"
  "u_cost_usd (usage_row env a m c st ek h) = c" "u_status (usage_row env a m c st ek h) = st"
  by (simp_all add: usage_row_def)

lemma finished_asD: "finished_as res r = (Finished res', s') \<Longrightarrow> \<exists>i. r = (Inr i, s') \<and> res' = res"
  by (auto simp: finished_as_def split: prod.splits sum.splits)

lemma record_error_once:
  "record_error env a exc s = (Inr i, s') \<Longrightarrow> booked_once env a 0
     (status_by_kind (classify_provider_error exc (Some (ap_provider a)))) s s'"
  unfolding record_error_def by (erule book_once) simp_all

lemma handle_call_error_once:
  assumes "handle_call_error env a exc s = (Finished res, s')"
  shows "booked_once env a 0 (status_by_kind (classify_provider_error exc (Some (ap_provider a)))) s s' \<and>
    ar_flow res \<in> {NEXT_KEY, NEXT_PROVIDER} \<and> ar_error res = Some (ProviderError exc)"
proof -
  obtain t i where t: "record_error env a exc t = (Inr i, s')" "ledger_of (ae_clock2 env) t = ledger_of (ae_clock2 env) s"
      "ar_flow res \<in> {NEXT_KEY, NEXT_PROVIDER}" "ar_error res = Some (ProviderError exc)"
  proof (cases "is_model_unavailable exc")
    case True
    with assms that[of s] show thesis
      by (auto simp: handle_call_error_def failed_with_def dest!: finished_asD)
  next
    case False
    obtain s1 where s1: "(if ap_penalize a then map_sum id snd (penalize env (ap_key a) exc (ap_capability a) (ap_model a) s)
        else Inr s) = Inr s1"
      using assms False by (auto simp: handle_call_error_def split: sum.splits)
    have l: "ledger_of (ae_clock2 env) s1 = ledger_of (ae_clock2 env) s"
    proof (cases "ap_penalize a")
      case True
      with s1 obtain k where "penalize env (ap_key a) exc (ap_capability a) (ap_model a) s = Inr (k, s1)"
        by (cases "penalize env (ap_key a) exc (ap_capability a) (ap_model a) s") auto
      then show ?thesis by (rule ledger_penalize)
    qed (use s1 in simp)
    have lo: "ledger_of (ae_clock2 env) (s1\<lparr>sv_obs := x\<rparr>) = ledger_of (ae_clock2 env) s1" for x by (simp add: ledger_of_def)
    show thesis
      using assms False s1 l lo that[of s1] that[of "s1\<lparr>sv_obs := record_too_large (instant_of (ae_now env))
                    (ae_obs_fails env) (ap_provider a) (ap_est_tokens a) (sv_obs s1)\<rparr>"]
      by (auto simp: handle_call_error_def failed_with_def split: if_splits dest!: finished_asD)
  qed
  then show ?thesis using record_error_once[OF t(1)] booked_once_cong[OF t(2) refl] by blast
qed

lemma block_on_cap_once:
  assumes "block_on_cap env a e s = (Finished res, s')"
  shows "booked_once env a 0 ''error'' s s' \<and> ar_error res = Some (CapError e) \<and>
    ar_flow res = (if cg_kind e \<in> {''project'', ''global''} then BUDGET_EXHAUSTED else ap_cap_flow a)"
proof -
  obtain i where b: "book env (usage_row env a None 0 ''error'' (Some ''CapBlock'') (Some 402))
      (audit (ae_audit_fails env) (CapBlock (p_name (ap_project a)) (ap_provider a) e) s) = (Inr i, s')"
    and res: "res = failed_with (if cg_kind e \<in> {''project'', ''global''} then BUDGET_EXHAUSTED else ap_cap_flow a) (CapError e)"
    using assms by (auto simp: block_on_cap_def dest!: finished_asD)
  have "booked_once env a 0 ''error'' (audit (ae_audit_fails env) (CapBlock (p_name (ap_project a)) (ap_provider a) e) s) s'"
    by (rule book_once[OF b]) simp_all
  with res show ?thesis using booked_once_cong[OF ledger_audit refl] by (simp add: failed_with_def)
qed

lemma settle_answer_once:
  assumes "settle_answer env a payload meta s = (Finished res, s')"
  shows "\<exists>c st. booked_once env a c st s s' \<and> (c = cm_cost_usd meta \<or> c = 0) \<and> ar_error res = None \<and>
    (ar_rejection res = None \<longrightarrow> ar_flow res = SUCCESS \<and> c = cm_cost_usd meta \<and> st = ''ok'')"
proof (cases "case ap_check a of None \<Rightarrow> None | Some check \<Rightarrow> check payload meta")
  case None
  let ?u = "(usage_row env a (Some meta) (cm_cost_usd meta) ''ok'' None (Some 200))
      \<lparr>u_model_served := cm_model_served meta, u_latency_ms := cm_latency_ms meta\<rparr>"
  let ?pin = "\<lambda>b. case note_success (ae_digest env) (ae_ttl env) (ae_shared env)
       (p_id (ap_project a)) (ap_workflow a) (ap_capability a) (ap_pinned_model a)
       (ap_provider a) (ap_model a) (k_id (ap_key a)) (b_aff b, b_shared b) of (aff, sh) \<Rightarrow> b\<lparr>b_aff := aff, b_shared := sh\<rparr>"
  obtain r s1 where bk: "book env ?u s = (r, s1)" by (cases "book env ?u s")
  show ?thesis
  proof (cases r)
    case (Inl e)
    with assms None bk show ?thesis by (simp add: settle_answer_def)
  next
    case (Inr i)
    then have eq: "\<lparr>ar_flow = SUCCESS, ar_payload = payload, ar_meta = Some meta, ar_usage_id = Some i,
        ar_error = None, ar_rejection = None\<rparr> = res \<and> (if ap_note_affinity a then on_broker ?pin s1 else s1) = s'"
      using assms None bk by (simp add: settle_answer_def)
    then have res: "ar_rejection res = None" "ar_error res = None" "ar_flow res = SUCCESS" by auto
    from eq have s': "s' = (if ap_note_affinity a then on_broker ?pin s1 else s1)" by blast
    have "ledger_of (ae_clock2 env) (on_broker ?pin s1) = ledger_of (ae_clock2 env) s1"
      by (rule ledger_on_broker) (simp_all add: spend_def key_of_def split: prod.split)
    then have l: "ledger_of (ae_clock2 env) s' = ledger_of (ae_clock2 env) s1"
      unfolding s' by (cases "ap_note_affinity a") (simp_all only: if_True if_False)
    have "booked_once env a (cm_cost_usd meta) ''ok'' s s1"
      by (rule book_once[of env ?u s i s1]) (simp_all add: bk Inr)
    then have "booked_once env a (cm_cost_usd meta) ''ok'' s s'"
      unfolding booked_once_cong[OF refl l] .
    with res show ?thesis by blast
  qed
next
  case (Some rej)
  let ?c = "if rj_bill rej then cm_cost_usd meta else 0"
  let ?u = "(usage_row env a (if rj_bill rej then Some meta else None) ?c ''error'' (Some (rj_error_kind rej))
      (Some (rj_http_status rej)))\<lparr>u_latency_ms := cm_latency_ms meta\<rparr>"
  obtain i where rr: "record_rejection env a rej meta s = (Inr i, s')" and res: "ar_rejection res \<noteq> None" "ar_error res = None"
    using assms Some by (auto simp: settle_answer_def dest!: finished_asD)
  obtain r s1 where bk: "book env ?u s = (r, s1)" by (cases "book env ?u s")
  have r: "r = Inr i" using rr bk by (cases r) (simp_all add: record_rejection_def)
  have l: "ledger_of (ae_clock2 env) s' = ledger_of (ae_clock2 env) s1"
    using rr bk r by (cases "rj_note rej") (auto simp: record_rejection_def)
  note b = bk[unfolded r] l res
  have "booked_once env a ?c ''error'' s s'"
    using book_once[OF b(1), of a ?c "''error''"] booked_once_cong[OF refl b(2)] by simp
  with b(3,4) show ?thesis by (intro exI[of _ ?c] exI[of _ "''error''"]) auto
qed

section \<open>Properties\<close>


definition demo_meta :: call_meta where
  "demo_meta = \<lparr>cm_model = Some ''deepseek/deepseek-v4-flash'', cm_model_served = None, cm_tokens_in = 100, cm_tokens_out = 20,
     cm_cost_usd = 1 / 2, cm_cache_read_tokens = 0, cm_cache_write_tokens = 0, cm_latency_ms = Some 900,
     cm_finish_reason = JStr ''stop'', cm_refusal = JNull, cm_tool_calls = JNull, cm_vision_type = JNull, cm_vision_format = JNull\<rparr>"

definition demo_attempt_env :: "(string \<Rightarrow> call_result) \<Rightarrow> attempt_env" where
  "demo_attempt_env call = \<lparr>ae_clock = demo_clock, ae_clock2 = demo_clock, ae_now = midnight (2026, 10, 15),
     ae_jitter = 1, ae_offset = 0, ae_cooldown_fails = False, ae_shared = demo_shared, ae_ttl = 7200,
     ae_digest = id, ae_global_cap = 0, ae_decrypt = Inr, ae_call = call, ae_release_fails = False,
     ae_db = (\<lambda>_. None), ae_obs_fails = False, ae_audit_fails = False, ae_request_id = None\<rparr>"

definition demo_attempt :: Attempt where
  "demo_attempt = \<lparr>ap_key = capped_key, ap_project = new_project 1 ''p'' [''llm:chat''], ap_provider = ''deepseek'',
     ap_model = ''deepseek/deepseek-v4-flash'', ap_capability = ''chat:smart'', ap_workflow = None,
     ap_estimated_cost = 1, ap_est_tokens = 100, ap_check = None, ap_cap_flow = NEXT_PROVIDER, ap_reserve = True,
     ap_penalize = True, ap_pinned_model = None, ap_note_affinity = True\<rparr>"

definition demo_service :: service where
  "demo_service = \<lparr>sv_broker = broker_init [capped_key], sv_obs = [], sv_audit = []\<rparr>"


section \<open>The penalty by kind\<close>

text \<open>The health of a key: alive, parked until, last error.\<close>

definition health :: "ApiKeyRow \<Rightarrow> bool \<times> instant option \<times> string option" where
  "health k = (k_is_alive k, k_cooldown_until k, k_last_error k)"

definition health_of :: "int \<Rightarrow> service \<Rightarrow> (bool \<times> instant option \<times> string option) option" where
  "health_of i s = map_option health (key_of i (sv_broker s))"

lemma record_usage_written:
  assumes "record_usage ck db u b = (Inr i, b')"
  shows "\<exists>miss b0. write_usage ck miss u b0 = (i, b') \<and> b_keys b0 = b_keys b"
proof (cases "db (b_missing_usage_cols b)")
  case None
  then show ?thesis using assms by (auto simp: record_usage_def split: prod.splits)
next
  case (Some e)
  let ?miss = "b_missing_usage_cols b @ filter (\<lambda>c. c \<notin> set (b_missing_usage_cols b)) (missing_optional_columns e)"
  have "write_usage ck ?miss u (b\<lparr>b_missing_usage_cols := ?miss\<rparr>) = (i, b')"
    using assms Some by (auto simp: record_usage_def Let_def split: prod.splits option.splits if_splits)
  then show ?thesis by (intro exI[of _ ?miss] exI[of _ "b\<lparr>b_missing_usage_cols := ?miss\<rparr>"]) simp
qed

lemma write_usage_key:
  assumes "write_usage ck miss u b = (i, b')" "u_api_key_id u = Some kid"
  shows "key_of j b' = (if j = kid then map_option (book_usage ck (u_cost_usd u) (u_status u) (u_error_kind u)) (key_of j b)
    else key_of j b)"
proof -
  have id: "k_id (book_usage ck c st ek k) = k_id k" for c st ek k by (simp add: book_usage_def recover_def)
  have b': "b' = update_key kid (\<lambda>k. True) (book_usage ck (u_cost_usd u) (u_status u) (u_error_kind u))
      (b\<lparr>b_usage := b_usage b', b_next_usage_id := b_next_usage_id b'\<rparr>)"
    using assms by (auto simp: write_usage_def Let_def)
  show ?thesis by (subst b') (simp add: key_of_update_key id, simp add: key_of_def)
qed

lemma health_book:
  assumes "book env u s = (Inr i, s')" "u_status u \<noteq> ''ok''" "u_api_key_id u = Some kid"
  shows "health_of j s' = health_of j s"
proof -
  have h: "health (book_usage ck c (u_status u) ek k) = health k" for ck c ek k
    using assms(2) by (simp add: book_usage_def recover_def health_def)
  have "record_usage (ae_clock2 env) (ae_db env) u (sv_broker s) = (Inr i, sv_broker s')"
    using assms(1) by (auto simp: book_def split: prod.splits)
  then obtain miss b0 where w: "write_usage (ae_clock2 env) miss u b0 = (i, sv_broker s')" "b_keys b0 = b_keys (sv_broker s)"
    using record_usage_written by blast
  then show ?thesis
    using write_usage_key[OF w(1) assms(3), of j]
    by (cases "key_of j b0") (auto simp: health_of_def h key_of_def)
qed

lemma health_on_key:
  assumes "\<And>k. k_id (f k) = k_id k"
  shows "health_of j (on_broker (update_key i (\<lambda>k. True) f) s) =
    (if j = i then map_option (health \<circ> f) (key_of j (sv_broker s)) else health_of j s)"
  using assms by (simp add: health_of_def on_broker_def key_of_update_key option.map_comp)

lemma health_circuit [simp]: "health_of j (on_broker (\<lambda>b. b\<lparr>b_circuit := g b\<rparr>) s) = health_of j s"
  by (simp add: health_of_def on_broker_def key_of_def)

lemma health_other [simp]:
  "health_of j (audit f row s) = health_of j s" "health_of j (s\<lparr>sv_obs := x\<rparr>) = health_of j s"
  "health_of j (on_broker (mark_model_cooldown i m t r) s) = health_of j s"
  by (simp_all add: health_of_def audit_def on_broker_def key_of_def)

text \<open>What the penalty makes of the health of the key it hits.\<close>

definition penalised :: "attempt_env \<Rightarrow> Attempt \<Rightarrow> provider_exc \<Rightarrow> service
    \<Rightarrow> bool \<times> instant option \<times> string option \<Rightarrow> bool \<times> instant option \<times> string option" where
  "penalised env a exc s h = (case h of (alive, until, err) \<Rightarrow>
     (let key = ap_key a; reason = clip_reason (Some (take 200 (scrub_secrets (ex_msg exc)))) in
      if is_model_unavailable exc \<or> \<not> ap_penalize a then h
      else case classify_provider_error exc (Some (k_provider key)) of
        RateLimit \<Rightarrow> if ap_model a \<noteq> [] \<and> is_model_scoped_quota (k_provider key) (ex_msg exc) then h
                     else (alive, Some (penalty_until env key exc (sv_broker s)), reason)
      | Auth \<Rightarrow> (False, until, reason)
      | Other \<Rightarrow> h))"

lemma penalize_health:
  assumes "penalize env (ap_key a) exc (ap_capability a) (ap_model a) s = Inr (kind, s')"
    "\<not> is_model_unavailable exc" "ap_penalize a"
  shows "health_of j s' = (if j = k_id (ap_key a) then map_option (penalised env a exc s) (health_of j s) else health_of j s)"
proof -
  let ?r = "Some (take 200 (scrub_secrets (ex_msg exc)))"
  obtain s1 where s1: "(if is_timeout exc then note_call_timeout (ck_mono (ae_clock2 env)) (ap_key a) (ap_capability a) s else Inr s) = Inr s1"
    "\<And>j. health_of j s1 = health_of j s" "b_usage (sv_broker s1) = b_usage (sv_broker s)"
    using assms(1) by (auto simp: penalize_def note_call_timeout_def Let_def on_broker_def health_of_def key_of_def
        split: sum.splits if_splits)
  have pu: "penalty_until env k exc (sv_broker s1) = penalty_until env k exc (sv_broker s)" for k
    using s1(3) by (simp add: penalty_until_def)
  have cool_eq: "health_of j (on_broker (mark_cooldown i t ?r) s1) =
      (if j = i then map_option (\<lambda>(al, u, er). (al, Some t, clip_reason ?r)) (health_of j s1) else health_of j s1)" for i t
    unfolding mark_cooldown_def by (subst health_on_key) (simp_all add: health_of_def health_def option.map_comp comp_def)
  have dead_eq: "health_of j (on_broker (mark_dead i ?r) s1) =
      (if j = i then map_option (\<lambda>(al, u, er). (False, u, clip_reason ?r)) (health_of j s1) else health_of j s1)" for i
    unfolding mark_dead_def by (subst health_on_key) (simp_all add: health_of_def health_def option.map_comp comp_def)
  have same: "map_option (\<lambda>h. h) x = x" for x :: "(bool \<times> instant option \<times> string option) option" by (cases x) auto
  let ?kind = "classify_provider_error exc (Some (k_provider (ap_key a)))"
  let ?scoped = "ap_model a \<noteq> [] \<and> is_model_scoped_quota (k_provider (ap_key a)) (ex_msg exc)"
  consider (cool) "?kind = RateLimit" "\<not> ?scoped" | (dead) "?kind = Auth" | (none) "?kind = RateLimit \<and> ?scoped \<or> ?kind = Other"
    by (cases ?kind) auto
  then show ?thesis
  proof cases
    case cool
    have "penalised env a exc s = (\<lambda>(al, u, er). (al, Some (penalty_until env (ap_key a) exc (sv_broker s)), clip_reason ?r))"
      using cool assms(2,3) by (auto simp: penalised_def Let_def fun_eq_iff)
    moreover have "s' = on_broker (mark_cooldown (k_id (ap_key a)) (penalty_until env (ap_key a) exc (sv_broker s1)) ?r) s1"
      using cool assms(1) s1(1) by (simp add: penalize_def Let_def split: if_splits)
    ultimately show ?thesis using cool_eq s1(2) pu by simp
  next
    case dead
    have "penalised env a exc s = (\<lambda>(al, u, er). (False, u, clip_reason ?r))"
      using dead assms(2,3) by (simp add: penalised_def Let_def fun_eq_iff)
    moreover have "health_of j s' = health_of j (on_broker (mark_dead (k_id (ap_key a)) ?r) s1)"
      using dead assms(1) s1(1) by (auto simp: penalize_def Let_def split: if_splits)
    ultimately show ?thesis using dead_eq s1(2) by simp
  next
    case none
    have "penalised env a exc s = (\<lambda>h. h)"
      using none assms(2,3) by (auto simp: penalised_def Let_def fun_eq_iff)
    moreover have "health_of j s' = health_of j s1"
      using none assms(1) s1(1) by (auto simp: penalize_def Let_def split: if_splits)
    ultimately show ?thesis using s1(2) by (simp add: same)
  qed
qed

text \<open>
  C34. A failed call hurts its key only as its kind deserves. A rate limit parks the key (or
  only the model, when the quota is the model's) until the computed cooldown, a credential
  error kills it, and anything else, like a model the provider does not have, leaves its
  health alone; the recorded reason is scrubbed and at most 200 characters; no other key is
  touched. A missing model and a learned size limit move the walk to the next provider,
  every other failure to the next key.
\<close>

theorem failed_call_penalises_by_kind:
  assumes run: "handle_call_error env a exc s = (Finished res, s')"
  shows "health_of j s' = (if j = k_id (ap_key a) then map_option (penalised env a exc s) (health_of j s) else health_of j s) \<and>
    ar_flow res = (if is_model_unavailable exc \<or> ap_est_tokens a \<noteq> 0 \<and> is_too_large_error exc then NEXT_PROVIDER else NEXT_KEY)"
proof -
  have nok: "status_by_kind k \<noteq> ''ok''" for k by (cases k) (simp_all add: status_by_kind_def)
  have rec: "health_of j s' = health_of j t" if "record_error env a exc t = (Inr i, s')" for t i
    using that unfolding record_error_def by (rule health_book) (simp_all add: nok)
  have same: "map_option (\<lambda>h. h) x = x" for x :: "(bool \<times> instant option \<times> string option) option" by (cases x) auto
  show ?thesis
  proof (cases "is_model_unavailable exc")
    case True
    then have "penalised env a exc s = (\<lambda>h. h)" by (auto simp: penalised_def Let_def fun_eq_iff)
    with True run rec[of s] show ?thesis
      by (auto simp: handle_call_error_def failed_with_def same dest!: finished_asD)
  next
    case False
    obtain s1 where s1: "(if ap_penalize a then map_sum id snd (penalize env (ap_key a) exc (ap_capability a) (ap_model a) s)
        else Inr s) = Inr s1"
      using run False by (auto simp: handle_call_error_def split: sum.splits)
    have h: "health_of j s1 = (if j = k_id (ap_key a) then map_option (penalised env a exc s) (health_of j s) else health_of j s)"
    proof (cases "ap_penalize a")
      case True
      then obtain kind where "penalize env (ap_key a) exc (ap_capability a) (ap_model a) s = Inr (kind, s1)"
        using s1 by (cases "penalize env (ap_key a) exc (ap_capability a) (ap_model a) s") auto
      from penalize_health[OF this False True] show ?thesis .
    next
      case np: False
      then have "penalised env a exc s = (\<lambda>h. h)" by (auto simp: penalised_def Let_def fun_eq_iff)
      with np s1 show ?thesis by (simp add: same)
    qed
    show ?thesis
    proof (cases "ap_est_tokens a \<noteq> 0 \<and> is_too_large_error exc")
      case True
      let ?t = "s1\<lparr>sv_obs := record_too_large (instant_of (ae_now env)) (ae_obs_fails env) (ap_provider a)
          (ap_est_tokens a) (sv_obs s1)\<rparr>"
      have "finished_as (failed_with NEXT_PROVIDER (ProviderError exc)) (record_error env a exc ?t) = (Finished res, s')"
        using run False True by (simp add: handle_call_error_def s1)
      then obtain i where i: "record_error env a exc ?t = (Inr i, s')" "res = failed_with NEXT_PROVIDER (ProviderError exc)"
        using finished_asD by blast
      show ?thesis using rec[OF i(1)] h True i(2) by (simp add: failed_with_def)
    next
      case small: False
      then have "finished_as (failed_with NEXT_KEY (ProviderError exc)) (record_error env a exc s1) = (Finished res, s')"
        using run False by (auto simp: handle_call_error_def s1)
      then obtain i where i: "record_error env a exc s1 = (Inr i, s')" "res = failed_with NEXT_KEY (ProviderError exc)"
        using finished_asD by blast
      show ?thesis using rec[OF i(1)] h False small i(2) by (auto simp: failed_with_def)
    qed
  qed
qed

theorem failed_call_penalises_by_kind_witness:
  "map_option fst (health_of 3 (snd (handle_call_error (demo_attempt_env (\<lambda>_. CallCancelled)) demo_attempt
     (plain_exc ''AuthenticationError'' ''invalid api key'' (Some 401)) demo_service))) = Some False"
proof -
  let ?env = "demo_attempt_env (\<lambda>_. CallCancelled)" and ?e = "plain_exc ''AuthenticationError'' ''invalid api key'' (Some 401)"
  obtain r s' where r: "handle_call_error ?env demo_attempt ?e demo_service = (r, s')"
    by (cases "handle_call_error ?env demo_attempt ?e demo_service")
  have "(case fst (handle_call_error ?env demo_attempt ?e demo_service) of Finished _ \<Rightarrow> True | _ \<Rightarrow> False)" by code_simp
  with r obtain res where f: "handle_call_error ?env demo_attempt ?e demo_service = (Finished res, s')" by (cases r) auto
  have "\<not> is_model_unavailable ?e" "classify_provider_error ?e (Some ''deepseek'') = Auth" by code_simp+
  then have "penalised ?env demo_attempt ?e demo_service = (\<lambda>(al, u, er). (False, u, clip_reason (Some (take 200 (scrub_secrets (ex_msg ?e))))))"
    by (simp add: penalised_def Let_def fun_eq_iff demo_attempt_def capped_key_def new_key_def)
  moreover have "health_of 3 demo_service \<noteq> None" by code_simp
  ultimately show ?thesis
    using failed_call_penalises_by_kind[OF f, of 3] f
    by (cases "health_of 3 demo_service") (auto simp: demo_attempt_def capped_key_def new_key_def)
qed

end
