(* ===== verification/Json_Roundtrip.thy ===== *)
theory Json_Roundtrip
  imports Json
begin

text \<open>
  Printing then decoding: integers, strings with their escapes, and nested values come back
  as they were. The induction is over the decoder's fuel; that the fuel of \<open>json_loads\<close>
  suffices is taken from the termination lemma of \<open>Json\<close>.
\<close>

section \<open>Integers\<close>

lemma digits_enum: "n < 10 \<Longrightarrow> digit_val (digits ! n) = Some (int n)"
  by (cases "n \<in> {0, 1, 2, 3, 4, 5, 6, 7, 8, 9}")
     (auto simp: digit_val_def digits_def)

lemma show_nat_digits: "c \<in> set (show_nat n) \<Longrightarrow> json_digit c"
proof (induction n rule: show_nat.induct)
  case (1 n)
  have "c \<in> set (if n < 10 then [digits ! n] else show_nat (n div 10) @ [digits ! (n mod 10)])"
    using 1(2) by (subst (asm) show_nat.simps)
  then show ?case using 1(1) digits_enum[of n] digits_enum[of "n mod 10"]
    by (auto simp: json_digit_def split: if_splits)
qed

lemma parse_digits_append:
  "(\<And>c. c \<in> set xs \<Longrightarrow> json_digit c) \<Longrightarrow>
   parse_digits acc (xs @ ys) = (case parse_digits acc xs of None \<Rightarrow> None | Some a \<Rightarrow> parse_digits a ys)"
proof (induction xs arbitrary: acc)
  case (Cons c cs)
  then obtain d where "digit_val c = Some d" by (auto simp: json_digit_def)
  with Cons show ?case by simp
qed simp

lemma parse_show_nat: "parse_digits 0 (show_nat n) = Some (int n)"
proof (induction n rule: show_nat.induct)
  case (1 n)
  show ?case
  proof (cases "n < 10")
    case True
    then show ?thesis by (subst show_nat.simps) (simp add: digits_enum)
  next
    case False
    have "10 * int (n div 10) + int (n mod 10) = int n"
      by (metis mult.commute div_mult_mod_eq of_nat_add of_nat_mult of_nat_numeral)
    with 1[OF False] False show ?thesis
      by (subst show_nat.simps)
         (simp add: parse_digits_append[OF show_nat_digits] digits_enum zmod_int zdiv_int)
  qed
qed

lemma show_nat_ne [simp]: "show_nat n \<noteq> []"
  by (subst show_nat.simps) simp

lemma show_nat_zero: "hd (show_nat n) = CHR ''0'' \<Longrightarrow> n = 0"
proof (induction n rule: show_nat.induct)
  case (1 n)
  show ?case
  proof (cases "n < 10")
    case True
    then have "digit_val (digits ! n) = Some (int n)" by (rule digits_enum)
    moreover have "digits ! n = CHR ''0''" using 1(2) True by (subst (asm) show_nat.simps) simp
    ultimately show ?thesis by (simp add: digit_val_def digits_def)
  next
    case False
    then have "hd (show_nat (n div 10)) = CHR ''0''" using 1(2) by (subst (asm) show_nat.simps) simp
    from 1(1)[OF False this] False show ?thesis by simp
  qed
qed

definition ends_number :: "string \<Rightarrow> bool" where
  "ends_number s \<longleftrightarrow> (case s of [] \<Rightarrow> True | c # _ \<Rightarrow> \<not> json_digit c \<and> c \<notin> set ''.eE'')"

lemma span_digits:
  assumes "\<And>c. c \<in> set xs \<Longrightarrow> json_digit c" "ends_number r"
  shows "takeWhile json_digit (xs @ r) = xs" "dropWhile json_digit (xs @ r) = r"
proof -
  have r: "takeWhile json_digit r = []" "dropWhile json_digit r = r"
    using assms(2) by (cases r; simp add: ends_number_def)+
  show "takeWhile json_digit (xs @ r) = xs" "dropWhile json_digit (xs @ r) = r"
    using assms(1) r by (auto simp: takeWhile_append2 dropWhile_append2)
qed

lemma scan_int_part_show:
  assumes "ends_number r" shows "scan_int_part (show_nat n @ r) = Some (show_nat n, r)"
proof (cases "hd (show_nat n) = CHR ''0''")
  case True
  then have "n = 0" by (rule show_nat_zero)
  then have "show_nat n = ''0''" by (simp add: show_nat.simps digits_def)
  then show ?thesis by (simp add: scan_int_part_def)
next
  case False
  obtain c cs where c: "show_nat n = c # cs" by (cases "show_nat n") auto
  then have "json_digit c" "c \<noteq> CHR ''0''" using show_nat_digits[of c n] False by auto
  with c span_digits[OF show_nat_digits[of _ n] assms] show ?thesis by (simp add: scan_int_part_def)
qed

lemma scan_int_show:
  assumes "ends_number r" "length (show_nat (nat \<bar>i\<bar>)) \<le> INT_MAX_STR_DIGITS"
  shows "scan_number h (show_int i @ r) = Inr (JInt i, r)"
proof -
  have nd: "\<not> json_digit CHR ''-''" by (simp add: json_digit_def digit_val_def digits_def)
  have hd_digit: "hd (show_nat n @ r) \<noteq> CHR ''-''" for n
    using show_nat_digits[of "hd (show_nat n)" n] nd by (cases "show_nat n") auto
  have "scan_frac r = (None, r)" "scan_exp r = (None, r)"
    using assms(1) by (auto simp: ends_number_def scan_frac_def scan_exp_def Let_def split: list.splits)
  moreover have "digits_val (show_nat n) = int n" for n by (simp add: digits_val_def parse_show_nat)
  ultimately show ?thesis
    using assms(2) hd_digit scan_int_part_show[OF assms(1)]
    by (cases "i < 0") (auto simp: scan_number_def show_int_def Let_def)
qed
section \<open>Strings\<close>

lemma hex_digit_val: "hex_val (hex_digit n) = Some (n mod 16)"
proof -
  have "\<forall>m < 16. hex_val (''0123456789abcdef'' ! m) = Some m" by code_simp
  then show ?thesis by (simp add: hex_digit_def)
qed

lemma hex4_control: "n < 256 \<Longrightarrow> hex4 (''00'' @ [hex_digit (n div 16), hex_digit n] @ t) = Some n"
  by (simp add: hex4_def hex_digit_val) (simp add: hex_val_def)

lemma scan_str_esc: "scan_str (json_esc_char c @ t) = prepend [c] (scan_str t)"
proof (cases "c \<in> {CHR 0x22, CHR 0x5C, CHR 0x0A, CHR 0x0D, CHR 0x09, CHR 0x08, CHR 0x0C}")
  case True
  then show ?thesis by (elim insertE emptyE) (simp_all add: json_esc_char_def simple_escape_def)
next
  case plain: False
  show ?thesis
  proof (cases "(of_char c :: nat) < 32")
    case True
    have h: "hex4 (CHR ''0'' # CHR ''0'' # hex_digit (of_char c div 16) # hex_digit (of_char c) # t) = Some (of_char c)"
      using hex4_control[of "of_char c" t] True by simp
    have "utf8 (of_char c) = [c]" using True by (simp add: utf8_def)
    with h True plain show ?thesis by (simp add: json_esc_char_def)
  next
    case False
    with plain show ?thesis by (simp add: json_esc_char_def)
  qed
qed

lemma scan_str_quoted: "scan_str (concat (map json_esc_char s) @ CHR 0x22 # r) = Inr (s, r)"
proof (induction s)
  case (Cons c s)
  have "scan_str (concat (map json_esc_char (c # s)) @ CHR 0x22 # r)
      = prepend [c] (scan_str (concat (map json_esc_char s) @ CHR 0x22 # r))"
    using scan_str_esc[of c] by simp
  with Cons show ?case by (simp add: prepend_def)
qed simp

lemma scan_str_json_esc: "scan_str (tl (json_esc s) @ r) = Inr (s, r)"
  using scan_str_quoted[of s r] by (simp add: json_esc_def)

section \<open>Values\<close>

text \<open>What round-trips: unique keys, no floats, no integer too long to print.\<close>

fun printable :: "json \<Rightarrow> bool" where
  "printable (JFloat r) \<longleftrightarrow> False"
| "printable (JInt i) \<longleftrightarrow> length (show_nat (nat \<bar>i\<bar>)) \<le> INT_MAX_STR_DIGITS"
| "printable (JList vs) \<longleftrightarrow> list_all printable vs"
| "printable (JObj kvs) \<longleftrightarrow> distinct (map fst kvs) \<and> list_all (\<lambda>(k, v). printable v) kvs"
| "printable _ \<longleftrightarrow> True"

lemma show_nat_Cons:
  obtains c cs where "show_nat n = c # cs" "json_digit c"
  using show_nat_digits[of "hd (show_nat n)" n] by (cases "show_nat n") auto

lemma show_int_Cons:
  obtains c cs where "show_int i = c # cs" "json_digit c \<or> c = CHR ''-''"
  by (cases "i < 0"; rule show_nat_Cons[of "nat i"]) (auto simp: show_int_def)

lemma dumps_head:
  assumes "printable v"
  obtains c cs where "json_dumps fr s1 s2 v = c # cs" "\<not> json_ws c" "c \<notin> {CHR '']'', CHR ''}''}"
proof -
  have d: "\<not> json_ws c" "c \<notin> {CHR '']'', CHR ''}''}" if "json_digit c \<or> c = CHR ''-''" for c
    using that by (auto simp: json_ws_def json_digit_def digit_val_def digits_def)
  have w: "\<not> json_ws CHR ''n''" "\<not> json_ws CHR ''t''" "\<not> json_ws CHR ''f''" "\<not> json_ws CHR 0x22"
    "\<not> json_ws CHR ''[''" "\<not> json_ws CHR ''{''" by (simp_all add: json_ws_def)
  show thesis
  proof (cases v)
    case (JInt i)
    obtain c cs where c: "show_int i = c # cs" "json_digit c \<or> c = CHR ''-''" by (rule show_int_Cons)
    from that[of c cs] show thesis using JInt c(1) d[OF c(2)] by simp
  next
    case (JBool b)
    then show thesis using that w by (cases b) auto
  qed (use assms w that in \<open>auto simp: json_esc_def split: if_splits\<close>)
qed

lemma skip_ws_sep: "(\<And>c. c \<in> set w \<Longrightarrow> json_ws c) \<Longrightarrow> \<not> json_ws c \<Longrightarrow> skip_ws (w @ c # cs) = c # cs"
  unfolding skip_ws_def by (rule dropWhile_prefix_Cons)

lemma skip_ws_dumps:
  "printable v \<Longrightarrow> (\<And>c. c \<in> set w \<Longrightarrow> json_ws c) \<Longrightarrow> skip_ws (w @ json_dumps fr s1 s2 v @ r) = json_dumps fr s1 s2 v @ r"
  by (rule dumps_head[of v fr s1 s2]) (auto intro: skip_ws_sep)

text \<open>
  With separators that are a comma or colon and blanks, decoding what was printed gives the
  value back or runs out of fuel, whatever the fuel; with the fuel of \<open>json_loads\<close> only the
  first is left.
\<close>

definition blank_seps :: "string \<Rightarrow> string \<Rightarrow> bool" where
  "blank_seps s1 s2 \<longleftrightarrow> (\<exists>w1 w2. s1 = CHR '','' # w1 \<and> s2 = CHR '':'' # w2 \<and>
     (\<forall>c \<in> set w1 \<union> set w2. json_ws c))"

definition scans_to :: "'a scan \<Rightarrow> 'a \<Rightarrow> string \<Rightarrow> bool" where
  "scans_to x v r \<longleftrightarrow> x = Inr (v, r) \<or> x = Inl OutOfFuel"

lemma ends_number_punct: "c \<in> {CHR '','', CHR '']'', CHR ''}''} \<Longrightarrow> ends_number (c # r)"
  by (elim insertE emptyE) (simp_all add: ends_number_def json_digit_def digit_val_def digits_def)

lemma show_int_atom:
  "scan_atom h (show_int i @ r) = scan_number h (show_int i @ r)"
proof -
  have d: "\<not> json_digit c" if "c \<in> set ''ntfNI-''" for c
    using that by (auto simp: json_digit_def digit_val_def digits_def)
  obtain c cs where c: "show_nat (nat \<bar>i\<bar>) = c # cs" "json_digit c" by (rule show_nat_Cons)
  have "c \<noteq> CHR ''n''" "c \<noteq> CHR ''t''" "c \<noteq> CHR ''f''" "c \<noteq> CHR ''N''" "c \<noteq> CHR ''I''" "c \<noteq> CHR ''-''"
    using d c(2) by force+
  with c(1) show ?thesis
    by (cases "i < 0") (simp_all add: show_int_def scan_atom_def starts_with_def)
qed

lemma scans_atom:
  assumes "printable v" "ends_number r" "\<And>vs. v \<noteq> JList vs" "\<And>kvs. v \<noteq> JObj kvs"
  shows "scan_value (Suc n) h (json_dumps fr s1 s2 v @ r) = Inr (v, r)"
proof (cases v)
  case (JInt i)
  obtain c cs where c: "show_int i = c # cs" "json_digit c \<or> c = CHR ''-''" by (rule show_int_Cons)
  then have "c \<notin> {CHR 0x22, CHR ''{'', CHR ''[''}" by (auto simp: json_digit_def digit_val_def digits_def)
  with c(1) have "scan_value (Suc n) h (show_int i @ r) = scan_atom h (show_int i @ r)" by simp
  then show ?thesis using JInt assms(1,2) by (simp add: show_int_atom scan_int_show)
next
  case (JStr s)
  then show ?thesis using scan_str_quoted[of s r] by (simp add: json_esc_def)
qed (use assms in \<open>auto simp: scan_atom_def starts_with_def\<close>)

lemma scans_back:
  assumes sep: "blank_seps s1 s2"
  shows "(\<forall>v r. printable v \<longrightarrow> ends_number r \<longrightarrow> scans_to (scan_value n strict_hooks (json_dumps fr s1 s2 v @ r)) v r) \<and>
    (\<forall>vs r. list_all printable vs \<longrightarrow> vs \<noteq> [] \<longrightarrow>
      scans_to (scan_items n strict_hooks (join_with s1 (map (json_dumps fr s1 s2) vs) @ CHR '']'' # r)) vs r) \<and>
    (\<forall>kvs r. list_all (\<lambda>(k, v). printable v) kvs \<longrightarrow> kvs \<noteq> [] \<longrightarrow>
      scans_to (scan_members n strict_hooks (join_with s1
        (map (\<lambda>(k, v). json_esc k @ s2 @ json_dumps fr s1 s2 v) kvs) @ CHR ''}'' # r)) kvs r)"
proof (induction n)
  case 0
  show ?case by (simp add: scans_to_def)
next
  case (Suc n)
  obtain w1 w2 where w: "s1 = CHR '','' # w1" "s2 = CHR '':'' # w2"
    "\<And>c. c \<in> set w1 \<Longrightarrow> json_ws c" "\<And>c. c \<in> set w2 \<Longrightarrow> json_ws c"
    using sep by (auto simp: blank_seps_def)
  have ws: "\<not> json_ws CHR '','' " "\<not> json_ws CHR '':'' " "\<not> json_ws CHR '']''" "\<not> json_ws CHR ''}''" "\<not> json_ws CHR 0x22"
    by (simp_all add: json_ws_def)
  have sk: "\<not> json_ws c \<Longrightarrow> skip_ws (c # cs) = c # cs" for c cs by (simp add: skip_ws_def)
  note IH = Suc[THEN conjunct1, rule_format] Suc[THEN conjunct2, THEN conjunct1, rule_format]
    Suc[THEN conjunct2, THEN conjunct2, rule_format]
  let ?d = "json_dumps fr s1 s2" and ?m = "\<lambda>(k, v). json_esc k @ s2 @ json_dumps fr s1 s2 v"
  have v: "scans_to (scan_value (Suc n) strict_hooks (?d v @ r)) v r" if p: "printable v" "ends_number r" for v r
  proof (cases v)
    case (JList vs)
    show ?thesis
    proof (cases vs)
      case (Cons u us)
      let ?t = "join_with s1 (map ?d vs) @ CHR '']'' # r"
      obtain c cs where "?d u = c # cs" "\<not> json_ws c" "c \<notin> {CHR '']'', CHR ''}''}"
        using dumps_head[of u fr s1 s2] p JList Cons by auto
      then have "skip_ws ?t = ?t" and "?t \<noteq> [] \<and> hd ?t \<noteq> CHR '']''"
        using Cons by (cases us; simp add: sk)+
      with IH(2)[of vs r] p JList Cons show ?thesis by (auto simp: scans_to_def)
    qed (simp add: JList scans_to_def sk ws)
  next
    case (JObj kvs)
    show ?thesis
    proof (cases kvs)
      case (Cons kv kvs')
      let ?t = "join_with s1 (map ?m kvs) @ CHR ''}'' # r"
      have "skip_ws ?t = ?t" and "?t \<noteq> [] \<and> hd ?t \<noteq> CHR ''}''"
        using Cons by (cases kv; cases kvs'; auto simp: sk ws json_esc_def)+
      with IH(3)[of kvs r] p JObj Cons show ?thesis
        by (auto simp: scans_to_def strict_hooks_def unique_object_eq)
    qed (simp add: JObj scans_to_def sk ws strict_hooks_def unique_object_eq)
  qed (use scans_atom[OF p] in \<open>auto simp: scans_to_def\<close>)
  have i: "scans_to (scan_items (Suc n) strict_hooks (join_with s1 (map ?d vs) @ CHR '']'' # r)) vs r"
    if p: "list_all printable vs" "vs \<noteq> []" for vs r
  proof -
    obtain u us where vs: "vs = u # us" using p(2) by (cases vs) auto
    show ?thesis
    proof (cases us)
      case Nil
      with vs p IH(1)[of u "CHR '']'' # r"] show ?thesis
        by (auto simp: scans_to_def ends_number_punct sk ws)
    next
      case (Cons u' us')
      let ?rest = "join_with s1 (map ?d us) @ CHR '']'' # r"
      have sk2: "skip_ws (w1 @ ?rest) = ?rest"
        using skip_ws_dumps[of u' w1 fr s1 s2 "drop (length (?d u')) ?rest"] p vs Cons w(3)
        by (cases us') auto
      have "scans_to (scan_value n strict_hooks (?d u @ CHR '','' # w1 @ ?rest)) u (CHR '','' # w1 @ ?rest)"
        using IH(1) p vs by (simp add: ends_number_punct)
      moreover have "scans_to (scan_items n strict_hooks ?rest) us r"
        using IH(2)[of us r] p vs Cons by simp
      ultimately show ?thesis
        using vs Cons sk2 by (auto simp: scans_to_def sk ws w(1))
    qed
  qed
  have o: "scans_to (scan_members (Suc n) strict_hooks (join_with s1 (map ?m kvs) @ CHR ''}'' # r)) kvs r"
    if p: "list_all (\<lambda>(k, v). printable v) kvs" "kvs \<noteq> []" for kvs r
  proof -
    obtain k u us where vs: "kvs = (k, u) # us" using p(2) by (cases kvs) auto
    then have pu: "printable u" using p(1) by simp
    have key: "scan_str (concat (map json_esc_char k) @ CHR 0x22 # t) = Inr (k, t)" for t by (rule scan_str_quoted)
    have col: "skip_ws (w2 @ ?d u @ t) = ?d u @ t" for t by (rule skip_ws_dumps[OF pu w(4)])
    show ?thesis
    proof (cases us)
      case Nil
      with IH(1)[OF pu, of "CHR ''}'' # r"] vs show ?thesis
        by (auto simp: scans_to_def ends_number_punct sk ws json_esc_def key w(2) col[unfolded w(2)])
    next
      case (Cons ku us')
      let ?rest = "join_with s1 (map ?m us) @ CHR ''}'' # r"
      have sk2: "skip_ws (w1 @ ?rest) = ?rest"
        using skip_ws_sep[OF w(3) ws(5)] Cons by (cases ku; cases us') (auto simp: json_esc_def)
      have "scans_to (scan_value n strict_hooks (?d u @ CHR '','' # w1 @ ?rest)) u (CHR '','' # w1 @ ?rest)"
        using IH(1)[OF pu] by (simp add: ends_number_punct)
      moreover have "scans_to (scan_members n strict_hooks ?rest) us r"
        using IH(3)[of us r] p vs Cons by simp
      ultimately show ?thesis
        using vs Cons sk2 by (auto simp: scans_to_def sk ws w(1,2) json_esc_def key col[unfolded w(1,2)])
    qed
  qed
  from v i o show ?case by blast
qed

lemma dumps_loads:
  assumes "printable v" "blank_seps s1 s2"
  shows "loads_strict (json_dumps fr s1 s2 v) = Inr v"
proof -
  let ?s = "json_dumps fr s1 s2 v"
  have sk: "skip_ws ?s = ?s" using skip_ws_dumps[OF assms(1), of "[]" fr s1 s2 "[]"] by simp
  have "scans_to (scan_value (2 * length ?s + 2) strict_hooks (?s @ [])) v []"
    by (rule scans_back[OF assms(2), THEN conjunct1, rule_format, OF assms(1)]) (simp add: ends_number_def)
  moreover have "scan_value (2 * length ?s + 2) strict_hooks ?s \<noteq> Inl OutOfFuel"
    using scan_fuel_all[OF hooks_answer_strict] by simp
  ultimately show ?thesis by (simp add: scans_to_def loads_strict_def json_loads_def sk) (simp add: skip_ws_def)
qed



end
