(* ===== verification/Job_List.thy ===== *)
theory Job_List
  imports Job_Queue Json_Roundtrip
begin

text \<open>
  \<^verbatim>\<open>services/job_list.py\<close>: the read-only list of a project's jobs by label, paged by id under
  a high watermark, and the opaque cursor that carries the walk from page to page
  (URL-safe Base64 of a small JSON document). Whether a caller may read an agent run is an
  argument, as it is in the code; so is PostgreSQL's text form of a JSON value that is not
  a string.
\<close>

section \<open>Base64\<close>

definition B64_ALPHABET :: string where
  "B64_ALPHABET = ''ABCDEFGHIJKLMNOPQRSTUVWXYZabcdefghijklmnopqrstuvwxyz0123456789-_''"

definition b64_char :: "nat \<Rightarrow> char" where "b64_char n = B64_ALPHABET ! n"

definition b64_val :: "char \<Rightarrow> nat option" where
  "b64_val c = map_of (zip B64_ALPHABET [0..<64]) c"

fun b64_encode :: "nat list \<Rightarrow> string" where
  "b64_encode [] = []"
| "b64_encode [a] = [b64_char (a div 4), b64_char (a mod 4 * 16), CHR ''='', CHR ''='']"
| "b64_encode [a, b] = [b64_char (a div 4), b64_char (a mod 4 * 16 + b div 16), b64_char (b mod 16 * 4), CHR ''='']"
| "b64_encode (a # b # c # r) =
     [b64_char (a div 4), b64_char (a mod 4 * 16 + b div 16), b64_char (b mod 16 * 4 + c div 64), b64_char (c mod 64)]
     @ b64_encode r"

definition urlsafe_b64encode :: "string \<Rightarrow> string" where
  "urlsafe_b64encode s = b64_encode (map of_char s)"

text \<open>
  Decoding: sextets in groups of four; one sextet left over is an error, the spare bits of
  two or three are dropped, and then the padding must be complete.
\<close>

fun b64_quads :: "nat list \<Rightarrow> nat list option" where
  "b64_quads [] = Some []"
| "b64_quads [a] = None"
| "b64_quads [a, b] = Some [a * 4 + b div 16]"
| "b64_quads [a, b, c] = Some [a * 4 + b div 16, b mod 16 * 16 + c div 4]"
| "b64_quads (a # b # c # d # r) =
     map_option (append [a * 4 + b div 16, b mod 16 * 16 + c div 4, c mod 4 * 64 + d]) (b64_quads r)"

definition urlsafe_b64decode :: "string \<Rightarrow> string option" where
  "urlsafe_b64decode s =
     (let sextets = List.map_filter b64_val (takeWhile (\<lambda>c. c \<noteq> CHR ''='') s);
          pads = length (dropWhile (\<lambda>c. c \<noteq> CHR ''='') s)
      in if length sextets mod 4 = 2 \<and> pads < 2 \<or> length sextets mod 4 = 3 \<and> pads < 1 then None
         else map_option (map char_of) (b64_quads sextets))"

section \<open>JSON from bytes\<close>

text \<open>
  \<^verbatim>\<open>json.loads\<close> of bytes guesses the encoding from a byte order mark or from where the first
  zero bytes are, then decodes (\<^verbatim>\<open>surrogatepass\<close>). The result is the text in UTF-8.
\<close>

definition cont_byte :: "nat \<Rightarrow> bool" where "cont_byte b \<longleftrightarrow> 0x80 \<le> b \<and> b \<le> 0xBF"

fun utf8_ok :: "nat list \<Rightarrow> bool" where
  "utf8_ok [] \<longleftrightarrow> True"
| "utf8_ok (b # bs) \<longleftrightarrow>
     (if b < 0x80 then utf8_ok bs
      else if 0xC2 \<le> b \<and> b \<le> 0xDF
      then (case bs of c # r \<Rightarrow> cont_byte c \<and> utf8_ok r | _ \<Rightarrow> False)
      else if 0xE0 \<le> b \<and> b \<le> 0xEF
      then (case bs of c # d # r \<Rightarrow> cont_byte c \<and> cont_byte d \<and> (b = 0xE0 \<longrightarrow> 0xA0 \<le> c) \<and> utf8_ok r
            | _ \<Rightarrow> False)
      else if 0xF0 \<le> b \<and> b \<le> 0xF4
      then (case bs of c # d # e # r \<Rightarrow> cont_byte c \<and> cont_byte d \<and> cont_byte e \<and>
                 (b = 0xF0 \<longrightarrow> 0x90 \<le> c) \<and> (b = 0xF4 \<longrightarrow> c \<le> 0x8F) \<and> utf8_ok r
            | _ \<Rightarrow> False)
      else False)"

fun utf16_units :: "bool \<Rightarrow> nat list \<Rightarrow> nat list option" where
  "utf16_units be [] = Some []"
| "utf16_units be [a] = None"
| "utf16_units be (a # b # r) =
     map_option (Cons (if be then a * 256 + b else b * 256 + a)) (utf16_units be r)"

fun utf16_text :: "nat list \<Rightarrow> string" where
  "utf16_text [] = []"
| "utf16_text [u] = utf8 u"
| "utf16_text (u # w # r) =
     (if 0xD800 \<le> u \<and> u \<le> 0xDBFF \<and> 0xDC00 \<le> w \<and> w \<le> 0xDFFF
      then utf8 (0x10000 + (u - 0xD800) * 1024 + (w - 0xDC00)) @ utf16_text r
      else utf8 u @ utf16_text (w # r))"

fun utf32_text :: "bool \<Rightarrow> nat list \<Rightarrow> string option" where
  "utf32_text be [] = Some []"
| "utf32_text be (a # b # c # d # r) =
     (let n = (if be then ((a * 256 + b) * 256 + c) * 256 + d else ((d * 256 + c) * 256 + b) * 256 + a)
      in if n > 0x10FFFF then None else map_option (append (utf8 n)) (utf32_text be r))"
| "utf32_text be _ = None"

definition utf16_decode :: "bool \<Rightarrow> nat list \<Rightarrow> string option" where
  "utf16_decode be bs = map_option utf16_text (utf16_units be bs)"

definition utf8_decode :: "nat list \<Rightarrow> string option" where
  "utf8_decode bs = (if utf8_ok bs then Some (map char_of bs) else None)"

definition json_text_of_bytes :: "string \<Rightarrow> string option" where
  "json_text_of_bytes s = (let bs = map of_char s :: nat list in
     if take 4 bs = [0xFF, 0xFE, 0, 0] then utf32_text False (drop 4 bs)
     else if take 4 bs = [0, 0, 0xFE, 0xFF] then utf32_text True (drop 4 bs)
     else if take 2 bs = [0xFF, 0xFE] then utf16_decode False (drop 2 bs)
     else if take 2 bs = [0xFE, 0xFF] then utf16_decode True (drop 2 bs)
     else if take 3 bs = [0xEF, 0xBB, 0xBF] then utf8_decode (drop 3 bs)
     else if length bs \<ge> 4 \<and> bs ! 0 = 0 then (if bs ! 1 \<noteq> 0 then utf16_decode True bs else utf32_text True bs)
     else if length bs \<ge> 4 \<and> bs ! 1 = 0
     then (if bs ! 2 \<noteq> 0 \<or> bs ! 3 \<noteq> 0 then utf16_decode False bs else utf32_text False bs)
     else if length bs = 2 \<and> bs ! 0 = 0 then utf16_decode True bs
     else if length bs = 2 \<and> bs ! 1 = 0 then utf16_decode False bs
     else utf8_decode bs)"

section \<open>Cursor\<close>

definition MAX_ID :: int where "MAX_ID = 2 ^ 63 - 1"
definition MAX_LIMIT :: int where "MAX_LIMIT = 200"
definition DEFAULT_LIMIT :: int where "DEFAULT_LIMIT = 100"
definition AGENT_PREFIX :: string where "AGENT_PREFIX = ''agent:''"

record Cursor =
  cu_after :: int
  cu_hw :: int
  cu_quiet :: bool

definition cursor_json :: "Cursor \<Rightarrow> json" where
  "cursor_json c = JObj [(''after'', JInt (cu_after c)), (''hw'', JInt (cu_hw c)), (''nn'', JBool (cu_quiet c))]"

definition encode_cursor :: "Cursor \<Rightarrow> string" where
  "encode_cursor c =
     rev (dropWhile (\<lambda>x. x = CHR ''='') (rev (urlsafe_b64encode (json_dumps (\<lambda>_. []) '','' '':'' (cursor_json c)))))"

text \<open>\<^verbatim>\<open>BadCursor\<close> is \<open>None\<close>; a missing key of the document makes its key set differ.\<close>

definition cursor_of_json :: "json \<Rightarrow> Cursor option" where
  "cursor_of_json data = (case data of
      JObj kvs \<Rightarrow>
        if set (map fst kvs) \<noteq> {''after'', ''hw'', ''nn''} then None
        else (case (obj_get kvs ''after'', obj_get kvs ''hw'', obj_get kvs ''nn'') of
                (Some (JInt after), Some (JInt hw), Some (JBool quiet)) \<Rightarrow>
                  if 0 \<le> after \<and> after \<le> MAX_ID \<and> 0 \<le> hw \<and> hw \<le> MAX_ID \<and> \<not> hw < after
                  then Some \<lparr>cu_after = after, cu_hw = hw, cu_quiet = quiet\<rparr> else None
              | _ \<Rightarrow> None)
    | _ \<Rightarrow> None)"

definition decode_cursor :: "string \<Rightarrow> Cursor option" where
  "decode_cursor token =
     (if \<not> (1 \<le> length token \<and> length token \<le> 200 \<and> list_all (\<lambda>c. c \<in> set B64_ALPHABET) token) then None
      else case urlsafe_b64decode (token @ replicate ((4 - length token mod 4) mod 4) (CHR ''='')) of
             None \<Rightarrow> None
           | Some raw \<Rightarrow> (case json_text_of_bytes raw of
               None \<Rightarrow> None
             | Some body \<Rightarrow> (case json_loads plain_hooks body of
                 Inl e \<Rightarrow> None
               | Inr data \<Rightarrow> cursor_of_json data)))"

section \<open>Pages\<close>

definition has_label :: "string \<Rightarrow> string \<Rightarrow> DeepJobRow \<Rightarrow> bool" where
  "has_label key v r \<longleftrightarrow> (case j_labels r of None \<Rightarrow> False | Some ls \<Rightarrow> map_of ls key = Some v)"

record list_query =
  lq_project :: int
  lq_key :: string
  lq_value :: string
  lq_trace :: "string option"
  lq_status :: "job_status option"
  lq_limit :: int
  lq_agent_open :: bool
  lq_readable :: "string \<Rightarrow> (string \<times> json) list \<Rightarrow> bool"
  lq_text :: "json \<Rightarrow> string"

definition list_filter :: "list_query \<Rightarrow> DeepJobRow \<Rightarrow> bool" where
  "list_filter q r \<longleftrightarrow> j_project_id r = lq_project q \<and> has_label (lq_key q) (lq_value q) r \<and>
     (lq_trace q \<noteq> None \<longrightarrow> j_trace_id r = lq_trace q) \<and>
     (\<not> lq_agent_open q \<longrightarrow> \<not> starts_with (j_capability r) AGENT_PREFIX)"

record JobItem =
  ji_job_id :: int
  ji_status :: job_status
  ji_capability :: string
  ji_model :: "string option"
  ji_requested_model :: "string option"
  ji_created_at :: instant
  ji_started_at :: "instant option"
  ji_completed_at :: "instant option"
  ji_labels :: "(string \<times> string) list option"
  ji_trace_id :: "string option"
  ji_idempotency_key :: "string option"
  ji_retry_count :: int
  ji_cancel_requested :: bool

text \<open>A column's \<^verbatim>\<open>-> key\<close>, and \<^verbatim>\<open>->> key\<close>: text, NULL for a missing key or a JSON null.\<close>

definition json_at :: "string \<Rightarrow> json option \<Rightarrow> json option" where
  "json_at k j = (case j of Some (JObj kvs) \<Rightarrow> obj_get kvs k | _ \<Rightarrow> None)"

definition json_as_string :: "(json \<Rightarrow> string) \<Rightarrow> json option \<Rightarrow> string option" where
  "json_as_string pg j = (case j of None \<Rightarrow> None | Some JNull \<Rightarrow> None | Some (JStr s) \<Rightarrow> Some s | Some v \<Rightarrow> Some (pg v))"

definition list_item :: "list_query \<Rightarrow> DeepJobRow \<Rightarrow> JobItem" where
  "list_item q r =
     (let request = Some (JObj (j_request r));
          own = json_as_string (lq_text q) (json_at ''model'' (json_at ''client_job'' request))
      in \<lparr>ji_job_id = j_id r, ji_status = j_status r, ji_capability = j_capability r,
          ji_model = json_as_string (lq_text q) (json_at ''model'' (j_result_meta r)),
          ji_requested_model = (if own = None then json_as_string (lq_text q) (json_at ''model'' request) else own),
          ji_created_at = j_created_at r, ji_started_at = j_started_at r, ji_completed_at = j_completed_at r,
          ji_labels = j_labels r, ji_trace_id = j_trace_id r, ji_idempotency_key = j_idempotency_key r,
          ji_retry_count = j_retry_count r, ji_cancel_requested = j_cancel_requested r\<rparr>)"

definition agent_request :: "DeepJobRow \<Rightarrow> (string \<times> json) list" where
  "agent_request r = concat (map (\<lambda>k. case obj_get (j_request r) k of
      None \<Rightarrow> [] | Some JNull \<Rightarrow> [] | Some v \<Rightarrow> [(k, v)]) [''model'', ''account_id''])"

definition may_read :: "list_query \<Rightarrow> DeepJobRow \<Rightarrow> bool" where
  "may_read q r \<longleftrightarrow> lq_readable q (j_capability r) (agent_request r)"

definition visible :: "list_query \<Rightarrow> DeepJobRow \<Rightarrow> bool" where
  "visible q r \<longleftrightarrow> \<not> starts_with (j_capability r) AGENT_PREFIX \<or> may_read q r"

text \<open>
  Is any pending or running job of the filter in sight: the plain rows by one probe, the
  agent rows in chunks by id.
\<close>

definition AGENT_SCAN_CHUNK :: nat where "AGENT_SCAN_CHUNK = 500"

definition live_row :: "list_query \<Rightarrow> int \<Rightarrow> DeepJobRow \<Rightarrow> bool" where
  "live_row q hw r \<longleftrightarrow> list_filter q r \<and> j_id r \<le> hw \<and> j_status r \<in> {Pending, Running}"

definition next_chunk :: "DeepJobRow list \<Rightarrow> int \<Rightarrow> DeepJobRow list" where
  "next_chunk agents lst = take AGENT_SCAN_CHUNK (sort_key j_id (filter (\<lambda>r. j_id r > lst) agents))"

function agents_quiet :: "list_query \<Rightarrow> DeepJobRow list \<Rightarrow> int \<Rightarrow> bool" where
  "agents_quiet q agents lst =
     (let chunk = next_chunk agents lst in
      if list_ex (may_read q) chunk then False
      else if length chunk < AGENT_SCAN_CHUNK then True
      else agents_quiet q agents (j_id (last chunk)))"
  by pat_completeness auto

definition quiet :: "list_query \<Rightarrow> int \<Rightarrow> DeepJobRow list \<Rightarrow> bool" where
  "quiet q hw rows =
     (if list_ex (\<lambda>r. live_row q hw r \<and> \<not> starts_with (j_capability r) AGENT_PREFIX) rows then False
      else if \<not> lq_agent_open q then True
      else agents_quiet q (filter (\<lambda>r. live_row q hw r \<and> starts_with (j_capability r) AGENT_PREFIX) rows) 0)"

record JobPage =
  jp_jobs :: "JobItem list"
  jp_next_cursor :: "string option"
  jp_pagination_complete :: bool
  jp_no_nonterminal_in_filter :: bool
  jp_high_watermark :: int
  jp_retention_days :: rat
  jp_as_of :: instant

definition high_watermark :: "int \<Rightarrow> DeepJobRow list \<Rightarrow> int" where
  "high_watermark project rows =
     (case map j_id (filter (\<lambda>r. j_project_id r = project) rows) of [] \<Rightarrow> 0 | i # ms \<Rightarrow> fold max ms i)"

definition page_rows :: "list_query \<Rightarrow> int \<Rightarrow> int \<Rightarrow> DeepJobRow list \<Rightarrow> DeepJobRow list" where
  "page_rows q after hw rows = sort_key j_id (filter (\<lambda>r. list_filter q r \<and> after < j_id r \<and> j_id r \<le> hw \<and>
     (lq_status q \<noteq> None \<longrightarrow> Some (j_status r) = lq_status q)) rows)"

definition list_jobs :: "instant \<Rightarrow> list_query \<Rightarrow> Cursor option \<Rightarrow> DeepJobRow list \<Rightarrow> JobPage" where
  "list_jobs now q cursor rows =
     (let (after, hw, qt) = (case cursor of
            None \<Rightarrow> (let hw = high_watermark (lq_project q) rows in (0, hw, quiet q hw rows))
          | Some c \<Rightarrow> (cu_after c, cu_hw c, cu_quiet c));
          found = take (nat (lq_limit q + 1)) (page_rows q after hw rows);
          page = take (nat (lq_limit q)) found;
          more = int (length found) > lq_limit q
      in \<lparr>jp_jobs = map (list_item q) (filter (visible q) page),
          jp_next_cursor = (if more then Some (encode_cursor \<lparr>cu_after = j_id (last page), cu_hw = hw, cu_quiet = qt\<rparr>)
                            else None),
          jp_pagination_complete = (\<not> more), jp_no_nonterminal_in_filter = qt, jp_high_watermark = hw,
          jp_retention_days = JOB_RETENTION_DAYS, jp_as_of = now\<rparr>)"

text \<open>A client that follows the cursors; the table may change between its requests.\<close>

fun list_walk :: "nat \<Rightarrow> (nat \<Rightarrow> instant) \<Rightarrow> list_query \<Rightarrow> (nat \<Rightarrow> DeepJobRow list) \<Rightarrow> nat \<Rightarrow> Cursor option \<Rightarrow> JobPage list" where
  "list_walk 0 clock q tab k cursor = []"
| "list_walk (Suc n) clock q tab k cursor =
     (let page = list_jobs (clock k) q cursor (tab k) in
      page # (case jp_next_cursor page of
                None \<Rightarrow> []
              | Some token \<Rightarrow> (case decode_cursor token of
                  None \<Rightarrow> []
                | Some c \<Rightarrow> list_walk n clock q tab (Suc k) (Some c))))"

section \<open>The agent scan\<close>

lemma next_chunk_sub: "r \<in> set (next_chunk agents lst) \<Longrightarrow> r \<in> set agents \<and> lst < j_id r"
  by (auto simp: next_chunk_def dest!: in_set_takeD)

lemma last_chunk_above:
  assumes "length (next_chunk agents lst) \<ge> AGENT_SCAN_CHUNK"
  shows "last (next_chunk agents lst) \<in> set agents" "lst < j_id (last (next_chunk agents lst))"
proof -
  have "next_chunk agents lst \<noteq> []" using assms by (auto simp: AGENT_SCAN_CHUNK_def)
  then have "last (next_chunk agents lst) \<in> set (next_chunk agents lst)" by (rule last_in_set)
  from next_chunk_sub[OF this]
  show "last (next_chunk agents lst) \<in> set agents" "lst < j_id (last (next_chunk agents lst))" by auto
qed

termination agents_quiet
proof (relation "measure (\<lambda>(q, agents, lst). length (filter (\<lambda>r. j_id r > lst) agents))")
  fix q :: list_query and agents :: "DeepJobRow list" and lst chunk
  assume c: "chunk = next_chunk agents lst" "\<not> length chunk < AGENT_SCAN_CHUNK"
  then have l: "last chunk \<in> set agents" "lst < j_id (last chunk)"
    using last_chunk_above[of agents lst] by auto
  have "filter (\<lambda>r. j_id r > j_id (last chunk)) agents = filter (\<lambda>r. j_id r > j_id (last chunk)) (filter (\<lambda>r. j_id r > lst) agents)"
    using l(2) by (auto simp: intro!: filter_cong)
  also have "length \<dots> < length (filter (\<lambda>r. j_id r > lst) agents)"
    using l by (intro length_filter_less[of "last chunk"]) auto
  finally show "((q, agents, j_id (last chunk)), q, agents, lst)
      \<in> measure (\<lambda>(q, agents, lst). length (filter (\<lambda>r. j_id r > lst) agents))" by simp
qed simp

declare agents_quiet.simps [simp del]

lemma last_take: "n \<le> length xs \<Longrightarrow> 0 < n \<Longrightarrow> last (take n xs) = xs ! (n - 1)"
  by (subst last_conv_nth) auto

lemma take_sorted_prefix:
  assumes "sorted (map f xs)" "distinct (map f xs)" "n \<le> length xs" "0 < n" "x \<in> set xs" "f x \<le> f (last (take n xs))"
  shows "x \<in> set (take n xs)"
proof (rule ccontr)
  assume "x \<notin> set (take n xs)"
  then obtain i where i: "n \<le> i" "i < length xs" "xs ! i = x"
    using assms(5) by (metis in_set_conv_nth leI nth_take length_take min_less_iff_conj)
  have "last (take n xs) = xs ! (n - 1)" using assms(3,4) by (rule last_take)
  with assms(6) i(3) have "map f xs ! i \<le> map f xs ! (n - 1)" using i(2) assms(3,4) by simp
  moreover have "map f xs ! (n - 1) \<le> map f xs ! i" using assms(1) i by (intro sorted_nth_mono) auto
  ultimately have "map f xs ! (n - 1) = map f xs ! i" by simp
  then have "n - 1 = i" using nth_eq_iff_index_eq[OF assms(2), of "n - 1" i] assms(3,4) i by simp
  with i(1) assms(4) show False by simp
qed

section \<open>Cursor round trip\<close>

lemma b64_val_char: "n < 64 \<Longrightarrow> b64_val (b64_char n) = Some n"
proof -
  have "\<forall>m < 64. b64_val (b64_char m) = Some m" by code_simp
  then show "n < 64 \<Longrightarrow> b64_val (b64_char n) = Some n" by blast
qed

lemma b64_char_alphabet: "n < 64 \<Longrightarrow> b64_char n \<in> set B64_ALPHABET"
  unfolding b64_char_def by (rule nth_mem) (simp add: B64_ALPHABET_def)

lemma b64_char_not_pad: "n < 64 \<Longrightarrow> b64_char n \<noteq> CHR ''=''"
  using b64_char_alphabet[of n] by (auto simp: B64_ALPHABET_def)

text \<open>An encoding is its sextets followed by the padding of the last group.\<close>

fun b64_sextets :: "nat list \<Rightarrow> nat list" where
  "b64_sextets [] = []"
| "b64_sextets [a] = [a div 4, a mod 4 * 16]"
| "b64_sextets [a, b] = [a div 4, a mod 4 * 16 + b div 16, b mod 16 * 4]"
| "b64_sextets (a # b # c # r) =
     [a div 4, a mod 4 * 16 + b div 16, b mod 16 * 4 + c div 64, c mod 64] @ b64_sextets r"

lemma b64_encode_sextets:
  "b64_encode bs = map b64_char (b64_sextets bs) @ replicate ((4 - length (b64_sextets bs) mod 4) mod 4) (CHR ''='')"
  by (induction bs rule: b64_sextets.induct) (auto simp: numeral_2_eq_2)

lemma b64_sextets_lt: "list_all (\<lambda>b. b < 256) bs \<Longrightarrow> x \<in> set (b64_sextets bs) \<Longrightarrow> x < 64"
  by (induction bs rule: b64_sextets.induct) auto

lemma b64_quads_sextets: "list_all (\<lambda>b. b < 256) bs \<Longrightarrow> b64_quads (b64_sextets bs) = Some bs"
  by (induction bs rule: b64_sextets.induct) auto

lemma b64_sextets_length: "length (b64_sextets bs) \<le> 4 * (length bs div 3) + 3"
  by (induction bs rule: b64_sextets.induct) auto

lemma b64_sextets_ne: "bs \<noteq> [] \<Longrightarrow> b64_sextets bs \<noteq> []"
  by (cases bs rule: b64_sextets.cases) auto

lemma stripped_encoding:
  assumes "list_all (\<lambda>b. b < 256) bs"
  shows "rev (dropWhile (\<lambda>x. x = CHR ''='') (rev (b64_encode bs))) = map b64_char (b64_sextets bs)"
proof -
  have "dropWhile (\<lambda>x. x = CHR ''='') (replicate n (CHR ''='') @ ys) = dropWhile (\<lambda>x. x = CHR ''='') ys" for n ys
    by (induction n) auto
  moreover have "dropWhile (\<lambda>x. x = CHR ''='') (rev (map b64_char (b64_sextets bs))) = rev (map b64_char (b64_sextets bs))"
  proof (cases "b64_sextets bs" rule: rev_cases)
    case (snoc ys y)
    then have "b64_char y \<noteq> CHR ''=''" using b64_char_not_pad b64_sextets_lt[OF assms, of y] by simp
    with snoc show ?thesis by simp
  qed simp
  ultimately show ?thesis by (simp add: b64_encode_sextets)
qed

lemma b64_roundtrip:
  assumes "list_all (\<lambda>b. b < 256) bs"
  defines "t \<equiv> map b64_char (b64_sextets bs)"
  shows "urlsafe_b64decode (t @ replicate ((4 - length t mod 4) mod 4) (CHR ''='')) = Some (map char_of bs)"
proof -
  let ?p = "replicate ((4 - length t mod 4) mod 4) (CHR ''='')"
  have a: "c \<noteq> CHR ''=''" if "c \<in> set t" for c
    using that b64_char_not_pad[OF b64_sextets_lt[OF assms(1)]] by (auto simp: t_def)
  have tw: "takeWhile (\<lambda>c. c \<noteq> CHR ''='') (t @ ?p) = t" "dropWhile (\<lambda>c. c \<noteq> CHR ''='') (t @ ?p) = ?p"
    using a by (auto simp: takeWhile_append2 dropWhile_append2 takeWhile_eq_Nil_iff dropWhile_eq_self_iff)
  have "List.map_filter b64_val (map b64_char xs) = xs" if "\<forall>x\<in>set xs. x < 64" for xs
    using that by (induction xs) (simp_all add: b64_val_char List.map_filter_simps)
  then have mf: "List.map_filter b64_val t = b64_sextets bs"
    using b64_sextets_lt[OF assms(1)] by (simp add: t_def)
  have l: "length t = length (b64_sextets bs)" by (simp add: t_def)
  show ?thesis unfolding urlsafe_b64decode_def Let_def tw mf using l by (auto simp: b64_quads_sextets[OF assms(1)])
qed

lemma show_nat_length: "n < 10 ^ k \<Longrightarrow> 0 < k \<Longrightarrow> length (show_nat n) \<le> k"
proof (induction n arbitrary: k rule: show_nat.induct)
  case (1 n)
  show ?case
  proof (cases "n < 10")
    case True
    then show ?thesis using 1(3) by (subst show_nat.simps) simp
  next
    case False
    then obtain k' where k: "k = Suc k'" "0 < k'" using 1(2,3) by (cases k; cases "k - 1") auto
    then have "n div 10 < 10 ^ k'" using 1(2) by (simp add: less_mult_imp_div_less mult.commute)
    from 1(1)[OF False this k(2)] show ?thesis using False k(1) by (subst show_nat.simps) simp
  qed
qed

lemma utf8_ok_ascii: "list_all (\<lambda>b. b < 128) bs \<Longrightarrow> utf8_ok bs"
  by (induction bs) auto

lemma json_digit_ascii: "json_digit c \<Longrightarrow> (of_char c :: nat) < 128"
  by (auto simp: json_digit_def digit_val_def digits_def split: if_splits)

lemma show_int_ascii: "0 \<le> i \<Longrightarrow> c \<in> set (show_int i) \<Longrightarrow> (of_char c :: nat) < 128"
  by (auto simp: show_int_def dest!: show_nat_digits intro: json_digit_ascii)

definition cursor_ok :: "Cursor \<Rightarrow> bool" where
  "cursor_ok c \<longleftrightarrow> 0 \<le> cu_after c \<and> cu_after c \<le> cu_hw c \<and> cu_hw c \<le> MAX_ID"

lemma cursor_text:
  fixes c :: Cursor
  assumes "cursor_ok c"
  defines "raw \<equiv> json_dumps (\<lambda>_. []) '','' '':'' (cursor_json c)"
  shows "json_text_of_bytes raw = Some raw" "json_loads plain_hooks raw = Inr (cursor_json c)"
    "length raw \<le> 65" "list_all (\<lambda>b. b < 256) (map of_char raw :: nat list)"
proof -
  have nn: "0 \<le> cu_after c" "0 \<le> cu_hw c" "cu_after c \<le> MAX_ID" "cu_hw c \<le> MAX_ID"
    using assms(1) by (auto simp: cursor_ok_def)
  have len: "length (show_int i) \<le> 19" "length (show_nat (nat \<bar>i\<bar>)) \<le> 19" if "0 \<le> i" "i \<le> MAX_ID" for i
    using that show_nat_length[of "nat i" 19] by (auto simp: show_int_def MAX_ID_def)
  have raw: "raw = ''{'' @ json_esc ''after'' @ '':'' @ show_int (cu_after c) @ '','' @ json_esc ''hw'' @ '':'' @ show_int (cu_hw c)
      @ '','' @ json_esc ''nn'' @ '':'' @ (if cu_quiet c then ''true'' else ''false'') @ ''}''"
    by (simp add: raw_def cursor_json_def)
  have esc: "json_esc ''after'' = CHR 0x22 # ''after'' @ [CHR 0x22]" "json_esc ''hw'' = CHR 0x22 # ''hw'' @ [CHR 0x22]"
    "json_esc ''nn'' = CHR 0x22 # ''nn'' @ [CHR 0x22]"
    by (simp_all add: json_esc_def json_esc_char_def)
  have ascii: "list_all (\<lambda>b. b < 128) (map of_char raw :: nat list)"
    using show_int_ascii nn by (auto simp: raw esc list_all_iff)
  show "length raw \<le> 65" using len(1)[OF nn(1,3)] len(1)[OF nn(2,4)] by (simp add: raw esc)
  show "list_all (\<lambda>b. b < 256) (map of_char raw :: nat list)" using ascii by (auto simp: list_all_iff)
  have "utf8_decode (map of_char raw) = Some raw"
    using utf8_ok_ascii[OF ascii] by (simp add: utf8_decode_def comp_def)
  then show "json_text_of_bytes raw = Some raw"
    using utf8_ok_ascii[OF ascii] unfolding json_text_of_bytes_def Let_def by (simp add: raw esc)
  have "printable (cursor_json c)"
    using len(2)[OF nn(1,3)] len(2)[OF nn(2,4)] by (simp add: cursor_json_def INT_MAX_STR_DIGITS_def)
  moreover have "blank_seps '','' '':''" by (simp add: blank_seps_def)
  ultimately have "loads_strict raw = Inr (cursor_json c)" unfolding raw_def by (rule dumps_loads)
  then show "json_loads plain_hooks raw = Inr (cursor_json c)" by (rule strict_is_plain)
qed

lemma decode_encode:
  assumes "0 \<le> cu_after c" "cu_after c \<le> cu_hw c" "cu_hw c \<le> MAX_ID"
  shows "decode_cursor (encode_cursor c) = Some (c :: Cursor)"
proof -
  let ?raw = "json_dumps (\<lambda>_. []) '','' '':'' (cursor_json c)"
  let ?t = "map b64_char (b64_sextets (map of_char ?raw))"
  have ok: "cursor_ok c" using assms by (simp add: cursor_ok_def)
  note t = cursor_text[OF ok]
  have enc: "encode_cursor c = ?t"
    unfolding encode_cursor_def urlsafe_b64encode_def by (rule stripped_encoding[OF t(4)])
  have al: "list_all (\<lambda>x. x \<in> set B64_ALPHABET) ?t"
    using b64_char_alphabet[OF b64_sextets_lt[OF t(4)]] by (auto simp: list_all_iff)
  have "?raw \<noteq> []" by (simp add: cursor_json_def)
  then have len: "1 \<le> length ?t" "length ?t \<le> 200"
    using b64_sextets_length[of "map of_char ?raw"] t(3) b64_sextets_ne[of "map of_char ?raw"]
    by (auto simp: Suc_le_eq)
  have dec: "urlsafe_b64decode (?t @ replicate ((4 - length ?t mod 4) mod 4) (CHR ''='')) = Some ?raw"
    using b64_roundtrip[OF t(4)] by (simp add: comp_def)
  have "decode_cursor ?t = cursor_of_json (cursor_json c)"
    using al len dec t(1,2) by (simp add: decode_cursor_def)
  also have "\<dots> = Some c"
    using assms by (simp add: cursor_of_json_def cursor_json_def obj_get_def insert_commute)
  finally show ?thesis by (simp add: enc)
qed

text \<open>
  The cursor of a page decodes to the position it was issued for: every cursor with
  ids in the BIGINT range survives the URL-safe Base64 text, and the text is one the
  decoder accepts.
\<close>

theorem cursor_roundtrip:
  assumes "0 \<le> cu_after c" "cu_after c \<le> cu_hw c" "cu_hw c \<le> MAX_ID"
  shows "decode_cursor (encode_cursor c) = Some (c :: Cursor)"
  using assms by (rule decode_encode)

theorem cursor_roundtrip_witness:
  "decode_cursor (encode_cursor \<lparr>cu_after = 7, cu_hw = 42, cu_quiet = True\<rparr>) = Some \<lparr>cu_after = 7, cu_hw = 42, cu_quiet = True\<rparr>"
  by (rule cursor_roundtrip) (simp_all add: MAX_ID_def)

section \<open>A walk over the pages\<close>

lemma agents_quiet_iff:
  assumes "distinct (map j_id agents)"
  shows "agents_quiet q agents lst \<longleftrightarrow> (\<forall>r \<in> set agents. lst < j_id r \<longrightarrow> \<not> may_read q r)"
  using assms
proof (induction q agents lst rule: agents_quiet.induct)
  case (1 q agents lst)
  let ?c = "next_chunk agents lst" and ?S = "sort_key j_id (filter (\<lambda>r. j_id r > lst) agents)"
  have S: "sorted (map j_id ?S)" "distinct (map j_id ?S)"
    using 1(2) by (simp_all add: distinct_map_filter distinct_map inj_on_def)
  show ?case
  proof (cases "list_ex (may_read q) ?c")
    case True
    then show ?thesis using next_chunk_sub by (auto simp: agents_quiet.simps[of q agents lst] list_ex_iff)
  next
    case none: False
    show ?thesis
    proof (cases "length ?c < AGENT_SCAN_CHUNK")
      case True
      then have "?c = ?S" by (simp add: next_chunk_def)
      then have "r \<in> set ?c" if "r \<in> set agents" "lst < j_id r" for r using that by simp
      with none True show ?thesis by (auto simp: agents_quiet.simps[of q agents lst] list_ex_iff Let_def)
    next
      case False
      then have full: "AGENT_SCAN_CHUNK \<le> length ?S" "?c = take AGENT_SCAN_CHUNK ?S"
        by (auto simp: next_chunk_def)
      have "r \<in> set ?c" if "r \<in> set agents" "lst < j_id r" "j_id r \<le> j_id (last ?c)" for r
        using take_sorted_prefix[OF S full(1), of r] that full(2) by (simp add: AGENT_SCAN_CHUNK_def)
      moreover have "agents_quiet q agents lst \<longleftrightarrow> agents_quiet q agents (j_id (last ?c))"
        using none False by (simp add: agents_quiet.simps[of q agents lst])
      moreover have "lst < j_id (last ?c)" using last_chunk_above(2)[of agents lst] False by simp
      ultimately show ?thesis using 1(1)[OF refl none False 1(2)] none
        by (auto simp: list_ex_iff)
    qed
  qed
qed

definition listed :: "list_query \<Rightarrow> DeepJobRow \<Rightarrow> bool" where
  "listed q r \<longleftrightarrow> list_filter q r \<and> (lq_status q \<noteq> None \<longrightarrow> Some (j_status r) = lq_status q) \<and> visible q r"

abbreviation page_ids :: "JobPage \<Rightarrow> int list" where
  "page_ids p \<equiv> map ji_job_id (jp_jobs p)"

lemma page_rows_set: "set (page_rows q a h rows) = {r \<in> set rows. list_filter q r \<and> a < j_id r \<and> j_id r \<le> h \<and>
     (lq_status q \<noteq> None \<longrightarrow> Some (j_status r) = lq_status q)}"
  by (auto simp: page_rows_def)

lemma page_rows_sorted: "sorted (map j_id (page_rows q a h rows))"
  by (simp add: page_rows_def)

lemma page_rows_distinct: "distinct (map j_id rows) \<Longrightarrow> distinct (map j_id (page_rows q a h rows))"
  by (simp add: page_rows_def distinct_map_filter distinct_map inj_on_def)

text \<open>One page after a cursor.\<close>

lemma page_step:
  fixes now :: instant and q rows c
  assumes d: "distinct (map j_id rows)" and lim: "1 \<le> lq_limit q" and hw: "cu_hw c \<le> MAX_ID" "0 \<le> cu_after c"
  defines "p \<equiv> list_jobs now q (Some c) rows"
  shows "sorted_wrt (<) (page_ids p)" (is ?sorted)
    and "\<And>i. i \<in> set (page_ids p) \<Longrightarrow> cu_after c < i \<and> i \<le> cu_hw c \<and> (\<exists>r \<in> set rows. j_id r = i \<and> listed q r)" (is "PROP ?sound")
    and "(jp_next_cursor p = None \<and> jp_pagination_complete p \<and>
           (\<forall>r \<in> set rows. listed q r \<and> cu_after c < j_id r \<and> j_id r \<le> cu_hw c \<longrightarrow> j_id r \<in> set (page_ids p))) \<or>
         (\<exists>c'. (\<exists>t. jp_next_cursor p = Some t \<and> decode_cursor t = Some c') \<and>
           cu_hw c' = cu_hw c \<and> cu_quiet c' = cu_quiet c \<and> cu_after c < cu_after c' \<and> cu_after c' \<le> cu_hw c \<and>
           (\<forall>i \<in> set (page_ids p). i \<le> cu_after c') \<and>
           (\<forall>r \<in> set rows. listed q r \<and> cu_after c < j_id r \<and> j_id r \<le> cu_after c' \<longrightarrow> j_id r \<in> set (page_ids p)))" (is ?rest)
proof -
  let ?S = "page_rows q (cu_after c) (cu_hw c) rows" and ?n = "nat (lq_limit q)"
  have n: "nat (lq_limit q + 1) = Suc ?n" "0 < ?n" using lim by auto
  have ids: "page_ids p = map j_id (filter (visible q) (take ?n ?S))"
    using n by (simp add: p_def list_jobs_def list_item_def Let_def comp_def min_def)
  have more: "jp_next_cursor p = (if ?n < length ?S then Some (encode_cursor \<lparr>cu_after = j_id (last (take ?n ?S)),
      cu_hw = cu_hw c, cu_quiet = cu_quiet c\<rparr>) else None)" "jp_pagination_complete p \<longleftrightarrow> \<not> ?n < length ?S"
    using lim n by (auto simp: p_def list_jobs_def Let_def min_def)
  have srt: "sorted (map j_id ?S)" "distinct (map j_id ?S)"
    using page_rows_sorted page_rows_distinct[OF d] by auto
  have "sorted_wrt (<) (map j_id (take ?n ?S))"
    using srt by (simp add: strict_sorted_iff take_map[symmetric] sorted_wrt_take)
  then show ?sorted unfolding ids by (simp add: sorted_wrt_map sorted_wrt_filter)
  show "PROP ?sound" unfolding ids by (auto simp: listed_def page_rows_set dest!: in_set_takeD)
  have cover: "j_id r \<in> set (page_ids p)"
    if "r \<in> set ?S" "r \<in> set (take ?n ?S)" "visible q r" for r using that by (auto simp: ids)
  show ?rest
  proof (cases "?n < length ?S")
    case False
    then have "take ?n ?S = ?S" by simp
    then show ?thesis using False more cover by (auto simp: listed_def page_rows_set)
  next
    case True
    let ?l = "last (take ?n ?S)"
    have "take ?n ?S \<noteq> []" using True n(2) by (cases ?S) auto
    then have l: "?l \<in> set (take ?n ?S)" by (rule last_in_set)
    then have lS: "?l \<in> set ?S" by (rule in_set_takeD)
    let ?c' = "\<lparr>cu_after = j_id ?l, cu_hw = cu_hw c, cu_quiet = cu_quiet c\<rparr>"
    have b: "cu_after c < j_id ?l" "j_id ?l \<le> cu_hw c" using lS by (auto simp: page_rows_set)
    have "decode_cursor (encode_cursor ?c') = Some ?c'"
      using b hw by (intro decode_encode) auto
    moreover have "i \<le> j_id ?l" if mem: "i \<in> set (page_ids p)" for i
    proof -
      obtain r where r: "r \<in> set (take ?n ?S)" "i = j_id r" using mem unfolding ids by auto
      then obtain k where "k < ?n" "k < length ?S" "?S ! k = r" by (auto simp: in_set_conv_nth)
      then have "map j_id ?S ! k \<le> map j_id ?S ! (?n - 1)"
        using srt(1) True by (intro sorted_nth_mono) auto
      moreover have "?l = ?S ! (?n - 1)" using True n(2) by (intro last_take) auto
      ultimately show ?thesis using True n(2) \<open>k < length ?S\<close> \<open>?S ! k = r\<close> r(2) by simp
    qed
    moreover have "j_id r \<in> set (page_ids p)"
      if "r \<in> set rows" "listed q r" "cu_after c < j_id r" "j_id r \<le> j_id ?l" for r
    proof (rule cover)
      show s: "r \<in> set ?S" using that b by (auto simp: page_rows_set listed_def)
      show "r \<in> set (take ?n ?S)"
        using take_sorted_prefix[OF srt(1,2) _ n(2) s that(4)] True by simp
      show "visible q r" using that by (simp add: listed_def)
    qed
    ultimately show ?thesis using True more b by (intro disjI2 exI[of _ ?c']) auto
  qed
qed

text \<open>
  The pages of a walk from position \<open>a\<close> up to \<open>h\<close> over the tables \<open>tab\<close>: the last page says
  so, the ids ascend strictly, each id was listed in some table, and an id that every
  table lists is there.
\<close>

definition walk_covers :: "list_query \<Rightarrow> (nat \<Rightarrow> DeepJobRow list) \<Rightarrow> int \<Rightarrow> int \<Rightarrow> JobPage list \<Rightarrow> bool" where
  "walk_covers q tab a h ps \<longleftrightarrow>
    ps \<noteq> [] \<and> jp_pagination_complete (last ps) \<and> sorted_wrt (<) (concat (map page_ids ps)) \<and>
    (\<forall>i \<in> set (concat (map page_ids ps)). a < i \<and> i \<le> h \<and> (\<exists>k. \<exists>r \<in> set (tab k). j_id r = i \<and> listed q r)) \<and>
    (\<forall>i. (\<forall>k. \<exists>r \<in> set (tab k). j_id r = i \<and> listed q r) \<and> a < i \<and> i \<le> h \<longrightarrow> i \<in> set (concat (map page_ids ps)))"

lemma list_walk_after:
  assumes "\<And>k. distinct (map j_id (tab k))" "1 \<le> lq_limit q" "cu_hw c \<le> MAX_ID" "0 \<le> cu_after c"
    and "nat (cu_hw c - cu_after c) < n"
  shows "walk_covers q tab (cu_after c) (cu_hw c) (list_walk n clock q tab k (Some c))"
  using assms(3-5)
proof (induction n arbitrary: k c)
  case (Suc n)
  let ?p = "list_jobs (clock k) q (Some c) (tab k)"
  note st = page_step[OF assms(1)[of k] assms(2) Suc.prems(1,2), where now = "clock k"]
  from st(3) show ?case
  proof (elim disjE exE conjE)
    assume "jp_next_cursor ?p = None" "jp_pagination_complete ?p"
      "\<forall>r \<in> set (tab k). listed q r \<and> cu_after c < j_id r \<and> j_id r \<le> cu_hw c \<longrightarrow> j_id r \<in> set (page_ids ?p)"
    then show ?thesis using st(1,2) by (simp add: walk_covers_def del: set_map) blast
  next
    fix c' t
    assume c': "jp_next_cursor ?p = Some t" "decode_cursor t = Some c'" "cu_hw c' = cu_hw c"
      "cu_after c < cu_after c'" "cu_after c' \<le> cu_hw c" "\<forall>i \<in> set (page_ids ?p). i \<le> cu_after c'"
      "\<forall>r \<in> set (tab k). listed q r \<and> cu_after c < j_id r \<and> j_id r \<le> cu_after c' \<longrightarrow> j_id r \<in> set (page_ids ?p)"
    let ?ps = "list_walk n clock q tab (Suc k) (Some c')"
    have ps: "list_walk (Suc n) clock q tab k (Some c) = ?p # ?ps" using c'(1,2) by simp
    have IH: "?ps \<noteq> []" "jp_pagination_complete (last ?ps)" "sorted_wrt (<) (concat (map page_ids ?ps))"
      "\<forall>i \<in> set (concat (map page_ids ?ps)). cu_after c' < i \<and> i \<le> cu_hw c' \<and>
         (\<exists>k. \<exists>r \<in> set (tab k). j_id r = i \<and> listed q r)"
      "\<forall>i. (\<forall>k. \<exists>r \<in> set (tab k). j_id r = i \<and> listed q r) \<and> cu_after c' < i \<and> i \<le> cu_hw c'
         \<longrightarrow> i \<in> set (concat (map page_ids ?ps))"
      using Suc.IH[of c' "Suc k"] c' Suc.prems unfolding walk_covers_def by auto
    have "sorted_wrt (<) (concat (map page_ids (?p # ?ps)))"
      using st(1) IH(3,4) c'(6) by (simp add: sorted_wrt_append) force
    moreover have "\<forall>i \<in> set (concat (map page_ids (?p # ?ps))). cu_after c < i \<and> i \<le> cu_hw c \<and>
         (\<exists>k. \<exists>r \<in> set (tab k). j_id r = i \<and> listed q r)"
      using st(2) IH(4) c'(3,4) by (simp del: set_map) fastforce
    moreover have "i \<in> set (concat (map page_ids (?p # ?ps)))"
      if "\<forall>k. \<exists>r \<in> set (tab k). j_id r = i \<and> listed q r" "cu_after c < i" "i \<le> cu_hw c" for i
    proof (cases "i \<le> cu_after c'")
      case True
      with that c'(7) show ?thesis by (simp del: set_map) blast
    next
      case False
      with that IH(5) c'(3) show ?thesis by simp
    qed
    ultimately show ?thesis using IH(1,2) unfolding ps walk_covers_def by (simp del: set_concat set_map map_map)
  qed
qed simp

lemma fold_max_ge: "x \<le> fold max xs (x::int)"
  by (induction xs arbitrary: x) (auto intro: order_trans[OF max.cobounded2])

lemma fold_max_upper: "i \<in> set (x # xs) \<Longrightarrow> i \<le> fold max xs (x::int)"
proof (induction xs arbitrary: x)
  case (Cons y ys)
  then show ?case using fold_max_ge[of "max y x" ys] by auto
qed simp

lemma fold_max_in: "fold max xs (x::int) \<in> set (x # xs)"
  by (induction xs arbitrary: x) (auto simp: max_def)

lemma high_watermark_bounds:
  assumes "\<And>r. r \<in> set rows \<Longrightarrow> 1 \<le> j_id r \<and> j_id r \<le> MAX_ID"
  shows "0 \<le> high_watermark pid rows" "high_watermark pid rows \<le> MAX_ID"
    "r \<in> set rows \<Longrightarrow> j_project_id r = pid \<Longrightarrow> j_id r \<le> high_watermark pid rows"
proof -
  have "(0 \<le> high_watermark pid rows \<and> high_watermark pid rows \<le> MAX_ID) \<and>
      (r \<in> set rows \<and> j_project_id r = pid \<longrightarrow> j_id r \<le> high_watermark pid rows)" for r
  proof (cases "map j_id (filter (\<lambda>r. j_project_id r = pid) rows)")
    case Nil
    then show ?thesis by (auto simp: high_watermark_def MAX_ID_def filter_empty_conv)
  next
    case (Cons i ms)
    then have hw: "high_watermark pid rows = fold max ms i" by (simp add: high_watermark_def)
    have eq: "set (i # ms) = j_id ` {r \<in> set rows. j_project_id r = pid}" unfolding Cons[symmetric] by auto
    obtain r' where "r' \<in> set rows" "fold max ms i = j_id r'" using fold_max_in[of ms i] eq by auto
    moreover have "j_id r \<le> fold max ms i" if "r \<in> set rows" "j_project_id r = pid"
      by (rule fold_max_upper) (use that eq in auto)
    ultimately show ?thesis using assms[of r'] hw by auto
  qed
  then show "0 \<le> high_watermark pid rows" "high_watermark pid rows \<le> MAX_ID"
    "r \<in> set rows \<Longrightarrow> j_project_id r = pid \<Longrightarrow> j_id r \<le> high_watermark pid rows" by auto
qed

lemma first_page: "list_jobs now q None rows =
    list_jobs now q (Some \<lparr>cu_after = 0, cu_hw = high_watermark (lq_project q) rows,
      cu_quiet = quiet q (high_watermark (lq_project q) rows) rows\<rparr>) rows"
  by (simp add: list_jobs_def Let_def)

text \<open>
  C36. Following the cursors lists the jobs as one unpaged query would, although the table
  changes between the requests: the walk ends with a page that says so, no job is listed
  twice and ids ascend, every listed job matched when its page was read, and every job of
  the project that existed at the start and matches throughout is listed.
\<close>

theorem list_walk_is_complete:
  fixes clock :: "nat \<Rightarrow> instant" and q :: list_query and tab :: "nat \<Rightarrow> DeepJobRow list"
  assumes "1 \<le> lq_limit q"
    and "\<And>k. distinct (map j_id (tab k))" "\<And>k r. r \<in> set (tab k) \<Longrightarrow> 1 \<le> j_id r \<and> j_id r \<le> MAX_ID"
  defines "h \<equiv> high_watermark (lq_project q) (tab 0)"
  defines "ids \<equiv> concat (map (\<lambda>p. map ji_job_id (jp_jobs p)) (list_walk (Suc (nat h)) clock q tab 0 None))"
  shows "jp_pagination_complete (last (list_walk (Suc (nat h)) clock q tab 0 None)) \<and> sorted_wrt (<) ids \<and>
    (\<forall>i \<in> set ids. \<exists>k. \<exists>r \<in> set (tab k). j_id r = i \<and> listed q r) \<and>
    (\<forall>i. (\<forall>k. \<exists>r \<in> set (tab k). j_id r = i \<and> listed q r) \<longrightarrow> i \<in> set ids)"
proof -
  let ?c = "\<lparr>cu_after = 0, cu_hw = h, cu_quiet = quiet q h (tab 0)\<rparr>"
  have eq: "list_walk (Suc n) clock q tab 0 None = list_walk (Suc n) clock q tab 0 (Some ?c)" for n
    by (simp add: first_page h_def)
  note hb = high_watermark_bounds[where rows = "tab 0" and pid = "lq_project q", OF assms(3)[of _ 0], simplified]
  have "walk_covers q tab (cu_after ?c) (cu_hw ?c) (list_walk (Suc (nat h)) clock q tab 0 (Some ?c))"
    using assms(1,2) hb(1,2) by (intro list_walk_after) (simp_all add: h_def)
  then have cov: "walk_covers q tab 0 h (list_walk (Suc (nat h)) clock q tab 0 None)" by (simp only: eq Cursor.simps)
  have "0 < i \<and> i \<le> h" if all: "\<forall>k. \<exists>r \<in> set (tab k). j_id r = i \<and> listed q r" for i
  proof -
    obtain r where "r \<in> set (tab 0)" "j_id r = i" "listed q r" using all by blast
    then show ?thesis using assms(3)[of r 0] hb(3)[of r] by (auto simp: h_def listed_def list_filter_def)
  qed
  with cov show ?thesis unfolding ids_def walk_covers_def by blast
qed

definition demo_list_query :: list_query where
  "demo_list_query = \<lparr>lq_project = 1, lq_key = ''app'', lq_value = ''x'', lq_trace = None, lq_status = None,
     lq_limit = 1, lq_agent_open = False, lq_readable = (\<lambda>_ _. False), lq_text = (\<lambda>_. [])\<rparr>"

definition demo_listed_rows :: "DeepJobRow list" where
  "demo_listed_rows = map (\<lambda>i. \<lparr>j_id = i, j_project_id = 1, j_capability = ''chat:fast'', j_status = Done, j_request = [],
     j_payload_hash = None, j_result_text = None, j_result_meta = None, j_error_message = None, j_retry_count = 0,
     j_run_after = None, j_started_at = None, j_created_at = 0, j_completed_at = None, j_trace_id = None,
     j_labels = Some [(''app'', ''x'')], j_idempotency_key = None, j_cancel_requested = False, j_priority = 0\<rparr>) [3, 1]"

theorem list_walk_is_complete_witness:
  "{1, 3} \<subseteq> set (concat (map (\<lambda>p. map ji_job_id (jp_jobs p)) (list_walk 4 (\<lambda>_. 0) demo_list_query (\<lambda>_. demo_listed_rows) 0 None)))"
proof -
  have hw: "high_watermark (lq_project demo_list_query) demo_listed_rows = 3" by code_simp
  have l: "list_all (listed demo_list_query) demo_listed_rows" "map j_id demo_listed_rows = [3, 1]" by code_simp+
  have "1 \<le> lq_limit demo_list_query" "distinct (map j_id demo_listed_rows)" by code_simp+
  moreover have "1 \<le> j_id r \<and> j_id r \<le> MAX_ID" if "r \<in> set demo_listed_rows" for r
  proof -
    have "j_id r \<in> set [3, 1]" using that l(2) by (metis imageI set_map)
    then show ?thesis by (auto simp: MAX_ID_def)
  qed
  ultimately have w: "\<forall>i. (\<forall>k::nat. \<exists>r \<in> set demo_listed_rows. j_id r = i \<and> listed demo_list_query r) \<longrightarrow>
      i \<in> set (concat (map (\<lambda>p. map ji_job_id (jp_jobs p)) (list_walk (Suc (nat 3)) (\<lambda>_. 0) demo_list_query (\<lambda>_. demo_listed_rows) 0 None)))"
    using list_walk_is_complete[of demo_list_query "\<lambda>_. demo_listed_rows" "\<lambda>_. 0"] hw by simp
  have ex: "\<exists>r \<in> set demo_listed_rows. j_id r = i \<and> listed demo_list_query r" if "i \<in> set [3, 1]" for i
    using that l unfolding l(2)[symmetric] list_all_iff by auto
  have "Suc (nat 3) = 4" by simp
  then show ?thesis using w ex[of 1] ex[of 3] by (simp only: insert_subset) simp
qed

end
