(* ===== verification/Response_Cache.thy ===== *)
theory Response_Cache
  imports Deep_Jobs "HOL-Library.AList"
begin

text \<open>
  \<^verbatim>\<open>services/response_cache.py\<close>: the in-process cache of exact-match answers, an
  \<^verbatim>\<open>OrderedDict\<close> (oldest entry first) with a time to live per capability and eviction of the
  least recently used entry. The SHA-256 of a canonical request is the argument \<open>sha\<close>; the
  clock reading is an argument of every operation.
\<close>

section \<open>Cache\<close>

type_synonym cache_store = "(string \<times> (instant \<times> string)) list"

definition MAX_ENTRIES :: nat where "MAX_ENTRIES = 2000"

definition TTL_S :: "(string \<times> secs) list" where
  "TTL_S = [(''translate'', 24 * 60 * 60), (''prefilter'', 10 * 60), (''vision'', 24 * 60 * 60)]"

definition is_cacheable :: "string \<Rightarrow> bool" where
  "is_cacheable capability \<longleftrightarrow> capability \<in> fst ` set TTL_S"

definition ttl_of :: "string \<Rightarrow> secs" where
  "ttl_of capability = (case map_of TTL_S capability of Some t \<Rightarrow> t | None \<Rightarrow> 0)"

record cache_request =
  cq_capability :: string
  cq_messages :: "(string \<times> json) list list"
  cq_model :: "string option"
  cq_max_tokens :: int
  cq_temperature :: rat
  cq_project_id :: int
  cq_response_format :: json
  cq_tools :: json
  cq_tool_choice :: json

definition cache_key :: "(json \<Rightarrow> string) \<Rightarrow> cache_request \<Rightarrow> string" where
  "cache_key sha q = sha (canonical (JList
     [JInt (cq_project_id q), JStr (cq_capability q), JList (map JObj (cq_messages q)),
      (case cq_model q of None \<Rightarrow> JNull | Some m \<Rightarrow> JStr m), JInt (cq_max_tokens q), JFloat (cq_temperature q),
      cq_response_format q, cq_tools q, cq_tool_choice q]))"

text \<open>\<^verbatim>\<open>OrderedDict.pop\<close>, \<^verbatim>\<open>move_to_end\<close> and \<^verbatim>\<open>popitem(last=False)\<close> in a loop.\<close>

definition od_pop :: "string \<Rightarrow> cache_store \<Rightarrow> cache_store" where
  "od_pop k store = filter (\<lambda>e. fst e \<noteq> k) store"

definition od_move_to_end :: "string \<Rightarrow> cache_store \<Rightarrow> cache_store" where
  "od_move_to_end k store = (case map_of store k of
      None \<Rightarrow> store | Some v \<Rightarrow> od_pop k store @ [(k, v)])"

fun evict :: "cache_store \<Rightarrow> cache_store" where
  "evict [] = []"
| "evict (e # es) = (if length (e # es) > MAX_ENTRIES then evict es else e # es)"

definition cache_get :: "(json \<Rightarrow> string) \<Rightarrow> instant \<Rightarrow> cache_request \<Rightarrow> cache_store \<Rightarrow> string option \<times> cache_store" where
  "cache_get sha now q store =
     (if \<not> is_cacheable (cq_capability q) then (None, store)
      else let k = cache_key sha q in
        case map_of store k of
          None \<Rightarrow> (None, store)
        | Some (stored_at, answer) \<Rightarrow>
            if now - stored_at > ttl_of (cq_capability q) then (None, od_pop k store)
            else (Some answer, od_move_to_end k store))"

definition cache_put :: "(json \<Rightarrow> string) \<Rightarrow> instant \<Rightarrow> cache_request \<Rightarrow> string \<Rightarrow> cache_store \<Rightarrow> cache_store" where
  "cache_put sha now q answer store =
     (if \<not> is_cacheable (cq_capability q) \<or> answer = [] then store
      else let k = cache_key sha q in evict (od_move_to_end k (AList.update k (now, answer) store)))"

section \<open>Invariant\<close>

definition cache_ok :: "cache_store \<Rightarrow> bool" where
  "cache_ok store \<longleftrightarrow> distinct (map fst store) \<and> length store \<le> MAX_ENTRIES"

lemma evict_drop: "evict es = drop (length es - MAX_ENTRIES) es"
  by (induction es) (auto simp: Suc_diff_le)

text \<open>Writing an entry puts it last, whatever was there under its key.\<close>

lemma write_entry:
  assumes "distinct (map fst store)"
  shows "od_move_to_end k (AList.update k v store) = od_pop k store @ [(k, v)]"
proof -
  have "od_pop k (AList.update k v store) = od_pop k store"
    by (induction store) (auto simp: od_pop_def)
  then show ?thesis by (simp add: od_move_to_end_def update_conv')
qed

lemma od_pop_distinct: "distinct (map fst store) \<Longrightarrow> distinct (map fst (od_pop k store))"
  by (simp add: od_pop_def distinct_map_filter)

lemma od_pop_notin: "k \<notin> fst ` set (od_pop k store)"
  by (auto simp: od_pop_def)

lemma od_pop_length: "distinct (map fst store) \<Longrightarrow> k \<in> fst ` set store \<Longrightarrow> Suc (length (od_pop k store)) = length store"
proof (induction store)
  case (Cons e es)
  show ?case
  proof (cases "fst e = k")
    case True
    then have "k \<notin> fst ` set es" using Cons.prems by auto
    then have "od_pop k es = es" by (auto simp: od_pop_def filter_id_conv)
    with True show ?thesis by (simp add: od_pop_def)
  next
    case False
    then show ?thesis using Cons by (simp add: od_pop_def)
  qed
qed simp

lemma cache_put_eq:
  assumes "cache_ok store" "is_cacheable (cq_capability q)" "answer \<noteq> []"
  shows "cache_put sha now q answer store = evict (od_pop (cache_key sha q) store @ [(cache_key sha q, (now, answer))])"
  using assms by (simp add: cache_put_def Let_def write_entry cache_ok_def)

lemma map_of_pop: "map_of (od_pop k store) = (map_of store)(k := None)"
  unfolding od_pop_def by (induction store) (auto simp: fun_eq_iff)

lemma evict_distinct: "distinct (map fst store) \<Longrightarrow> distinct (map fst (evict store))"
  by (simp add: evict_drop drop_map[symmetric])

lemma map_of_evict:
  assumes "distinct (map fst store)"
  shows "map_of (evict store) \<subseteq>\<^sub>m map_of store"
proof -
  have "map_of store k = Some v" if "map_of (evict store) k = Some v" for k v
  proof (rule map_of_is_SomeI[OF assms])
    show "(k, v) \<in> set store" using that by (auto simp: evict_drop dest!: map_of_SomeD in_set_dropD)
  qed
  then show ?thesis by (auto simp: map_le_def dom_def)
qed

lemma written_distinct: "distinct (map fst store) \<Longrightarrow> distinct (map fst (od_pop k store @ [(k, v)]))"
  using od_pop_notin[of k store] by (simp add: od_pop_distinct)

lemma cache_ok_written: "cache_ok store \<Longrightarrow> cache_ok (evict (od_pop k store @ [(k, v)]))"
  unfolding cache_ok_def using evict_distinct[OF written_distinct[of store k v]] by (simp add: evict_drop)

lemma cache_ok_moved:
  assumes "cache_ok store" "map_of store k = Some v"
  shows "od_move_to_end k store = od_pop k store @ [(k, v)] \<and> cache_ok (od_move_to_end k store)"
proof -
  have "k \<in> fst ` set store" using map_of_SomeD[OF assms(2)] by force
  then show ?thesis
    using assms od_pop_length[of store k] od_pop_notin[of k store] od_pop_distinct[of store k]
    by (auto simp: cache_ok_def od_move_to_end_def)
qed

lemma cache_ok_pop: "cache_ok store \<Longrightarrow> cache_ok (od_pop k store)"
  using od_pop_distinct[of store k] length_filter_le[of "\<lambda>e. fst e \<noteq> k" store]
  unfolding cache_ok_def od_pop_def by linarith

section \<open>Histories\<close>

datatype cache_op = CGet instant cache_request | CPut instant cache_request string

fun cache_step :: "(json \<Rightarrow> string) \<Rightarrow> cache_op \<Rightarrow> cache_store \<Rightarrow> cache_store" where
  "cache_step sha (CGet t q) store = snd (cache_get sha t q store)"
| "cache_step sha (CPut t q a) store = cache_put sha t q a store"

definition cache_run :: "(json \<Rightarrow> string) \<Rightarrow> cache_op list \<Rightarrow> cache_store \<Rightarrow> cache_store" where
  "cache_run sha ops store = fold (cache_step sha) ops store"

fun op_key :: "(json \<Rightarrow> string) \<Rightarrow> cache_op \<Rightarrow> string" where
  "op_key sha (CGet t q) = cache_key sha q"
| "op_key sha (CPut t q a) = cache_key sha q"

text \<open>The specification: the last answer put under each key, without bound.\<close>

fun last_answer_step :: "(json \<Rightarrow> string) \<Rightarrow> cache_op \<Rightarrow> (string \<Rightarrow> (instant \<times> string) option) \<Rightarrow> string \<Rightarrow> (instant \<times> string) option" where
  "last_answer_step sha (CGet t q) m = m"
| "last_answer_step sha (CPut t q a) m =
     (if is_cacheable (cq_capability q) \<and> a \<noteq> [] then m(cache_key sha q \<mapsto> (t, a)) else m)"

definition last_answers :: "(json \<Rightarrow> string) \<Rightarrow> cache_op list \<Rightarrow> string \<Rightarrow> (instant \<times> string) option" where
  "last_answers sha ops = fold (last_answer_step sha) ops Map.empty"

lemma map_le_upd: "m \<subseteq>\<^sub>m m' \<Longrightarrow> (m(k := None))(k \<mapsto> v) \<subseteq>\<^sub>m m'(k \<mapsto> v)"
  by (auto simp: map_le_def)

lemma map_le_del: "m \<subseteq>\<^sub>m m' \<Longrightarrow> m(k := None) \<subseteq>\<^sub>m m'"
  by (auto simp: map_le_def)

lemma map_of_written: "map_of (od_pop k store @ [(k, v)]) = ((map_of store)(k := None))(k \<mapsto> v)"
  by (auto simp: map_of_pop fun_eq_iff map_add_def split: option.splits)

lemma cache_get_store:
  "snd (cache_get sha t q store) \<in> {store, od_pop (cache_key sha q) store} \<or>
   (\<exists>v. map_of store (cache_key sha q) = Some v \<and> snd (cache_get sha t q store) = od_move_to_end (cache_key sha q) store)"
  by (auto simp: cache_get_def Let_def split: option.splits)

lemma cache_step_sim:
  assumes ok: "cache_ok store" and le: "map_of store \<subseteq>\<^sub>m m"
  shows "cache_ok (cache_step sha op store) \<and> map_of (cache_step sha op store) \<subseteq>\<^sub>m last_answer_step sha op m"
proof (cases op)
  case (CPut t q a)
  let ?k = "cache_key sha q"
  show ?thesis
  proof (cases "is_cacheable (cq_capability q) \<and> a \<noteq> []")
    case True
    then have e: "cache_put sha t q a store = evict (od_pop ?k store @ [(?k, (t, a))])"
      using cache_put_eq[OF ok] by simp
    have "map_of (evict (od_pop ?k store @ [(?k, (t, a))])) \<subseteq>\<^sub>m map_of (od_pop ?k store @ [(?k, (t, a))])"
      using map_of_evict[OF written_distinct[of store ?k "(t, a)"]] ok by (simp add: cache_ok_def)
    moreover have "map_of (od_pop ?k store @ [(?k, (t, a))]) \<subseteq>\<^sub>m m(?k \<mapsto> (t, a))"
      unfolding map_of_written by (rule map_le_upd[OF le])
    ultimately have "map_of (evict (od_pop ?k store @ [(?k, (t, a))])) \<subseteq>\<^sub>m m(?k \<mapsto> (t, a))" by (rule map_le_trans)
    then show ?thesis using CPut True e cache_ok_written[OF ok] by simp
  qed (use CPut ok le in \<open>auto simp: cache_put_def\<close>)
next
  case (CGet t q)
  let ?k = "cache_key sha q"
  consider v where "map_of store ?k = Some v" "snd (cache_get sha t q store) = od_move_to_end ?k store"
    | "snd (cache_get sha t q store) \<in> {store, od_pop ?k store}"
    using cache_get_store[of sha t q store] by blast
  then show ?thesis
  proof cases
    case 1
    with cache_ok_moved[OF ok 1(1)]
    have m: "snd (cache_get sha t q store) = od_pop ?k store @ [(?k, v)]" "cache_ok (snd (cache_get sha t q store))" by metis+
    have "map_of (snd (cache_get sha t q store)) = map_of store"
      unfolding m(1) map_of_written using 1(1) by (simp add: fun_upd_idem)
    with m(2) CGet le show ?thesis by simp
  next
    case 2
    then show ?thesis using CGet ok le cache_ok_pop[OF ok] map_le_del[OF le] by (auto simp: map_of_pop)
  qed
qed

lemma cache_run_sim:
  "cache_ok store \<Longrightarrow> map_of store \<subseteq>\<^sub>m m \<Longrightarrow>
   cache_ok (fold (cache_step sha) ops store) \<and> map_of (fold (cache_step sha) ops store) \<subseteq>\<^sub>m fold (last_answer_step sha) ops m"
proof (induction ops arbitrary: store m)
  case (Cons op ops)
  from Cons.IH[OF conjunct1[OF cache_step_sim[OF Cons.prems]] conjunct2[OF cache_step_sim[OF Cons.prems]]]
  show ?case by simp
qed simp

lemma cache_run_refines:
  "cache_ok (cache_run sha ops []) \<and> map_of (cache_run sha ops []) \<subseteq>\<^sub>m last_answers sha ops"
  unfolding cache_run_def last_answers_def by (rule cache_run_sim) (simp_all add: cache_ok_def)

lemma cache_get_SomeD:
  "fst (cache_get sha t q store) = Some a \<Longrightarrow> is_cacheable (cq_capability q) \<and>
   (\<exists>t0. map_of store (cache_key sha q) = Some (t0, a) \<and> t - t0 \<le> ttl_of (cq_capability q))"
  by (auto simp: cache_get_def Let_def split: if_splits option.splits)


section \<open>How long an answer stays\<close>

text \<open>The entries younger than the one of \<open>k\<close> are all of keys in \<open>ks\<close>.\<close>

definition held_under :: "string \<Rightarrow> instant \<times> string \<Rightarrow> string set \<Rightarrow> cache_store \<Rightarrow> bool" where
  "held_under k v ks store \<longleftrightarrow> cache_ok store \<and> (\<exists>older younger. store = older @ (k, v) # younger \<and> fst ` set younger \<subseteq> ks)"

lemma held_map_of: "held_under k v ks store \<Longrightarrow> map_of store k = Some v"
  by (auto simp: held_under_def cache_ok_def intro!: map_of_is_SomeI)

lemma held_pop:
  assumes "held_under k v ks store" "x \<noteq> k"
  obtains older younger where "od_pop x store = older @ (k, v) # younger" "fst ` set younger \<subseteq> ks" "x \<notin> fst ` set younger"
    "distinct (map fst (od_pop x store))"
proof -
  obtain older younger where "store = older @ (k, v) # younger" "fst ` set younger \<subseteq> ks" "distinct (map fst store)"
    using assms(1) by (auto simp: held_under_def cache_ok_def)
  then show thesis
    using assms(2) od_pop_distinct[of store x]
    by (intro that[of "od_pop x older" "od_pop x younger"]) (auto simp: od_pop_def)
qed

lemma held_written:
  assumes h: "held_under k v ks store" and x: "x \<noteq> k" and ks: "finite ks" "card (insert x ks) < MAX_ENTRIES"
  shows "held_under k v (insert x ks) (evict (od_pop x store @ [(x, w)]))"
proof -
  obtain older younger where p: "od_pop x store = older @ (k, v) # younger" "fst ` set younger \<subseteq> ks" "x \<notin> fst ` set younger"
    "distinct (map fst (od_pop x store))" using held_pop[OF h x] by blast
  have "distinct (map fst (younger @ [(x, w)]))" using p(1,3,4) by auto
  then have "length (younger @ [(x, w)]) = card (fst ` set (younger @ [(x, w)]))"
    by (metis distinct_card length_map set_map)
  also have "\<dots> \<le> card (insert x ks)" using p(2) ks(1) by (intro card_mono) auto
  finally have "length (younger @ [(x, w)]) < MAX_ENTRIES" using ks(2) by linarith
  then have "evict (od_pop x store @ [(x, w)]) =
      drop (length (od_pop x store @ [(x, w)]) - MAX_ENTRIES) older @ (k, v) # younger @ [(x, w)]"
    unfolding evict_drop p(1) by simp
  moreover have "cache_ok (evict (od_pop x store @ [(x, w)]))" using h cache_ok_written by (auto simp: held_under_def)
  moreover have "fst ` set (younger @ [(x, w)]) \<subseteq> insert x ks" using p(2) by auto
  ultimately show ?thesis unfolding held_under_def by blast
qed

lemma held_weaken: "held_under k v ks store \<Longrightarrow> ks \<subseteq> ks' \<Longrightarrow> held_under k v ks' store"
  unfolding held_under_def by blast

lemma held_step:
  assumes h: "held_under k v ks store" and x: "op_key sha op \<noteq> k"
    and ks: "finite ks" "card (insert (op_key sha op) ks) < MAX_ENTRIES"
  shows "held_under k v (insert (op_key sha op) ks) (cache_step sha op store)"
proof -
  have ok: "cache_ok store" using h by (simp add: held_under_def)
  let ?x = "op_key sha op"
  have pop: "held_under k v (insert ?x ks) (od_pop ?x store)"
    using held_pop[OF h x] cache_ok_pop[OF ok] unfolding held_under_def by (metis order_trans subset_insertI)
  have "cache_step sha op store \<in> {store, od_pop ?x store} \<or> (\<exists>w. cache_step sha op store = evict (od_pop ?x store @ [(?x, w)]))"
  proof (cases op)
    case (CGet t q)
    have "evict (od_pop ?x store @ [(?x, w)]) = od_pop ?x store @ [(?x, w)]" if "map_of store ?x = Some w" for w
    proof -
      have "length (od_pop ?x store @ [(?x, w)]) \<le> MAX_ENTRIES" using cache_ok_moved[OF ok that] unfolding cache_ok_def by metis
      then show ?thesis unfolding evict_drop by (metis diff_is_0_eq drop0)
    qed
    then show ?thesis using CGet cache_ok_moved[OF ok] cache_get_store[of sha t q store] by (metis cache_step.simps(1) op_key.simps(1))
  next
    case (CPut t q a)
    then show ?thesis using cache_put_eq[OF ok] by (auto simp: cache_put_def)
  qed
  then show ?thesis using pop held_written[OF h x ks] held_weaken[OF h subset_insertI] by auto
qed

lemma held_run:
  assumes "held_under k v ks store" "finite ks" "k \<notin> op_key sha ` set ops" "card (ks \<union> op_key sha ` set ops) < MAX_ENTRIES"
  shows "held_under k v (ks \<union> op_key sha ` set ops) (fold (cache_step sha) ops store)"
  using assms
proof (induction ops arbitrary: ks store)
  case (Cons op ops)
  have sub: "insert (op_key sha op) ks \<subseteq> ks \<union> op_key sha ` set (op # ops)" by auto
  have "card (insert (op_key sha op) ks) < MAX_ENTRIES"
    using card_mono[OF _ sub] Cons.prems(2,4) by auto
  then have "held_under k v (insert (op_key sha op) ks) (cache_step sha op store)"
    using held_step[OF Cons.prems(1) _ Cons.prems(2)] Cons.prems(3) by auto
  from Cons.IH[OF this] Cons.prems show ?case by (simp add: Un_insert_left Un_insert_right)
qed simp

text \<open>
  Store, then look up: an answer stored for a cacheable request is returned for it until
  its time to live is over, as long as fewer than 2000 other requests were looked up or
  stored since.
\<close>

theorem stored_answer_is_served:
  assumes "is_cacheable (cq_capability q)" "a \<noteq> []" "cache_ok store"
    and "cache_key sha q \<notin> op_key sha ` set ops" "card (op_key sha ` set ops) < MAX_ENTRIES"
    and "t - t0 \<le> ttl_of (cq_capability q)"
  shows "fst (cache_get sha t q (cache_run sha ops (cache_put sha t0 q a store))) = Some a"
proof -
  let ?k = "cache_key sha q"
  have p: "cache_put sha t0 q a store = evict (od_pop ?k store @ [(?k, (t0, a))])"
    using cache_put_eq[OF assms(3,1,2)] .
  have "0 < MAX_ENTRIES" by (simp add: MAX_ENTRIES_def)
  then have "held_under ?k (t0, a) {} (cache_put sha t0 q a store)"
    using cache_ok_written[OF assms(3), of ?k "(t0, a)"] unfolding held_under_def p
    by (auto simp: evict_drop)
  from held_map_of[OF held_run[OF this, of sha ops]] assms(4,5)
  have "map_of (cache_run sha ops (cache_put sha t0 q a store)) ?k = Some (t0, a)" by (simp add: cache_run_def)
  then show ?thesis using assms(1,6) by (simp add: cache_get_def Let_def)
qed

definition demo_cache_request :: "string \<Rightarrow> cache_request" where
  "demo_cache_request s = \<lparr>cq_capability = ''translate'', cq_messages = [[(''content'', JStr s)]], cq_model = None,
     cq_max_tokens = 100, cq_temperature = 0, cq_project_id = 1, cq_response_format = JNull, cq_tools = JNull,
     cq_tool_choice = JNull\<rparr>"

definition demo_sha :: "json \<Rightarrow> string" where
  "demo_sha j = (case j of JList [_, _, JList [JObj [(_, JStr s)]], _, _, _, _, _, _] \<Rightarrow> s | _ \<Rightarrow> [])"


theorem stored_answer_is_served_witness:
  "fst (cache_get demo_sha 5 (demo_cache_request ''hi'') (cache_run demo_sha [CPut 2 (demo_cache_request ''bye'') ''adios'']
     (cache_put demo_sha 0 (demo_cache_request ''hi'') ''hola'' []))) = Some ''hola''"
proof (rule stored_answer_is_served)
  show "cache_key demo_sha (demo_cache_request ''hi'') \<notin> op_key demo_sha ` set [CPut 2 (demo_cache_request ''bye'') ''adios'']" by code_simp
  show "card (op_key demo_sha ` set [CPut 2 (demo_cache_request ''bye'') ''adios'']) < MAX_ENTRIES" by (simp add: MAX_ENTRIES_def)
qed (simp_all add: demo_cache_request_def is_cacheable_def ttl_of_def TTL_S_def cache_ok_def)

end
