(* ===== verification/Catalog.thy ===== *)
theory Catalog
  imports Model_Table "HOL-Library.Product_Lexorder" "HOL-Library.List_Lexorder" "HOL-Library.Char_ord"
begin

text \<open>
  \<^verbatim>\<open>providers/catalog.py\<close>: the names a caller may pin and how a pin resolves to an ordered list
  of (provider, model) targets. The subscription models come from a generated catalog and
  are the argument \<open>subs\<close>; the spelling suggestions of the error message are left out.
\<close>

section \<open>Names\<close>

definition CHAT_FAMILY :: "string list" where
  "CHAT_FAMILY = [''chat:fast'', ''chat:smart'', ''chat:sales'', ''chat:code'', ''chat:edit'', ''chat:deep'',
     ''structured'', ''prefilter'', ''translate'']"

definition capability_family :: "string \<Rightarrow> string" where
  "capability_family capability = (if capability \<in> set CHAT_FAMILY then ''chat'' else capability)"

definition removesuffix :: "string \<Rightarrow> string \<Rightarrow> string" where
  "removesuffix s p = (if p \<noteq> [] \<and> ends_with s p then take (length s - length p) s else s)"

text \<open>\<^verbatim>\<open>model_id.split("/", 1)[-1]\<close>: what follows the first slash, all of it when there is none.\<close>

definition after_slash :: "string \<Rightarrow> string" where
  "after_slash s = (case split_first CHR ''/'' s of (a, None) \<Rightarrow> a | (a, Some b) \<Rightarrow> b)"

definition canonical_name :: "string \<Rightarrow> string" where
  "canonical_name model_id = removesuffix (py_lower (snd (rsplit_last CHR ''/'' (after_slash model_id)))) '':free''"

section \<open>Pins\<close>

record PinTarget =
  pt_provider :: string
  pt_model :: string

datatype pin_error = UnknownModelName string | NotServed string string | NotInChain string string "string list"

definition serves :: "ModelSpec \<Rightarrow> string \<Rightarrow> bool" where
  "serves spec capability \<longleftrightarrow>
     list_ex (\<lambda>c. capability_family c = capability_family capability) (ms_capabilities spec)"

definition model_order :: "ModelSpec \<Rightarrow> bool \<times> int \<times> string" where
  "model_order m = (ps_paid (spec_or_default (Some (ms_provider m))), ps_rank (spec_or_default (Some (ms_provider m))), ms_id m)"

definition order_models :: "ModelSpec list \<Rightarrow> ModelSpec list" where
  "order_models specs = sort_key model_order specs"

definition pinnable_models :: "ModelSpec list \<Rightarrow> ModelSpec list" where
  "pinnable_models subs = order_models (filter (\<lambda>m. ms_capabilities m \<noteq> []) (all_models @ subs))"

definition subscription_model :: "ModelSpec list \<Rightarrow> string \<Rightarrow> ModelSpec option" where
  "subscription_model subs model = find (\<lambda>m. ms_id m = model) subs"

definition pin_matches :: "ModelSpec list \<Rightarrow> string \<Rightarrow> ModelSpec list" where
  "pin_matches subs name =
     (case (case model_spec name of Some m \<Rightarrow> Some m | None \<Rightarrow> subscription_model subs name) of
        Some m \<Rightarrow> [m]
      | None \<Rightarrow>
          (let key = removesuffix (py_lower name) '':free'' in
           filter (\<lambda>m. ms_provider m \<notin> {''claude-sub'', ''codex-sub''} \<and>
               (canonical_name (ms_id m) = key \<or> removesuffix (py_lower (after_slash (ms_id m))) '':free'' = key))
             (pinnable_models subs)))"

definition resolve_pin :: "ModelSpec list \<Rightarrow> string \<Rightarrow> string \<Rightarrow> string list \<Rightarrow> pin_error + PinTarget list" where
  "resolve_pin subs model capability chain =
     (let matches = pin_matches subs (py_strip model);
          servable = filter (\<lambda>m. serves m capability) matches;
          served = filter (\<lambda>m. ms_provider m \<in> set chain) (order_models servable)
      in if matches = [] then Inl (UnknownModelName model)
         else if servable = [] then Inl (NotServed model capability)
         else if served = [] then Inl (NotInChain model capability chain)
         else Inr (map (\<lambda>m. \<lparr>pt_provider = ms_provider m, pt_model = ms_id m\<rparr>) served))"

section \<open>What a pin resolves to\<close>

lemma model_spec_in_all: "model_spec name = Some m \<Longrightarrow> m \<in> set all_models"
proof -
  assume "model_spec name = Some m"
  then have "(name, m) \<in> set registry_models" by (auto simp: model_spec_registry dest: map_of_SomeD)
  then show ?thesis unfolding registry_models_def all_models_def by force
qed

lemma pin_matches_sub: "m \<in> set (pin_matches subs name) \<Longrightarrow> m \<in> set all_models \<union> set subs"
  by (auto simp: pin_matches_def subscription_model_def pinnable_models_def order_models_def Let_def find_Some_iff
      dest: model_spec_in_all split: option.splits)

lemma order_models_sorted: "sorted_wrt (\<lambda>x y. model_order x \<le> model_order y) (order_models ms)"
  using sorted_sort_key[of model_order ms] by (simp add: order_models_def sorted_map)

text \<open>
  A pin resolves deterministically: the targets are models of the catalog that serve a
  capability of the same family through a provider of the chain, providers that bill last,
  then by rank; a routing id resolves to exactly that model or to an error, never to a
  sibling; a subscription model is reached only by its own id.
\<close>

theorem resolve_pin_sound:
  assumes "resolve_pin subs model capability chain = Inr targets"
  shows "targets \<noteq> [] \<and>
    (\<forall>t \<in> set targets. pt_provider t \<in> set chain \<and> (\<exists>m \<in> set all_models \<union> set subs. ms_id m = pt_model t \<and>
       ms_provider m = pt_provider t \<and> serves m capability \<and>
       (ms_provider m \<in> {''claude-sub'', ''codex-sub''} \<longrightarrow> ms_id m = py_strip model))) \<and>
    sorted_wrt (\<lambda>s t. (ps_paid (spec_or_default (Some (pt_provider s))), ps_rank (spec_or_default (Some (pt_provider s))))
       \<le> (ps_paid (spec_or_default (Some (pt_provider t))), ps_rank (spec_or_default (Some (pt_provider t))))) targets \<and>
    (\<forall>m. model_spec (py_strip model) = Some m \<longrightarrow> targets = [\<lparr>pt_provider = ms_provider m, pt_model = ms_id m\<rparr>])"
proof -
  let ?M = "pin_matches subs (py_strip model)"
  let ?S = "filter (\<lambda>m. ms_provider m \<in> set chain) (order_models (filter (\<lambda>m. serves m capability) ?M))"
  let ?T = "\<lambda>m. \<lparr>pt_provider = ms_provider m, pt_model = ms_id m\<rparr>"
  have t: "targets = map ?T ?S" "?S \<noteq> []"
    using assms by (auto simp: resolve_pin_def Let_def split: if_splits)
  have S: "m \<in> set ?M \<and> serves m capability \<and> ms_provider m \<in> set chain" if "m \<in> set ?S" for m
    using that by (auto simp: order_models_def)
  have sub: "ms_id m = py_strip model"
    if "m \<in> set ?M" "ms_provider m \<in> {''claude-sub'', ''codex-sub''}" for m
    using that by (auto simp: pin_matches_def subscription_model_def find_Some_iff Let_def dest: model_spec_id split: option.splits)
  have "sorted_wrt (\<lambda>x y. model_order x \<le> model_order y) ?S"
    by (rule sorted_wrt_filter) (rule order_models_sorted)
  then have "sorted_wrt (\<lambda>s t. (ps_paid (spec_or_default (Some (pt_provider s))), ps_rank (spec_or_default (Some (pt_provider s))))
       \<le> (ps_paid (spec_or_default (Some (pt_provider t))), ps_rank (spec_or_default (Some (pt_provider t))))) targets"
    unfolding t(1) sorted_wrt_map by (rule sorted_wrt_mono_rel[rotated]) (auto simp: model_order_def)
  moreover have "targets = [?T m]" if "model_spec (py_strip model) = Some m" for m
  proof -
    have "?M = [m]" using that by (simp add: pin_matches_def)
    then show ?thesis using t by (auto simp: order_models_def split: if_splits)
  qed
  moreover have "pt_provider u \<in> set chain \<and> (\<exists>m \<in> set all_models \<union> set subs. ms_id m = pt_model u \<and>
       ms_provider m = pt_provider u \<and> serves m capability \<and>
       (ms_provider m \<in> {''claude-sub'', ''codex-sub''} \<longrightarrow> ms_id m = py_strip model))"
    if "u \<in> set targets" for u
  proof -
    obtain m where "m \<in> set ?S" "u = ?T m" using \<open>u \<in> set targets\<close> t(1) by auto
    then show ?thesis using S[of m] sub[of m] pin_matches_sub[of m subs] by (intro conjI bexI[of _ m]) auto
  qed
  ultimately show ?thesis using t by blast
qed

theorem resolve_pin_sound_witness:
  "resolve_pin [] '' gemini/gemini-2.5-flash'' ''chat:deep'' [''groq'', ''gemini'']
   = Inr [\<lparr>pt_provider = ''gemini'', pt_model = ''gemini/gemini-2.5-flash''\<rparr>]"
proof -
  have strip: "py_strip '' gemini/gemini-2.5-flash'' = ''gemini/gemini-2.5-flash''" by code_simp
  have "map_of model_table ''gemini/gemini-2.5-flash'' \<noteq> None"
    "map_option fst (map_of model_table ''gemini/gemini-2.5-flash'') = Some ''gemini''"
    "map_option (snd \<circ> snd \<circ> snd \<circ> snd \<circ> snd) (map_of model_table ''gemini/gemini-2.5-flash'') =
       Some [''chat:fast'', ''chat:smart'', ''chat:sales'', ''chat:code'', ''chat:edit'', ''structured'', ''vision'']"
    by code_simp+
  then obtain m where m: "model_spec ''gemini/gemini-2.5-flash'' = Some m" "ms_provider m = ''gemini''"
    "ms_capabilities m = [''chat:fast'', ''chat:smart'', ''chat:sales'', ''chat:code'', ''chat:edit'', ''structured'', ''vision'']"
    using model_facts_table[of "''gemini/gemini-2.5-flash''"]
    by (cases "model_spec ''gemini/gemini-2.5-flash''") (auto simp: model_facts_def)
  have "serves m ''chat:deep''" by (simp add: serves_def m(3) capability_family_def CHAT_FAMILY_def)
  then obtain ts where ts: "resolve_pin [] '' gemini/gemini-2.5-flash'' ''chat:deep'' [''groq'', ''gemini''] = Inr ts"
    using m by (simp add: resolve_pin_def strip pin_matches_def order_models_def)
  with resolve_pin_sound[OF ts] m strip model_spec_id[OF m(1)] show ?thesis by simp
qed

end
