(* ===== verification/Answer_Gate.thy ===== *)
theory Answer_Gate
  imports Attempt Json Response_Cache
begin

text \<open>
  What the broker accepts as an answer: the native tool-call contract
  (\<^verbatim>\<open>services/tool_contract.py\<close>), the structured-output check
  (\<^verbatim>\<open>agent/subscription_job.py\<close>) and the chat quality gate that combines them
  (\<^verbatim>\<open>services/llm_service.py\<close>). The \<^verbatim>\<open>jsonschema\<close> and \<^verbatim>\<open>referencing\<close> packages are arguments: whether
  a schema is valid, whether a local reference resolves, and whether a value validates.
  Answers and finish reasons are strings or null.
\<close>

section \<open>JSON schema library\<close>

datatype validation = Valid | Invalid | ValidatorFailed

record schema_lib =
  sl_check_schema :: "json \<Rightarrow> bool"
  sl_resolves :: "json \<Rightarrow> string \<Rightarrow> bool"
  sl_validate :: "json \<Rightarrow> json \<Rightarrow> validation"

section \<open>Tool definitions\<close>

definition TOOL_PROVIDERS :: "string list" where
  "TOOL_PROVIDERS = map fst (filter (\<lambda>(n, s). ps_native_tools s) REGISTRY)"

definition tool_model_provider :: "string option \<Rightarrow> unit + string option" where
  "tool_model_provider model = (case model of
      None \<Rightarrow> Inr None
    | Some m \<Rightarrow> (case split_first CHR ''/'' m of
        (provider, Some name) \<Rightarrow>
          if provider \<in> set TOOL_PROVIDERS \<and> py_strip name \<noteq> [] then Inr (Some provider) else Inl ()
      | (provider, None) \<Rightarrow> Inl ()))"

text \<open>\<^verbatim>\<open>value[k]\<close>: a missing key or a value that is no object raises.\<close>

definition json_item :: "json \<Rightarrow> string \<Rightarrow> json option" where
  "json_item v k = (case v of JObj kvs \<Rightarrow> obj_get kvs k | _ \<Rightarrow> None)"

definition tool_name :: "json \<Rightarrow> json option" where
  "tool_name t = Option.bind (json_item t ''function'') (\<lambda>f. json_item f ''name'')"

definition tool_parameters :: "json \<Rightarrow> json option" where
  "tool_parameters t = Option.bind (json_item t ''function'') (\<lambda>f. json_item f ''parameters'')"

fun local_refs :: "json \<Rightarrow> bool" where
  "local_refs (JObj kvs) \<longleftrightarrow> list_all (\<lambda>(k, v).
      (k \<in> {''$ref'', ''$dynamicRef''} \<longrightarrow> (case v of JStr s \<Rightarrow> starts_with s ''#'' | _ \<Rightarrow> False)) \<and> local_refs v) kvs"
| "local_refs (JList vs) \<longleftrightarrow> list_all local_refs vs"
| "local_refs _ \<longleftrightarrow> True"

definition name_char :: "char \<Rightarrow> bool" where
  "name_char c \<longleftrightarrow> lower_char c \<in> set ''abcdefghijklmnopqrstuvwxyz0123456789_-''"

definition function_definition_ok :: "schema_lib \<Rightarrow> json \<Rightarrow> bool" where
  "function_definition_ok sl f \<longleftrightarrow> (case f of
      JObj kvs \<Rightarrow>
        fst ` set kvs \<subseteq> {''name'', ''description'', ''parameters'', ''strict''} \<and>
        (case obj_get kvs ''name'' of
           Some (JStr n) \<Rightarrow> 1 \<le> length n \<and> length n \<le> 64 \<and> list_all name_char n | _ \<Rightarrow> False) \<and>
        (case obj_get kvs ''description'' of None \<Rightarrow> True | Some JNull \<Rightarrow> True | Some (JStr _) \<Rightarrow> True | _ \<Rightarrow> False) \<and>
        (case obj_get kvs ''strict'' of None \<Rightarrow> True | Some JNull \<Rightarrow> True | Some (JBool _) \<Rightarrow> True | _ \<Rightarrow> False) \<and>
        (case obj_get kvs ''parameters'' of
           Some (JObj ps) \<Rightarrow> sl_check_schema sl (JObj ps) \<and> obj_get ps ''type'' = Some (JStr ''object'') \<and> local_refs (JObj ps)
         | _ \<Rightarrow> False)
    | _ \<Rightarrow> False)"

definition tool_definition_ok :: "schema_lib \<Rightarrow> json \<Rightarrow> bool" where
  "tool_definition_ok sl t \<longleftrightarrow> (case t of
      JObj kvs \<Rightarrow> fst ` set kvs \<subseteq> {''type'', ''function''} \<and> obj_get kvs ''type'' = Some (JStr ''function'') \<and>
        (case obj_get kvs ''function'' of Some f \<Rightarrow> function_definition_ok sl f | None \<Rightarrow> False)
    | _ \<Rightarrow> False)"

datatype choice_error = DuplicateToolNames | UndeclaredChoice

definition validate_choice :: "json list \<Rightarrow> json \<Rightarrow> choice_error option" where
  "validate_choice tools choice =
     (let names = map tool_name tools in
      if \<not> distinct names then Some DuplicateToolNames
      else if choice \<in> {JNull, JStr ''auto'', JStr ''none'', JStr ''required''} then None
      else if is_obj choice \<and> json_item choice ''type'' = Some (JStr ''function'') \<and>
           (case json_item choice ''function'' of
              Some (JObj f) \<Rightarrow> obj_get f ''name'' \<in> set names \<and> obj_get f ''name'' \<noteq> None | _ \<Rightarrow> False)
      then None else Some UndeclaredChoice)"

section \<open>Tool calls\<close>

definition tool_schemas :: "json list \<Rightarrow> (json \<times> json) list" where
  "tool_schemas tools = List.map_filter (\<lambda>t. case (tool_name t, tool_parameters t) of
      (Some n, Some p) \<Rightarrow> Some (n, p) | _ \<Rightarrow> None) (rev tools)"

definition hashable :: "json \<Rightarrow> bool" where
  "hashable v \<longleftrightarrow> (case v of JList _ \<Rightarrow> False | JObj _ \<Rightarrow> False | _ \<Rightarrow> True)"

text \<open>One call; \<open>seen\<close> are the ids before it. \<open>Inr\<close> is the id of a good call.\<close>

definition check_call :: "schema_lib \<Rightarrow> (json \<times> json) list \<Rightarrow> json \<Rightarrow> string list \<Rightarrow> json \<Rightarrow> string + string" where
  "check_call sl schemas choice seen call =
     (if \<not> is_obj call \<or> json_item call ''type'' \<noteq> Some (JStr ''function'') then Inl ''InvalidToolCall''
      else case json_item call ''id'' of
        None \<Rightarrow> Inl ''InvalidToolArguments''
      | Some (JStr i) \<Rightarrow>
          if i = [] \<or> i \<in> set seen then Inl ''InvalidToolCall''
          else (case tool_name call of
              None \<Rightarrow> Inl ''InvalidToolArguments''
            | Some name \<Rightarrow>
                if \<not> hashable name then Inl ''InvalidToolArguments''
                else case map_of schemas name of
                  None \<Rightarrow> Inl ''UnknownToolCall''
                | Some schema \<Rightarrow>
                    if is_obj choice \<and> tool_name choice = None then Inl ''InvalidToolArguments''
                    else if is_obj choice \<and> tool_name choice \<noteq> Some name then Inl ''UnexpectedToolCall''
                    else (case Option.bind (json_item call ''function'') (\<lambda>f. json_item f ''arguments'') of
                        Some (JStr args) \<Rightarrow>
                          (case loads_strict args of
                             Inl e \<Rightarrow> Inl ''InvalidToolArguments''
                           | Inr v \<Rightarrow> if sl_validate sl schema v = Valid then Inr i else Inl ''InvalidToolArguments'')
                      | _ \<Rightarrow> Inl ''InvalidToolArguments''))
      | Some _ \<Rightarrow> Inl ''InvalidToolCall'')"

fun check_calls :: "schema_lib \<Rightarrow> (json \<times> json) list \<Rightarrow> json \<Rightarrow> string list \<Rightarrow> json list \<Rightarrow> string option" where
  "check_calls sl schemas choice seen [] = None"
| "check_calls sl schemas choice seen (c # cs) = (case check_call sl schemas choice seen c of
      Inl e \<Rightarrow> Some e
    | Inr i \<Rightarrow> check_calls sl schemas choice (seen @ [i]) cs)"

definition validate_result :: "schema_lib \<Rightarrow> string \<Rightarrow> call_meta \<Rightarrow> json list \<Rightarrow> json \<Rightarrow> string option" where
  "validate_result sl answer meta tools choice =
     (let finish = cm_finish_reason meta in
      if truthy (cm_refusal meta) \<or> finish = JStr ''content_filter'' then Some ''ToolRefusal''
      else if finish \<notin> {JStr ''stop'', JStr ''tool_calls''} then Some ''IncompleteToolResponse''
      else if \<not> truthy (cm_tool_calls meta)
      then if choice = JStr ''required'' \<or> is_obj choice \<or> finish = JStr ''tool_calls'' then Some ''MissingToolCall''
           else if py_strip answer \<noteq> [] then None else Some ''EmptyBody''
      else case cm_tool_calls meta of
        JList calls \<Rightarrow>
          if choice = JStr ''none'' \<or> length calls > 16 then Some ''InvalidToolCall''
          else if finish \<noteq> JStr ''tool_calls'' then Some ''IncompleteToolResponse''
          else check_calls sl (tool_schemas tools) choice [] calls
      | _ \<Rightarrow> Some ''InvalidToolCall'')"

section \<open>Structured output\<close>

definition MAX_SCHEMA_BYTES :: nat where "MAX_SCHEMA_BYTES = 64 * 1024"

definition REF_KEYS :: "string list" where "REF_KEYS = [''$ref'', ''$dynamicRef'', ''$recursiveRef'']"

fun refs :: "json \<Rightarrow> string list" where
  "refs (JObj kvs) =
     concat (map (\<lambda>k. case map_of kvs k of None \<Rightarrow> [] | Some (JStr s) \<Rightarrow> [s] | Some _ \<Rightarrow> [[]]) REF_KEYS)
     @ concat (map (\<lambda>(k, v). refs v) kvs)"
| "refs (JList vs) = concat (map refs vs)"
| "refs _ = []"

definition schema_of :: "json \<Rightarrow> json option" where
  "schema_of response_format = Option.bind (json_item response_format ''json_schema'') (\<lambda>w. json_item w ''schema'')"

text \<open>\<open>Inr\<close> the schema the validator is built on, \<open>Inl\<close> why there is none.\<close>

definition checked_validator :: "schema_lib \<Rightarrow> string \<Rightarrow> string + json" where
  "checked_validator sl schema_json = (case json_loads plain_hooks schema_json of
      Inl e \<Rightarrow> Inl ''json_schema is invalid''
    | Inr schema \<Rightarrow>
        if \<not> sl_check_schema sl schema then Inl ''json_schema is invalid''
        else case find (\<lambda>r. \<not> starts_with r ''#'' \<or> \<not> sl_resolves sl schema r) (refs schema) of
               None \<Rightarrow> Inr schema
             | Some r \<Rightarrow> if \<not> starts_with r ''#'' then Inl ''json_schema has a remote reference''
                         else Inl ''json_schema has an unresolvable reference'')"

definition json_schema_problem :: "schema_lib \<Rightarrow> (rat \<Rightarrow> string) \<Rightarrow> json \<Rightarrow> string option" where
  "json_schema_problem sl fr response_format = (case schema_of response_format of
      Some (JObj kvs) \<Rightarrow>
        (let text' = json_dumps fr '', '' '': '' (canonical (JObj kvs)) in
         if length text' > MAX_SCHEMA_BYTES then Some ''json_schema.schema exceeds 65536 bytes''
         else case checked_validator sl text' of Inl why \<Rightarrow> Some why | Inr _ \<Rightarrow> None)
    | _ \<Rightarrow> Some ''json_schema.schema must be an object'')"

definition output_problem :: "schema_lib \<Rightarrow> (rat \<Rightarrow> string) \<Rightarrow> string \<Rightarrow> json \<Rightarrow> string option" where
  "output_problem sl fr answer response_format =
     (if \<not> truthy response_format then None
      else case loads_strict answer of
        Inl e \<Rightarrow> Some ''InvalidJSON: subscription model did not return JSON''
      | Inr v \<Rightarrow>
          if json_item response_format ''type'' = Some (JStr ''json_object'') \<and> \<not> is_obj v
          then Some ''InvalidJSON: expected a JSON object''
          else if json_item response_format ''type'' = Some (JStr ''json_schema'')
          then if json_schema_problem sl fr response_format \<noteq> None
               then Some ''InvalidJSON: json_schema cannot be validated by the broker''
               else (case schema_of response_format of
                   None \<Rightarrow> Some ''InvalidJSON: json_schema cannot be validated by the broker''
                 | Some s \<Rightarrow> (case checked_validator sl (json_dumps fr '', '' '': '' (canonical s)) of
                     Inl why \<Rightarrow> Some ''InvalidJSON: json_schema cannot be validated by the broker''
                   | Inr schema \<Rightarrow> (case sl_validate sl schema v of
                       Valid \<Rightarrow> None
                     | Invalid \<Rightarrow> Some ''InvalidJSON: response does not match json_schema''
                     | ValidatorFailed \<Rightarrow> Some ''InvalidJSON: json_schema validation failed'')))
          else None)"

section \<open>The chat gate\<close>

definition wants_json :: "json \<Rightarrow> bool" where
  "wants_json response_format \<longleftrightarrow> truthy response_format \<and>
     json_item response_format ''type'' \<in> {Some (JStr ''json_object''), Some (JStr ''json_schema'')}"

definition answer_text :: "json \<Rightarrow> string" where
  "answer_text payload = (case payload of JStr s \<Rightarrow> s | _ \<Rightarrow> [])"

definition rejection :: "string \<Rightarrow> int \<Rightarrow> bool \<Rightarrow> (string \<times> int) option \<Rightarrow> Rejection" where
  "rejection kind status bill note = \<lparr>rj_error_kind = kind, rj_flow = NEXT_PROVIDER, rj_http_status = status,
     rj_bill = bill, rj_note = note\<rparr>"

definition chat_gate ::
  "schema_lib \<Rightarrow> (rat \<Rightarrow> string) \<Rightarrow> string \<Rightarrow> int \<Rightarrow> json \<Rightarrow> json list \<Rightarrow> json \<Rightarrow> json \<Rightarrow> call_meta \<Rightarrow> Rejection option" where
  "chat_gate sl fr provider key_id response_format tools tool_choice payload meta =
     (let answer = answer_text payload;
          failure = (if tools \<noteq> [] then validate_result sl answer meta tools tool_choice else None);
          problem = (if wants_json response_format then output_problem sl fr answer response_format else None)
      in case failure of
           Some kind \<Rightarrow> Some (rejection kind 502 True None)
         | None \<Rightarrow>
             if ps_empty_is_failure (spec_or_default (Some provider)) \<and> py_strip answer = []
             then Some (rejection ''EmptyBody'' 502 False None)
             else if problem \<noteq> None
             then if py_strip answer = [] then Some (rejection ''EmptyBody'' 200 True (Some (provider, key_id)))
                  else Some (rejection ''InvalidJSON'' 200 True None)
             else None)"

section \<open>What passes the gate\<close>

definition good_call :: "schema_lib \<Rightarrow> json list \<Rightarrow> json \<Rightarrow> json \<Rightarrow> bool" where
  "good_call sl tools choice call \<longleftrightarrow> (\<exists>name schema args v.
     json_item call ''type'' = Some (JStr ''function'') \<and> tool_name call = Some name \<and>
     map_of (tool_schemas tools) name = Some schema \<and> (is_obj choice \<longrightarrow> tool_name choice = Some name) \<and>
     Option.bind (json_item call ''function'') (\<lambda>f. json_item f ''arguments'') = Some (JStr args) \<and>
     loads_strict args = Inr v \<and> sl_validate sl schema v = Valid)"

lemma check_call_Inr:
  assumes "check_call sl (tool_schemas tools) choice seen call = Inr i"
  shows "good_call sl tools choice call \<and> json_item call ''id'' = Some (JStr i) \<and> i \<noteq> [] \<and> i \<notin> set seen"
  using assms unfolding check_call_def good_call_def
  by (auto split: if_splits option.splits json.splits sum.splits)

lemma check_calls_None:
  "check_calls sl (tool_schemas tools) choice seen calls = None \<Longrightarrow>
   \<exists>ids. map (\<lambda>c. json_item c ''id'') calls = map (\<lambda>i. Some (JStr i)) ids \<and> distinct ids \<and> set ids \<inter> set seen = {} \<and>
     list_all (good_call sl tools choice) calls"
proof (induction calls arbitrary: seen)
  case (Cons c cs)
  obtain i where i: "check_call sl (tool_schemas tools) choice seen c = Inr i"
    using Cons.prems by (cases "check_call sl (tool_schemas tools) choice seen c") auto
  have "check_calls sl (tool_schemas tools) choice (seen @ [i]) cs = None" using Cons.prems i by simp
  from Cons.IH[OF this] obtain ids where "map (\<lambda>c. json_item c ''id'') cs = map (\<lambda>i. Some (JStr i)) ids" "distinct ids"
    "set ids \<inter> set (seen @ [i]) = {}" "list_all (good_call sl tools choice) cs"
    by blast
  then show ?case using check_call_Inr[OF i] by (intro exI[of _ "i # ids"]) auto
qed simp

lemma output_problem_None:
  assumes "output_problem sl fr answer rf = None" "truthy rf"
  shows "\<exists>v. loads_strict answer = Inr v \<and>
    (json_item rf ''type'' = Some (JStr ''json_object'') \<longrightarrow> is_obj v) \<and>
    (json_item rf ''type'' = Some (JStr ''json_schema'') \<longrightarrow>
       (\<exists>s schema. schema_of rf = Some s \<and> checked_validator sl (json_dumps fr '', '' '': '' (canonical s)) = Inr schema \<and>
         sl_validate sl schema v = Valid))"
  using assms unfolding output_problem_def
  by (auto split: sum.splits if_splits option.splits validation.splits)

text \<open>
  C37. An answer that passes the chat gate obeys the request. With tools, its calls (at most 16,
  distinct ids) each name a declared tool, the one the caller chose if it chose one, with
  strict JSON arguments that validate against that tool's schema; with a JSON format, the
  text is strict JSON (no repeated keys, no NaN), an object when an object was asked for,
  valid against the caller's schema when there is one, and a schema the broker cannot check
  lets nothing pass.
\<close>

theorem accepted_answer_obeys_the_request:
  assumes "chat_gate sl fr provider kid rf tools choice (JStr answer) meta = None"
  shows "(tools \<noteq> [] \<and> truthy (cm_tool_calls meta) \<longrightarrow> (\<exists>calls ids. cm_tool_calls meta = JList calls \<and> length calls \<le> 16 \<and>
       map (\<lambda>c. json_item c ''id'') calls = map (\<lambda>i. Some (JStr i)) ids \<and> distinct ids \<and>
       choice \<noteq> JStr ''none'' \<and> list_all (good_call sl tools choice) calls)) \<and>
    (tools \<noteq> [] \<and> (choice = JStr ''required'' \<or> is_obj choice) \<longrightarrow> truthy (cm_tool_calls meta)) \<and>
    (wants_json rf \<longrightarrow> (\<exists>v. loads_strict answer = Inr v \<and> strict_json v \<and>
       (json_item rf ''type'' = Some (JStr ''json_object'') \<longrightarrow> is_obj v) \<and>
       (json_item rf ''type'' = Some (JStr ''json_schema'') \<longrightarrow>
          (\<exists>s schema. schema_of rf = Some s \<and> checked_validator sl (json_dumps fr '', '' '': '' (canonical s)) = Inr schema \<and>
            sl_validate sl schema v = Valid))))"
proof (intro conjI impI)
  have vr: "validate_result sl answer meta tools choice = None" if "tools \<noteq> []"
    using assms that by (auto simp: chat_gate_def Let_def answer_text_def split: option.splits)
  assume t: "tools \<noteq> [] \<and> truthy (cm_tool_calls meta)"
  then obtain calls where c: "cm_tool_calls meta = JList calls" "length calls \<le> 16" "choice \<noteq> JStr ''none''"
      "check_calls sl (tool_schemas tools) choice [] calls = None"
    using vr by (auto simp: validate_result_def Let_def split: if_splits json.splits)
  then show "\<exists>calls ids. cm_tool_calls meta = JList calls \<and> length calls \<le> 16 \<and>
       map (\<lambda>c. json_item c ''id'') calls = map (\<lambda>i. Some (JStr i)) ids \<and> distinct ids \<and>
       choice \<noteq> JStr ''none'' \<and> list_all (good_call sl tools choice) calls"
    using check_calls_None[OF c(4)] by blast
next
  have vr: "validate_result sl answer meta tools choice = None" if "tools \<noteq> []"
    using assms that by (auto simp: chat_gate_def Let_def answer_text_def split: option.splits)
  assume "tools \<noteq> [] \<and> (choice = JStr ''required'' \<or> is_obj choice)"
  then show "truthy (cm_tool_calls meta)"
    using vr by (auto simp: validate_result_def Let_def split: if_splits)
next
  assume w: "wants_json rf"
  then have "output_problem sl fr answer rf = None" "truthy rf"
    using assms by (auto simp: chat_gate_def Let_def answer_text_def wants_json_def split: option.splits if_splits)
  from output_problem_None[OF this] obtain v where v: "loads_strict answer = Inr v"
    "json_item rf ''type'' = Some (JStr ''json_object'') \<longrightarrow> is_obj v"
    "json_item rf ''type'' = Some (JStr ''json_schema'') \<longrightarrow>
       (\<exists>s schema. schema_of rf = Some s \<and> checked_validator sl (json_dumps fr '', '' '': '' (canonical s)) = Inr schema \<and>
         sl_validate sl schema v = Valid)" by blast
  with strict_result[OF v(1)]
  show "\<exists>v. loads_strict answer = Inr v \<and> strict_json v \<and>
       (json_item rf ''type'' = Some (JStr ''json_object'') \<longrightarrow> is_obj v) \<and>
       (json_item rf ''type'' = Some (JStr ''json_schema'') \<longrightarrow>
          (\<exists>s schema. schema_of rf = Some s \<and> checked_validator sl (json_dumps fr '', '' '': '' (canonical s)) = Inr schema \<and>
            sl_validate sl schema v = Valid))" by blast
qed

definition demo_schema_lib :: schema_lib where
  "demo_schema_lib = \<lparr>sl_check_schema = (\<lambda>_. True), sl_resolves = (\<lambda>_ _. True), sl_validate = (\<lambda>_ v. if is_obj v then Valid else Invalid)\<rparr>"

definition demo_json_format :: json where "demo_json_format = JObj [(''type'', JStr ''json_object'')]"

theorem accepted_answer_obeys_the_request_witness:
  "\<exists>v. loads_strict ''{\"a\": 1}'' = Inr v \<and> is_obj v"
proof -
  have "chat_gate demo_schema_lib (\<lambda>_. []) ''groq'' 1 demo_json_format [] JNull (JStr ''{\"a\": 1}'')
    \<lparr>cm_model = None, cm_model_served = None, cm_tokens_in = 1, cm_tokens_out = 1, cm_cost_usd = 0,
     cm_cache_read_tokens = 0, cm_cache_write_tokens = 0, cm_latency_ms = None, cm_finish_reason = JNull,
     cm_refusal = JNull, cm_tool_calls = JNull, cm_vision_type = JNull, cm_vision_format = JNull\<rparr> = None" (is "?g = None")
  proof -
    have "output_problem demo_schema_lib (\<lambda>_. []) ''{\"a\": 1}'' demo_json_format = None" by code_simp
    moreover have "py_strip ''{\"a\": 1}'' \<noteq> []" by code_simp
    ultimately show ?thesis by (simp add: chat_gate_def answer_text_def Let_def)
  qed
  from accepted_answer_obeys_the_request[OF this]
  show ?thesis by (auto simp: wants_json_def demo_json_format_def json_item_def obj_get_def)
qed

end
