(* ===== verification/Chat_Walk.thy ===== *)
theory Chat_Walk
  imports Answer_Gate Catalog Job_Queue
begin

text \<open>
  The chat walk of \<^verbatim>\<open>services/llm_service.py\<close>: from a request to an ordered list of steps
  (pinned targets or the shaped capability chain, with the request family's affine key in
  front), and the double loop over steps and keys that attempts them. Everything an
  iteration reads from outside (the cancel flag, the monotonic clock, the pick's
  environment, the provider's answer, what other requests did to the shared state in
  between) is given by \<open>env i\<close> for the i-th iteration. The walk keeps a log of the attempts
  it started, which the code does not, to state its properties.
\<close>

section \<open>Limits\<close>

definition CONTENT_FAILURES :: "string list" where "CONTENT_FAILURES = [''EmptyBody'', ''InvalidJSON'']"
definition EMPTY_STORM_MIN_KEYS :: nat where "EMPTY_STORM_MIN_KEYS = 2"
definition MAX_ATTEMPTS_ABS :: nat where "MAX_ATTEMPTS_ABS = 100"
definition CALL_TIMEOUT_S :: secs where "CALL_TIMEOUT_S = 60"
definition DEEP_CALL_TIMEOUT_S :: secs where "DEEP_CALL_TIMEOUT_S = 19 * 60"
definition CHAT_WALL_DEADLINE_S :: secs where "CHAT_WALL_DEADLINE_S = 18 * 60"
definition DEEP_WALL_DEADLINE_S :: secs where "DEEP_WALL_DEADLINE_S = 5 * 60"
definition DEEP_FINISH_BY_S :: secs where "DEEP_FINISH_BY_S = DEEP_WALL_DEADLINE_S + DEEP_CALL_TIMEOUT_S"

definition attempt_budget :: "string list \<Rightarrow> nat" where
  "attempt_budget chain = min MAX_ATTEMPTS_ABS (sum_list (map max_keys_for chain))"

text \<open>
  Only the local vision transport asks for a timeout of its own; \<open>vt\<close> is the sum of its
  settings. The other chat transports return \<^verbatim>\<open>None\<close>.
\<close>

definition own_call_timeout :: "secs \<Rightarrow> string \<Rightarrow> secs option" where
  "own_call_timeout vt model = (case model_spec model of
      Some m \<Rightarrow> if ms_transport m = ''local_vision'' then Some vt else None
    | None \<Rightarrow> None)"

lemma local_vision_models:
  "list_all (\<lambda>(i, m). (ms_transport m = ''local_vision'') = (i = ''local/qwen3vl'')) registry_models"
  by code_simp

lemma own_call_timeout_table [code]:
  "own_call_timeout vt model = (if model = ''local/qwen3vl'' then Some vt else None)"
proof -
  have tr: "ms_transport m = ''local_vision'' \<longleftrightarrow> model = ''local/qwen3vl''" if "model_spec model = Some m" for m
  proof -
    have "(model, m) \<in> set registry_models" using that by (simp add: model_spec_registry map_of_SomeD)
    then show ?thesis using local_vision_models unfolding list_all_iff by blast
  qed
  moreover have "model_spec ''local/qwen3vl'' \<noteq> None"
    using model_facts_table[of "''local/qwen3vl''"] by (auto simp: model_table_def)
  ultimately show ?thesis by (cases "model_spec model") (auto simp: own_call_timeout_def)
qed

definition call_timeout :: "secs \<Rightarrow> string \<Rightarrow> string \<Rightarrow> secs" where
  "call_timeout vt capability provider =
     (if capability = ''chat:deep'' then DEEP_CALL_TIMEOUT_S
      else opt_or (Option.bind (model_for provider capability) (own_call_timeout vt)) CALL_TIMEOUT_S)"

section \<open>Request and outcome\<close>

record chat_request =
  cr_project :: ProjectRow
  cr_capability :: string
  cr_messages :: "(string \<times> json) list list"
  cr_model :: "string option"
  cr_max_tokens :: int
  cr_temperature :: rat
  cr_response_format :: json
  cr_workflow :: "string option"
  cr_paid_only :: bool
  cr_tools :: "json list"
  cr_tool_choice :: json

record ChatOutcome =
  co_text :: json
  co_provider :: string
  co_model :: "string option"
  co_model_served :: "string option"
  co_tokens_in :: int
  co_tokens_out :: int
  co_cost_usd :: usd
  co_latency_ms :: "int option"
  co_key_label :: string
  co_request_id :: int
  co_cache_read_tokens :: int
  co_cache_write_tokens :: int
  co_vision_type :: json
  co_vision_format :: json
  co_tool_calls :: json
  co_finish_reason :: json
  co_refusal :: json

datatype chat_exception =
  ToolModelError | PinFailed pin_error | ChainFailed chain_error | AttemptFailed attempt_end | PickFailed json

datatype chat_end =
  Answered ChatOutcome | NoCapacity | BudgetExhausted string | ContentFailed | WalkCancelled | Raised chat_exception

definition exhausted_for :: "attempt_error option \<Rightarrow> chat_end" where
  "exhausted_for err = (case err of
      Some (CapError e) \<Rightarrow> if cg_window e = ''monthly'' then BudgetExhausted ''monthly'' else BudgetExhausted ''daily''
    | _ \<Rightarrow> BudgetExhausted ''daily'')"

definition chat_outcome :: "string \<Rightarrow> string \<Rightarrow> AttemptResult \<Rightarrow> call_meta \<Rightarrow> ChatOutcome" where
  "chat_outcome provider key_label res meta =
     \<lparr>co_text = ar_payload res, co_provider = provider, co_model = cm_model meta, co_model_served = cm_model_served meta,
      co_tokens_in = cm_tokens_in meta, co_tokens_out = cm_tokens_out meta, co_cost_usd = cm_cost_usd meta,
      co_latency_ms = cm_latency_ms meta, co_key_label = key_label, co_request_id = opt_or (ar_usage_id res) 0,
      co_cache_read_tokens = cm_cache_read_tokens meta, co_cache_write_tokens = cm_cache_write_tokens meta,
      co_vision_type = cm_vision_type meta, co_vision_format = cm_vision_format meta,
      co_tool_calls = cm_tool_calls meta, co_finish_reason = cm_finish_reason meta, co_refusal = cm_refusal meta\<rparr>"

definition cached_outcome :: "string \<Rightarrow> ChatOutcome" where
  "cached_outcome answer =
     \<lparr>co_text = JStr answer, co_provider = ''cache'', co_model = Some ''cache'', co_model_served = None, co_tokens_in = 0,
      co_tokens_out = 0, co_cost_usd = 0, co_latency_ms = Some 0, co_key_label = ''cache'', co_request_id = 0,
      co_cache_read_tokens = 0, co_cache_write_tokens = 0, co_vision_type = JNull, co_vision_format = JNull,
      co_tool_calls = JNull, co_finish_reason = JNull, co_refusal = JNull\<rparr>"

definition request_of :: "chat_request \<Rightarrow> cache_request" where
  "request_of q = \<lparr>cq_capability = cr_capability q, cq_messages = cr_messages q, cq_model = cr_model q,
     cq_max_tokens = cr_max_tokens q, cq_temperature = cr_temperature q, cq_project_id = p_id (cr_project q),
     cq_response_format = cr_response_format q, cq_tools = JNull, cq_tool_choice = JNull\<rparr>"

section \<open>Steps\<close>

record Step =
  st_provider :: string
  st_model :: "string option"
  st_tier :: "string option"
  st_key_id :: "int option"
  st_free_only :: bool

definition plain_step :: "string \<Rightarrow> Step" where
  "plain_step p = \<lparr>st_provider = p, st_model = None, st_tier = None, st_key_id = None, st_free_only = False\<rparr>"

definition size_filtered :: "instant \<Rightarrow> ObservationRow list \<Rightarrow> string list \<Rightarrow> int \<Rightarrow> string list" where
  "size_filtered now obs full_chain est_tokens =
     (if est_tokens < MIN_LEARNABLE_CEILING then full_chain
      else let learned = learned_ceilings now obs;
               sized = filter (\<lambda>p. fits_context p est_tokens (map_of learned p)) full_chain
           in if sized = [] then full_chain else sized)"

definition pinned_steps :: "PinTarget list \<Rightarrow> bool \<Rightarrow> Step list" where
  "pinned_steps targets paid_only =
     (if paid_only then []
      else map (\<lambda>t. (plain_step (pt_provider t))\<lparr>st_model := Some (pt_model t), st_tier := Some ''free''\<rparr>)
             (filter (\<lambda>t. pt_provider t \<notin> set paid_providers) targets))
     @ map (\<lambda>t. (plain_step (pt_provider t))\<lparr>st_model := Some (pt_model t), st_tier := Some ''paid''\<rparr>) targets"

definition prompt_chars :: "(string \<times> json) list list \<Rightarrow> int" where
  "prompt_chars messages = sum_list (map (\<lambda>m. content_chars (obj_get m ''content'')) messages)"

definition DEEPSEEK_JSON_EMPTY_CHARS :: int where "DEEPSEEK_JSON_EMPTY_CHARS = 16000"

definition is_deepseek_big_json_prompt :: "json \<Rightarrow> (string \<times> json) list list \<Rightarrow> bool" where
  "is_deepseek_big_json_prompt response_format messages \<longleftrightarrow>
     json_item response_format ''type'' \<in> {Some (JStr ''json_object''), Some (JStr ''json_schema'')} \<and>
     prompt_chars messages \<ge> DEEPSEEK_JSON_EMPTY_CHARS"

definition defers_deepseek :: "datetime \<Rightarrow> chat_request \<Rightarrow> bool" where
  "defers_deepseek at_time q \<longleftrightarrow> peak_multiplier ''deepseek'' at_time > 1 \<or>
     is_deepseek_big_json_prompt (cr_response_format q) (cr_messages q)"

definition shape_chain :: "datetime \<Rightarrow> bool \<Rightarrow> chat_request \<Rightarrow> string list \<Rightarrow> string list" where
  "shape_chain at_time deepseek_storm q chain =
     (let c1 = free_first_walk (cr_capability q) chain (cr_paid_only q);
          c2 = (if wants_json (cr_response_format q) then deprioritize_for_json c1 else c1)
      in deprioritize_deepseek_for_savings c2 (defers_deepseek at_time q \<or> deepseek_storm))"

text \<open>What is fixed for one request.\<close>

record chat_ctx =
  cx_subs :: "ModelSpec list"
  cx_sha :: "json \<Rightarrow> string"
  cx_fr :: "rat \<Rightarrow> string"
  cx_prices :: price_map
  cx_schema :: schema_lib
  cx_at :: datetime
  cx_vision_timeout :: secs
  cx_digest :: "string \<Rightarrow> string"
  cx_py_repr :: "json \<Rightarrow> string"
  cx_ttl :: secs
  cx_shared :: shared_ctx
  cx_mono :: secs
  cx_wall :: instant
  cx_start :: secs

definition pinned_name :: "chat_request \<Rightarrow> string option" where
  "pinned_name q = (case cr_model q of Some [] \<Rightarrow> None | m \<Rightarrow> m)"

definition tool_allowed :: "chat_request \<Rightarrow> string option \<Rightarrow> string \<Rightarrow> bool" where
  "tool_allowed q tool_provider p \<longleftrightarrow>
     cr_tools q = [] \<or> p \<in> set TOOL_PROVIDERS \<and> (tool_provider = None \<or> tool_provider = Some p)"

definition planned_steps ::
  "chat_ctx \<Rightarrow> chat_request \<Rightarrow> string option \<Rightarrow> string list \<Rightarrow> int \<Rightarrow> bool \<Rightarrow> ObservationRow list \<Rightarrow> chat_exception + Step list" where
  "planned_steps cx q tool_provider chain est storm obs = (case pinned_name q of
      Some model \<Rightarrow> (case resolve_pin (cx_subs cx) model (cr_capability q) chain of
          Inl e \<Rightarrow> Inl (PinFailed e)
        | Inr ts \<Rightarrow>
            (let t1 = filter (\<lambda>t. tool_allowed q tool_provider (pt_provider t)) ts;
                 capable = deprioritize_for_json (map pt_provider t1);
                 t2 = (if wants_json (cr_response_format q) then filter (\<lambda>t. pt_provider t \<in> set capable) t1 else t1);
                 wanted = size_filtered (cx_wall cx) obs (map pt_provider t2) est
             in Inr (pinned_steps (filter (\<lambda>t. pt_provider t \<in> set wanted) t2) (cr_paid_only q))))
    | None \<Rightarrow>
        (let c1 = filter (tool_allowed q tool_provider) (shape_chain (cx_at cx) storm q chain)
         in Inr (map plain_step (size_filtered (cx_wall cx) obs c1 est))))"

definition with_affinity :: "bool \<Rightarrow> AffinityTarget option \<Rightarrow> Step list \<Rightarrow> Step list" where
  "with_affinity paid_only target steps = (case (steps, target) of
      (s # _, Some t) \<Rightarrow>
        if may_promote t (Some (st_provider s)) paid_only \<and>
           list_ex (\<lambda>s'. st_provider s' = at_provider t \<and> (st_model s' \<in> {None, Some []} \<or> st_model s' = Some (at_model t))) steps
        then \<lparr>st_provider = at_provider t, st_model = Some (at_model t),
               st_tier = (if paid_only then Some ''paid'' else None), st_key_id = Some (at_key_id t),
               st_free_only = (\<not> paid_only \<and> st_provider s \<notin> set paid_providers)\<rparr> # steps
        else steps
    | _ \<Rightarrow> steps)"

section \<open>Models of a step\<close>

definition model_pool :: "string \<Rightarrow> string \<Rightarrow> string option \<Rightarrow> string option \<Rightarrow> string list" where
  "model_pool provider capability primary pinned =
     (if pinned \<notin> {None, Some []} then [the pinned]
      else case primary of None \<Rightarrow> []
        | Some p \<Rightarrow> p # filter (\<lambda>m. m \<noteq> p) (rotation_for provider capability))"

fun first_warm :: "string list \<Rightarrow> string list \<Rightarrow> nat \<Rightarrow> nat \<Rightarrow> string option" where
  "first_warm pool cooled start 0 = None"
| "first_warm pool cooled start (Suc n) =
     (let candidate = pool ! ((start + (length pool - Suc n)) mod length pool) in
      if candidate \<notin> set cooled then Some candidate else first_warm pool cooled start n)"

definition rotate_model :: "bool \<Rightarrow> string list \<Rightarrow> string list \<Rightarrow> nat \<Rightarrow> string" where
  "rotate_model lookup_fails cooled pool start =
     (if length pool < 2 \<or> lookup_fails then pool ! start
      else opt_or (first_warm pool cooled start (length pool)) (pool ! start))"

section \<open>The walk\<close>

text \<open>What the i-th iteration meets, and the log entry of an attempt it starts.\<close>

record iter_env =
  ie_stop :: bool
  ie_now :: secs
  ie_world :: "service \<Rightarrow> service"
  ie_pick :: pick_env
  ie_cooled_fails :: bool
  ie_cooled_now :: instant
  ie_price_at :: datetime
  ie_attempt :: "ApiKeyRow \<Rightarrow> string \<Rightarrow> attempt_env"
  ie_wall :: instant

record walk_event =
  we_step :: Step
  we_key :: ApiKeyRow
  we_model :: string
  we_started :: secs
  we_timeout :: secs
  we_tier :: "string option"
  we_flow :: "flow option"
  we_rejection :: "string option"

record walk_state =
  ws_i :: nat
  ws_attempts :: nat
  ws_content_failures :: nat
  ws_other_failures :: bool
  ws_degraded_free :: bool
  ws_service :: service
  ws_cache :: cache_store
  ws_log :: "walk_event list"

datatype iteration = Return chat_end | NextStep | NextKey "string option" "int option"

definition chat_attempt ::
  "chat_ctx \<Rightarrow> chat_request \<Rightarrow> int \<Rightarrow> datetime \<Rightarrow> string \<Rightarrow> ApiKeyRow \<Rightarrow> string \<Rightarrow> Attempt" where
  "chat_attempt cx q est price_at provider key model =
     \<lparr>ap_key = key, ap_project = cr_project q, ap_provider = provider, ap_model = model,
      ap_capability = cr_capability q, ap_workflow = cr_workflow q,
      ap_estimated_cost = (if k_tier key = ''free'' \<and> \<not> bills_on_free_key (Some model) then 0
                           else estimate_llm_cost (cx_prices cx) price_at model est (cr_max_tokens q) 0 0 0),
      ap_est_tokens = est,
      ap_check = Some (chat_gate (cx_schema cx) (cx_fr cx) provider (k_id key) (cr_response_format q)
                         (cr_tools q) (cr_tool_choice q)),
      ap_cap_flow = NEXT_PROVIDER, ap_reserve = True, ap_penalize = True, ap_pinned_model = cr_model q,
      ap_note_affinity = True\<rparr>"

text \<open>The verdict on a finished attempt.\<close>

definition after_attempt ::
  "chat_ctx \<Rightarrow> chat_request \<Rightarrow> Step \<Rightarrow> string option \<Rightarrow> int option \<Rightarrow> instant \<Rightarrow> ApiKeyRow \<Rightarrow> AttemptResult
   \<Rightarrow> walk_state \<Rightarrow> iteration \<times> walk_state" where
  "after_attempt cx q step require_tier base wall key res w =
     (let content = ar_rejection res \<in> Some ` set CONTENT_FAILURES;
          w1 = (if ar_flow res = SUCCESS then w
                else if content then w\<lparr>ws_content_failures := Suc (ws_content_failures w)\<rparr>
                else w\<lparr>ws_other_failures := True\<rparr>)
      in case ar_flow res of
           SUCCESS \<Rightarrow>
             (Return (case ar_meta res of
                 Some meta \<Rightarrow> Answered (chat_outcome (st_provider step) (k_label key) res meta)
               | None \<Rightarrow> NoCapacity),
              if cr_tools q = []
              then w1\<lparr>ws_cache := cache_put (cx_sha cx) wall (request_of q) (answer_text (ar_payload res)) (ws_cache w1)\<rparr>
              else w1)
         | BUDGET_EXHAUSTED \<Rightarrow>
             if cr_paid_only q \<or> st_tier step \<noteq> None then (Return (exhausted_for (ar_error res)), w1)
             else if require_tier \<noteq> Some ''free'' then (NextKey (Some ''free'') base, w1\<lparr>ws_degraded_free := True\<rparr>)
             else (NextStep, w1)
         | NEXT_PROVIDER \<Rightarrow> (NextStep, w1)
         | NEXT_KEY \<Rightarrow> (NextKey require_tier base, w1))"

definition chosen_model ::
  "chat_request \<Rightarrow> Step \<Rightarrow> iter_env \<Rightarrow> int option \<Rightarrow> nat \<Rightarrow> string list \<Rightarrow> ApiKeyRow \<Rightarrow> broker \<Rightarrow> string option \<times> int option" where
  "chosen_model q step ie base attempt_in_provider pool key b =
     (if st_model step \<notin> {None, Some []} then (st_model step, base)
      else if model_for (st_provider step) (cr_capability q) = None then (None, base)
      else let base' = opt_or base (k_id key) in
           (Some (rotate_model (ie_cooled_fails ie) (cooled_models (ie_cooled_now ie) (k_id key) b) pool
                    (nat ((base' + int attempt_in_provider) mod int (length pool)))), Some base'))"

text \<open>An attempt with the key that was picked.\<close>

definition try_key ::
  "chat_ctx \<Rightarrow> chat_request \<Rightarrow> int \<Rightarrow> iter_env \<Rightarrow> Step \<Rightarrow> string list \<Rightarrow> nat \<Rightarrow> string option \<Rightarrow> int option \<Rightarrow> secs \<Rightarrow> ApiKeyRow
   \<Rightarrow> walk_state \<Rightarrow> iteration \<times> walk_state" where
  "try_key cx q est ie step pool attempt_in_provider require_tier base timeout key w =
     (if st_free_only step \<and> k_tier key \<noteq> ''free'' then (NextStep, w)
      else case chosen_model q step ie base attempt_in_provider pool key (sv_broker (ws_service w)) of
        (use_model, base') \<Rightarrow>
          if use_model \<in> {None, Some []} then (NextStep, w\<lparr>ws_attempts := Suc (ws_attempts w)\<rparr>)
          else let model = the use_model;
                   event = \<lparr>we_step = step, we_key = key, we_model = model, we_started = ie_now ie, we_timeout = timeout,
                     we_tier = require_tier, we_flow = None, we_rejection = None\<rparr>
               in case run_attempt (ie_attempt ie key model)
                         (chat_attempt cx q est (ie_price_at ie) (st_provider step) key model) (ws_service w) of
                    (Finished res, s1) \<Rightarrow>
                      after_attempt cx q step require_tier base' (ie_wall ie) key res
                        (w\<lparr>ws_attempts := Suc (ws_attempts w), ws_service := s1,
                           ws_log := ws_log w @ [event\<lparr>we_flow := Some (ar_flow res), we_rejection := ar_rejection res\<rparr>]\<rparr>)
                  | (e, s1) \<Rightarrow>
                      (Return (Raised (AttemptFailed e)),
                       w\<lparr>ws_attempts := Suc (ws_attempts w), ws_service := s1, ws_log := ws_log w @ [event]\<rparr>))"

definition only_key :: "Step \<Rightarrow> int option" where
  "only_key step = (if st_key_id step = Some 0 then None else st_key_id step)"

definition walk_iteration ::
  "chat_ctx \<Rightarrow> chat_request \<Rightarrow> string \<Rightarrow> int \<Rightarrow> nat \<Rightarrow> secs \<Rightarrow> (nat \<Rightarrow> iter_env) \<Rightarrow> Step \<Rightarrow> nat \<Rightarrow> string option \<Rightarrow> int option
   \<Rightarrow> walk_state \<Rightarrow> iteration \<times> walk_state" where
  "walk_iteration cx q scope est cap finish_by env step attempt_in_provider require_tier base w =
     (let ie = env (ws_i w); provider = st_provider step;
          s0 = ie_world ie (ws_service w);
          timeout = call_timeout (cx_vision_timeout cx) (cr_capability q) provider;
          pool = model_pool provider (cr_capability q) (model_for provider (cr_capability q)) (st_model step);
          next = (\<lambda>s. w\<lparr>ws_i := Suc (ws_i w), ws_service := s\<rparr>)
      in if ie_stop ie then (Return WalkCancelled, next s0)
         else if ws_attempts w \<ge> cap then (Return NoCapacity, next s0)
         else if ie_now ie + timeout > finish_by then (Return NoCapacity, next s0)
         else case pick_and_reserve (ie_pick ie) provider scope require_tier (Some (p_id (cr_project q))) pool
                     (only_key step) (sv_broker s0) of
           (picked, b1) \<Rightarrow>
             (case picked of
                Inl v \<Rightarrow> (Return (Raised (PickFailed v)), next (s0\<lparr>sv_broker := b1\<rparr>))
              | Inr None \<Rightarrow> (NextStep, next (s0\<lparr>sv_broker := b1\<rparr>))
              | Inr (Some key) \<Rightarrow> try_key cx q est ie step pool attempt_in_provider require_tier base timeout key
                                   (next (s0\<lparr>sv_broker := b1\<rparr>))))"

text \<open>The inner loop over the keys of one step: \<open>n\<close> rounds left of \<open>attempt_in_provider + n\<close>.\<close>

fun walk_keys ::
  "chat_ctx \<Rightarrow> chat_request \<Rightarrow> string \<Rightarrow> int \<Rightarrow> nat \<Rightarrow> secs \<Rightarrow> (nat \<Rightarrow> iter_env) \<Rightarrow> Step \<Rightarrow> nat \<Rightarrow> nat \<Rightarrow> string option \<Rightarrow> int option
   \<Rightarrow> walk_state \<Rightarrow> chat_end option \<times> walk_state" where
  "walk_keys cx q scope est cap finish_by env step attempt_in_provider 0 require_tier base w = (None, w)"
| "walk_keys cx q scope est cap finish_by env step attempt_in_provider (Suc n) require_tier base w =
     (case walk_iteration cx q scope est cap finish_by env step attempt_in_provider require_tier base w of
        (Return e, w1) \<Rightarrow> (Some e, w1)
      | (NextStep, w1) \<Rightarrow> (None, w1)
      | (NextKey tier base', w1) \<Rightarrow>
          walk_keys cx q scope est cap finish_by env step (Suc attempt_in_provider) n tier base' w1)"

definition step_tier :: "chat_request \<Rightarrow> Step \<Rightarrow> bool \<Rightarrow> string option" where
  "step_tier q step degraded_free =
     (if degraded_free \<and> st_tier step = None then Some ''free''
      else case st_tier step of
             Some t \<Rightarrow> if t = [] then (if cr_paid_only q then Some ''paid'' else None) else Some t
           | None \<Rightarrow> if cr_paid_only q then Some ''paid'' else None)"

definition step_rounds :: "Step \<Rightarrow> nat" where
  "step_rounds step = (if only_key step \<noteq> None then 1 else max_keys_for (st_provider step))"

fun walk_steps ::
  "chat_ctx \<Rightarrow> chat_request \<Rightarrow> string \<Rightarrow> int \<Rightarrow> nat \<Rightarrow> secs \<Rightarrow> (nat \<Rightarrow> iter_env) \<Rightarrow> Step list \<Rightarrow> walk_state \<Rightarrow> chat_end \<times> walk_state" where
  "walk_steps cx q scope est cap finish_by env [] w =
     (if ws_content_failures w \<noteq> 0 \<and> \<not> ws_other_failures w then ContentFailed else NoCapacity, w)"
| "walk_steps cx q scope est cap finish_by env (step # steps) w =
     (case walk_keys cx q scope est cap finish_by env step 0 (step_rounds step)
             (step_tier q step (ws_degraded_free w)) None w of
        (Some e, w1) \<Rightarrow> (e, w1)
      | (None, w1) \<Rightarrow> walk_steps cx q scope est cap finish_by env steps w1)"

definition finish_by_of :: "chat_ctx \<Rightarrow> chat_request \<Rightarrow> secs" where
  "finish_by_of cx q = cx_start cx + (if cr_capability q = ''chat:deep'' then DEEP_FINISH_BY_S else CHAT_WALL_DEADLINE_S)"

definition tool_tokens :: "(rat \<Rightarrow> string) \<Rightarrow> json list \<Rightarrow> int" where
  "tool_tokens fr tools = (if tools = [] then 0 else int (length (json_dumps fr '', '' '': '' (JList tools))) div 3 + 1)"

definition start_walk :: "service \<Rightarrow> cache_store \<Rightarrow> walk_state" where
  "start_walk s cache = \<lparr>ws_i = 0, ws_attempts = 0, ws_content_failures = 0, ws_other_failures = False,
     ws_degraded_free = False, ws_service = s, ws_cache = cache, ws_log = []\<rparr>"

definition with_route :: "chat_ctx \<Rightarrow> chat_request \<Rightarrow> Step list \<Rightarrow> service \<Rightarrow> Step list \<times> service" where
  "with_route cx q steps s =
     (if steps = [] then (steps, s)
      else case lookup_route (cx_digest cx) (cx_py_repr cx) (cx_ttl cx) (cx_shared cx) (p_id (cr_project q))
                  (cr_workflow q) (cr_capability q) (cr_model q) (b_aff (sv_broker s), b_shared (sv_broker s)) of
        (target, aff, sh) \<Rightarrow>
          (with_affinity (cr_paid_only q) target steps,
           s\<lparr>sv_broker := (sv_broker s)\<lparr>b_aff := aff, b_shared := sh\<rparr>\<rparr>))"

definition run_walk ::
  "chat_ctx \<Rightarrow> (nat \<Rightarrow> iter_env) \<Rightarrow> chat_request \<Rightarrow> string \<Rightarrow> int \<Rightarrow> Step list \<Rightarrow> service \<Rightarrow> cache_store \<Rightarrow> chat_end \<times> walk_state" where
  "run_walk cx env q scope est steps s cache =
     (case with_route cx q steps s of (steps', s') \<Rightarrow>
        walk_steps cx q scope est (attempt_budget (map st_provider steps')) (finish_by_of cx q) env steps'
          (start_walk s' cache))"

text \<open>The empty-body memory is consulted, and pruned, only when nothing else defers deepseek.\<close>

definition run_chat ::
  "chat_ctx \<Rightarrow> (nat \<Rightarrow> iter_env) \<Rightarrow> chat_request \<Rightarrow> service \<Rightarrow> cache_store \<Rightarrow> chat_end \<times> walk_state" where
  "run_chat cx env q s cache =
     (case (if cr_tools q = [] then Inr None else tool_model_provider (cr_model q)) of
        Inl _ \<Rightarrow> (Raised ToolModelError, start_walk s cache)
      | Inr tool_provider \<Rightarrow>
      (case scope_for (cr_capability q) of
        Inl e \<Rightarrow> (Raised (ChainFailed e), start_walk s cache)
      | Inr scope \<Rightarrow>
      (case (if cr_tools q = [] then cache_get (cx_sha cx) (cx_wall cx) (request_of q) cache else (None, cache)) of
        (Some answer, cache1) \<Rightarrow> (Answered (cached_outcome answer), start_walk s cache1)
      | (None, cache1) \<Rightarrow>
      (case chain_for (cr_capability q) of
        Inl e \<Rightarrow> (Raised (ChainFailed e), start_walk s cache1)
      | Inr chain \<Rightarrow>
      (let est = estimate_prompt_tokens (cx_fr cx) (cr_messages q) in
       case providers_in_empty_storm (cx_mono cx) EMPTY_STORM_MIN_KEYS (b_circuit (sv_broker s)) of
        (storming, circuit1) \<Rightarrow>
      (case planned_steps cx q tool_provider chain est (''deepseek'' \<in> set storming) (sv_obs s) of
        Inl e \<Rightarrow> (Raised e, start_walk s cache1)
      | Inr steps \<Rightarrow>
          run_walk cx env q scope (est + tool_tokens (cx_fr cx) (cr_tools q)) steps
            (s\<lparr>sv_broker := (sv_broker s)\<lparr>b_circuit :=
               (if pinned_name q = None \<and> \<not> defers_deepseek (cx_at cx) q then circuit1 else b_circuit (sv_broker s))\<rparr>\<rparr>)
            cache1))))))"

end
