(* ===== verification/Chat_Facts.thy ===== *)
theory Chat_Facts
  imports Chat_Walk
begin

text \<open>
  What the chat walk guarantees: the number of attempts, when the last one can end, which
  keys and models it may use, and what its verdicts mean. One invariant of the walk state
  (\<open>walk_inv\<close>) is kept by every iteration and carries all of them.
\<close>

section \<open>One iteration\<close>

text \<open>What holds of every attempt that is started.\<close>

definition event_ok :: "chat_request \<Rightarrow> string \<Rightarrow> secs \<Rightarrow> Step set \<Rightarrow> walk_event \<Rightarrow> bool" where
  "event_ok q scope finish_by steps e \<longleftrightarrow> we_step e \<in> steps \<and> we_started e + we_timeout e \<le> finish_by \<and>
     k_provider (we_key e) = st_provider (we_step e) \<and> k_is_active (we_key e) \<and> k_is_alive (we_key e) \<and>
     scope \<in> set (k_scopes (we_key e)) \<and>
     (\<forall>t. we_tier e = Some t \<and> t \<noteq> [] \<longrightarrow> k_tier (we_key e) = t) \<and>
     (st_free_only (we_step e) \<longrightarrow> k_tier (we_key e) = ''free'') \<and>
     (\<forall>i. st_key_id (we_step e) = Some i \<and> i \<noteq> 0 \<longrightarrow> k_id (we_key e) = i) \<and>
     (\<forall>m. st_model (we_step e) = Some m \<and> m \<noteq> [] \<longrightarrow> we_model e = m)"

definition is_content :: "walk_event \<Rightarrow> bool" where
  "is_content e \<longleftrightarrow> we_rejection e \<in> Some ` set CONTENT_FAILURES"

text \<open>The failures counted so far are those of the log, and nothing in it succeeded.\<close>

definition tally :: "walk_state \<Rightarrow> bool" where
  "tally w \<longleftrightarrow> ws_content_failures w = length (filter is_content (ws_log w)) \<and>
     (ws_other_failures w \<longleftrightarrow> (\<exists>e \<in> set (ws_log w). \<not> is_content e)) \<and>
     (\<forall>e \<in> set (ws_log w). \<exists>f. we_flow e = Some f \<and> f \<noteq> SUCCESS)"

lemma pick_usable:
  assumes "keys_ok b" "pick_and_reserve pe p sc t pid ms only b = (Inr (Some k), b')"
  shows "k_provider k = p \<and> k_is_active k \<and> k_is_alive k \<and> sc \<in> set (k_scopes k) \<and>
    (\<forall>t'. t = Some t' \<and> t' \<noteq> [] \<longrightarrow> k_tier k = t') \<and> (\<forall>i. only = Some i \<longrightarrow> k_id k = i)"
  using pick_sound[OF assms] by (auto simp: key_available_def split: option.splits)

lemma after_attempt_log:
  assumes "after_attempt cx q step tier base wall key res w = (r, w')"
  shows "ws_log w' = ws_log w" "ws_attempts w' = ws_attempts w"
  using assms by (auto simp: after_attempt_def Let_def split: flow.splits if_splits)

text \<open>
  How an iteration ends: without a call, with a call that an exception ended, or with a
  finished attempt on which the verdict is given.
\<close>

definition no_call :: "nat \<Rightarrow> walk_state \<Rightarrow> iteration \<Rightarrow> walk_state \<Rightarrow> bool" where
  "no_call cap w r w' \<longleftrightarrow> ws_log w' = ws_log w \<and> ws_content_failures w' = ws_content_failures w \<and>
     ws_other_failures w' = ws_other_failures w \<and> ws_degraded_free w' = ws_degraded_free w \<and>
     (ws_attempts w' = ws_attempts w \<or> ws_attempts w' = Suc (ws_attempts w) \<and> ws_attempts w < cap) \<and>
     (r \<in> {Return WalkCancelled, Return NoCapacity, NextStep} \<or> (\<exists>v. r = Return (Raised (PickFailed v))))"

definition one_call :: "(walk_event \<Rightarrow> bool) \<Rightarrow> nat \<Rightarrow> string option \<Rightarrow> walk_event \<Rightarrow> walk_state \<Rightarrow> walk_state \<Rightarrow> bool" where
  "one_call P cap tier e w w' \<longleftrightarrow> ws_log w' = ws_log w @ [e] \<and> ws_attempts w < cap \<and> ws_attempts w' = Suc (ws_attempts w) \<and>
     P e \<and> we_tier e = tier \<and> ws_content_failures w' = ws_content_failures w \<and>
     ws_other_failures w' = ws_other_failures w \<and> ws_degraded_free w' = ws_degraded_free w"

definition verdict_given ::
  "chat_ctx \<Rightarrow> chat_request \<Rightarrow> Step \<Rightarrow> (walk_event \<Rightarrow> bool) \<Rightarrow> nat \<Rightarrow> string option \<Rightarrow> walk_state \<Rightarrow> iteration \<Rightarrow> walk_state \<Rightarrow> bool" where
  "verdict_given cx q step P cap tier w r w' \<longleftrightarrow> (\<exists>e res base wall w2.
     after_attempt cx q step tier base wall (we_key e) res w2 = (r, w') \<and> one_call P cap tier e w w2 \<and>
     we_flow e = Some (ar_flow res) \<and> we_rejection e = ar_rejection res)"

lemma try_key_cases:
  assumes "try_key cx q est ie step pool k tier base timeout key w = (r, w')" "ws_attempts w < cap"
    and usable: "k_provider key = st_provider step \<and> k_is_active key \<and> k_is_alive key \<and> scope \<in> set (k_scopes key) \<and>
      (\<forall>t'. tier = Some t' \<and> t' \<noteq> [] \<longrightarrow> k_tier key = t') \<and> (\<forall>i. only_key step = Some i \<longrightarrow> k_id key = i)"
    and time: "ie_now ie + timeout \<le> finish_by"
  shows "no_call cap w r w' \<or>
    (\<exists>e x. r = Return (Raised (AttemptFailed x)) \<and> we_flow e = None \<and> one_call (event_ok q scope finish_by {step}) cap tier e w w') \<or>
    verdict_given cx q step (event_ok q scope finish_by {step}) cap tier w r w'"
proof (cases "st_free_only step \<and> k_tier key \<noteq> ''free''")
  case True
  then show ?thesis using assms(1) by (simp add: try_key_def no_call_def)
next
  case free: False
  obtain um base' where um: "chosen_model q step ie base k pool key (sv_broker (ws_service w)) = (um, base')" by fastforce
  show ?thesis
  proof (cases "um \<in> {None, Some []}")
    case True
    then show ?thesis using assms(1,2) free um by (auto simp: try_key_def no_call_def)
  next
    case False
    then obtain model where m: "um = Some model" "model \<noteq> []" by (cases um) auto
    let ?e = "\<lparr>we_step = step, we_key = key, we_model = model, we_started = ie_now ie, we_timeout = timeout,
        we_tier = tier, we_flow = None, we_rejection = None\<rparr>"
    have pin: "\<forall>p. st_model step = Some p \<and> p \<noteq> [] \<longrightarrow> model = p"
      using um m by (auto simp: chosen_model_def split: if_splits)
    have ok: "event_ok q scope finish_by {step} (?e\<lparr>we_flow := f, we_rejection := rj\<rparr>)" for f rj
      using usable time free pin by (auto simp: event_ok_def only_key_def split: if_splits)
    obtain a s1 where ra: "run_attempt (ie_attempt ie key model)
        (chat_attempt cx q est (ie_price_at ie) (st_provider step) key model) (ws_service w) = (a, s1)" by fastforce
    have body: "try_key cx q est ie step pool k tier base timeout key w =
      (case a of Finished res \<Rightarrow> after_attempt cx q step tier base' (ie_wall ie) key res
           (w\<lparr>ws_attempts := Suc (ws_attempts w), ws_service := s1,
              ws_log := ws_log w @ [?e\<lparr>we_flow := Some (ar_flow res), we_rejection := ar_rejection res\<rparr>]\<rparr>)
       | _ \<Rightarrow> (Return (Raised (AttemptFailed a)),
           w\<lparr>ws_attempts := Suc (ws_attempts w), ws_service := s1, ws_log := ws_log w @ [?e]\<rparr>))"
      unfolding try_key_def um using free m ra by (cases a) (auto simp: Let_def)
    show ?thesis
    proof (cases "\<exists>res. a = Finished res")
      case True
      then obtain res where a: "a = Finished res" by blast
      let ?e' = "?e\<lparr>we_flow := Some (ar_flow res), we_rejection := ar_rejection res\<rparr>"
      have "verdict_given cx q step (event_ok q scope finish_by {step}) cap tier w r w'"
        unfolding verdict_given_def
        by (rule exI[of _ ?e'], rule exI[of _ res], rule exI[of _ base'], rule exI[of _ "ie_wall ie"],
            rule exI[of _ "w\<lparr>ws_attempts := Suc (ws_attempts w), ws_service := s1, ws_log := ws_log w @ [?e']\<rparr>"])
           (use assms(1,2) body a ok[where f = "Some (ar_flow res)" and rj = "ar_rejection res"] in \<open>simp add: one_call_def\<close>)
      then show ?thesis by blast
    next
      case False
      then have "r = Return (Raised (AttemptFailed a)) \<and> we_flow ?e = None \<and> one_call (event_ok q scope finish_by {step}) cap tier ?e w w'"
        using assms(1,2) body ok[where f = None and rj = None] by (cases a) (auto simp: one_call_def)
      then show ?thesis by blast
    qed
  qed
qed

lemma walk_iteration_cases:
  assumes "walk_iteration cx q scope est cap finish_by env step k tier base w = (r, w')"
    and keys: "\<And>i s. keys_ok (sv_broker (ie_world (env i) s))"
  shows "no_call cap w r w' \<or>
    (\<exists>e x. r = Return (Raised (AttemptFailed x)) \<and> we_flow e = None \<and> one_call (event_ok q scope finish_by {step}) cap tier e w w') \<or>
    verdict_given cx q step (event_ok q scope finish_by {step}) cap tier w r w'"
proof -
  define ie where "ie = env (ws_i w)"
  let ?s0 = "ie_world ie (ws_service w)"
  let ?t = "call_timeout (cx_vision_timeout cx) (cr_capability q) (st_provider step)"
  let ?pool = "model_pool (st_provider step) (cr_capability q) (model_for (st_provider step) (cr_capability q)) (st_model step)"
  obtain pr b1 where pr: "pick_and_reserve (ie_pick ie) (st_provider step) scope tier (Some (p_id (cr_project q))) ?pool
      (only_key step) (sv_broker ?s0) = (pr, b1)" by fastforce
  show ?thesis
  proof (cases "ie_stop ie \<or> ws_attempts w \<ge> cap \<or> ie_now ie + ?t > finish_by")
    case True
    then show ?thesis using assms(1) by (auto simp: walk_iteration_def Let_def ie_def no_call_def split: if_splits)
  next
    case go: False
    show ?thesis
    proof (cases "\<exists>key. pr = Inr (Some key)")
      case True
      then obtain key where key: "pr = Inr (Some key)" by blast
      let ?w = "w\<lparr>ws_i := Suc (ws_i w), ws_service := ?s0\<lparr>sv_broker := b1\<rparr>\<rparr>"
      have tk: "try_key cx q est ie step ?pool k tier base ?t key ?w = (r, w')"
        using assms(1) go pr key by (simp add: walk_iteration_def Let_def ie_def[symmetric])
      have "keys_ok (sv_broker ?s0)" unfolding ie_def by (rule keys)
      from try_key_cases[OF tk _ pick_usable[OF this pr[unfolded key]], of cap finish_by] go
      show ?thesis by (simp add: no_call_def one_call_def verdict_given_def)
    next
      case False
      then show ?thesis using assms(1) go pr
        by (cases pr) (auto simp: walk_iteration_def Let_def ie_def[symmetric] no_call_def split: option.splits)
    qed
  qed
qed

section \<open>The invariant\<close>

text \<open>The key of an attempt has the tier its step demands, a paid one when only those may be used.\<close>

definition tier_kept :: "chat_request \<Rightarrow> walk_event \<Rightarrow> bool" where
  "tier_kept q e \<longleftrightarrow> (\<forall>t. st_tier (we_step e) = Some t \<and> t \<noteq> [] \<longrightarrow> k_tier (we_key e) = t) \<and>
     (cr_paid_only q \<and> st_tier (we_step e) \<in> {None, Some []} \<longrightarrow> k_tier (we_key e) = ''paid'')"

text \<open>A walk that goes on free-only once the budget is spent: no pin, no paid-only retry.\<close>

definition loose :: "chat_request \<Rightarrow> Step set \<Rightarrow> bool" where
  "loose q S \<longleftrightarrow> \<not> cr_paid_only q \<and> (\<forall>s \<in> S. st_tier s = None)"

definition free_after_cap :: "walk_event list \<Rightarrow> bool" where
  "free_after_cap es \<longleftrightarrow>
     sorted_wrt (\<lambda>a b. we_flow a = Some BUDGET_EXHAUSTED \<longrightarrow> k_tier (we_key b) = ''free'') es"

definition chat_inv :: "chat_request \<Rightarrow> string \<Rightarrow> secs \<Rightarrow> Step set \<Rightarrow> nat \<Rightarrow> walk_state \<Rightarrow> bool" where
  "chat_inv q scope finish_by S cap w \<longleftrightarrow>
     length (ws_log w) \<le> ws_attempts w \<and> ws_attempts w \<le> cap \<and>
     (\<forall>e \<in> set (ws_log w). event_ok q scope finish_by S e \<and> tier_kept q e) \<and>
     (loose q S \<longrightarrow> free_after_cap (ws_log w) \<and>
        ((\<exists>e \<in> set (ws_log w). we_flow e = Some BUDGET_EXHAUSTED) \<longrightarrow> ws_degraded_free w)) \<and>
     (cr_paid_only q \<longrightarrow> \<not> ws_degraded_free w)"

definition tier_inv :: "chat_request \<Rightarrow> Step \<Rightarrow> string option \<Rightarrow> walk_state \<Rightarrow> bool" where
  "tier_inv q step tier w \<longleftrightarrow> (\<forall>t. st_tier step = Some t \<and> t \<noteq> [] \<longrightarrow> tier = Some t) \<and>
     (cr_paid_only q \<and> st_tier step \<in> {None, Some []} \<longrightarrow> tier = Some ''paid'') \<and>
     (st_tier step = None \<and> \<not> cr_paid_only q \<longrightarrow> (tier = Some ''free'' \<longleftrightarrow> ws_degraded_free w))"

definition answered_by :: "ChatOutcome \<Rightarrow> walk_event \<Rightarrow> bool" where
  "answered_by out e \<longleftrightarrow> we_flow e = Some SUCCESS \<and> co_provider out = st_provider (we_step e) \<and> co_key_label out = k_label (we_key e)"

definition return_ok :: "chat_end \<Rightarrow> walk_state \<Rightarrow> bool" where
  "return_ok x w \<longleftrightarrow> x \<noteq> ContentFailed \<and> (\<forall>out. x = Answered out \<longrightarrow> ws_log w \<noteq> [] \<and> answered_by out (last (ws_log w)))"

lemma one_call_inv:
  assumes inv: "chat_inv q scope finish_by S cap w" and tier: "tier_inv q step tier w" and st: "step \<in> S"
    and call: "one_call (event_ok q scope finish_by {step}) cap tier e w w'"
  shows "length (ws_log w') \<le> ws_attempts w' \<and> ws_attempts w' \<le> cap \<and>
     (\<forall>e \<in> set (ws_log w'). event_ok q scope finish_by S e \<and> tier_kept q e) \<and> (loose q S \<longrightarrow> free_after_cap (ws_log w')) \<and>
     ws_degraded_free w' = ws_degraded_free w"
proof -
  have e: "event_ok q scope finish_by {step} e" "we_tier e = tier" "ws_log w' = ws_log w @ [e]"
    "ws_attempts w' = Suc (ws_attempts w)" "ws_attempts w < cap"
    using call by (auto simp: one_call_def)
  then have step: "we_step e = step" by (simp add: event_ok_def)
  have ok: "event_ok q scope finish_by S e" using e(1) st by (auto simp: event_ok_def)
  have tk: "\<And>t. tier = Some t \<Longrightarrow> t \<noteq> [] \<Longrightarrow> k_tier (we_key e) = t" using e(1,2) by (auto simp: event_ok_def)
  have "tier_kept q e" using tier tk step by (auto simp: tier_kept_def tier_inv_def)
  moreover have "free_after_cap (ws_log w @ [e])" if l: "loose q S"
  proof -
    have "k_tier (we_key e) = ''free''" if "\<exists>a \<in> set (ws_log w). we_flow a = Some BUDGET_EXHAUSTED"
      using that inv l tier tk st by (auto simp: chat_inv_def loose_def tier_inv_def)
    then show ?thesis using inv l by (auto simp: chat_inv_def free_after_cap_def sorted_wrt_append)
  qed
  ultimately show ?thesis using inv ok e(3-5) call by (auto simp: chat_inv_def one_call_def)
qed

lemma verdict_step:
  assumes inv: "chat_inv q scope finish_by S cap w" and tier: "tier_inv q step tier w" and st: "step \<in> S" and tl: "tally w"
    and v: "verdict_given cx q step (event_ok q scope finish_by {step}) cap tier w r w'"
  shows "chat_inv q scope finish_by S cap w' \<and> (\<forall>x. r = Return x \<longrightarrow> return_ok x w') \<and>
    ((\<forall>x. r \<noteq> Return x) \<longrightarrow> tally w') \<and> (\<forall>t b. r = NextKey t b \<longrightarrow> tier_inv q step t w')"
proof -
  obtain e res base wall w2 where a: "after_attempt cx q step tier base wall (we_key e) res w2 = (r, w')"
    and call: "one_call (event_ok q scope finish_by {step}) cap tier e w w2"
    and f: "we_flow e = Some (ar_flow res)" "we_rejection e = ar_rejection res"
    using v by (auto simp: verdict_given_def)
  have w2: "ws_log w2 = ws_log w @ [e]" "ws_content_failures w2 = ws_content_failures w" "we_tier e = tier" "we_step e = step"
    "ws_other_failures w2 = ws_other_failures w" "ws_degraded_free w2 = ws_degraded_free w"
    using call by (auto simp: one_call_def event_ok_def)
  note log = after_attempt_log[OF a]
  have ic: "is_content e \<longleftrightarrow> ar_rejection res \<in> Some ` set CONTENT_FAILURES" using f(2) by (simp add: is_content_def)
  have deg: "ws_degraded_free w' \<longleftrightarrow> ws_degraded_free w \<or>
      ar_flow res = BUDGET_EXHAUSTED \<and> \<not> cr_paid_only q \<and> st_tier step = None \<and> tier \<noteq> Some ''free''"
    using a w2(6) by (auto simp: after_attempt_def Let_def split: flow.splits if_splits)
  have "ws_degraded_free w'" if l: "loose q S" and b: "\<exists>x \<in> set (ws_log w'). we_flow x = Some BUDGET_EXHAUSTED"
  proof (cases "ws_degraded_free w")
    case False
    then have "\<not> (\<exists>x \<in> set (ws_log w). we_flow x = Some BUDGET_EXHAUSTED)" using inv l by (auto simp: chat_inv_def)
    then have "we_flow e = Some BUDGET_EXHAUSTED" using b log(1) w2(1) by auto
    then show ?thesis using deg f(1) tier l st False by (auto simp: loose_def tier_inv_def)
  qed (use deg in simp)
  then have inv': "chat_inv q scope finish_by S cap w'"
    using one_call_inv[OF inv tier st call] log inv deg unfolding chat_inv_def by simp
  moreover have "return_ok x w'" if "r = Return x" for x
    using a that log w2(1,4) f(1)
    by (auto simp: return_ok_def after_attempt_def Let_def exhausted_for_def answered_by_def chat_outcome_def
        split: flow.splits if_splits option.splits attempt_error.splits)
  moreover have "tally w'" if "\<forall>x. r \<noteq> Return x"
    using a that tl log w2 f(1) ic
    by (auto simp: tally_def after_attempt_def Let_def split: flow.splits if_splits)
  moreover have "tier_inv q step t w'" if "r = NextKey t b" for t b
    using a that tier deg
    by (auto simp: tier_inv_def after_attempt_def Let_def split: flow.splits if_splits)
  ultimately show ?thesis by blast
qed

lemma iteration_inv:
  assumes it: "walk_iteration cx q scope est cap finish_by env step k tier base w = (r, w')"
    and keys: "\<And>i s. keys_ok (sv_broker (ie_world (env i) s))"
    and inv: "chat_inv q scope finish_by S cap w" and tier: "tier_inv q step tier w" and st: "step \<in> S" and tl: "tally w"
  shows "chat_inv q scope finish_by S cap w' \<and> (\<forall>x. r = Return x \<longrightarrow> return_ok x w') \<and>
    ((\<forall>x. r \<noteq> Return x) \<longrightarrow> tally w') \<and> (\<forall>t b. r = NextKey t b \<longrightarrow> tier_inv q step t w')"
  using walk_iteration_cases[OF it keys]
proof (elim disjE exE conjE)
  assume n: "no_call cap w r w'"
  then have eqs: "ws_log w' = ws_log w" "ws_content_failures w' = ws_content_failures w"
    "ws_other_failures w' = ws_other_failures w" "ws_degraded_free w' = ws_degraded_free w" by (simp_all add: no_call_def)
  have "length (ws_log w) \<le> ws_attempts w'" "ws_attempts w' \<le> cap"
    using n inv by (auto simp: no_call_def chat_inv_def)
  then have "chat_inv q scope finish_by S cap w'" using inv by (simp add: chat_inv_def eqs)
  moreover have "tally w'" using tl by (simp add: tally_def eqs)
  moreover have "r \<in> {Return WalkCancelled, Return NoCapacity, NextStep} \<or> (\<exists>v. r = Return (Raised (PickFailed v)))"
    using n by (simp add: no_call_def)
  then have "(\<forall>x. r = Return x \<longrightarrow> return_ok x w') \<and> (\<forall>t b. r \<noteq> NextKey t b)" by (auto simp: return_ok_def)
  ultimately show ?thesis by blast
next
  fix e x assume r: "r = Return (Raised (AttemptFailed x))" "we_flow e = None" and c: "one_call (event_ok q scope finish_by {step}) cap tier e w w'"
  have "ws_degraded_free w'" if "loose q S" "\<exists>x \<in> set (ws_log w'). we_flow x = Some BUDGET_EXHAUSTED"
    using that inv c r(2) by (auto simp: chat_inv_def one_call_def)
  then show ?thesis using one_call_inv[OF inv tier st c] r inv by (simp add: chat_inv_def return_ok_def)
next
  assume "verdict_given cx q step (event_ok q scope finish_by {step}) cap tier w r w'"
  from verdict_step[OF inv tier st tl this] show ?thesis .
qed

lemma keys_inv:
  assumes keys: "\<And>i s. keys_ok (sv_broker (ie_world (env i) s))"
  shows "walk_keys cx q scope est cap finish_by env step k n tier base w = (r, w') \<Longrightarrow>
    chat_inv q scope finish_by S cap w \<Longrightarrow> tier_inv q step tier w \<Longrightarrow> step \<in> S \<Longrightarrow> tally w \<Longrightarrow>
    chat_inv q scope finish_by S cap w' \<and> (\<forall>x. r = Some x \<longrightarrow> return_ok x w') \<and> (r = None \<longrightarrow> tally w')"
proof (induction n arbitrary: k tier base w)
  case (Suc n)
  obtain ir w1 where it: "walk_iteration cx q scope est cap finish_by env step k tier base w = (ir, w1)" by fastforce
  note iv = iteration_inv[OF it keys Suc.prems(2-5)]
  show ?case
  proof (cases ir)
    case (NextKey t b)
    then show ?thesis using Suc.IH[of "Suc k" t b w1] Suc.prems(1,4) it iv by simp
  qed (use Suc.prems(1) it iv in auto)
qed simp

lemma step_tier_inv: "(cr_paid_only q \<longrightarrow> \<not> ws_degraded_free w) \<Longrightarrow> tier_inv q step (step_tier q step (ws_degraded_free w)) w"
  by (auto simp: tier_inv_def step_tier_def split: option.splits)

lemma walk_steps_inv:
  assumes keys: "\<And>i s. keys_ok (sv_broker (ie_world (env i) s))"
  shows "walk_steps cx q scope est cap finish_by env steps w = (x, w') \<Longrightarrow>
    chat_inv q scope finish_by S cap w \<Longrightarrow> set steps \<subseteq> S \<Longrightarrow> tally w \<Longrightarrow>
    chat_inv q scope finish_by S cap w' \<and>
    (x = ContentFailed \<longrightarrow> tally w' \<and> ws_content_failures w' \<noteq> 0 \<and> \<not> ws_other_failures w') \<and>
    (\<forall>out. x = Answered out \<longrightarrow> ws_log w' \<noteq> [] \<and> answered_by out (last (ws_log w')))"
proof (induction steps arbitrary: w)
  case (Cons step steps)
  obtain r w1 where k: "walk_keys cx q scope est cap finish_by env step 0 (step_rounds step)
      (step_tier q step (ws_degraded_free w)) None w = (r, w1)" by fastforce
  have t: "tier_inv q step (step_tier q step (ws_degraded_free w)) w"
    using Cons.prems(2) by (intro step_tier_inv) (simp add: chat_inv_def)
  have kv: "chat_inv q scope finish_by S cap w1 \<and> (\<forall>x. r = Some x \<longrightarrow> return_ok x w1) \<and> (r = None \<longrightarrow> tally w1)"
    using keys_inv[OF keys k Cons.prems(2) t _ Cons.prems(4)] Cons.prems(3) by simp
  show ?case
  proof (cases r)
    case None
    then show ?thesis using Cons.IH[of w1] Cons.prems(1,3) k kv by simp
  next
    case (Some e)
    then show ?thesis using Cons.prems(1) k kv by (auto simp: return_ok_def)
  qed
qed (auto split: if_splits)

section \<open>The whole request\<close>

lemma start_inv: "chat_inv q scope finish_by S cap (start_walk s c)" "tally (start_walk s c)"
  by (simp_all add: chat_inv_def start_walk_def free_after_cap_def tally_def)

lemma size_filtered_sub: "set (size_filtered now obs ch est) \<subseteq> set ch"
  by (auto simp: size_filtered_def Let_def)

lemma shape_chain_sub:
  "set (shape_chain t storm q ch) \<subseteq> set (free_first_walk (cr_capability q) ch (cr_paid_only q))"
  by (auto simp: shape_chain_def Let_def set_deprioritize_deepseek set_deprioritize_for_json)

lemma resolve_pin_chain:
  "resolve_pin subs m cap ch = Inr ts \<Longrightarrow> t \<in> set ts \<Longrightarrow> pt_provider t \<in> set ch"
  by (auto simp: resolve_pin_def Let_def split: if_splits)

lemma all_models_named: "m \<in> set all_models \<Longrightarrow> ms_id m \<noteq> []"
proof -
  assume "m \<in> set all_models"
  then obtain i where im: "(i, m) \<in> set registry_models" by (force simp: all_models_def registry_models_def)
  then have "(i, model_facts m) \<in> set (map (\<lambda>(i, m). (i, model_facts m)) registry_models)" by force
  then have "(i, model_facts m) \<in> set model_table" unfolding registry_models_table[THEN conjunct1] .
  moreover have "ms_id m = i" using im registry_models_table[THEN conjunct2] by (auto simp: list_all_iff)
  moreover have "list_all (\<lambda>x. fst x \<noteq> []) model_table" by code_simp
  ultimately show "ms_id m \<noteq> []" by (auto simp: list_all_iff)
qed

definition subs_named :: "chat_ctx \<Rightarrow> bool" where
  "subs_named cx \<longleftrightarrow> (\<forall>m \<in> set (cx_subs cx). ms_id m \<noteq> [])"

lemma resolve_pin_named:
  assumes "resolve_pin (cx_subs cx) m cap ch = Inr ts" "t \<in> set ts" "subs_named cx"
  shows "pt_model t \<noteq> []"
proof -
  obtain ms where "ms \<in> set (pin_matches (cx_subs cx) (py_strip m))" "pt_model t = ms_id ms"
    using assms(1,2) by (auto simp: resolve_pin_def Let_def order_models_def split: if_splits)
  then show ?thesis using pin_matches_sub[of ms] all_models_named[of ms] assms(3) by (auto simp: subs_named_def)
qed

text \<open>What a step of a request may be.\<close>

definition step_fits :: "chat_ctx \<Rightarrow> chat_request \<Rightarrow> string list \<Rightarrow> Step \<Rightarrow> bool" where
  "step_fits cx q ch st \<longleftrightarrow> st_provider st \<in> set ch \<and>
     (cr_paid_only q \<longrightarrow> st_tier st \<in> {None, Some ''paid''}) \<and>
     (case pinned_name q of
        None \<Rightarrow> (cr_paid_only q \<or> st_tier st = None) \<and>
                st_provider st \<in> set (free_first_walk (cr_capability q) ch (cr_paid_only q))
      | Some m \<Rightarrow> (\<exists>ts. \<exists>t \<in> set ts. resolve_pin (cx_subs cx) m (cr_capability q) ch = Inr ts \<and>
                    st_provider st = pt_provider t \<and> st_model st = Some (pt_model t) \<and> pt_model t \<noteq> []))"

lemma planned_steps_fit:
  assumes "planned_steps cx q tp ch est storm obs = Inr steps" "st \<in> set steps" "subs_named cx"
  shows "step_fits cx q ch st"
proof (cases "pinned_name q")
  case None
  let ?c = "filter (tool_allowed q tp) (shape_chain (cx_at cx) storm q ch)"
  have "steps = map plain_step (size_filtered (cx_wall cx) obs ?c est)"
    using assms(1) None by (simp add: planned_steps_def)
  with assms(2) obtain p where p: "st = plain_step p" "p \<in> set (size_filtered (cx_wall cx) obs ?c est)" by auto
  then have "p \<in> set (free_first_walk (cr_capability q) ch (cr_paid_only q))"
    using size_filtered_sub shape_chain_sub by fastforce
  then show ?thesis using p(1) None set_free_first_walk by (auto simp: step_fits_def plain_step_def)
next
  case (Some m)
  obtain ts where ts: "resolve_pin (cx_subs cx) m (cr_capability q) ch = Inr ts"
    using assms(1) Some by (cases "resolve_pin (cx_subs cx) m (cr_capability q) ch") (auto simp: planned_steps_def)
  obtain ts' where "steps = pinned_steps ts' (cr_paid_only q)" "set ts' \<subseteq> set ts"
    using assms(1) Some ts by (auto simp: planned_steps_def Let_def split: if_splits)
  then obtain t where "t \<in> set ts" "st_provider st = pt_provider t" "st_model st = Some (pt_model t)"
      "cr_paid_only q \<longrightarrow> st_tier st = Some ''paid''"
    using assms(2) by (auto simp: pinned_steps_def plain_step_def split: if_splits)
  then show ?thesis using resolve_pin_chain[OF ts] resolve_pin_named[OF ts _ assms(3)] ts Some
    by (auto simp: step_fits_def)
qed

lemma with_affinity_fits:
  assumes fit: "\<And>st. st \<in> set steps \<Longrightarrow> step_fits cx q ch st" and "st \<in> set (with_affinity (cr_paid_only q) target steps)"
  shows "step_fits cx q ch st"
proof (cases "st \<in> set steps")
  case False
  then obtain s ss t where s: "steps = s # ss" "target = Some t"
    and leg: "st_provider st = at_provider t" "st_model st = Some (at_model t)"
      "st_tier st = (if cr_paid_only q then Some ''paid'' else None)"
      "list_ex (\<lambda>s'. st_provider s' = at_provider t \<and> (st_model s' \<in> {None, Some []} \<or> st_model s' = Some (at_model t))) steps"
    using assms(2) by (auto simp: with_affinity_def split: list.splits option.splits if_splits)
  then obtain s' where s': "s' \<in> set steps" "st_provider s' = at_provider t"
      "st_model s' \<in> {None, Some []} \<or> st_model s' = Some (at_model t)" by (auto simp: list_ex_iff)
  show ?thesis using fit[OF s'(1)] s' leg by (auto simp: step_fits_def split: option.splits)
qed (rule fit)

text \<open>A request ends before the walk, with no attempt made, or is the walk over fitting steps.\<close>

lemma run_chat_cases:
  assumes "run_chat cx env q s cache = (x, w)" "subs_named cx"
  obtains (early) "ws_log w = []" "ws_attempts w = 0" "x \<noteq> ContentFailed"
      "\<And>out. x = Answered out \<Longrightarrow> cr_tools q = [] \<and> (\<exists>a. out = cached_outcome a \<and>
         fst (cache_get (cx_sha cx) (cx_wall cx) (request_of q) cache) = Some a)"
  | (walk) scope ch est steps s' c' where "scope_for (cr_capability q) = Inr scope" "chain_for (cr_capability q) = Inr ch"
      "\<And>st. st \<in> set steps \<Longrightarrow> step_fits cx q ch st"
      "walk_steps cx q scope est (attempt_budget (map st_provider steps)) (finish_by_of cx q) env steps (start_walk s' c') = (x, w)"
proof -
  let ?tp = "if cr_tools q = [] then Inr None else tool_model_provider (cr_model q)"
  let ?cg = "if cr_tools q = [] then cache_get (cx_sha cx) (cx_wall cx) (request_of q) cache else (None, cache)"
  obtain hit c1 where cg: "?cg = (hit, c1)" by fastforce
  show thesis
  proof (cases "(\<exists>e. ?tp = Inl e) \<or> (\<exists>e. scope_for (cr_capability q) = Inl e) \<or> (\<exists>a. hit = Some a) \<or>
      (\<exists>e. chain_for (cr_capability q) = Inl e)")
    case True
    then show thesis using assms(1) cg
      by (intro early) (auto simp: run_chat_def start_walk_def split: sum.splits option.splits if_splits)
  next
    case False
    then obtain tp scope ch where p: "?tp = Inr tp" "scope_for (cr_capability q) = Inr scope" "hit = None"
      "chain_for (cr_capability q) = Inr ch"
      by (cases ?tp; cases "scope_for (cr_capability q)"; cases hit; cases "chain_for (cr_capability q)") auto
    let ?est = "estimate_prompt_tokens (cx_fr cx) (cr_messages q)"
    obtain storming circ where st: "providers_in_empty_storm (cx_mono cx) EMPTY_STORM_MIN_KEYS (b_circuit (sv_broker s)) = (storming, circ)"
      by fastforce
    let ?plan = "planned_steps cx q tp ch ?est (''deepseek'' \<in> set storming) (sv_obs s)"
    show thesis
    proof (cases ?plan)
      case (Inl e)
      then show thesis using assms(1) cg p st
        by (intro early) (auto simp: run_chat_def start_walk_def planned_steps_def Let_def split: sum.splits option.splits if_splits)
    next
      case (Inr steps)
      define s1 where "s1 = s\<lparr>sv_broker := (sv_broker s)\<lparr>b_circuit :=
          (if pinned_name q = None \<and> \<not> defers_deepseek (cx_at cx) q then circ else b_circuit (sv_broker s))\<rparr>\<rparr>"
      have rw: "run_walk cx env q scope (?est + tool_tokens (cx_fr cx) (cr_tools q)) steps s1 c1 = (x, w)"
        using assms(1) cg p st Inr by (simp add: run_chat_def Let_def s1_def)
      obtain steps' s2 where wr: "with_route cx q steps s1 = (steps', s2)" by fastforce
      then have "\<exists>t. steps' = with_affinity (cr_paid_only q) t steps"
        by (cases steps) (auto simp: with_route_def with_affinity_def split: prod.splits)
      then have fit: "step_fits cx q ch st" if "st \<in> set steps'" for st
        using that with_affinity_fits[of steps cx q ch st] planned_steps_fit[OF Inr _ assms(2)] by blast
      show thesis
        by (rule walk[OF p(2,4) fit, of steps' "?est + tool_tokens (cx_fr cx) (cr_tools q)" s2 c1])
           (use rw wr in \<open>simp_all add: run_walk_def\<close>)
    qed
  qed
qed

text \<open>
  C2. A chat request is bounded: it starts at most as many calls as the key allowances of its
  steps add up to and never more than a hundred, and every call it starts would run into
  its own timeout within 24 minutes of the request's start, before the job queue's
  25-minute sweep could hand the job to a second worker.
\<close>

theorem chat_walk_is_bounded:
  assumes "run_chat cx env q s cache = (x, w)" "subs_named cx" "\<And>i t. keys_ok (sv_broker (ie_world (env i) t))"
  shows "length (ws_log w) \<le> MAX_ATTEMPTS_ABS \<and>
    (\<forall>e \<in> set (ws_log w). we_started e + we_timeout e \<le> cx_start cx + 24 * 60 \<and>
       we_started e + we_timeout e < cx_start cx + STALE_RUNNING_S)"
  using assms(1,2)
proof (cases rule: run_chat_cases)
  case (walk scope ch est steps s' c')
  have inv: "chat_inv q scope (finish_by_of cx q) (set steps) (attempt_budget (map st_provider steps)) w"
    using walk_steps_inv[OF assms(3) walk(4) start_inv(1) subset_refl start_inv(2)] by blast
  have "finish_by_of cx q \<le> cx_start cx + 24 * 60" "attempt_budget (map st_provider steps) \<le> MAX_ATTEMPTS_ABS"
    by (simp_all add: finish_by_of_def DEEP_FINISH_BY_S_def DEEP_WALL_DEADLINE_S_def DEEP_CALL_TIMEOUT_S_def
        CHAT_WALL_DEADLINE_S_def attempt_budget_def)
  then show ?thesis using inv by (fastforce simp: chat_inv_def event_ok_def STALE_RUNNING_S_def)
qed simp

text \<open>
  C1. Which keys and models a chat request may use. Every call goes to a live, active key of a
  provider of the capability's chain that has the capability's scope. A paid-only retry
  uses paid keys only. Without a pin, a capability that is served free-first never reaches a
  paid provider unless the retry is paid-only, and once a call was refused by a spent
  project or global budget, every later call is on a free-tier key. With a pin, every call
  uses exactly a model the pin resolves to.
\<close>

theorem chat_walk_uses_allowed_keys:
  assumes "run_chat cx env q s cache = (x, w)" "subs_named cx" "\<And>i t. keys_ok (sv_broker (ie_world (env i) t))"
  shows "(\<forall>e \<in> set (ws_log w). k_is_active (we_key e) \<and> k_is_alive (we_key e) \<and>
       (\<exists>scope ch. scope_for (cr_capability q) = Inr scope \<and> scope \<in> set (k_scopes (we_key e)) \<and>
          chain_for (cr_capability q) = Inr ch \<and> k_provider (we_key e) \<in> set ch \<and>
          (\<forall>m. pinned_name q = Some m \<longrightarrow> (\<exists>ts t. resolve_pin (cx_subs cx) m (cr_capability q) ch = Inr ts \<and> t \<in> set ts \<and>
             k_provider (we_key e) = pt_provider t \<and> we_model e = pt_model t))) \<and>
       (cr_paid_only q \<longrightarrow> k_tier (we_key e) = ''paid'') \<and>
       (pinned_name q = None \<and> \<not> cr_paid_only q \<and> cr_capability q \<in> set FREE_WALK_CAPABILITIES
          \<longrightarrow> k_provider (we_key e) \<notin> set paid_providers)) \<and>
    (pinned_name q = None \<and> \<not> cr_paid_only q \<longrightarrow> free_after_cap (ws_log w))"
  using assms(1,2)
proof (cases rule: run_chat_cases)
  case early
  then show ?thesis by (simp add: free_after_cap_def)
next
  case (walk scope ch est steps s' c')
  have inv: "chat_inv q scope (finish_by_of cx q) (set steps) (attempt_budget (map st_provider steps)) w"
    using walk_steps_inv[OF assms(3) walk(4) start_inv(1) subset_refl start_inv(2)] by blast
  have "free_after_cap (ws_log w)" if "pinned_name q = None" "\<not> cr_paid_only q"
    using inv walk(3) that by (fastforce simp: chat_inv_def loose_def step_fits_def)
  moreover have "k_is_active (we_key e) \<and> k_is_alive (we_key e) \<and> scope \<in> set (k_scopes (we_key e)) \<and>
      k_provider (we_key e) \<in> set ch \<and>
      (\<forall>m. pinned_name q = Some m \<longrightarrow> (\<exists>ts t. resolve_pin (cx_subs cx) m (cr_capability q) ch = Inr ts \<and> t \<in> set ts \<and>
             k_provider (we_key e) = pt_provider t \<and> we_model e = pt_model t)) \<and>
      (cr_paid_only q \<longrightarrow> k_tier (we_key e) = ''paid'') \<and>
      (pinned_name q = None \<and> \<not> cr_paid_only q \<and> cr_capability q \<in> set FREE_WALK_CAPABILITIES
          \<longrightarrow> k_provider (we_key e) \<notin> set paid_providers)" if mem: "e \<in> set (ws_log w)" for e
  proof -
    have ok: "event_ok q scope (finish_by_of cx q) (set steps) e" "tier_kept q e" using inv mem by (auto simp: chat_inv_def)
    then have fit: "step_fits cx q ch (we_step e)" using walk(3) by (simp add: event_ok_def)
    have pin: "\<exists>ts t. resolve_pin (cx_subs cx) m (cr_capability q) ch = Inr ts \<and> t \<in> set ts \<and>
        k_provider (we_key e) = pt_provider t \<and> we_model e = pt_model t" if "pinned_name q = Some m" for m
      using fit ok(1) that by (auto simp: step_fits_def event_ok_def)
    have free: "k_provider (we_key e) \<notin> set paid_providers"
      if "pinned_name q = None" "\<not> cr_paid_only q" "cr_capability q \<in> set FREE_WALK_CAPABILITIES"
      using fit ok(1) that free_walk_no_paid[of "cr_capability q" ch] by (auto simp: step_fits_def event_ok_def)
    have "cr_paid_only q \<longrightarrow> k_tier (we_key e) = ''paid''"
      using fit ok(2) by (auto simp: step_fits_def tier_kept_def)
    then show ?thesis using ok(1) fit pin free by (simp add: event_ok_def step_fits_def)
  qed
  ultimately show ?thesis using walk(1,2) by simp
qed


end
