(* ===== verification/Chat_Demo.thy ===== *)
theory Chat_Demo
  imports Chat_Facts
begin

text \<open>
  A concrete chat request, evaluated: one paid deepseek key, which answers after the
  providers before it in the chain have no key.
\<close>

definition demo_chat :: chat_request where
  "demo_chat = \<lparr>cr_project = new_project 1 ''p'' [''llm:chat''], cr_capability = ''chat:sales'',
     cr_messages = [[(''role'', JStr ''user''), (''content'', JStr ''hello'')]], cr_model = None, cr_max_tokens = 100,
     cr_temperature = 1, cr_response_format = JNull, cr_workflow = None, cr_paid_only = False, cr_tools = [],
     cr_tool_choice = JNull\<rparr>"

definition demo_cx :: chat_ctx where
  "demo_cx = \<lparr>cx_subs = [], cx_sha = (\<lambda>_. ''h''), cx_fr = (\<lambda>_. ''1.0''),
     cx_prices = \<lparr>pm_cost = (\<lambda>_ _ _ _ _. Some (1 / 100)), pm_info = (\<lambda>_. None)\<rparr>, cx_schema = demo_schema_lib,
     cx_at = midnight (2026, 10, 15), cx_vision_timeout = 100, cx_digest = id, cx_py_repr = (\<lambda>_. []), cx_ttl = 7200,
     cx_shared = demo_shared, cx_mono = 500, cx_wall = 1000000, cx_start = 500\<rparr>"

definition demo_iter :: "call_result \<Rightarrow> nat \<Rightarrow> iter_env" where
  "demo_iter answer i = \<lparr>ie_stop = False, ie_now = 500,
     ie_world = (\<lambda>s. if keys_ok (sv_broker s) then s else demo_service), ie_pick = demo_env, ie_cooled_fails = False,
     ie_cooled_now = 1000000, ie_price_at = midnight (2026, 10, 15),
     ie_attempt = (\<lambda>_ _. demo_attempt_env (\<lambda>_. answer)), ie_wall = 1000000\<rparr>"

definition demo_run :: "call_result \<Rightarrow> chat_end \<times> walk_state" where
  "demo_run answer = run_chat demo_cx (demo_iter answer) demo_chat demo_service []"

lemma demo_run_answers:
  "(case demo_run (Returned (JStr ''hi'') demo_meta) of
      (Answered out, w) \<Rightarrow> co_text out = JStr ''hi'' \<and> length (ws_log w) = 1 | _ \<Rightarrow> False)"
  by code_simp

lemma demo_hypotheses:
  "subs_named demo_cx" "keys_ok (sv_broker (ie_world (demo_iter answer i) t))"
  by (simp_all add: subs_named_def demo_cx_def demo_iter_def demo_service_def keys_ok_def broker_init_def)

lemma demo_run_is:
  obtains out w e where "run_chat demo_cx (demo_iter (Returned (JStr ''hi'') demo_meta)) demo_chat demo_service [] = (Answered out, w)"
    "co_text out = JStr ''hi''" "ws_log w = [e]" "demo_run (Returned (JStr ''hi'') demo_meta) = (Answered out, w)"
proof -
  obtain x w where run: "demo_run (Returned (JStr ''hi'') demo_meta) = (x, w)" by fastforce
  with demo_run_answers obtain out where "x = Answered out" "co_text out = JStr ''hi''" "length (ws_log w) = 1"
    by (auto split: chat_end.splits)
  moreover from this(3) obtain e where "ws_log w = [e]" by (auto simp: length_Suc_conv)
  ultimately show ?thesis using that run by (simp add: demo_run_def)
qed

theorem chat_walk_is_bounded_witness:
  "\<exists>e. ws_log (snd (demo_run (Returned (JStr ''hi'') demo_meta))) = [e] \<and> we_started e + we_timeout e \<le> 500 + 24 * 60"
proof -
  obtain out w e where r: "run_chat demo_cx (demo_iter (Returned (JStr ''hi'') demo_meta)) demo_chat demo_service [] = (Answered out, w)"
    "ws_log w = [e]" "demo_run (Returned (JStr ''hi'') demo_meta) = (Answered out, w)" by (rule demo_run_is)
  show ?thesis using chat_walk_is_bounded[OF r(1) demo_hypotheses] r(2,3) by (simp add: demo_cx_def)
qed

theorem chat_walk_uses_allowed_keys_witness:
  "\<exists>e ch. ws_log (snd (demo_run (Returned (JStr ''hi'') demo_meta))) = [e] \<and> k_is_alive (we_key e) \<and>
     chain_for ''chat:sales'' = Inr ch \<and> k_provider (we_key e) \<in> set ch"
proof -
  obtain out w e where r: "run_chat demo_cx (demo_iter (Returned (JStr ''hi'') demo_meta)) demo_chat demo_service [] = (Answered out, w)"
    "ws_log w = [e]" "demo_run (Returned (JStr ''hi'') demo_meta) = (Answered out, w)" by (rule demo_run_is)
  have "cr_capability demo_chat = ''chat:sales''" by (simp add: demo_chat_def)
  then show ?thesis using chat_walk_uses_allowed_keys[OF r(1) demo_hypotheses] r(2,3) by auto
qed


end
