(* ===== verification/Service_Walks.thy ===== *)
theory Service_Walks
  imports Chat_Facts
begin

text \<open>
  The other walks of \<^verbatim>\<open>services/llm_service.py\<close>: embeddings (one provider, its keys in turn),
  typed decisions (paid OpenRouter keys, with the free fallback model on the same key) and
  transcription (a chain of providers under a finish-by deadline). As in the chat walk,
  \<open>env i\<close> is what the i-th round meets and the state keeps a log of the calls started.
\<close>

section \<open>Rounds\<close>

text \<open>
  A \<^verbatim>\<open>for _ in range(n)\<close> loop whose body returns, breaks or continues.
\<close>

datatype 'r round_end = Exit 'r | Break | Continue

fun rounds :: "nat \<Rightarrow> ('w \<Rightarrow> 'r round_end \<times> 'w) \<Rightarrow> 'w \<Rightarrow> 'r option \<times> 'w" where
  "rounds 0 body w = (None, w)"
| "rounds (Suc n) body w = (case body w of
      (Exit r, w1) \<Rightarrow> (Some r, w1)
    | (Break, w1) \<Rightarrow> (None, w1)
    | (Continue, w1) \<Rightarrow> rounds n body w1)"

record call_env =
  ce_world :: "service \<Rightarrow> service"
  ce_now :: secs
  ce_pick :: pick_env
  ce_price_at :: datetime
  ce_attempt :: "ApiKeyRow \<Rightarrow> string \<Rightarrow> attempt_env"

record call_event =
  cv_key :: ApiKeyRow
  cv_model :: string
  cv_started :: secs
  cv_reserved :: usd
  cv_penalize :: bool
  cv_flow :: "flow option"

record call_walk =
  cw_i :: nat
  cw_service :: service
  cw_seen :: bool
  cw_error :: "string option"
  cw_log :: "call_event list"

definition start_calls :: "service \<Rightarrow> call_walk" where
  "start_calls s = \<lparr>cw_i = 0, cw_service = s, cw_seen = False, cw_error = None, cw_log = []\<rparr>"

datatype 'o walk_end = Served 'o | NoKey | AllFailed string | BadPin pin_error | Broken chat_exception

definition failure_text :: "AttemptResult \<Rightarrow> string" where
  "failure_text res = (case ar_error res of
      Some (CapError e) \<Rightarrow> cap_message (cg_window e)
    | Some (ProviderError e) \<Rightarrow> ex_msg e
    | None \<Rightarrow> ''attempt failed'')"

text \<open>The window a failed call names; \<^verbatim>\<open>getattr(error, 'window', 'daily')\<close>.\<close>

definition error_window :: "AttemptResult \<Rightarrow> string" where
  "error_window res = (case ar_error res of Some (CapError e) \<Rightarrow> cg_window e | _ \<Rightarrow> ''daily'')"

definition own_or :: "string option \<Rightarrow> string \<Rightarrow> string" where
  "own_or s d = (case s of Some (c # cs) \<Rightarrow> c # cs | _ \<Rightarrow> d)"

text \<open>A pick in the current round, and an attempt that leaves a log entry.\<close>

definition next_key ::
  "call_env \<Rightarrow> string \<Rightarrow> string \<Rightarrow> string option \<Rightarrow> ProjectRow \<Rightarrow> string list \<Rightarrow> call_walk
   \<Rightarrow> (json + ApiKeyRow option) \<times> call_walk" where
  "next_key ce provider scope tier project models w =
     (let s0 = ce_world ce (cw_service w) in
      case pick_and_reserve (ce_pick ce) provider scope tier (Some (p_id project)) models None (sv_broker s0) of
        (picked, b) \<Rightarrow> (picked, w\<lparr>cw_i := Suc (cw_i w), cw_service := s0\<lparr>sv_broker := b\<rparr>\<rparr>))"

definition event_of :: "call_env \<Rightarrow> Attempt \<Rightarrow> attempt_end \<Rightarrow> call_event" where
  "event_of ce a r = \<lparr>cv_key = ap_key a, cv_model = ap_model a, cv_started = ce_now ce,
     cv_reserved = (if ap_reserve a then ap_estimated_cost a else 0), cv_penalize = ap_penalize a,
     cv_flow = (case r of Finished res \<Rightarrow> Some (ar_flow res) | _ \<Rightarrow> None)\<rparr>"

definition attempt_on :: "call_env \<Rightarrow> Attempt \<Rightarrow> call_walk \<Rightarrow> attempt_end \<times> call_walk" where
  "attempt_on ce a w =
     (case run_attempt (ce_attempt ce (ap_key a) (ap_model a)) a (cw_service w) of
        (r, s1) \<Rightarrow> (r, w\<lparr>cw_service := s1, cw_log := cw_log w @ [event_of ce a r]\<rparr>))"

definition new_attempt :: "ApiKeyRow \<Rightarrow> ProjectRow \<Rightarrow> string \<Rightarrow> string \<Rightarrow> string \<Rightarrow> string option \<Rightarrow> Attempt" where
  "new_attempt key project provider model capability workflow =
     \<lparr>ap_key = key, ap_project = project, ap_provider = provider, ap_model = model, ap_capability = capability,
      ap_workflow = workflow, ap_estimated_cost = 0, ap_est_tokens = 0, ap_check = None, ap_cap_flow = NEXT_PROVIDER,
      ap_reserve = True, ap_penalize = True, ap_pinned_model = None, ap_note_affinity = True\<rparr>"

section \<open>Embeddings\<close>

record EmbedOutcome =
  eo_embeddings :: json
  eo_provider :: string
  eo_model :: string
  eo_tokens_in :: int
  eo_cost_usd :: usd
  eo_latency_ms :: "int option"
  eo_key_label :: string
  eo_request_id :: int
  eo_model_served :: "string option"

record embed_request =
  er_project :: ProjectRow
  er_provider :: string
  er_inputs :: "string list"
  er_model :: "string option"
  er_workflow :: "string option"

definition embed_outcome :: "embed_request \<Rightarrow> string \<Rightarrow> ApiKeyRow \<Rightarrow> AttemptResult \<Rightarrow> call_meta \<Rightarrow> EmbedOutcome" where
  "embed_outcome q model key res meta =
     \<lparr>eo_embeddings = ar_payload res, eo_provider = er_provider q, eo_model = model, eo_tokens_in = cm_tokens_in meta,
      eo_cost_usd = cm_cost_usd meta, eo_latency_ms = cm_latency_ms meta, eo_key_label = k_label key,
      eo_request_id = opt_or (ar_usage_id res) 0, eo_model_served = cm_model_served meta\<rparr>"

text \<open>The first target of a pin; \<open>resolve_pin\<close> never returns an empty list.\<close>

definition pinned_model_of :: "ModelSpec list \<Rightarrow> string \<Rightarrow> string \<Rightarrow> string \<Rightarrow> pin_error + string" where
  "pinned_model_of subs model capability provider =
     map_sum id (\<lambda>ts. pt_model (hd ts)) (resolve_pin subs model capability [provider])"

definition embed_model :: "ModelSpec list \<Rightarrow> embed_request \<Rightarrow> pin_error + string" where
  "embed_model subs q = (case er_model q of
      Some (c # cs) \<Rightarrow> pinned_model_of subs (c # cs) ''embedding'' (er_provider q)
    | _ \<Rightarrow> Inr (own_or (model_for (er_provider q) ''embedding'') ''voyage/voyage-4''))"

definition embed_attempt :: "price_map \<Rightarrow> datetime \<Rightarrow> embed_request \<Rightarrow> string \<Rightarrow> ApiKeyRow \<Rightarrow> Attempt" where
  "embed_attempt pm at_time q model key =
     (new_attempt key (er_project q) (er_provider q) model ''embedding'' (er_workflow q))
       \<lparr>ap_estimated_cost := (if k_tier key = ''free'' then 0
          else estimate_llm_cost pm at_time model (int (sum_list (map length (er_inputs q))) div 4) 0 0 0 0),
        ap_cap_flow := NEXT_KEY, ap_pinned_model := er_model q\<rparr>"

definition after_embed ::
  "embed_request \<Rightarrow> string \<Rightarrow> ApiKeyRow \<Rightarrow> attempt_end \<times> call_walk \<Rightarrow> EmbedOutcome walk_end round_end \<times> call_walk" where
  "after_embed q model key r = (case r of
      (Finished res, w) \<Rightarrow>
        (case ar_flow res of
           SUCCESS \<Rightarrow> (Exit (case ar_meta res of Some m \<Rightarrow> Served (embed_outcome q model key res m) | None \<Rightarrow> Broken (AttemptFailed (Finished res))), w)
         | BUDGET_EXHAUSTED \<Rightarrow> (Exit (AllFailed (failure_text res)), w\<lparr>cw_error := Some (failure_text res)\<rparr>)
         | NEXT_PROVIDER \<Rightarrow> (Break, w\<lparr>cw_error := Some (failure_text res)\<rparr>)
         | NEXT_KEY \<Rightarrow> (Continue, w\<lparr>cw_error := Some (failure_text res)\<rparr>))
    | (e, w) \<Rightarrow> (Exit (Broken (AttemptFailed e)), w))"

definition embed_round ::
  "price_map \<Rightarrow> (nat \<Rightarrow> call_env) \<Rightarrow> embed_request \<Rightarrow> string \<Rightarrow> call_walk \<Rightarrow> EmbedOutcome walk_end round_end \<times> call_walk" where
  "embed_round pm env q model w =
     (let ce = env (cw_i w) in
      case scope_for ''embedding'' of
        Inl e \<Rightarrow> (Exit (Broken (ChainFailed e)), w)
      | Inr scope \<Rightarrow>
        (case next_key ce (er_provider q) scope None (er_project q) [model] w of
           (Inl v, w1) \<Rightarrow> (Exit (Broken (PickFailed v)), w1)
         | (Inr None, w1) \<Rightarrow> (Break, w1)
         | (Inr (Some key), w1) \<Rightarrow>
             after_embed q model key (attempt_on ce (embed_attempt pm (ce_price_at ce) q model key) (w1\<lparr>cw_seen := True\<rparr>))))"

definition walk_verdict :: "string \<Rightarrow> 'o walk_end option \<times> call_walk \<Rightarrow> 'o walk_end \<times> call_walk" where
  "walk_verdict otherwise r = (case r of
      (Some e, w) \<Rightarrow> (e, w)
    | (None, w) \<Rightarrow> (if \<not> cw_seen w then NoKey else AllFailed (own_or (cw_error w) otherwise), w))"

definition run_embed ::
  "ModelSpec list \<Rightarrow> price_map \<Rightarrow> (nat \<Rightarrow> call_env) \<Rightarrow> embed_request \<Rightarrow> service \<Rightarrow> EmbedOutcome walk_end \<times> call_walk" where
  "run_embed subs pm env q s = (case embed_model subs q of
      Inl e \<Rightarrow> (BadPin e, start_calls s)
    | Inr model \<Rightarrow> walk_verdict ''all keys failed''
        (rounds (max_keys_for (er_provider q)) (embed_round pm env q model) (start_calls s)))"

section \<open>Typed decisions\<close>

definition DECISION_FALLBACK_MODEL :: string where
  "DECISION_FALLBACK_MODEL = ''openrouter/inception/mercury-decide:free''"

definition JEV_INPUT_USD_PER_TOKEN :: usd where
  "JEV_INPUT_USD_PER_TOKEN = 42 / 1000 / 1000000"

definition QUESTION_TYPES :: "string list" where
  "QUESTION_TYPES = [''choice'', ''score'', ''noul'']"

text \<open>
  \<^verbatim>\<open>UnhashableType\<close> is the \<^verbatim>\<open>TypeError\<close> of testing a list or an object for membership in a frozenset.
\<close>

datatype question_error = NoQuestions | BadType string | UnhashableType string | BadScore string | BadChoice string | BadNoul string

definition question_problem :: "string \<Rightarrow> json \<Rightarrow> question_error option" where
  "question_problem name q =
     (case json_item q ''type'' of
        Some (JStr t) \<Rightarrow>
          if t \<notin> set QUESTION_TYPES then Some (BadType name)
          else if t = ''score'' then
            (case json_item q ''criteria'' of
               Some (JList ls) \<Rightarrow> if 2 \<le> length ls \<and> length ls \<le> 10 then None else Some (BadScore name)
             | _ \<Rightarrow> Some (BadScore name))
          else if t = ''choice'' then
            (case json_item q ''criteria'' of
               Some (JObj os) \<Rightarrow> if 1 \<le> length os \<and> length os \<le> 255 then None else Some (BadChoice name)
             | _ \<Rightarrow> Some (BadChoice name))
          else
            (case json_item q ''criteria'' of
               Some (JObj os) \<Rightarrow> if set (map fst os) = {''true'', ''false''} then None else Some (BadNoul name)
             | _ \<Rightarrow> Some (BadNoul name))
      | Some (JList _) \<Rightarrow> Some (UnhashableType name)
      | Some (JObj _) \<Rightarrow> Some (UnhashableType name)
      | _ \<Rightarrow> Some (BadType name))"

definition validate_questions :: "(string \<times> json) list \<Rightarrow> question_error option" where
  "validate_questions questions =
     (if questions = [] then Some NoQuestions
      else Option.bind (List.find (\<lambda>(n, q). question_problem n q \<noteq> None) questions) (\<lambda>(n, q). question_problem n q))"

definition estimate_tokens :: "(json \<Rightarrow> string) \<Rightarrow> string \<Rightarrow> (string \<times> json) list \<Rightarrow> int" where
  "estimate_tokens rp state questions = int (length state + length (rp (JObj questions))) div 4 + 1"

record DecisionOutcome =
  do_answers :: json
  do_model :: string
  do_tokens_in :: int
  do_tokens_out :: int
  do_cost_usd :: usd
  do_latency_ms :: "int option"
  do_key_label :: string
  do_request_id :: int
  do_model_served :: "string option"

record decision_request =
  dr_project :: ProjectRow
  dr_state :: string
  dr_questions :: "(string \<times> json) list"
  dr_model :: "string option"
  dr_workflow :: "string option"

definition decision_outcome :: "string \<Rightarrow> ApiKeyRow \<Rightarrow> AttemptResult \<Rightarrow> call_meta \<Rightarrow> DecisionOutcome" where
  "decision_outcome model key res meta =
     \<lparr>do_answers = ar_payload res, do_model = model, do_tokens_in = cm_tokens_in meta,
      do_tokens_out = cm_tokens_out meta, do_cost_usd = cm_cost_usd meta, do_latency_ms = cm_latency_ms meta,
      do_key_label = k_label key, do_request_id = opt_or (ar_usage_id res) 0, do_model_served = cm_model_served meta\<rparr>"

definition decision_model :: "ModelSpec list \<Rightarrow> decision_request \<Rightarrow> pin_error + string" where
  "decision_model subs q = (case dr_model q of
      Some (c # cs) \<Rightarrow> pinned_model_of subs (c # cs) ''decision'' ''openrouter''
    | _ \<Rightarrow> Inr (own_or (model_for ''openrouter'' ''decision'') ''openrouter/typesafe/jev-1.13''))"

definition uses_fallback :: "decision_request \<Rightarrow> string \<Rightarrow> bool" where
  "uses_fallback q model \<longleftrightarrow> dr_model q = None \<and> model \<noteq> DECISION_FALLBACK_MODEL"

definition decision_attempt :: "decision_request \<Rightarrow> usd \<Rightarrow> string \<Rightarrow> ApiKeyRow \<Rightarrow> Attempt" where
  "decision_attempt q estimated_cost model key =
     (new_attempt key (dr_project q) ''openrouter'' model ''decision'' (dr_workflow q))
       \<lparr>ap_estimated_cost := estimated_cost, ap_cap_flow := NEXT_KEY, ap_pinned_model := dr_model q\<rparr>"

definition fallback_attempt :: "decision_request \<Rightarrow> ApiKeyRow \<Rightarrow> Attempt" where
  "fallback_attempt q key =
     (new_attempt key (dr_project q) ''openrouter'' DECISION_FALLBACK_MODEL ''decision'' (dr_workflow q))
       \<lparr>ap_reserve := False, ap_penalize := False\<rparr>"

text \<open>
  \<open>Inl\<close>: an exception left the attempt. Otherwise the result that counts, and the model it
  came from.
\<close>

definition with_fallback ::
  "call_env \<Rightarrow> decision_request \<Rightarrow> string \<Rightarrow> ApiKeyRow \<Rightarrow> AttemptResult \<Rightarrow> call_walk
   \<Rightarrow> (attempt_end + AttemptResult \<times> string) \<times> call_walk" where
  "with_fallback ce q model key res w =
     (if ar_flow res = SUCCESS then (Inr (res, model), w)
      else let w1 = w\<lparr>cw_error := Some (failure_text res)\<rparr> in
           if \<not> uses_fallback q model then (Inr (res, model), w1)
           else case attempt_on ce (fallback_attempt q key) w1 of
                  (Finished fb, w2) \<Rightarrow>
                    if ar_flow fb = SUCCESS then (Inr (fb, DECISION_FALLBACK_MODEL), w2)
                    else (Inr (res, model), w2\<lparr>cw_error := Some (failure_text fb)\<rparr>)
                | (e, w2) \<Rightarrow> (Inl e, w2))"

definition after_decision ::
  "ApiKeyRow \<Rightarrow> (attempt_end + AttemptResult \<times> string) \<times> call_walk \<Rightarrow> DecisionOutcome walk_end round_end \<times> call_walk" where
  "after_decision key r = (case r of
      (Inl e, w) \<Rightarrow> (Exit (Broken (AttemptFailed e)), w)
    | (Inr (res, used_model), w) \<Rightarrow>
        (case ar_flow res of
           SUCCESS \<Rightarrow> (Exit (case ar_meta res of Some m \<Rightarrow> Served (decision_outcome used_model key res m) | None \<Rightarrow> Broken (AttemptFailed (Finished res))), w)
         | BUDGET_EXHAUSTED \<Rightarrow> (Exit (AllFailed (cap_message (error_window res))), w)
         | _ \<Rightarrow> (Continue, w)))"

definition decision_round ::
  "(nat \<Rightarrow> call_env) \<Rightarrow> decision_request \<Rightarrow> usd \<Rightarrow> string \<Rightarrow> call_walk \<Rightarrow> DecisionOutcome walk_end round_end \<times> call_walk" where
  "decision_round env q estimated_cost model w =
     (let ce = env (cw_i w) in
      case scope_for ''decision'' of
        Inl e \<Rightarrow> (Exit (Broken (ChainFailed e)), w)
      | Inr scope \<Rightarrow>
        (case next_key ce ''openrouter'' scope (Some ''paid'') (dr_project q) [] w of
           (Inl v, w1) \<Rightarrow> (Exit (Broken (PickFailed v)), w1)
         | (Inr None, w1) \<Rightarrow> (Break, w1)
         | (Inr (Some key), w1) \<Rightarrow>
             (case attempt_on ce (decision_attempt q estimated_cost model key) (w1\<lparr>cw_seen := True\<rparr>) of
                (Finished res, w2) \<Rightarrow> after_decision key (with_fallback ce q model key res w2)
              | (e, w2) \<Rightarrow> (Exit (Broken (AttemptFailed e)), w2))))"

definition run_decision ::
  "ModelSpec list \<Rightarrow> (json \<Rightarrow> string) \<Rightarrow> (nat \<Rightarrow> call_env) \<Rightarrow> decision_request \<Rightarrow> service
   \<Rightarrow> DecisionOutcome walk_end \<times> call_walk" where
  "run_decision subs rp env q s = (case decision_model subs q of
      Inl e \<Rightarrow> (BadPin e, start_calls s)
    | Inr model \<Rightarrow> walk_verdict ''all keys failed''
        (rounds (max_keys_for ''openrouter'')
           (decision_round env q
              (of_int (estimate_tokens rp (dr_state q) (dr_questions q)) * JEV_INPUT_USD_PER_TOKEN) model)
           (start_calls s)))"

section \<open>Transcription\<close>

record TranscribeOutcome =
  to_text :: json
  to_provider :: string
  to_model :: string
  to_cost_usd :: usd
  to_latency_ms :: "int option"
  to_key_label :: string
  to_request_id :: int
  to_model_served :: "string option"

record transcribe_request =
  tr_project :: ProjectRow
  tr_audio_bytes :: int
  tr_workflow :: "string option"

definition TRANSCRIBE_WALL_DEADLINE_S :: secs where
  "TRANSCRIBE_WALL_DEADLINE_S = CHAT_WALL_DEADLINE_S"

text \<open>The two settings that bound a transcription call.\<close>

definition transcribe_call_timeout :: "secs \<Rightarrow> secs \<Rightarrow> secs" where
  "transcribe_call_timeout transcribe_timeout_s gemini_asr_timeout_s = max transcribe_timeout_s gemini_asr_timeout_s"

definition transcribe_outcome :: "string \<Rightarrow> string \<Rightarrow> ApiKeyRow \<Rightarrow> AttemptResult \<Rightarrow> call_meta \<Rightarrow> TranscribeOutcome" where
  "transcribe_outcome provider model key res meta =
     \<lparr>to_text = ar_payload res, to_provider = provider, to_model = model, to_cost_usd = cm_cost_usd meta,
      to_latency_ms = cm_latency_ms meta, to_key_label = k_label key, to_request_id = opt_or (ar_usage_id res) 0,
      to_model_served = cm_model_served meta\<rparr>"

definition transcribe_attempt :: "price_map \<Rightarrow> datetime \<Rightarrow> transcribe_request \<Rightarrow> string \<Rightarrow> string \<Rightarrow> ApiKeyRow \<Rightarrow> Attempt" where
  "transcribe_attempt pm at_time q provider model key =
     (new_attempt key (tr_project q) provider model ''transcription'' (tr_workflow q))
       \<lparr>ap_estimated_cost := (if k_tier key = ''free'' then 0
          else estimate_transcription_cost pm at_time model (tr_audio_bytes q)),
        ap_cap_flow := NEXT_KEY\<rparr>"

definition after_transcribe ::
  "string \<Rightarrow> string \<Rightarrow> ApiKeyRow \<Rightarrow> attempt_end \<times> call_walk \<Rightarrow> TranscribeOutcome walk_end round_end \<times> call_walk" where
  "after_transcribe provider model key r = (case r of
      (Finished res, w) \<Rightarrow>
        (let w1 = (if ar_error res \<noteq> None then w\<lparr>cw_error := Some (failure_text res)\<rparr> else w) in
         case ar_flow res of
           SUCCESS \<Rightarrow> (Exit (case ar_meta res of Some m \<Rightarrow> Served (transcribe_outcome provider model key res m) | None \<Rightarrow> Broken (AttemptFailed (Finished res))), w)
         | BUDGET_EXHAUSTED \<Rightarrow> (Exit (AllFailed (cap_message (error_window res))), w1)
         | NEXT_PROVIDER \<Rightarrow> (Break, w1)
         | NEXT_KEY \<Rightarrow> (Continue, w1))
    | (e, w) \<Rightarrow> (Exit (Broken (AttemptFailed e)), w))"

definition transcribe_round ::
  "price_map \<Rightarrow> (nat \<Rightarrow> call_env) \<Rightarrow> secs \<Rightarrow> secs \<Rightarrow> transcribe_request \<Rightarrow> string \<Rightarrow> string \<Rightarrow> call_walk
   \<Rightarrow> TranscribeOutcome walk_end round_end \<times> call_walk" where
  "transcribe_round pm env timeout finish_by q scope provider w =
     (let ce = env (cw_i w); use_model = model_for provider ''transcription'' in
      if ce_now ce + timeout > finish_by
      then (Exit (AllFailed (own_or (cw_error w) ''transcription deadline reached'')), w)
      else case next_key ce provider scope None (tr_project q) (if use_model \<in> {None, Some []} then [] else [the use_model]) w of
             (Inl v, w1) \<Rightarrow> (Exit (Broken (PickFailed v)), w1)
           | (Inr None, w1) \<Rightarrow> (Break, w1)
           | (Inr (Some key), w1) \<Rightarrow>
               if use_model \<in> {None, Some []} then (Break, w1\<lparr>cw_seen := True\<rparr>)
               else after_transcribe provider (the use_model) key
                      (attempt_on ce (transcribe_attempt pm (ce_price_at ce) q provider (the use_model) key)
                         (w1\<lparr>cw_seen := True\<rparr>)))"

fun transcribe_chain ::
  "price_map \<Rightarrow> (nat \<Rightarrow> call_env) \<Rightarrow> secs \<Rightarrow> secs \<Rightarrow> transcribe_request \<Rightarrow> string \<Rightarrow> string list \<Rightarrow> call_walk
   \<Rightarrow> TranscribeOutcome walk_end option \<times> call_walk" where
  "transcribe_chain pm env timeout finish_by q scope [] w = (None, w)"
| "transcribe_chain pm env timeout finish_by q scope (p # ps) w =
     (case rounds (max_keys_for p) (transcribe_round pm env timeout finish_by q scope p) w of
        (Some e, w1) \<Rightarrow> (Some e, w1)
      | (None, w1) \<Rightarrow> transcribe_chain pm env timeout finish_by q scope ps w1)"

definition run_transcribe ::
  "price_map \<Rightarrow> (nat \<Rightarrow> call_env) \<Rightarrow> secs \<Rightarrow> secs \<Rightarrow> transcribe_request \<Rightarrow> service \<Rightarrow> TranscribeOutcome walk_end \<times> call_walk" where
  "run_transcribe pm env timeout start q s =
     (case scope_for ''transcription'' of
        Inl e \<Rightarrow> (Broken (ChainFailed e), start_calls s)
      | Inr scope \<Rightarrow>
      (case chain_for ''transcription'' of
        Inl e \<Rightarrow> (Broken (ChainFailed e), start_calls s)
      | Inr chain \<Rightarrow> walk_verdict ''all providers failed''
          (transcribe_chain pm env timeout (start + TRANSCRIBE_WALL_DEADLINE_S) q scope chain (start_calls s))))"

section \<open>What the rounds keep\<close>

lemma rounds_rule:
  assumes "\<And>n w r w'. I (Suc n) w \<Longrightarrow> body w = (r, w') \<Longrightarrow>
      (case r of Exit e \<Rightarrow> Q e w' | Break \<Rightarrow> F w' | Continue \<Rightarrow> I n w')"
    and "\<And>w. I 0 w \<Longrightarrow> F w" "I n w" "rounds n body w = (x, w')"
  shows "case x of Some e \<Rightarrow> Q e w' | None \<Rightarrow> F w'"
  using assms(3,4)
proof (induction n arbitrary: w)
  case 0
  then show ?case using assms(2) by simp
next
  case (Suc n)
  obtain r w1 where b: "body w = (r, w1)" by fastforce
  show ?case using assms(1)[OF Suc.prems(1) b] Suc.IH[of w1] Suc.prems(2) b by (cases r) auto
qed

text \<open>A key handed out in some round.\<close>

definition usable_for :: "string \<Rightarrow> string \<Rightarrow> string option \<Rightarrow> ApiKeyRow \<Rightarrow> bool" where
  "usable_for provider scope tier k \<longleftrightarrow> k_provider k = provider \<and> k_is_active k \<and> k_is_alive k \<and> scope \<in> set (k_scopes k) \<and>
     (\<forall>t. tier = Some t \<and> t \<noteq> [] \<longrightarrow> k_tier k = t)"

lemma next_key_facts:
  assumes "next_key ce p sc t proj ms w = (r, w1)" "keys_ok (sv_broker (ce_world ce (cw_service w)))"
  shows "cw_log w1 = cw_log w" "cw_seen w1 = cw_seen w" "cw_error w1 = cw_error w"
    and "r = Inr (Some k) \<Longrightarrow> usable_for p sc t k"
  using assms pick_usable[of "sv_broker (ce_world ce (cw_service w))" "ce_pick ce" p sc t "Some (p_id proj)" ms None k]
  by (auto simp: next_key_def Let_def usable_for_def split: prod.splits)

lemma attempt_on_facts:
  assumes "attempt_on ce a w = (r, w1)"
  shows "cw_log w1 = cw_log w @ [event_of ce a r]" "cw_seen w1 = cw_seen w" "cw_error w1 = cw_error w"
  using assms by (auto simp: attempt_on_def split: prod.splits)

definition calls_ok :: "(call_event \<Rightarrow> bool) \<Rightarrow> nat \<Rightarrow> call_walk \<Rightarrow> bool" where
  "calls_ok P n w \<longleftrightarrow> length (cw_log w) \<le> n \<and> (\<forall>e \<in> set (cw_log w). P e) \<and> (cw_log w \<noteq> [] \<longrightarrow> cw_seen w)"

definition none_served :: "call_walk \<Rightarrow> bool" where
  "none_served w \<longleftrightarrow> (\<forall>e \<in> set (cw_log w). cv_flow e \<noteq> Some SUCCESS)"

definition served_last :: "string \<Rightarrow> string \<Rightarrow> call_walk \<Rightarrow> bool" where
  "served_last model label w \<longleftrightarrow> (\<exists>es e. cw_log w = es @ [e] \<and> cv_flow e = Some SUCCESS \<and> cv_model e = model \<and>
     k_label (cv_key e) = label \<and> (\<forall>e' \<in> set es. cv_flow e' \<noteq> Some SUCCESS))"

lemmas walk_facts = calls_ok_def none_served_def served_last_def event_of_def

lemma start_calls_ok [simp]: "calls_ok P n (start_calls s)" "none_served (start_calls s)"
  by (simp_all add: walk_facts start_calls_def)

text \<open>The verdict after the last round.\<close>

lemma walk_verdict_rule:
  assumes "walk_verdict t r = (x, w)"
    and "\<And>e w. r = (Some e, w) \<Longrightarrow> Q e w" "\<And>w. r = (None, w) \<Longrightarrow> Q (if \<not> cw_seen w then NoKey else AllFailed (own_or (cw_error w) t)) w"
  shows "Q x w"
  using assms by (auto simp: walk_verdict_def split: prod.splits option.splits)

section \<open>Embeddings stay with their provider\<close>

definition embed_call_ok :: "ModelSpec list \<Rightarrow> embed_request \<Rightarrow> call_event \<Rightarrow> bool" where
  "embed_call_ok subs q e \<longleftrightarrow> embed_model subs q = Inr (cv_model e) \<and>
     (\<exists>scope. scope_for ''embedding'' = Inr scope \<and> usable_for (er_provider q) scope None (cv_key e))"

definition embed_end_ok :: "(call_event \<Rightarrow> bool) \<Rightarrow> nat \<Rightarrow> EmbedOutcome walk_end \<Rightarrow> call_walk \<Rightarrow> bool" where
  "embed_end_ok P n x w \<longleftrightarrow> calls_ok P n w \<and> (x = NoKey \<longrightarrow> cw_log w = []) \<and>
     (\<forall>t. x = AllFailed t \<longrightarrow> cw_log w \<noteq> [] \<and> none_served w) \<and>
     (\<forall>out. x = Served out \<longrightarrow> served_last (eo_model out) (eo_key_label out) w)"

lemma embed_round_step:
  assumes keys: "\<And>i t. keys_ok (sv_broker (ce_world (env i) t))" and model: "embed_model subs q = Inr model"
    and pre: "calls_ok (embed_call_ok subs q) (N - Suc n) w" "none_served w" "Suc n \<le> N" "cw_seen w \<longleftrightarrow> cw_log w \<noteq> []"
    and step: "embed_round pm env q model w = (r, w')"
  shows "case r of Exit x \<Rightarrow> embed_end_ok (embed_call_ok subs q) N x w'
    | Break \<Rightarrow> calls_ok (embed_call_ok subs q) N w' \<and> none_served w' \<and> (cw_seen w' \<longleftrightarrow> cw_log w' \<noteq> [])
    | Continue \<Rightarrow> calls_ok (embed_call_ok subs q) (N - n) w' \<and> none_served w' \<and> (cw_seen w' \<longleftrightarrow> cw_log w' \<noteq> [])"
proof (cases "scope_for ''embedding''")
  case (Inl e)
  then show ?thesis using step pre by (auto simp: embed_round_def Let_def embed_end_ok_def calls_ok_def)
next
  case (Inr scope)
  define ce where "ce = env (cw_i w)"
  obtain p w1 where nk: "next_key ce (er_provider q) scope None (er_project q) [model] w = (p, w1)" by fastforce
  note nf = next_key_facts[OF nk, unfolded ce_def, OF keys]
  show ?thesis
  proof (cases "\<exists>k. p = Inr (Some k)")
    case False
    then show ?thesis using step pre nk nf(1-3) Inr
      by (auto simp: embed_round_def Let_def embed_end_ok_def ce_def[symmetric] walk_facts split: sum.splits option.splits)
  next
    case True
    then obtain k where k: "p = Inr (Some k)" by blast
    let ?a = "embed_attempt pm (ce_price_at ce) q model k"
    obtain ar w2 where at: "attempt_on ce ?a (w1\<lparr>cw_seen := True\<rparr>) = (ar, w2)" by fastforce
    note af = attempt_on_facts[OF at]
    have ev: "embed_call_ok subs q (event_of ce ?a ar)"
      using nf(4)[OF k] model Inr by (simp add: embed_call_ok_def event_of_def embed_attempt_def new_attempt_def)
    have ok: "calls_ok (embed_call_ok subs q) (N - n) w2" "cw_seen w2" "cw_log w2 \<noteq> []"
      using af ev nf(1) pre by (auto simp: calls_ok_def)
    have res: "(r, w') = after_embed q model k (ar, w2)"
      using step nk at Inr k by (simp add: embed_round_def Let_def ce_def)
    show ?thesis
    proof (cases ar)
      case (Finished a)
      then have fl: "cv_flow (event_of ce ?a ar) = Some (ar_flow a)" by (simp add: event_of_def)
      show ?thesis using res Finished ok af(1) fl nf(1) pre(2,3)
        by (cases "ar_flow a")
          (auto simp: after_embed_def embed_end_ok_def none_served_def served_last_def calls_ok_def embed_outcome_def
            event_of_def embed_attempt_def new_attempt_def split: option.splits)
    qed (use res ok in \<open>auto simp: after_embed_def embed_end_ok_def calls_ok_def\<close>)
  qed
qed

text \<open>
  An embedding never leaves its provider: vectors of two providers do not mix. Every call
  goes to a live key of the requested provider that has the embedding scope, with one and
  the same model: the pinned one or the provider's default. There are at most as many calls
  as the provider's key allowance, a success ends the walk and is what is returned, "no
  key" means that nothing was called, and "all keys failed" that at least one call was made
  and none succeeded.
\<close>

theorem embed_stays_with_provider:
  assumes "run_embed subs pm env q s = (x, w)" "\<And>i t. keys_ok (sv_broker (ce_world (env i) t))"
  shows "embed_end_ok (embed_call_ok subs q) (max_keys_for (er_provider q)) x w"
proof (cases "embed_model subs q")
  case (Inl e)
  then show ?thesis using assms(1) by (auto simp: run_embed_def embed_end_ok_def start_calls_def calls_ok_def)
next
  case (Inr model)
  let ?P = "embed_call_ok subs q" and ?N = "max_keys_for (er_provider q)"
  let ?F = "\<lambda>w. calls_ok ?P ?N w \<and> none_served w \<and> (cw_seen w \<longleftrightarrow> cw_log w \<noteq> [])"
  let ?I = "\<lambda>n w. calls_ok ?P (?N - n) w \<and> none_served w \<and> n \<le> ?N \<and> (cw_seen w \<longleftrightarrow> cw_log w \<noteq> [])"
  have run: "walk_verdict ''all keys failed'' (rounds ?N (embed_round pm env q model) (start_calls s)) = (x, w)"
    using assms(1) Inr by (simp add: run_embed_def)
  have walk: "case r of Some e \<Rightarrow> embed_end_ok ?P ?N e w' | None \<Rightarrow> ?F w'"
    if "rounds ?N (embed_round pm env q model) (start_calls s) = (r, w')" for r w'
  proof (rule rounds_rule[where I = ?I, OF _ _ _ that])
    show "case r of Exit e \<Rightarrow> embed_end_ok ?P ?N e w' | Break \<Rightarrow> ?F w' | Continue \<Rightarrow> ?I n w'"
      if "?I (Suc n) w" "embed_round pm env q model w = (r, w')" for n w r w'
      using embed_round_step[OF assms(2) Inr _ _ _ _ that(2), where n = n and N = ?N] that(1) by (cases r) auto
  qed (auto simp: start_calls_def calls_ok_def none_served_def)
  show ?thesis
    by (rule walk_verdict_rule[OF run]) (use walk in \<open>fastforce simp: embed_end_ok_def split: option.splits\<close>)+
qed

section \<open>Decisions are billed to paid keys\<close>

text \<open>A fallback call (the only kind that does not penalise) follows a failed call on the same key.\<close>

definition fallback_follows :: "call_event list \<Rightarrow> bool" where
  "fallback_follows es \<longleftrightarrow> (es \<noteq> [] \<longrightarrow> cv_penalize (hd es)) \<and>
     successively (\<lambda>a b. cv_penalize b \<or> cv_penalize a \<and> cv_key a = cv_key b \<and> cv_flow a \<noteq> Some SUCCESS) es"

lemma fallback_follows_snoc:
  "fallback_follows (es @ [e]) \<longleftrightarrow> fallback_follows es \<and> (cv_penalize e \<or> es \<noteq> [] \<and> cv_penalize (last es) \<and>
     cv_key (last es) = cv_key e \<and> cv_flow (last es) \<noteq> Some SUCCESS)"
  by (auto simp: fallback_follows_def successively_append_iff hd_append)

definition decision_call_ok :: "ModelSpec list \<Rightarrow> usd \<Rightarrow> decision_request \<Rightarrow> call_event \<Rightarrow> bool" where
  "decision_call_ok subs est q e \<longleftrightarrow>
     (\<exists>scope. scope_for ''decision'' = Inr scope \<and> usable_for ''openrouter'' scope (Some ''paid'') (cv_key e)) \<and>
     (if cv_penalize e then decision_model subs q = Inr (cv_model e) \<and> cv_reserved e = est
      else dr_model q = None \<and> cv_model e = DECISION_FALLBACK_MODEL \<and> cv_reserved e = 0)"

definition decision_end_ok :: "(call_event \<Rightarrow> bool) \<Rightarrow> nat \<Rightarrow> DecisionOutcome walk_end \<Rightarrow> call_walk \<Rightarrow> bool" where
  "decision_end_ok P n x w \<longleftrightarrow> calls_ok P n w \<and> fallback_follows (cw_log w) \<and> (x = NoKey \<longrightarrow> cw_log w = []) \<and>
     (\<forall>t. x = AllFailed t \<longrightarrow> cw_log w \<noteq> [] \<and> none_served w) \<and>
     (\<forall>out. x = Served out \<longrightarrow> served_last (do_model out) (do_key_label out) w)"

definition decision_going :: "(call_event \<Rightarrow> bool) \<Rightarrow> nat \<Rightarrow> call_walk \<Rightarrow> bool" where
  "decision_going P n w \<longleftrightarrow> calls_ok P n w \<and> none_served w \<and> fallback_follows (cw_log w) \<and> (cw_seen w \<longleftrightarrow> cw_log w \<noteq> [])"

lemma with_fallback_step:
  assumes "with_fallback ce q model key res w = (r, w')" "cw_log w = es @ [e]" "cv_flow e = Some (ar_flow res)"
    "cv_key e = key" "cv_penalize e" "cv_model e = model"
    and pre: "calls_ok (decision_call_ok subs est q) n w" "fallback_follows (cw_log w)" "\<forall>e \<in> set es. cv_flow e \<noteq> Some SUCCESS"
    and out: "after_decision key (r, w') = (x, w2)"
  shows "case x of Exit y \<Rightarrow> decision_end_ok (decision_call_ok subs est q) (Suc n) y w2
    | _ \<Rightarrow> decision_going (decision_call_ok subs est q) (Suc n) w2"
proof (cases "ar_flow res = SUCCESS \<or> \<not> uses_fallback q model")
  case True
  then show ?thesis using assms
    by (cases "ar_flow res")
      (auto simp: with_fallback_def Let_def after_decision_def decision_end_ok_def decision_going_def calls_ok_def
        none_served_def served_last_def decision_outcome_def split: option.splits)
next
  case False
  obtain f w3 where at: "attempt_on ce (fallback_attempt q key) (w\<lparr>cw_error := Some (failure_text res)\<rparr>) = (f, w3)" by fastforce
  note af = attempt_on_facts[OF at]
  let ?e = "event_of ce (fallback_attempt q key) f"
  have ev: "cv_key ?e = key" "cv_model ?e = DECISION_FALLBACK_MODEL" "\<not> cv_penalize ?e" "cv_reserved ?e = 0"
    by (simp_all add: event_of_def fallback_attempt_def new_attempt_def)
  have key: "\<exists>scope. scope_for ''decision'' = Inr scope \<and> usable_for ''openrouter'' scope (Some ''paid'') key"
    using pre(1) assms(2,4) by (simp add: calls_ok_def decision_call_ok_def)
  have "dr_model q = None" using False by (simp add: uses_fallback_def)
  then have ok: "calls_ok (decision_call_ok subs est q) (Suc n) w3" "cw_seen w3" "cw_log w3 = es @ [e, ?e]"
    using af pre(1) ev key assms(2) by (simp_all add: calls_ok_def decision_call_ok_def)
  have "fallback_follows ((es @ [e]) @ [?e])"
    using pre(2) assms(2-5) ev False by (subst fallback_follows_snoc) simp
  then have ff: "fallback_follows (cw_log w3)" using ok(3) by simp
  have ne: "\<forall>e' \<in> set (es @ [e]). cv_flow e' \<noteq> Some SUCCESS" using pre(3) assms(3) False by simp
  show ?thesis
  proof (cases f)
    case (Finished fb)
    have fl: "cv_flow ?e = Some (ar_flow fb)" by (simp add: event_of_def Finished)
    show ?thesis
    proof (cases "ar_flow fb = SUCCESS")
      case True
      have "served_last DECISION_FALLBACK_MODEL (k_label key) w3"
        unfolding served_last_def using ok(3) ne fl True ev by (intro exI[of _ "es @ [e]"] exI[of _ ?e]) simp
      then show ?thesis using assms(1) out at False Finished True ok ff
        by (auto simp: with_fallback_def Let_def after_decision_def decision_end_ok_def decision_outcome_def split: option.splits)
    next
      case nsucc: False
      have "none_served (w3\<lparr>cw_error := t\<rparr>)" for t using ok(3) ne fl nsucc by (auto simp: none_served_def)
      then show ?thesis using assms(1) out at False Finished nsucc ok ff
        by (cases "ar_flow res")
          (auto simp: with_fallback_def Let_def after_decision_def decision_end_ok_def decision_going_def calls_ok_def)
    qed
  qed (use assms(1) out at False ok ff in \<open>auto simp: with_fallback_def Let_def after_decision_def decision_end_ok_def\<close>)
qed

lemma decision_round_step:
  assumes keys: "\<And>i t. keys_ok (sv_broker (ce_world (env i) t))" and model: "decision_model subs q = Inr model"
    and pre: "decision_going (decision_call_ok subs est q) n w"
    and step: "decision_round env q est model w = (r, w')"
  shows "case r of Exit x \<Rightarrow> decision_end_ok (decision_call_ok subs est q) (Suc (Suc n)) x w'
    | _ \<Rightarrow> decision_going (decision_call_ok subs est q) (Suc (Suc n)) w'"
proof (cases "scope_for ''decision''")
  case (Inl e)
  then show ?thesis using step pre by (auto simp: decision_round_def Let_def decision_end_ok_def decision_going_def calls_ok_def)
next
  case (Inr scope)
  define ce where "ce = env (cw_i w)"
  obtain p w1 where nk: "next_key ce ''openrouter'' scope (Some ''paid'') (dr_project q) [] w = (p, w1)" by fastforce
  note nf = next_key_facts[OF nk, unfolded ce_def, OF keys]
  show ?thesis
  proof (cases "\<exists>k. p = Inr (Some k)")
    case False
    then show ?thesis using step pre nk nf(1-3) Inr
      by (auto simp: decision_round_def Let_def decision_end_ok_def decision_going_def ce_def[symmetric] walk_facts
          split: sum.splits option.splits)
  next
    case True
    then obtain k where k: "p = Inr (Some k)" by blast
    let ?a = "decision_attempt q est model k"
    obtain ar w2 where at: "attempt_on ce ?a (w1\<lparr>cw_seen := True\<rparr>) = (ar, w2)" by fastforce
    note af = attempt_on_facts[OF at]
    have ev: "cv_key (event_of ce ?a ar) = k" "cv_penalize (event_of ce ?a ar)" "cv_model (event_of ce ?a ar) = model"
      "decision_call_ok subs est q (event_of ce ?a ar)"
      using nf(4)[OF k] model Inr by (simp_all add: decision_call_ok_def event_of_def decision_attempt_def new_attempt_def)
    have log: "cw_log w2 = cw_log w @ [event_of ce ?a ar]" using af(1) nf(1) by simp
    have ok: "calls_ok (decision_call_ok subs est q) (Suc n) w2" "fallback_follows (cw_log w2)"
      using log af(2) ev pre by (simp_all add: decision_going_def calls_ok_def fallback_follows_snoc)
    show ?thesis
    proof (cases ar)
      case (Finished res)
      obtain fr w3 where wf: "with_fallback ce q model k res w2 = (fr, w3)" by fastforce
      have out: "after_decision k (fr, w3) = (r, w')"
        using step nk at Inr k Finished wf by (simp add: decision_round_def Let_def ce_def)
      have fl: "cv_flow (event_of ce ?a ar) = Some (ar_flow res)" by (simp add: event_of_def Finished)
      have "\<forall>e \<in> set (cw_log w). cv_flow e \<noteq> Some SUCCESS" using pre by (simp add: decision_going_def none_served_def)
      from with_fallback_step[OF wf log fl ev(1-3) ok this out] show ?thesis by simp
    qed (use step nk at Inr k ok in \<open>auto simp: decision_round_def Let_def ce_def decision_end_ok_def calls_ok_def\<close>)
  qed
qed

text \<open>
  A decision is billed to a paid OpenRouter key. Every call of a decision goes to a live
  paid-tier key of OpenRouter with the decision scope. A call of the chosen model reserves
  the estimated cost; a call of the free fallback model reserves nothing, does not penalise
  its key, and is made only when the caller pinned no model, directly after a failed call
  on the same key. The walk makes at most two calls per allowed key, a success ends it and
  names the model that really answered.
\<close>

theorem decision_spends_on_paid_keys:
  assumes "run_decision subs rp env q s = (x, w)" "\<And>i t. keys_ok (sv_broker (ce_world (env i) t))"
  shows "decision_end_ok (decision_call_ok subs (of_int (estimate_tokens rp (dr_state q) (dr_questions q)) * JEV_INPUT_USD_PER_TOKEN) q)
    (2 * max_keys_for ''openrouter'') x w"
proof (cases "decision_model subs q")
  case (Inl e)
  then show ?thesis using assms(1)
    by (auto simp: run_decision_def decision_end_ok_def start_calls_def calls_ok_def fallback_follows_def)
next
  case (Inr model)
  let ?est = "of_int (estimate_tokens rp (dr_state q) (dr_questions q)) * JEV_INPUT_USD_PER_TOKEN"
  let ?P = "decision_call_ok subs ?est q" and ?N = "max_keys_for ''openrouter''"
  let ?I = "\<lambda>n w. decision_going ?P (2 * (?N - n)) w \<and> n \<le> ?N"
  have mono: "decision_going ?P a w \<Longrightarrow> a \<le> b \<Longrightarrow> decision_going ?P b w" "decision_end_ok ?P a y w \<Longrightarrow> a \<le> b \<Longrightarrow> decision_end_ok ?P b y w"
    for a b w y by (auto simp: decision_going_def decision_end_ok_def calls_ok_def)
  have run: "walk_verdict ''all keys failed'' (rounds ?N (decision_round env q ?est model) (start_calls s)) = (x, w)"
    using assms(1) Inr by (simp add: run_decision_def)
  have walk: "case r of Some e \<Rightarrow> decision_end_ok ?P (2 * ?N) e w' | None \<Rightarrow> decision_going ?P (2 * ?N) w'"
    if "rounds ?N (decision_round env q ?est model) (start_calls s) = (r, w')" for r w'
  proof (rule rounds_rule[where I = ?I, OF _ _ _ that])
    show "case r of Exit e \<Rightarrow> decision_end_ok ?P (2 * ?N) e w' | Break \<Rightarrow> decision_going ?P (2 * ?N) w' | Continue \<Rightarrow> ?I n w'"
      if pre: "?I (Suc n) w" and st: "decision_round env q ?est model w = (r, w')" for n w r w'
    proof -
      have "Suc (Suc (2 * (?N - Suc n))) = 2 * (?N - n)" using pre by auto
      then show ?thesis using decision_round_step[OF assms(2) Inr _ st, where n = "2 * (?N - Suc n)"] pre
          mono[where a = "2 * (?N - n)" and b = "2 * ?N"] by (cases r) auto
    qed
  qed (auto simp: start_calls_def decision_going_def calls_ok_def none_served_def fallback_follows_def)
  show ?thesis
    by (rule walk_verdict_rule[OF run]) (use walk in \<open>fastforce simp: decision_end_ok_def decision_going_def split: option.splits\<close>)+
qed

section \<open>Transcription ends in time\<close>

definition transcribe_call_ok :: "secs \<Rightarrow> secs \<Rightarrow> string \<Rightarrow> string list \<Rightarrow> call_event \<Rightarrow> bool" where
  "transcribe_call_ok timeout finish_by scope chain e \<longleftrightarrow> cv_started e + timeout \<le> finish_by \<and>
     k_provider (cv_key e) \<in> set chain \<and> usable_for (k_provider (cv_key e)) scope None (cv_key e) \<and>
     model_for (k_provider (cv_key e)) ''transcription'' = Some (cv_model e)"

definition transcribe_end_ok :: "(call_event \<Rightarrow> bool) \<Rightarrow> nat \<Rightarrow> TranscribeOutcome walk_end \<Rightarrow> call_walk \<Rightarrow> bool" where
  "transcribe_end_ok P n x w \<longleftrightarrow> calls_ok P n w \<and> (x = NoKey \<longrightarrow> cw_log w = []) \<and>
     (\<forall>t. x = AllFailed t \<longrightarrow> none_served w) \<and>
     (\<forall>out. x = Served out \<longrightarrow> served_last (to_model out) (to_key_label out) w)"

lemma transcribe_round_step:
  assumes keys: "\<And>i t. keys_ok (sv_broker (ce_world (env i) t))" and p: "p \<in> set chain"
    and pre: "calls_ok (transcribe_call_ok timeout finish_by scope chain) n w" "none_served w"
    and step: "transcribe_round pm env timeout finish_by q scope p w = (r, w')"
  shows "case r of Exit x \<Rightarrow> transcribe_end_ok (transcribe_call_ok timeout finish_by scope chain) (Suc n) x w'
    | _ \<Rightarrow> calls_ok (transcribe_call_ok timeout finish_by scope chain) (Suc n) w' \<and> none_served w'"
proof -
  define ce where "ce = env (cw_i w)"
  define m where "m = model_for p ''transcription''"
  obtain pk w1 where nk: "next_key ce p scope None (tr_project q) (if m \<in> {None, Some []} then [] else [the m]) w = (pk, w1)" by fastforce
  note nf = next_key_facts[OF nk, unfolded ce_def, OF keys]
  show ?thesis
  proof (cases "ce_now ce + timeout > finish_by \<or> (\<forall>k. pk \<noteq> Inr (Some k)) \<or> m \<in> {None, Some []}")
    case True
    then show ?thesis using step pre nk nf(1-3)
      by (auto simp: transcribe_round_def Let_def ce_def[symmetric] m_def[symmetric] transcribe_end_ok_def walk_facts
          split: sum.splits option.splits if_splits)
  next
    case False
    then obtain k where k: "pk = Inr (Some k)" by blast
    obtain mm where mm: "m = Some mm" "mm \<noteq> []" using False by auto
    let ?a = "transcribe_attempt pm (ce_price_at ce) q p mm k"
    obtain ar w2 where at: "attempt_on ce ?a (w1\<lparr>cw_seen := True\<rparr>) = (ar, w2)" by fastforce
    note af = attempt_on_facts[OF at]
    have us: "usable_for p scope None k" using nf(4)[OF k] .
    have ev: "transcribe_call_ok timeout finish_by scope chain (event_of ce ?a ar)"
      using us p mm False by (auto simp: transcribe_call_ok_def event_of_def transcribe_attempt_def new_attempt_def usable_for_def m_def)
    have ok: "calls_ok (transcribe_call_ok timeout finish_by scope chain) (Suc n) w2"
      using af ev nf(1) pre by (simp add: calls_ok_def)
    have res: "(r, w') = after_transcribe p mm k (ar, w2)"
      using step nk at k mm False by (simp add: transcribe_round_def Let_def ce_def m_def)
    show ?thesis
    proof (cases ar)
      case (Finished a)
      then have fl: "cv_flow (event_of ce ?a ar) = Some (ar_flow a)" by (simp add: event_of_def)
      show ?thesis using res Finished ok af(1) fl nf(1) pre(2)
        by (cases "ar_flow a")
          (auto simp: after_transcribe_def Let_def transcribe_end_ok_def none_served_def served_last_def calls_ok_def
            transcribe_outcome_def event_of_def transcribe_attempt_def new_attempt_def split: option.splits)
    qed (use res ok af in \<open>auto simp: after_transcribe_def transcribe_end_ok_def calls_ok_def\<close>)
  qed
qed

lemma transcribe_chain_ok:
  assumes keys: "\<And>i t. keys_ok (sv_broker (ce_world (env i) t))"
    and "transcribe_chain pm env timeout finish_by q scope ps w = (x, w')" "set ps \<subseteq> set chain"
    "calls_ok (transcribe_call_ok timeout finish_by scope chain) n w" "none_served w"
  shows "case x of Some e \<Rightarrow> transcribe_end_ok (transcribe_call_ok timeout finish_by scope chain) (n + sum_list (map max_keys_for ps)) e w'
    | None \<Rightarrow> calls_ok (transcribe_call_ok timeout finish_by scope chain) (n + sum_list (map max_keys_for ps)) w' \<and> none_served w'"
  using assms(2-)
proof (induction ps arbitrary: w n)
  case (Cons p ps)
  let ?P = "transcribe_call_ok timeout finish_by scope chain" and ?N = "max_keys_for p"
  let ?I = "\<lambda>k w. calls_ok ?P (n + (?N - k)) w \<and> none_served w \<and> k \<le> ?N"
  have mono: "calls_ok ?P a w \<Longrightarrow> a \<le> b \<Longrightarrow> calls_ok ?P b w" "transcribe_end_ok ?P a y w \<Longrightarrow> a \<le> b \<Longrightarrow> transcribe_end_ok ?P b y w"
    for a b w y by (auto simp: transcribe_end_ok_def calls_ok_def)
  obtain r w1 where r: "rounds ?N (transcribe_round pm env timeout finish_by q scope p) w = (r, w1)" by fastforce
  have "case r of Some e \<Rightarrow> transcribe_end_ok ?P (n + ?N) e w1 | None \<Rightarrow> calls_ok ?P (n + ?N) w1 \<and> none_served w1"
  proof (rule rounds_rule[where I = ?I, OF _ _ _ r])
    show "case r of Exit e \<Rightarrow> transcribe_end_ok ?P (n + ?N) e w' | Break \<Rightarrow> calls_ok ?P (n + ?N) w' \<and> none_served w' | Continue \<Rightarrow> ?I k w'"
      if pre: "?I (Suc k) w" and st: "transcribe_round pm env timeout finish_by q scope p w = (r, w')" for k w r w'
    proof -
      have "Suc (n + (?N - Suc k)) = n + (?N - k)" using pre by auto
      then show ?thesis using transcribe_round_step[OF keys _ _ _ st, where n = "n + (?N - Suc k)" and chain = chain] pre Cons.prems(2)
          mono[where a = "n + (?N - k)" and b = "n + ?N"] by (cases r) auto
    qed
  qed (use Cons.prems in auto)
  then show ?case
    using Cons.IH[of w1 "n + ?N"] Cons.prems r mono(2)[where a = "n + ?N"]
    by (cases r; cases x) (auto simp: add.assoc)
qed simp

text \<open>
  Transcription under a deadline. No call of a transcription is started that could end
  later than 18 minutes after the start of the walk. Every call goes to a live key of a
  provider of the transcription chain with the scope, with that provider's transcription
  model; the walk makes at most as many calls as the providers' key allowances add up to.
  A success ends the walk and is what is returned, and without a key nothing was called.
\<close>

theorem transcription_ends_in_time:
  assumes "run_transcribe pm env timeout start q s = (x, w)" "\<And>i t. keys_ok (sv_broker (ce_world (env i) t))"
  shows "\<exists>scope chain. scope_for ''transcription'' = Inr scope \<and> chain_for ''transcription'' = Inr chain \<and>
    transcribe_end_ok (transcribe_call_ok timeout (start + 18 * 60) scope chain) (sum_list (map max_keys_for chain)) x w"
proof -
  obtain scope chain where sc: "scope_for ''transcription'' = Inr scope" "chain_for ''transcription'' = Inr chain"
    by (simp add: scope_for_def CAPABILITY_SCOPE_def chain_for_def CAPABILITY_CHAINS_def)
  let ?P = "transcribe_call_ok timeout (start + 18 * 60) scope chain" and ?N = "sum_list (map max_keys_for chain)"
  have run: "walk_verdict ''all providers failed''
      (transcribe_chain pm env timeout (start + 18 * 60) q scope chain (start_calls s)) = (x, w)"
    using assms(1) sc by (simp add: run_transcribe_def TRANSCRIBE_WALL_DEADLINE_S_def CHAT_WALL_DEADLINE_S_def)
  have walk: "case r of Some e \<Rightarrow> transcribe_end_ok ?P ?N e w' | None \<Rightarrow> calls_ok ?P ?N w' \<and> none_served w'"
    if "transcribe_chain pm env timeout (start + 18 * 60) q scope chain (start_calls s) = (r, w')" for r w'
    using transcribe_chain_ok[OF assms(2) that subset_refl, where n = 0, unfolded add_0] by simp
  have "transcribe_end_ok ?P ?N x w"
    by (rule walk_verdict_rule[OF run])
      (use walk in \<open>fastforce simp: transcribe_end_ok_def calls_ok_def split: option.splits\<close>)+
  then show ?thesis using sc by blast
qed

section \<open>Concrete walks\<close>

definition demo_call_env :: "call_result \<Rightarrow> call_result \<Rightarrow> nat \<Rightarrow> call_env" where
  "demo_call_env first later i = \<lparr>ce_world = (\<lambda>s. if keys_ok (sv_broker s) then s else demo_service), ce_now = 500,
     ce_pick = demo_env, ce_price_at = midnight (2026, 10, 15),
     ce_attempt = (\<lambda>_ m. demo_attempt_env (\<lambda>_. if m = DECISION_FALLBACK_MODEL then later else first))\<rparr>"

lemma demo_call_keys: "keys_ok (sv_broker (ce_world (demo_call_env a b i) t))"
  by (simp add: demo_call_env_def demo_service_def keys_ok_def broker_init_def)

definition voyage_service :: service where
  "voyage_service = demo_service\<lparr>sv_broker := broker_init [new_key 5 ''voyage'' ''emb'' [''llm:embed'']]\<rparr>"

definition demo_embed :: embed_request where
  "demo_embed = \<lparr>er_project = new_project 1 ''p'' [''llm:embed''], er_provider = ''voyage'', er_inputs = [''hello''],
     er_model = None, er_workflow = None\<rparr>"

definition demo_prices :: price_map where
  "demo_prices = \<lparr>pm_cost = (\<lambda>_ _ _ _ _. Some (1 / 100)), pm_info = (\<lambda>_. None)\<rparr>"

lemma demo_embed_served:
  "(case run_embed [] demo_prices (demo_call_env (Returned (JList []) demo_meta) CallCancelled) demo_embed voyage_service of
      (Served out, w) \<Rightarrow> eo_key_label out = ''emb'' | _ \<Rightarrow> False)"
  by code_simp

theorem embed_stays_with_provider_witness:
  "\<exists>out w. run_embed [] demo_prices (demo_call_env (Returned (JList []) demo_meta) CallCancelled) demo_embed voyage_service = (Served out, w) \<and>
     served_last (eo_model out) ''emb'' w"
proof -
  obtain x w where r: "run_embed [] demo_prices (demo_call_env (Returned (JList []) demo_meta) CallCancelled) demo_embed voyage_service = (x, w)"
    by fastforce
  with demo_embed_served obtain out where x: "x = Served out" "eo_key_label out = ''emb''" by (auto split: walk_end.splits)
  from embed_stays_with_provider[OF r demo_call_keys] show ?thesis using r x by (auto simp: embed_end_ok_def)
qed

definition jev_service :: service where
  "jev_service = demo_service\<lparr>sv_broker := broker_init [(new_key 6 ''openrouter'' ''jev'' [''llm:decision''])\<lparr>k_tier := ''paid'', k_daily_cost_cap_usd := Some (1 / 1000000000)\<rparr>]\<rparr>"

definition demo_decision :: decision_request where
  "demo_decision = \<lparr>dr_project = new_project 1 ''p'' [''llm:decision''], dr_state = ''s'', dr_questions = [], dr_model = None,
     dr_workflow = None\<rparr>"

abbreviation demo_decision_run :: "DecisionOutcome walk_end \<times> call_walk" where
  "demo_decision_run \<equiv> run_decision [] (\<lambda>_. []) (demo_call_env CallCancelled (Returned (JObj []) demo_meta)) demo_decision jev_service"

lemma demo_decision_served:
  "(case demo_decision_run of
      (Served out, w) \<Rightarrow> do_model out = DECISION_FALLBACK_MODEL \<and> length (cw_log w) = 2 | _ \<Rightarrow> False)"
  by code_simp

theorem decision_spends_on_paid_keys_witness:
  "\<exists>out w. demo_decision_run = (Served out, w) \<and> served_last DECISION_FALLBACK_MODEL (do_key_label out) w \<and>
     length (cw_log w) = 2 \<and> fallback_follows (cw_log w)"
proof -
  obtain x w where r: "demo_decision_run = (x, w)" by fastforce
  with demo_decision_served obtain out where x: "x = Served out" "do_model out = DECISION_FALLBACK_MODEL" "length (cw_log w) = 2"
    by (auto split: walk_end.splits)
  from decision_spends_on_paid_keys[OF r demo_call_keys] show ?thesis using r x by (auto simp: decision_end_ok_def)
qed

definition audio_service :: service where
  "audio_service = demo_service\<lparr>sv_broker := broker_init [new_key 7 ''groq'' ''asr'' [''llm:audio'']]\<rparr>"

definition demo_transcribe :: transcribe_request where
  "demo_transcribe = \<lparr>tr_project = new_project 1 ''p'' [''llm:audio''], tr_audio_bytes = 1000, tr_workflow = None\<rparr>"

abbreviation demo_transcribe_run :: "TranscribeOutcome walk_end \<times> call_walk" where
  "demo_transcribe_run \<equiv> run_transcribe demo_prices (demo_call_env (Returned (JStr ''hi'') demo_meta) CallCancelled) 120 500
     demo_transcribe audio_service"

lemma demo_transcribe_served:
  "(case demo_transcribe_run of (Served out, w) \<Rightarrow> to_key_label out = ''asr'' | _ \<Rightarrow> False)"
  by code_simp

theorem transcription_ends_in_time_witness:
  "\<exists>out w. demo_transcribe_run = (Served out, w) \<and> served_last (to_model out) ''asr'' w"
proof -
  obtain x w where r: "demo_transcribe_run = (x, w)" by fastforce
  with demo_transcribe_served obtain out where x: "x = Served out" "to_key_label out = ''asr''" by (auto split: walk_end.splits)
  from transcription_ends_in_time[OF r demo_call_keys] show ?thesis using r x by (auto simp: transcribe_end_ok_def)
qed

end
