(* ===== verification/Agent_Lease.thy ===== *)
theory Agent_Lease
  imports Prelude
begin

text \<open>
  \<^verbatim>\<open>agent/lock.py\<close>: the exclusive lease on a CLI session, a database row per (account, session)
  with an expiry and a fence token. The model has the four statements (acquire, renew,
  release, check) with the database clock as an argument, the heartbeat loop over what its
  renewals met, and the interplay of any number of workers as a step relation.
\<close>

section \<open>Rows and leases\<close>

record LeaseRow =
  lr_account :: string
  lr_session :: string
  lr_run :: int
  lr_until :: instant
  lr_heartbeat :: instant
  lr_fence :: int

record Lease =
  l_account :: string
  l_session :: string
  l_run :: int
  l_fence :: int

definition DEFAULT_TTL_S :: secs where "DEFAULT_TTL_S = 120"
definition DEFAULT_HEARTBEAT_S :: secs where "DEFAULT_HEARTBEAT_S = 30"
definition RELEASED_S :: secs where "RELEASED_S = 86400"

definition lease_key :: "LeaseRow \<Rightarrow> string \<times> string" where
  "lease_key r = (lr_account r, lr_session r)"

definition session_of :: "Lease \<Rightarrow> string \<times> string" where
  "session_of l = (l_account l, l_session l)"

definition holds :: "Lease \<Rightarrow> LeaseRow \<Rightarrow> bool" where
  "holds l r \<longleftrightarrow> lease_key r = session_of l \<and> lr_run r = l_run l \<and> lr_fence r = l_fence l"

section \<open>The statements\<close>

text \<open>
  \<^verbatim>\<open>INSERT ... ON CONFLICT DO UPDATE ... WHERE lease_until < now RETURNING run_id, fence\<close>.
\<close>

definition taken_over :: "instant \<Rightarrow> secs \<Rightarrow> int \<Rightarrow> LeaseRow \<Rightarrow> LeaseRow" where
  "taken_over now ttl run_id r = r\<lparr>lr_run := run_id, lr_until := now + ttl, lr_heartbeat := now, lr_fence := lr_fence r + 1\<rparr>"

definition acquire_lease ::
  "instant \<Rightarrow> secs \<Rightarrow> string \<Rightarrow> string \<Rightarrow> int \<Rightarrow> LeaseRow list \<Rightarrow> Lease option \<times> LeaseRow list" where
  "acquire_lease now ttl account_id session_id run_id rows =
     (let lease = (\<lambda>f. \<lparr>l_account = account_id, l_session = session_id, l_run = run_id, l_fence = f\<rparr>) in
      case find_row lease_key (account_id, session_id) rows of
        None \<Rightarrow> (Some (lease 1),
          rows @ [\<lparr>lr_account = account_id, lr_session = session_id, lr_run = run_id, lr_until = now + ttl,
                   lr_heartbeat = now, lr_fence = 1\<rparr>])
      | Some r \<Rightarrow>
          if lr_until r < now
          then (Some (lease (lr_fence r + 1)),
                update_where (\<lambda>r. lease_key r = (account_id, session_id) \<and> lr_until r < now) (taken_over now ttl run_id) rows)
          else (None, rows))"

definition renew_lease :: "instant \<Rightarrow> secs \<Rightarrow> Lease \<Rightarrow> LeaseRow list \<Rightarrow> bool \<times> LeaseRow list" where
  "renew_lease now ttl l rows =
     (list_ex (holds l) rows,
      update_where (holds l) (\<lambda>r. r\<lparr>lr_until := now + ttl, lr_heartbeat := now\<rparr>) rows)"

definition release_lease :: "instant \<Rightarrow> Lease \<Rightarrow> LeaseRow list \<Rightarrow> LeaseRow list" where
  "release_lease now l rows = update_where (holds l) (\<lambda>r. r\<lparr>lr_until := now - RELEASED_S\<rparr>) rows"

text \<open>\<open>True\<close>: the caller may write; \<open>False\<close> raises \<^verbatim>\<open>StaleLease\<close>.\<close>

definition check_fence :: "Lease option \<Rightarrow> LeaseRow list \<Rightarrow> bool" where
  "check_fence lease rows = (case lease of
      None \<Rightarrow> True
    | Some l \<Rightarrow> (case find_row lease_key (session_of l) rows of
          None \<Rightarrow> False
        | Some r \<Rightarrow> lr_run r = l_run l \<and> lr_fence r = l_fence l))"

section \<open>The heartbeat\<close>

text \<open>
  A beat: the monotonic time its renewal started, what came of it (\<open>None\<close>: an exception or a
  timeout) and the time it was over.
\<close>

record beat =
  bt_started :: secs
  bt_renewed :: "bool option"
  bt_ended :: secs

datatype heart = Beating secs | Lost

definition beat_once :: "secs \<Rightarrow> beat \<Rightarrow> secs \<Rightarrow> heart" where
  "beat_once ttl b deadline = (case bt_renewed b of
      Some False \<Rightarrow> Lost
    | r \<Rightarrow> (let deadline' = (if r = Some True then bt_started b + ttl else deadline)
           in if bt_ended b \<ge> deadline' then Lost else Beating deadline'))"

fun heartbeat :: "secs \<Rightarrow> secs \<Rightarrow> beat list \<Rightarrow> heart" where
  "heartbeat ttl deadline [] = Beating deadline"
| "heartbeat ttl deadline (b # bs) = (case beat_once ttl b deadline of
      Lost \<Rightarrow> Lost
    | Beating deadline' \<Rightarrow> heartbeat ttl deadline' bs)"

definition heartbeat_from :: "secs \<Rightarrow> secs \<Rightarrow> beat list \<Rightarrow> heart" where
  "heartbeat_from task_started ttl bs = heartbeat ttl (task_started + ttl) bs"

definition beat_every :: "secs \<Rightarrow> secs \<Rightarrow> secs" where
  "beat_every heartbeat_s ttl = min heartbeat_s (ttl / 3)"

section \<open>What the statements do to the token of a session\<close>

text \<open>The current (run, fence) of a session.\<close>

definition token :: "LeaseRow list \<Rightarrow> string \<times> string \<Rightarrow> (int \<times> int) option" where
  "token rows k = map_option (\<lambda>r. (lr_run r, lr_fence r)) (find_row lease_key k rows)"

definition expires :: "LeaseRow list \<Rightarrow> string \<times> string \<Rightarrow> instant option" where
  "expires rows k = map_option lr_until (find_row lease_key k rows)"

lemma find_row_update_keep:
  assumes "\<And>r. key (f r) = key r"
  shows "find_row key k (update_where P f rows) = map_option (\<lambda>r. if P r then f r else r) (find_row key k rows)"
  using assms by (induction rows) auto

lemma find_row_keyD: "find_row key k rows = Some r \<Longrightarrow> key r = k"
  using find_row_SomeD by metis

lemma lease_key_simps [simp]:
  "lease_key (taken_over now ttl run r) = lease_key r" "lease_key (r\<lparr>lr_until := u\<rparr>) = lease_key r"
  "lease_key (r\<lparr>lr_until := u, lr_heartbeat := h\<rparr>) = lease_key r"
  by (simp_all add: taken_over_def lease_key_def)

text \<open>A lease is current when its run and fence are the session's token.\<close>

lemma check_fence_token: "check_fence (Some l) rows \<longleftrightarrow> token rows (session_of l) = Some (l_run l, l_fence l)"
  by (auto simp: check_fence_def token_def split: option.splits)

lemma new_row_key [simp]:
  "lease_key \<lparr>lr_account = a, lr_session = sn, lr_run = run, lr_until = u, lr_heartbeat = h, lr_fence = f\<rparr> = (a, sn)"
  by (simp add: lease_key_def)

lemma taken_over_simps [simp]:
  "lr_run (taken_over now ttl run r) = run" "lr_fence (taken_over now ttl run r) = lr_fence r + 1"
  "lr_until (taken_over now ttl run r) = now + ttl"
  by (simp_all add: taken_over_def)

lemma acquire_token:
  assumes "acquire_lease now ttl a sn run rows = (res, rows')"
  shows "token rows' k = (if k = (a, sn) \<and> res \<noteq> None then Some (run, l_fence (the res)) else token rows k)"
    and "expires rows' k = (if k = (a, sn) \<and> res \<noteq> None then Some (now + ttl) else expires rows k)"
    and "res = Some l \<Longrightarrow> session_of l = (a, sn) \<and> l_run l = run \<and>
      (case token rows (a, sn) of None \<Rightarrow> l_fence l = 1 | Some (r, f) \<Rightarrow> l_fence l = f + 1 \<and> (\<exists>u. expires rows (a, sn) = Some u \<and> u < now))"
proof -
  consider (new) "find_row lease_key (a, sn) rows = None" | (held) r where "find_row lease_key (a, sn) rows = Some r" "\<not> lr_until r < now"
    | (over) r where "find_row lease_key (a, sn) rows = Some r" "lr_until r < now" by (cases "find_row lease_key (a, sn) rows") auto
  then have "(token rows' k = (if k = (a, sn) \<and> res \<noteq> None then Some (run, l_fence (the res)) else token rows k)) \<and>
      (expires rows' k = (if k = (a, sn) \<and> res \<noteq> None then Some (now + ttl) else expires rows k)) \<and>
      (res = Some l \<longrightarrow> session_of l = (a, sn) \<and> l_run l = run \<and>
      (case token rows (a, sn) of None \<Rightarrow> l_fence l = 1 | Some (r, f) \<Rightarrow> l_fence l = f + 1 \<and> (\<exists>u. expires rows (a, sn) = Some u \<and> u < now)))"
  proof cases
    case new
    then show ?thesis using assms
      by (auto simp: acquire_lease_def token_def expires_def find_row_append session_of_def split: option.splits)
  next
    case held
    then show ?thesis using assms by (simp add: acquire_lease_def)
  next
    case over
    have r: "lease_key r = (a, sn)" using over(1) by (rule find_row_keyD)
    show ?thesis
    proof (cases "k = (a, sn)")
      case True
      then show ?thesis using assms over r
        by (auto simp: acquire_lease_def token_def expires_def find_row_update_keep session_of_def)
    next
      case False
      then have "\<And>r'. find_row lease_key k rows = Some r' \<Longrightarrow> lease_key r' \<noteq> (a, sn)" using find_row_keyD by metis
      then show ?thesis using assms over r False
        by (cases "find_row lease_key k rows") (auto simp: acquire_lease_def token_def expires_def find_row_update_keep session_of_def)
    qed
  qed
  then show "token rows' k = (if k = (a, sn) \<and> res \<noteq> None then Some (run, l_fence (the res)) else token rows k)"
    "expires rows' k = (if k = (a, sn) \<and> res \<noteq> None then Some (now + ttl) else expires rows k)"
    "res = Some l \<Longrightarrow> session_of l = (a, sn) \<and> l_run l = run \<and>
      (case token rows (a, sn) of None \<Rightarrow> l_fence l = 1 | Some (r, f) \<Rightarrow> l_fence l = f + 1 \<and> (\<exists>u. expires rows (a, sn) = Some u \<and> u < now))"
    by blast+
qed

lemma renew_token:
  assumes "renew_lease now ttl l rows = (ok, rows')" "distinct (map lease_key rows)"
  shows "token rows' k = token rows k"
    and "expires rows' k = (if k = session_of l \<and> ok then Some (now + ttl) else expires rows k)"
    and "ok \<longleftrightarrow> token rows (session_of l) = Some (l_run l, l_fence l)"
proof -
  have ex: "list_ex (holds l) rows \<longleftrightarrow> token rows (session_of l) = Some (l_run l, l_fence l)"
  proof
    assume "list_ex (holds l) rows"
    then obtain r where "r \<in> set rows" "holds l r" by (auto simp: list_ex_iff)
    then show "token rows (session_of l) = Some (l_run l, l_fence l)"
      using find_row_distinct[OF assms(2), of r] by (auto simp: token_def holds_def)
  next
    assume "token rows (session_of l) = Some (l_run l, l_fence l)"
    then show "list_ex (holds l) rows"
      by (auto simp: token_def holds_def list_ex_iff dest: find_row_SomeD)
  qed
  then show "ok \<longleftrightarrow> token rows (session_of l) = Some (l_run l, l_fence l)" using assms(1) by (auto simp: renew_lease_def)
  show "token rows' k = token rows k"
    using assms(1) by (cases "find_row lease_key k rows") (auto simp: renew_lease_def token_def find_row_update_keep)
  show "expires rows' k = (if k = session_of l \<and> ok then Some (now + ttl) else expires rows k)"
  proof (cases "find_row lease_key k rows")
    case None
    then show ?thesis using assms(1) ex by (auto simp: renew_lease_def token_def expires_def find_row_update_keep)
  next
    case (Some r)
    then have "holds l r \<longleftrightarrow> k = session_of l \<and> ok"
      using find_row_keyD[OF Some] assms(1) ex by (auto simp: renew_lease_def token_def holds_def)
    then show ?thesis using assms(1) Some by (auto simp: renew_lease_def expires_def find_row_update_keep)
  qed
qed

lemma release_token:
  "token (release_lease now l rows) k = token rows k"
  "k \<noteq> session_of l \<Longrightarrow> expires (release_lease now l rows) k = expires rows k"
  "token rows (session_of l) \<noteq> Some (l_run l, l_fence l) \<Longrightarrow> expires (release_lease now l rows) k = expires rows k"
proof -
  show "token (release_lease now l rows) k = token rows k"
    by (cases "find_row lease_key k rows") (simp_all add: release_lease_def token_def find_row_update_keep)
  show "expires (release_lease now l rows) k = expires rows k" if "k \<noteq> session_of l"
    using that by (cases "find_row lease_key k rows")
      (auto simp: release_lease_def expires_def find_row_update_keep holds_def dest: find_row_keyD)
  show "expires (release_lease now l rows) k = expires rows k" if "token rows (session_of l) \<noteq> Some (l_run l, l_fence l)"
  proof (cases "find_row lease_key k rows")
    case (Some r)
    then have "\<not> holds l r" using that find_row_keyD[OF Some] by (auto simp: holds_def token_def)
    then show ?thesis using Some by (simp add: release_lease_def expires_def find_row_update_keep)
  qed (simp add: release_lease_def expires_def find_row_update_keep)
qed

lemma keys_stay_distinct:
  assumes "distinct (map lease_key rows)"
  shows "distinct (map lease_key (snd (acquire_lease now ttl a sn run rows)))"
    "distinct (map lease_key (snd (renew_lease now ttl l rows)))" "distinct (map lease_key (release_lease now l rows))"
proof -
  have keep: "map lease_key (update_where P f rows) = map lease_key rows" if "\<And>r. lease_key (f r) = lease_key r" for P f
    using that by (auto simp: update_where_def)
  show "distinct (map lease_key (snd (renew_lease now ttl l rows)))" "distinct (map lease_key (release_lease now l rows))"
    using assms by (simp_all add: renew_lease_def release_lease_def keep)
  show "distinct (map lease_key (snd (acquire_lease now ttl a sn run rows)))"
    using assms
    by (auto simp: acquire_lease_def Let_def keep find_row_None_iff split: option.splits)
qed

section \<open>Fencing as an interface\<close>

text \<open>
  What a client of the lease relies on: whatever statements other workers run, the fence of
  a session never goes back, and a write is let through only with the current fence. Then a
  write that is let through carries at least every fence the session had before.
\<close>

locale fencing =
  fixes stmt :: "'t \<Rightarrow> 't \<Rightarrow> bool" and fence_of :: "'t \<Rightarrow> 'k \<Rightarrow> int option" and may_write :: "'k \<Rightarrow> int \<Rightarrow> 't \<Rightarrow> bool"
    and wf :: "'t \<Rightarrow> bool"
  assumes fence_grows: "wf t \<Longrightarrow> stmt t t' \<Longrightarrow> fence_of t k = Some f \<Longrightarrow> \<exists>f'. fence_of t' k = Some f' \<and> f \<le> f'"
    and wf_kept: "wf t \<Longrightarrow> stmt t t' \<Longrightarrow> wf t'"
    and write_current: "may_write k f t \<Longrightarrow> fence_of t k = Some f"
begin

lemma fence_grows_star:
  assumes "stmt\<^sup>*\<^sup>* t t'" "wf t" "fence_of t k = Some f"
  shows "wf t' \<and> (\<exists>f'. fence_of t' k = Some f' \<and> f \<le> f')"
  using assms
proof (induction rule: rtranclp_induct)
  case (step u v)
  then obtain f' where "wf u" "fence_of u k = Some f'" "f \<le> f'" by blast
  then show ?case using fence_grows[OF _ step(2)] wf_kept[OF _ step(2)] by (meson order_trans)
qed auto

lemma late_write_has_latest_fence:
  assumes "stmt\<^sup>*\<^sup>* t t'" "wf t" "fence_of t k = Some f" "may_write k f' t'"
  shows "f \<le> f'"
  using fence_grows_star[OF assms(1-3)] write_current[OF assms(4)] by auto

end

text \<open>A statement any worker may run on the table.\<close>

inductive lease_stmt :: "LeaseRow list \<Rightarrow> LeaseRow list \<Rightarrow> bool" where
  stmt_acquire: "lease_stmt rows (snd (acquire_lease now ttl a sn run rows))"
| stmt_renew: "lease_stmt rows (snd (renew_lease now ttl l rows))"
| stmt_release: "lease_stmt rows (release_lease now l rows)"

definition lease_fence :: "LeaseRow list \<Rightarrow> string \<times> string \<Rightarrow> int option" where
  "lease_fence rows k = map_option snd (token rows k)"

definition writes_with :: "string \<times> string \<Rightarrow> int \<Rightarrow> LeaseRow list \<Rightarrow> bool" where
  "writes_with k f rows \<longleftrightarrow> (\<exists>l. session_of l = k \<and> l_fence l = f \<and> check_fence (Some l) rows)"

abbreviation lease_table :: "LeaseRow list \<Rightarrow> bool" where
  "lease_table rows \<equiv> distinct (map lease_key rows)"

interpretation lf: fencing lease_stmt lease_fence writes_with lease_table
proof
  show "lease_table t'" if "lease_table t" "lease_stmt t t'" for t t'
    using that(2,1) by cases (simp_all add: keys_stay_distinct)
  show "lease_fence t k = Some f" if "writes_with k f t" for k f t
    using that by (auto simp: writes_with_def lease_fence_def check_fence_token)
  show "\<exists>f'. lease_fence t' k = Some f' \<and> f \<le> f'"
    if wf: "lease_table t" and st: "lease_stmt t t'" and f: "lease_fence t k = Some f" for t t' k f
    using st
  proof cases
    case (stmt_acquire now ttl a sn run)
    then obtain res where r: "acquire_lease now ttl a sn run t = (res, t')" by (metis prod.collapse)
    show ?thesis using acquire_token(1)[OF r, of k] acquire_token(3)[OF r] f
      by (cases res) (auto simp: lease_fence_def split: if_splits option.splits)
  next
    case (stmt_renew now ttl l)
    then obtain ok where "renew_lease now ttl l t = (ok, t')" by (metis prod.collapse)
    from renew_token(1)[OF this wf] show ?thesis using f by (auto simp: lease_fence_def)
  next
    case (stmt_release now l)
    then show ?thesis using release_token(1) f by (auto simp: lease_fence_def)
  qed
qed

section \<open>Workers, heartbeats and writes\<close>

text \<open>
  \<open>lw_held\<close> lists every lease ever handed out, \<open>lw_heart\<close> the local deadline of a holder whose
  heartbeat is beating, with a flag that a renewal has succeeded; \<open>lw_writes\<close> the writes that
  passed the fence. A worker's monotonic clock is read on the scale of the database clock:
  both advance at the same rate.
\<close>

record lease_world =
  lw_now :: instant
  lw_rows :: "LeaseRow list"
  lw_held :: "Lease list"
  lw_heart :: "Lease \<Rightarrow> (bool \<times> secs) option"
  lw_writes :: "Lease list"

definition lease_start :: "instant \<Rightarrow> lease_world" where
  "lease_start now = \<lparr>lw_now = now, lw_rows = [], lw_held = [], lw_heart = (\<lambda>_. None), lw_writes = []\<rparr>"

definition heart_after :: "bool \<Rightarrow> heart \<Rightarrow> (bool \<times> secs) option" where
  "heart_after renewed h = (case h of Lost \<Rightarrow> None | Beating d \<Rightarrow> Some (renewed, d))"

inductive lease_step :: "secs \<Rightarrow> lease_world \<Rightarrow> lease_world \<Rightarrow> bool" for ttl where
  tick: "lw_now w \<le> t \<Longrightarrow> lease_step ttl w (w\<lparr>lw_now := t\<rparr>)"
| acquired: "acquire_lease (lw_now w) ttl a sn run (lw_rows w) = (Some l, rows') \<Longrightarrow> lw_now w \<le> t \<Longrightarrow>
    lease_step ttl w (w\<lparr>lw_now := t, lw_rows := rows', lw_held := lw_held w @ [l],
      lw_heart := (lw_heart w)(l := Some (False, t + ttl))\<rparr>)"
| refused: "acquire_lease (lw_now w) ttl a sn run (lw_rows w) = (None, rows') \<Longrightarrow> lease_step ttl w (w\<lparr>lw_rows := rows'\<rparr>)"
| beat: "lw_heart w l = Some (renewed, d) \<Longrightarrow> started \<le> lw_now w \<Longrightarrow> lw_now w \<le> t \<Longrightarrow>
    renew_lease (lw_now w) ttl l (lw_rows w) = (ok, rows') \<Longrightarrow>
    lease_step ttl w (w\<lparr>lw_now := t, lw_rows := rows', lw_heart := (lw_heart w)(l :=
      heart_after True (beat_once ttl \<lparr>bt_started = started, bt_renewed = Some ok, bt_ended = t\<rparr> d))\<rparr>)"
| beat_failed: "lw_heart w l = Some (renewed, d) \<Longrightarrow> lw_now w \<le> t \<Longrightarrow>
    rows' \<in> {lw_rows w, snd (renew_lease (lw_now w) ttl l (lw_rows w))} \<Longrightarrow>
    lease_step ttl w (w\<lparr>lw_now := t, lw_rows := rows', lw_heart := (lw_heart w)(l :=
      heart_after renewed (beat_once ttl \<lparr>bt_started = started, bt_renewed = None, bt_ended = t\<rparr> d))\<rparr>)"
| left: "l \<in> set (lw_held w) \<Longrightarrow> rows' \<in> {lw_rows w, release_lease (lw_now w) l (lw_rows w)} \<Longrightarrow>
    lease_step ttl w (w\<lparr>lw_rows := rows', lw_heart := (lw_heart w)(l := None)\<rparr>)"
| wrote: "l \<in> set (lw_held w) \<Longrightarrow> check_fence (Some l) (lw_rows w) \<Longrightarrow> lease_step ttl w (w\<lparr>lw_writes := lw_writes w @ [l]\<rparr>)"

abbreviation lease_reachable :: "secs \<Rightarrow> lease_world \<Rightarrow> bool" where
  "lease_reachable ttl \<equiv> reach (\<lambda>w. \<exists>now. w = lease_start now) (lease_step ttl)"

definition held_ok :: "LeaseRow list \<Rightarrow> Lease list \<Rightarrow> bool" where
  "held_ok rows ls \<longleftrightarrow> (\<forall>l \<in> set ls. \<exists>run f. token rows (session_of l) = Some (run, f) \<and> l_fence l \<le> f \<and>
     (l_fence l = f \<longrightarrow> run = l_run l)) \<and>
   sorted_wrt (\<lambda>l l'. session_of l = session_of l' \<longrightarrow> l_fence l < l_fence l') ls"

definition writes_ok :: "Lease list \<Rightarrow> Lease list \<Rightarrow> bool" where
  "writes_ok held ws \<longleftrightarrow> set ws \<subseteq> set held \<and> sorted_wrt (\<lambda>l l'. session_of l = session_of l' \<longrightarrow> l_fence l \<le> l_fence l') ws"

text \<open>The deadline of a renewed heartbeat has passed, or its lease is current and expires no earlier.\<close>

definition heart_ok :: "instant \<Rightarrow> LeaseRow list \<Rightarrow> Lease \<Rightarrow> secs \<Rightarrow> bool" where
  "heart_ok now rows l d \<longleftrightarrow> d < now \<or>
     token rows (session_of l) = Some (l_run l, l_fence l) \<and> (\<exists>u. expires rows (session_of l) = Some u \<and> d \<le> u)"

definition lease_inv :: "secs \<Rightarrow> lease_world \<Rightarrow> bool" where
  "lease_inv ttl w \<longleftrightarrow> lease_table (lw_rows w) \<and> held_ok (lw_rows w) (lw_held w) \<and> writes_ok (lw_held w) (lw_writes w) \<and>
     (\<forall>k u. expires (lw_rows w) k = Some u \<longrightarrow> u \<le> lw_now w + ttl) \<and>
     (\<forall>l renewed d. lw_heart w l = Some (renewed, d) \<longrightarrow> l \<in> set (lw_held w) \<and> (renewed \<longrightarrow> heart_ok (lw_now w) (lw_rows w) l d))"

lemma lease_eqI: "session_of l = session_of l' \<Longrightarrow> l_run l = l_run l' \<Longrightarrow> l_fence l = l_fence l' \<Longrightarrow> l = (l' :: Lease)"
  by (cases l, cases l') (simp add: session_of_def)

lemma held_ok_token_kept: "held_ok rows ls \<Longrightarrow> (\<And>k. token rows' k = token rows k) \<Longrightarrow> held_ok rows' ls"
  by (simp add: held_ok_def)

lemma held_ok_acquire:
  assumes "held_ok rows ls" "acquire_lease now ttl a sn run rows = (Some l, rows')"
  shows "held_ok rows' (ls @ [l])" "l \<notin> set ls"
proof -
  note t = acquire_token(1)[OF assms(2)] and n = acquire_token(3)[OF assms(2) refl]
  have lt: "l_fence l' < l_fence l" if "l' \<in> set ls" "session_of l' = session_of l" for l'
    using that assms(1) n by (fastforce simp: held_ok_def split: option.splits)
  then show "l \<notin> set ls" by blast
  have "\<exists>r f. token rows' (session_of l') = Some (r, f) \<and> l_fence l' \<le> f \<and> (l_fence l' = f \<longrightarrow> r = l_run l')" if "l' \<in> set ls" for l'
  proof (cases "session_of l' = session_of l")
    case True
    then show ?thesis using t[of "session_of l'"] n lt[OF that True] by auto
  next
    case False
    then show ?thesis using t[of "session_of l'"] n that assms(1) by (auto simp: held_ok_def)
  qed
  then show "held_ok rows' (ls @ [l])" using assms(1) t[of "session_of l"] n lt
    by (auto simp: held_ok_def sorted_wrt_append)
qed

lemma heart_ok_later: "heart_ok now rows l d \<Longrightarrow> now \<le> t \<Longrightarrow> heart_ok t rows l d"
  by (auto simp: heart_ok_def)

lemma heart_ok_acquire:
  assumes "heart_ok now rows l d" "acquire_lease now ttl a sn run rows = (Some l', rows')" "now \<le> t"
  shows "heart_ok t rows' l d"
proof (cases "session_of l = (a, sn)")
  case True
  then show ?thesis using assms(1,3) acquire_token(3)[OF assms(2) refl] by (auto simp: heart_ok_def)
next
  case False
  then show ?thesis using assms(1,3) acquire_token(1,2)[OF assms(2), of "session_of l"] by (auto simp: heart_ok_def)
qed

lemma heart_ok_renew:
  assumes "heart_ok now rows l d" "lease_table rows" "renew_lease now ttl l' rows = (ok, rows')" "now \<le> t"
    and "\<And>k u. expires rows k = Some u \<Longrightarrow> u \<le> now + ttl"
  shows "heart_ok t rows' l d"
proof (cases "d < now")
  case True
  then show ?thesis using assms(4) by (simp add: heart_ok_def)
next
  case False
  then obtain u where tk: "token rows (session_of l) = Some (l_run l, l_fence l)" "expires rows (session_of l) = Some u" "d \<le> u"
    using assms(1) by (auto simp: heart_ok_def)
  have "d \<le> now + ttl" using tk(3) assms(5)[OF tk(2)] by simp
  then show ?thesis using tk renew_token(1)[OF assms(3,2), of "session_of l"] renew_token(2)[OF assms(3,2), of "session_of l"]
    by (simp add: heart_ok_def)
qed

lemma heart_ok_release:
  assumes "heart_ok now rows l d" "l \<noteq> l'"
  shows "heart_ok now (release_lease now l' rows) l d"
proof (cases "session_of l = session_of l' \<and> token rows (session_of l') = Some (l_run l', l_fence l')")
  case True
  then have "token rows (session_of l) \<noteq> Some (l_run l, l_fence l)" using lease_eqI assms(2) by fastforce
  then show ?thesis using assms(1) by (simp add: heart_ok_def)
next
  case False
  then show ?thesis using assms(1) release_token by (metis heart_ok_def)
qed

lemma beat_once_renewed:
  assumes "heart_after True (beat_once ttl \<lparr>bt_started = s, bt_renewed = Some ok, bt_ended = t\<rparr> d) = Some (r, d')"
  shows "ok \<and> d' = s + ttl"
  using assms by (cases ok) (auto simp: heart_after_def beat_once_def Let_def split: if_splits)

lemma beat_once_failed:
  assumes "heart_after r0 (beat_once ttl \<lparr>bt_started = s, bt_renewed = None, bt_ended = t\<rparr> d) = Some (r, d')"
  shows "r = r0 \<and> d' = d"
  using assms by (auto simp: heart_after_def beat_once_def Let_def split: if_splits)

lemma expires_bound_acquire:
  assumes "\<And>k u. expires rows k = Some u \<Longrightarrow> u \<le> now + ttl" "acquire_lease now ttl a sn run rows = (res, rows')" "now \<le> t"
    "expires rows' k = Some u"
  shows "u \<le> t + ttl"
  using assms(1)[of k u] assms(3,4) acquire_token(2)[OF assms(2), of k] by (auto split: if_splits)

lemma expires_bound_renew:
  assumes "\<And>k u. expires rows k = Some u \<Longrightarrow> u \<le> now + ttl" "renew_lease now ttl l rows = (ok, rows')" "lease_table rows" "now \<le> t"
    "expires rows' k = Some u"
  shows "u \<le> t + ttl"
  using assms(1)[of k u] assms(4,5) renew_token(2)[OF assms(2,3), of k] by (auto split: if_splits)

lemma expires_bound_release:
  assumes "\<And>k u. expires rows k = Some u \<Longrightarrow> u \<le> now + ttl" "0 \<le> ttl" "expires (release_lease now l rows) k = Some u"
  shows "u \<le> now + ttl"
proof -
  have "\<exists>u'. expires rows k = Some u' \<and> (u = u' \<or> u = now - RELEASED_S)"
    using assms(3) by (auto simp: expires_def release_lease_def find_row_update_keep)
  then show ?thesis using assms(1)[of k] assms(2) by (auto simp: RELEASED_S_def)
qed

lemma lease_inv_step:
  assumes "lease_step ttl w w'" "lease_inv ttl w" "0 \<le> ttl"
  shows "lease_inv ttl w'"
proof -
  have I: "lease_table (lw_rows w)" "held_ok (lw_rows w) (lw_held w)" "writes_ok (lw_held w) (lw_writes w)"
    "\<And>k u. expires (lw_rows w) k = Some u \<Longrightarrow> u \<le> lw_now w + ttl"
    "\<And>l r d. lw_heart w l = Some (r, d) \<Longrightarrow> l \<in> set (lw_held w)"
    "\<And>l d. lw_heart w l = Some (True, d) \<Longrightarrow> heart_ok (lw_now w) (lw_rows w) l d"
    using assms(2) by (auto simp: lease_inv_def)
  show ?thesis using assms(1)
  proof cases
    case (tick t)
    then show ?thesis using I heart_ok_later[OF I(6)] by (fastforce simp: lease_inv_def)
  next
    case (acquired a sn run l rows' t)
    have tab: "lease_table rows'" using keys_stay_distinct(1)[OF I(1), of "lw_now w" ttl a sn run] acquired(2) by simp
    have wr: "writes_ok (lw_held w @ [l]) (lw_writes w)" using I(3) by (auto simp: writes_ok_def)
    show ?thesis unfolding acquired(1) lease_inv_def
      using tab held_ok_acquire[OF I(2) acquired(2)] wr expires_bound_acquire[OF I(4) acquired(2,3)] I(5)
        heart_ok_acquire[OF I(6) acquired(2,3)] by auto
  next
    case (refused a sn run rows')
    then have "rows' = lw_rows w" by (auto simp: acquire_lease_def Let_def split: option.splits if_splits)
    then show ?thesis using refused assms(2) by (simp add: lease_inv_def)
  next
    case (beat l renewed d s t ok rows')
    have tab: "lease_table rows'" using keys_stay_distinct(2)[OF I(1), of "lw_now w" ttl l] beat(5) by simp
    have held: "held_ok rows' (lw_held w)" by (rule held_ok_token_kept[OF I(2)]) (rule renew_token(1)[OF beat(5) I(1)])
    have new: "l \<in> set (lw_held w)" using I(5)[OF beat(2)] .
    have ok': "heart_ok t rows' l d'"
      if "heart_after True (beat_once ttl \<lparr>bt_started = s, bt_renewed = Some ok, bt_ended = t\<rparr> d) = Some (r, d')" for r d'
      using beat_once_renewed[OF that] renew_token[OF beat(5) I(1)] beat(3) by (auto simp: heart_ok_def)
    show ?thesis unfolding beat(1) lease_inv_def
      using tab held I(3) expires_bound_renew[OF I(4) beat(5) I(1) beat(4)] I(5) new ok'
        heart_ok_renew[OF I(6) I(1) beat(5,4) I(4)] by auto
  next
    case (beat_failed l renewed d t rows' s)
    obtain ok rows1 where rn: "renew_lease (lw_now w) ttl l (lw_rows w) = (ok, rows1)" by fastforce
    have tab: "lease_table rows'" using beat_failed(4) I(1) keys_stay_distinct(2)[OF I(1), of "lw_now w" ttl l] by auto
    have held: "held_ok rows' (lw_held w)"
      using beat_failed(4) I(2) held_ok_token_kept[OF I(2)] renew_token(1)[OF rn I(1)] rn by auto
    have ex: "u \<le> t + ttl" if "expires rows' k = Some u" for k u
      using beat_failed(3,4) that I(4)[of k u] expires_bound_renew[OF I(4) rn I(1) beat_failed(3), where k = k and u = u] rn by auto
    have hk: "heart_ok t rows' l' d'" if "lw_heart w l' = Some (True, d')" for l' d'
      using beat_failed(4) heart_ok_later[OF I(6)[OF that] beat_failed(3)] heart_ok_renew[OF I(6)[OF that] I(1) rn beat_failed(3) I(4)] rn
      by auto
    show ?thesis unfolding beat_failed(1) lease_inv_def
      using tab held I(3) ex I(5) hk beat_failed(2) by (auto dest!: beat_once_failed)
  next
    case (left l rows')
    have tab: "lease_table rows'" using left(3) I(1) keys_stay_distinct(3)[OF I(1)] by auto
    have held: "held_ok rows' (lw_held w)" using left(3) I(2) held_ok_token_kept[OF I(2)] release_token(1) by auto
    have ex: "u \<le> lw_now w + ttl" if "expires rows' k = Some u" for k u
      using left(3) that I(4)[of k u] expires_bound_release[OF I(4) assms(3), where k = k and u = u] by auto
    show ?thesis unfolding left(1) lease_inv_def
      using tab held I(3) ex I(5,6) left(3) heart_ok_release[OF I(6)] by auto
  next
    case (wrote l)
    have "l_fence l' \<le> l_fence l" if "l' \<in> set (lw_held w)" "session_of l' = session_of l" for l'
      using that wrote(3) I(2) by (fastforce simp: check_fence_token held_ok_def)
    then have "writes_ok (lw_held w) (lw_writes w @ [l])"
      using I(3) wrote(2) by (auto simp: writes_ok_def sorted_wrt_append)
    then show ?thesis using assms(2) unfolding wrote(1) lease_inv_def by simp
  qed
qed

lemma lease_reachable_inv: "lease_reachable ttl w \<Longrightarrow> 0 \<le> ttl \<Longrightarrow> lease_inv ttl w"
proof (induction rule: reach.induct)
  case (reach_init w)
  then show ?case by (auto simp: lease_inv_def lease_start_def held_ok_def writes_ok_def expires_def)
qed (use lease_inv_step in blast)

text \<open>
  C8. Fencing. In every state the workers can reach, whatever crashes, hangs and takeovers came
  before: the leases handed out for a session carry strictly increasing fence tokens, every
  write that passed the fence was made under a lease that was handed out, and the writes of
  a session are ordered by token. So once a run has taken a session over and written, its
  predecessor never writes again, and two writes with one token come from one lease.
\<close>

theorem zombie_never_writes:
  assumes "lease_reachable ttl w" "0 \<le> ttl"
  shows "sorted_wrt (\<lambda>l l'. session_of l = session_of l' \<longrightarrow> l_fence l < l_fence l') (lw_held w) \<and>
    sorted_wrt (\<lambda>l l'. session_of l = session_of l' \<longrightarrow> l_fence l \<le> l_fence l') (lw_writes w) \<and>
    (\<forall>l l'. l \<in> set (lw_writes w) \<and> l' \<in> set (lw_writes w) \<and> session_of l = session_of l' \<and> l_fence l = l_fence l' \<longrightarrow> l = l')"
proof -
  have inv: "held_ok (lw_rows w) (lw_held w)" "writes_ok (lw_held w) (lw_writes w)"
    using lease_reachable_inv[OF assms] by (simp_all add: lease_inv_def)
  have "l = l'" if mem: "l \<in> set (lw_held w)" "l' \<in> set (lw_held w)" and same: "session_of l = session_of l'" "l_fence l = l_fence l'" for l l'
  proof -
    obtain i j where ij: "i < length (lw_held w)" "lw_held w ! i = l" "j < length (lw_held w)" "lw_held w ! j = l'"
      using mem by (auto simp: in_set_conv_nth)
    have "\<not> i < j" "\<not> j < i"
      using inv(1) ij same unfolding held_ok_def sorted_wrt_iff_nth_less by fastforce+
    then show ?thesis using ij by simp
  qed
  then show ?thesis using inv by (auto simp: held_ok_def writes_ok_def)
qed

text \<open>
  C9. Mutual exclusion. A run whose heartbeat has renewed its lease and whose local deadline has not
  passed is alone: its lease is the current one, no other run can acquire the session at that
  moment, and no other lease of the session can write. A run that stops at its local deadline
  therefore never drives the CLI session together with a successor.
\<close>

theorem beating_holder_is_alone:
  assumes "lease_reachable ttl w" "0 \<le> ttl" "lw_heart w l = Some (True, d)" "lw_now w \<le> d"
  shows "check_fence (Some l) (lw_rows w) \<and>
    fst (acquire_lease (lw_now w) ttl (l_account l) (l_session l) run (lw_rows w)) = None \<and>
    (\<forall>l'. session_of l' = session_of l \<and> l' \<noteq> l \<longrightarrow> \<not> check_fence (Some l') (lw_rows w))"
proof -
  have "heart_ok (lw_now w) (lw_rows w) l d" using lease_reachable_inv[OF assms(1,2)] assms(3) by (auto simp: lease_inv_def)
  then obtain u where cur: "token (lw_rows w) (session_of l) = Some (l_run l, l_fence l)"
    "expires (lw_rows w) (session_of l) = Some u" "lw_now w \<le> u"
    using assms(4) by (auto simp: heart_ok_def)
  then have "fst (acquire_lease (lw_now w) ttl (l_account l) (l_session l) run (lw_rows w)) = None"
    by (auto simp: acquire_lease_def Let_def expires_def session_of_def)
  then show ?thesis using cur(1) lease_eqI by (auto simp: check_fence_token)
qed

text \<open>
  The deadline a heartbeat starts with is counted from the start of its task, after the
  lease was taken. Until the first renewal succeeds it may lie after the expiry of the
  lease: here the task starts 50 seconds after the statement and a second run takes the
  session over while the first still has 40 seconds to go.
\<close>

definition first_lease :: Lease where
  "first_lease = \<lparr>l_account = ''owner'', l_session = ''s'', l_run = 1, l_fence = 1\<rparr>"

definition second_lease :: Lease where
  "second_lease = \<lparr>l_account = ''owner'', l_session = ''s'', l_run = 2, l_fence = 2\<rparr>"

definition lease_row_at :: "int \<Rightarrow> instant \<Rightarrow> instant \<Rightarrow> int \<Rightarrow> LeaseRow" where
  "lease_row_at run until hb f = \<lparr>lr_account = ''owner'', lr_session = ''s'', lr_run = run, lr_until = until, lr_heartbeat = hb, lr_fence = f\<rparr>"

definition overtaken :: lease_world where
  "overtaken = \<lparr>lw_now = 130, lw_rows = [lease_row_at 2 250 130 2], lw_held = [first_lease, second_lease],
     lw_heart = (\<lambda>_. None)(first_lease := Some (False, 170), second_lease := Some (False, 250)), lw_writes = []\<rparr>"

theorem first_deadline_outlives_lease:
  "lease_reachable 120 overtaken \<and> lw_heart overtaken first_lease = Some (False, 170) \<and> lw_now overtaken \<le> 170 \<and>
   \<not> check_fence (Some first_lease) (lw_rows overtaken) \<and> check_fence (Some second_lease) (lw_rows overtaken)"
proof -
  let ?w0 = "lease_start 0"
  let ?w1 = "?w0\<lparr>lw_now := 50, lw_rows := [lease_row_at 1 120 0 1], lw_held := [first_lease], lw_heart := (\<lambda>_. None)(first_lease := Some (False, 170))\<rparr>"
  have r0: "lease_reachable 120 ?w0" by (rule reach_init) blast
  have a1: "acquire_lease (lw_now ?w0) 120 ''owner'' ''s'' 1 (lw_rows ?w0) = (Some first_lease, [lease_row_at 1 120 0 1])"
    by (simp add: acquire_lease_def lease_start_def first_lease_def lease_row_at_def)
  have r1: "lease_reachable 120 ?w1"
    using lease_step.acquired[OF a1, of 50] by (intro reach_step[OF r0]) (simp add: lease_start_def)
  have r2: "lease_reachable 120 (?w1\<lparr>lw_now := 130\<rparr>)"
    using lease_step.tick[of ?w1 130] by (intro reach_step[OF r1]) simp
  have a2: "acquire_lease (lw_now (?w1\<lparr>lw_now := 130\<rparr>)) 120 ''owner'' ''s'' 2 (lw_rows (?w1\<lparr>lw_now := 130\<rparr>)) =
      (Some second_lease, [lease_row_at 2 250 130 2])"
    by (simp add: acquire_lease_def lease_key_def second_lease_def lease_row_at_def taken_over_def)
  have "lease_reachable 120 overtaken"
    using lease_step.acquired[OF a2, of 130] by (intro reach_step[OF r2]) (simp add: lease_start_def overtaken_def)
  then show ?thesis
    by (simp add: overtaken_def check_fence_def lease_row_at_def lease_key_def session_of_def first_lease_def second_lease_def)
qed

text \<open>A lease that was renewed once.\<close>

definition renewed_world :: lease_world where
  "renewed_world = \<lparr>lw_now = 40, lw_rows = [lease_row_at 1 160 40 1], lw_held = [first_lease],
     lw_heart = (\<lambda>_. None)(first_lease := Some (True, 155)), lw_writes = [first_lease]\<rparr>"

lemma renewed_world_reachable: "lease_reachable 120 renewed_world"
proof -
  let ?w0 = "lease_start 0"
  let ?w1 = "?w0\<lparr>lw_now := 0, lw_rows := [lease_row_at 1 120 0 1], lw_held := [first_lease], lw_heart := (\<lambda>_. None)(first_lease := Some (False, 120))\<rparr>"
  let ?w2 = "?w1\<lparr>lw_now := 40\<rparr>"
  let ?w3 = "?w2\<lparr>lw_rows := [lease_row_at 1 160 40 1], lw_heart := (\<lambda>_. None)(first_lease := Some (True, 155))\<rparr>"
  have r0: "lease_reachable 120 ?w0" by (rule reach_init) blast
  have a1: "acquire_lease (lw_now ?w0) 120 ''owner'' ''s'' 1 (lw_rows ?w0) = (Some first_lease, [lease_row_at 1 120 0 1])"
    by (simp add: acquire_lease_def lease_start_def first_lease_def lease_row_at_def)
  have r1: "lease_reachable 120 ?w1"
    using lease_step.acquired[OF a1, of 0] by (intro reach_step[OF r0]) (simp add: lease_start_def)
  have r2: "lease_reachable 120 ?w2" using lease_step.tick[of ?w1 40] by (intro reach_step[OF r1]) simp
  have b: "renew_lease (lw_now ?w2) 120 first_lease (lw_rows ?w2) = (True, [lease_row_at 1 160 40 1])"
    by (simp add: renew_lease_def holds_def lease_key_def session_of_def first_lease_def lease_row_at_def)
  have h: "heart_after True (beat_once 120 \<lparr>bt_started = 35, bt_renewed = Some True, bt_ended = 40\<rparr> 120) = Some (True, 155)"
    by (simp add: heart_after_def beat_once_def)
  have r3: "lease_reachable 120 ?w3"
    using lease_step.beat[of ?w2 first_lease False 120 35 40, OF _ _ _ b] h by (intro reach_step[OF r2]) simp
  have "lease_step 120 ?w3 renewed_world"
    using lease_step.wrote[of first_lease ?w3]
    by (simp add: renewed_world_def lease_start_def check_fence_def lease_row_at_def lease_key_def session_of_def first_lease_def)
  with r3 show ?thesis by (rule reach_step)
qed

definition fences_ordered :: "Lease list \<Rightarrow> bool" where
  "fences_ordered ls \<longleftrightarrow> sorted_wrt (\<lambda>l l'. session_of l = session_of l' \<longrightarrow> l_fence l \<le> l_fence l') ls"

theorem zombie_never_writes_witness:
  "lw_writes renewed_world = [first_lease] \<and> fences_ordered (lw_writes renewed_world)"
proof -
  have "lw_writes renewed_world = [first_lease]" by (simp add: renewed_world_def)
  then show ?thesis using zombie_never_writes[OF renewed_world_reachable] by (simp add: fences_ordered_def)
qed

theorem beating_holder_is_alone_witness:
  "fst (acquire_lease 40 120 ''owner'' ''s'' 7 [lease_row_at 1 160 40 1]) = None"
  using beating_holder_is_alone[OF renewed_world_reachable, of first_lease 155 7]
  by (simp add: renewed_world_def first_lease_def)

end
