(* ===== verification/Agent_Redact.thy ===== *)
theory Agent_Redact
  imports Answer_Gate Job_List
begin

text \<open>
  \<^verbatim>\<open>agent/redact.py\<close>: masking of secret-looking spans in everything an agent run stores. The
  patterns are those of the code over the regular expressions of \<open>Regex\<close>; a replacement may
  keep the text of the pattern's group.
\<close>

section \<open>Patterns\<close>

text \<open>\<^verbatim>\<open>pattern.sub(lambda m: ..., s)\<close>, where the replacement reads group 1.\<close>

function subg_from :: "rx \<Rightarrow> (string \<Rightarrow> string) \<Rightarrow> char option \<Rightarrow> string \<Rightarrow> string" where
  "subg_from r f pr s = (case rx_match r (pr, s, None) of
      (pr', rest', cp) # _ \<Rightarrow>
        f (opt_or cp []) @ (if length rest' < length s then subg_from r f pr' rest'
               else (case s of [] \<Rightarrow> [] | c # cs \<Rightarrow> c # subg_from r f (Some c) cs))
    | [] \<Rightarrow> (case s of [] \<Rightarrow> [] | c # cs \<Rightarrow> c # subg_from r f (Some c) cs))"
  by pat_completeness auto
termination
  by (relation "measure (\<lambda>(r, f, pr, s). length s)") auto

declare subg_from.simps [simp del]

definition rx_subg :: "rx \<Rightarrow> (string \<Rightarrow> string) \<Rightarrow> string \<Rightarrow> string" where
  "rx_subg r f s = subg_from r f None s"

definition REDACTED :: string where "REDACTED = ''[REDACTED]''"

definition TOKEN_KEYS :: "string list" where "TOKEN_KEYS = [''refresh_token'', ''access_token'', ''id_token'']"

definition quote :: char where "quote = CHR 0x22"

definition b64url :: "char \<Rightarrow> bool" where "b64url c \<longleftrightarrow> alnum c \<or> c \<in> set ''_-''"

definition JWT :: rx where
  "JWT = rx_seq [rx_str ''eyJ'', rx_plus (Sym b64url), sym CHR ''.'', rx_plus (Sym b64url), sym CHR ''.'', rx_plus (Sym b64url)]"

definition token_name :: rx where "token_name = rx_alt (map rx_str_i TOKEN_KEYS)"

definition TOKEN_JSON :: rx where
  "TOKEN_JSON = rx_seq
     [Cap (rx_seq [sym quote, token_name, sym quote, rx_star rx_space, sym CHR '':'', rx_star rx_space]),
      sym quote, rx_star (Sym (\<lambda>c. c \<noteq> quote)), sym quote]"

definition quoted_with :: "char \<Rightarrow> rx" where
  "quoted_with q = rx_seq [sym q, rx_star (Sym (\<lambda>c. c \<noteq> q \<and> c \<noteq> CHR 0x0A)), sym q]"

definition TOKEN_KV :: rx where
  "TOKEN_KV = rx_seq
     [WordB, Cap (rx_seq [token_name, rx_star rx_space, one_of ''=:'', rx_star rx_space]),
      rx_alt [quoted_with quote, quoted_with CHR 0x27,
              rx_seq [rx_opt (one_of [quote, CHR 0x27]),
                      rx_plus (Sym (\<lambda>c. \<not> is_space c \<and> c \<notin> {quote, CHR 0x27, CHR '','', CHR ''}''}))]]]"

definition SK :: rx where
  "SK = rx_seq [WordB, rx_str ''sk-'', Sym alnum, Rep True 8 None (Sym b64url)]"

definition SESS :: rx where
  "SESS = rx_seq [WordB, rx_str ''sess-'', Rep True 8 None (Sym b64url)]"

section \<open>Redaction\<close>

definition redact :: "string \<Rightarrow> string" where
  "redact text =
     rx_sub SESS REDACTED (rx_sub SK REDACTED (rx_sub JWT REDACTED
       (rx_subg TOKEN_KV (\<lambda>g. g @ REDACTED)
         (rx_subg TOKEN_JSON (\<lambda>g. g @ [quote] @ REDACTED @ [quote]) text))))"

text \<open>A dictionary built entry by entry: a repeated key keeps its place and takes the last value.\<close>

definition dict_of :: "(string \<times> 'v) list \<Rightarrow> (string \<times> 'v) list" where
  "dict_of kvs = fold (\<lambda>(k, v). dict_set k v) kvs []"

fun redact_obj :: "json \<Rightarrow> json" where
  "redact_obj (JStr s) = JStr (redact s)"
| "redact_obj (JObj kvs) = JObj (dict_of (map (\<lambda>(k, v). (redact k,
     case v of JStr _ \<Rightarrow> if py_lower k \<in> set TOKEN_KEYS then JStr REDACTED else redact_obj v | _ \<Rightarrow> redact_obj v)) kvs))"
| "redact_obj (JList vs) = JList (map redact_obj vs)"
| "redact_obj v = v"

definition redact_final_text :: "(rat \<Rightarrow> string) \<Rightarrow> string \<Rightarrow> json \<Rightarrow> string" where
  "redact_final_text fr text response_format =
     (if wants_json response_format
      then case loads_strict text of
             Inl _ \<Rightarrow> redact text
           | Inr value \<Rightarrow> (let cleaned = redact_obj value
                          in if cleaned = value then text else json_dumps fr '', '' '': '' cleaned)
      else redact text)"

definition redact_bytes :: "string \<Rightarrow> string" where
  "redact_bytes data = (if utf8_ok (map of_char data) then redact data else data)"

section \<open>Masked text is marked\<close>

abbreviation mark :: char where "mark \<equiv> CHR ''[''"

lemma sub_keeps_or_marks: "mark \<in> set rep \<Longrightarrow> sub_from r rep pr s = s \<or> mark \<in> set (sub_from r rep pr s)"
  by (induction r rep pr s rule: sub_from.induct) (subst (1 2) sub_from.simps, auto split: list.splits prod.splits)

lemma subg_keeps_or_marks: "(\<And>g. mark \<in> set (f g)) \<Longrightarrow> subg_from r f pr s = s \<or> mark \<in> set (subg_from r f pr s)"
  by (induction r f pr s rule: subg_from.induct) (subst (1 2) subg_from.simps, auto split: list.splits prod.splits)

lemma redact_keeps_or_marks: "redact s = s \<or> mark \<in> set (redact s)"
proof -
  have m: "mark \<in> set REDACTED" by (simp add: REDACTED_def)
  have a: "rx_sub r REDACTED t = t \<or> mark \<in> set (rx_sub r REDACTED t)" for r t
    unfolding rx_sub_def by (rule sub_keeps_or_marks[OF m])
  have b: "rx_subg r (\<lambda>g. g @ REDACTED) t = t \<or> mark \<in> set (rx_subg r (\<lambda>g. g @ REDACTED) t)"
    "rx_subg r (\<lambda>g. g @ [quote] @ REDACTED @ [quote]) t = t \<or> mark \<in> set (rx_subg r (\<lambda>g. g @ [quote] @ REDACTED @ [quote]) t)" for r t
    unfolding rx_subg_def by (rule subg_keeps_or_marks; simp add: m)+
  show ?thesis unfolding redact_def by (metis a b)
qed

lemma token_key_unmarked: "py_lower k \<in> set TOKEN_KEYS \<Longrightarrow> mark \<notin> set k"
proof
  assume k: "py_lower k \<in> set TOKEN_KEYS" "mark \<in> set k"
  have "lower_char mark \<in> set (py_lower k)" unfolding py_lower_def set_map using k(2) by (rule imageI)
  moreover have "lower_char mark = mark" by code_simp
  ultimately show False using k(1) by (auto simp: TOKEN_KEYS_def)
qed

lemma redact_token_key: "py_lower (redact k) \<in> set TOKEN_KEYS \<Longrightarrow> redact k = k"
  using redact_keeps_or_marks[of k] token_key_unmarked by blast

section \<open>Dictionaries\<close>

lemma dict_set_set: "set (dict_set k v d) \<subseteq> insert (k, v) (set d)"
  by (induction k v d rule: dict_set.induct) auto

lemma dict_fold_set: "set (fold (\<lambda>(k, v). dict_set k v) kvs d) \<subseteq> set kvs \<union> set d"
proof (induction kvs arbitrary: d)
  case (Cons kv kvs)
  obtain k v where kv: "kv = (k, v)" by fastforce
  then show ?case using Cons.IH[of "dict_set k v d"] dict_set_set[of k v d] by auto
qed auto

lemma dict_fold_keys: "distinct (map fst d) \<Longrightarrow> distinct (map fst (fold (\<lambda>(k, v). dict_set k v) kvs d))"
  by (induction kvs arbitrary: d) (auto simp: case_prod_beta)

lemma dict_of_facts: "set (dict_of kvs) \<subseteq> set kvs" "distinct (map fst (dict_of kvs))"
  unfolding dict_of_def using dict_fold_set[of kvs "[]"] dict_fold_keys[of "[]"] by auto

lemma dict_of_entry: "(k, v) \<in> set (dict_of (map f kvs)) \<Longrightarrow> \<exists>kv \<in> set kvs. f kv = (k, v)"
  using dict_of_facts(1)[of "map f kvs"] by fastforce

section \<open>What redaction guarantees\<close>

text \<open>No member named like a token still has a string of its own, at any depth.\<close>

fun token_free :: "json \<Rightarrow> bool" where
  "token_free (JObj kvs) \<longleftrightarrow> list_all (\<lambda>(k, v). token_free v \<and>
     (py_lower k \<in> set TOKEN_KEYS \<longrightarrow> (\<forall>s. v = JStr s \<longrightarrow> s = REDACTED))) kvs"
| "token_free (JList vs) \<longleftrightarrow> list_all token_free vs"
| "token_free _ \<longleftrightarrow> True"

lemma redact_obj_JStr: "redact_obj v = JStr s \<Longrightarrow> \<exists>t. v = JStr t"
  by (cases v) auto

lemma redact_obj_token_free: "token_free (redact_obj v)"
proof (induction v)
  case (JObj kvs)
  have "token_free w \<and> (py_lower k \<in> set TOKEN_KEYS \<longrightarrow> (\<forall>s. w = JStr s \<longrightarrow> s = REDACTED))"
    if entry: "(k, w) \<in> set (dict_of (map (\<lambda>(k, v). (redact k,
     case v of JStr _ \<Rightarrow> if py_lower k \<in> set TOKEN_KEYS then JStr REDACTED else redact_obj v | _ \<Rightarrow> redact_obj v)) kvs))" for k w
  proof -
    obtain k0 v0 where kv: "(k0, v0) \<in> set kvs" "k = redact k0"
      "w = (case v0 of JStr _ \<Rightarrow> if py_lower k0 \<in> set TOKEN_KEYS then JStr REDACTED else redact_obj v0 | _ \<Rightarrow> redact_obj v0)"
      using dict_of_entry[OF entry] by fastforce
    have "token_free (redact_obj v0)" using JObj kv(1) by (auto intro: snds.intros)
    then have "token_free w" using kv(3) by (cases v0) auto
    moreover have "s = REDACTED" if tk: "py_lower k \<in> set TOKEN_KEYS" and w: "w = JStr s" for s
      using redact_token_key[of k0] tk w kv(2,3) by (cases v0) (auto dest: redact_obj_JStr)
    ultimately show ?thesis by blast
  qed
  then show ?case by (auto simp: list_all_iff)
qed (auto simp: list_all_iff)

lemma redact_obj_printable: "printable v \<Longrightarrow> printable (redact_obj v)"
proof (induction v)
  case (JObj kvs)
  have "printable w" if entry: "(k, w) \<in> set (dict_of (map (\<lambda>(k, v). (redact k,
     case v of JStr _ \<Rightarrow> if py_lower k \<in> set TOKEN_KEYS then JStr REDACTED else redact_obj v | _ \<Rightarrow> redact_obj v)) kvs))" for k w
  proof -
    obtain k0 v0 where kv: "(k0, v0) \<in> set kvs"
      "w = (case v0 of JStr _ \<Rightarrow> if py_lower k0 \<in> set TOKEN_KEYS then JStr REDACTED else redact_obj v0 | _ \<Rightarrow> redact_obj v0)"
      using dict_of_entry[OF entry] by fastforce
    have "printable (redact_obj v0)" using JObj kv(1) by (auto simp: list_all_iff intro: snds.intros)
    then show ?thesis using kv(2) by (cases v0) auto
  qed
  then show ?case using dict_of_facts(2) by (auto simp: list_all_iff)
qed (auto simp: list_all_iff)



end
