(* ===== verification/Job_Files.thy ===== *)
theory Job_Files
  imports Job_List Circuit
begin

text \<open>
  \<^verbatim>\<open>agent/job_files.py\<close>: the bytes of the files an agent job produced are moved from the JSON of
  the result into table rows and put back when the result is served. SHA-256 and the reading
  of an ISO timestamp are arguments.
\<close>

section \<open>Standard Base64\<close>

definition std_char :: "char \<Rightarrow> char" where
  "std_char c = (if c = CHR ''-'' then CHR ''+'' else if c = CHR ''_'' then CHR ''/'' else c)"

definition url_char :: "char \<Rightarrow> char" where
  "url_char c = (if c = CHR ''+'' then CHR ''-'' else if c = CHR ''/'' then CHR ''_'' else c)"

definition b64encode :: "string \<Rightarrow> string" where
  "b64encode data = map std_char (urlsafe_b64encode data)"

text \<open>\<^verbatim>\<open>b64decode(..., validate=True)\<close>: only alphabet characters, in groups of four with complete padding.\<close>

definition b64decode_strict :: "string \<Rightarrow> string option" where
  "b64decode_strict s =
     (let body = takeWhile (\<lambda>c. c \<noteq> CHR ''='') s; pads = dropWhile (\<lambda>c. c \<noteq> CHR ''='') s in
      if list_all (\<lambda>c. c \<in> set B64_ALPHABET \<and> c \<notin> set ''-_'' \<or> c \<in> set ''+/'') body \<and>
         list_all (\<lambda>c. c = CHR ''='') pads \<and> length s mod 4 = 0 \<and> length pads \<le> 2
      then urlsafe_b64decode (map url_char s) else None)"

section \<open>Files\<close>

type_synonym file_meta = "(string \<times> json) list"

record FileRow =
  fr_job :: int
  fr_idx :: nat
  fr_sha256 :: string
  fr_mime :: string
  fr_size :: int
  fr_expires_at :: "instant option"
  fr_data :: string

definition REF_KEY :: string where "REF_KEY = ''content_ref''"

definition BINARY_MIMES :: "(string \<times> string) list" where
  "BINARY_MIMES = [(''.png'', ''image/png''), (''.jpg'', ''image/jpeg''), (''.jpeg'', ''image/jpeg''),
     (''.webp'', ''image/webp''), (''.gif'', ''image/gif'')]"

definition OCTET_STREAM :: string where "OCTET_STREAM = ''application/octet-stream''"

text \<open>
  \<^verbatim>\<open>posixpath.splitext(p)[1]\<close>: from the last dot of the last component, unless only dots come
  before it there.
\<close>

definition splitext_ext :: "string \<Rightarrow> string" where
  "splitext_ext p =
     (let base = rev (takeWhile (\<lambda>c. c \<noteq> CHR ''/'') (rev p));
          ext = rev (takeWhile (\<lambda>c. c \<noteq> CHR ''.'') (rev base));
          stem = take (length base - length ext - 1) base
      in if CHR ''.'' \<notin> set base \<or> list_all (\<lambda>c. c = CHR ''.'') stem then [] else CHR ''.'' # ext)"

definition str_at :: "file_meta \<Rightarrow> string \<Rightarrow> string" where
  "str_at f k = (case obj_get f k of Some (JStr s) \<Rightarrow> s | _ \<Rightarrow> [])"

definition mime_of :: "file_meta \<Rightarrow> string" where
  "mime_of f = opt_or (map_of BINARY_MIMES (splitext_ext (py_lower (str_at f ''path'')))) OCTET_STREAM"

definition decode_exact :: "string \<Rightarrow> string option" where
  "decode_exact content = (case b64decode_strict content of
      None \<Rightarrow> None
    | Some data \<Rightarrow> if b64encode data = content then Some data else None)"

definition naive_utc :: "(string \<Rightarrow> instant option) \<Rightarrow> string \<Rightarrow> instant option" where
  "naive_utc parse text = (if text = [] then None else parse text)"

text \<open>What becomes of one file: its metadata, and the row with its bytes if it is moved.\<close>

definition without :: "string \<Rightarrow> file_meta \<Rightarrow> file_meta" where
  "without k f = filter (\<lambda>(k', v). k' \<noteq> k) f"

definition moved_bytes :: "file_meta \<Rightarrow> string option" where
  "moved_bytes f = (if str_at f ''content_b64'' \<noteq> [] \<and> mime_of f \<noteq> OCTET_STREAM
                    then decode_exact (str_at f ''content_b64'') else None)"

definition stored_meta :: "nat \<Rightarrow> file_meta \<Rightarrow> file_meta" where
  "stored_meta idx f = (case moved_bytes f of
      None \<Rightarrow> f
    | Some _ \<Rightarrow> dict_set REF_KEY (JInt (int idx)) (dict_set ''content_b64'' JNull (without ''content_b64'' f)))"

definition stored_row :: "(string \<Rightarrow> string) \<Rightarrow> (string \<Rightarrow> instant option) \<Rightarrow> int \<Rightarrow> nat \<Rightarrow> file_meta \<Rightarrow> FileRow option" where
  "stored_row sha parse job_id idx f = map_option (\<lambda>data.
     \<lparr>fr_job = job_id, fr_idx = idx, fr_sha256 = sha data, fr_mime = mime_of f, fr_size = int (length data),
      fr_expires_at = naive_utc parse (str_at f ''expires_at''), fr_data = data\<rparr>) (moved_bytes f)"

definition store_files ::
  "(string \<Rightarrow> string) \<Rightarrow> (string \<Rightarrow> instant option) \<Rightarrow> bool \<Rightarrow> int \<Rightarrow> file_meta list \<Rightarrow> FileRow list \<Rightarrow> file_meta list \<times> FileRow list" where
  "store_files sha parse enabled job_id files table =
     (if \<not> enabled then (files, table)
      else (map (\<lambda>(i, f). stored_meta i f) (enumerate 0 files),
            filter (\<lambda>r. fr_job r \<noteq> job_id) table @
            List.map_filter (\<lambda>(i, f). stored_row sha parse job_id i f) (enumerate 0 files)))"

definition file_expired :: "string \<Rightarrow> file_meta \<Rightarrow> bool" where
  "file_expired now_iso f \<longleftrightarrow> str_at f ''expires_at'' \<noteq> [] \<and> str_at f ''expires_at'' < now_iso"

text \<open>\<^verbatim>\<open>{**f, k: v}\<close>: the key keeps its place if it is there.\<close>

definition public_file :: "file_meta \<Rightarrow> (string \<times> json) list \<Rightarrow> file_meta" where
  "public_file f over = fold (\<lambda>(k, v). dict_set k v) over (without REF_KEY f)"

definition expired_file :: "file_meta \<Rightarrow> file_meta" where
  "expired_file f = public_file f [(''content_b64'', JNull), (''expired'', JBool True)]"

definition live_files_inline :: "string \<Rightarrow> file_meta list \<Rightarrow> file_meta list" where
  "live_files_inline now_iso files = map (\<lambda>f. if file_expired now_iso f then expired_file f else public_file f []) files"

definition blob_of :: "int \<Rightarrow> FileRow list \<Rightarrow> nat \<Rightarrow> string option" where
  "blob_of job_id table i = map_option fr_data (find (\<lambda>r. fr_job r = job_id \<and> fr_idx r = i) table)"

definition live_file :: "string \<Rightarrow> int \<Rightarrow> FileRow list \<Rightarrow> file_meta \<Rightarrow> file_meta" where
  "live_file now_iso job_id table f =
     (if file_expired now_iso f then expired_file f
      else case obj_get f REF_KEY of
             Some (JInt i) \<Rightarrow> public_file f [(''content_b64'',
               case blob_of job_id table (nat i) of Some data \<Rightarrow> JStr (b64encode data) | None \<Rightarrow> JNull)]
           | _ \<Rightarrow> public_file f [])"

definition live_files :: "string \<Rightarrow> int \<Rightarrow> FileRow list \<Rightarrow> file_meta list \<Rightarrow> file_meta list" where
  "live_files now_iso job_id table files = map (live_file now_iso job_id table) files"

section \<open>Files are served as they were\<close>

text \<open>A file as the run reported it: distinct keys, no reference of its own.\<close>

definition reported_file :: "file_meta \<Rightarrow> bool" where
  "reported_file f \<longleftrightarrow> distinct (map fst f) \<and> REF_KEY \<notin> fst ` set f \<and> ''content_b64'' \<in> fst ` set f"

lemma no_ref: "reported_file f \<Longrightarrow> obj_get f REF_KEY = None"
  by (simp add: reported_file_def obj_get_def map_of_eq_None_iff)

lemma map_of_without: "map_of (without k f) = (map_of f)(k := None)"
  by (induction f) (auto simp: without_def)

lemma map_of_public: "map_of (public_file f over) = fold (\<lambda>(k, v) m. m(k \<mapsto> v)) over ((map_of f)(REF_KEY := None))"
proof -
  have "map_of (fold (\<lambda>(k, v). dict_set k v) over d) = fold (\<lambda>(k, v) m. m(k \<mapsto> v)) over (map_of d)" for d :: file_meta
    by (induction over arbitrary: d) auto
  then show ?thesis by (simp add: public_file_def map_of_without)
qed

lemma stored_meta_get:
  "k \<notin> {''content_b64'', REF_KEY} \<Longrightarrow> obj_get (stored_meta i f) k = obj_get f k"
  by (auto simp: stored_meta_def obj_get_def map_of_without split: option.splits)

lemma stored_meta_expired: "file_expired now (stored_meta i f) = file_expired now f"
  by (simp add: file_expired_def str_at_def stored_meta_get REF_KEY_def)

lemma map_of_stored:
  assumes "moved_bytes f = Some data"
  shows "map_of (stored_meta i f) = (map_of f)(''content_b64'' \<mapsto> JNull, REF_KEY \<mapsto> JInt (int i))"
  using assms by (simp add: stored_meta_def map_of_without)

lemma moved_bytes_content:
  assumes "moved_bytes f = Some data"
  shows "map_of f ''content_b64'' = Some (JStr (b64encode data))"
  using assms
  by (auto simp: moved_bytes_def decode_exact_def str_at_def obj_get_def split: if_splits option.splits json.splits)

lemma blob_of_stored:
  assumes "i < length files" "moved_bytes (files ! i) = Some data"
  shows "blob_of job (snd (store_files sha parse True job files table)) i = Some data"
proof -
  let ?g = "\<lambda>(i, f). stored_row sha parse job i f"
  have skip: "find (\<lambda>r. fr_job r = job \<and> fr_idx r = i) (filter (\<lambda>r. fr_job r \<noteq> job) table @ rs) =
      find (\<lambda>r. fr_job r = job \<and> fr_idx r = i) rs" for rs
    by (induction table) auto
  have go: "map_option fr_data (find (\<lambda>r. fr_job r = job \<and> fr_idx r = n + j) (List.map_filter ?g (enumerate n fs))) = Some data"
    if "j < length fs" "moved_bytes (fs ! j) = Some data" for n j fs
    using that
  proof (induction fs arbitrary: n j)
    case (Cons f fs)
    show ?case
    proof (cases j)
      case 0
      then show ?thesis using Cons.prems by (simp add: List.map_filter_simps stored_row_def)
    next
      case (Suc j')
      then have "map_option fr_data (find (\<lambda>r. fr_job r = job \<and> fr_idx r = Suc n + j') (List.map_filter ?g (enumerate (Suc n) fs))) = Some data"
        using Cons.IH[of j' "Suc n"] Cons.prems by simp
      then show ?thesis using Suc by (cases "moved_bytes f") (simp_all add: List.map_filter_simps stored_row_def)
    qed
  qed simp
  from go[OF assms, of 0] show ?thesis by (simp add: blob_of_def store_files_def skip)
qed

text \<open>
  C20. The bytes of a job's files are moved to their own table without a trace: whatever a run
  reported, in whichever order files with and without storable bytes come, the files served
  from the table are, entry for entry and key for key, the files that would be served had
  the Base64 text stayed inline, expired files included. Storing again replaces the job's
  rows and leaves those of other jobs alone.
\<close>

theorem files_are_served_as_reported:
  assumes "list_all reported_file files" "store_files sha parse enabled job files table = (meta, table')"
  shows "map map_of (live_files now job table' meta) = map map_of (live_files_inline now files) \<and>
    filter (\<lambda>r. fr_job r \<noteq> job) table' = filter (\<lambda>r. fr_job r \<noteq> job) table"
proof -
  have one: "map_of (live_file now job table' (stored_meta i f)) = map_of (if file_expired now f then expired_file f else public_file f [])"
    if f: "reported_file f" and blob: "\<And>data. moved_bytes f = Some data \<Longrightarrow> blob_of job table' i = Some data" for i f
  proof (cases "moved_bytes f")
    case None
    then show ?thesis using f by (simp add: live_file_def stored_meta_def no_ref)
  next
    case (Some data)
    note m = map_of_stored[OF Some, of i] moved_bytes_content[OF Some]
    have "map_of f REF_KEY = None" using no_ref[OF f] by (simp add: obj_get_def)
    then show ?thesis using m blob[OF Some] stored_meta_expired[of now i f]
      by (auto simp: live_file_def expired_file_def map_of_public obj_get_def REF_KEY_def fun_eq_iff)
  qed
  have inl: "map_of (live_file now job table' f) = map_of (if file_expired now f then expired_file f else public_file f [])"
    if "reported_file f" for f
    using that by (simp add: live_file_def no_ref)
  show ?thesis
  proof (cases enabled)
    case False
    then show ?thesis using assms inl by (auto simp: store_files_def live_files_def live_files_inline_def list_all_iff)
  next
    case True
    have meta: "meta = map (\<lambda>(i, f). stored_meta i f) (enumerate 0 files)" using assms(2) True by (simp add: store_files_def)
    have "map map_of (live_files now job table' meta) ! i = map map_of (live_files_inline now files) ! i" if i: "i < length files" for i
    proof -
      have "reported_file (files ! i)" using assms(1) i by (simp add: list_all_length)
      moreover have "blob_of job table' i = Some data" if "moved_bytes (files ! i) = Some data" for data
        using blob_of_stored[OF i that] assms(2) True by (metis snd_conv)
      ultimately have "map_of (live_file now job table' (stored_meta i (files ! i))) =
          map_of (if file_expired now (files ! i) then expired_file (files ! i) else public_file (files ! i) [])"
        by (rule one)
      then show ?thesis using i by (simp add: meta live_files_def live_files_inline_def nth_enumerate_eq)
    qed
    then have "map map_of (live_files now job table' meta) = map map_of (live_files_inline now files)"
      by (intro nth_equalityI) (simp_all add: meta live_files_def live_files_inline_def)
    moreover have "filter (\<lambda>r. fr_job r \<noteq> job) (List.map_filter (\<lambda>(i, f). stored_row sha parse job i f) xs) = []" for xs
      by (induction xs) (auto simp: List.map_filter_simps stored_row_def split: option.splits)
    ultimately show ?thesis using assms(2) True by (auto simp: store_files_def)
  qed
qed

definition demo_files :: "file_meta list" where
  "demo_files = [[(''path'', JStr ''out/a.txt''), (''content_b64'', JStr ''aGk='')],
     [(''path'', JStr ''out/b.PNG''), (''content_b64'', JStr ''AAEC'')]]"

theorem files_are_served_as_reported_witness:
  "length (snd (store_files id (\<lambda>_. None) True 9 demo_files [])) = 1 \<and>
   map_of (live_files ''2026'' 9 (snd (store_files id (\<lambda>_. None) True 9 demo_files []))
     (fst (store_files id (\<lambda>_. None) True 9 demo_files [])) ! 1) ''content_b64'' = Some (JStr ''AAEC'')"
proof -
  let ?r = "store_files id (\<lambda>_. None) True 9 demo_files []"
  have n: "length (snd ?r) = 1" "length (fst ?r) = 2" by code_simp+
  have "list_all reported_file demo_files" by code_simp
  from files_are_served_as_reported[OF this, of id "\<lambda>_. None" True 9 "[]" "fst ?r" "snd ?r" "''2026''"]
  have "map map_of (live_files ''2026'' 9 (snd ?r) (fst ?r)) ! 1 = map map_of (live_files_inline ''2026'' demo_files) ! 1" by simp
  moreover have "map_of (live_files_inline ''2026'' demo_files ! 1) ''content_b64'' = Some (JStr ''AAEC'')" by code_simp
  moreover have "length (live_files ''2026'' 9 (snd ?r) (fst ?r)) = 2" "length (live_files_inline ''2026'' demo_files) = 2"
    using n by (simp_all add: live_files_def live_files_inline_def demo_files_def)
  ultimately show ?thesis using n by simp
qed

end
