(* ===== verification/Agent_Runs.thy ===== *)
theory Agent_Runs
  imports Agent_Lease Agent_Redact Job_Files Deep_Jobs
begin

text \<open>
  \<^verbatim>\<open>agent/runs.py\<close> with the event schema of \<^verbatim>\<open>agent/events.py\<close>: an agent run is a queue row plus a
  side row and an event list. Runs are created (with the idempotency and in-flight rules),
  fed with events by one worker under a lease, parked, requeued, cancelled and ended by
  exactly one terminal event. The database is one record of tables; each operation is the
  transaction the code runs.
\<close>

section \<open>Events\<close>

definition MAX_TEXT_CHARS :: nat where "MAX_TEXT_CHARS = 64000"

record usage_report =
  us_input_tokens :: "int option"
  us_output_tokens :: "int option"
  us_total_tokens :: "int option"
  us_cache_read_tokens :: "int option"
  us_turns :: "int option"
  us_reasoning_tokens :: "int option"
  us_source :: string

datatype agent_event =
    RunStarted string string "string option"
  | SessionAssigned string
  | ModelRerouted string string
  | ModelObserved string string string
  | MessageDelta string
  | ToolCall string string json
  | ToolResult string bool string
  | FileChanged string string
  | UsageReported usage_report
  | RunWaitingQuota string int bool string
  | BillingAttested string string bool "rat option" "string option"
  | RunCompleted string "file_meta list"
  | RunFailed string string "string option"
  | RunCancelled
  | RunTimedOut string

fun event_type :: "agent_event \<Rightarrow> string" where
  "event_type (RunStarted _ _ _) = ''run.started''"
| "event_type (SessionAssigned _) = ''session.assigned''"
| "event_type (ModelRerouted _ _) = ''model.rerouted''"
| "event_type (ModelObserved _ _ _) = ''model.observed''"
| "event_type (MessageDelta _) = ''message.delta''"
| "event_type (ToolCall _ _ _) = ''tool.call''"
| "event_type (ToolResult _ _ _) = ''tool.result''"
| "event_type (FileChanged _ _) = ''file.changed''"
| "event_type (UsageReported _) = ''usage''"
| "event_type (RunWaitingQuota _ _ _ _) = ''run.waiting_quota''"
| "event_type (BillingAttested _ _ _ _ _) = ''billing.attested''"
| "event_type (RunCompleted _ _) = ''run.completed''"
| "event_type (RunFailed _ _ _) = ''run.failed''"
| "event_type RunCancelled = ''run.cancelled''"
| "event_type (RunTimedOut _) = ''run.timed_out''"

definition jopt :: "string option \<Rightarrow> json" where
  "jopt s = (case s of None \<Rightarrow> JNull | Some t \<Rightarrow> JStr t)"

definition jint :: "int option \<Rightarrow> json" where
  "jint i = (case i of None \<Rightarrow> JNull | Some n \<Rightarrow> JInt n)"

text \<open>The fields of \<^verbatim>\<open>model_dump\<close> beside the schema version and the type.\<close>

fun event_fields :: "agent_event \<Rightarrow> (string \<times> json) list" where
  "event_fields (RunStarted c a r) = [(''capability'', JStr c), (''account_id'', JStr a), (''resumed_session_id'', jopt r)]"
| "event_fields (SessionAssigned s) = [(''session_id'', JStr s)]"
| "event_fields (ModelRerouted f t) = [(''from_model'', JStr f), (''to_model'', JStr t), (''source'', JStr ''codex_app_server'')]"
| "event_fields (ModelObserved m k s) = [(''model'', JStr m), (''kind'', JStr k), (''source'', JStr s)]"
| "event_fields (MessageDelta t) = [(''text'', JStr t)]"
| "event_fields (ToolCall i n x) = [(''call_id'', JStr i), (''name'', JStr n), (''input'', x)]"
| "event_fields (ToolResult i ok out) = [(''call_id'', JStr i), (''ok'', JBool ok), (''output'', JStr out)]"
| "event_fields (FileChanged p a) = [(''path'', JStr p), (''action'', JStr a)]"
| "event_fields (UsageReported u) = [(''input_tokens'', jint (us_input_tokens u)), (''output_tokens'', jint (us_output_tokens u)),
     (''total_tokens'', jint (us_total_tokens u)), (''cache_read_tokens'', jint (us_cache_read_tokens u)),
     (''turns'', jint (us_turns u)), (''reasoning_tokens'', jint (us_reasoning_tokens u)), (''source'', JStr (us_source u))]"
| "event_fields (RunWaitingQuota nb n rep why) = [(''not_before'', JStr nb), (''attempt'', JInt n),
     (''reset_reported'', JBool rep), (''reason'', JStr why)]"
| "event_fields (BillingAttested m p v cap a) = [(''auth_method'', JStr m), (''api_provider'', JStr p),
     (''paid_continuation_verified_off'', JBool v), (''fallback'', JStr ''none''),
     (''project_daily_cap_usd'', case cap of None \<Rightarrow> JNull | Some c \<Rightarrow> JFloat c), (''account_id'', jopt a)]"
| "event_fields (RunCompleted t fs) = [(''final_text'', JStr t), (''files'', JList (map JObj fs))]"
| "event_fields (RunFailed c m r) = [(''error_class'', JStr c), (''message'', JStr m), (''reset_at'', jopt r)]"
| "event_fields RunCancelled = []"
| "event_fields (RunTimedOut l) = [(''limit'', JStr l)]"

definition event_dump :: "agent_event \<Rightarrow> json" where
  "event_dump e = JObj ([(''schema_version'', JInt 1), (''type'', JStr (event_type e))] @ event_fields e)"

definition OUTCOME_BY_TYPE :: "(string \<times> string) list" where
  "OUTCOME_BY_TYPE = [(''run.completed'', ''completed''), (''run.failed'', ''failed''), (''run.cancelled'', ''cancelled''),
     (''run.timed_out'', ''timed_out'')]"

definition TERMINAL_TYPES :: "string list" where
  "TERMINAL_TYPES = [''run.completed'', ''run.failed'', ''run.cancelled'', ''run.timed_out'']"

section \<open>Tables\<close>

record AgentRunRow =
  rn_run_id :: int
  rn_project_id :: int
  rn_capability :: string
  rn_task_id :: string
  rn_account_id :: string
  rn_session_id :: "string option"
  rn_resume_session_id :: "string option"
  rn_idempotency_key :: "string option"
  rn_workspace :: "string option"
  rn_cancel_requested :: bool
  rn_last_event_at :: "instant option"
  rn_last_seq :: int
  rn_outcome :: "string option"
  rn_model :: "string option"
  rn_billing_mode :: "string option"
  rn_usage_source :: "string option"
  rn_usage_input_tokens :: "int option"
  rn_usage_output_tokens :: "int option"
  rn_usage_cache_read_tokens :: "int option"
  rn_usage_turns :: "int option"
  rn_quota_waits :: int

record AgentRunEventRow =
  ev_run_id :: int
  ev_seq :: int
  ev_ts :: instant
  ev_type :: string
  ev_payload :: json

record run_db =
  rd_jobs :: job_table
  rd_runs :: "AgentRunRow list"
  rd_events :: "AgentRunEventRow list"
  rd_files :: "FileRow list"
  rd_leases :: "LeaseRow list"

text \<open>What a transaction meets: the clock and its ISO text, the libraries, a locked queue row.\<close>

record run_env =
  re_now :: instant
  re_now_iso :: string
  re_schema :: schema_lib
  re_fr :: "rat \<Rightarrow> string"
  re_sha :: "string \<Rightarrow> string"
  re_parse :: "string \<Rightarrow> instant option"
  re_files_in_table :: bool
  re_locked :: bool

datatype run_error = StaleLease | RunConflict string | RunRejected string | RunNotFound | RunKeyError | RunBroken
  | RunIntegrity | RunReplay submit_error

definition find_run :: "int \<Rightarrow> run_db \<Rightarrow> AgentRunRow option" where
  "find_run i d = find_row rn_run_id i (rd_runs d)"

definition find_job :: "int \<Rightarrow> run_db \<Rightarrow> DeepJobRow option" where
  "find_job i d = find_row j_id i (jt_rows (rd_jobs d))"

definition set_run :: "int \<Rightarrow> (AgentRunRow \<Rightarrow> AgentRunRow) \<Rightarrow> run_db \<Rightarrow> run_db" where
  "set_run i f d = d\<lparr>rd_runs := update_where (\<lambda>r. rn_run_id r = i) f (rd_runs d)\<rparr>"

definition set_job :: "int \<Rightarrow> (DeepJobRow \<Rightarrow> DeepJobRow) \<Rightarrow> run_db \<Rightarrow> run_db" where
  "set_job i f d = d\<lparr>rd_jobs := (rd_jobs d)\<lparr>jt_rows := update_where (\<lambda>r. j_id r = i) f (jt_rows (rd_jobs d))\<rparr>\<rparr>"

definition add_event :: "instant \<Rightarrow> int \<Rightarrow> int \<Rightarrow> string \<Rightarrow> json \<Rightarrow> run_db \<Rightarrow> run_db" where
  "add_event now i s t payload d = d\<lparr>rd_events := rd_events d @
     [\<lparr>ev_run_id = i, ev_seq = s, ev_ts = now, ev_type = t, ev_payload = payload\<rparr>]\<rparr>"

section \<open>Creating a run\<close>

record new_run =
  nr_project_id :: int
  nr_capability :: string
  nr_prompt :: string
  nr_task_id :: string
  nr_account_id :: string
  nr_session_id :: "string option"
  nr_idempotency_key :: "string option"
  nr_wall_timeout_s :: int
  nr_idle_timeout_s :: int
  nr_allowed_tools :: "string list"
  nr_model :: "string option"
  nr_deadline_s :: int
  nr_attachments :: "json list"
  nr_run_mode :: string
  nr_accept_risk :: bool
  nr_client_job :: json
  nr_job_idempotency_key :: "string option"
  nr_job_payload_hash :: "string option"
  nr_trace_id :: "string option"
  nr_labels :: "(string \<times> string) list option"
  nr_priority :: int

definition run_request :: "new_run \<Rightarrow> (string \<times> json) list" where
  "run_request n = [(''prompt'', JStr (nr_prompt n)), (''task_id'', JStr (nr_task_id n)), (''account_id'', JStr (nr_account_id n)),
     (''session_id'', jopt (nr_session_id n)), (''wall_timeout_s'', JInt (nr_wall_timeout_s n)),
     (''idle_timeout_s'', JInt (nr_idle_timeout_s n)), (''allowed_tools'', JList (map JStr (nr_allowed_tools n))),
     (''model'', jopt (nr_model n)), (''deadline_s'', JInt (nr_deadline_s n)), (''attachments'', JList (nr_attachments n)),
     (''run_mode'', JStr (nr_run_mode n)), (''accept_paid_continuation_risk'', JBool (nr_accept_risk n)),
     (''client_job'', nr_client_job n)]"

definition given :: "string option \<Rightarrow> bool" where
  "given s \<longleftrightarrow> s \<noteq> None \<and> s \<noteq> Some []"

definition find_run_by_key :: "int \<Rightarrow> string \<Rightarrow> run_db \<Rightarrow> (AgentRunRow \<times> DeepJobRow) option" where
  "find_run_by_key project_id key d =
     (case find (\<lambda>r. rn_project_id r = project_id \<and> rn_idempotency_key r = Some key \<and> find_job (rn_run_id r) d \<noteq> None) (rd_runs d) of
        None \<Rightarrow> None
      | Some r \<Rightarrow> map_option (Pair r) (find_job (rn_run_id r) d))"

definition find_inflight_run :: "instant \<Rightarrow> int \<Rightarrow> string \<Rightarrow> string \<Rightarrow> run_db \<Rightarrow> int option" where
  "find_inflight_run now project_id capability phash d =
     (case filter (inflight_match now project_id capability phash) (jt_rows (rd_jobs d)) of
        [] \<Rightarrow> None
      | r # rs \<Rightarrow> Some (j_id (arg_min_list (\<lambda>r. - j_created_at r) (r # rs))))"

definition check_resume :: "int \<Rightarrow> string \<Rightarrow> string \<Rightarrow> string \<Rightarrow> run_db \<Rightarrow> run_error option" where
  "check_resume project_id capability account_id session_id d =
     (let owners = List.map_filter (\<lambda>r. if rn_project_id r = project_id \<and> rn_capability r = capability \<and> rn_session_id r = Some session_id
                       then map_option (\<lambda>j. (rn_account_id r, j_status j)) (find_job (rn_run_id r) d) else None) (rd_runs d)
      in if owners = [] then Some (RunRejected ''session_id was not produced by a previous run of this project'')
         else if list_ex (\<lambda>ow. fst ow \<noteq> account_id) owners then Some (RunRejected ''session_id belongs to a different account_id'')
         else if list_ex (\<lambda>ow. snd ow \<in> {Pending, Running}) owners then Some (RunConflict ''session_id is in use by a run that has not finished'')
         else None)"

definition side_row :: "new_run \<Rightarrow> int \<Rightarrow> AgentRunRow" where
  "side_row n i = \<lparr>rn_run_id = i, rn_project_id = nr_project_id n, rn_capability = nr_capability n, rn_task_id = nr_task_id n,
     rn_account_id = nr_account_id n, rn_session_id = None, rn_resume_session_id = nr_session_id n,
     rn_idempotency_key = nr_idempotency_key n, rn_workspace = None, rn_cancel_requested = False, rn_last_event_at = None, rn_last_seq = 0,
     rn_outcome = None, rn_model = nr_model n, rn_billing_mode = None, rn_usage_source = None, rn_usage_input_tokens = None,
     rn_usage_output_tokens = None, rn_usage_cache_read_tokens = None, rn_usage_turns = None, rn_quota_waits = 0\<rparr>"

text \<open>The unique indexes on (project, key) of both tables.\<close>

definition run_key_taken :: "new_run \<Rightarrow> run_db \<Rightarrow> bool" where
  "run_key_taken n d \<longleftrightarrow> key_taken (nr_project_id n) (nr_job_idempotency_key n) (rd_jobs d) \<or>
     nr_idempotency_key n \<noteq> None \<and>
     list_ex (\<lambda>r. rn_project_id r = nr_project_id n \<and> rn_idempotency_key r = nr_idempotency_key n) (rd_runs d)"

definition replayed_run :: "new_run \<Rightarrow> string \<Rightarrow> run_db \<Rightarrow> run_error + int option" where
  "replayed_run n phash d = (case replayed_job_id (nr_project_id n) (the (nr_job_idempotency_key n)) phash (rd_jobs d) of
      Inl e \<Rightarrow> Inl (RunReplay e) | Inr x \<Rightarrow> Inr x)"

text \<open>The lookups read \<open>d1\<close>, the insert meets \<open>d2\<close>.\<close>

definition insert_run :: "instant \<Rightarrow> new_run \<Rightarrow> string \<Rightarrow> run_db \<Rightarrow> (run_error + int \<times> bool) \<times> run_db" where
  "insert_run now n phash d2 =
     (if run_key_taken n d2 then
        (if given (nr_job_idempotency_key n) then
           (case replayed_run n phash d2 of
              Inl e \<Rightarrow> (Inl e, d2) | Inr None \<Rightarrow> (Inl RunIntegrity, d2) | Inr (Some i) \<Rightarrow> (Inr (i, False), d2))
         else (case (if given (nr_idempotency_key n) then find_run_by_key (nr_project_id n) (the (nr_idempotency_key n)) d2 else None) of
              None \<Rightarrow> (Inl RunIntegrity, d2) | Some (r, j) \<Rightarrow> (Inr (rn_run_id r, False), d2)))
      else case insert_job now (nr_project_id n) (nr_capability n) (run_request n) (Some phash) (nr_trace_id n) (nr_labels n)
                  (nr_job_idempotency_key n) (nr_priority n) (rd_jobs d2) of
             (i, jobs') \<Rightarrow> (Inr (i, True), d2\<lparr>rd_jobs := jobs', rd_runs := rd_runs d2 @ [side_row n i]\<rparr>))"

definition create_run ::
  "(int \<times> string \<times> json \<Rightarrow> string) \<Rightarrow> instant \<Rightarrow> new_run \<Rightarrow> run_db \<Rightarrow> run_db \<Rightarrow> (run_error + int \<times> bool) \<times> run_db" where
  "create_run md5 now n d1 d2 =
     (let phash = (if given (nr_job_payload_hash n) then the (nr_job_payload_hash n)
                   else payload_hash md5 (nr_project_id n) (nr_capability n) (run_request n)) in
      case (if given (nr_idempotency_key n) then find_run_by_key (nr_project_id n) (the (nr_idempotency_key n)) d1 else None) of
        Some (r, j) \<Rightarrow>
          (if j_payload_hash j \<noteq> Some phash then Inl (RunConflict ''idempotency_key already used with a different payload'')
           else Inr (rn_run_id r, False), d2)
      | None \<Rightarrow>
          (case (if given (nr_job_idempotency_key n) then replayed_run n phash d1
                 else Inr (find_inflight_run now (nr_project_id n) (nr_capability n) phash d1)) of
             Inl e \<Rightarrow> (Inl e, d2)
           | Inr (Some i) \<Rightarrow> (Inr (i, False), d2)
           | Inr None \<Rightarrow>
               (case (if given (nr_session_id n)
                      then check_resume (nr_project_id n) (nr_capability n) (nr_account_id n) (the (nr_session_id n)) d1 else None) of
                  Some e \<Rightarrow> (Inl e, d2)
                | None \<Rightarrow> insert_run now n phash d2)))"

section \<open>Reading\<close>

definition get_run :: "int \<Rightarrow> int \<Rightarrow> run_db \<Rightarrow> (AgentRunRow \<times> DeepJobRow) option" where
  "get_run run_id project_id d = (case find_run run_id d of
      Some r \<Rightarrow> if rn_project_id r = project_id then map_option (Pair r) (find_job run_id d) else None
    | None \<Rightarrow> None)"

definition list_events :: "int \<Rightarrow> int \<Rightarrow> nat \<Rightarrow> run_db \<Rightarrow> AgentRunEventRow list" where
  "list_events run_id after_seq limit d =
     take limit (sort_key ev_seq (filter (\<lambda>e. ev_run_id e = run_id \<and> ev_seq e > after_seq) (rd_events d)))"

definition get_attestation :: "int \<Rightarrow> run_db \<Rightarrow> json option" where
  "get_attestation run_id d =
     (case rev (sort_key ev_seq (filter (\<lambda>e. ev_run_id e = run_id \<and> ev_type e = ''billing.attested'') (rd_events d))) of
        [] \<Rightarrow> None | e # _ \<Rightarrow> Some (ev_payload e))"

section \<open>Model evidence\<close>

fun clip_json :: "json \<Rightarrow> json" where
  "clip_json (JStr s) = JStr (take MAX_TEXT_CHARS s)"
| "clip_json (JObj kvs) = JObj (map (\<lambda>(k, v). (k, clip_json v)) kvs)"
| "clip_json (JList vs) = JList (map clip_json vs)"
| "clip_json v = v"

definition MAX_MODEL_OBSERVATIONS :: nat where "MAX_MODEL_OBSERVATIONS = 10"

definition EVIDENCE_RANK :: "(string \<times> int) list" where
  "EVIDENCE_RANK = [(''response'', 3), (''thread_config'', 2), (''session_init'', 1)]"

definition rank_of :: "json option \<Rightarrow> int" where
  "rank_of kind = (case kind of Some (JStr k) \<Rightarrow> opt_or (map_of EVIDENCE_RANK k) 0 | _ \<Rightarrow> 0)"

definition obj_items :: "json option \<Rightarrow> json list" where
  "obj_items v = (case v of Some (JList vs) \<Rightarrow> filter is_obj vs | _ \<Rightarrow> [])"

definition fold_observation :: "json option \<Rightarrow> string \<Rightarrow> string \<Rightarrow> string \<Rightarrow> json list \<times> bool" where
  "fold_observation existing model kind source =
     (let items = obj_items existing;
          entry = JObj [(''model'', JStr model), (''kind'', JStr kind), (''source'', JStr source)];
          rk = (\<lambda>i. rank_of (json_item (items ! i) ''kind''))
      in if list_ex (\<lambda>ob. json_item ob ''kind'' = Some (JStr kind) \<and> json_item ob ''model'' = Some (JStr model)) items then (items, False)
         else if length items < MAX_MODEL_OBSERVATIONS then (items @ [entry], False)
         else let weakest = arg_min_list rk [0..<length items]
              in (if opt_or (map_of EVIDENCE_RANK kind) 0 > rk weakest then items[weakest := entry] else items, True))"

text \<open>The first of the strongest observations.\<close>

definition served_model_meta :: "json option \<Rightarrow> bool \<Rightarrow> (string \<times> json) list" where
  "served_model_meta observations truncated =
     (let items = filter (\<lambda>ob. \<exists>k \<in> set (map fst EVIDENCE_RANK). json_item ob ''kind'' = Some (JStr k)) (obj_items observations)
      in if items = [] then
           [(''model_served'', JNull), (''model_observed_best'', JNull), (''model_served_kind'', JStr ''unknown''),
            (''model_served_source'', JStr ''none''), (''model_observations'', JList []),
            (''observations_truncated'', JBool truncated), (''observations_complete'', JBool (\<not> truncated))]
         else let best = arg_min_list (\<lambda>ob. - rank_of (json_item ob ''kind'')) items;
                  responses = remdups (map (\<lambda>ob. json_item ob ''model'') (filter (\<lambda>ob. json_item ob ''kind'' = Some (JStr ''response'')) items));
                  model = opt_or (json_item best ''model'') JNull;
                  strict = json_item best ''kind'' = Some (JStr ''response'') \<and> \<not> (truncated \<and> length responses > 1)
              in [(''model_served'', if strict then model else JNull), (''observations_truncated'', JBool truncated),
                  (''observations_complete'', JBool (\<not> truncated)), (''model_observed_best'', model),
                  (''model_served_kind'', opt_or (json_item best ''kind'') JNull),
                  (''model_served_source'', case json_item best ''source'' of Some v \<Rightarrow> if truthy v then v else JStr ''none'' | None \<Rightarrow> JStr ''none''),
                  (''model_observations'', JList items)])"

section \<open>Appending an event\<close>

definition meta_of :: "DeepJobRow \<Rightarrow> (string \<times> json) list" where
  "meta_of j = (case j_result_meta j of Some (JObj kvs) \<Rightarrow> kvs | _ \<Rightarrow> [])"

text \<open>\<^verbatim>\<open>meta.get(k) or default\<close>.\<close>

definition meta_or :: "(string \<times> json) list \<Rightarrow> string \<Rightarrow> json \<Rightarrow> json" where
  "meta_or m k d = (case obj_get m k of Some v \<Rightarrow> if truthy v then v else d | None \<Rightarrow> d)"

definition client_job_of :: "DeepJobRow \<Rightarrow> (string \<times> json) list" where
  "client_job_of j = (case obj_get (j_request j) ''client_job'' of Some (JObj kvs) \<Rightarrow> kvs | _ \<Rightarrow> [])"

definition response_format_of :: "DeepJobRow \<Rightarrow> json" where
  "response_format_of j = opt_or (obj_get (client_job_of j) ''response_format'') JNull"

text \<open>The event that is stored: an answer that breaks its format becomes a failure.\<close>

definition final_text_of :: "run_env \<Rightarrow> DeepJobRow \<Rightarrow> agent_event \<Rightarrow> string" where
  "final_text_of e j ev = (case ev of RunCompleted t fs \<Rightarrow> redact_final_text (re_fr e) t (response_format_of j) | _ \<Rightarrow> [])"

definition gated_event :: "run_env \<Rightarrow> DeepJobRow \<Rightarrow> agent_event \<Rightarrow> agent_event" where
  "gated_event e j ev = (case ev of
      RunCompleted t fs \<Rightarrow>
        if client_job_of j = [] then ev
        else (case (case output_problem (re_schema e) (re_fr e) t (response_format_of j) of
                      Some p \<Rightarrow> Some p
                    | None \<Rightarrow> output_problem (re_schema e) (re_fr e) (final_text_of e j ev) (response_format_of j)) of
                None \<Rightarrow> ev | Some problem \<Rightarrow> RunFailed ''invalid_json'' problem None)
    | _ \<Rightarrow> ev)"

text \<open>The stored payload: a completed run's files lose their bytes.\<close>

definition event_payload :: "agent_event \<Rightarrow> json" where
  "event_payload ev = clip_json (redact_obj (event_dump (case ev of
      RunCompleted t fs \<Rightarrow> RunCompleted t (map (without ''content_b64'') fs) | _ \<Rightarrow> ev)))"

definition add_usage :: "usage_report \<Rightarrow> DeepJobRow \<Rightarrow> DeepJobRow" where
  "add_usage u j =
     (let observed0 = (case meta_or (meta_of j) ''usage_observed'' (JObj []) of JObj kvs \<Rightarrow> kvs | _ \<Rightarrow> []);
          bump = (\<lambda>k v d. case v of None \<Rightarrow> d
             | Some n \<Rightarrow> dict_set k (JInt ((case obj_get d k of Some (JInt m) \<Rightarrow> m | _ \<Rightarrow> 0) + n)) d);
          observed = bump ''reasoning_tokens'' (us_reasoning_tokens u) (bump ''total_tokens'' (us_total_tokens u) observed0)
      in if observed = [] then j else j\<lparr>j_result_meta := Some (JObj (dict_set ''usage_observed'' (JObj observed) (meta_of j)))\<rparr>)"

definition add_observed :: "string \<Rightarrow> string \<Rightarrow> string \<Rightarrow> DeepJobRow \<Rightarrow> DeepJobRow" where
  "add_observed model kind source j =
     (case fold_observation (obj_get (meta_of j) ''model_observations'') model kind source of
        (items, full) \<Rightarrow>
          (let m = dict_set ''model_observations'' (JList items) (meta_of j)
           in j\<lparr>j_result_meta := Some (JObj (if full then dict_set ''observations_truncated'' (JBool True) m else m))\<rparr>))"

definition note_first_start :: "string \<Rightarrow> DeepJobRow \<Rightarrow> DeepJobRow" where
  "note_first_start now_iso j =
     (if truthy (meta_or (meta_of j) ''first_started_at'' JNull) then j
      else j\<lparr>j_result_meta := Some (JObj (dict_set ''first_started_at'' (JStr now_iso) (meta_of j)))\<rparr>)"

text \<open>\<open>None\<close>: a \<^verbatim>\<open>KeyError\<close> on the client job.\<close>

definition evidence_meta :: "AgentRunRow \<Rightarrow> DeepJobRow \<Rightarrow> string \<Rightarrow> (string \<times> json) list option" where
  "evidence_meta r j outcome =
     (let cj = client_job_of j in
      if cj = [] then Some []
      else case (obj_get cj ''provider'', obj_get cj ''model'') of
             (Some prov, Some model) \<Rightarrow>
               Some (served_model_meta (Some (meta_or (meta_of j) ''model_observations'' (JList [])))
                       (truthy (meta_or (meta_of j) ''observations_truncated'' JNull)) @
                     [(''account_id'', JStr (rn_account_id r)), (''provider'', prov), (''model'', model),
                      (''billing_type'', jopt (rn_billing_mode r)), (''run_outcome'', JStr outcome),
                      (''app_server_path'', JBool (truthy (opt_or (obj_get cj ''tools'') JNull) \<and> rn_capability r = ''agent:codex''))])
           | _ \<Rightarrow> None)"

definition dict_update :: "(string \<times> json) list \<Rightarrow> (string \<times> json) list \<Rightarrow> (string \<times> json) list" where
  "dict_update kvs d = fold (\<lambda>(k, v). dict_set k v) kvs d"

definition usage_meta :: "AgentRunRow \<Rightarrow> (string \<times> json) list \<Rightarrow> (string \<times> json) list" where
  "usage_meta r observed = [(''tokens_in'', jint (rn_usage_input_tokens r)), (''tokens_out'', jint (rn_usage_output_tokens r)),
     (''cache_read_tokens'', jint (rn_usage_cache_read_tokens r)),
     (''total_tokens'', opt_or (obj_get observed ''total_tokens'') JNull),
     (''reasoning_tokens'', opt_or (obj_get observed ''reasoning_tokens'') JNull), (''cost_usd'', JNull),
     (''finish_reason'', JStr ''stop'')]"

definition end_status :: "agent_event \<Rightarrow> job_status" where
  "end_status ev = (if event_type ev = ''run.completed'' then Done
     else if event_type ev = ''run.cancelled'' then Cancelled else Error)"

definition strip_attachment_data :: "json list \<Rightarrow> json list" where
  "strip_attachment_data atts = map (\<lambda>a. JObj [(''name'', opt_or (json_item a ''name'') JNull),
     (''media_type'', opt_or (json_item a ''media_type'') JNull), (''data_b64'', JNull)]) atts"

definition strip_request :: "DeepJobRow \<Rightarrow> DeepJobRow" where
  "strip_request j = (case obj_get (j_request j) ''attachments'' of
      Some (JList (a # as)) \<Rightarrow> j\<lparr>j_request := dict_set ''attachments'' (JList (strip_attachment_data (a # as))) (j_request j)\<rparr>
    | _ \<Rightarrow> j)"

text \<open>The queue row after a terminal event, and the rows of the files it stores.\<close>

definition end_job ::
  "run_env \<Rightarrow> AgentRunRow \<Rightarrow> agent_event \<Rightarrow> string \<Rightarrow> (string \<times> json) list \<Rightarrow> file_meta list \<Rightarrow> DeepJobRow \<Rightarrow> DeepJobRow" where
  "end_job e r ev final_text evidence stored j =
     (let m = meta_of j;
          history = meta_or m ''client_tool_history'' (JList []);
          observed = (case meta_or m ''usage_observed'' (JObj []) of JObj kvs \<Rightarrow> kvs | _ \<Rightarrow> []);
          base = [(''client_tool_history'', history), (''usage_observed'', JObj observed)];
          j1 = j\<lparr>j_status := end_status ev, j_completed_at := Some (re_now e)\<rparr>;
          j2 = (case ev of
             RunCompleted _ _ \<Rightarrow> j1\<lparr>j_result_text := Some final_text,
               j_result_meta := Some (JObj (if client_job_of j = [] then (''files'', JList (map JObj stored)) # base
                 else dict_update (evidence @ usage_meta r observed) ((''files'', JList (map JObj stored)) # base)))\<rparr>
           | RunFailed cls msg _ \<Rightarrow> j1\<lparr>j_result_meta := Some (JObj (dict_set ''error_class'' (JStr cls) (dict_update evidence base))),
               j_error_message := Some (redact (cls @ '': '' @ msg))\<rparr>
           | _ \<Rightarrow> j1\<lparr>j_result_meta := Some (JObj (dict_update evidence base)), j_error_message := Some (event_type ev)\<rparr>);
          first = meta_or m ''first_started_at'' JNull
      in strip_request (if truthy first then j2\<lparr>j_result_meta := Some (JObj (dict_set ''first_started_at'' first (meta_of j2)))\<rparr> else j2))"


text \<open>The queue row is read only for the events that touch it.\<close>

definition reads_job :: "agent_event \<Rightarrow> bool" where
  "reads_job ev \<longleftrightarrow> event_type ev = ''model.observed'' \<or> event_type ev \<in> set TERMINAL_TYPES \<or>
     event_type ev \<in> {''usage'', ''run.started''}"

text \<open>The side row after an event.\<close>

definition run_after_event :: "run_env \<Rightarrow> agent_event \<Rightarrow> AgentRunRow \<Rightarrow> AgentRunRow" where
  "run_after_event e ev r = r\<lparr>rn_last_seq := rn_last_seq r + 1, rn_last_event_at := Some (re_now e),
     rn_session_id := (case ev of SessionAssigned s \<Rightarrow> (case rn_session_id r of None \<Rightarrow> Some s | old \<Rightarrow> old) | _ \<Rightarrow> rn_session_id r),
     rn_outcome := (if event_type ev \<in> set TERMINAL_TYPES then map_of OUTCOME_BY_TYPE (event_type ev) else rn_outcome r)\<rparr>"

text \<open>The queue row after an event that does not end the run.\<close>

definition job_after_event :: "run_env \<Rightarrow> agent_event \<Rightarrow> DeepJobRow \<Rightarrow> DeepJobRow" where
  "job_after_event e ev j = (case ev of
      UsageReported u \<Rightarrow> add_usage u j
    | ModelObserved model kind source \<Rightarrow> if client_job_of j = [] then j else add_observed model kind source j
    | RunStarted _ _ _ \<Rightarrow> note_first_start (re_now_iso e) j
    | _ \<Rightarrow> j)"

text \<open>
  The end of a run: \<^verbatim>\<open>RunBroken\<close> is the attribute access on the missing queue row,
  \<^verbatim>\<open>RunKeyError\<close> the client job that lacks its provider or model; both roll back.
\<close>

definition close_run ::
  "run_env \<Rightarrow> int \<Rightarrow> agent_event \<Rightarrow> string \<Rightarrow> AgentRunRow \<Rightarrow> DeepJobRow option \<Rightarrow> run_db \<Rightarrow> run_error + run_db" where
  "close_run e i ev final_text r job d = (case job of
      None \<Rightarrow> Inl RunBroken
    | Some j \<Rightarrow>
        (case evidence_meta r j (the (map_of OUTCOME_BY_TYPE (event_type ev))) of
           None \<Rightarrow> Inl RunKeyError
         | Some evidence \<Rightarrow>
             (case (case ev of RunCompleted _ fs \<Rightarrow> store_files (re_sha e) (re_parse e) (re_files_in_table e) i fs (rd_files d)
                             | _ \<Rightarrow> ([], rd_files d)) of
                (stored, table) \<Rightarrow>
                  Inr (set_job i (\<lambda>_. end_job e r ev final_text evidence stored j) (d\<lparr>rd_files := table\<rparr>)))))"

definition append_event ::
  "run_env \<Rightarrow> int \<Rightarrow> agent_event \<Rightarrow> Lease option \<Rightarrow> bool \<Rightarrow> run_db \<Rightarrow> (run_error + int) \<times> run_db" where
  "append_event e i ev0 lease only_if_pending d =
     (if \<not> check_fence lease (rd_leases d) then (Inl StaleLease, d)
      else if only_if_pending \<and> (re_locked e \<or> map_option j_status (find_job i d) \<noteq> Some Pending)
        then (Inl (RunConflict ''was claimed or is locked''), d)
      else case find_run i d of
        None \<Rightarrow> (Inl RunNotFound, d)
      | Some r \<Rightarrow>
          if rn_outcome r \<noteq> None then (Inl (RunConflict ''already finished''), d)
          else
            (let job = (if reads_job ev0 then find_job i d else None);
                 ev = (case job of None \<Rightarrow> ev0 | Some j \<Rightarrow> gated_event e j ev0);
                 final_text = (case job of None \<Rightarrow> [] | Some j \<Rightarrow> final_text_of e j ev0);
                 r' = run_after_event e ev r;
                 d1 = add_event (re_now e) i (rn_last_seq r') (event_type ev) (event_payload ev) (set_run i (\<lambda>_. r') d)
             in if event_type ev \<in> set TERMINAL_TYPES then
                  (case close_run e i ev final_text r' job d1 of
                     Inl err \<Rightarrow> (Inl err, d) | Inr d2 \<Rightarrow> (Inr (rn_last_seq r'), d2))
                else (Inr (rn_last_seq r'), case job of None \<Rightarrow> d1 | Some j \<Rightarrow> set_job i (\<lambda>_. job_after_event e ev j) d1)))"

section \<open>Cancelling, usage, requeueing and parking\<close>

text \<open>The run is read in \<open>d1\<close>, the write meets \<open>d2\<close>, a later transaction.\<close>

definition cancel_run ::
  "run_env \<Rightarrow> int \<Rightarrow> int \<Rightarrow> run_db \<Rightarrow> run_db \<Rightarrow> (run_error + (AgentRunRow \<times> DeepJobRow) option) \<times> run_db" where
  "cancel_run e run_id project_id d1 d2 = (case get_run run_id project_id d1 of
      None \<Rightarrow> (Inr None, d2)
    | Some (run, job) \<Rightarrow>
        if rn_outcome run \<noteq> None then (Inr (get_run run_id project_id d2), d2)
        else if j_status job = Pending then
          (case append_event e run_id RunCancelled None False d2 of
             (Inl err, d3) \<Rightarrow> (Inl err, d3) | (Inr _, d3) \<Rightarrow> (Inr (get_run run_id project_id d3), d3))
        else (let d3 = set_run run_id (\<lambda>r. r\<lparr>rn_cancel_requested := True\<rparr>) d2
              in (Inr (get_run run_id project_id d3), d3)))"

record run_totals =
  ut_input_tokens :: "int option"
  ut_output_tokens :: "int option"
  ut_cache_read_tokens :: "int option"
  ut_turns :: "int option"
  ut_total_tokens :: "int option"
  ut_reasoning_tokens :: "int option"

definition plus_reported :: "int option \<Rightarrow> int option \<Rightarrow> int option" where
  "plus_reported old new = (case new of None \<Rightarrow> old | Some n \<Rightarrow> Some ((case old of None \<Rightarrow> 0 | Some k \<Rightarrow> k) + n))"

definition run_usage :: "int \<Rightarrow> run_totals \<Rightarrow> string option \<Rightarrow> Lease option \<Rightarrow> run_db \<Rightarrow> (run_error + unit) \<times> run_db" where
  "run_usage run_id totals billing_mode lease d =
     (if \<not> check_fence lease (rd_leases d) then (Inl StaleLease, d)
      else (Inr (), set_run run_id (\<lambda>r. r\<lparr>rn_billing_mode := billing_mode,
              rn_usage_source := (if ut_input_tokens totals \<noteq> None \<or> ut_output_tokens totals \<noteq> None \<or>
                 ut_cache_read_tokens totals \<noteq> None \<or> ut_turns totals \<noteq> None \<or>
                 ut_total_tokens totals \<noteq> None \<or> ut_reasoning_tokens totals \<noteq> None then Some ''cli_reported'' else rn_usage_source r),
              rn_usage_input_tokens := plus_reported (rn_usage_input_tokens r) (ut_input_tokens totals),
              rn_usage_output_tokens := plus_reported (rn_usage_output_tokens r) (ut_output_tokens totals),
              rn_usage_cache_read_tokens := plus_reported (rn_usage_cache_read_tokens r) (ut_cache_read_tokens totals),
              rn_usage_turns := plus_reported (rn_usage_turns r) (ut_turns totals)\<rparr>) d))"

definition back_to_pending :: "instant \<Rightarrow> string \<Rightarrow> DeepJobRow \<Rightarrow> DeepJobRow" where
  "back_to_pending not_before reason j = j\<lparr>j_status := Pending, j_started_at := None, j_run_after := Some not_before,
     j_result_meta := Some (JObj (dict_set ''pending_reason'' (JStr reason) (meta_of j)))\<rparr>"

definition requeue_run :: "instant \<Rightarrow> int \<Rightarrow> secs \<Rightarrow> run_db \<Rightarrow> int \<times> run_db" where
  "requeue_run now run_id delay_s d = (case find_job run_id d of
      None \<Rightarrow> (0, d)
    | Some j \<Rightarrow> (j_retry_count j + 1,
        set_job run_id (\<lambda>_. back_to_pending (now + delay_s) ''capacity_busy'' (j\<lparr>j_retry_count := j_retry_count j + 1\<rparr>)) d))"

definition waiting_payload :: "string \<Rightarrow> int \<Rightarrow> bool \<Rightarrow> string \<Rightarrow> json" where
  "waiting_payload not_before_iso attempt reset_reported reason =
     event_dump (RunWaitingQuota not_before_iso attempt reset_reported (take 300 reason))"

definition parked_run :: "instant \<Rightarrow> AgentRunRow \<Rightarrow> AgentRunRow" where
  "parked_run now r = r\<lparr>rn_quota_waits := rn_quota_waits r + 1, rn_last_seq := rn_last_seq r + 1, rn_last_event_at := Some now,
     rn_resume_session_id := (if given (rn_session_id r) then rn_session_id r else rn_resume_session_id r)\<rparr>"

definition park_for_quota ::
  "run_env \<Rightarrow> int \<Rightarrow> instant \<Rightarrow> string \<Rightarrow> bool \<Rightarrow> Lease option \<Rightarrow> string \<Rightarrow> run_db \<Rightarrow> (run_error + int) \<times> run_db" where
  "park_for_quota e run_id not_before not_before_iso reset_reported lease reason d =
     (if \<not> check_fence lease (rd_leases d) then (Inl StaleLease, d)
      else case (find_run run_id d, find_job run_id d) of
        (Some r, Some j) \<Rightarrow>
          if rn_outcome r \<noteq> None then (Inl (RunConflict ''is not waiting-capable''), d)
          else (let r' = parked_run (re_now e) r
                in (Inr (rn_quota_waits r'),
                    set_job run_id (back_to_pending not_before ''waiting_quota'')
                      (add_event (re_now e) run_id (rn_last_seq r') ''run.waiting_quota''
                        (waiting_payload not_before_iso (rn_quota_waits r') reset_reported reason) (set_run run_id (\<lambda>_. r') d))))
      | _ \<Rightarrow> (Inl (RunConflict ''is not waiting-capable''), d))"

end
