(* ===== verification/Agent_Log.thy ===== *)
theory Agent_Log
  imports Agent_Runs
begin

text \<open>
  The event log of agent runs. Every operation of \<^verbatim>\<open>agent/runs.py\<close> is one of five moves of an
  abstract log machine (touch a run, record one event of an open run, open a run, forget
  runs, let the queue move on); the log discipline of \<^verbatim>\<open>agent/events.py\<close> - consecutive sequence
  numbers, exactly one terminal event and it is the last - is proved on the machine and
  carried to the operations.
\<close>

section \<open>The log machine\<close>

definition terminal_type :: "string \<Rightarrow> bool" where
  "terminal_type t \<longleftrightarrow> t \<in> set TERMINAL_TYPES"

definition closed :: "string option \<Rightarrow> string list \<Rightarrow> bool" where
  "closed outcome types = (case outcome of
      None \<Rightarrow> list_all (\<lambda>t. \<not> terminal_type t) types
    | Some out \<Rightarrow> types \<noteq> [] \<and> map_of OUTCOME_BY_TYPE (last types) = Some out \<and> list_all (\<lambda>t. \<not> terminal_type t) (butlast types))"

definition log_of :: "AgentRunEventRow list \<Rightarrow> int \<Rightarrow> AgentRunEventRow list" where
  "log_of events i = filter (\<lambda>ev. ev_run_id ev = i) events"

definition log_ok :: "AgentRunEventRow list \<Rightarrow> AgentRunRow \<Rightarrow> bool" where
  "log_ok events r \<longleftrightarrow> map ev_seq (log_of events (rn_run_id r)) = [1..rn_last_seq r] \<and> 0 \<le> rn_last_seq r \<and>
     closed (rn_outcome r) (map ev_type (log_of events (rn_run_id r)))"

record log_view =
  lv_runs :: "AgentRunRow list"
  lv_events :: "AgentRunEventRow list"
  lv_next :: int

definition view :: "run_db \<Rightarrow> log_view" where
  "view d = \<lparr>lv_runs = rd_runs d, lv_events = rd_events d, lv_next = jt_next (rd_jobs d)\<rparr>"

definition same_log :: "AgentRunRow \<Rightarrow> AgentRunRow \<Rightarrow> bool" where
  "same_log r r' \<longleftrightarrow> rn_run_id r' = rn_run_id r \<and> rn_last_seq r' = rn_last_seq r \<and> rn_outcome r' = rn_outcome r"

inductive log_step :: "log_view \<Rightarrow> log_view \<Rightarrow> bool" where
  touch: "(\<And>r. same_log r (f r)) \<Longrightarrow> log_step v (v\<lparr>lv_runs := update_where (\<lambda>r. rn_run_id r = i) f (lv_runs v)\<rparr>)"
| record_one: "find_row rn_run_id i (lv_runs v) = Some r \<Longrightarrow> rn_outcome r = None \<Longrightarrow> rn_run_id r' = i
    \<Longrightarrow> rn_last_seq r' = rn_last_seq r + 1 \<Longrightarrow> rn_outcome r' = map_of OUTCOME_BY_TYPE (ev_type ev)
    \<Longrightarrow> ev_run_id ev = i \<Longrightarrow> ev_seq ev = rn_last_seq r'
    \<Longrightarrow> log_step v (v\<lparr>lv_runs := update_where (\<lambda>r. rn_run_id r = i) (\<lambda>_. r') (lv_runs v), lv_events := lv_events v @ [ev]\<rparr>)"
| open_one: "rn_run_id r = lv_next v \<Longrightarrow> rn_last_seq r = 0 \<Longrightarrow> rn_outcome r = None
    \<Longrightarrow> log_step v (v\<lparr>lv_runs := lv_runs v @ [r], lv_next := lv_next v + 1\<rparr>)"
| forget: "log_step v (v\<lparr>lv_runs := filter (\<lambda>r. keep (rn_run_id r)) (lv_runs v),
    lv_events := filter (\<lambda>ev. keep (ev_run_id ev)) (lv_events v)\<rparr>)"
| move_on: "lv_next v \<le> n \<Longrightarrow> log_step v (v\<lparr>lv_next := n\<rparr>)"

definition log_inv :: "log_view \<Rightarrow> bool" where
  "log_inv v \<longleftrightarrow> distinct (map rn_run_id (lv_runs v)) \<and>
     (\<forall>r\<in>set (lv_runs v). log_ok (lv_events v) r \<and> rn_run_id r < lv_next v) \<and>
     (\<forall>ev\<in>set (lv_events v). ev_run_id ev < lv_next v)"

lemma outcome_terminal: "map_of OUTCOME_BY_TYPE t = None \<longleftrightarrow> \<not> terminal_type t"
  by (auto simp: OUTCOME_BY_TYPE_def terminal_type_def TERMINAL_TYPES_def)

lemma closed_snoc: "closed None types \<Longrightarrow> closed (map_of OUTCOME_BY_TYPE t) (types @ [t])"
  using outcome_terminal[of t] by (cases "map_of OUTCOME_BY_TYPE t") (simp_all add: closed_def)

lemma log_of_snoc: "log_of (events @ [ev]) i = log_of events i @ (if ev_run_id ev = i then [ev] else [])"
  by (simp add: log_of_def)

lemma log_ok_same: "same_log r r' \<Longrightarrow> log_ok events r \<Longrightarrow> log_ok events r'"
  by (simp add: same_log_def log_ok_def)

lemma log_ok_snoc:
  assumes "log_ok events r" "rn_outcome r = None" "rn_run_id r' = rn_run_id r" "rn_last_seq r' = rn_last_seq r + 1"
    "rn_outcome r' = map_of OUTCOME_BY_TYPE (ev_type ev)" "ev_run_id ev = rn_run_id r" "ev_seq ev = rn_last_seq r'"
  shows "log_ok (events @ [ev]) r'"
  using assms closed_snoc upto_rec2[of 1 "rn_last_seq r + 1"] by (simp add: log_ok_def log_of_snoc)

lemma update_where_ids:
  assumes "\<And>r. rn_run_id r = i \<Longrightarrow> rn_run_id (f r) = i"
  shows "map rn_run_id (update_where (\<lambda>r. rn_run_id r = i) f rows) = map rn_run_id rows"
  using assms by (induction rows) auto

lemma in_update_where:
  assumes "x \<in> set (update_where P f rows)"
  obtains r where "r \<in> set rows" "x = (if P r then f r else r)"
  using assms by (auto simp: set_update_where)

lemma log_inv_record:
  assumes inv: "log_inv v" and r: "find_row rn_run_id i (lv_runs v) = Some r" "rn_outcome r = None"
    and r': "rn_run_id r' = i" "rn_last_seq r' = rn_last_seq r + 1" "rn_outcome r' = map_of OUTCOME_BY_TYPE (ev_type ev)"
    and ev: "ev_run_id ev = i" "ev_seq ev = rn_last_seq r'"
  shows "log_inv (v\<lparr>lv_runs := update_where (\<lambda>r. rn_run_id r = i) (\<lambda>_. r') (lv_runs v), lv_events := lv_events v @ [ev]\<rparr>)"
proof -
  have mem: "r \<in> set (lv_runs v)" "rn_run_id r = i" using find_row_SomeD[OF r(1)] by auto
  have ok: "log_ok (lv_events v) r" "i < lv_next v" using inv mem by (auto simp: log_inv_def)
  have new: "log_ok (lv_events v @ [ev]) r'"
    by (rule log_ok_snoc[OF ok(1) r(2)]) (use r' ev mem in simp_all)
  have "log_ok (lv_events v @ [ev]) x \<and> rn_run_id x < lv_next v"
    if x: "x \<in> set (update_where (\<lambda>r. rn_run_id r = i) (\<lambda>_. r') (lv_runs v))" for x
  proof (rule in_update_where[OF x])
    fix y assume y: "y \<in> set (lv_runs v)" "x = (if rn_run_id y = i then r' else y)"
    show ?thesis
    proof (cases "rn_run_id y = i")
      case True then show ?thesis using new r' ok y by simp
    next
      case False
      then have "log_of (lv_events v @ [ev]) (rn_run_id y) = log_of (lv_events v) (rn_run_id y)" using ev by (simp add: log_of_snoc)
      then show ?thesis using False y inv by (simp add: log_inv_def log_ok_def)
    qed
  qed
  then show ?thesis using inv ok ev r' by (auto simp: log_inv_def update_where_ids)
qed

lemma log_inv_step: "log_step v v' \<Longrightarrow> log_inv v \<Longrightarrow> log_inv v'"
proof (induction rule: log_step.induct)
  case (touch f v i)
  have "log_ok (lv_events v) x \<and> rn_run_id x < lv_next v"
    if x: "x \<in> set (update_where (\<lambda>r. rn_run_id r = i) f (lv_runs v))" for x
  proof (rule in_update_where[OF x])
    fix y assume y: "y \<in> set (lv_runs v)" "x = (if rn_run_id y = i then f y else y)"
    then have "same_log y x" using touch(1)[of y] by (cases "rn_run_id y = i") (simp_all add: same_log_def)
    moreover have "log_ok (lv_events v) y" "rn_run_id y < lv_next v" using touch(2) y by (auto simp: log_inv_def)
    ultimately show ?thesis using log_ok_same[of y x] by (simp add: same_log_def)
  qed
  then show ?case using touch by (simp add: log_inv_def update_where_ids same_log_def)
next
  case (record_one i v r r' ev)
  then show ?case using log_inv_record[of v i r r' ev] by simp
next
  case (open_one r v)
  have "log_of (lv_events v) (lv_next v) = []"
    using open_one(4) by (auto simp: log_inv_def log_of_def filter_empty_conv)
  then have "log_ok (lv_events v) r" using open_one(1-3) by (simp add: log_ok_def closed_def)
  then show ?case using open_one by (fastforce simp: log_inv_def)
next
  case (forget v keep)
  have "log_of (filter (\<lambda>ev. keep (ev_run_id ev)) evs) i = log_of evs i" if "keep i" for i evs
    using that by (auto simp: log_of_def intro: filter_cong)
  then show ?case using forget by (auto simp: log_inv_def log_ok_def distinct_map_filter)
next
  case (move_on v n)
  then show ?case by (fastforce simp: log_inv_def)
qed

text \<open>A closed run keeps its outcome and its log for as long as it is kept.\<close>

definition frozen :: "int \<Rightarrow> string \<Rightarrow> AgentRunEventRow list \<Rightarrow> log_view \<Rightarrow> bool" where
  "frozen i out l v \<longleftrightarrow> i < lv_next v \<and> (case find_row rn_run_id i (lv_runs v) of
      None \<Rightarrow> True | Some r \<Rightarrow> rn_outcome r = Some out \<and> log_of (lv_events v) i = l)"

lemma find_update_same:
  assumes "\<And>r. rn_run_id (f r) = rn_run_id r"
  shows "find_row rn_run_id k (update_where (\<lambda>r. rn_run_id r = i) f rows) =
    map_option (\<lambda>r. if k = i then f r else r) (find_row rn_run_id k rows)"
  using assms by (induction rows) auto

lemma find_update_other:
  assumes "k \<noteq> i" "rn_run_id r' = i"
  shows "find_row rn_run_id k (update_where (\<lambda>r. rn_run_id r = i) (\<lambda>_. r') rows) = find_row rn_run_id k rows"
  using assms by (induction rows) auto

lemma find_filter_key:
  "find_row rn_run_id k (filter (\<lambda>r. keep (rn_run_id r)) rows) = (if keep k then find_row rn_run_id k rows else None)"
  by (induction rows) auto

lemma frozen_step: "log_step v v' \<Longrightarrow> frozen i out l v \<Longrightarrow> frozen i out l v'"
proof (induction rule: log_step.induct)
  case (touch f v k)
  have f: "rn_run_id (f r) = rn_run_id r" "rn_outcome (f r) = rn_outcome r" for r
    using touch(1)[of r] by (simp_all add: same_log_def)
  show ?case using touch(2) find_update_same[of f i k "lv_runs v", OF f(1)] f(2)
    by (cases "find_row rn_run_id i (lv_runs v)") (simp_all add: frozen_def)
next
  case (record_one k v r r' ev)
  show ?case
  proof (cases "k = i")
    case True
    then show ?thesis using record_one by (simp add: frozen_def)
  next
    case False
    then show ?thesis using record_one find_update_other[of i k r' "lv_runs v"]
      by (cases "find_row rn_run_id i (lv_runs v)") (simp_all add: frozen_def log_of_snoc)
  qed
next
  case (open_one r v)
  then show ?case by (auto simp: frozen_def find_row_append split: option.splits)
next
  case (forget v keep)
  have "log_of (filter (\<lambda>ev. keep (ev_run_id ev)) evs) i = log_of evs i" if "keep i" for evs
    using that by (auto simp: log_of_def intro: filter_cong)
  then show ?case using forget
    by (cases "find_row rn_run_id i (lv_runs v)") (simp_all add: frozen_def find_filter_key)
next
  case (move_on v n)
  then show ?case by (cases "find_row rn_run_id i (lv_runs v)") (simp_all add: frozen_def)
qed

section \<open>The operations are moves of the machine\<close>

inductive runs_step :: "run_db \<Rightarrow> run_db \<Rightarrow> bool" where
  rs_create: "runs_step d (snd (create_run md5 now n d0 d))"
| rs_append: "runs_step d (snd (append_event e i ev lease only_if_pending d))"
| rs_cancel: "runs_step d (snd (cancel_run e i p d0 d))"
| rs_usage: "runs_step d (snd (run_usage i totals mode lease d))"
| rs_requeue: "runs_step d (snd (requeue_run now i delay d))"
| rs_park: "runs_step d (snd (park_for_quota e i not_before iso_text reported lease reason d))"
| rs_queue: "jt_next (rd_jobs d) \<le> jt_next jobs \<Longrightarrow> runs_step d (d\<lparr>rd_jobs := jobs, rd_files := files, rd_leases := leases\<rparr>)"
| rs_purge: "runs_step d (d\<lparr>rd_runs := filter (\<lambda>r. keep (rn_run_id r)) (rd_runs d),
    rd_events := filter (\<lambda>ev. keep (ev_run_id ev)) (rd_events d)\<rparr>)"

lemma view_set_run [simp]: "view (set_run i f d) = (view d)\<lparr>lv_runs := update_where (\<lambda>r. rn_run_id r = i) f (rd_runs d)\<rparr>"
  by (simp add: view_def set_run_def)

lemma view_set_job [simp]: "view (set_job i f d) = view d"
  by (simp add: view_def set_job_def)

lemma view_files [simp]: "view (d\<lparr>rd_files := fs\<rparr>) = view d"
  by (simp add: view_def)

lemma view_add_event [simp]: "view (add_event now i s t p d) =
    (view d)\<lparr>lv_events := rd_events d @ [\<lparr>ev_run_id = i, ev_seq = s, ev_ts = now, ev_type = t, ev_payload = p\<rparr>]\<rparr>"
  by (simp add: view_def add_event_def)

lemma view_sel [simp]: "lv_runs (view d) = rd_runs d" "lv_events (view d) = rd_events d" "lv_next (view d) = jt_next (rd_jobs d)"
  by (simp_all add: view_def)

lemma set_run_sel [simp]: "rd_events (set_run i f d) = rd_events d"
  by (simp add: set_run_def)

lemma log_step_refl [simp]: "log_step v v"
  using move_on[of v "lv_next v"] by simp

lemma log_step_set_run: "(\<And>r. same_log r (f r)) \<Longrightarrow> log_step (view d) (view (set_run i f d))"
  using touch[of f "view d" i] by simp

lemma log_step_event:
  assumes "find_run i d = Some r" "rn_outcome r = None" "rn_run_id r' = i" "rn_last_seq r' = rn_last_seq r + 1"
    "rn_outcome r' = map_of OUTCOME_BY_TYPE t"
  shows "log_step (view d) (view (add_event now i (rn_last_seq r') t p (set_run i (\<lambda>_. r') d)))"
  using record_one[of i "view d" r r' "\<lparr>ev_run_id = i, ev_seq = rn_last_seq r', ev_ts = now, ev_type = t, ev_payload = p\<rparr>"] assms
  by (simp add: find_run_def)

lemma run_after_event_log:
  assumes "rn_outcome r = None"
  shows "rn_run_id (run_after_event e ev r) = rn_run_id r" "rn_last_seq (run_after_event e ev r) = rn_last_seq r + 1"
    "rn_outcome (run_after_event e ev r) = map_of OUTCOME_BY_TYPE (event_type ev)"
  using assms outcome_terminal[of "event_type ev"] by (auto simp: run_after_event_def terminal_type_def)

lemma close_run_view: "close_run e i ev t r job d = Inr d' \<Longrightarrow> view d' = view d"
  by (auto simp: close_run_def split: option.splits prod.splits)

text \<open>An append changes nothing of the log, or it records one event of an open run.\<close>

lemma append_event_view:
  obtains "view (snd (append_event e i ev0 lease pending d)) = view d"
  | r r' t p where "find_run i d = Some r" "rn_outcome r = None" "rn_run_id r' = i" "rn_last_seq r' = rn_last_seq r + 1"
      "rn_outcome r' = map_of OUTCOME_BY_TYPE t"
      "view (snd (append_event e i ev0 lease pending d)) = view (add_event (re_now e) i (rn_last_seq r') t p (set_run i (\<lambda>_. r') d))"
proof (cases "find_run i d")
  case None
  then have "view (snd (append_event e i ev0 lease pending d)) = view d" by (simp add: append_event_def)
  then show ?thesis by (rule that(1))
next
  case (Some r)
  define job where "job = (if reads_job ev0 then find_job i d else None)"
  define ev where "ev = (case job of None \<Rightarrow> ev0 | Some j \<Rightarrow> gated_event e j ev0)"
  define r' where "r' = run_after_event e ev r"
  define d1 where "d1 = add_event (re_now e) i (rn_last_seq r') (event_type ev) (event_payload ev) (set_run i (\<lambda>_. r') d)"
  have "view (snd (append_event e i ev0 lease pending d)) = view d \<or>
      rn_outcome r = None \<and> view (snd (append_event e i ev0 lease pending d)) = view d1"
    unfolding append_event_def Let_def job_def[symmetric] ev_def[symmetric] Some option.case r'_def[symmetric] d1_def[symmetric]
    by (auto split: sum.splits option.splits dest: close_run_view)
  then show ?thesis
  proof (elim disjE conjE)
    assume out: "rn_outcome r = None" and v: "view (snd (append_event e i ev0 lease pending d)) = view d1"
    have "rn_run_id r = i" using Some find_row_SomeD[of rn_run_id i "rd_runs d" r] by (simp add: find_run_def)
    then show ?thesis using that(2)[OF Some out _ _ _ v[unfolded d1_def]] run_after_event_log[OF out] by (simp add: r'_def)
  qed (rule that(1))
qed

lemma append_event_log: "log_step (view d) (view (snd (append_event e i ev0 lease pending d)))"
proof (rule append_event_view[of e i ev0 lease pending d])
  fix r r' t p
  assume "find_run i d = Some r" "rn_outcome r = None" "rn_run_id r' = i" "rn_last_seq r' = rn_last_seq r + 1"
    "rn_outcome r' = map_of OUTCOME_BY_TYPE t"
    "view (snd (append_event e i ev0 lease pending d)) = view (add_event (re_now e) i (rn_last_seq r') t p (set_run i (\<lambda>_. r') d))"
  then show ?thesis using log_step_event[of i d r r' t] by metis
qed simp

text \<open>Other runs, and runs that have ended, are left alone.\<close>

lemma append_event_other:
  assumes "k \<noteq> i \<or> (\<exists>r out. find_run k d = Some r \<and> rn_outcome r = Some out)"
  shows "find_run k (snd (append_event e i ev0 lease pending d)) = find_run k d"
proof (rule append_event_view[of e i ev0 lease pending d])
  assume "view (snd (append_event e i ev0 lease pending d)) = view d"
  then show ?thesis by (simp add: find_run_def flip: view_sel(1))
next
  fix r r' t p
  assume h: "find_run i d = Some r" "rn_outcome r = None" "rn_run_id r' = i"
    "view (snd (append_event e i ev0 lease pending d)) = view (add_event (re_now e) i (rn_last_seq r') t p (set_run i (\<lambda>_. r') d))"
  then have "k \<noteq> i" using assms by auto
  then show ?thesis using find_update_other[of k i r' "rd_runs d"] h(3,4) by (simp add: find_run_def flip: view_sel(1))
qed

lemma park_log: "log_step (view d) (view (snd (park_for_quota e i nb iso_text rep lease reason d)))"
proof (cases "find_run i d")
  case (Some r)
  have "map_of OUTCOME_BY_TYPE ''run.waiting_quota'' = None" by (simp add: OUTCOME_BY_TYPE_def)
  then have "log_step (view d) (view (add_event (re_now e) i (rn_last_seq (parked_run (re_now e) r)) ''run.waiting_quota'' p
      (set_run i (\<lambda>_. parked_run (re_now e) r) d)))" if "rn_outcome r = None" for p
    using log_step_event[OF Some that] find_row_SomeD[of rn_run_id i "rd_runs d" r] Some that
    by (simp add: parked_run_def find_run_def)
  then show ?thesis using Some by (simp add: park_for_quota_def Let_def split: option.split)
qed (simp add: park_for_quota_def)

lemma insert_run_log: "log_step (view d) (view (snd (insert_run now n phash d)))"
proof (cases "run_key_taken n d")
  case True
  then show ?thesis by (simp add: insert_run_def split: sum.split option.split)
next
  case False
  have "log_step (view d) ((view d)\<lparr>lv_runs := rd_runs d @ [side_row n (jt_next (rd_jobs d))], lv_next := jt_next (rd_jobs d) + 1\<rparr>)"
    using open_one[of "side_row n (jt_next (rd_jobs d))" "view d"] by (simp add: side_row_def)
  then show ?thesis using False by (simp add: insert_run_def insert_job_def Let_def view_def)
qed

lemma create_run_log: "log_step (view d) (view (snd (create_run md5 now n d0 d)))"
  by (auto simp: create_run_def Let_def insert_run_log split: option.split sum.split)

lemma cancel_run_log: "log_step (view d) (view (snd (cancel_run e i p d0 d)))"
proof (cases "get_run i p d0")
  case (Some hit)
  obtain run job where hit: "hit = (run, job)" by (cases hit)
  obtain x d3 where app: "append_event e i RunCancelled None False d = (x, d3)" by fastforce
  have "log_step (view d) (view d3)" using append_event_log[of d e i RunCancelled None False] app by simp
  moreover have "log_step (view d) (view (set_run i (\<lambda>r. r\<lparr>rn_cancel_requested := True\<rparr>) d))"
    by (rule log_step_set_run) (simp add: same_log_def)
  ultimately show ?thesis using Some hit app by (cases x) (simp_all add: cancel_run_def Let_def)
qed (simp add: cancel_run_def)

lemma usage_log: "log_step (view d) (view (snd (run_usage i totals mode lease d)))"
proof (cases "check_fence lease (rd_leases d)")
  case True
  show ?thesis unfolding run_usage_def using True by (simp del: view_set_run add: log_step_set_run same_log_def)
qed (simp add: run_usage_def)

lemma runs_step_refines: "runs_step d d' \<Longrightarrow> log_step (view d) (view d')"
proof (induction rule: runs_step.induct)
  case (rs_requeue d now i delay)
  show ?case by (simp add: requeue_run_def split: option.split)
next
  case (rs_queue d jobs leases files)
  then show ?case using move_on[of "view d" "jt_next jobs"] by (simp add: view_def)
next
  case (rs_purge d keep)
  show ?case using forget[of "view d" keep] by (simp add: view_def)
qed (rule create_run_log append_event_log cancel_run_log usage_log park_log)+

lemma runs_steps_refine: "runs_step\<^sup>*\<^sup>* d d' \<Longrightarrow> log_step\<^sup>*\<^sup>* (view d) (view d')"
  by (induction rule: rtranclp_induct) (auto dest: runs_step_refines intro: rtranclp.rtrancl_into_rtrancl)

lemma log_inv_steps: "log_step\<^sup>*\<^sup>* v v' \<Longrightarrow> log_inv v \<Longrightarrow> log_inv v'"
  by (induction rule: rtranclp_induct) (auto dest: log_inv_step)

lemma frozen_steps: "log_step\<^sup>*\<^sup>* v v' \<Longrightarrow> frozen i out l v \<Longrightarrow> frozen i out l v'"
  by (induction rule: rtranclp_induct) (auto dest: frozen_step)

section \<open>Properties\<close>

lemma filter_consecutive:
  "map f l = [a..b] \<Longrightarrow> filter (\<lambda>x. f x > a - 1 + int k) l = drop k l"
proof (induction l arbitrary: a k)
  case (Cons x xs)
  have ne: "a \<le> b" using Cons.prems by (metis list.map_disc_iff list.distinct(1) upto_Nil not_less)
  then have split: "f x = a" "map f xs = [a + 1..b]" using Cons.prems by (simp_all add: upto.simps[of a b])
  show ?case
  proof (cases k)
    case 0
    have "f y \<in> set [a + 1..b]" if "y \<in> set xs" for y
      using that arg_cong[OF split(2), of set] by auto
    then have "filter (\<lambda>x. a - 1 < f x) xs = xs" by (fastforce simp: filter_id_conv)
    then show ?thesis using 0 split by simp
  next
    case (Suc j)
    then show ?thesis using Cons.IH[OF split(2), of j] split by (simp add: algebra_simps)
  qed
qed simp

lemma list_events_page:
  assumes "log_ok (rd_events d) r" "0 \<le> k"
  shows "list_events (rn_run_id r) k n d = take n (drop (nat k) (log_of (rd_events d) (rn_run_id r)))"
proof -
  let ?log = "log_of (rd_events d) (rn_run_id r)"
  have seqs: "map ev_seq ?log = [1..rn_last_seq r]" using assms by (simp add: log_ok_def)
  have "filter (\<lambda>ev. ev_run_id ev = rn_run_id r \<and> ev_seq ev > k) (rd_events d) = filter (\<lambda>ev. ev_seq ev > k) ?log"
    by (auto simp: log_of_def intro: filter_cong)
  also have "\<dots> = drop (nat k) ?log" using filter_consecutive[OF seqs, of "nat k"] assms(2) by simp
  finally have page: "filter (\<lambda>ev. ev_run_id ev = rn_run_id r \<and> ev_seq ev > k) (rd_events d) = drop (nat k) ?log" .
  have "sorted (map ev_seq (drop (nat k) ?log))"
    using seqs by (simp add: drop_map[symmetric] sorted_wrt_drop)
  then show ?thesis using page by (simp add: list_events_def sort_key_id_if_sorted)
qed

definition no_runs :: "run_db \<Rightarrow> bool" where
  "no_runs d \<longleftrightarrow> rd_runs d = [] \<and> rd_events d = []"

lemma log_inv_reachable: "no_runs d0 \<Longrightarrow> runs_step\<^sup>*\<^sup>* d0 d \<Longrightarrow> log_inv (view d)"
  by (erule log_inv_steps[OF runs_steps_refine]) (simp add: log_inv_def no_runs_def)

text \<open>
  C7. The event log of an agent run, in every state that any interleaving of the operations on
  runs can reach (creating, appending, cancelling, recording usage, requeueing, parking,
  purging and whatever the queue does): its events are numbered from 1 up to the run's last
  sequence number without gap or repetition; an unfinished run has no terminal event, and a
  finished one has exactly one, which is its last event and names its outcome. A reader who
  asks for the events after the last number it saw gets exactly the next page of the log.
\<close>

theorem one_terminal_event_ends_a_run:
  assumes "no_runs d0" "runs_step\<^sup>*\<^sup>* d0 d" "r \<in> set (rd_runs d)"
  shows "map ev_seq (log_of (rd_events d) (rn_run_id r)) = [1..rn_last_seq r] \<and>
    closed (rn_outcome r) (map ev_type (log_of (rd_events d) (rn_run_id r))) \<and>
    list_events (rn_run_id r) (int k) n d = take n (drop k (log_of (rd_events d) (rn_run_id r)))"
proof -
  have ok: "log_ok (rd_events d) r" using log_inv_reachable[OF assms(1,2)] assms(3) by (auto simp: log_inv_def)
  then show ?thesis using list_events_page[OF ok, of "int k" n] by (simp add: log_ok_def)
qed

text \<open>
  The first terminal event wins, for good: once a run has an outcome, no operation, by
  whichever worker and in whatever order, changes that outcome or appends to its log; the run
  may only be purged as a whole, and its number is never given to another run.
\<close>

theorem finished_run_is_frozen:
  assumes "no_runs d0" "runs_step\<^sup>*\<^sup>* d0 d" "runs_step\<^sup>*\<^sup>* d d'"
    "find_run i d = Some r" "rn_outcome r = Some out" "find_run i d' = Some r'"
  shows "rn_outcome r' = Some out \<and> log_of (rd_events d') i = log_of (rd_events d) i"
proof -
  have "r \<in> set (rd_runs d)" "rn_run_id r = i" using find_row_SomeD[of rn_run_id i] assms(4) by (auto simp: find_run_def)
  then have "frozen i out (log_of (rd_events d) i) (view d)"
    using log_inv_reachable[OF assms(1,2)] assms(4,5) by (auto simp: frozen_def log_inv_def find_run_def)
  from frozen_steps[OF runs_steps_refine[OF assms(3)] this] show ?thesis using assms(6) by (simp add: frozen_def find_run_def)
qed

text \<open>
  A worker that lost its session writes nothing more: if the fence of its session was already
  beyond the one its lease carries, then whatever lease statements follow, its events, its
  usage report and its quota wait are refused as stale and leave the database as it is.
\<close>

theorem stale_holder_changes_nothing:
  assumes "lease_table rows" "lease_fence rows (session_of l) = Some f" "l_fence l < f" "lease_stmt\<^sup>*\<^sup>* rows (rd_leases d)"
  shows "append_event e i ev (Some l) pending d = (Inl StaleLease, d) \<and>
    run_usage i totals mode (Some l) d = (Inl StaleLease, d) \<and>
    park_for_quota e i not_before iso_text reported (Some l) reason d = (Inl StaleLease, d)"
proof -
  have "\<not> check_fence (Some l) (rd_leases d)"
  proof
    assume "check_fence (Some l) (rd_leases d)"
    then have "writes_with (session_of l) (l_fence l) (rd_leases d)" by (auto simp: writes_with_def)
    from lf.late_write_has_latest_fence[OF assms(4,1,2) this] show False using assms(3) by simp
  qed
  then show ?thesis by (simp add: append_event_def run_usage_def park_for_quota_def)
qed

lemma update_where_found:
  "find_row key i rows = Some r \<Longrightarrow> key r' = i \<Longrightarrow> find_row key i (update_where (\<lambda>r. key r = i) (\<lambda>_. r') rows) = Some r'"
  by (induction rows) (auto split: if_splits)

lemma strip_request_keeps [simp]: "j_id (strip_request j) = j_id j" "j_status (strip_request j) = j_status j"
  "j_result_text (strip_request j) = j_result_text j" "j_error_message (strip_request j) = j_error_message j"
  by (simp_all add: strip_request_def split: option.split json.split list.split)

lemma end_job_id: "j_id (end_job e r ev t evd st j) = j_id j"
  by (cases ev) (simp_all add: end_job_def Let_def)

lemma end_job_completed:
  "j_status (end_job e r (RunCompleted x fs) t evd st j) = Done \<and>
   j_result_text (end_job e r (RunCompleted x fs) t evd st j) = Some t"
  by (simp add: end_job_def Let_def end_status_def)

lemma end_job_failed:
  "j_status (end_job e r (RunFailed cls msg reset) t evd st j) = Error \<and>
   j_error_message (end_job e r (RunFailed cls msg reset) t evd st j) = Some (redact (cls @ '': '' @ msg))"
  by (simp add: end_job_def Let_def end_status_def)

lemma close_run_job:
  assumes "close_run e i ev t r (Some j) d = Inr d'" "find_job i d = Some j"
  obtains evd st where "find_job i d' = Some (end_job e r ev t evd st j)"
proof -
  obtain evd where evd: "evidence_meta r j (the (map_of OUTCOME_BY_TYPE (event_type ev))) = Some evd"
    using assms(1) by (cases "evidence_meta r j (the (map_of OUTCOME_BY_TYPE (event_type ev)))") (simp_all add: close_run_def)
  obtain st table where st: "(case ev of RunCompleted _ fs \<Rightarrow> store_files (re_sha e) (re_parse e) (re_files_in_table e) i fs (rd_files d)
      | _ \<Rightarrow> ([], rd_files d)) = (st, table)" by fastforce
  have "d' = set_job i (\<lambda>_. end_job e r ev t evd st j) (d\<lparr>rd_files := table\<rparr>)"
    using assms(1) unfolding close_run_def option.case evd st by simp
  then have "find_job i d' = Some (end_job e r ev t evd st j)"
    using assms(2) update_where_found[of j_id i "jt_rows (rd_jobs d)" j "end_job e r ev t evd st j"]
      find_row_SomeD[of j_id i "jt_rows (rd_jobs d)" j]
    by (simp add: find_job_def set_job_def end_job_id)
  then show ?thesis by (rule that)
qed

text \<open>What a terminal event leaves of the run and of its queue row.\<close>

lemma append_terminal:
  assumes app: "append_event e i ev0 lease pending d = (Inr s, d')" and j: "find_job i d = Some j" "reads_job ev0"
    and ev: "ev = gated_event e j ev0" "event_type ev \<in> set TERMINAL_TYPES"
  obtains r1 evd st where "find_run i d' = Some r1" "rn_outcome r1 = map_of OUTCOME_BY_TYPE (event_type ev)"
    "find_job i d' = Some (end_job e r1 ev (final_text_of e j ev0) evd st j)"
proof -
  obtain r where r: "find_run i d = Some r" "rn_outcome r = None"
    using app by (auto simp: append_event_def Let_def split: if_splits option.splits)
  define r1 where "r1 = run_after_event e ev r"
  define d1 where "d1 = add_event (re_now e) i (rn_last_seq r1) (event_type ev) (event_payload ev) (set_run i (\<lambda>_. r1) d)"
  have close: "close_run e i ev (final_text_of e j ev0) r1 (Some j) d1 = Inr d'"
    using app r j ev(2) unfolding append_event_def Let_def
    by (simp flip: ev(1) r1_def d1_def split: if_splits sum.splits)
  have job1: "find_job i d1 = Some j" using j by (simp add: d1_def find_job_def add_event_def set_run_def)
  have rid: "rn_run_id r1 = i" using r find_row_SomeD by (fastforce simp: r1_def find_run_def run_after_event_log(1))
  have "find_run i d' = Some r1"
    using close_run_view[OF close] update_where_found[of rn_run_id i "rd_runs d" r r1] r(1) rid
    by (simp add: find_run_def d1_def flip: view_sel(1))
  moreover have "rn_outcome r1 = map_of OUTCOME_BY_TYPE (event_type ev)" using run_after_event_log(3)[OF r(2)] by (simp add: r1_def)
  moreover obtain evd st where "find_job i d' = Some (end_job e r1 ev (final_text_of e j ev0) evd st j)"
    by (rule close_run_job[OF close job1])
  ultimately show ?thesis by (rule that)
qed

text \<open>
  C18. The answer gate of a subscription job: when a run reports completion, the job either ends
  Done, with the redacted text as its result, and both that text and the text the model gave
  satisfy the response format the client asked for; or the run ends failed, the job ends in
  error with an invalid_json message, and the answer is not delivered. Masking a secret can
  never turn a valid answer into an invalid one that is served.
\<close>

theorem served_answer_keeps_its_format:
  assumes "append_event e i (RunCompleted t fs) lease pending d = (Inr s, d')" "find_job i d = Some j" "client_job_of j \<noteq> []"
    "find_job i d' = Some j'" "find_run i d' = Some r'"
  shows "(case output_problem (re_schema e) (re_fr e) t (response_format_of j) of None \<Rightarrow>
           (case output_problem (re_schema e) (re_fr e) (redact_final_text (re_fr e) t (response_format_of j)) (response_format_of j) of
              None \<Rightarrow> j_status j' = Done \<and> rn_outcome r' = Some ''completed'' \<and>
                j_result_text j' = Some (redact_final_text (re_fr e) t (response_format_of j))
            | Some p \<Rightarrow> j_status j' = Error \<and> rn_outcome r' = Some ''failed'' \<and> j_error_message j' = Some (redact (''invalid_json: '' @ p)))
         | Some p \<Rightarrow> j_status j' = Error \<and> rn_outcome r' = Some ''failed'' \<and> j_error_message j' = Some (redact (''invalid_json: '' @ p)))"
proof -
  define ev where "ev = gated_event e j (RunCompleted t fs)"
  define x where "x = redact_final_text (re_fr e) t (response_format_of j)"
  have ft: "final_text_of e j (RunCompleted t fs) = x" by (simp add: final_text_of_def x_def)
  have reads: "reads_job (RunCompleted t fs)" by (simp add: reads_job_def TERMINAL_TYPES_def)
  have "event_type ev \<in> set TERMINAL_TYPES"
    by (simp add: ev_def gated_event_def TERMINAL_TYPES_def split: option.split)
  from append_terminal[OF assms(1,2) reads ev_def this] obtain evd st r1
    where out: "rn_outcome r' = map_of OUTCOME_BY_TYPE (event_type ev)" and job: "j' = end_job e r1 ev x evd st j"
    using assms(4,5) by (metis ft option.inject)
  have served: "j_status j' = Done \<and> rn_outcome r' = Some ''completed'' \<and> j_result_text j' = Some x" if "ev = RunCompleted t fs"
    using out job end_job_completed[of e r1 t fs x evd st j] by (simp add: OUTCOME_BY_TYPE_def that)
  have failed: "j_status j' = Error \<and> rn_outcome r' = Some ''failed'' \<and> j_error_message j' = Some (redact (''invalid_json: '' @ p))"
    if "ev = RunFailed ''invalid_json'' p None" for p
    using out job end_job_failed[of e r1 "''invalid_json''" p None x evd st j] by (simp add: OUTCOME_BY_TYPE_def that)
  show ?thesis
    using assms(3) served failed
    by (auto simp: ev_def gated_event_def ft simp flip: x_def split: option.split)
qed

section \<open>A run\<close>

definition demo_run_env :: run_env where
  "demo_run_env = \<lparr>re_now = 10, re_now_iso = ''t'', re_schema = \<lparr>sl_check_schema = \<lambda>_. True, sl_resolves = \<lambda>_ _. True, sl_validate = \<lambda>_ _. Valid\<rparr>,
     re_fr = \<lambda>_. ''0'', re_sha = \<lambda>_. ''x'', re_parse = \<lambda>_. None, re_files_in_table = True, re_locked = False\<rparr>"

definition demo_new_run :: new_run where
  "demo_new_run = \<lparr>nr_project_id = 3, nr_capability = ''agent:claude'', nr_prompt = ''p'', nr_task_id = ''t'', nr_account_id = ''owner'',
     nr_session_id = None, nr_idempotency_key = Some ''k'', nr_wall_timeout_s = 1800, nr_idle_timeout_s = 300, nr_allowed_tools = [],
     nr_model = None, nr_deadline_s = 21600, nr_attachments = [], nr_run_mode = ''m'', nr_accept_risk = False,
     nr_client_job = JObj [(''provider'', JStr ''c''), (''model'', JStr ''m'')], nr_job_idempotency_key = None,
     nr_job_payload_hash = None, nr_trace_id = None, nr_labels = None, nr_priority = 0\<rparr>"

definition demo_empty :: run_db where
  "demo_empty = \<lparr>rd_jobs = \<lparr>jt_rows = [], jt_next = 1\<rparr>, rd_runs = [], rd_events = [], rd_files = [], rd_leases = []\<rparr>"

definition demo_created :: run_db where
  "demo_created = snd (create_run (\<lambda>_. ''h'') 5 demo_new_run demo_empty demo_empty)"

definition demo_completed :: run_db where
  "demo_completed = snd (append_event demo_run_env 1 (RunCompleted ''ok'' []) None False demo_created)"

lemma demo_created_run: "find_run 1 demo_created = Some (side_row demo_new_run 1)"
  by code_simp

definition demo_job :: DeepJobRow where
  "demo_job = the (find_job 1 demo_created)"

lemma demo_created_job: "find_job 1 demo_created = Some demo_job" "client_job_of demo_job = [(''provider'', JStr ''c''), (''model'', JStr ''m'')]"
    "response_format_of demo_job = JNull" "meta_of demo_job = []"
  by code_simp+

lemma demo_no_problem: "output_problem sl fr t (response_format_of demo_job) = None"
  by (simp add: demo_created_job(3) output_problem_def)

lemma demo_gated: "gated_event demo_run_env demo_job (RunCompleted ''ok'' []) = RunCompleted ''ok'' []"
  by (simp add: gated_event_def demo_no_problem)

lemma demo_append: "append_event demo_run_env 1 (RunCompleted ''ok'' []) None False demo_created = (Inr 1, demo_completed)"
proof -
  have evd: "(evidence_meta r demo_job out = None) = False" for r out
    by (simp add: evidence_meta_def demo_created_job obj_get_def)
  have "close_run demo_run_env 1 ev t r (Some demo_job) d \<noteq> Inl x" for ev t r d x
    by (simp add: close_run_def evd split: option.split prod.split)
  then have "fst (append_event demo_run_env 1 (RunCompleted ''ok'' []) None False demo_created) = Inr 1"
    by (auto simp: append_event_def check_fence_def demo_created_run demo_created_job(1) demo_gated reads_job_def TERMINAL_TYPES_def
      Let_def side_row_def run_after_event_def split: sum.split)
  then show ?thesis by (simp add: demo_completed_def prod_eq_iff)
qed

lemma demo_completed_facts:
  obtains r j where "find_run 1 demo_completed = Some r" "rn_outcome r = Some ''completed''" "find_job 1 demo_completed = Some j"
proof -
  have reads: "reads_job (RunCompleted ''ok'' [])" by (simp add: reads_job_def TERMINAL_TYPES_def)
  obtain r evd st where "find_run 1 demo_completed = Some r" "rn_outcome r = map_of OUTCOME_BY_TYPE ''run.completed''"
     "find_job 1 demo_completed = Some (end_job demo_run_env r (RunCompleted ''ok'' []) (final_text_of demo_run_env demo_job (RunCompleted ''ok'' [])) evd st demo_job)"
    using append_terminal[OF demo_append demo_created_job(1) reads refl, unfolded demo_gated] by (auto simp: TERMINAL_TYPES_def)
  then show ?thesis using that by (simp add: OUTCOME_BY_TYPE_def)
qed

lemma demo_steps: "no_runs demo_empty" "runs_step\<^sup>*\<^sup>* demo_empty demo_created" "runs_step\<^sup>*\<^sup>* demo_created demo_completed"
proof -
  show "no_runs demo_empty" by (simp add: no_runs_def demo_empty_def)
  show "runs_step\<^sup>*\<^sup>* demo_empty demo_created" unfolding demo_created_def by (rule r_into_rtranclp) (rule rs_create)
  show "runs_step\<^sup>*\<^sup>* demo_created demo_completed" unfolding demo_completed_def by (rule r_into_rtranclp) (rule rs_append)
qed

theorem one_terminal_event_ends_a_run_witness:
  "closed (Some ''completed'') (map ev_type (log_of (rd_events demo_completed) 1))"
proof -
  obtain r j where r: "find_run 1 demo_completed = Some r" "rn_outcome r = Some ''completed''" by (rule demo_completed_facts)
  have "r \<in> set (rd_runs demo_completed)" "rn_run_id r = 1" using r(1) find_row_SomeD[of rn_run_id 1] by (auto simp: find_run_def)
  then show ?thesis
    using one_terminal_event_ends_a_run[OF demo_steps(1) rtranclp_trans[OF demo_steps(2,3)], of r 0 0] r(2) by simp
qed

theorem finished_run_is_frozen_witness:
  "log_of (rd_events (snd (requeue_run 20 1 5 demo_completed))) 1 = log_of (rd_events demo_completed) 1"
proof -
  let ?d = "snd (requeue_run 20 1 5 demo_completed)"
  obtain r j where r: "find_run 1 demo_completed = Some r" "rn_outcome r = Some ''completed''" "find_job 1 demo_completed = Some j"
    by (rule demo_completed_facts)
  have later: "runs_step\<^sup>*\<^sup>* demo_completed ?d" by (rule r_into_rtranclp) (rule rs_requeue)
  have "find_run 1 ?d = Some r" using r by (simp add: requeue_run_def find_run_def set_job_def)
  from finished_run_is_frozen[OF demo_steps(1) rtranclp_trans[OF demo_steps(2,3)] later r(1,2) this] show ?thesis by simp
qed

theorem served_answer_keeps_its_format_witness:
  "map_option j_status (find_job 1 demo_completed) = Some Done"
proof -
  obtain r j where r: "find_run 1 demo_completed = Some r" "rn_outcome r = Some ''completed''" "find_job 1 demo_completed = Some j"
    by (rule demo_completed_facts)
  from served_answer_keeps_its_format[OF demo_append demo_created_job(1) _ r(3,1)] show ?thesis
    using r(3) demo_created_job(2) by (simp add: demo_no_problem)
qed

theorem stale_holder_changes_nothing_witness:
  "append_event demo_run_env 1 RunCancelled (Some first_lease) False (demo_created\<lparr>rd_leases := [lease_row_at 9 160 40 2]\<rparr>) =
     (Inl StaleLease, demo_created\<lparr>rd_leases := [lease_row_at 9 160 40 2]\<rparr>)"
  using stale_holder_changes_nothing[of "[lease_row_at 9 160 40 2]" first_lease 2 "demo_created\<lparr>rd_leases := [lease_row_at 9 160 40 2]\<rparr>"
      demo_run_env 1 RunCancelled False]
  by (simp add: lease_fence_def token_def lease_row_at_def lease_key_def session_of_def first_lease_def)

end
