(* ===== verification/Agent_Access.thy ===== *)
theory Agent_Access
  imports Agent_Runs Catalog
begin

text \<open>
  Who may run agents, with which models and accounts: the subscription identities of
  \<^verbatim>\<open>agent/account_choices.py\<close>, the dashboard snapshot of \<^verbatim>\<open>agent/project_access.py\<close>, the
  allowlist of \<^verbatim>\<open>agent/constants.py\<close>, the policy of \<^verbatim>\<open>agent/policy.py\<close> and the check the
  executor makes before a run. The settings are the arguments \<open>allowed_raw\<close> and \<open>policy_raw\<close>, the
  subscription catalog is \<open>subs\<close>. The snapshot is \<open>None\<close> until the first successful refresh.
\<close>

section \<open>Strings\<close>

text \<open>\<^verbatim>\<open>s.split(c)\<close> and \<^verbatim>\<open>dict.fromkeys\<close>, which keeps first occurrences.\<close>

fun split_on :: "char \<Rightarrow> string \<Rightarrow> string list" where
  "split_on c [] = [[]]"
| "split_on c (x # xs) = (if x = c then [] # split_on c xs
     else (case split_on c xs of w # ws \<Rightarrow> (x # w) # ws | [] \<Rightarrow> [[x]]))"

definition from_keys :: "'a list \<Rightarrow> 'a list" where
  "from_keys xs = rev (remdups (rev xs))"

definition is_digits :: "string \<Rightarrow> bool" where
  "is_digits s \<longleftrightarrow> s \<noteq> [] \<and> list_all is_digit s"

lemma set_from_keys [simp]: "set (from_keys xs) = set xs"
  by (simp add: from_keys_def)

section \<open>Subscription identities\<close>

definition ACCOUNT_ONLY :: string where "ACCOUNT_ONLY = ''@accounts-v1''"

record AccountChoice =
  ac_provider :: string
  ac_account_id :: string
  ac_kind :: string

definition choice_value :: "AccountChoice \<Rightarrow> string" where
  "choice_value c = ac_provider c @ ''/'' @ ac_account_id c"

definition ACCOUNT_CHOICES :: "AccountChoice list" where
  "ACCOUNT_CHOICES =
     [\<lparr>ac_provider = ''claude-sub'', ac_account_id = ''claude-2'', ac_kind = ''Claude Code subscription''\<rparr>,
      \<lparr>ac_provider = ''claude-sub'', ac_account_id = ''owner'', ac_kind = ''Claude Code subscription''\<rparr>,
      \<lparr>ac_provider = ''codex-sub'', ac_account_id = ''owner'', ac_kind = ''Codex subscription''\<rparr>]"

definition CAPABILITY_PROVIDER :: "(string \<times> string) list" where
  "CAPABILITY_PROVIDER = [(''agent:claude'', ''claude-sub''), (''agent:codex'', ''codex-sub'')]"

text \<open>\<open>None\<close>: an unknown account raises.\<close>

definition clean_account_choices :: "string list \<Rightarrow> string list option" where
  "clean_account_choices vals =
     (if list_all (\<lambda>v. v \<in> set (map choice_value ACCOUNT_CHOICES)) vals
      then Some (map choice_value (filter (\<lambda>c. choice_value c \<in> set vals) ACCOUNT_CHOICES)) else None)"

definition account_ids :: "string list \<Rightarrow> string option \<Rightarrow> string list" where
  "account_ids vals capability = (case map_of CAPABILITY_PROVIDER (opt_or capability []) of
      None \<Rightarrow> []
    | Some p \<Rightarrow> map ac_account_id (filter (\<lambda>c. ac_provider c = p \<and> choice_value c \<in> set vals) ACCOUNT_CHOICES))"

section \<open>The dashboard snapshot\<close>

definition KNOWN_ACCOUNTS :: "string list" where "KNOWN_ACCOUNTS = [''claude-2'', ''owner'']"
definition ALL_MODELS :: string where "ALL_MODELS = ''*''"

record AgentAccess =
  aa_enabled :: bool
  aa_models :: "string list"
  aa_accounts :: "string list"

definition account_only :: "AgentAccess \<Rightarrow> bool" where
  "account_only a \<longleftrightarrow> aa_models a = [ACCOUNT_ONLY]"

definition has_policy :: "AgentAccess \<Rightarrow> bool" where
  "has_policy a \<longleftrightarrow> aa_models a \<noteq> [] \<and> aa_accounts a \<noteq> []"

type_synonym access_snapshot = "(int \<times> AgentAccess) list option"

definition access_for :: "access_snapshot \<Rightarrow> int \<Rightarrow> AgentAccess option" where
  "access_for snap project_id = (case snap of None \<Rightarrow> None | Some t \<Rightarrow> map_of t project_id)"

definition access_strings :: "json \<Rightarrow> string list" where
  "access_strings vals = (case vals of
      JList vs \<Rightarrow> from_keys (List.map_filter (\<lambda>v. case v of JStr s \<Rightarrow> if py_strip s \<noteq> [] then Some (py_strip s) else None | _ \<Rightarrow> None) vs)
    | _ \<Rightarrow> [])"

text \<open>A row of the query: id, \<^verbatim>\<open>agent_enabled\<close>, \<^verbatim>\<open>agent_models\<close>, \<^verbatim>\<open>agent_accounts\<close>.\<close>

definition row_access :: "int \<times> bool \<times> json \<times> json \<Rightarrow> (int \<times> AgentAccess) option" where
  "row_access row = (case row of (pid, enabled, models, accounts) \<Rightarrow>
     (let a = \<lparr>aa_enabled = enabled, aa_models = access_strings models, aa_accounts = access_strings accounts\<rparr>
      in if aa_enabled a \<or> aa_models a \<noteq> [] \<or> aa_accounts a \<noteq> [] then Some (pid, a) else None))"

text \<open>\<open>rows = None\<close>: the query raises, and the last snapshot stays.\<close>

definition refresh_access :: "(int \<times> bool \<times> json \<times> json) list option \<Rightarrow> access_snapshot \<Rightarrow> access_snapshot" where
  "refresh_access rows snap = (case rows of None \<Rightarrow> snap | Some rs \<Rightarrow> Some (List.map_filter row_access rs))"

definition clean_models :: "string list \<Rightarrow> string list \<Rightarrow> string list" where
  "clean_models vals known = from_keys (filter (\<lambda>v. v \<in> set known \<or> v = ALL_MODELS) vals)"

definition clean_accounts :: "string list \<Rightarrow> string list" where
  "clean_accounts vals = filter (\<lambda>a. a \<in> set vals) KNOWN_ACCOUNTS"

section \<open>The allowlist\<close>

definition allowed_project_ids :: "string \<Rightarrow> int list" where
  "allowed_project_ids raw = List.map_filter (\<lambda>part. if is_digits (py_strip part) then parse_unsigned (py_strip part) else None) (split_on CHR '','' raw)"

definition project_allowed :: "string \<Rightarrow> access_snapshot \<Rightarrow> int \<Rightarrow> bool" where
  "project_allowed allowed_raw snap project_id =
     (if snap = None then False
      else case access_for snap project_id of
        Some a \<Rightarrow> if account_only a then aa_enabled a else project_id \<in> set (allowed_project_ids allowed_raw) \<or> aa_enabled a
      | None \<Rightarrow> project_id \<in> set (allowed_project_ids allowed_raw))"

section \<open>The policy\<close>

definition SUB_PROVIDERS :: "(string \<times> string) list" where
  "SUB_PROVIDERS = [(''claude-sub'', ''agent:claude''), (''codex-sub'', ''agent:codex'')]"

record ProjectPolicy =
  po_models :: "string list"
  po_accounts :: "string list"
  po_account_order :: "string list"
  po_account_only :: bool

definition ordered_accounts :: "ProjectPolicy \<Rightarrow> string option \<Rightarrow> string list" where
  "ordered_accounts po capability =
     (let ordered = (if po_account_order po \<noteq> [] then po_account_order po else sort (remdups (po_accounts po)))
      in if po_account_only po then account_ids ordered capability else ordered)"

definition allows_model :: "ProjectPolicy \<Rightarrow> string option \<Rightarrow> bool" where
  "allows_model po model \<longleftrightarrow> \<not> po_account_only po \<and> (\<exists>m \<in> set (po_models po). model = Some m)"

text \<open>Catalog ids are \<^verbatim>\<open>provider/id\<close> with a provider of \<open>SUB_PROVIDERS\<close>.\<close>

definition allows_candidate :: "ModelSpec list \<Rightarrow> ProjectPolicy \<Rightarrow> string option \<Rightarrow> string option \<Rightarrow> bool" where
  "allows_candidate subs po model capability = (case (model, capability) of
      (Some m, Some cap) \<Rightarrow> ALL_MODELS \<in> set (po_models po) \<and> cap \<in> set (map snd SUB_PROVIDERS) \<and>
        list_ex (\<lambda>sp. map_of SUB_PROVIDERS (ms_provider sp) = Some cap \<and> after_slash (ms_id sp) = m) subs
    | _ \<Rightarrow> False)"

definition allows_account :: "ProjectPolicy \<Rightarrow> string \<Rightarrow> bool" where
  "allows_account po account_id \<longleftrightarrow> account_id \<in> set (po_accounts po)"

definition policy_strings :: "string \<Rightarrow> (string \<times> json) list \<Rightarrow> string list option" where
  "policy_strings key entry = (case opt_or (obj_get entry key) (JList []) of
      JList vs \<Rightarrow> if list_all (\<lambda>v. \<exists>x. v = JStr x) vs
        then Some (from_keys (filter (\<lambda>v. v \<noteq> []) (map (\<lambda>v. case v of JStr x \<Rightarrow> py_strip x | _ \<Rightarrow> []) vs))) else None
    | _ \<Rightarrow> None)"

fun parse_entries :: "(string \<times> json) list \<Rightarrow> (int \<times> ProjectPolicy) list \<Rightarrow> (int \<times> ProjectPolicy) list option" where
  "parse_entries [] out = Some out"
| "parse_entries ((key, entry) # rest) out =
     (if \<not> is_digits key then None
      else case entry of
        JObj kvs \<Rightarrow> (case (policy_strings ''models'' kvs, policy_strings ''accounts'' kvs, parse_unsigned key) of
            (Some ms, Some accs, Some pid) \<Rightarrow>
              parse_entries rest (dict_set pid \<lparr>po_models = ms, po_accounts = accs, po_account_order = accs, po_account_only = False\<rparr> out)
          | _ \<Rightarrow> None)
      | _ \<Rightarrow> None)"

text \<open>\<open>None\<close>: malformed, which refuses every project.\<close>

definition parse_policy :: "string \<Rightarrow> (int \<times> ProjectPolicy) list option" where
  "parse_policy raw = (if py_strip raw = [] then Some []
     else case json_loads plain_hooks raw of Inr (JObj kvs) \<Rightarrow> parse_entries kvs [] | _ \<Rightarrow> None)"

definition env_policy_for :: "string \<Rightarrow> int \<Rightarrow> ProjectPolicy option" where
  "env_policy_for policy_raw project_id = map_of (opt_or (parse_policy policy_raw) []) project_id"

definition usable_env_policy :: "string \<Rightarrow> int \<Rightarrow> ProjectPolicy option" where
  "usable_env_policy policy_raw project_id = (case env_policy_for policy_raw project_id of
      Some po \<Rightarrow> if po_models po \<noteq> [] \<and> po_accounts po \<noteq> [] then Some po else None
    | None \<Rightarrow> None)"

definition policy_for :: "string \<Rightarrow> access_snapshot \<Rightarrow> int \<Rightarrow> ProjectPolicy option" where
  "policy_for policy_raw snap project_id =
     (if snap = None then None
      else case access_for snap project_id of
        Some a \<Rightarrow>
          if account_only a then Some \<lparr>po_models = [ALL_MODELS], po_accounts = aa_accounts a, po_account_order = aa_accounts a, po_account_only = True\<rparr>
          else if has_policy a then Some \<lparr>po_models = aa_models a, po_accounts = aa_accounts a, po_account_order = aa_accounts a, po_account_only = False\<rparr>
          else usable_env_policy policy_raw project_id
      | None \<Rightarrow> usable_env_policy policy_raw project_id)"

definition policy_violation ::
  "string \<Rightarrow> access_snapshot \<Rightarrow> ModelSpec list \<Rightarrow> int \<Rightarrow> string option \<Rightarrow> string \<Rightarrow> string option \<Rightarrow> string option" where
  "policy_violation policy_raw snap subs project_id model account_id capability =
     (case policy_for policy_raw snap project_id of
        None \<Rightarrow> Some ''agent_policy_missing''
      | Some po \<Rightarrow>
          if \<not> (allows_model po model \<or> allows_candidate subs po model capability) then Some ''model_not_allowed''
          else if \<not> (if po_account_only po then account_id \<in> set (ordered_accounts po capability) else allows_account po account_id)
          then Some ''account_not_allowed'' else None)"

text \<open>The executor's check, made once on the snapshot at hand and again on a fresh one before a run is refused.\<close>

definition access_problem ::
  "string \<Rightarrow> string \<Rightarrow> access_snapshot \<Rightarrow> ModelSpec list \<Rightarrow> AgentRunRow \<Rightarrow> (string \<times> string) option" where
  "access_problem allowed_raw policy_raw snap subs r =
     (if \<not> project_allowed allowed_raw snap (rn_project_id r)
      then Some (''project_not_allowed'', ''project is not allowed agent runs (dashboard or AGENT_ALLOWED_PROJECT_IDS)'')
      else map_option (\<lambda>v. (v, ''outside the project's agent policy (dashboard or AGENT_PROJECT_POLICY)''))
             (policy_violation policy_raw snap subs (rn_project_id r) (rn_model r) (rn_account_id r) (Some (rn_capability r))))"

section \<open>What is allowed\<close>

text \<open>Both sources of a policy list real names only, so an empty entry allows nothing.\<close>

definition granted :: "string \<Rightarrow> access_snapshot \<Rightarrow> int \<Rightarrow> (string list \<times> string list) option" where
  "granted policy_raw snap project_id = (case access_for snap project_id of
      Some a \<Rightarrow> if account_only a then None
        else if has_policy a then Some (aa_models a, aa_accounts a)
        else map_option (\<lambda>po. (po_models po, po_accounts po)) (usable_env_policy policy_raw project_id)
    | None \<Rightarrow> map_option (\<lambda>po. (po_models po, po_accounts po)) (usable_env_policy policy_raw project_id))"

definition in_catalog :: "ModelSpec list \<Rightarrow> string \<Rightarrow> string \<Rightarrow> bool" where
  "in_catalog subs capability m \<longleftrightarrow> (\<exists>sp \<in> set subs. map_of SUB_PROVIDERS (ms_provider sp) = Some capability \<and> after_slash (ms_id sp) = m)"

definition owns_account :: "string list \<Rightarrow> string \<Rightarrow> string \<Rightarrow> bool" where
  "owns_account chosen capability account \<longleftrightarrow>
     (\<exists>c \<in> set ACCOUNT_CHOICES. map_of CAPABILITY_PROVIDER capability = Some (ac_provider c) \<and> choice_value c \<in> set chosen \<and> ac_account_id c = account)"

lemma parse_entries_legacy:
  "parse_entries kvs out = Some t \<Longrightarrow> list_all (\<lambda>(i, po). \<not> po_account_only po) out \<Longrightarrow> list_all (\<lambda>(i, po). \<not> po_account_only po) t"
proof (induction kvs arbitrary: out)
  case (Cons kv rest)
  obtain key entry where kv: "kv = (key, entry)" by (cases kv)
  then obtain kvs ms accs i where "entry = JObj kvs" "policy_strings ''models'' kvs = Some ms" "policy_strings ''accounts'' kvs = Some accs"
      "parse_unsigned key = Some i" "is_digits key"
    using Cons.prems(1) by (auto split: if_splits option.splits json.splits)
  then show ?case using Cons kv
    by (intro Cons.IH[of "dict_set i \<lparr>po_models = ms, po_accounts = accs, po_account_order = accs, po_account_only = False\<rparr> out"])
      (simp_all add: list_all_dict_set)
qed simp

lemma usable_env_legacy: "usable_env_policy raw i = Some po \<Longrightarrow> \<not> po_account_only po"
proof -
  assume "usable_env_policy raw i = Some po"
  then have "map_of (opt_or (parse_policy raw) []) i = Some po"
    by (auto simp: usable_env_policy_def env_policy_for_def split: option.splits if_splits)
  then obtain t where t: "parse_policy raw = Some t" "(i, po) \<in> set t"
    by (cases "parse_policy raw") (auto simp: opt_or_def dest: map_of_SomeD)
  then have "list_all (\<lambda>(i, po). \<not> po_account_only po) t"
    by (auto simp: parse_policy_def split: if_splits sum.splits json.splits dest: parse_entries_legacy)
  then show ?thesis using t(2) by (auto simp: list_all_iff)
qed

lemma allows_candidate_iff:
  "allows_candidate subs po (Some m) (Some cap) \<longleftrightarrow> ALL_MODELS \<in> set (po_models po) \<and> in_catalog subs cap m"
  by (auto simp: allows_candidate_def in_catalog_def list_ex_iff SUB_PROVIDERS_def dest: map_of_SomeD split: if_splits)

lemma allows_candidate_None [simp]: "\<not> allows_candidate subs po None cap"
  by (simp add: allows_candidate_def)

lemma access_for_loaded:
  assumes "access_for snap pid = Some a"
  obtains t where "snap = Some t"
  using assms by (cases snap) (simp_all add: access_for_def)

lemma account_ids_iff: "acc \<in> set (account_ids vals (Some cap)) \<longleftrightarrow> owns_account vals cap acc"
  by (cases "map_of CAPABILITY_PROVIDER cap") (auto simp: account_ids_def owns_account_def opt_or_def)

text \<open>The whole decision of the policy.\<close>

lemma policy_violation_account_only:
  assumes "access_for snap pid = Some a" "account_only a"
  shows "policy_violation raw snap subs pid model acc (Some cap) = None \<longleftrightarrow>
    (\<exists>m. model = Some m \<and> in_catalog subs cap m \<and> owns_account (aa_accounts a) cap acc)"
proof -
  obtain t where "snap = Some t" using assms(1) by (rule access_for_loaded)
  then show ?thesis using assms
    by (cases model) (auto simp: policy_violation_def policy_for_def allows_model_def ordered_accounts_def allows_candidate_iff account_ids_iff Let_def)
qed

lemma policy_violation_legacy:
  assumes "snap = Some t" "\<And>a. access_for snap pid = Some a \<Longrightarrow> \<not> account_only a"
  shows "policy_violation raw snap subs pid model acc (Some cap) = None \<longleftrightarrow>
    (\<exists>ms accs m. granted raw snap pid = Some (ms, accs) \<and> model = Some m \<and>
       (m \<in> set ms \<or> ALL_MODELS \<in> set ms \<and> in_catalog subs cap m) \<and> acc \<in> set accs)"
proof -
  have decide: "(if \<not> (allows_model po model \<or> allows_candidate subs po model (Some cap)) then Some ''model_not_allowed''
       else if \<not> (if po_account_only po then acc \<in> set (ordered_accounts po (Some cap)) else allows_account po acc) then Some ''account_not_allowed'' else None) = None
     \<longleftrightarrow> (\<exists>m. model = Some m \<and> (m \<in> set (po_models po) \<or> ALL_MODELS \<in> set (po_models po) \<and> in_catalog subs cap m) \<and> acc \<in> set (po_accounts po))"
    if "\<not> po_account_only po" for po
    using that by (cases model) (auto simp: allows_model_def allows_candidate_iff allows_account_def)
  have pol: "(case policy_for raw snap pid of None \<Rightarrow> granted raw snap pid = None
      | Some po \<Rightarrow> \<not> po_account_only po \<and> granted raw snap pid = Some (po_models po, po_accounts po))"
  proof (cases "access_for snap pid")
    case None
    then show ?thesis using assms(1) usable_env_legacy[of raw pid]
      by (cases "usable_env_policy raw pid") (simp_all add: policy_for_def granted_def)
  next
    case (Some a)
    then show ?thesis using assms usable_env_legacy[of raw pid]
      by (cases "usable_env_policy raw pid") (simp_all add: policy_for_def granted_def)
  qed
  show ?thesis
  proof (cases "policy_for raw snap pid")
    case None
    then show ?thesis using pol by (simp add: policy_violation_def)
  next
    case (Some po)
    then show ?thesis using pol decide[of po] by (simp add: policy_violation_def)
  qed
qed

text \<open>
  C24. Access to agent runs is decided by what the owner granted, and fails closed. A run may start
  exactly when the dashboard snapshot has been loaded and either the project is in
  account-only mode, enabled, with a model of the subscription catalog for the run's tool and
  an account the owner ticked for that very provider; or the project is on the allowlist or
  enabled, and the model and the account are in the lists of its dashboard policy, or of its
  environment entry when it has none. A malformed or empty setting grants nothing, and a
  wildcard reaches only models of the catalog for the run's own tool.
\<close>

theorem agent_access_is_fail_closed:
  "access_problem allowed_raw policy_raw snap subs r = None \<longleftrightarrow> snap \<noteq> None \<and>
    (case access_for snap (rn_project_id r) of
       Some a \<Rightarrow> if account_only a
         then aa_enabled a \<and> (\<exists>m. rn_model r = Some m \<and> in_catalog subs (rn_capability r) m \<and> owns_account (aa_accounts a) (rn_capability r) (rn_account_id r))
         else (rn_project_id r \<in> set (allowed_project_ids allowed_raw) \<or> aa_enabled a) \<and>
           (\<exists>ms accs m. granted policy_raw snap (rn_project_id r) = Some (ms, accs) \<and> rn_model r = Some m \<and>
              (m \<in> set ms \<or> ALL_MODELS \<in> set ms \<and> in_catalog subs (rn_capability r) m) \<and> rn_account_id r \<in> set accs)
     | None \<Rightarrow> rn_project_id r \<in> set (allowed_project_ids allowed_raw) \<and>
         (\<exists>ms accs m. granted policy_raw snap (rn_project_id r) = Some (ms, accs) \<and> rn_model r = Some m \<and>
            (m \<in> set ms \<or> ALL_MODELS \<in> set ms \<and> in_catalog subs (rn_capability r) m) \<and> rn_account_id r \<in> set accs))"
proof (cases "access_for snap (rn_project_id r)")
  case None
  have "policy_violation policy_raw snap subs (rn_project_id r) (rn_model r) (rn_account_id r) (Some (rn_capability r)) = None \<longleftrightarrow>
    (\<exists>ms accs m. granted policy_raw snap (rn_project_id r) = Some (ms, accs) \<and> rn_model r = Some m \<and>
       (m \<in> set ms \<or> ALL_MODELS \<in> set ms \<and> in_catalog subs (rn_capability r) m) \<and> rn_account_id r \<in> set accs)" if "snap = Some t" for t
    by (rule policy_violation_legacy) (use that None in auto)
  then show ?thesis using None by (cases snap) (simp_all add: access_problem_def project_allowed_def)
next
  case (Some a)
  then obtain t where snap: "snap = Some t" by (rule access_for_loaded)
  show ?thesis
  proof (cases "account_only a")
    case True
    then show ?thesis using Some snap policy_violation_account_only[OF Some True]
      by (simp add: access_problem_def project_allowed_def)
  next
    case False
    have "policy_violation policy_raw snap subs (rn_project_id r) (rn_model r) (rn_account_id r) (Some (rn_capability r)) = None \<longleftrightarrow>
      (\<exists>ms accs m. granted policy_raw snap (rn_project_id r) = Some (ms, accs) \<and> rn_model r = Some m \<and>
         (m \<in> set ms \<or> ALL_MODELS \<in> set ms \<and> in_catalog subs (rn_capability r) m) \<and> rn_account_id r \<in> set accs)"
      by (rule policy_violation_legacy[OF snap]) (use Some False in auto)
    then show ?thesis using Some snap False by (simp add: access_problem_def project_allowed_def)
  qed
qed

end
