(* ===== verification/Subscriptions.thy ===== *)
theory Subscriptions
  imports Agent_Access
begin

text \<open>
  \<^verbatim>\<open>providers/subscriptions.py\<close>: the catalog of subscription models, read from JSON settings, and the
  gates for client tools on these routes. The settings object is the record \<open>sub_settings\<close>. A route
  is pinned explicitly and is never a member of a fallback chain. Logging is left out.
\<close>

section \<open>Settings\<close>

record sub_settings =
  SUB_MODELS :: string
  SUB_VERIFIED_MODELS :: string
  SUB_VISION_VERIFIED_MODELS :: string
  SUB_IMAGE_OUTPUT_VERIFIED_MODELS :: string
  SUB_TESTED_MODELS :: string
  SUB_CODEX_ENABLED :: bool
  SUB_CODEX_TOOLS_ENABLED :: bool
  SUB_CODEX_TOOLS_VERIFIED_MODELS :: string
  SUB_CODEX_TOOLS_CANARY_MODELS :: string
  SUB_CODEX_TOOLS_CANARY_PROJECT_IDS :: string
  SUB_CLAUDE_TOOLS_ENABLED :: bool
  SUB_CLAUDE_TOOLS_VERIFIED_MODELS :: string
  SUB_CLAUDE_TOOLS_CANARY_MODELS :: string
  SUB_TOOLS_ATTESTED_MODELS :: string

definition quoted :: "string \<Rightarrow> string" where
  "quoted s = [CHR 0x22] @ s @ [CHR 0x22]"

definition text_list :: "string list \<Rightarrow> string" where
  "text_list ids = ''['' @ join_with '','' (map quoted ids) @ '']''"

definition text_table :: "(string \<times> string list) list \<Rightarrow> string" where
  "text_table t = ''{'' @ join_with '','' (map (\<lambda>(p, ids). quoted p @ '':'' @ text_list ids) t) @ ''}''"

definition default_settings :: sub_settings where
  "default_settings =
     \<lparr>SUB_MODELS = text_table
        [(''claude-sub'', [''claude-sonnet-5-5'', ''claude-opus-5-5'', ''claude-haiku-5-5'']),
         (''codex-sub'', [''gpt-6.1-sol'', ''gpt-6-astra'', ''gpt-6.1-terra'', ''gpt-6-sol'', ''gpt-6-luna'',
                          ''gpt-5.6-sol'', ''gpt-5.6-terra'', ''gpt-5.6-luna''])],
      SUB_VERIFIED_MODELS = text_table [(''claude-sub'', [''claude-sonnet-5-5'']), (''codex-sub'', [])],
      SUB_VISION_VERIFIED_MODELS = text_table [(''codex-sub'', [])],
      SUB_IMAGE_OUTPUT_VERIFIED_MODELS = text_table [(''codex-sub'', [])],
      SUB_TESTED_MODELS = ''{}'', SUB_CODEX_ENABLED = False, SUB_CODEX_TOOLS_ENABLED = False,
      SUB_CODEX_TOOLS_VERIFIED_MODELS = ''[]'', SUB_CODEX_TOOLS_CANARY_MODELS = ''[]'',
      SUB_CODEX_TOOLS_CANARY_PROJECT_IDS = [], SUB_CLAUDE_TOOLS_ENABLED = False,
      SUB_CLAUDE_TOOLS_VERIFIED_MODELS = ''[]'', SUB_CLAUDE_TOOLS_CANARY_MODELS = ''[]'',
      SUB_TOOLS_ATTESTED_MODELS = text_list [''claude-sub/claude-sonnet-5-5'']\<rparr>"

section \<open>The catalog\<close>

definition CHAT_CAPABILITIES :: "string list" where
  "CHAT_CAPABILITIES = [''chat:fast'', ''chat:smart'', ''chat:sales'', ''chat:code'', ''chat:edit'',
     ''chat:deep'', ''structured'', ''prefilter'', ''translate'']"

definition ascii_alnum :: "char \<Rightarrow> bool" where
  "ascii_alnum c \<longleftrightarrow> (let n = of_char c :: nat in 48 \<le> n \<and> n \<le> 57 \<or> 65 \<le> n \<and> n \<le> 90 \<or> 97 \<le> n \<and> n \<le> 122)"

definition model_id_ok :: "string \<Rightarrow> bool" where
  "model_id_ok s = (case s of [] \<Rightarrow> False
     | c # cs \<Rightarrow> ascii_alnum c \<and> list_all (\<lambda>x. ascii_alnum x \<or> x \<in> set ''_.-'') cs)"

fun str_items :: "json list \<Rightarrow> string list option" where
  "str_items [] = Some []"
| "str_items (JStr s # vs) = map_option ((#) s) (str_items vs)"
| "str_items (_ # vs) = None"

text \<open>\<open>None\<close>: \<^verbatim>\<open>ValueError\<close>, of the decoder or of a check.\<close>

definition id_list :: "json \<Rightarrow> string list option" where
  "id_list v = (case v of
      JList vs \<Rightarrow> (case str_items vs of
          Some ids \<Rightarrow> if list_all model_id_ok ids \<and> distinct ids then Some ids else None
        | None \<Rightarrow> None)
    | _ \<Rightarrow> None)"

fun id_table :: "(string \<times> json) list \<Rightarrow> (string \<times> string list) list option" where
  "id_table [] = Some []"
| "id_table ((p, v) # kvs) = (case (id_list v, id_table kvs) of
      (Some ids, Some t) \<Rightarrow> Some ((p, ids) # t) | _ \<Rightarrow> None)"

definition configured_ids :: "(sub_settings \<Rightarrow> string) \<Rightarrow> sub_settings \<Rightarrow> (string \<times> string list) list option" where
  "configured_ids field st =
     (let raw = (if field st = ''default'' then field default_settings else field st)
      in case json_loads plain_hooks raw of
           Inr (JObj kvs) \<Rightarrow> if list_all (\<lambda>(p, _). p \<in> set (map fst SUB_PROVIDERS)) kvs then id_table kvs else None
         | _ \<Rightarrow> None)"

definition ids_of :: "(string \<times> string list) list \<Rightarrow> string \<Rightarrow> string list" where
  "ids_of t p = opt_or (map_of t p) []"

definition within_table :: "(string \<times> string list) list \<Rightarrow> (string \<times> string list) list \<Rightarrow> bool" where
  "within_table t u \<longleftrightarrow> list_all (\<lambda>(p, ids). list_all (\<lambda>i. i \<in> set (ids_of u p)) ids) t"

definition route_id :: "string \<Rightarrow> string \<Rightarrow> string" where
  "route_id p mid = p @ ''/'' @ mid"

definition sub_spec :: "(string \<times> string list) list \<Rightarrow> string \<Rightarrow> string \<Rightarrow> ModelSpec" where
  "sub_spec vision p mid =
     (new_ModelSpec (route_id p mid) p (CHAT_CAPABILITIES @ (if mid \<in> set (ids_of vision p) then [''vision''] else [])))
       \<lparr>ms_transport := ''agent'', ms_pricing := P_subscription, ms_register := False\<rparr>"

text \<open>\<^verbatim>\<open>set(vision) - set(PROVIDERS)\<close> is empty by the check of \<open>configured_ids\<close>; it is kept as written.\<close>

definition catalog_of ::
  "(string \<times> string list) list \<Rightarrow> (string \<times> string list) list \<Rightarrow> (string \<times> string list) list
    \<Rightarrow> (ModelSpec list \<times> string list) option" where
  "catalog_of data verified vision =
     (if \<not> within_table verified data then None
      else if \<not> list_all (\<lambda>(p, _). p \<in> set (map fst SUB_PROVIDERS)) vision \<or> \<not> within_table vision verified then None
      else Some (concat (map (\<lambda>(p, ids). map (sub_spec vision p) ids) data),
                 concat (map (\<lambda>(p, ids). map (route_id p) ids) verified)))"

definition sub_catalog :: "sub_settings \<Rightarrow> ModelSpec list \<times> string list" where
  "sub_catalog st =
     opt_or (Option.bind (configured_ids SUB_MODELS st) (\<lambda>data.
        Option.bind (configured_ids SUB_VERIFIED_MODELS st) (\<lambda>verified.
        Option.bind (configured_ids SUB_VISION_VERIFIED_MODELS st) (\<lambda>vision.
          catalog_of data verified vision)))) ([], [])"

definition subscription_models :: "sub_settings \<Rightarrow> ModelSpec list" where
  "subscription_models st = fst (sub_catalog st)"

definition subscription_model_verified :: "sub_settings \<Rightarrow> string \<Rightarrow> bool" where
  "subscription_model_verified st model \<longleftrightarrow> model \<in> set (snd (sub_catalog st))"

definition provider_part :: "string \<Rightarrow> string" where
  "provider_part model = fst (split_first CHR ''/'' model)"

definition id_part :: "string \<Rightarrow> string" where
  "id_part model = opt_or (snd (split_first CHR ''/'' model)) []"

definition subscription_image_output_verified :: "sub_settings \<Rightarrow> string \<Rightarrow> bool" where
  "subscription_image_output_verified st model =
     (if \<not> subscription_model_verified st model then False
      else case configured_ids SUB_IMAGE_OUTPUT_VERIFIED_MODELS st of
        None \<Rightarrow> False
      | Some ids \<Rightarrow> provider_part model = ''codex-sub'' \<and> id_part model \<in> set (ids_of ids ''codex-sub''))"

section \<open>Test evidence\<close>

definition MAX_EVIDENCE_STR :: nat where "MAX_EVIDENCE_STR = 200"
definition MAX_EVIDENCE_KEYS :: nat where "MAX_EVIDENCE_KEYS = 16"

text \<open>Characters of a UTF-8 string: the bytes that do not continue one.\<close>

definition char_count :: "string \<Rightarrow> nat" where
  "char_count s = length (filter (\<lambda>c. \<not> (128 \<le> (of_char c :: nat) \<and> (of_char c :: nat) < 192)) s)"

text \<open>The slice \<^verbatim>\<open>s[:n]\<close> by characters.\<close>

fun char_take :: "nat \<Rightarrow> string \<Rightarrow> string" where
  "char_take n [] = []"
| "char_take n (c # cs) = (if 128 \<le> (of_char c :: nat) \<and> (of_char c :: nat) < 192 then c # char_take n cs
     else case n of 0 \<Rightarrow> [] | Suc k \<Rightarrow> c # char_take k cs)"

definition evidence_value_ok :: "json \<Rightarrow> bool" where
  "evidence_value_ok v = (case v of
      JStr s \<Rightarrow> char_count s \<le> MAX_EVIDENCE_STR
    | JInt i \<Rightarrow> length (show_int i) \<le> MAX_EVIDENCE_STR
    | _ \<Rightarrow> False)"

definition evidence_ok :: "json \<Rightarrow> bool" where
  "evidence_ok e = (case e of
      JObj kvs \<Rightarrow> kvs \<noteq> [] \<and> length kvs \<le> MAX_EVIDENCE_KEYS \<and>
        list_all (\<lambda>(k, v). char_count k \<le> MAX_EVIDENCE_STR \<and> evidence_value_ok v) kvs
    | _ \<Rightarrow> False)"

definition subscription_model_evidence :: "sub_settings \<Rightarrow> (string \<times> json) list" where
  "subscription_model_evidence st =
     (let raw = (if py_strip (SUB_TESTED_MODELS st) = [] then ''{}'' else py_strip (SUB_TESTED_MODELS st))
      in case json_loads plain_hooks raw of
           Inr (JObj kvs) \<Rightarrow> filter (\<lambda>(m, e). m \<in> set (map ms_id (subscription_models st)) \<and> evidence_ok e) kvs
         | _ \<Rightarrow> [])"

section \<open>Client tools\<close>

datatype tool_key = CODEX | CLAUDE

definition TOOL_SETTINGS :: "(string \<times> tool_key) list" where
  "TOOL_SETTINGS = [(''codex-sub'', CODEX), (''claude-sub'', CLAUDE)]"

fun TOOLS_ENABLED :: "tool_key \<Rightarrow> sub_settings \<Rightarrow> bool" where
  "TOOLS_ENABLED CODEX st = SUB_CODEX_TOOLS_ENABLED st"
| "TOOLS_ENABLED CLAUDE st = SUB_CLAUDE_TOOLS_ENABLED st"

fun TOOLS_VERIFIED :: "tool_key \<Rightarrow> sub_settings \<Rightarrow> string" where
  "TOOLS_VERIFIED CODEX st = SUB_CODEX_TOOLS_VERIFIED_MODELS st"
| "TOOLS_VERIFIED CLAUDE st = SUB_CLAUDE_TOOLS_VERIFIED_MODELS st"

fun TOOLS_CANARY :: "tool_key \<Rightarrow> sub_settings \<Rightarrow> string" where
  "TOOLS_CANARY CODEX st = SUB_CODEX_TOOLS_CANARY_MODELS st"
| "TOOLS_CANARY CLAUDE st = SUB_CLAUDE_TOOLS_CANARY_MODELS st"

definition tool_model_ids :: "sub_settings \<Rightarrow> string \<Rightarrow> string \<Rightarrow> string list" where
  "tool_model_ids st raw p = (case json_loads plain_hooks raw of
      Inr (JList vs) \<Rightarrow> (case str_items vs of
          Some ids \<Rightarrow> if distinct ids \<and> list_all (\<lambda>m. starts_with m (p @ ''/'') \<and> subscription_model_verified st m) ids
                      then ids else []
        | None \<Rightarrow> [])
    | _ \<Rightarrow> [])"

definition subscription_tools_enabled :: "sub_settings \<Rightarrow> string \<Rightarrow> bool" where
  "subscription_tools_enabled st p = (case map_of TOOL_SETTINGS p of None \<Rightarrow> False | Some key \<Rightarrow> TOOLS_ENABLED key st)"

definition subscription_tool_model_verified :: "sub_settings \<Rightarrow> string \<Rightarrow> bool" where
  "subscription_tool_model_verified st model = (case map_of TOOL_SETTINGS (provider_part model) of
      None \<Rightarrow> False | Some key \<Rightarrow> model \<in> set (tool_model_ids st (TOOLS_VERIFIED key st) (provider_part model)))"

definition project_id_ok :: "string \<Rightarrow> bool" where
  "project_id_ok p \<longleftrightarrow> 1 \<le> length p \<and> length p \<le> 9 \<and> list_all is_digit p"

definition canary_project_ids :: "sub_settings \<Rightarrow> int list" where
  "canary_project_ids st =
     (let raw = filter (\<lambda>p. p \<noteq> []) (map py_strip (split_on CHR '','' (SUB_CODEX_TOOLS_CANARY_PROJECT_IDS st)))
      in if \<not> list_all project_id_ok raw \<or> \<not> distinct raw then [] else List.map_filter parse_unsigned raw)"

definition subscription_tool_model_canary :: "sub_settings \<Rightarrow> string \<Rightarrow> int \<Rightarrow> bool" where
  "subscription_tool_model_canary st model project_id = (case map_of TOOL_SETTINGS (provider_part model) of
      None \<Rightarrow> False
    | Some key \<Rightarrow> project_id \<in> set (canary_project_ids st) \<and>
        model \<in> set (tool_model_ids st (TOOLS_CANARY key st) (provider_part model)))"

definition subscription_tool_model_attested :: "sub_settings \<Rightarrow> string \<Rightarrow> bool" where
  "subscription_tool_model_attested st model =
     (let raw = (if SUB_TOOLS_ATTESTED_MODELS st = ''default'' then SUB_TOOLS_ATTESTED_MODELS default_settings
                 else SUB_TOOLS_ATTESTED_MODELS st)
      in case json_loads plain_hooks raw of
           Inr (JList vs) \<Rightarrow> JStr model \<in> set vs \<and> map_of TOOL_SETTINGS (provider_part model) \<noteq> None
         | _ \<Rightarrow> False)"

definition subscription_tools_accepted :: "sub_settings \<Rightarrow> string \<Rightarrow> int option \<Rightarrow> bool" where
  "subscription_tools_accepted st model project_id \<longleftrightarrow>
     subscription_tools_enabled st (provider_part model) \<and>
     (subscription_tool_model_verified st model \<or>
      (case project_id of None \<Rightarrow> False | Some pid \<Rightarrow> subscription_tool_model_canary st model pid))"

definition subscription_tools_advertised :: "sub_settings \<Rightarrow> string \<Rightarrow> int option \<Rightarrow> bool" where
  "subscription_tools_advertised st model project_id \<longleftrightarrow>
     subscription_tools_accepted st model project_id \<and>
     (subscription_tool_model_verified st model \<or> subscription_tool_model_attested st model)"

section \<open>The tables that a setting can give\<close>

lemma dict_keys_distinct: "distinct (map fst acc) \<Longrightarrow> distinct (map fst (fold (\<lambda>(k, v). AList.update k v) kvs acc))"
  by (induction kvs arbitrary: acc) (auto simp: distinct_update)

lemma scan_atom_no_object: "scan_atom plain_hooks s \<noteq> Inr (JObj kvs, r)"
  by (auto simp: scan_atom_def scan_const_def scan_number_def plain_hooks_def Let_def split: if_splits option.splits prod.splits)

lemma plain_object: "object_pairs_hook plain_hooks kvs = Inr (JObj (fold (\<lambda>(k, v). AList.update k v) kvs []))"
  by (simp add: plain_hooks_def)

lemma scan_value_object_distinct: "scan_value n plain_hooks s = Inr (JObj kvs, r) \<Longrightarrow> distinct (map fst kvs)"
  by (cases "(n, plain_hooks, s)" rule: scan_value.cases)
     (auto simp: scan_atom_no_object plain_object dict_keys_distinct split: if_splits sum.splits prod.splits)

lemma loads_object_distinct: "json_loads plain_hooks s = Inr (JObj kvs) \<Longrightarrow> distinct (map fst kvs)"
  by (auto simp: json_loads_def scan_value_object_distinct split: sum.splits if_splits)

lemma id_table_keys: "id_table kvs = Some t \<Longrightarrow> map fst t = map fst kvs"
  by (induction kvs arbitrary: t rule: id_table.induct) (auto split: option.splits)

lemma id_table_ids: "id_table kvs = Some t \<Longrightarrow> (p, ids) \<in> set t \<Longrightarrow> list_all model_id_ok ids \<and> distinct ids"
  by (induction kvs arbitrary: t rule: id_table.induct)
     (auto simp: id_list_def split: option.splits json.splits if_splits)

definition id_table_ok :: "(string \<times> string list) list \<Rightarrow> bool" where
  "id_table_ok t \<longleftrightarrow> distinct (map fst t) \<and>
     list_all (\<lambda>(p, ids). p \<in> set (map fst SUB_PROVIDERS) \<and> list_all model_id_ok ids \<and> distinct ids) t"

lemma configured_ids_ok:
  assumes "configured_ids field st = Some t"
  shows "id_table_ok t"
proof -
  from assms obtain raw kvs where loads: "json_loads plain_hooks raw = Inr (JObj kvs)"
    and known: "list_all (\<lambda>(p, _). p \<in> set (map fst SUB_PROVIDERS)) kvs" and t: "id_table kvs = Some t"
    by (auto simp: configured_ids_def Let_def split: sum.splits json.splits if_splits)
  have keys: "map fst t = map fst kvs" by (rule id_table_keys[OF t])
  have "p \<in> set (map fst SUB_PROVIDERS)" if "(p, ids) \<in> set t" for p ids
  proof -
    have "p \<in> set (map fst t)" using that by force
    then show ?thesis using known keys by (auto simp: list_all_iff)
  qed
  then show ?thesis
    using loads_object_distinct[OF loads] keys id_table_ids[OF t] by (auto simp: id_table_ok_def list_all_iff)
qed

lemma provider_has_no_slash: "p \<in> set (map fst SUB_PROVIDERS) \<Longrightarrow> CHR ''/'' \<notin> set p"
  by (auto simp: SUB_PROVIDERS_def)

lemma provider_part_route: "CHR ''/'' \<notin> set p \<Longrightarrow> provider_part (route_id p mid) = p"
  by (simp add: provider_part_def route_id_def split_first_append)

lemma id_part_route: "CHR ''/'' \<notin> set p \<Longrightarrow> id_part (route_id p mid) = mid"
  by (simp add: id_part_def route_id_def split_first_append opt_or_def)

lemma ids_of_mem: "i \<in> set (ids_of t p) \<Longrightarrow> \<exists>ids. (p, ids) \<in> set t \<and> i \<in> set ids"
  by (cases "map_of t p") (auto simp: ids_of_def opt_or_def dest: map_of_SomeD)

text \<open>Every non-empty catalog comes from three well-formed tables, the verified one within the first.\<close>

lemma sub_catalog_cases:
  obtains (refused) "sub_catalog st = ([], [])"
    | (read) data verified vision where "id_table_ok data" "id_table_ok verified" "within_table verified data"
      "configured_ids SUB_MODELS st = Some data"
      "sub_catalog st = (concat (map (\<lambda>(p, ids). map (sub_spec vision p) ids) data),
                         concat (map (\<lambda>(p, ids). map (route_id p) ids) verified))"
proof (cases "configured_ids SUB_MODELS st")
  case None
  then show ?thesis by (intro refused) (simp add: sub_catalog_def opt_or_def)
next
  case data: (Some data)
  show ?thesis
  proof (cases "configured_ids SUB_VERIFIED_MODELS st")
    case None
    then show ?thesis by (intro refused) (simp add: sub_catalog_def opt_or_def data)
  next
    case verified: (Some verified)
    show ?thesis
    proof (cases "configured_ids SUB_VISION_VERIFIED_MODELS st")
      case None
      then show ?thesis by (intro refused) (simp add: sub_catalog_def opt_or_def data verified)
    next
      case vision: (Some vision)
      have c: "sub_catalog st = opt_or (catalog_of data verified vision) ([], [])"
        by (simp add: sub_catalog_def data verified vision)
      show ?thesis
      proof (cases "catalog_of data verified vision")
        case None
        then show ?thesis by (intro refused) (simp add: c opt_or_def)
      next
        case (Some cat)
        then show ?thesis
          by (intro read[of data verified vision]) (auto simp: c opt_or_def catalog_of_def data configured_ids_ok[OF data] configured_ids_ok[OF verified] split: if_splits)
      qed
    qed
  qed
qed

text \<open>What the catalog promises of one of its models.\<close>

definition pinned_only :: "ModelSpec \<Rightarrow> bool" where
  "pinned_only sp \<longleftrightarrow> ms_transport sp = ''agent'' \<and> ms_pricing sp = P_subscription \<and> \<not> ms_register sp \<and>
     ms_provider sp = provider_part (ms_id sp) \<and> ms_provider sp \<in> set (map fst SUB_PROVIDERS) \<and>
     model_id_ok (id_part (ms_id sp))"

lemma catalog_spec_pinned:
  assumes "id_table_ok data" "(p, ids) \<in> set data" "mid \<in> set ids"
  shows "pinned_only (sub_spec vision p mid)"
proof -
  have p: "p \<in> set (map fst SUB_PROVIDERS)" and m: "model_id_ok mid"
    using assms by (auto simp: id_table_ok_def list_all_iff)
  show ?thesis
    using p m provider_has_no_slash[OF p]
    by (simp add: pinned_only_def sub_spec_def new_ModelSpec_def provider_part_route id_part_route del: set_map)
qed

lemma catalog_models_pinned: "sp \<in> set (subscription_models st) \<Longrightarrow> pinned_only sp"
  by (rule sub_catalog_cases[of st]) (auto simp: subscription_models_def intro: catalog_spec_pinned)

lemma ms_id_sub_spec [simp]: "ms_id (sub_spec vision p mid) = route_id p mid"
  by (simp add: sub_spec_def new_ModelSpec_def)

lemma verified_in_catalog:
  assumes "subscription_model_verified st model"
  shows "model \<in> ms_id ` set (subscription_models st)"
proof (rule sub_catalog_cases[of st])
  assume "sub_catalog st = ([], [])"
  then show ?thesis using assms by (simp add: subscription_model_verified_def)
next
  fix data verified vision
  assume within: "within_table verified data"
    and cat: "sub_catalog st = (concat (map (\<lambda>(p, ids). map (sub_spec vision p) ids) data),
                                concat (map (\<lambda>(p, ids). map (route_id p) ids) verified))"
  from assms cat obtain p ids mid where v: "(p, ids) \<in> set verified" "mid \<in> set ids" "model = route_id p mid"
    by (auto simp: subscription_model_verified_def)
  from within v have "mid \<in> set (ids_of data p)" by (auto simp: within_table_def list_all_iff)
  then obtain cands where d: "(p, cands) \<in> set data" "mid \<in> set cands" using ids_of_mem by metis
  then have "sub_spec vision p mid \<in> set (subscription_models st)"
    by (force simp: subscription_models_def cat)
  then show ?thesis using v by force
qed

lemma tool_models_verified:
  "model \<in> set (tool_model_ids st raw p) \<Longrightarrow> subscription_model_verified st model \<and> starts_with model (p @ ''/'')"
  by (auto simp: tool_model_ids_def list_all_iff split: sum.splits json.splits option.splits if_splits)

lemma accepted_is_verified: "subscription_tools_accepted st model pid \<Longrightarrow> subscription_model_verified st model"
  by (auto simp: subscription_tools_accepted_def subscription_tool_model_verified_def
       subscription_tool_model_canary_def dest: tool_models_verified split: option.splits)

lemma route_ids_distinct:
  assumes "id_table_ok t"
  shows "distinct (concat (map (\<lambda>(p, ids). map (route_id p) ids) t))"
  using assms
proof (induction t)
  case (Cons e t)
  obtain p ids where e: "e = (p, ids)" by (cases e)
  have ok: "id_table_ok t" and ids: "distinct ids" and p: "CHR ''/'' \<notin> set p" and fresh: "p \<notin> fst ` set t"
    using Cons.prems provider_has_no_slash[of p] by (auto simp: e id_table_ok_def)
  have others: "CHR ''/'' \<notin> set q" if "(q, js) \<in> set t" for q js
    using that ok by (intro provider_has_no_slash) (auto simp: id_table_ok_def list_all_iff)
  have own: "distinct (map (route_id p) ids)"
    using ids by (auto simp: distinct_map inj_on_def route_id_def)
  have "route_id p i \<noteq> route_id q j" if "(q, js) \<in> set t" for i q j js
  proof
    assume "route_id p i = route_id q j"
    then have "provider_part (route_id p i) = provider_part (route_id q j)" by simp
    then have "p = q" using p others[OF that] by (simp add: provider_part_route)
    then show False using fresh that by force
  qed
  then have "set (map (route_id p) ids) \<inter> set (concat (map (\<lambda>(p, ids). map (route_id p) ids) t)) = {}"
    by fastforce
  then show ?case using Cons.IH[OF ok] own by (simp add: e)
qed simp

lemma catalog_ids_distinct: "distinct (map ms_id (subscription_models st))"
proof (rule sub_catalog_cases[of st])
  fix data verified vision
  assume ok: "id_table_ok data"
    and cat: "sub_catalog st = (concat (map (\<lambda>(p, ids). map (sub_spec vision p) ids) data),
                                concat (map (\<lambda>(p, ids). map (route_id p) ids) verified))"
  have "map ms_id (subscription_models st) = concat (map (\<lambda>(p, ids). map (route_id p) ids) data)"
    by (simp add: subscription_models_def cat map_concat comp_def case_prod_unfold)
  then show ?thesis using route_ids_distinct[OF ok] by simp
qed (simp add: subscription_models_def)

lemma find_by_id:
  "distinct (map f xs) \<Longrightarrow> x \<in> set xs \<Longrightarrow> find (\<lambda>y. f y = f x) xs = Some x"
  by (induction xs) auto

section \<open>Properties\<close>

text \<open>
  C40. The subscription catalog fails closed. When one of the three model settings is malformed
  there is no subscription model, no verified route and no client tool. Otherwise the models
  have distinct ids, each is priced by subscription, carried by the agent transport and kept out
  of the provider registry (so no fallback chain can reach it), and the id splits back into its
  provider and model. Tools are accepted only where the switch of the provider is on, on a route
  that is verified and whose pin resolves to exactly one model of the catalog.
\<close>

theorem subscription_routes_fail_closed:
  "(configured_ids SUB_MODELS st = None \<or> configured_ids SUB_VERIFIED_MODELS st = None
      \<or> configured_ids SUB_VISION_VERIFIED_MODELS st = None \<longrightarrow>
        subscription_models st = [] \<and> \<not> subscription_model_verified st model \<and>
        \<not> subscription_tools_accepted st model pid) \<and>
   distinct (map ms_id (subscription_models st)) \<and> list_all pinned_only (subscription_models st) \<and>
   (subscription_tools_accepted st model pid \<longrightarrow>
      subscription_tools_enabled st (provider_part model) \<and> subscription_model_verified st model \<and>
      (\<exists>sp. subscription_model (subscription_models st) model = Some sp \<and> ms_id sp = model \<and> pinned_only sp))"
proof (intro conjI impI)
  assume bad: "configured_ids SUB_MODELS st = None \<or> configured_ids SUB_VERIFIED_MODELS st = None
    \<or> configured_ids SUB_VISION_VERIFIED_MODELS st = None"
  have empty: "sub_catalog st = ([], [])"
    using bad by (auto simp: sub_catalog_def opt_or_def bind_eq_None_conv split: Option.bind_split option.split)
  show "subscription_models st = []" by (simp add: subscription_models_def empty)
  show unverified: "\<not> subscription_model_verified st model" by (simp add: subscription_model_verified_def empty)
  show "\<not> subscription_tools_accepted st model pid" using unverified accepted_is_verified by blast
next
  show "distinct (map ms_id (subscription_models st))" by (rule catalog_ids_distinct)
  show "list_all pinned_only (subscription_models st)" by (simp add: list_all_iff catalog_models_pinned)
next
  assume acc: "subscription_tools_accepted st model pid"
  show "subscription_tools_enabled st (provider_part model)" using acc by (simp add: subscription_tools_accepted_def)
  show "subscription_model_verified st model" using acc by (rule accepted_is_verified)
  then obtain sp where sp: "sp \<in> set (subscription_models st)" "ms_id sp = model" using verified_in_catalog by force
  have "subscription_model (subscription_models st) model = Some sp"
    using find_by_id[OF catalog_ids_distinct sp(1)] by (simp add: subscription_model_def sp(2))
  then show "\<exists>sp. subscription_model (subscription_models st) model = Some sp \<and> ms_id sp = model \<and> pinned_only sp"
    using sp catalog_models_pinned by blast
qed

definition demo_settings :: sub_settings where
  "demo_settings = default_settings
     \<lparr>SUB_MODELS := text_table [(''claude-sub'', [''m-1'', ''m-2''])],
      SUB_VERIFIED_MODELS := text_table [(''claude-sub'', [''m-1''])],
      SUB_VISION_VERIFIED_MODELS := ''{}'',
      SUB_CLAUDE_TOOLS_ENABLED := True,
      SUB_CLAUDE_TOOLS_CANARY_MODELS := text_list [''claude-sub/m-1''],
      SUB_CODEX_TOOLS_CANARY_PROJECT_IDS := '' 12, 13''\<rparr>"

lemma demo_accepts: "subscription_tools_accepted demo_settings ''claude-sub/m-1'' (Some 12)"
  by code_simp

lemma demo_models: "map ms_id (subscription_models demo_settings) = [''claude-sub/m-1'', ''claude-sub/m-2'']"
  by code_simp

lemma demo_malformed: "configured_ids SUB_MODELS (demo_settings\<lparr>SUB_MODELS := ''[]''\<rparr>) = None"
  by code_simp

theorem subscription_routes_fail_closed_witness:
  "subscription_model_verified demo_settings ''claude-sub/m-1'' \<and>
   subscription_models (demo_settings\<lparr>SUB_MODELS := ''[]''\<rparr>) = [] \<and>
   map ms_id (subscription_models demo_settings) = [''claude-sub/m-1'', ''claude-sub/m-2'']"
  using subscription_routes_fail_closed[of demo_settings "''claude-sub/m-1''" "Some 12"]
    subscription_routes_fail_closed[of "demo_settings\<lparr>SUB_MODELS := ''[]''\<rparr>" "''claude-sub/m-1''" "Some 12"]
  by (simp add: demo_accepts demo_malformed demo_models)

end
