(* ===== verification/Agent_Accounts.thy ===== *)
theory Agent_Accounts
  imports Agent_Access
begin

text \<open>
  The choice of an account for a new run (\<^verbatim>\<open>agent/accounts.py\<close>), the billing guard before a run
  starts (\<^verbatim>\<open>agent/billing.py\<close>) and the status details a client polls
  (\<^verbatim>\<open>agent/job_status.py\<close>). The settings (excluded accounts, the pause of a disabled account) are
  arguments, and so is the ISO timestamp parser \<open>parse\<close>, which normalises to UTC.
\<close>

section \<open>Error codes\<close>

definition CLASS_CODES :: "(string \<times> string) list" where
  "CLASS_CODES = [(''worker_lost'', ''worker_restarted''), (''codex_auth_busy'', ''capacity_busy''), (''session_busy'', ''capacity_busy''),
     (''account_unavailable'', ''capacity_busy''), (''billing_mode_refused'', ''billing_refused'')]"

definition MESSAGE_CODES :: "(string \<times> string \<times> string) list" where
  "MESSAGE_CODES = [(''cli_error'', ''organization has disabled'', ''subscription_disabled''),
     (''cli_error'', ''failed to refresh oauth token'', ''auth_refresh_failed''),
     (''client_tool_protocol'', ''tool call expired'', ''tool_call_expired''),
     (''client_tool_protocol'', ''required client tool was not called'', ''tool_not_called'')]"

definition az :: rx where "az = one_of ''abcdefghijklmnopqrstuvwxyz''"
definition az_us :: rx where "az_us = one_of ''abcdefghijklmnopqrstuvwxyz_''"
definition CLASS_RE :: rx where "CLASS_RE = rx_seq [Bos, az, Rep True 1 (Some 40) az_us, Eos]"
definition PREFIX_RE :: rx where "PREFIX_RE = rx_seq [Bos, Cap (rx_seq [az, Rep True 1 (Some 40) az_us]), rx_str '': '']"

text \<open>\<^verbatim>\<open>pattern.match(s)\<close>: at the start of the text.\<close>

definition match_start :: "rx \<Rightarrow> string \<Rightarrow> rx_state option" where
  "match_start r s = (case rx_match r (None, s, None) of [] \<Rightarrow> None | m # _ \<Rightarrow> Some m)"

definition error_code :: "job_status \<Rightarrow> string option \<Rightarrow> string option \<Rightarrow> string option" where
  "error_code status error_class message =
     (if status = Cancelled then Some ''cancelled''
      else if status \<noteq> Error then None
      else let body = opt_or message [];
               cls = (if given error_class then error_class else (case match_start PREFIX_RE body of Some (_, _, grp) \<Rightarrow> grp | None \<Rightarrow> None))
           in case cls of
                None \<Rightarrow> Some ''internal_error''
              | Some c \<Rightarrow>
                  if c = [] \<or> match_start CLASS_RE c = None then Some ''internal_error''
                  else (case find (\<lambda>(k, needle, code). k = c \<and> py_in needle (py_lower body)) MESSAGE_CODES of
                          Some (_, _, code) \<Rightarrow> Some code
                        | None \<Rightarrow> Some (opt_or (map_of CLASS_CODES c) c)))"

section \<open>Timing and pending details\<close>

definition ms_between :: "instant option \<Rightarrow> instant option \<Rightarrow> int option" where
  "ms_between start till = (case (start, till) of
      (Some a, Some b) \<Rightarrow> if b < a then None else Some (py_trunc ((b - a) * 1000))
    | _ \<Rightarrow> None)"

text \<open>\<open>first_started\<close>: the stored timestamp, parsed.\<close>

definition job_timing ::
  "instant option \<Rightarrow> instant option \<Rightarrow> instant option \<Rightarrow> instant option \<Rightarrow> instant \<Rightarrow> int option \<times> int option" where
  "job_timing created first_started started completed now =
     (let start = (case first_started of Some t \<Rightarrow> Some t | None \<Rightarrow> started);
          till = (case completed of Some t \<Rightarrow> Some t | None \<Rightarrow> Some now)
      in case start of None \<Rightarrow> (ms_between created till, None)
         | Some _ \<Rightarrow> (ms_between created start, ms_between start till))"

definition pending_detail :: "job_status \<Rightarrow> instant option \<Rightarrow> string option \<Rightarrow> bool \<Rightarrow> instant \<Rightarrow> string option \<times> instant option" where
  "pending_detail status run_after reason tool_waiting now =
     (if status \<in> {Done, Error, Cancelled} then (None, None)
      else if status = Running then (Some (if tool_waiting then ''tool_wait'' else ''running''), None)
      else case run_after of
        Some t \<Rightarrow> if t > now then (Some (if reason \<in> {Some ''waiting_quota'', Some ''capacity_busy''} then the reason else ''queued''), Some t)
                  else (Some ''queued'', None)
      | None \<Rightarrow> (Some ''queued'', None))"

section \<open>Accounts\<close>

definition QUOTA_LOOKBACK :: secs where "QUOTA_LOOKBACK = 8 * 86400"

definition ACCOUNT_DOWN_CODES :: "string list" where
  "ACCOUNT_DOWN_CODES = [''subscription_disabled'', ''auth_refresh_failed'']"

definition excluded_accounts :: "string \<Rightarrow> string list" where
  "excluded_accounts raw = filter (\<lambda>a. a \<noteq> []) (map py_strip (split_on CHR '','' raw))"

definition str_field :: "(string \<times> json) list \<Rightarrow> string \<Rightarrow> string option" where
  "str_field payload k = (case obj_get payload k of Some (JStr s) \<Rightarrow> Some s | _ \<Rightarrow> None)"

definition parsed_field :: "(string \<Rightarrow> instant option) \<Rightarrow> (string \<times> json) list \<Rightarrow> string \<Rightarrow> instant option" where
  "parsed_field parse payload k = Option.bind (str_field payload k) parse"

definition reset_of :: "(string \<Rightarrow> instant option) \<Rightarrow> secs \<Rightarrow> string \<Rightarrow> (string \<times> json) list \<Rightarrow> instant \<Rightarrow> instant option" where
  "reset_of parse pause type payload ts =
     (if type = ''run.waiting_quota'' then parsed_field parse payload ''not_before''
      else if type \<noteq> ''run.failed'' then None
      else if str_field payload ''error_class'' = Some ''quota_exhausted'' then parsed_field parse payload ''reset_at''
      else if error_code Error (str_field payload ''error_class'') (str_field payload ''message'') \<in> Some ` set ACCOUNT_DOWN_CODES
      then Some (ts + pause) else None)"

definition json_obj :: "json \<Rightarrow> (string \<times> json) list" where
  "json_obj v = (case v of JObj kvs \<Rightarrow> kvs | _ \<Rightarrow> [])"

text \<open>The joined rows of the query: account and event.\<close>

definition quota_signals :: "string list \<Rightarrow> string \<Rightarrow> instant \<Rightarrow> run_db \<Rightarrow> (string \<times> AgentRunEventRow) list" where
  "quota_signals accounts capability now d =
     concat (map (\<lambda>r. map (Pair (rn_account_id r))
         (filter (\<lambda>e. ev_run_id e = rn_run_id r \<and> ev_ts e \<ge> now - QUOTA_LOOKBACK \<and> ev_type e \<in> {''run.waiting_quota'', ''run.failed''}) (rd_events d)))
       (filter (\<lambda>r. rn_account_id r \<in> set accounts \<and> rn_capability r = capability) (rd_runs d)))"

definition note_pause :: "instant \<Rightarrow> string \<Rightarrow> instant option \<Rightarrow> (string \<times> instant) list \<Rightarrow> (string \<times> instant) list" where
  "note_pause now account reset paused = (case reset of
      None \<Rightarrow> paused
    | Some t \<Rightarrow> if t > now \<and> (case map_of paused account of None \<Rightarrow> True | Some old \<Rightarrow> t > old) then dict_set account t paused else paused)"

definition quota_resets ::
  "(string \<Rightarrow> instant option) \<Rightarrow> secs \<Rightarrow> string list \<Rightarrow> string \<Rightarrow> instant \<Rightarrow> run_db \<Rightarrow> (string \<times> instant) list" where
  "quota_resets parse pause accounts capability now d =
     fold (\<lambda>(account, e) paused. note_pause now account (reset_of parse pause (ev_type e) (json_obj (ev_payload e)) (ev_ts e)) paused)
       (quota_signals accounts capability now d) []"

definition unfinished_runs :: "string \<Rightarrow> run_db \<Rightarrow> string \<Rightarrow> nat" where
  "unfinished_runs capability d account =
     length (filter (\<lambda>r. rn_account_id r = account \<and> rn_capability r = capability \<and>
       (case find_job (rn_run_id r) d of Some j \<Rightarrow> j_status j \<in> {Pending, Running} | None \<Rightarrow> False)) (rd_runs d))"

definition index_in :: "string list \<Rightarrow> string \<Rightarrow> nat" where
  "index_in xs a = length (takeWhile (\<lambda>x. x \<noteq> a) xs)"

text \<open>The pauses are read in \<open>d1\<close>, the loads in \<open>d2\<close>.\<close>

definition pick_account ::
  "(string \<Rightarrow> instant option) \<Rightarrow> secs \<Rightarrow> string \<Rightarrow> string list \<Rightarrow> string \<Rightarrow> instant \<Rightarrow> run_db \<Rightarrow> run_db \<Rightarrow> string option" where
  "pick_account parse pause excluded_raw all_candidates capability now d1 d2 =
     (case filter (\<lambda>a. a \<notin> set (excluded_accounts excluded_raw)) all_candidates of
        [] \<Rightarrow> None
      | [a] \<Rightarrow> Some a
      | candidates \<Rightarrow>
          (let paused = quota_resets parse pause candidates capability now d1;
               free = filter (\<lambda>a. map_of paused a = None) candidates
           in if free \<noteq> [] then Some (arg_min_list (\<lambda>a. (unfinished_runs capability d2 a, index_in candidates a)) free)
              else Some (arg_min_list (\<lambda>a. (the (map_of paused a), index_in candidates a)) candidates)))"

section \<open>Billing\<close>

definition BILLING_REFUSED :: string where "BILLING_REFUSED = ''billing_mode_refused''"

definition FORBIDDEN_ENV :: "(string \<times> string list) list" where
  "FORBIDDEN_ENV = [(''agent:claude'', [''ANTHROPIC_API_KEY'', ''ANTHROPIC_AUTH_TOKEN'', ''CLAUDE_CODE_USE_BEDROCK'', ''CLAUDE_CODE_USE_VERTEX'',
       ''CLAUDE_CODE_USE_FOUNDRY'', ''ANTHROPIC_BASE_URL'', ''ANTHROPIC_BEDROCK_BASE_URL'', ''ANTHROPIC_VERTEX_PROJECT_ID'',
       ''AWS_BEARER_TOKEN_BEDROCK'', ''ANTHROPIC_CUSTOM_HEADERS'', ''CLAUDE_CODE_OAUTH_TOKEN'']),
     (''agent:codex'', [''OPENAI_API_KEY'', ''CODEX_API_KEY'', ''CODEX_ACCESS_TOKEN''])]"

definition FORBIDDEN_PREFIXES :: "(string \<times> string list) list" where
  "FORBIDDEN_PREFIXES = [(''agent:claude'', [''ANTHROPIC_'', ''CLAUDE_CODE_USE_'']), (''agent:codex'', [''OPENAI_''])]"

definition forbidden_env_present :: "string \<Rightarrow> (string \<times> string) list \<Rightarrow> string list" where
  "forbidden_env_present capability env =
     filter (\<lambda>name. name \<in> set (opt_or (map_of FORBIDDEN_ENV capability) []) \<or>
                    list_ex (starts_with name) (opt_or (map_of FORBIDDEN_PREFIXES capability) []))
       (sort (remdups (map fst env)))"

definition refusal :: "string \<Rightarrow> agent_event" where
  "refusal msg = RunFailed BILLING_REFUSED msg None"

definition paid_continuation_refusal :: "string \<Rightarrow> bool \<Rightarrow> bool \<Rightarrow> agent_event option" where
  "paid_continuation_refusal run_mode risk_ack verified_off =
     (if verified_off \<or> (run_mode = ''manual'' \<and> risk_ack) then None
      else Some (refusal (''paid continuation not verified OFF (AGENT_PAID_CONTINUATION_VERIFIED_OFF); '' @
        ''a '' @ run_mode @ '' run needs the owner's confirmation, or run_mode=manual with accept_paid_continuation_risk'')))"

text \<open>\<open>reported = None\<close>: the adapter raises.\<close>

definition check_billing_mode ::
  "string \<Rightarrow> string option \<Rightarrow> (string \<times> string) list \<Rightarrow> string \<Rightarrow> bool \<Rightarrow> bool \<Rightarrow> string \<times> agent_event option" where
  "check_billing_mode capability reported env run_mode risk_ack verified_off =
     (if map_of FORBIDDEN_ENV capability = None then (''unknown'', Some (refusal (''no billing policy for '' @ capability)))
      else let present = forbidden_env_present capability env in
        if present \<noteq> [] then (''api'', Some (refusal (''API-billing variables present in the worker environment: '' @ join_with '', '' present)))
        else let mode = opt_or reported ''unknown'' in
          if mode \<noteq> ''subscription'' then (mode, Some (refusal (''CLI did not positively report subscription mode (got '' @ mode @ '')'')))
          else (mode, paid_continuation_refusal run_mode risk_ack verified_off))"

section \<open>The choice of an account\<close>

text \<open>The ends of an account's pauses that are still ahead.\<close>

definition pause_ends ::
  "(string \<Rightarrow> instant option) \<Rightarrow> secs \<Rightarrow> string list \<Rightarrow> string \<Rightarrow> instant \<Rightarrow> run_db \<Rightarrow> string \<Rightarrow> instant set" where
  "pause_ends parse pause accounts capability now d account =
     {t. t > now \<and> (\<exists>e. (account, e) \<in> set (quota_signals accounts capability now d) \<and>
        reset_of parse pause (ev_type e) (json_obj (ev_payload e)) (ev_ts e) = Some t)}"

lemma note_pause_map:
  "map_of (note_pause now account reset paused) a =
     (if a = account \<and> (\<exists>t. reset = Some t \<and> t > now \<and> (\<forall>old. map_of paused account = Some old \<longrightarrow> old < t)) then reset else map_of paused a)"
  by (auto simp: note_pause_def split: option.splits)

definition latest :: "instant option \<Rightarrow> instant set \<Rightarrow> bool" where
  "latest end_at S = (case end_at of None \<Rightarrow> S = {} | Some t \<Rightarrow> t \<in> S \<and> (\<forall>x\<in>S. x \<le> t))"

lemma fold_pauses:
  fixes g :: "'e \<Rightarrow> instant option"
  assumes "\<And>a. latest (map_of paused a) (S a)"
  shows "latest (map_of (fold (\<lambda>(account, e) paused. note_pause now account (g e) paused) xs paused) a)
    (S a \<union> {t. t > now \<and> (\<exists>e. (a, e) \<in> set xs \<and> g e = Some t)})"
  using assms
proof (induction xs arbitrary: paused S)
  case (Cons x xs)
  obtain acc e where x: "x = (acc, e)" by (cases x)
  define S' where "S' a = S a \<union> {t. t > now \<and> a = acc \<and> g e = Some t}" for a
  have "latest (map_of (note_pause now acc (g e) paused) a) (S' a)" for a
    using Cons.prems[of a]
    by (cases "map_of paused a"; cases "g e") (auto simp: note_pause_map S'_def latest_def)
  from Cons.IH[OF this] have "latest (map_of (fold (\<lambda>(account, e) paused. note_pause now account (g e) paused) (x # xs) paused) a)
      (S' a \<union> {t. t > now \<and> (\<exists>e. (a, e) \<in> set xs \<and> g e = Some t)})" by (simp add: x)
  moreover have "S' a \<union> {t. t > now \<and> (\<exists>e. (a, e) \<in> set xs \<and> g e = Some t)} =
      S a \<union> {t. t > now \<and> (\<exists>e. (a, e) \<in> set (x # xs) \<and> g e = Some t)}" by (auto simp: S'_def x)
  ultimately show ?case by metis
qed simp

lemma quota_resets_latest:
  "latest (map_of (quota_resets parse pause accounts capability now d) a) (pause_ends parse pause accounts capability now d a)"
  using fold_pauses[where paused = "[]" and S = "\<lambda>_. {}" and a = a and now = now and xs = "quota_signals accounts capability now d"
      and g = "\<lambda>e. reset_of parse pause (ev_type e) (json_obj (ev_payload e)) (ev_ts e)"]
  by (simp add: quota_resets_def pause_ends_def latest_def)

lemma arg_min_list_least: "xs \<noteq> [] \<Longrightarrow> arg_min_list f xs \<in> set xs \<and> (\<forall>x \<in> set xs. f (arg_min_list f xs) \<le> f x)"
  using arg_min_list_in[of xs f] f_arg_min_list_f[of xs f] by (simp add: Min_le_iff)

text \<open>
  The account of a new run. With several accounts left after the operator's exclusions, the run
  goes to one that no recent usage limit and no disabled login pauses, if there is one, and
  among those to the one with the fewest unfinished runs, the policy's order breaking ties;
  if all are paused, to the one whose last pause ends first. A pause is the latest end, still
  ahead, of any signal in the log. An account outside the policy or excluded is never chosen,
  and none is chosen only when no candidate is left.
\<close>

theorem new_run_goes_to_the_freest_account:
  fixes parse pause capability now d1
  defines "ends cs a \<equiv> pause_ends parse pause cs capability now d1 a"
  assumes "cs = filter (\<lambda>a. a \<notin> set (excluded_accounts raw)) all_candidates"
  shows "case pick_account parse pause raw all_candidates capability now d1 d2 of
      None \<Rightarrow> cs = []
    | Some a \<Rightarrow> a \<in> set cs \<and>
        (length cs \<ge> 2 \<longrightarrow>
          (if \<exists>c \<in> set cs. ends cs c = {}
           then ends cs a = {} \<and> (\<forall>c \<in> set cs. ends cs c = {} \<longrightarrow>
                  (unfinished_runs capability d2 a, index_in cs a) \<le> (unfinished_runs capability d2 c, index_in cs c))
           else (\<exists>t \<in> ends cs a. (\<forall>x \<in> ends cs a. x \<le> t) \<and> (\<forall>c \<in> set cs. \<exists>x \<in> ends cs c. t \<le> x))))"
proof (cases cs)
  case Nil
  then show ?thesis using assms(2) by (simp add: pick_account_def)
next
  case (Cons c1 rest)
  show ?thesis
  proof (cases rest)
    case Nil
    then show ?thesis using Cons assms(2) by (simp add: pick_account_def)
  next
    case (Cons c2 more)
    then have two: "cs = c1 # c2 # more" using \<open>cs = c1 # rest\<close> by simp
    define paused where "paused = quota_resets parse pause cs capability now d1"
    define free where "free = filter (\<lambda>a. map_of paused a = None) cs"
    define load where "load = (\<lambda>a. (unfinished_runs capability d2 a, index_in cs a))"
    define wait where "wait = (\<lambda>a. (the (map_of paused a), index_in cs a))"
    have filt: "filter (\<lambda>a. a \<notin> set (excluded_accounts raw)) all_candidates = c1 # c2 # more" using assms(2) two by simp
    have pick: "pick_account parse pause raw all_candidates capability now d1 d2 =
        (if free \<noteq> [] then Some (arg_min_list load free) else Some (arg_min_list wait cs))"
      by (simp only: pick_account_def filt list.case Let_def load_def wait_def free_def paused_def two)
    have last: "latest (map_of paused a) (ends cs a)" for a
      using quota_resets_latest[of parse pause cs capability now d1 a] by (simp add: paused_def ends_def)
    have none: "map_of paused a = None \<longleftrightarrow> ends cs a = {}" for a
      using last[of a] by (cases "map_of paused a") (auto simp: latest_def)
    show ?thesis
    proof (cases "free = []")
      case False
      then have "arg_min_list load free \<in> set free \<and> (\<forall>x \<in> set free. load (arg_min_list load free) \<le> load x)" by (rule arg_min_list_least)
      then have "ends cs (arg_min_list load free) = {}" "arg_min_list load free \<in> set cs"
        "\<forall>c \<in> set cs. ends cs c = {} \<longrightarrow> load (arg_min_list load free) \<le> load c"
        by (simp_all add: free_def none)
      then show ?thesis using pick False by (auto simp: load_def)
    next
      case True
      then have busy: "\<exists>t. map_of paused c = Some t \<and> t \<in> ends cs c \<and> (\<forall>x \<in> ends cs c. x \<le> t)" if "c \<in> set cs" for c
        using that last[of c] by (cases "map_of paused c") (auto simp: free_def filter_empty_conv latest_def)
      let ?a = "arg_min_list wait cs"
      have a: "?a \<in> set cs" "\<forall>x \<in> set cs. wait ?a \<le> wait x" using arg_min_list_least[of cs wait] two by auto
      obtain t where t: "map_of paused ?a = Some t" "t \<in> ends cs ?a" "\<forall>x \<in> ends cs ?a. x \<le> t" using busy[OF a(1)] by blast
      have "\<exists>x \<in> ends cs c. t \<le> x" if c: "c \<in> set cs" for c
      proof -
        obtain tc where "map_of paused c = Some tc" "tc \<in> ends cs c" using busy[OF c] by blast
        moreover have "wait ?a \<le> wait c" using a(2) c by blast
        ultimately show ?thesis using t(1) by (intro bexI[of _ tc]) (auto simp: wait_def)
      qed
      moreover have "\<not> (\<exists>c \<in> set cs. ends cs c = {})" using busy by blast
      ultimately show ?thesis using pick True a(1) t(2,3) by auto
    qed
  qed
qed

text \<open>
  The billing guard. A run passes exactly when its tool has a billing policy, no API credential
  of that tool is in the worker's environment (by name or by family), the tool itself reports
  a subscription, and paid continuation was verified off or a manual run accepted the risk.
  A tool that cannot tell is refused.
\<close>

theorem billing_guard_passes_only_subscriptions:
  "snd (check_billing_mode capability reported env run_mode risk_ack verified_off) = None \<longleftrightarrow>
     capability \<in> {''agent:claude'', ''agent:codex''} \<and> reported = Some ''subscription'' \<and>
     (verified_off \<or> run_mode = ''manual'' \<and> risk_ack) \<and>
     \<not> (\<exists>name \<in> fst ` set env. name \<in> set (the (map_of FORBIDDEN_ENV capability)) \<or>
          (\<exists>pre \<in> set (the (map_of FORBIDDEN_PREFIXES capability)). starts_with name pre))"
proof (cases "capability \<in> {''agent:claude'', ''agent:codex''}")
  case False
  then have "map_of FORBIDDEN_ENV capability = None" by (simp add: FORBIDDEN_ENV_def)
  then show ?thesis using False by (simp add: check_billing_mode_def)
next
  case True
  then obtain names pres where tables: "map_of FORBIDDEN_ENV capability = Some names" "map_of FORBIDDEN_PREFIXES capability = Some pres"
    by (auto simp: FORBIDDEN_ENV_def FORBIDDEN_PREFIXES_def)
  have "forbidden_env_present capability env = [] \<longleftrightarrow>
      \<not> (\<exists>name \<in> fst ` set env. name \<in> set names \<or> (\<exists>pre \<in> set pres. starts_with name pre))"
    by (auto simp: forbidden_env_present_def tables opt_or_def filter_empty_conv list_ex_iff)
  then show ?thesis using True tables
    by (cases reported) (auto simp: check_billing_mode_def Let_def opt_or_def paid_continuation_refusal_def)
qed

definition no_db :: run_db where
  "no_db = \<lparr>rd_jobs = \<lparr>jt_rows = [], jt_next = 1\<rparr>, rd_runs = [], rd_events = [], rd_files = [], rd_leases = []\<rparr>"

theorem new_run_goes_to_the_freest_account_witness:
  "pick_account (\<lambda>_. None) 60 ''spare'' [''claude-2'', ''spare'', ''owner''] ''agent:claude'' 0 no_db no_db = Some ''claude-2'' \<and>
   ''claude-2'' \<in> set [''claude-2'', ''owner'']"
proof -
  have cs: "[''claude-2'', ''owner''] = filter (\<lambda>a. a \<notin> set (excluded_accounts ''spare'')) [''claude-2'', ''spare'', ''owner'']" by code_simp
  have "pick_account (\<lambda>_. None) 60 ''spare'' [''claude-2'', ''spare'', ''owner''] ''agent:claude'' 0 no_db no_db = Some ''claude-2''" by code_simp
  then show ?thesis
    using new_run_goes_to_the_freest_account[OF cs, of "\<lambda>_. None" 60 "''agent:claude''" 0 no_db no_db] by simp
qed

end
