(* ===== verification/Agent_Worker.thy ===== *)
theory Agent_Worker
  imports Agent_Log Agent_Access Job_World
begin

text \<open>
  \<^verbatim>\<open>agent/worker.py\<close>: the dedicated lane of agent runs. A tick claims pending runs within the free
  slots, some of which are kept for interactive runs, and three sweeps end what nobody will
  finish: runs of dead workers, quota waits past their deadline, and runs no worker of their
  account ever claimed. The settings are arguments; the time limits of a request are numbers.
\<close>

section \<open>Slots and claims\<close>

definition STALE_GRACE_S :: secs where "STALE_GRACE_S = 300"
definition HOUSEKEEPING_EVERY_S :: secs where "HOUSEKEEPING_EVERY_S = 30"

definition AGENT_CAPABILITIES :: "string list" where
  "AGENT_CAPABILITIES = [''agent:codex'', ''agent:claude'']"

definition worker_capabilities :: "string \<Rightarrow> string list" where
  "worker_capabilities raw = filter (\<lambda>c. c \<in> set (map py_strip (split_on CHR '','' raw))) AGENT_CAPABILITIES"

definition REQUIRED_HOME :: "(string \<times> string) list" where
  "REQUIRED_HOME = [(''agent:claude'', ''CLAUDE_CONFIG_DIR''), (''agent:codex'', ''CODEX_HOME'')]"

text \<open>\<open>marker_exists\<close>: the file that marks the worker image.\<close>

definition worker_image_problem :: "(string \<times> string) list \<Rightarrow> string \<Rightarrow> bool \<Rightarrow> string list \<Rightarrow> string option \<Rightarrow> string option" where
  "worker_image_problem env marker marker_exists capabilities account_id =
     (if (case account_id of None \<Rightarrow> False | Some a \<Rightarrow> ''agent:claude'' \<in> set capabilities \<and> py_strip a = [])
      then Some ''AGENT_ACCOUNT_ID is not set (a Claude worker must name its account)''
      else case find (\<lambda>cap. case map_of REQUIRED_HOME cap of None \<Rightarrow> False | Some home \<Rightarrow> \<not> given (map_of env home)) capabilities of
        Some cap \<Rightarrow> Some (the (map_of REQUIRED_HOME cap) @ '' is not set'')
      | None \<Rightarrow> if \<not> marker_exists then Some (marker @ '' is missing - not the agent-worker image'') else None)"

definition concurrency_for :: "int \<Rightarrow> int \<Rightarrow> string \<Rightarrow> int" where
  "concurrency_for codex claude capability = max 0 (if capability = ''agent:codex'' then codex else claude)"

definition effective_interactive_reserve :: "int \<Rightarrow> int \<Rightarrow> int" where
  "effective_interactive_reserve reserve concurrency = max 0 (min reserve (concurrency - 1))"

definition claimable_run :: "instant \<Rightarrow> string \<Rightarrow> string \<Rightarrow> bool \<Rightarrow> run_db \<Rightarrow> DeepJobRow \<Rightarrow> bool" where
  "claimable_run now account_raw capability interactive_only d r \<longleftrightarrow>
     j_capability r = capability \<and> j_status r = Pending \<and> (case j_run_after r of None \<Rightarrow> True | Some t \<Rightarrow> t < now) \<and>
     (interactive_only \<longrightarrow> j_priority r = PRIORITY_INTERACTIVE) \<and>
     (py_strip account_raw \<noteq> [] \<longrightarrow> list_ex (\<lambda>a. rn_run_id a = j_id r \<and> rn_account_id a = py_strip account_raw) (rd_runs d))"

definition claimed_rows :: "instant \<Rightarrow> int set \<Rightarrow> string \<Rightarrow> string \<Rightarrow> int \<Rightarrow> bool \<Rightarrow> run_db \<Rightarrow> DeepJobRow list" where
  "claimed_rows now locked account_raw capability limit interactive_only d =
     take (nat limit) (sort_key (\<lambda>r. (j_priority r, j_created_at r))
       (filter (\<lambda>r. claimable_run now account_raw capability interactive_only d r \<and> j_id r \<notin> locked) (jt_rows (rd_jobs d))))"

definition claim_agent_runs ::
  "instant \<Rightarrow> int set \<Rightarrow> string \<Rightarrow> string \<Rightarrow> int \<Rightarrow> bool \<Rightarrow> run_db \<Rightarrow> int list \<times> run_db" where
  "claim_agent_runs now locked account_raw capability limit interactive_only d =
     (if limit \<le> 0 then ([], d)
      else let ids = map j_id (claimed_rows now locked account_raw capability limit interactive_only d)
           in (ids, d\<lparr>rd_jobs := (rd_jobs d)\<lparr>jt_rows := update_where (\<lambda>r. j_id r \<in> set ids) (claim_row now) (jt_rows (rd_jobs d))\<rparr>\<rparr>))"

text \<open>\<open>between\<close>: what others do to the database between the two claims.\<close>

definition claim_for_lane ::
  "instant \<Rightarrow> instant \<Rightarrow> int set \<Rightarrow> int set \<Rightarrow> (run_db \<Rightarrow> run_db) \<Rightarrow> string \<Rightarrow> int \<Rightarrow> string \<Rightarrow> int \<Rightarrow> int \<Rightarrow> run_db \<Rightarrow> int list \<times> run_db" where
  "claim_for_lane now1 now2 locked1 locked2 between account_raw reserve_setting capability free concurrency d =
     (let reserve = effective_interactive_reserve reserve_setting concurrency;
          (ids1, d1) = (if free - reserve > 0 then claim_agent_runs now1 locked1 account_raw capability (free - reserve) False d else ([], d));
          left = free - int (length ids1)
      in if left > 0 then
           (case claim_agent_runs now2 locked2 account_raw capability left True (between d1) of (ids2, d2) \<Rightarrow> (ids1 @ ids2, d2))
         else (ids1, d1))"

section \<open>Sweeps\<close>

definition number_of :: "json option \<Rightarrow> rat \<Rightarrow> rat" where
  "number_of v d = (case v of Some (JInt i) \<Rightarrow> of_int i | Some (JFloat r) \<Rightarrow> r | _ \<Rightarrow> d)"

text \<open>
  \<^verbatim>\<open>append_event\<close> for each run in turn; a conflict is passed over, any other error ends the sweep.
\<close>

fun sweep_runs :: "(int \<Rightarrow> run_db \<Rightarrow> (run_error + int) \<times> run_db) \<Rightarrow> int list \<Rightarrow> int \<Rightarrow> run_db \<Rightarrow> (run_error + int) \<times> run_db" where
  "sweep_runs f [] n d = (Inr n, d)"
| "sweep_runs f (i # ids) n d = (case f i d of
      (Inr _, d') \<Rightarrow> sweep_runs f ids (n + 1) d'
    | (Inl (RunConflict m), d') \<Rightarrow> sweep_runs f ids n d'
    | (Inl e, d') \<Rightarrow> (Inl e, d'))"

definition stale_runs :: "instant \<Rightarrow> run_db \<Rightarrow> int list" where
  "stale_runs now d = map j_id (filter (\<lambda>j. j_status j = Running \<and> is_agent_job j \<and>
     (case j_started_at j of None \<Rightarrow> False
      | Some t \<Rightarrow> now > t + (number_of (obj_get (j_request j) ''wall_timeout_s'') 1800 + STALE_GRACE_S))) (jt_rows (rd_jobs d)))"

definition fail_stale_agent_runs :: "run_env \<Rightarrow> run_db \<Rightarrow> (run_error + int) \<times> run_db" where
  "fail_stale_agent_runs e d =
     sweep_runs (\<lambda>i. append_event e i (RunFailed ''worker_lost'' ''worker died or overran its deadline'' None) None False)
       (stale_runs (re_now e) d) 0 d"

definition overdue_waiting :: "instant \<Rightarrow> run_db \<Rightarrow> int list" where
  "overdue_waiting now d = map j_id (filter (\<lambda>j. j_status j = Pending \<and>
     (case find_run (j_id j) d of None \<Rightarrow> False | Some r \<Rightarrow> rn_quota_waits r > 0 \<and> rn_outcome r = None) \<and>
     now \<ge> j_created_at j + number_of (obj_get (j_request j) ''deadline_s'') 21600) (jt_rows (rd_jobs d)))"

definition last_wait :: "int \<Rightarrow> run_db \<Rightarrow> (string \<times> json) list" where
  "last_wait i d = (case rev (sort_key ev_seq (filter (\<lambda>ev. ev_run_id ev = i \<and> ev_type ev = ''run.waiting_quota'') (rd_events d))) of
      [] \<Rightarrow> [] | ev # _ \<Rightarrow> (case ev_payload ev of JObj kvs \<Rightarrow> kvs | _ \<Rightarrow> []))"

definition quota_failure :: "(string \<times> json) list \<Rightarrow> agent_event" where
  "quota_failure reason = RunFailed ''quota_exhausted''
     ((case meta_or reason ''reason'' (JStr ''usage limit reached'') of JStr s \<Rightarrow> s | _ \<Rightarrow> []) @ '' (quota wait is past the job deadline)'')
     (if truthy (opt_or (obj_get reason ''reset_reported'') JNull)
      then (case obj_get reason ''not_before'' of Some (JStr s) \<Rightarrow> Some s | _ \<Rightarrow> None) else None)"

definition expire_overdue_waiting :: "run_env \<Rightarrow> run_db \<Rightarrow> (run_error + int) \<times> run_db" where
  "expire_overdue_waiting e d =
     sweep_runs (\<lambda>i d. append_event e i (quota_failure (last_wait i d)) None False d) (overdue_waiting (re_now e) d) 0 d"

definition never_started :: "instant \<Rightarrow> run_db \<Rightarrow> DeepJobRow \<Rightarrow> bool" where
  "never_started cutoff d j \<longleftrightarrow> j_status j = Pending \<and> is_agent_job j \<and> j_created_at j < cutoff \<and>
     (case find_run (j_id j) d of None \<Rightarrow> False | Some r \<Rightarrow> rn_last_seq r = 0 \<and> rn_quota_waits r = 0 \<and> rn_outcome r = None)"

text \<open>A sign of life of an account's worker since the cutoff.\<close>

definition since :: "instant \<Rightarrow> instant option \<Rightarrow> bool" where
  "since cutoff t = (case t of None \<Rightarrow> False | Some x \<Rightarrow> x \<ge> cutoff)"

definition sign_of_life :: "instant \<Rightarrow> AgentRunRow \<Rightarrow> DeepJobRow \<Rightarrow> bool" where
  "sign_of_life cutoff r j \<longleftrightarrow> is_agent_job j \<and>
     (j_status j = Running \<or> since cutoff (j_started_at j) \<or> since cutoff (j_completed_at j) \<or> since cutoff (rn_last_event_at r))"

definition live_lane :: "instant \<Rightarrow> run_db \<Rightarrow> string \<Rightarrow> string \<Rightarrow> bool" where
  "live_lane cutoff d account capability \<longleftrightarrow>
     list_ex (\<lambda>r. rn_account_id r = account \<and>
       (case find_job (rn_run_id r) d of None \<Rightarrow> False | Some j \<Rightarrow> j_capability j = capability \<and> sign_of_life cutoff r j)) (rd_runs d)"

definition unclaimed_runs :: "instant \<Rightarrow> run_db \<Rightarrow> int list" where
  "unclaimed_runs cutoff d = map j_id (filter (\<lambda>j. never_started cutoff d j \<and>
     \<not> live_lane cutoff d (rn_account_id (the (find_run (j_id j) d))) (j_capability j)) (jt_rows (rd_jobs d)))"

definition unclaimed_failure :: "int \<Rightarrow> string \<Rightarrow> agent_event" where
  "unclaimed_failure limit account = RunFailed ''account_unavailable''
     (''no worker claimed this run for account '' @ account @ '' within '' @ show_int limit @ ''s'') None"

text \<open>The rows are read in \<open>d\<close>; \<open>envs i\<close> is what the write for run \<open>i\<close> meets.\<close>

definition fail_unclaimed_runs :: "(int \<Rightarrow> run_env) \<Rightarrow> instant \<Rightarrow> rat \<Rightarrow> run_db \<Rightarrow> (run_error + int) \<times> run_db" where
  "fail_unclaimed_runs envs now limit d =
     (if limit \<le> 0 then (Inr 0, d)
      else sweep_runs (\<lambda>i. append_event (envs i) i (unclaimed_failure (py_trunc limit) (rn_account_id (the (find_run i d)))) None True)
             (unclaimed_runs (now - limit) d) 0 d)"

section \<open>Claims\<close>

lemma claimed_rows_facts:
  fixes d
  defines "rows \<equiv> jt_rows (rd_jobs d)"
  shows "length (claimed_rows now locked acc cap limit only d) \<le> nat limit"
    "r \<in> set (claimed_rows now locked acc cap limit only d) \<Longrightarrow> r \<in> set rows \<and> claimable_run now acc cap only d r \<and> j_id r \<notin> locked"
    "r \<in> set (claimed_rows now locked acc cap limit only d) \<Longrightarrow> x \<in> set rows \<Longrightarrow> claimable_run now acc cap only d x \<Longrightarrow> j_id x \<notin> locked \<Longrightarrow>
       x \<notin> set (claimed_rows now locked acc cap limit only d) \<Longrightarrow> (j_priority r, j_created_at r) \<le> (j_priority x, j_created_at x)"
proof -
  let ?k = "\<lambda>r. (j_priority r, j_created_at r)"
  let ?el = "filter (\<lambda>r. claimable_run now acc cap only d r \<and> j_id r \<notin> locked) rows"
  have cr: "claimed_rows now locked acc cap limit only d = take (nat limit) (sort_key ?k ?el)"
    by (simp add: claimed_rows_def rows_def)
  show "length (claimed_rows now locked acc cap limit only d) \<le> nat limit" by (simp add: cr)
  show "r \<in> set rows \<and> claimable_run now acc cap only d r \<and> j_id r \<notin> locked" if "r \<in> set (claimed_rows now locked acc cap limit only d)"
    using in_set_takeD[OF that[unfolded cr]] by simp
  show "?k r \<le> ?k x" if r: "r \<in> set (claimed_rows now locked acc cap limit only d)"
    and x: "x \<in> set rows" "claimable_run now acc cap only d x" "j_id x \<notin> locked" "x \<notin> set (claimed_rows now locked acc cap limit only d)"
  proof -
    have "x \<in> set (take (nat limit) (sort_key ?k ?el) @ drop (nat limit) (sort_key ?k ?el))" using x(1-3) by simp
    then have "x \<in> set (drop (nat limit) (sort_key ?k ?el))" using x(4) by (simp only: cr set_append Un_iff) simp
    with r[unfolded cr] show ?thesis by (rule take_sort_key_le)
  qed
qed


section \<open>What the sweeps end\<close>

definition ended :: "int \<Rightarrow> run_db \<Rightarrow> bool" where
  "ended i d = (case find_run i d of None \<Rightarrow> False | Some r \<Rightarrow> rn_outcome r \<noteq> None)"

lemma ended_iff: "ended i d \<longleftrightarrow> (\<exists>r out. find_run i d = Some r \<and> rn_outcome r = Some out)"
  by (auto simp: ended_def split: option.splits)

lemma append_keeps_ended: "ended k d \<Longrightarrow> ended k (snd (append_event e i ev lease pending d))"
  using append_event_other[of k i d e ev lease pending] by (auto simp: ended_iff)

lemma gated_terminal: "event_type ev \<in> set TERMINAL_TYPES \<Longrightarrow> event_type (gated_event e j ev) \<in> set TERMINAL_TYPES"
  by (cases ev) (simp_all add: gated_event_def TERMINAL_TYPES_def split: option.split)

lemma append_terminal_ends:
  assumes "append_event e i ev lease pending d = (Inr s, d')" "event_type ev \<in> set TERMINAL_TYPES"
  shows "ended i d'"
proof (cases "find_job i d")
  case None
  have "close_run e i ev t r None d1 = Inl RunBroken" for ev t r d1 by (simp add: close_run_def)
  then show ?thesis using assms None
    by (auto simp: append_event_def Let_def reads_job_def split: if_splits option.splits)
next
  case (Some j)
  have rd: "reads_job ev" using assms(2) by (simp add: reads_job_def)
  obtain r1 where "find_run i d' = Some r1" "rn_outcome r1 = map_of OUTCOME_BY_TYPE (event_type (gated_event e j ev))"
    by (rule append_terminal[OF assms(1) Some rd refl gated_terminal[OF assms(2)]])
  then show ?thesis using gated_terminal[OF assms(2), of e j] by (auto simp: ended_def OUTCOME_BY_TYPE_def TERMINAL_TYPES_def)
qed

lemma append_failed_ends:
  "append_event e i (RunFailed c m at_iso) lease pending d = (Inr s, d') \<Longrightarrow> ended i d'"
  by (erule append_terminal_ends) (simp add: TERMINAL_TYPES_def)

lemma append_conflict_ended:
  assumes "append_event e i ev lease False d = (Inl (RunConflict msg), d')"
  shows "ended i d' \<and> d' = d"
proof -
  have "close_run e i ev' t r job d1 \<noteq> Inl (RunConflict msg)" for ev' t r job d1
    by (auto simp: close_run_def split: option.splits prod.splits)
  then show ?thesis using assms
    by (auto simp: append_event_def Let_def ended_def split: if_splits option.splits sum.splits)
qed

lemma sweep_other:
  assumes "\<And>i d. i \<noteq> k \<Longrightarrow> find_run k (snd (f i d)) = find_run k d" "k \<notin> set ids"
  shows "find_run k (snd (sweep_runs f ids n d)) = find_run k d"
  using assms(2)
proof (induction ids arbitrary: n d)
  case (Cons i ids)
  obtain x d1 where f: "f i d = (x, d1)" by (cases "f i d")
  have "find_run k d1 = find_run k d" using assms(1)[of i d] Cons.prems f by auto
  then show ?case using Cons f by (auto split: sum.split run_error.split)
qed simp

lemma sweep_ends:
  assumes keep: "\<And>k i d. ended k d \<Longrightarrow> ended k (snd (f i d))" and
    ok: "\<And>i d s d'. f i d = (Inr s, d') \<Longrightarrow> ended i d'" and conflict: "\<And>i d m d'. f i d = (Inl (RunConflict m), d') \<Longrightarrow> ended i d'" and
    run: "sweep_runs f ids n d = (Inr s, d')" and k: "k \<in> set ids \<or> ended k d"
  shows "ended k d'"
  using run k
proof (induction ids arbitrary: n d)
  case (Cons i ids)
  obtain x d1 where f: "f i d = (x, d1)" by (cases "f i d")
  then obtain n1 where rest: "sweep_runs f ids n1 d1 = (Inr s, d')" "ended i d1"
    using Cons.prems(1) ok[of i d] conflict[of i d] by (auto split: sum.splits run_error.splits)
  moreover have "ended k d1" if "ended k d" using keep[OF that, of i] f by simp
  ultimately show ?case using Cons.IH[of n1 d1] Cons.prems(2) by auto
qed simp


section \<open>A lane\<close>

text \<open>An old batch run and a newer interactive one, with one slot free of two.\<close>

definition demo_lane :: run_db where
  "demo_lane = snd (create_run (\<lambda>(p, c, v). ''i'') 7 (demo_new_run\<lparr>nr_priority := 0, nr_idempotency_key := None, nr_task_id := ''u''\<rparr>)
     demo_empty (snd (create_run (\<lambda>(p, c, v). ''b'') 5 (demo_new_run\<lparr>nr_priority := 1\<rparr>) demo_empty demo_empty)))"

lemma demo_lane_claim:
  "fst (claim_for_lane 9 9 {} {} (\<lambda>d. d) ''owner'' 1 ''agent:claude'' 1 2 demo_lane) = [2]"
  by code_simp


end
