(* ===== verification/Client_Tools.thy ===== *)
theory Client_Tools
  imports Agent_Worker Subscriptions Agent_Accounts
begin

text \<open>
  \<^verbatim>\<open>agent/client_tools.py\<close>: the handoff of a tool call from a running subscription job to the client
  and of its result back. The exchange lives in the \<^verbatim>\<open>result_meta\<close> of the queue row: the pending call
  under \<^verbatim>\<open>client_tool\<close>, the answered ones under \<^verbatim>\<open>client_tool_history\<close>. Each operation is one
  transaction. The clock, the ISO printer, SHA-256 and the JSON schema library are arguments.
\<close>

section \<open>Errors and limits\<close>

definition MAX_CALLS :: nat where "MAX_CALLS = 16"
definition MAX_ARGUMENT_BYTES :: nat where "MAX_ARGUMENT_BYTES = 64 * 1024"
definition MAX_RESULT_BYTES :: nat where "MAX_RESULT_BYTES = 64 * 1024"

text \<open>\<open>ToolBroken\<close>: a stored call lacks a field the code reads, or its deadline is no timestamp.\<close>

datatype tool_error =
    ClientToolConflict string
  | ClientToolInvalidArguments string string
  | ClientToolCancelled
  | ToolStaleLease
  | ToolTooLarge
  | ToolJobNotFound
  | ToolBroken

section \<open>The stored exchange\<close>

definition dict_or_empty :: "json option \<Rightarrow> (string \<times> json) list" where
  "dict_or_empty v = (case v of Some (JObj kvs) \<Rightarrow> kvs | _ \<Rightarrow> [])"

definition list_or_empty :: "json option \<Rightarrow> json list" where
  "list_or_empty v = (case v of Some (JList vs) \<Rightarrow> vs | _ \<Rightarrow> [])"

definition pending_call :: "DeepJobRow \<Rightarrow> (string \<times> json) list" where
  "pending_call j = dict_or_empty (obj_get (meta_of j) ''client_tool'')"

definition tool_history :: "DeepJobRow \<Rightarrow> json list" where
  "tool_history j = list_or_empty (obj_get (meta_of j) ''client_tool_history'')"

definition with_meta :: "(string \<times> json) list \<Rightarrow> DeepJobRow \<Rightarrow> DeepJobRow" where
  "with_meta m j = j\<lparr>j_result_meta := Some (JObj m)\<rparr>"

definition tools_of :: "DeepJobRow \<Rightarrow> json list" where
  "tools_of j = list_or_empty (obj_get (client_job_of j) ''tools'')"

definition choice_of :: "DeepJobRow \<Rightarrow> json" where
  "choice_of j = opt_or (obj_get (client_job_of j) ''tool_choice'') JNull"

text \<open>\<^verbatim>\<open>_now() < datetime.fromisoformat(call["deadline"])\<close>; \<open>None\<close>: it raises.\<close>

definition before_deadline :: "run_env \<Rightarrow> (string \<times> json) list \<Rightarrow> bool option" where
  "before_deadline e call = map_option (\<lambda>t. re_now e < t) (parsed_field (re_parse e) call ''deadline'')"

definition is_waiting :: "run_env \<Rightarrow> (string \<times> json) list \<Rightarrow> bool option" where
  "is_waiting e call = (if obj_get call ''state'' = Some (JStr ''waiting'') then before_deadline e call else Some False)"

definition result_digest :: "run_env \<Rightarrow> bool \<Rightarrow> string \<Rightarrow> bool \<Rightarrow> string" where
  "result_digest e success content fin =
     re_sha e (json_dumps (re_fr e) '', '' '': ''
       (JList (if fin then [JBool success, JStr content, JBool True] else [JBool success, JStr content])))"

section \<open>Why a call broke its schema\<close>

definition SHOWN_RULES :: "string list" where
  "SHOWN_RULES = [''maxLength'', ''minLength'', ''maxItems'', ''minItems'', ''maximum'', ''minimum'', ''type'',
     ''required'', ''additionalProperties'', ''enum'', ''const'', ''pattern'', ''format'']"

datatype seg = Index int | Name string

fun seg_str :: "seg \<Rightarrow> string" where
  "seg_str (Index i) = show_int i"
| "seg_str (Name s) = s"

text \<open>An error of the schema library; \<open>sv_limit\<close> is \<^verbatim>\<open>str(e.validator_value)\<close>.\<close>

record schema_error =
  sv_path :: "seg list"
  sv_validator :: string
  sv_limit :: string
  sv_instance :: json

fun safe_segs :: "json option \<Rightarrow> seg list \<Rightarrow> string list" where
  "safe_segs cur [] = []"
| "safe_segs cur (Index i # ss) = show_int i # safe_segs (obj_get (dict_or_empty cur) ''items'') ss"
| "safe_segs cur (Name s # ss) =
     (case obj_get (dict_or_empty (obj_get (dict_or_empty cur) ''properties'')) s of
        Some sub \<Rightarrow> char_take 40 s # safe_segs (Some sub) ss
      | None \<Rightarrow> ''*'' # safe_segs (obj_get (dict_or_empty cur) ''additionalProperties'') ss)"

definition safe_path :: "json \<Rightarrow> seg list \<Rightarrow> string" where
  "safe_path schema path = (let p = char_take 80 (join_with ''/'' (safe_segs (Some schema) path)) in if p = [] then ''<root>'' else p)"

fun json_type_name :: "json \<Rightarrow> string" where
  "json_type_name JNull = ''NoneType''"
| "json_type_name (JBool _) = ''bool''"
| "json_type_name (JInt _) = ''int''"
| "json_type_name (JFloat _) = ''float''"
| "json_type_name (JStr _) = ''str''"
| "json_type_name (JList _) = ''list''"
| "json_type_name (JObj _) = ''dict''"

fun sized_len :: "json \<Rightarrow> nat option" where
  "sized_len (JStr s) = Some (char_count s)"
| "sized_len (JList vs) = Some (length vs)"
| "sized_len (JObj kvs) = Some (length kvs)"
| "sized_len _ = None"

definition describe_error :: "json \<Rightarrow> schema_error \<Rightarrow> string" where
  "describe_error schema x =
     (let rule = (if sv_validator x \<in> set SHOWN_RULES then sv_validator x else ''schema'');
          got = (case (if rule \<noteq> ''type'' then sized_len (sv_instance x) else None) of
                   Some n \<Rightarrow> ''len '' @ show_nat n | None \<Rightarrow> ''type '' @ json_type_name (sv_instance x));
          limit = (if rule \<in> {''required'', ''additionalProperties'', ''enum'', ''const'', ''pattern'', ''schema''} then []
                   else '' '' @ char_take 20 (sv_limit x))
      in safe_path schema (sv_path x) @ '': '' @ rule @ limit @ '' (got '' @ got @ '')'')"

text \<open>
  \<^verbatim>\<open>repr\<close> of a string; bytes outside ASCII are left as they are.
\<close>

definition repr_char :: "char \<Rightarrow> char \<Rightarrow> string" where
  "repr_char q c =
     (if c = q \<or> c = CHR 0x5C then [CHR 0x5C, c]
      else if c = CHR 0x0A then [CHR 0x5C, CHR ''n'']
      else if c = CHR 0x0D then [CHR 0x5C, CHR ''r'']
      else if c = CHR 0x09 then [CHR 0x5C, CHR ''t'']
      else if (of_char c :: nat) < 32 \<or> (of_char c :: nat) = 127
      then [CHR 0x5C, CHR ''x'', hex_digit (of_char c div 16), hex_digit (of_char c)]
      else [c])"

definition py_repr :: "string \<Rightarrow> string" where
  "py_repr s = (let q = (if CHR 0x27 \<in> set s \<and> CHR 0x22 \<notin> set s then CHR 0x22 else CHR 0x27)
     in [q] @ concat (map (repr_char q) s) @ [q])"

definition function_of :: "json \<Rightarrow> (string \<times> json) list" where
  "function_of t = dict_or_empty (obj_get (json_obj t) ''function'')"

text \<open>\<open>errors\<close>: the first errors of the library, at most three of which are read; \<open>None\<close>: it raises.\<close>

definition schema_violation ::
  "(json \<Rightarrow> json \<Rightarrow> schema_error list option) \<Rightarrow> json list \<Rightarrow> json \<Rightarrow> json \<Rightarrow> string" where
  "schema_violation errors tools name arguments =
     (case find (\<lambda>t. obj_get (function_of t) ''name'' = Some name) tools of
        None \<Rightarrow> (case name of JStr n \<Rightarrow> ''undeclared tool '' @ py_repr (char_take 40 n) | _ \<Rightarrow> [])
      | Some t \<Rightarrow> (case obj_get (function_of t) ''parameters'' of
          Some (JObj schema) \<Rightarrow> (case errors (JObj schema) arguments of
              None \<Rightarrow> []
            | Some es \<Rightarrow> join_with ''; '' (map (describe_error (JObj schema))
                (sort_key (\<lambda>x. map seg_str (sv_path x)) (take 3 es))))
        | _ \<Rightarrow> ''tool has no parameters schema''))"

section \<open>Operations\<close>

type_synonym 'a tool_op = "run_db \<Rightarrow> (tool_error + 'a) \<times> run_db"

definition fences_hold :: "Lease list \<Rightarrow> run_db \<Rightarrow> bool" where
  "fences_hold fences d \<longleftrightarrow> list_all (\<lambda>l. check_fence (Some l) (rd_leases d)) fences"

definition call_gone :: "int \<Rightarrow> run_db \<Rightarrow> bool" where
  "call_gone i d \<longleftrightarrow> (case find_run i d of None \<Rightarrow> True | Some r \<Rightarrow> rn_cancel_requested r)"

definition new_call :: "string \<Rightarrow> json \<Rightarrow> string \<Rightarrow> string \<Rightarrow> (string \<times> json) list" where
  "new_call call_id name raw deadline =
     [(''call_id'', JStr call_id), (''name'', name), (''arguments'', JStr raw), (''deadline'', JStr deadline),
      (''state'', JStr ''waiting'')]"

text \<open>The answer that the call makes, as the tool contract reads it; the other fields are not read.\<close>

definition offered_call :: "string \<Rightarrow> json \<Rightarrow> string \<Rightarrow> call_meta" where
  "offered_call cid name raw =
     \<lparr>cm_model = None, cm_model_served = None, cm_tokens_in = 0, cm_tokens_out = 0, cm_cost_usd = 0,
      cm_cache_read_tokens = 0, cm_cache_write_tokens = 0, cm_latency_ms = None,
      cm_finish_reason = JStr ''tool_calls'', cm_refusal = JNull,
      cm_tool_calls = JList [JObj [(''id'', JStr cid), (''type'', JStr ''function''),
        (''function'', JObj [(''name'', name), (''arguments'', JStr raw)])]],
      cm_vision_type = JNull, cm_vision_format = JNull\<rparr>"

definition history_id :: "json \<Rightarrow> json option" where
  "history_id item = obj_get (json_obj item) ''call_id''"

definition publish_call ::
  "run_env \<Rightarrow> (instant \<Rightarrow> string) \<Rightarrow> secs \<Rightarrow> (json \<Rightarrow> json \<Rightarrow> schema_error list option)
    \<Rightarrow> int \<Rightarrow> json \<Rightarrow> json \<Rightarrow> json \<Rightarrow> Lease list \<Rightarrow> unit tool_op" where
  "publish_call e isof wait_s errors i call_id name arguments fences d =
     (case call_id of
        JStr cid \<Rightarrow>
          if \<not> (1 \<le> char_count cid \<and> char_count cid \<le> 128) then (Inl (ClientToolConflict ''invalid call id''), d)
          else
            (let raw = json_dumps (re_fr e) '','' '':'' arguments in
             if length raw > MAX_ARGUMENT_BYTES then (Inl (ClientToolConflict ''tool arguments exceed limit''), d)
             else if \<not> fences_hold fences d then (Inl ToolStaleLease, d)
             else case find_job i d of
               None \<Rightarrow> (Inl (ClientToolConflict ''job is not running''), d)
             | Some j \<Rightarrow>
                 if j_status j \<noteq> Running \<or> j_capability j \<notin> set AGENT_CAPABILITIES
                 then (Inl (ClientToolConflict ''job is not running''), d)
                 else if call_gone i d then (Inl (ClientToolConflict ''job was cancelled''), d)
                 else (case validate_result (re_schema e) []
                        (offered_call cid name raw)
                        (tools_of j) (choice_of j) of
                     Some label \<Rightarrow>
                       (let detail = schema_violation errors (tools_of j) name arguments in
                        if label \<noteq> ''InvalidToolArguments''
                        then (Inl (ClientToolConflict (''tool call is outside the declared schema ['' @ label @ '']'' @
                               (if detail = [] then [] else '': '' @ detail))), d)
                        else (Inl (ClientToolInvalidArguments label detail), d))
                   | None \<Rightarrow>
                       if (case obj_get (meta_of j) ''client_tool'' of Some v \<Rightarrow> truthy v | None \<Rightarrow> False) \<or>
                          length (tool_history j) \<ge> MAX_CALLS \<or>
                          list_ex (\<lambda>item. history_id item = Some call_id) (tool_history j)
                       then (Inl (ClientToolConflict ''tool call already pending or limit reached''), d)
                       else (Inr (), set_job i (with_meta (dict_set ''client_tool''
                              (JObj (new_call cid name raw (isof (re_now e + wait_s)))) (meta_of j))) d)))
      | _ \<Rightarrow> (Inl (ClientToolConflict ''invalid call id''), d))"

definition terminal_tools :: "DeepJobRow \<Rightarrow> json list" where
  "terminal_tools j = list_or_empty (obj_get (client_job_of j) ''terminal_tools'')"

definition same_result :: "string \<Rightarrow> string \<Rightarrow> json \<Rightarrow> bool" where
  "same_result call_id digest item \<longleftrightarrow>
     history_id item = Some (JStr call_id) \<and> obj_get (json_obj item) ''digest'' = Some (JStr digest)"

definition answered_call :: "bool \<Rightarrow> string \<Rightarrow> string \<Rightarrow> bool \<Rightarrow> (string \<times> json) list \<Rightarrow> (string \<times> json) list" where
  "answered_call success content digest fin call =
     dict_set ''terminal'' (JBool fin) (dict_set ''digest'' (JStr digest) (dict_set ''content'' (JStr content)
       (dict_set ''success'' (JBool success) (dict_set ''state'' (JStr ''ready'') call))))"

definition submit_result :: "run_env \<Rightarrow> int \<Rightarrow> int \<Rightarrow> string \<Rightarrow> bool \<Rightarrow> string \<Rightarrow> bool \<Rightarrow> bool tool_op" where
  "submit_result e i project_id call_id success content fin d =
     (if length content > MAX_RESULT_BYTES then (Inl ToolTooLarge, d)
      else let digest = result_digest e success content fin in
        case (case find_job i d of Some j \<Rightarrow> if j_project_id j = project_id then Some j else None | None \<Rightarrow> None) of
          None \<Rightarrow> (Inl ToolJobNotFound, d)
        | Some j \<Rightarrow>
            if j_status j \<noteq> Running \<or> j_capability j \<notin> set AGENT_CAPABILITIES
            then (Inl (ClientToolConflict ''job is not waiting for a client tool''), d)
            else if call_gone i d then (Inl (ClientToolConflict ''job was cancelled''), d)
            else if list_ex (same_result call_id digest) (tool_history j) then (Inr False, d)
            else (let call = pending_call j in
              if obj_get call ''call_id'' \<noteq> Some (JStr call_id)
              then (Inl (ClientToolConflict ''call id does not match the pending tool''), d)
              else if obj_get call ''state'' = Some (JStr ''ready'')
              then if obj_get call ''digest'' = Some (JStr digest) then (Inr False, d)
                   else (Inl (ClientToolConflict ''a different result was already submitted''), d)
              else case is_waiting e call of
                None \<Rightarrow> (Inl ToolBroken, d)
              | Some False \<Rightarrow> (Inl (ClientToolConflict ''tool call expired''), d)
              | Some True \<Rightarrow>
                  if fin \<and> \<not> success
                  then (Inl (ClientToolConflict ''a failed tool result cannot be terminal output''), d)
                  else if fin \<and> opt_or (obj_get call ''name'') JNull \<notin> set (terminal_tools j)
                  then (Inl (ClientToolConflict ''terminal is allowed only for a declared terminal output tool''), d)
                  else (Inr True, set_job i (with_meta (dict_set ''client_tool''
                         (JObj (answered_call success content digest fin call)) (meta_of j))) d)))"

definition history_entry :: "string \<Rightarrow> json \<Rightarrow> bool \<Rightarrow> json" where
  "history_entry call_id digest fin =
     JObj ([(''call_id'', JStr call_id), (''digest'', digest)] @ (if fin then [(''terminal'', JBool True)] else []))"

definition taken_meta :: "json list \<Rightarrow> json \<Rightarrow> (string \<times> json) list \<Rightarrow> (string \<times> json) list" where
  "taken_meta history entry m = dict_del ''client_tool'' (dict_set ''client_tool_history'' (JList (history @ [entry])) m)"

definition take_result :: "run_env \<Rightarrow> int \<Rightarrow> string \<Rightarrow> Lease list \<Rightarrow> (bool \<times> string \<times> bool) option tool_op" where
  "take_result e i call_id fences d =
     (if \<not> fences_hold fences d then (Inl ToolStaleLease, d)
      else case find_job i d of
        None \<Rightarrow> (Inl (ClientToolConflict ''job stopped while waiting for a tool''), d)
      | Some j \<Rightarrow>
          if j_status j \<noteq> Running then (Inl (ClientToolConflict ''job stopped while waiting for a tool''), d)
          else if call_gone i d then (Inl ClientToolCancelled, d)
          else (let call = pending_call j in
            if obj_get call ''call_id'' \<noteq> Some (JStr call_id) then (Inl (ClientToolConflict ''pending tool changed''), d)
            else if obj_get call ''state'' \<noteq> Some (JStr ''ready'')
            then (case before_deadline e call of
                None \<Rightarrow> (Inl ToolBroken, d)
              | Some False \<Rightarrow> (Inl (ClientToolConflict ''tool call expired''), d)
              | Some True \<Rightarrow> (Inr None, d))
            else (case (obj_get call ''success'', obj_get call ''content'', obj_get call ''digest'') of
                (Some success, Some (JStr content), Some digest) \<Rightarrow>
                  (let term_flag = (case obj_get call ''terminal'' of Some v \<Rightarrow> truthy v | None \<Rightarrow> False)
                   in (Inr (Some (truthy success, content, term_flag)),
                       set_job i (with_meta (taken_meta (tool_history j) (history_entry call_id digest term_flag) (meta_of j))) d))
              | _ \<Rightarrow> (Inl ToolBroken, d))))"

definition clear_pending_call :: "int \<Rightarrow> run_db \<Rightarrow> run_db" where
  "clear_pending_call i d = (case find_job i d of
      None \<Rightarrow> d
    | Some j \<Rightarrow> if j_status j \<noteq> Running then d
        else if obj_get (pending_call j) ''state'' = Some (JStr ''waiting'')
        then set_job i (with_meta (dict_del ''client_tool'' (meta_of j))) d else d)"

section \<open>The abstract exchange\<close>

datatype exchange_state = Idle | Waiting string | Ready string bool string bool | Malformed

definition abs_call :: "json option \<Rightarrow> exchange_state" where
  "abs_call p = (case p of
      None \<Rightarrow> Idle
    | Some v \<Rightarrow> (let c = json_obj v in case obj_get c ''call_id'' of
        Some (JStr cid) \<Rightarrow>
          if obj_get c ''state'' = Some (JStr ''waiting'') then Waiting cid
          else if obj_get c ''state'' = Some (JStr ''ready'')
          then (case (obj_get c ''success'', obj_get c ''content'', obj_get c ''digest'', obj_get c ''terminal'') of
                  (Some (JBool s), Some (JStr t), Some dg, Some (JBool f)) \<Rightarrow> Ready cid s t f | _ \<Rightarrow> Malformed)
          else Malformed
      | _ \<Rightarrow> Malformed))"

definition exchange :: "int \<Rightarrow> run_db \<Rightarrow> json option \<times> json list" where
  "exchange i d = (case find_job i d of
      None \<Rightarrow> (None, []) | Some j \<Rightarrow> (obj_get (meta_of j) ''client_tool'', tool_history j))"

lemma find_job_set_job:
  assumes "find_job i d = Some j" "j_id (f j) = i"
  shows "find_job i (set_job i f d) = Some (f j)"
proof -
  have "find_row j_id i rows = Some j \<Longrightarrow> find_row j_id i (update_where (\<lambda>r. j_id r = i) f rows) = Some (f j)" for rows
    using assms(2) by (induction rows) (auto simp: find_row_def update_where_def split: if_splits)
  then show ?thesis using assms(1) by (simp add: find_job_def set_job_def)
qed

lemma find_job_id: "find_job i d = Some j \<Longrightarrow> j_id j = i"
  by (auto simp: find_job_def find_row_def find_Some_iff)

lemma meta_of_with_meta [simp]: "meta_of (with_meta m j) = m"
  by (simp add: meta_of_def with_meta_def)

lemma with_meta_twice [simp]: "with_meta m (with_meta m' j) = with_meta m j"
  by (simp add: with_meta_def)

lemma with_meta_fields [simp]:
  "j_id (with_meta m j) = j_id j" "j_status (with_meta m j) = j_status j" "j_project_id (with_meta m j) = j_project_id j"
  "j_capability (with_meta m j) = j_capability j" "j_request (with_meta m j) = j_request j"
  by (simp_all add: with_meta_def)

lemma exchange_set_meta:
  assumes "find_job i d = Some j"
  shows "exchange i (set_job i (with_meta m) d) = (obj_get m ''client_tool'', list_or_empty (obj_get m ''client_tool_history''))"
  using find_job_set_job[OF assms, of "with_meta m"] find_job_id[OF assms] by (simp add: exchange_def tool_history_def)

lemma obj_get_dict_set: "obj_get (dict_set k v m) k' = (if k' = k then Some v else obj_get m k')"
  by (simp add: obj_get_def)

lemma obj_get_dict_del: "obj_get (dict_del k m) k' = (if k' = k then None else obj_get m k')"
  by (induction m) (auto simp: obj_get_def dict_del_def)

lemmas exchange_simps = exchange_set_meta obj_get_dict_set obj_get_dict_del

lemma abs_new_call: "abs_call (Some (JObj (new_call cid name raw dl))) = Waiting cid"
  by (simp add: abs_call_def json_obj_def new_call_def obj_get_def)

lemma abs_answered_call:
  "abs_call (Some (JObj c)) = Waiting cid \<Longrightarrow> abs_call (Some (JObj (answered_call s t dg f c))) = Ready cid s t f"
  by (auto simp: abs_call_def json_obj_def answered_call_def obj_get_dict_set split: option.splits json.splits if_splits)

lemma abs_call_None [simp]: "abs_call None = Idle"
  by (simp add: abs_call_def)

lemma abs_call_truthy: "abs_call (Some v) \<noteq> Malformed \<Longrightarrow> truthy v"
  by (cases v) (auto simp: abs_call_def json_obj_def obj_get_def split: option.splits)

text \<open>What each operation does to the exchange.\<close>

lemma publish_exchange:
  assumes "publish_call e isof ws errs i call_id name args fences d = (r, d')"
  obtains (refused) "d' = d"
    | (published) cid raw dl h where "call_id = JStr cid"
      "\<exists>p. exchange i d = (p, h) \<and> (\<forall>v. p = Some v \<longrightarrow> \<not> truthy v)" "length h < MAX_CALLS"
      "\<forall>item \<in> set h. history_id item \<noteq> Some (JStr cid)"
      "exchange i d' = (Some (JObj (new_call cid name raw dl)), h)"
proof (cases "d' = d")
  case False
  then obtain cid j where c: "call_id = JStr cid" "find_job i d = Some j"
      "\<not> (case obj_get (meta_of j) ''client_tool'' of Some v \<Rightarrow> truthy v | None \<Rightarrow> False)"
      "length (tool_history j) < MAX_CALLS" "\<not> list_ex (\<lambda>item. history_id item = Some call_id) (tool_history j)"
      "d' = set_job i (with_meta (dict_set ''client_tool''
         (JObj (new_call cid name (json_dumps (re_fr e) '','' '':'' args) (isof (re_now e + ws)))) (meta_of j))) d"
    using assms unfolding publish_call_def Let_def by (auto split: json.splits if_splits option.splits)
  have "exchange i d' = (Some (JObj (new_call cid name (json_dumps (re_fr e) '','' '':'' args) (isof (re_now e + ws)))), tool_history j)"
    by (simp add: c(2,6) exchange_simps tool_history_def)
  moreover have "exchange i d = (obj_get (meta_of j) ''client_tool'', tool_history j)" by (simp add: exchange_def c(2))
  ultimately show ?thesis using c by (intro published[of cid "tool_history j"]) (auto simp: list_ex_iff)
qed simp

lemma submit_exchange:
  assumes "submit_result e i pid cid s t f d = (r, d')"
  obtains (unchanged) "r \<noteq> Inr True" "d' = d"
    | (accepted) c h dg where "r = Inr True" "exchange i d = (Some (JObj c), h)" "abs_call (Some (JObj c)) = Waiting cid"
      "exchange i d' = (Some (JObj (answered_call s t dg f c)), h)"
proof (cases "r = Inr True")
  case True
  then obtain j where j: "find_job i d = Some j" "obj_get (pending_call j) ''call_id'' = Some (JStr cid)"
      "is_waiting e (pending_call j) = Some True"
      "d' = set_job i (with_meta (dict_set ''client_tool''
         (JObj (answered_call s t (result_digest e s t f) f (pending_call j))) (meta_of j))) d"
    using assms unfolding submit_result_def Let_def by (auto split: if_splits option.splits bool.splits)
  have w: "obj_get (pending_call j) ''state'' = Some (JStr ''waiting'')"
    using j(3) by (simp add: is_waiting_def split: if_splits)
  then have p: "obj_get (meta_of j) ''client_tool'' = Some (JObj (pending_call j))"
    by (auto simp: pending_call_def dict_or_empty_def obj_get_def split: option.splits json.splits)
  show ?thesis
    by (rule accepted[OF True, of "pending_call j" "tool_history j" "result_digest e s t f"])
       (simp_all add: exchange_def[of i d] j(1) p abs_call_def json_obj_def j(2) w j(4) exchange_simps tool_history_def)
next
  case False
  then have "d' = d" using assms unfolding submit_result_def Let_def by (auto split: if_splits option.splits bool.splits)
  then show ?thesis using False by (intro unchanged)
qed

lemma ready_fields:
  assumes "abs_call (Some (JObj c)) = Ready cid s t f"
  obtains dg where "obj_get c ''call_id'' = Some (JStr cid)" "obj_get c ''state'' = Some (JStr ''ready'')"
    "obj_get c ''success'' = Some (JBool s)" "obj_get c ''content'' = Some (JStr t)" "obj_get c ''digest'' = Some dg"
    "obj_get c ''terminal'' = Some (JBool f)"
  using assms by (auto simp: abs_call_def json_obj_def split: option.splits json.splits if_splits)

lemma take_exchange:
  assumes "take_result e i cid fences d = (r, d')"
  obtains (unchanged) "\<nexists>x. r = Inr (Some x)" "d' = d"
    | (delivered) c s t f h dg where "r = Inr (Some (s, t, f))" "exchange i d = (Some (JObj c), h)"
      "obj_get c ''call_id'' = Some (JStr cid)"
      "abs_call (Some (JObj c)) \<noteq> Malformed \<Longrightarrow> abs_call (Some (JObj c)) = Ready cid s t f"
      "exchange i d' = (None, h @ [history_entry cid dg f])"
proof (cases "\<exists>x. r = Inr (Some x)")
  case True
  then obtain j su t dg where j: "find_job i d = Some j" "obj_get (pending_call j) ''call_id'' = Some (JStr cid)"
      "obj_get (pending_call j) ''state'' = Some (JStr ''ready'')" "obj_get (pending_call j) ''success'' = Some su"
      "obj_get (pending_call j) ''content'' = Some (JStr t)" "obj_get (pending_call j) ''digest'' = Some dg"
    using assms unfolding take_result_def Let_def
    by (auto split: if_splits option.splits bool.splits json.splits prod.splits)
  define f where "f = (case obj_get (pending_call j) ''terminal'' of Some v \<Rightarrow> truthy v | None \<Rightarrow> False)"
  have r: "r = Inr (Some (truthy su, t, f))"
    and d': "d' = set_job i (with_meta (taken_meta (tool_history j) (history_entry cid dg f) (meta_of j))) d"
    using assms True unfolding take_result_def Let_def by (auto simp: j f_def split: if_splits)
  have p: "obj_get (meta_of j) ''client_tool'' = Some (JObj (pending_call j))"
    using j(3) by (auto simp: pending_call_def dict_or_empty_def obj_get_def split: option.splits json.splits)
  have "abs_call (Some (JObj (pending_call j))) = Ready cid (truthy su) t f"
    if "abs_call (Some (JObj (pending_call j))) \<noteq> Malformed"
    using that by (auto simp: abs_call_def json_obj_def j f_def split: option.splits json.splits)
  then show ?thesis
    by (intro delivered[OF r, of "pending_call j" "tool_history j" dg])
       (simp_all add: exchange_def[of i d] j(1,2) p d' exchange_simps taken_meta_def list_or_empty_def)
next
  case False
  then have "d' = d" using assms unfolding take_result_def Let_def
    by (auto split: if_splits option.splits bool.splits json.splits prod.splits)
  then show ?thesis using False by (intro unchanged) auto
qed

lemma clear_exchange:
  obtains (unchanged) "clear_pending_call i d = d"
    | (withdrawn) c h where "exchange i d = (Some (JObj c), h)" "obj_get c ''state'' = Some (JStr ''waiting'')"
      "exchange i (clear_pending_call i d) = (None, h)"
proof (cases "clear_pending_call i d = d")
  case False
  then obtain j where j: "find_job i d = Some j" "obj_get (pending_call j) ''state'' = Some (JStr ''waiting'')"
      "clear_pending_call i d = set_job i (with_meta (dict_del ''client_tool'' (meta_of j))) d"
    by (auto simp: clear_pending_call_def split: option.splits if_splits)
  have p: "obj_get (meta_of j) ''client_tool'' = Some (JObj (pending_call j))"
    using j(2) by (auto simp: pending_call_def dict_or_empty_def obj_get_def split: option.splits json.splits)
  show ?thesis
    by (rule withdrawn[of "pending_call j" "tool_history j"])
       (simp_all add: exchange_def[of i d] j p exchange_simps tool_history_def)
qed simp

section \<open>Any number of parties\<close>

text \<open>
  The worker, the client and others act on the exchange of run \<open>i\<close> in any order, each at its own time.
  The world also counts the results that a client saw accepted and those a worker was handed.
\<close>

type_synonym tool_reply = "string \<times> bool \<times> string \<times> bool"

record tool_world =
  tw_db :: run_db
  tw_accepted :: "tool_reply list"
  tw_delivered :: "tool_reply list"

inductive tool_step :: "int \<Rightarrow> tool_world \<Rightarrow> tool_world \<Rightarrow> bool" for i where
  step_publish: "publish_call e isof ws errs i call_id name args fences (tw_db w) = (r, d') \<Longrightarrow> tool_step i w (w\<lparr>tw_db := d'\<rparr>)"
| step_submit: "submit_result e i pid cid s t f (tw_db w) = (r, d') \<Longrightarrow>
    tool_step i w (w\<lparr>tw_db := d', tw_accepted := tw_accepted w @ (if r = Inr True then [(cid, s, t, f)] else [])\<rparr>)"
| step_take: "take_result e i cid fences (tw_db w) = (r, d') \<Longrightarrow>
    tool_step i w (w\<lparr>tw_db := d', tw_delivered := tw_delivered w @ (case r of Inr (Some x) \<Rightarrow> [(cid, x)] | _ \<Rightarrow> [])\<rparr>)"
| step_clear: "tool_step i w (w\<lparr>tw_db := clear_pending_call i (tw_db w)\<rparr>)"
| step_other: "exchange i d' = exchange i (tw_db w) \<Longrightarrow> tool_step i w (w\<lparr>tw_db := d'\<rparr>)"

definition tool_start :: "int \<Rightarrow> tool_world \<Rightarrow> bool" where
  "tool_start i w \<longleftrightarrow> exchange i (tw_db w) = (None, []) \<and> tw_accepted w = [] \<and> tw_delivered w = []"

abbreviation tool_reachable :: "int \<Rightarrow> tool_world \<Rightarrow> bool" where
  "tool_reachable i \<equiv> reach (tool_start i) (tool_step i)"

definition history_matches :: "json list \<Rightarrow> tool_reply list \<Rightarrow> bool" where
  "history_matches h del \<longleftrightarrow> map history_id h = map (\<lambda>x. Some (JStr (fst x))) del \<and> distinct (map fst del)"

definition pending_matches :: "exchange_state \<Rightarrow> tool_reply list \<Rightarrow> tool_reply list \<Rightarrow> bool" where
  "pending_matches st acc del = (case st of
      Idle \<Rightarrow> acc = del
    | Waiting cid \<Rightarrow> acc = del \<and> cid \<notin> fst ` set del \<and> length del < MAX_CALLS
    | Ready cid s t f \<Rightarrow> acc = del @ [(cid, s, t, f)] \<and> cid \<notin> fst ` set del \<and> length del < MAX_CALLS
    | Malformed \<Rightarrow> False)"

definition tool_inv :: "int \<Rightarrow> tool_world \<Rightarrow> bool" where
  "tool_inv i w \<longleftrightarrow> history_matches (snd (exchange i (tw_db w))) (tw_delivered w) \<and> length (tw_delivered w) \<le> MAX_CALLS \<and>
     pending_matches (abs_call (fst (exchange i (tw_db w)))) (tw_accepted w) (tw_delivered w)"

lemma history_matches_length: "history_matches h del \<Longrightarrow> length h = length del"
  by (auto simp: history_matches_def dest: map_eq_imp_length_eq)

lemma history_matches_fresh:
  assumes "history_matches h del" "\<forall>item \<in> set h. history_id item \<noteq> Some (JStr cid)"
  shows "cid \<notin> fst ` set del"
proof
  assume "cid \<in> fst ` set del"
  then have "Some (JStr cid) \<in> set (map (\<lambda>x. Some (JStr (fst x))) del)" by auto
  then have "Some (JStr cid) \<in> set (map history_id h)" using assms(1) by (simp add: history_matches_def)
  then show False using assms(2) by auto
qed

lemma history_matches_snoc:
  "history_matches h del \<Longrightarrow> cid \<notin> fst ` set del \<Longrightarrow> history_matches (h @ [history_entry cid dg f]) (del @ [(cid, x)])"
  by (simp add: history_matches_def history_entry_def history_id_def json_obj_def obj_get_def)

lemma publish_keeps:
  assumes inv: "tool_inv i w" and "publish_call e isof ws errs i call_id name args fences (tw_db w) = (r, d')"
  shows "tool_inv i (w\<lparr>tw_db := d'\<rparr>)"
  using assms(2)
proof (cases rule: publish_exchange)
  case refused
  then show ?thesis using inv by (simp add: tool_inv_def)
next
  case (published cid raw dl h)
  from published(2) obtain p where p: "exchange i (tw_db w) = (p, h)" "\<forall>v. p = Some v \<longrightarrow> \<not> truthy v" by blast
  have "p = None" using inv p abs_call_truthy
    by (cases p) (auto simp: tool_inv_def pending_matches_def split: exchange_state.splits)
  then have "tw_accepted w = tw_delivered w" and hm: "history_matches h (tw_delivered w)"
    using inv p(1) by (auto simp: tool_inv_def pending_matches_def abs_call_def)
  then show ?thesis using published history_matches_length[OF hm] history_matches_fresh[OF hm published(4)]
    by (simp add: tool_inv_def abs_new_call pending_matches_def)
qed

lemma submit_keeps:
  assumes inv: "tool_inv i w" and "submit_result e i pid cid s t f (tw_db w) = (r, d')"
  shows "tool_inv i (w\<lparr>tw_db := d', tw_accepted := tw_accepted w @ (if r = Inr True then [(cid, s, t, f)] else [])\<rparr>)"
  using assms(2)
proof (cases rule: submit_exchange)
  case unchanged
  then show ?thesis using inv by (simp add: tool_inv_def)
next
  case (accepted c h dg)
  then show ?thesis using inv abs_answered_call[OF accepted(3)] by (simp add: tool_inv_def pending_matches_def)
qed

lemma take_keeps:
  assumes inv: "tool_inv i w" and "take_result e i cid fences (tw_db w) = (r, d')"
  shows "tool_inv i (w\<lparr>tw_db := d', tw_delivered := tw_delivered w @ (case r of Inr (Some x) \<Rightarrow> [(cid, x)] | _ \<Rightarrow> [])\<rparr>)"
  using assms(2)
proof (cases rule: take_exchange)
  case unchanged
  then have "(case r of Inr (Some x) \<Rightarrow> [(cid, x)] | _ \<Rightarrow> []) = []" by (auto split: sum.splits option.splits)
  then show ?thesis using inv unchanged by (simp add: tool_inv_def)
next
  case (delivered c s t f h dg)
  have inv': "history_matches h (tw_delivered w)" "pending_matches (abs_call (Some (JObj c))) (tw_accepted w) (tw_delivered w)"
    using inv by (simp_all add: tool_inv_def delivered(2))
  have "abs_call (Some (JObj c)) = Ready cid s t f"
    using inv'(2) by (intro delivered(4)) (auto simp: pending_matches_def)
  then have "tw_accepted w = tw_delivered w @ [(cid, s, t, f)]" "cid \<notin> fst ` set (tw_delivered w)" "length (tw_delivered w) < MAX_CALLS"
    using inv'(2) by (simp_all add: pending_matches_def)
  then show ?thesis using inv'(1)
    by (simp add: tool_inv_def delivered(1,5) pending_matches_def history_matches_snoc)
qed

lemma clear_keeps:
  assumes inv: "tool_inv i w"
  shows "tool_inv i (w\<lparr>tw_db := clear_pending_call i (tw_db w)\<rparr>)"
proof (cases rule: clear_exchange[of i "tw_db w", case_names unchanged withdrawn])
  case unchanged
  then show ?thesis using inv by (simp add: tool_inv_def)
next
  case (withdrawn c h)
  have "pending_matches (abs_call (Some (JObj c))) (tw_accepted w) (tw_delivered w)"
    using inv by (simp add: tool_inv_def withdrawn(1))
  then have "tw_accepted w = tw_delivered w"
    using withdrawn(2) by (auto simp: pending_matches_def abs_call_def json_obj_def split: option.splits json.splits)
  then show ?thesis using inv by (simp add: tool_inv_def withdrawn(1,3) pending_matches_def)
qed

interpretation te: invariant_system "tool_start i" "tool_step i" "tool_inv i" for i
proof
  show "tool_inv i w" if "tool_start i w" for w
    using that by (simp add: tool_start_def tool_inv_def history_matches_def abs_call_def pending_matches_def)
  show "tool_inv i v" if "tool_inv i w" "tool_step i w v" for w v
    using that(2,1)
  proof cases
    case step_publish then show ?thesis using publish_keeps[OF that(1)] by simp
  next
    case step_submit then show ?thesis using submit_keeps[OF that(1)] by simp
  next
    case step_take then show ?thesis using take_keeps[OF that(1)] by simp
  next
    case step_clear then show ?thesis using clear_keeps[OF that(1)] by simp
  next
    case step_other then show ?thesis using that(1) by (simp add: tool_inv_def)
  qed
qed

section \<open>Properties\<close>

lemma ready_is_handed_over:
  assumes "find_job i d = Some j" "j_status j = Running" "\<not> call_gone i d" "fences_hold fences d"
    and "abs_call (fst (exchange i d)) = Ready cid s t f"
  shows "fst (take_result e i cid fences d) = Inr (Some (s, t, f))"
proof -
  obtain c where c: "fst (exchange i d) = Some (JObj c)"
    using assms(5) by (cases "fst (exchange i d)"; cases "the (fst (exchange i d))")
      (auto simp: abs_call_def json_obj_def obj_get_def split: option.splits)
  then have p: "pending_call j = c" by (simp add: exchange_def assms(1) pending_call_def dict_or_empty_def)
  from assms(5) obtain dg where "obj_get c ''call_id'' = Some (JStr cid)" "obj_get c ''state'' = Some (JStr ''ready'')"
    "obj_get c ''success'' = Some (JBool s)" "obj_get c ''content'' = Some (JStr t)" "obj_get c ''digest'' = Some dg"
    "obj_get c ''terminal'' = Some (JBool f)"
    unfolding c by (rule ready_fields)
  then show ?thesis by (simp add: take_result_def assms p)
qed

text \<open>
  C13. Whatever the worker, the client and others do, in any order and at any time, the tool results
  a worker is handed are exactly the results a client saw accepted, in that order and each once; at
  most one accepted result is still on its way, no call id is accepted twice, and a run has at most
  sixteen calls. A result on its way is handed to the worker that asks for it while the job runs
  uncancelled under a valid lease, even after the deadline of the call.
\<close>

theorem tool_results_are_delivered_once:
  assumes "tool_reachable i w"
  shows "prefix (tw_delivered w) (tw_accepted w) \<and> length (tw_accepted w) \<le> length (tw_delivered w) + 1 \<and>
    distinct (map fst (tw_accepted w)) \<and> length (tw_accepted w) \<le> 16 \<and>
    (tw_accepted w = tw_delivered w @ [(cid, s, t, f)] \<and> find_job i (tw_db w) = Some j \<and> j_status j = Running \<and>
     \<not> call_gone i (tw_db w) \<and> fences_hold fences (tw_db w) \<longrightarrow>
       fst (take_result e i cid fences (tw_db w)) = Inr (Some (s, t, f)))"
proof -
  have inv: "tool_inv i w" by (rule te.reach_inv[OF assms])
  then have pm: "pending_matches (abs_call (fst (exchange i (tw_db w)))) (tw_accepted w) (tw_delivered w)"
    and hist: "distinct (map fst (tw_delivered w))" "length (tw_delivered w) \<le> 16"
    by (simp_all add: tool_inv_def history_matches_def MAX_CALLS_def)
  have "fst (take_result e i cid fences (tw_db w)) = Inr (Some (s, t, f))"
    if "tw_accepted w = tw_delivered w @ [(cid, s, t, f)]" "find_job i (tw_db w) = Some j" "j_status j = Running"
      "\<not> call_gone i (tw_db w)" "fences_hold fences (tw_db w)"
    using ready_is_handed_over[OF that(2-5)] pm that(1) by (auto simp: pending_matches_def split: exchange_state.splits)
  moreover have "prefix (tw_delivered w) (tw_accepted w) \<and> length (tw_accepted w) \<le> length (tw_delivered w) + 1 \<and>
      distinct (map fst (tw_accepted w)) \<and> length (tw_accepted w) \<le> 16"
    using pm hist by (auto simp: pending_matches_def MAX_CALLS_def split: exchange_state.splits)
  ultimately show ?thesis by blast
qed

text \<open>A call that was answered and waits for its worker.\<close>

definition demo_tool_env :: run_env where
  "demo_tool_env = demo_run_env\<lparr>re_parse := \<lambda>_. Some 130\<rparr>"

definition demo_tool_job :: DeepJobRow where
  "demo_tool_job = demo_job\<lparr>j_status := Running, j_request := [(''model'', JStr ''m''), (''account_id'', JStr ''owner''), (''client_job'', JObj [(''tools'',
     JList [JObj [(''type'', JStr ''function''), (''function'', JObj [(''name'', JStr ''sum''), (''parameters'', JObj [])])]])])]\<rparr>"

definition demo_tool_db :: run_db where
  "demo_tool_db = set_job 1 (\<lambda>_. demo_tool_job) demo_created"

definition demo_published :: run_db where
  "demo_published = snd (publish_call demo_tool_env (\<lambda>_. ''t'') 120 (\<lambda>_ _. None) 1 (JStr ''c1'') (JStr ''sum'') (JObj []) [] demo_tool_db)"

definition demo_answered :: run_db where
  "demo_answered = snd (submit_result demo_tool_env 1 3 ''c1'' True ''42'' False demo_published)"

definition demo_waiting_world :: tool_world where
  "demo_waiting_world = \<lparr>tw_db = demo_answered, tw_accepted = [(''c1'', True, ''42'', False)], tw_delivered = []\<rparr>"

lemma find_run_set_job [simp]: "find_run i (set_job k f d) = find_run i d"
  by (simp add: find_run_def set_job_def)

lemma demo_tool_job_facts [simp]:
  "find_job 1 demo_tool_db = Some demo_tool_job" "meta_of demo_tool_job = []" "j_status demo_tool_job = Running"
  "j_id demo_tool_job = 1" "j_project_id demo_tool_job = 3" "j_capability demo_tool_job = ''agent:claude''"
  "find_run 1 demo_tool_db = Some (side_row demo_new_run 1)"
  "client_job_of demo_tool_job = [(''tools'',
     JList [JObj [(''type'', JStr ''function''), (''function'', JObj [(''name'', JStr ''sum''), (''parameters'', JObj [])])]])]"
proof -
  have i: "j_id demo_job = 1" by (rule find_job_id[OF demo_created_job(1)])
  then show "j_id demo_tool_job = 1" by (simp add: demo_tool_job_def)
  then show "find_job 1 demo_tool_db = Some demo_tool_job"
    unfolding demo_tool_db_def by (intro find_job_set_job[OF demo_created_job(1)])
  show "meta_of demo_tool_job = []" using demo_created_job(4) by (simp add: meta_of_def demo_tool_job_def)
  show "j_project_id demo_tool_job = 3" "j_capability demo_tool_job = ''agent:claude''" by code_simp+
  show "find_run 1 demo_tool_db = Some (side_row demo_new_run 1)" by (simp add: demo_tool_db_def demo_created_run)
qed (simp_all add: demo_tool_job_def client_job_of_def obj_get_def)

lemma demo_call_valid: "validate_result (re_schema demo_tool_env) [] (offered_call ''c1'' (JStr ''sum'') ''{}'') (tools_of demo_tool_job) (choice_of demo_tool_job) = None"
proof -
  have "loads_strict ''{}'' = Inr (JObj [])" by code_simp
  then show ?thesis
    by (simp add: validate_result_def offered_call_def tools_of_def choice_of_def obj_get_def list_or_empty_def opt_or_def
        check_call_def json_item_def tool_name_def tool_schemas_def tool_parameters_def List.map_filter_def hashable_def is_obj_def
        demo_tool_env_def demo_run_env_def)
qed

lemma demo_published_eq:
  "demo_published = set_job 1 (with_meta [(''client_tool'', JObj (new_call ''c1'' (JStr ''sum'') ''{}'' ''t''))]) demo_tool_db"
  using demo_call_valid
  by (simp add: demo_published_def publish_call_def char_count_def MAX_ARGUMENT_BYTES_def fences_hold_def AGENT_CAPABILITIES_def
      call_gone_def side_row_def obj_get_def MAX_CALLS_def tool_history_def list_or_empty_def)

lemma demo_published_job:
  "find_job 1 demo_published = Some (with_meta [(''client_tool'', JObj (new_call ''c1'' (JStr ''sum'') ''{}'' ''t''))] demo_tool_job)"
  unfolding demo_published_eq by (rule find_job_set_job) simp_all

lemma demo_submit:
  "submit_result demo_tool_env 1 3 ''c1'' True ''42'' False demo_published = (Inr True, demo_answered)"
  "find_job 1 demo_answered = Some (with_meta [(''client_tool'', JObj (answered_call True ''42'' ''x'' False
     (new_call ''c1'' (JStr ''sum'') ''{}'' ''t'')))] demo_tool_job)"
  "find_run 1 demo_answered = Some (side_row demo_new_run 1)"
proof -
  let ?c = "new_call ''c1'' (JStr ''sum'') ''{}'' ''t''"
  let ?m = "[(''client_tool'', JObj (answered_call True ''42'' ''x'' False ?c))]"
  have p: "pending_call (with_meta [(''client_tool'', JObj ?c)] demo_tool_job) = ?c"
    by (simp add: pending_call_def dict_or_empty_def obj_get_def)
  have g: "\<not> call_gone 1 demo_published" by (simp add: call_gone_def demo_published_eq side_row_def)
  have w: "is_waiting demo_tool_env ?c = Some True"
    by (simp add: is_waiting_def new_call_def obj_get_def before_deadline_def parsed_field_def str_field_def demo_tool_env_def demo_run_env_def)
  have c: "obj_get ?c ''call_id'' = Some (JStr ''c1'')" "obj_get ?c ''state'' = Some (JStr ''waiting'')"
    by (simp_all add: new_call_def obj_get_def)
  have dg: "result_digest demo_tool_env True ''42'' False = ''x''"
    by (simp add: result_digest_def demo_tool_env_def demo_run_env_def)
  have h: "tool_history (with_meta [(''client_tool'', JObj ?c)] demo_tool_job) = []"
    by (simp add: tool_history_def obj_get_def list_or_empty_def)
  have "submit_result demo_tool_env 1 3 ''c1'' True ''42'' False demo_published = (Inr True, set_job 1 (with_meta ?m) demo_published)"
    by (simp add: submit_result_def MAX_RESULT_BYTES_def demo_published_job p g w c dg h AGENT_CAPABILITIES_def)
  then show "submit_result demo_tool_env 1 3 ''c1'' True ''42'' False demo_published = (Inr True, demo_answered)"
    and eq: "find_job 1 demo_answered = Some (with_meta ?m demo_tool_job)" and "find_run 1 demo_answered = Some (side_row demo_new_run 1)"
    using find_job_set_job[OF demo_published_job, of "with_meta ?m"]
    by (simp_all add: demo_answered_def) (simp_all add: demo_published_eq)
qed

definition demo_open_world :: tool_world where
  "demo_open_world = \<lparr>tw_db = demo_published, tw_accepted = [], tw_delivered = []\<rparr>"

lemma demo_open_reachable: "tool_reachable 1 demo_open_world"
proof -
  define w0 where "w0 = \<lparr>tw_db = demo_tool_db, tw_accepted = [], tw_delivered = []\<rparr>"
  have "tool_reachable 1 w0"
    by (rule reach_init) (simp add: tool_start_def w0_def exchange_def obj_get_def tool_history_def list_or_empty_def)
  moreover have "tool_step 1 w0 (w0\<lparr>tw_db := demo_published\<rparr>)"
  proof (rule step_publish)
    show "publish_call demo_tool_env (\<lambda>_. ''t'') 120 (\<lambda>_ _. None) 1 (JStr ''c1'') (JStr ''sum'') (JObj []) [] (tw_db w0) =
      (fst (publish_call demo_tool_env (\<lambda>_. ''t'') 120 (\<lambda>_ _. None) 1 (JStr ''c1'') (JStr ''sum'') (JObj []) [] demo_tool_db), demo_published)"
      by (simp add: w0_def demo_published_def)
  qed
  ultimately have "tool_reachable 1 (w0\<lparr>tw_db := demo_published\<rparr>)" by (rule reach_step)
  then show ?thesis by (simp add: w0_def demo_open_world_def)
qed

lemma demo_waiting_reachable: "tool_reachable 1 demo_waiting_world"
proof -
  have "tool_step 1 demo_open_world (demo_open_world\<lparr>tw_db := demo_answered, tw_accepted := tw_accepted demo_open_world @
      (if (Inr True :: tool_error + bool) = Inr True then [(''c1'', True, ''42'', False)] else [])\<rparr>)"
    by (rule step_submit[of demo_tool_env 1 3]) (simp add: demo_open_world_def demo_submit(1))
  then have "tool_step 1 demo_open_world demo_waiting_world" by (simp add: demo_open_world_def demo_waiting_world_def)
  then show ?thesis using demo_open_reachable by (rule reach_step[rotated])
qed

theorem tool_results_are_delivered_once_witness:
  "length (tw_accepted demo_waiting_world) \<le> 16 \<and>
   fst (take_result (demo_tool_env\<lparr>re_now := 500\<rparr>) 1 ''c1'' [] (tw_db demo_waiting_world)) = Inr (Some (True, ''42'', False))"
proof -
  have "\<not> call_gone 1 demo_answered" by (simp add: call_gone_def demo_submit(3) side_row_def)
  moreover obtain j where "find_job 1 demo_answered = Some j" "j_status j = Running"
    using demo_submit(2) by (simp add: with_meta_def)
  ultimately show ?thesis
    using tool_results_are_delivered_once[OF demo_waiting_reachable, of "''c1''" True "''42''" False j "[]" "demo_tool_env\<lparr>re_now := 500\<rparr>"]
    by (simp add: demo_waiting_world_def fences_hold_def)
qed

end
