(* ===== verification/Attachments.thy ===== *)
theory Attachments
  imports Client_Tools
begin

text \<open>
  \<^verbatim>\<open>agent/attachments.py\<close>: the checks on input images before their bytes reach the workspace of a
  run. The file names a run sees are relative to the workspace. \<open>Inl\<close> carries the text of a
  \<^verbatim>\<open>ValueError\<close>.
\<close>

definition MAX_FILES :: nat where "MAX_FILES = 5"
definition MAX_BYTES :: nat where "MAX_BYTES = 5 * 1024 * 1024"
definition MAX_TOTAL_BYTES :: nat where "MAX_TOTAL_BYTES = 10 * 1024 * 1024"
definition INPUT_DIR :: string where "INPUT_DIR = ''inputs''"

definition IMAGE_TYPES :: "(string \<times> string list) list" where
  "IMAGE_TYPES = [(''image/png'', [''.png'']), (''image/jpeg'', [''.jpg'', ''.jpeg'']),
     (''image/webp'', [''.webp'']), (''image/gif'', [''.gif''])]"

definition file_name_ok :: "string \<Rightarrow> bool" where
  "file_name_ok s \<longleftrightarrow> model_id_ok s \<and> length s \<le> 64"

definition magic_ok :: "string \<Rightarrow> string \<Rightarrow> bool" where
  "magic_ok media_type data =
     (if media_type = ''image/png''
      then starts_with data ([CHR 0x89] @ ''PNG'' @ [CHR 0x0D, CHR 0x0A, CHR 0x1A, CHR 0x0A])
      else if media_type = ''image/jpeg'' then starts_with data [CHR 0xFF, CHR 0xD8, CHR 0xFF]
      else if media_type = ''image/webp'' then take 4 data = ''RIFF'' \<and> take 4 (drop 8 data) = ''WEBP''
      else take 6 data \<in> {''GIF87a'', ''GIF89a''})"

text \<open>
  \<^verbatim>\<open>str(v)\<close> of a field. Requests carry strings; another value fails the checks below in any case,
  only the wording of the error differs.
\<close>

definition field_str :: "json option \<Rightarrow> string" where
  "field_str v = (case v of Some (JStr s) \<Rightarrow> s | None \<Rightarrow> ''None'' | Some JNull \<Rightarrow> ''None'' | _ \<Rightarrow> ''?'')"

definition decode_attachment :: "json \<Rightarrow> string + string" where
  "decode_attachment att =
     (let name = field_str (obj_get (json_obj att) ''name''); mt = field_str (obj_get (json_obj att) ''media_type'') in
      if \<not> file_name_ok name then Inl (py_repr name @ '': invalid file name'')
      else case map_of IMAGE_TYPES mt of
        None \<Rightarrow> Inl (name @ '': media_type '' @ mt @ '' not allowed'')
      | Some exts \<Rightarrow>
          if \<not> list_ex (ends_with (py_lower name)) exts then Inl (name @ '': extension does not match '' @ mt)
          else (case b64decode_strict (case obj_get (json_obj att) ''data_b64'' of
                     Some v \<Rightarrow> if truthy v then field_str (Some v) else [] | None \<Rightarrow> []) of
              None \<Rightarrow> Inl (name @ '': invalid base64'')
            | Some data \<Rightarrow>
                if data = [] \<or> length data > MAX_BYTES
                then Inl (name @ '': empty or larger than '' @ show_nat MAX_BYTES @ '' bytes'')
                else if \<not> magic_ok mt data then Inl (name @ '': content is not a valid '' @ mt)
                else Inr data))"

fun total_bytes :: "json list \<Rightarrow> string + nat" where
  "total_bytes [] = Inr 0"
| "total_bytes (a # as) = (case decode_attachment a of
      Inl e \<Rightarrow> Inl e
    | Inr data \<Rightarrow> map_sum id (\<lambda>n. length data + n) (total_bytes as))"

definition validate_attachments :: "json list \<Rightarrow> string option" where
  "validate_attachments atts =
     (if length atts > MAX_FILES then Some (''at most '' @ show_nat MAX_FILES @ '' attachments'')
      else if \<not> distinct (map (\<lambda>a. obj_get (json_obj a) ''name'') atts) then Some ''attachment names must be unique''
      else case total_bytes atts of
        Inl e \<Rightarrow> Some e
      | Inr n \<Rightarrow> if n > MAX_TOTAL_BYTES then Some (''attachments exceed '' @ show_nat MAX_TOTAL_BYTES @ '' bytes in total'') else None)"

text \<open>The paths the run is given and the bytes written under them.\<close>

definition write_attachments :: "json list \<Rightarrow> string + (string \<times> string) list" where
  "write_attachments atts = (case validate_attachments atts of
      Some e \<Rightarrow> Inl e
    | None \<Rightarrow> Inr (map (\<lambda>a. (INPUT_DIR @ ''/'' @ field_str (obj_get (json_obj a) ''name''), projr (decode_attachment a))) atts))"

section \<open>What is written\<close>

lemma no_image_extension: "map_of IMAGE_TYPES mt = Some exts \<Longrightarrow> \<not> list_ex (ends_with (py_lower ''None'')) exts"
  by (auto simp: IMAGE_TYPES_def ends_with_def py_lower_def split: if_splits)

lemma decode_attachment_Inr:
  assumes "decode_attachment a = Inr data"
  obtains s mt where "obj_get (json_obj a) ''name'' = Some (JStr s)" "file_name_ok s" "magic_ok mt data"
    "data \<noteq> []" "length data \<le> MAX_BYTES"
proof -
  define n where "n = obj_get (json_obj a) ''name''"
  obtain mt exts where f: "file_name_ok (field_str n)" "map_of IMAGE_TYPES mt = Some exts"
      "list_ex (ends_with (py_lower (field_str n))) exts" "magic_ok mt data" "data \<noteq> []" "length data \<le> MAX_BYTES"
    using assms by (auto simp: decode_attachment_def Let_def n_def split: if_splits option.splits)
  have "field_str n \<noteq> ''None''" using f(3) no_image_extension[OF f(2)] by auto
  moreover have "field_str n \<noteq> ''?''" using f(1) by (auto simp: file_name_ok_def model_id_ok_def ascii_alnum_def)
  ultimately obtain s where "n = Some (JStr s)" by (auto simp: field_str_def split: option.splits json.splits)
  then show ?thesis using f that[of s mt] by (simp add: n_def field_str_def)
qed

lemma total_bytes_Inr: "total_bytes as = Inr n \<Longrightarrow> list_all (\<lambda>a. \<exists>data. decode_attachment a = Inr data) as \<and>
    sum_list (map (\<lambda>a. length (projr (decode_attachment a))) as) = n"
proof (induction as arbitrary: n)
  case (Cons a as)
  then obtain data m where "decode_attachment a = Inr data" "total_bytes as = Inr m" "n = length data + m"
    by (cases "decode_attachment a"; cases "total_bytes as") auto
  then show ?case using Cons.IH by simp
qed simp

text \<open>A path of one plain name below the input directory.\<close>

definition inside_inputs :: "string \<Rightarrow> bool" where
  "inside_inputs p \<longleftrightarrow> (\<exists>s. p = INPUT_DIR @ ''/'' @ s \<and> s \<noteq> [] \<and> CHR ''/'' \<notin> set s \<and> s \<noteq> ''.'' \<and> s \<noteq> ''..'')"

lemma file_name_inside: "file_name_ok s \<Longrightarrow> inside_inputs (INPUT_DIR @ ''/'' @ s)"
  by (auto simp: file_name_ok_def model_id_ok_def inside_inputs_def ascii_alnum_def list_all_iff split: list.splits)

text \<open>
  Attachments that are written lie directly in the input directory of the workspace under distinct
  names, hold at most ten megabytes together, and each is a non-empty image of a known type.
\<close>

theorem attachments_stay_in_the_workspace:
  assumes "write_attachments atts = Inr fs"
  shows "length fs \<le> 5 \<and> distinct (map fst fs) \<and> sum_list (map (length \<circ> snd) fs) \<le> 10485760 \<and>
    list_all (\<lambda>(p, data). inside_inputs p \<and> data \<noteq> [] \<and> (\<exists>mt. magic_ok mt data)) fs"
proof -
  let ?name = "\<lambda>a. obj_get (json_obj a) ''name''"
  have v: "validate_attachments atts = None"
    and fs: "fs = map (\<lambda>a. (INPUT_DIR @ ''/'' @ field_str (?name a), projr (decode_attachment a))) atts"
    using assms by (auto simp: write_attachments_def split: option.splits)
  then obtain n where n: "total_bytes atts = Inr n" "n \<le> MAX_TOTAL_BYTES" "length atts \<le> MAX_FILES" "distinct (map ?name atts)"
    by (auto simp: validate_attachments_def split: if_splits sum.splits)
  note sound = total_bytes_Inr[OF n(1)]
  have named: "\<exists>s. ?name a = Some (JStr s) \<and> file_name_ok s" and data: "projr (decode_attachment a) \<noteq> [] \<and> (\<exists>mt. magic_ok mt (projr (decode_attachment a)))"
    if a: "a \<in> set atts" for a
  proof -
    obtain data where d: "decode_attachment a = Inr data" using sound a by (auto simp: list_all_iff)
    from d show "\<exists>s. ?name a = Some (JStr s) \<and> file_name_ok s" by (rule decode_attachment_Inr) blast
    from d show "projr (decode_attachment a) \<noteq> [] \<and> (\<exists>mt. magic_ok mt (projr (decode_attachment a)))"
      by (rule decode_attachment_Inr) (auto simp: d)
  qed
  have "inj_on (field_str \<circ> ?name) (set atts)"
  proof (rule inj_onI)
    fix a b assume ab: "a \<in> set atts" "b \<in> set atts" "(field_str \<circ> ?name) a = (field_str \<circ> ?name) b"
    then have "?name a = ?name b" using named[OF ab(1)] named[OF ab(2)] by (auto simp: field_str_def)
    then show "a = b" using n(4) ab by (simp add: distinct_map inj_on_def)
  qed
  then have "distinct (map fst fs)" using n(4) by (simp add: fs distinct_map inj_on_def comp_def)
  moreover have "list_all (\<lambda>(p, data). inside_inputs p \<and> data \<noteq> [] \<and> (\<exists>mt. magic_ok mt data)) fs"
    using named data file_name_inside by (fastforce simp: fs list_all_iff field_str_def)
  moreover have "sum_list (map (length \<circ> snd) fs) = n" using sound by (simp add: fs comp_def)
  ultimately show ?thesis using n by (simp add: fs MAX_FILES_def MAX_TOTAL_BYTES_def)
qed

end
