(* ===== verification/Agent_Executor.thy ===== *)
theory Agent_Executor
  imports Attachments
begin

text \<open>
  \<^verbatim>\<open>agent/executor.py\<close> with the refresh proof of \<^verbatim>\<open>agent/codex_refresh_proof.py\<close>: one claimed run, from
  its guards to its terminal event. Every database transaction is a step; \<open>xw_between\<close> is what other
  parties do to the database before it, \<open>xw_env\<close> its clock and libraries. The command line tool is
  the record \<open>cli\<close>: what it reports about itself and the events it emits. A step returns a value or
  raises; \<open>XRunning\<close> says that the schedule given (\<open>xw_ticks\<close>, \<open>xw_polls\<close>) ends before the run does.
\<close>

section \<open>Steps\<close>

datatype exec_error = XStale | XAuthCancelled | XAuthBusy | XRun run_error | XKeyError string | XRunning

text \<open>\<open>xs_cli\<close>: the tool was started; \<open>xs_stopped\<close>: it was told to stop; \<open>xs_gate\<close>: the held refresh lease.\<close>

record exec_state =
  xs_db :: run_db
  xs_step :: nat
  xs_proof :: "(instant \<times> secs) option"
  xs_workspace :: bool
  xs_cli :: bool
  xs_stopped :: bool
  xs_gate :: "Lease option"

type_synonym 'a exec = "exec_state \<Rightarrow> (exec_error + 'a) \<times> exec_state"

definition ereturn :: "'a \<Rightarrow> 'a exec" where
  "ereturn x s = (Inr x, s)"

definition eraise :: "exec_error \<Rightarrow> 'a exec" where
  "eraise e s = (Inl e, s)"

definition ebind :: "'a exec \<Rightarrow> ('a \<Rightarrow> 'b exec) \<Rightarrow> 'b exec" where
  "ebind m f s = (case m s of (Inl e, s') \<Rightarrow> (Inl e, s') | (Inr x, s') \<Rightarrow> f x s')"

definition ecatch :: "'a exec \<Rightarrow> (exec_error \<Rightarrow> 'a exec) \<Rightarrow> 'a exec" where
  "ecatch m h s = (case m s of (Inl e, s') \<Rightarrow> h e s' | (Inr x, s') \<Rightarrow> (Inr x, s'))"

definition efinally :: "'a exec \<Rightarrow> (exec_state \<Rightarrow> exec_state) \<Rightarrow> 'a exec" where
  "efinally m g s = (case m s of (r, s') \<Rightarrow> if r = Inl XRunning then (r, s') else (r, g s'))"

section \<open>What the run meets\<close>

record exec_config =
  xc_workspace_root :: string
  xc_cancel_poll_s :: secs
  xc_session_busy_delay_s :: secs
  xc_session_busy_max :: int
  xc_lease_ttl_s :: secs
  xc_paid_off :: bool
  xc_codex_paid_off :: bool
  xc_codex_auth_wait_s :: secs
  xc_refresh_due_after_s :: secs
  xc_refresh_proof_s :: secs
  xc_refresh_proof_max_age_s :: secs
  xc_quota_backoff_base_s :: secs
  xc_quota_backoff_cap_s :: secs
  xc_env :: "(string \<times> string) list"

text \<open>
  \<open>cl_billing = None\<close>: the probe raises; \<open>cl_models = None\<close>: no readable catalog. The collectors of
  files and images read the file system and are given by their results.
\<close>

record run_spec =
  sp_run_id :: int
  sp_capability :: string
  sp_prompt :: json
  sp_workspace :: string
  sp_account_id :: string
  sp_session_id :: "string option"
  sp_allowed_tools :: "json list"
  sp_model :: "string option"
  sp_attachments :: "string list"
  sp_client_tools :: "json list"
  sp_tool_choice :: json
  sp_fence_leases :: "Lease list"
  sp_no_shell :: bool

record cli =
  cl_codex :: bool
  cl_supports_resume :: bool
  cl_billing :: "string option"
  cl_attestation :: "(string \<times> string) option"
  cl_models :: "string list option"
  cl_last_refresh :: "nat \<Rightarrow> instant option"
  cl_events :: "run_spec \<Rightarrow> agent_event list"
  cl_crash :: "string option"
  cl_collect :: "string list \<Rightarrow> file_meta list"
  cl_images :: "file_meta list"
  cl_out_images :: "file_meta list \<Rightarrow> file_meta list \<Rightarrow> file_meta list"

text \<open>One turn of the stream loop: its clock, the flags it sees, whether an event arrives in time.\<close>

record tick =
  tk_now :: secs
  tk_lost :: bool
  tk_gate_lost :: bool
  tk_ready :: bool
  tk_after :: secs

record exec_world =
  xw_between :: "nat \<Rightarrow> run_db \<Rightarrow> run_db"
  xw_env :: "nat \<Rightarrow> run_env"
  xw_isof :: "instant \<Rightarrow> string"
  xw_mono :: "nat \<Rightarrow> secs"
  xw_polls :: nat
  xw_ticks :: "tick list"
  xw_gate_lost :: bool
  xw_settings :: sub_settings
  xw_allowed :: string
  xw_policy :: string
  xw_snapshot :: access_snapshot
  xw_rows :: "(int \<times> bool \<times> json \<times> json) list option"
  xw_project_cap :: "rat option"
  xw_adapter :: "string \<Rightarrow> cli option"

definition tx :: "exec_world \<Rightarrow> (run_env \<Rightarrow> run_db \<Rightarrow> (exec_error + 'a) \<times> run_db) \<Rightarrow> 'a exec" where
  "tx W f s = (case f (xw_env W (xs_step s)) (xw_between W (xs_step s) (xs_db s)) of
      (r, d) \<Rightarrow> (r, s\<lparr>xs_db := d, xs_step := Suc (xs_step s)\<rparr>))"

definition lift_error :: "run_error + 'a \<Rightarrow> exec_error + 'a" where
  "lift_error = map_sum (\<lambda>e. if e = StaleLease then XStale else XRun e) id"

definition write_event :: "exec_world \<Rightarrow> int \<Rightarrow> agent_event \<Rightarrow> Lease option \<Rightarrow> int exec" where
  "write_event W i ev lease = tx W (\<lambda>e d. case append_event e i ev lease False d of (r, d') \<Rightarrow> (lift_error r, d'))"

definition save_usage :: "exec_world \<Rightarrow> int \<Rightarrow> run_totals \<Rightarrow> string option \<Rightarrow> Lease option \<Rightarrow> unit exec" where
  "save_usage W i totals mode lease = tx W (\<lambda>e d. case run_usage i totals mode lease d of (r, d') \<Rightarrow> (lift_error r, d'))"

definition is_conflict :: "exec_error \<Rightarrow> bool" where
  "is_conflict e = (case e of XRun (RunConflict _) \<Rightarrow> True | _ \<Rightarrow> False)"

definition no_totals :: run_totals where
  "no_totals = \<lparr>ut_input_tokens = None, ut_output_tokens = None, ut_cache_read_tokens = None, ut_turns = None,
     ut_total_tokens = None, ut_reasoning_tokens = None\<rparr>"

definition finish_run :: "exec_world \<Rightarrow> int \<Rightarrow> agent_event \<Rightarrow> run_totals \<Rightarrow> string option \<Rightarrow> Lease option \<Rightarrow> string exec" where
  "finish_run W i ev totals mode lease =
     ebind (save_usage W i totals mode lease) (\<lambda>_.
     ebind (ecatch (write_event W i ev lease) (\<lambda>e. if is_conflict e then ereturn 0 else eraise e)) (\<lambda>_.
     ereturn (the (map_of OUTCOME_BY_TYPE (event_type ev)))))"

definition run_cancel_flag :: "exec_world \<Rightarrow> int \<Rightarrow> bool exec" where
  "run_cancel_flag W i = tx W (\<lambda>e d. (Inr (case find_run i d of Some r \<Rightarrow> rn_cancel_requested r | None \<Rightarrow> False), d))"

definition put_back :: "exec_world \<Rightarrow> exec_config \<Rightarrow> int \<Rightarrow> int exec" where
  "put_back W cfg i = tx W (\<lambda>e d. case requeue_run (re_now e) i (xc_session_busy_delay_s cfg) d of (n, d') \<Rightarrow> (Inr n, d'))"

definition lock_session :: "exec_world \<Rightarrow> exec_config \<Rightarrow> string \<Rightarrow> string \<Rightarrow> int \<Rightarrow> Lease option exec" where
  "lock_session W cfg account session i =
     tx W (\<lambda>e d. case acquire_lease (re_now e) (xc_lease_ttl_s cfg) account session i (rd_leases d) of
       (l, rows) \<Rightarrow> (Inr l, d\<lparr>rd_leases := rows\<rparr>))"

definition unlock_session :: "exec_world \<Rightarrow> Lease \<Rightarrow> exec_state \<Rightarrow> exec_state" where
  "unlock_session W l s = snd (tx W (\<lambda>e d. (Inr (), d\<lparr>rd_leases := release_lease (re_now e) l (rd_leases d)\<rparr>)) s)"

section \<open>The refresh gate\<close>

definition refresh_due :: "instant \<Rightarrow> secs \<Rightarrow> instant option \<Rightarrow> bool" where
  "refresh_due now after_s seen = (case seen of None \<Rightarrow> True | Some t \<Rightarrow> now - t \<ge> after_s)"

definition proof_record :: "instant option \<Rightarrow> instant option \<Rightarrow> secs \<Rightarrow> (instant \<times> secs) option \<Rightarrow> (instant \<times> secs) option" where
  "proof_record before after tick_s p = (case before of
      Some t \<Rightarrow> if after = Some t then Some (t, tick_s) else p | None \<Rightarrow> p)"

definition proof_covers :: "instant option \<Rightarrow> secs \<Rightarrow> secs \<Rightarrow> instant \<Rightarrow> secs \<Rightarrow> (instant \<times> secs) option \<Rightarrow> bool" where
  "proof_covers seen window_s max_age_s now tick_s p = (case (seen, p) of
      (Some t, Some (t', proven_at)) \<Rightarrow>
        if window_s \<le> 0 \<or> t \<noteq> t' then False else if now - t \<ge> max_age_s then False else tick_s - proven_at \<le> window_s
    | _ \<Rightarrow> False)"

definition close_gate :: "exec_world \<Rightarrow> exec_state \<Rightarrow> exec_state" where
  "close_gate W s = (case xs_gate s of None \<Rightarrow> s | Some l \<Rightarrow> (unlock_session W l s)\<lparr>xs_gate := None\<rparr>)"

fun auth_attempts :: "exec_world \<Rightarrow> exec_config \<Rightarrow> int \<Rightarrow> secs \<Rightarrow> nat \<Rightarrow> unit exec" where
  "auth_attempts W cfg i deadline 0 = eraise XRunning"
| "auth_attempts W cfg i deadline (Suc n) =
     ebind (lock_session W cfg ''__codex_auth__'' ''refresh'' i) (\<lambda>l. case l of
        Some lease \<Rightarrow> (\<lambda>s. (Inr (), s\<lparr>xs_gate := Some lease\<rparr>))
      | None \<Rightarrow> ebind (run_cancel_flag W i) (\<lambda>cancelled s.
          if cancelled then (Inl XAuthCancelled, s)
          else if xw_mono W (xs_step s) \<ge> deadline then (Inl XAuthBusy, s)
          else auth_attempts W cfg i deadline n s))"

text \<open>The value is the timestamp of the login when the gate was taken.\<close>

definition codex_auth_gate :: "exec_world \<Rightarrow> exec_config \<Rightarrow> cli \<Rightarrow> int \<Rightarrow> instant option exec" where
  "codex_auth_gate W cfg cl i s =
     (let seen = cl_last_refresh cl (xs_step s); now = re_now (xw_env W (xs_step s)); tick_s = xw_mono W (xs_step s) in
      if \<not> cl_codex cl then (Inr None, s)
      else if \<not> refresh_due now (xc_refresh_due_after_s cfg) seen then (Inr None, s)
      else if proof_covers seen (xc_refresh_proof_s cfg) (xc_refresh_proof_max_age_s cfg) now tick_s (xs_proof s) then (Inr None, s)
      else ebind (auth_attempts W cfg i (tick_s + xc_codex_auth_wait_s cfg) (xw_polls W)) (\<lambda>_. ereturn seen) s)"

section \<open>The stream\<close>

datatype queue_item = QEvent agent_event | QEnd

definition pump :: "cli \<Rightarrow> run_spec \<Rightarrow> queue_item list" where
  "pump cl sp = map QEvent (cl_events cl sp) @
     (case cl_crash cl of None \<Rightarrow> [] | Some msg \<Rightarrow> [QEvent (RunFailed ''adapter_error'' (char_take 500 msg) None)]) @ [QEnd]"

definition AUTH_LEASE_LOST :: agent_event where
  "AUTH_LEASE_LOST = RunFailed ''codex_auth_busy'' ''the Codex auth-refresh start-up lease was lost'' None"

record stream_state =
  sm_queue :: "queue_item list"
  sm_last :: secs
  sm_last_poll :: secs
  sm_totals :: run_totals
  sm_changed :: "string list"

definition add_total :: "int option \<Rightarrow> int option \<Rightarrow> int option" where
  "add_total old new = (case new of None \<Rightarrow> old | Some v \<Rightarrow> Some (opt_or old 0 + v))"

definition add_usage_event :: "usage_report \<Rightarrow> run_totals \<Rightarrow> run_totals" where
  "add_usage_event u t = \<lparr>ut_input_tokens = add_total (ut_input_tokens t) (us_input_tokens u),
     ut_output_tokens = add_total (ut_output_tokens t) (us_output_tokens u),
     ut_cache_read_tokens = add_total (ut_cache_read_tokens t) (us_cache_read_tokens u),
     ut_turns = add_total (ut_turns t) (us_turns u),
     ut_total_tokens = add_total (ut_total_tokens t) (us_total_tokens u),
     ut_reasoning_tokens = add_total (ut_reasoning_tokens t) (us_reasoning_tokens u)\<rparr>"

definition note_item :: "agent_event \<Rightarrow> stream_state \<Rightarrow> stream_state" where
  "note_item ev m = (case ev of
      UsageReported u \<Rightarrow> m\<lparr>sm_totals := add_usage_event u (sm_totals m)\<rparr>
    | FileChanged path action \<Rightarrow> if action \<noteq> ''deleted'' then m\<lparr>sm_changed := sm_changed m @ [path]\<rparr> else m
    | _ \<Rightarrow> m)"

definition proves_model_call :: "agent_event \<Rightarrow> bool" where
  "proves_model_call ev = (case ev of MessageDelta _ \<Rightarrow> True | ToolCall _ _ _ \<Rightarrow> True | UsageReported _ \<Rightarrow> True | _ \<Rightarrow> False)"

definition ends_stream :: "agent_event \<Rightarrow> bool" where
  "ends_stream ev = (case ev of RunCompleted _ _ \<Rightarrow> True | RunFailed _ _ _ \<Rightarrow> True | RunCancelled \<Rightarrow> True | _ \<Rightarrow> False)"

text \<open>The first event after a model call proves the login and opens the gate.\<close>

definition open_gate :: "exec_world \<Rightarrow> cli \<Rightarrow> instant option \<Rightarrow> agent_event \<Rightarrow> exec_state \<Rightarrow> exec_state" where
  "open_gate W cl seen ev s =
     (if xs_gate s = None \<or> \<not> proves_model_call ev then s
      else close_gate W (if cl_codex cl
        then s\<lparr>xs_proof := proof_record seen (cl_last_refresh cl (xs_step s)) (xw_mono W (xs_step s)) (xs_proof s)\<rparr> else s))"

text \<open>\<open>StreamOver t lease_lost stop_cli\<close>: the loop was left with terminal event \<open>t\<close>.\<close>

datatype turn = StreamOver "agent_event option" bool bool | Again

definition poll_cancel :: "exec_world \<Rightarrow> int \<Rightarrow> secs \<Rightarrow> secs \<Rightarrow> secs \<Rightarrow> tick \<Rightarrow> exec_config \<Rightarrow> stream_state \<Rightarrow> (agent_event option \<times> stream_state) exec" where
  "poll_cancel W i t0 wall_s idle_s tk cfg m =
     (if tk_now tk - t0 \<ge> wall_s then ereturn (Some (RunTimedOut ''wall''), m)
      else if tk_now tk - sm_last m \<ge> idle_s then ereturn (Some (RunTimedOut ''idle''), m)
      else if tk_now tk - sm_last_poll m \<ge> xc_cancel_poll_s cfg
      then ebind (run_cancel_flag W i) (\<lambda>c. ereturn (if c then Some RunCancelled else None, m\<lparr>sm_last_poll := tk_now tk\<rparr>))
      else ereturn (None, m))"

definition take_item :: "exec_world \<Rightarrow> cli \<Rightarrow> instant option \<Rightarrow> int \<Rightarrow> Lease option \<Rightarrow> tick \<Rightarrow> stream_state \<Rightarrow> (turn \<times> stream_state) exec" where
  "take_item W cl seen i lease tk m =
     (if \<not> tk_ready tk then ereturn (Again, m)
      else case sm_queue m of
        [] \<Rightarrow> ereturn (Again, m)
      | QEnd # q \<Rightarrow> ereturn (StreamOver None False False, m\<lparr>sm_queue := q\<rparr>)
      | QEvent ev # q \<Rightarrow>
          (let m1 = m\<lparr>sm_queue := q, sm_last := tk_after tk\<rparr> in
           ebind (\<lambda>s. (Inr (), open_gate W cl seen ev s)) (\<lambda>_.
           if ends_stream ev then ereturn (StreamOver (Some ev) False False, m1)
           else ebind (write_event W i ev lease) (\<lambda>_. ereturn (Again, note_item ev m1)))))"

definition stream_turn ::
  "exec_world \<Rightarrow> exec_config \<Rightarrow> cli \<Rightarrow> instant option \<Rightarrow> int \<Rightarrow> Lease option \<Rightarrow> secs \<Rightarrow> secs \<Rightarrow> secs \<Rightarrow> tick \<Rightarrow> stream_state
    \<Rightarrow> (turn \<times> stream_state) exec" where
  "stream_turn W cfg cl seen i lease t0 wall_s idle_s tk m s =
     (if lease \<noteq> None \<and> tk_lost tk then (Inr (StreamOver None True False, m), s)
      else if xs_gate s \<noteq> None \<and> tk_gate_lost tk then (Inr (StreamOver (Some AUTH_LEASE_LOST) False True, m), s)
      else ebind (poll_cancel W i t0 wall_s idle_s tk cfg m) (\<lambda>(t, m1). case t of
          Some ev \<Rightarrow> ereturn (StreamOver (Some ev) False False, m1)
        | None \<Rightarrow> take_item W cl seen i lease tk m1) s)"

fun stream_loop ::
  "exec_world \<Rightarrow> exec_config \<Rightarrow> cli \<Rightarrow> instant option \<Rightarrow> int \<Rightarrow> Lease option \<Rightarrow> secs \<Rightarrow> secs \<Rightarrow> secs \<Rightarrow> tick list \<Rightarrow> stream_state
    \<Rightarrow> (agent_event option \<times> bool \<times> bool \<times> stream_state) exec" where
  "stream_loop W cfg cl seen i lease t0 wall_s idle_s [] m = eraise XRunning"
| "stream_loop W cfg cl seen i lease t0 wall_s idle_s (tk # tks) m =
     ebind (stream_turn W cfg cl seen i lease t0 wall_s idle_s tk m) (\<lambda>(turn, m1). case turn of
        StreamOver t lost stop_cli \<Rightarrow> ereturn (t, lost, stop_cli, m1)
      | Again \<Rightarrow> stream_loop W cfg cl seen i lease t0 wall_s idle_s tks m1)"

text \<open>The \<^verbatim>\<open>finally\<close> of the stream: the tool is stopped where it may still run, then the gate opens.\<close>

definition must_stop :: "agent_event option \<Rightarrow> bool \<Rightarrow> exec_state \<Rightarrow> bool" where
  "must_stop t stop_cli s \<longleftrightarrow> t = None \<or> stop_cli \<or> xs_gate s \<noteq> None \<or>
     (case t of Some RunCancelled \<Rightarrow> True | Some (RunTimedOut _) \<Rightarrow> True | _ \<Rightarrow> False)"

definition stop_stream :: "exec_world \<Rightarrow> agent_event option \<Rightarrow> bool \<Rightarrow> exec_state \<Rightarrow> exec_state" where
  "stop_stream W t stop_cli s = close_gate W (if must_stop t stop_cli s then s\<lparr>xs_stopped := True\<rparr> else s)"

definition withdraw_call :: "exec_world \<Rightarrow> int \<Rightarrow> exec_state \<Rightarrow> exec_state" where
  "withdraw_call W i s = snd (tx W (\<lambda>e d. (Inr (), clear_pending_call i d)) s)"

definition run_stream ::
  "exec_world \<Rightarrow> exec_config \<Rightarrow> cli \<Rightarrow> run_spec \<Rightarrow> instant option \<Rightarrow> int \<Rightarrow> Lease option \<Rightarrow> secs \<Rightarrow> secs
    \<Rightarrow> (agent_event \<times> string list \<times> run_totals) exec" where
  "run_stream W cfg cl sp seen i lease wall_s idle_s s =
     (let t0 = xw_mono W (xs_step s); s0 = s\<lparr>xs_cli := True\<rparr>;
          m0 = \<lparr>sm_queue = pump cl sp, sm_last = t0, sm_last_poll = t0, sm_totals = no_totals, sm_changed = []\<rparr>
      in case stream_loop W cfg cl seen i lease t0 wall_s idle_s (xw_ticks W) m0 s0 of
           (Inl XRunning, s1) \<Rightarrow> (Inl XRunning, s1)
         | (Inl e, s1) \<Rightarrow> (Inl e, stop_stream W None False s1)
         | (Inr (t, lost, stop_cli, m), s1) \<Rightarrow>
             (let s2 = stop_stream W t stop_cli s1 in
              if lost then (Inl XStale, withdraw_call W i s2)
              else (Inr (opt_or t (RunFailed ''no_terminal_event'' [] None), sm_changed m, sm_totals m), s2)))"

section \<open>The run\<close>

definition check_model :: "cli \<Rightarrow> string option \<Rightarrow> agent_event option" where
  "check_model cl model = (case model of
      None \<Rightarrow> None
    | Some m \<Rightarrow> if m = [] \<or> m = ''latest'' then None
        else case cl_models cl of
          None \<Rightarrow> None
        | Some ids \<Rightarrow> if m \<notin> set ids
            then Some (RunFailed ''model_unavailable'' (''model '' @ py_repr m @ '' is not in the CLI catalog'') None) else None)"

definition job_deadline :: "DeepJobRow \<Rightarrow> instant" where
  "job_deadline j = j_created_at j + number_of (obj_get (j_request j) ''deadline_s'') 21600"

definition quota_reset :: "run_env \<Rightarrow> string option \<Rightarrow> instant option" where
  "quota_reset e reset_at = (case reset_at of None \<Rightarrow> None | Some t \<Rightarrow> if t = [] then None else re_parse e t)"

definition quota_delay :: "exec_config \<Rightarrow> instant \<Rightarrow> instant option \<Rightarrow> int \<Rightarrow> secs" where
  "quota_delay cfg now reset waits = (case reset of
      Some t \<Rightarrow> max 0 (t - now) + 5
    | None \<Rightarrow> min (xc_quota_backoff_base_s cfg * 2 ^ nat waits) (xc_quota_backoff_cap_s cfg))"

text \<open>\<open>msg\<close> and \<open>reset_at\<close> are those of the failure the tool reported.\<close>

definition wait_for_quota ::
  "exec_world \<Rightarrow> exec_config \<Rightarrow> AgentRunRow \<Rightarrow> DeepJobRow \<Rightarrow> string \<Rightarrow> string option \<Rightarrow> run_totals \<Rightarrow> string \<Rightarrow> Lease option
    \<Rightarrow> string exec" where
  "wait_for_quota W cfg r j msg reset_at totals mode lease s =
     (let e = xw_env W (xs_step s); now = re_now e; reset = quota_reset e reset_at;
          not_before = now + quota_delay cfg now reset (rn_quota_waits r) in
      if not_before \<ge> job_deadline j
      then finish_run W (rn_run_id r) (RunFailed ''quota_exhausted''
             (msg @ '' ('' @ (if reset \<noteq> None then ''reset '' @ opt_or reset_at [] else ''next retry '' @ xw_isof W not_before @ ''Z'') @
              '' is past the job deadline)'') reset_at) totals (Some mode) lease s
      else ebind (save_usage W (rn_run_id r) totals (Some mode) lease) (\<lambda>_.
           ebind (tx W (\<lambda>e d. case park_for_quota e (rn_run_id r) not_before (xw_isof W not_before @ ''Z'') (reset \<noteq> None) lease
                                     (char_take 300 msg) d of (x, d') \<Rightarrow> (lift_error x, d'))) (\<lambda>_.
           ereturn ''waiting_quota'')) s)"

definition file_path :: "file_meta \<Rightarrow> string" where
  "file_path f = str_at f ''path''"

text \<open>What is reported: a missing model names the model asked for, an answer carries its collected files.\<close>

definition final_event :: "cli \<Rightarrow> AgentRunRow \<Rightarrow> string list \<Rightarrow> agent_event \<Rightarrow> agent_event" where
  "final_event cl r changed t = (case t of
      RunFailed c msg reset_at \<Rightarrow>
        if c = ''model_unavailable'' \<and> given (rn_model r)
        then RunFailed ''model_unavailable'' (opt_or (rn_model r) [] @ '' is not available on this subscription account ('' @
               char_take 500 msg @ '')'') None
        else t
    | RunCompleted answer fs \<Rightarrow>
        (let files = cl_collect cl (changed @ map file_path fs) in
         RunCompleted answer (files @ cl_images cl @ cl_out_images cl files (cl_images cl)))
    | _ \<Rightarrow> t)"

definition end_run ::
  "exec_world \<Rightarrow> exec_config \<Rightarrow> cli \<Rightarrow> AgentRunRow \<Rightarrow> DeepJobRow \<Rightarrow> string \<Rightarrow> Lease option
    \<Rightarrow> agent_event \<times> string list \<times> run_totals \<Rightarrow> string exec" where
  "end_run W cfg cl r j mode lease res = (case res of (t, changed, totals) \<Rightarrow>
     (case t of
        RunFailed c msg reset_at \<Rightarrow>
          if c = ''quota_exhausted'' then wait_for_quota W cfg r j msg reset_at totals mode lease
          else finish_run W (rn_run_id r) (final_event cl r changed t) totals (Some mode) lease
      | _ \<Rightarrow> finish_run W (rn_run_id r) (final_event cl r changed t) totals (Some mode) lease))"

definition verified_off :: "exec_config \<Rightarrow> AgentRunRow \<Rightarrow> bool" where
  "verified_off cfg r = (if rn_capability r = ''agent:codex'' then xc_codex_paid_off cfg else xc_paid_off cfg)"

definition billing_verdict :: "exec_config \<Rightarrow> cli \<Rightarrow> AgentRunRow \<Rightarrow> DeepJobRow \<Rightarrow> string \<times> agent_event option" where
  "billing_verdict cfg cl r j =
     check_billing_mode (rn_capability r) (cl_billing cl) (xc_env cfg) (opt_or (str_field (j_request j) ''run_mode'') ''autonomous'')
       (case obj_get (j_request j) ''accept_paid_continuation_risk'' of Some v \<Rightarrow> truthy v | None \<Rightarrow> False) (verified_off cfg r)"

definition no_attestation :: agent_event where
  "no_attestation = RunFailed ''billing_mode_refused'' ''no auth attestation from the CLI probe'' None"

definition stream_limits :: "DeepJobRow \<Rightarrow> secs \<times> secs" where
  "stream_limits j =
     (let wall = number_of (obj_get (j_request j) ''wall_timeout_s'') 1800
      in (wall, if tools_of j \<noteq> [] then wall else number_of (obj_get (j_request j) ''idle_timeout_s'') 300))"

definition workspace_path :: "string \<Rightarrow> int \<Rightarrow> string" where
  "workspace_path base i = base @ ''/run-'' @ show_int i"

text \<open>
  What the tool is told. A question from the public comparison page, known by its label, can only
  lose the shell.
\<close>

definition spec_of :: "exec_config \<Rightarrow> AgentRunRow \<Rightarrow> DeepJobRow \<Rightarrow> Lease option \<Rightarrow> json \<Rightarrow> string list \<Rightarrow> run_spec" where
  "spec_of cfg r j lease prompt attached = \<lparr>sp_run_id = rn_run_id r, sp_capability = rn_capability r, sp_prompt = prompt,
     sp_workspace = workspace_path (xc_workspace_root cfg) (rn_run_id r), sp_account_id = rn_account_id r,
     sp_session_id = rn_resume_session_id r, sp_allowed_tools = list_or_empty (obj_get (j_request j) ''allowed_tools''),
     sp_model = rn_model r, sp_attachments = attached, sp_client_tools = tools_of j, sp_tool_choice = choice_of j,
     sp_fence_leases = (case lease of Some l \<Rightarrow> [l] | None \<Rightarrow> []),
     sp_no_shell = ((case obj_get (client_job_of j) ''no_shell'' of Some v \<Rightarrow> truthy v | None \<Rightarrow> False) \<or>
       (case j_labels j of Some ls \<Rightarrow> map_of ls ''page'' = Some ''compare'' | None \<Rightarrow> False))\<rparr>"

text \<open>After the attestation: model, attachments, a last look at the gate, then the tool itself.\<close>

definition start_cli ::
  "exec_world \<Rightarrow> exec_config \<Rightarrow> cli \<Rightarrow> AgentRunRow \<Rightarrow> DeepJobRow \<Rightarrow> string \<Rightarrow> Lease option \<Rightarrow> instant option \<Rightarrow> string exec" where
  "start_cli W cfg cl r j mode lease seen =
     (case check_model cl (rn_model r) of
        Some bad \<Rightarrow> finish_run W (rn_run_id r) bad no_totals (Some mode) lease
      | None \<Rightarrow> (case write_attachments (list_or_empty (obj_get (j_request j) ''attachments'')) of
          Inl err \<Rightarrow> finish_run W (rn_run_id r) (RunFailed ''attachment_invalid'' (char_take 500 err) None) no_totals (Some mode) lease
        | Inr attached \<Rightarrow> (case obj_get (j_request j) ''prompt'' of
            None \<Rightarrow> eraise (XKeyError ''prompt'')
          | Some prompt \<Rightarrow> (\<lambda>s. if xs_gate s \<noteq> None \<and> xw_gate_lost W
              then finish_run W (rn_run_id r) AUTH_LEASE_LOST no_totals (Some mode) lease s
              else ebind (run_stream W cfg cl (spec_of cfg r j lease prompt (map fst attached)) seen (rn_run_id r) lease
                     (fst (stream_limits j)) (snd (stream_limits j)))
                   (end_run W cfg cl r j mode lease) s))))"

text \<open>The first write of a drive: a stale holder does not even record its workspace.\<close>

definition note_workspace :: "exec_world \<Rightarrow> exec_config \<Rightarrow> int \<Rightarrow> Lease option \<Rightarrow> unit exec" where
  "note_workspace W cfg i lease = tx W (\<lambda>e d. if check_fence lease (rd_leases d)
     then (Inr (), set_run i (\<lambda>r. r\<lparr>rn_workspace := Some (workspace_path (xc_workspace_root cfg) i)\<rparr>) d) else (Inl XStale, d))"

definition drive_body ::
  "exec_world \<Rightarrow> exec_config \<Rightarrow> cli \<Rightarrow> AgentRunRow \<Rightarrow> DeepJobRow \<Rightarrow> Lease option \<Rightarrow> instant option \<Rightarrow> string exec" where
  "drive_body W cfg cl r j lease seen =
     ebind (note_workspace W cfg (rn_run_id r) lease) (\<lambda>_.
     ebind (write_event W (rn_run_id r) (RunStarted (rn_capability r) (rn_account_id r) (rn_resume_session_id r)) lease) (\<lambda>_.
     if given (rn_resume_session_id r) \<and> \<not> cl_supports_resume cl
     then finish_run W (rn_run_id r) (RunFailed ''resume_unsupported'' [] None) no_totals (Some ''unverified'') lease
     else (case billing_verdict cfg cl r j of (mode, refused) \<Rightarrow>
       (case (refused, cl_attestation cl) of
          (Some ev, _) \<Rightarrow> finish_run W (rn_run_id r) ev no_totals (Some mode) lease
        | (None, None) \<Rightarrow> finish_run W (rn_run_id r) no_attestation no_totals (Some mode) lease
        | (None, Some (auth_method, api_provider)) \<Rightarrow>
            ebind (write_event W (rn_run_id r) (BillingAttested auth_method api_provider (verified_off cfg r) (xw_project_cap W)
                     (Some (rn_account_id r))) lease) (\<lambda>_.
            start_cli W cfg cl r j mode lease seen)))))"

definition drive_held_gate ::
  "exec_world \<Rightarrow> exec_config \<Rightarrow> cli \<Rightarrow> AgentRunRow \<Rightarrow> DeepJobRow \<Rightarrow> Lease option \<Rightarrow> instant option \<Rightarrow> string exec" where
  "drive_held_gate W cfg cl r j lease seen s =
     efinally (drive_body W cfg cl r j lease seen) (\<lambda>s. s\<lparr>xs_workspace := False\<rparr>) (s\<lparr>xs_workspace := True\<rparr>)"

definition drive :: "exec_world \<Rightarrow> exec_config \<Rightarrow> cli \<Rightarrow> AgentRunRow \<Rightarrow> DeepJobRow \<Rightarrow> Lease option \<Rightarrow> string exec" where
  "drive W cfg cl r j lease =
     ebind (codex_auth_gate W cfg cl (rn_run_id r)) (\<lambda>seen.
     efinally (\<lambda>s. if xs_gate s \<noteq> None
        then ebind (run_cancel_flag W (rn_run_id r)) (\<lambda>c. if c then finish_run W (rn_run_id r) RunCancelled no_totals None lease
               else drive_held_gate W cfg cl r j lease seen) s
        else drive_held_gate W cfg cl r j lease seen s) (close_gate W))"

definition held_drive :: "exec_world \<Rightarrow> exec_config \<Rightarrow> cli \<Rightarrow> AgentRunRow \<Rightarrow> DeepJobRow \<Rightarrow> Lease option \<Rightarrow> string option exec" where
  "held_drive W cfg cl r j lease =
     ecatch (ebind (drive W cfg cl r j lease) (\<lambda>out. ereturn (Some out))) (\<lambda>e.
       if e = XStale then ereturn None
       else if e = XAuthCancelled then ebind (finish_run W (rn_run_id r) RunCancelled no_totals None lease) (\<lambda>out. ereturn (Some out))
       else if e = XAuthBusy then
         ebind (run_cancel_flag W (rn_run_id r)) (\<lambda>c.
           if c then ebind (finish_run W (rn_run_id r) RunCancelled no_totals None lease) (\<lambda>out. ereturn (Some out))
           else ebind (put_back W cfg (rn_run_id r)) (\<lambda>n.
             if n > xc_session_busy_max cfg
             then ebind (finish_run W (rn_run_id r) (RunFailed ''codex_auth_busy''
                    ''the Codex auth-refresh start-up lease stayed taken'' None) no_totals None lease) (\<lambda>out. ereturn (Some out))
             else ereturn None))
       else eraise e)"

definition execute_with_session ::
  "exec_world \<Rightarrow> exec_config \<Rightarrow> cli \<Rightarrow> AgentRunRow \<Rightarrow> DeepJobRow \<Rightarrow> string option exec" where
  "execute_with_session W cfg cl r j =
     (if \<not> given (rn_resume_session_id r) then held_drive W cfg cl r j None
      else ebind (lock_session W cfg (rn_account_id r) (the (rn_resume_session_id r)) (rn_run_id r)) (\<lambda>l. case l of
          None \<Rightarrow> ebind (put_back W cfg (rn_run_id r)) (\<lambda>n.
            if n > xc_session_busy_max cfg
            then ebind (finish_run W (rn_run_id r) (RunFailed ''session_busy'' ''session stayed locked'' None) no_totals None None)
                   (\<lambda>out. ereturn (Some out))
            else ereturn None)
        | Some lease \<Rightarrow> efinally (held_drive W cfg cl r j (Some lease)) (unlock_session W lease)))"

definition access_now :: "exec_world \<Rightarrow> AgentRunRow \<Rightarrow> (string \<times> string) option" where
  "access_now W r = (let subs = subscription_models (xw_settings W) in
     case access_problem (xw_allowed W) (xw_policy W) (xw_snapshot W) subs r of
       None \<Rightarrow> None
     | Some _ \<Rightarrow> access_problem (xw_allowed W) (xw_policy W) (refresh_access (xw_rows W) (xw_snapshot W)) subs r)"

definition tools_refused :: "exec_world \<Rightarrow> AgentRunRow \<Rightarrow> DeepJobRow \<Rightarrow> bool" where
  "tools_refused W r j \<longleftrightarrow> tools_of j \<noteq> [] \<and>
     (\<not> given (rn_model r) \<or> \<not> subscription_tools_accepted (xw_settings W)
        (opt_or (map_option fst (find (\<lambda>(p, cap). cap = rn_capability r) SUB_PROVIDERS)) [] @ ''/'' @ opt_or (rn_model r) [])
        (Some (rn_project_id r)))"

text \<open>What ends a claimed run before its tool is even looked up.\<close>

definition early_end :: "exec_world \<Rightarrow> AgentRunRow \<Rightarrow> DeepJobRow \<Rightarrow> instant \<Rightarrow> agent_event option" where
  "early_end W r j now =
     (if rn_capability r = ''agent:codex'' \<and> \<not> SUB_CODEX_ENABLED (xw_settings W)
      then Some (RunFailed ''route_disabled'' ''codex subscription route is not enabled'' None)
      else if tools_refused W r j then Some (RunFailed ''route_disabled'' ''client tools are not verified'' None)
      else case access_now W r of
        Some (c, msg) \<Rightarrow> Some (RunFailed c msg None)
      | None \<Rightarrow> if now \<ge> job_deadline j then Some (RunTimedOut ''deadline'')
          else if rn_cancel_requested r then Some RunCancelled else None)"

definition execute_run :: "exec_world \<Rightarrow> exec_config \<Rightarrow> int \<Rightarrow> string option exec" where
  "execute_run W cfg i =
     ebind (tx W (\<lambda>e d. (Inr (find_run i d, find_job i d), d))) (\<lambda>(run, job). case (run, job) of
        (Some r, Some j) \<Rightarrow>
          if rn_outcome r \<noteq> None then ereturn (rn_outcome r)
          else (\<lambda>s. (case early_end W r j (re_now (xw_env W (xs_step s))) of
              Some ev \<Rightarrow> ebind (finish_run W i ev no_totals None None) (\<lambda>out. ereturn (Some out))
            | None \<Rightarrow> (case xw_adapter W (rn_capability r) of
                None \<Rightarrow> ebind (finish_run W i (RunFailed ''adapter_unavailable'' (''no adapter for '' @ rn_capability r) None) no_totals None None)
                          (\<lambda>out. ereturn (Some out))
              | Some cl \<Rightarrow> execute_with_session W cfg cl r j)) s)
      | _ \<Rightarrow> ereturn None)"

end
