(* ===== verification/Executor_Facts.thy ===== *)
theory Executor_Facts
  imports Agent_Executor
begin

text \<open>
  What an execution of an agent run guarantees: the tool is started only behind its guards, the
  stream ends within its limits, an outcome that is returned is recorded, and a wait for quota
  stays within the deadline of the job.
\<close>

section \<open>Relations between the states of an execution\<close>

definition along :: "(exec_state \<Rightarrow> exec_state \<Rightarrow> bool) \<Rightarrow> 'a exec \<Rightarrow> bool" where
  "along R m \<longleftrightarrow> (\<forall>s. R s (snd (m s)))"

locale state_relation =
  fixes R :: "exec_state \<Rightarrow> exec_state \<Rightarrow> bool"
  assumes stay: "R s s" and compose: "R s t \<Longrightarrow> R t u \<Longrightarrow> R s u"
begin

lemma along_return [intro!]: "along R (ereturn x)"
  by (simp add: along_def ereturn_def stay)

lemma along_raise [intro!]: "along R (eraise e)"
  by (simp add: along_def eraise_def stay)

lemma along_bind [intro!]:
  assumes "along R m" "\<And>x. along R (f x)"
  shows "along R (ebind m f)"
proof (unfold along_def, rule allI)
  fix s
  obtain r s1 where m: "m s = (r, s1)" by fastforce
  have 1: "R s s1" using assms(1) m by (auto simp: along_def dest: spec[of _ s])
  show "R s (snd (ebind m f s))"
  proof (cases r)
    case (Inr x)
    have "R s1 (snd (f x s1))" using assms(2) by (simp add: along_def)
    then show ?thesis using compose[OF 1] by (simp add: ebind_def m Inr)
  qed (simp add: ebind_def m 1)
qed

lemma along_catch [intro!]:
  assumes "along R m" "\<And>e. along R (h e)"
  shows "along R (ecatch m h)"
proof (unfold along_def, rule allI)
  fix s
  obtain r s1 where m: "m s = (r, s1)" by fastforce
  have 1: "R s s1" using assms(1) m by (auto simp: along_def dest: spec[of _ s])
  show "R s (snd (ecatch m h s))"
  proof (cases r)
    case (Inl e)
    have "R s1 (snd (h e s1))" using assms(2) by (simp add: along_def)
    then show ?thesis using compose[OF 1] by (simp add: ecatch_def m Inl)
  qed (simp add: ecatch_def m 1)
qed

lemma along_finally [intro!]:
  assumes "along R m" "\<And>s. R s (g s)"
  shows "along R (efinally m g)"
proof (unfold along_def, rule allI)
  fix s
  obtain r s1 where m: "m s = (r, s1)" by fastforce
  have 1: "R s s1" using assms(1) m by (auto simp: along_def dest: spec[of _ s])
  show "R s (snd (efinally m g s))" using 1 compose[OF 1 assms(2)] by (simp add: efinally_def m)
qed

lemma along_if [intro!]: "(b \<Longrightarrow> along R m) \<Longrightarrow> (\<not> b \<Longrightarrow> along R m') \<Longrightarrow> along R (if b then m else m')"
  by simp

lemma along_option [intro!]:
  "(x = None \<Longrightarrow> along R m) \<Longrightarrow> (\<And>y. x = Some y \<Longrightarrow> along R (f y)) \<Longrightarrow> along R (case x of None \<Rightarrow> m | Some y \<Rightarrow> f y)"
  by (cases x) simp_all

lemma along_sum [intro!]:
  "(\<And>y. x = Inl y \<Longrightarrow> along R (f y)) \<Longrightarrow> (\<And>y. x = Inr y \<Longrightarrow> along R (g y)) \<Longrightarrow> along R (case x of Inl y \<Rightarrow> f y | Inr y \<Rightarrow> g y)"
  by (cases x) simp_all

lemma along_pair [intro!]: "(\<And>a b. x = (a, b) \<Longrightarrow> along R (f a b)) \<Longrightarrow> along R (case x of (a, b) \<Rightarrow> f a b)"
  by (cases x) simp

end

section \<open>The guards before the tool\<close>

interpretation cli: state_relation "\<lambda>s t. xs_cli t \<longrightarrow> xs_cli s \<or> G" for G
  by unfold_locales auto

definition guarded :: "bool \<Rightarrow> 'a exec \<Rightarrow> bool" where
  "guarded G m \<longleftrightarrow> along (\<lambda>s t. xs_cli t \<longrightarrow> xs_cli s \<or> G) m"

lemmas guarded_rules [intro!] = cli.along_return[folded guarded_def] cli.along_raise[folded guarded_def]
  cli.along_bind[folded guarded_def] cli.along_catch[folded guarded_def] cli.along_finally[folded guarded_def]
  cli.along_if[folded guarded_def] cli.along_option[folded guarded_def] cli.along_sum[folded guarded_def]
  cli.along_pair[folded guarded_def]

lemma guardedI: "(\<And>s. xs_cli (snd (m s)) \<Longrightarrow> xs_cli s \<or> G) \<Longrightarrow> guarded G m"
  by (auto simp: guarded_def along_def)

lemma guardedD: "guarded G m \<Longrightarrow> xs_cli (snd (m s)) \<Longrightarrow> xs_cli s \<or> G"
  by (auto simp: guarded_def along_def)

text \<open>A step that looks at the state first.\<close>

lemma guarded_look: "(\<And>s. guarded G (f s)) \<Longrightarrow> (\<And>s. m s = f s s) \<Longrightarrow> guarded G m"
  by (metis guardedI guardedD)

lemma guarded_tx [intro!]: "guarded G (tx W f)"
  by (auto intro!: guardedI simp: tx_def split: prod.splits)

lemma cli_steps [simp]:
  "xs_cli (unlock_session W l s) = xs_cli s" "xs_cli (close_gate W s) = xs_cli s" "xs_cli (withdraw_call W i s) = xs_cli s"
  by (auto simp: unlock_session_def close_gate_def withdraw_call_def tx_def split: option.splits)

lemma guarded_finish [intro!]: "guarded G (finish_run W i ev totals mode lease)"
  unfolding finish_run_def save_usage_def write_event_def by blast

lemma guarded_small [intro!]: "guarded G (run_cancel_flag W i)" "guarded G (put_back W cfg i)" "guarded G (lock_session W cfg a sid i)"
  unfolding run_cancel_flag_def put_back_def lock_session_def by blast+

lemma guarded_attempts [intro!]: "guarded G (auth_attempts W cfg i deadline n)"
proof (induction n)
  case (Suc n)
  have "guarded G (\<lambda>s. if c then (Inl XAuthCancelled, s) else if xw_mono W (xs_step s) \<ge> deadline then (Inl XAuthBusy, s)
      else auth_attempts W cfg i deadline n s)" for c
    by (rule guarded_look[of _ "\<lambda>s. if c then eraise XAuthCancelled else if xw_mono W (xs_step s) \<ge> deadline then eraise XAuthBusy
      else auth_attempts W cfg i deadline n"]) (use Suc in \<open>auto simp: eraise_def\<close>)
  moreover have "guarded G (\<lambda>s. (Inr (), s\<lparr>xs_gate := Some l\<rparr>))" for l by (auto intro!: guardedI)
  ultimately show ?case by auto
qed (simp, blast)

lemma guarded_gate [intro!]: "guarded G (codex_auth_gate W cfg cl i)"
proof (rule guarded_look[where f = "\<lambda>s. let last = cl_last_refresh cl (xs_step s); now = re_now (xw_env W (xs_step s)); t = xw_mono W (xs_step s) in
      if \<not> cl_codex cl \<or> \<not> refresh_due now (xc_refresh_due_after_s cfg) last \<or>
         proof_covers last (xc_refresh_proof_s cfg) (xc_refresh_proof_max_age_s cfg) now t (xs_proof s) then ereturn None
      else ebind (auth_attempts W cfg i (t + xc_codex_auth_wait_s cfg) (xw_polls W)) (\<lambda>_. ereturn last)"])
  fix s
  show "codex_auth_gate W cfg cl i s = (let last = cl_last_refresh cl (xs_step s); now = re_now (xw_env W (xs_step s)); t = xw_mono W (xs_step s) in
      if \<not> cl_codex cl \<or> \<not> refresh_due now (xc_refresh_due_after_s cfg) last \<or>
         proof_covers last (xc_refresh_proof_s cfg) (xc_refresh_proof_max_age_s cfg) now t (xs_proof s) then ereturn None
      else ebind (auth_attempts W cfg i (t + xc_codex_auth_wait_s cfg) (xw_polls W)) (\<lambda>_. ereturn last)) s"
    by (simp add: codex_auth_gate_def Let_def ereturn_def)
qed (auto simp: Let_def)

lemma guarded_quota [intro!]: "guarded G (wait_for_quota W cfg r j msg reset_at totals mode lease)"
proof -
  have "guarded G (ebind (save_usage W i totals mode' lease) (\<lambda>_. ebind (tx W f) (\<lambda>_. ereturn x)))" for i mode' f x
    unfolding save_usage_def by blast
  note run = this
  show ?thesis unfolding wait_for_quota_def Let_def
    by (rule guardedI) (auto split: if_split_asm dest: guardedD[OF guarded_finish] guardedD[OF run])
qed

lemma guarded_end [intro!]: "guarded G (end_run W cfg cl r j mode lease res)"
  unfolding end_run_def by (auto split: prod.splits agent_event.splits)

text \<open>Everything that is checked before the tool is asked to start.\<close>

definition input_ok :: "cli \<Rightarrow> AgentRunRow \<Rightarrow> DeepJobRow \<Rightarrow> bool" where
  "input_ok cl r j \<longleftrightarrow> check_model cl (rn_model r) = None \<and>
     (\<exists>fs. write_attachments (list_or_empty (obj_get (j_request j) ''attachments'')) = Inr fs)"

definition billing_ok :: "exec_config \<Rightarrow> cli \<Rightarrow> AgentRunRow \<Rightarrow> DeepJobRow \<Rightarrow> bool" where
  "billing_ok cfg cl r j \<longleftrightarrow> snd (billing_verdict cfg cl r j) = None \<and> cl_attestation cl \<noteq> None"

lemma guarded_True [intro!]: "guarded True m"
  by (simp add: guarded_def along_def)

lemma guarded_start: "guarded (input_ok cl r j) (start_cli W cfg cl r j mode lease seen)"
proof (cases "input_ok cl r j")
  case False
  then show ?thesis unfolding start_cli_def input_ok_def by auto
qed auto

lemma guarded_body: "guarded (billing_ok cfg cl r j \<and> input_ok cl r j) (drive_body W cfg cl r j lease seen)"
proof (cases "billing_ok cfg cl r j")
  case True
  then have eq: "(billing_ok cfg cl r j \<and> input_ok cl r j) = input_ok cl r j" by simp
  show ?thesis unfolding eq unfolding drive_body_def write_event_def note_workspace_def
    by (auto intro!: guarded_start)
next
  case False
  then show ?thesis unfolding drive_body_def write_event_def note_workspace_def billing_ok_def by auto
qed

lemma guarded_held: "guarded (billing_ok cfg cl r j \<and> input_ok cl r j) (drive_held_gate W cfg cl r j lease seen)"
proof -
  have "guarded (billing_ok cfg cl r j \<and> input_ok cl r j) (efinally (drive_body W cfg cl r j lease seen) (\<lambda>s. s\<lparr>xs_workspace := False\<rparr>))"
    by (rule guarded_rules(5)[OF guarded_body]) simp
  note run = this
  show ?thesis
  proof (rule guardedI)
    fix s assume "xs_cli (snd (drive_held_gate W cfg cl r j lease seen s))"
    then show "xs_cli s \<or> billing_ok cfg cl r j \<and> input_ok cl r j"
      using guardedD[OF run, of "s\<lparr>xs_workspace := True\<rparr>"] by (simp add: drive_held_gate_def)
  qed
qed

lemma guarded_drive: "guarded (billing_ok cfg cl r j \<and> input_ok cl r j) (drive W cfg cl r j lease)"
proof -
  let ?G = "billing_ok cfg cl r j \<and> input_ok cl r j"
  have "guarded ?G (\<lambda>s. if xs_gate s \<noteq> None
      then ebind (run_cancel_flag W (rn_run_id r)) (\<lambda>c. if c then finish_run W (rn_run_id r) RunCancelled no_totals None lease
             else drive_held_gate W cfg cl r j lease seen) s
      else drive_held_gate W cfg cl r j lease seen s)" for seen
    by (rule guarded_look[of _ "\<lambda>s. if xs_gate s \<noteq> None
      then ebind (run_cancel_flag W (rn_run_id r)) (\<lambda>c. if c then finish_run W (rn_run_id r) RunCancelled no_totals None lease
             else drive_held_gate W cfg cl r j lease seen)
      else drive_held_gate W cfg cl r j lease seen"]) (auto intro!: guarded_held)
  then show ?thesis unfolding drive_def by (intro guarded_rules(3,5) guarded_gate) auto
qed

lemma guarded_session: "guarded (billing_ok cfg cl r j \<and> input_ok cl r j) (execute_with_session W cfg cl r j)"
proof -
  have "guarded (billing_ok cfg cl r j \<and> input_ok cl r j) (held_drive W cfg cl r j lease)" for lease
    unfolding held_drive_def by (intro guarded_rules guarded_drive) auto
  then show ?thesis unfolding execute_with_session_def by (auto simp del: cli_steps) (auto simp: cli_steps)
qed

text \<open>The run and the job the execution reads first.\<close>

definition read_rows :: "exec_world \<Rightarrow> int \<Rightarrow> exec_state \<Rightarrow> AgentRunRow option \<times> DeepJobRow option" where
  "read_rows W i s = (let d = xw_between W (xs_step s) (xs_db s) in (find_run i d, find_job i d))"

definition after_read :: "exec_world \<Rightarrow> exec_state \<Rightarrow> exec_state" where
  "after_read W s = s\<lparr>xs_db := xw_between W (xs_step s) (xs_db s), xs_step := Suc (xs_step s)\<rparr>"

lemma after_read_sel [simp]: "xs_cli (after_read W s) = xs_cli s" "xs_step (after_read W s) = Suc (xs_step s)"
  "xs_db (after_read W s) = xw_between W (xs_step s) (xs_db s)"
  "xs_gate (after_read W s) = xs_gate s" "xs_workspace (after_read W s) = xs_workspace s"
  by (simp_all add: after_read_def)

lemma early_end_terminal: "early_end W r j now = Some ev \<Longrightarrow> event_type ev \<in> set TERMINAL_TYPES"
  by (auto simp: early_end_def TERMINAL_TYPES_def split: if_splits option.splits)

lemma execute_run_cases:
  obtains (gone) "execute_run W cfg i s = (Inr None, after_read W s)"
    | (ended) r j out where "read_rows W i s = (Some r, Some j)" "rn_outcome r = Some out"
        "execute_run W cfg i s = (Inr (Some out), after_read W s)"
    | (refused) r j ev where "read_rows W i s = (Some r, Some j)" "event_type ev \<in> set TERMINAL_TYPES"
        "execute_run W cfg i s = ebind (finish_run W i ev no_totals None None) (\<lambda>out. ereturn (Some out)) (after_read W s)"
    | (started) r j cl where "read_rows W i s = (Some r, Some j)" "rn_outcome r = None"
        "early_end W r j (re_now (xw_env W (Suc (xs_step s)))) = None" "xw_adapter W (rn_capability r) = Some cl"
        "execute_run W cfg i s = execute_with_session W cfg cl r j (after_read W s)"
proof -
  obtain run job where rows: "read_rows W i s = (run, job)" by fastforce
  then have eq: "execute_run W cfg i s = (case (run, job) of
      (Some r, Some j) \<Rightarrow>
        if rn_outcome r \<noteq> None then ereturn (rn_outcome r)
        else (case early_end W r j (re_now (xw_env W (Suc (xs_step s)))) of
            Some ev \<Rightarrow> ebind (finish_run W i ev no_totals None None) (\<lambda>out. ereturn (Some out))
          | None \<Rightarrow> (case xw_adapter W (rn_capability r) of
              None \<Rightarrow> ebind (finish_run W i (RunFailed ''adapter_unavailable'' (''no adapter for '' @ rn_capability r) None) no_totals None None)
                        (\<lambda>out. ereturn (Some out))
            | Some cl \<Rightarrow> execute_with_session W cfg cl r j))
    | _ \<Rightarrow> ereturn None) (after_read W s)"
    by (auto simp: execute_run_def ebind_def[of "tx _ _"] tx_def read_rows_def Let_def after_read_def split: option.splits)
  show ?thesis
  proof (cases "\<exists>r j. run = Some r \<and> job = Some j")
    case False
    then show ?thesis by (intro gone) (auto simp: eq ereturn_def split: option.splits)
  next
    case True
    then obtain r j where rj: "run = Some r" "job = Some j" by blast
    show ?thesis
    proof (cases "rn_outcome r")
      case (Some out)
      then show ?thesis using rows rj by (intro ended[of r j out]) (simp_all add: eq ereturn_def)
    next
      case None
      show ?thesis
      proof (cases "early_end W r j (re_now (xw_env W (Suc (xs_step s))))")
        case (Some ev)
        then show ?thesis using rows rj None early_end_terminal[OF Some] by (intro refused[of r j ev]) (simp_all add: eq)
      next
        case allowed: None
        show ?thesis
        proof (cases "xw_adapter W (rn_capability r)")
          case (Some cl)
          then show ?thesis using rows rj None allowed by (intro started[of r j cl]) (simp_all add: eq)
        next
          case missing: None
          show ?thesis
            by (rule refused[of r j "RunFailed ''adapter_unavailable'' (''no adapter for '' @ rn_capability r) None"])
               (use rows rj None allowed missing in \<open>simp_all add: eq TERMINAL_TYPES_def\<close>)
        qed
      qed
    qed
  qed
qed

text \<open>
  C10. The command line tool of an agent run is started only behind every guard. If an execution
  started it, then the run was open and not cancelled, its route was enabled, its client tools were
  accepted, the project was granted the model and the account (after a fresh look at the
  dashboard when the first look refused), the deadline had not passed, the tool itself reported a
  subscription and attested its login, no API credential was in the environment, paid continuation
  was verified off or its risk accepted by a manual run, the model was in the catalog when there is
  one, and the attachments were valid.
\<close>

theorem cli_starts_behind_its_guards:
  assumes "\<not> xs_cli s" "xs_cli (snd (execute_run W cfg i s))"
  shows "\<exists>r j cl. read_rows W i s = (Some r, Some j) \<and> xw_adapter W (rn_capability r) = Some cl \<and>
    rn_outcome r = None \<and> \<not> rn_cancel_requested r \<and> re_now (xw_env W (Suc (xs_step s))) < job_deadline j \<and>
    (rn_capability r = ''agent:codex'' \<longrightarrow> SUB_CODEX_ENABLED (xw_settings W)) \<and> \<not> tools_refused W r j \<and> access_now W r = None \<and>
    cl_billing cl = Some ''subscription'' \<and> cl_attestation cl \<noteq> None \<and>
    (verified_off cfg r \<or> str_field (j_request j) ''run_mode'' = Some ''manual'' \<and>
       (\<exists>v. obj_get (j_request j) ''accept_paid_continuation_risk'' = Some v \<and> truthy v)) \<and>
    forbidden_env_present (rn_capability r) (xc_env cfg) = [] \<and> input_ok cl r j"
proof (rule execute_run_cases[of W cfg i s])
  fix r j cl
  assume rows: "read_rows W i s = (Some r, Some j)" "rn_outcome r = None"
    and early: "early_end W r j (re_now (xw_env W (Suc (xs_step s)))) = None" and cl: "xw_adapter W (rn_capability r) = Some cl"
    and run: "execute_run W cfg i s = execute_with_session W cfg cl r j (after_read W s)"
  have "billing_ok cfg cl r j \<and> input_ok cl r j"
    using guardedD[OF guarded_session, of W cfg cl r j "after_read W s"] assms run by simp
  then have input: "input_ok cl r j" and bill: "snd (billing_verdict cfg cl r j) = None" "cl_attestation cl \<noteq> None"
    by (auto simp: billing_ok_def)
  have mode: "cl_billing cl = Some ''subscription''" "forbidden_env_present (rn_capability r) (xc_env cfg) = []"
    and paid: "verified_off cfg r \<or> opt_or (str_field (j_request j) ''run_mode'') ''autonomous'' = ''manual'' \<and>
      (case obj_get (j_request j) ''accept_paid_continuation_risk'' of Some v \<Rightarrow> truthy v | None \<Rightarrow> False)"
    using bill(1) by (auto simp: billing_verdict_def check_billing_mode_def Let_def opt_or_def paid_continuation_refusal_def
        split: if_splits option.splits)
  show ?thesis
  proof (intro exI conjI)
    show "verified_off cfg r \<or> str_field (j_request j) ''run_mode'' = Some ''manual'' \<and>
       (\<exists>v. obj_get (j_request j) ''accept_paid_continuation_risk'' = Some v \<and> truthy v)"
      using paid by (auto simp: opt_or_def split: option.splits)
    show "access_now W r = None" "\<not> tools_refused W r j" "\<not> rn_cancel_requested r"
      "re_now (xw_env W (Suc (xs_step s))) < job_deadline j" "rn_capability r = ''agent:codex'' \<longrightarrow> SUB_CODEX_ENABLED (xw_settings W)"
      using early by (auto simp: early_end_def split: if_splits option.splits)
  qed (fact rows cl mode bill(2) input)+
next
  fix r j ev
  assume run: "execute_run W cfg i s = ebind (finish_run W i ev no_totals None None) (\<lambda>out. ereturn (Some out)) (after_read W s)"
  have "guarded False (ebind (finish_run W i ev no_totals None None) (\<lambda>out. ereturn (Some out)))" by blast
  from guardedD[OF this, of "after_read W s"] have False using assms by (simp add: run)
  then show ?thesis ..
qed (use assms in simp_all)

section \<open>The stream ends\<close>

definition not_pending :: "'a exec \<Rightarrow> bool" where
  "not_pending m \<longleftrightarrow> (\<forall>s. fst (m s) \<noteq> Inl XRunning)"

lemma lift_error_ends: "lift_error r \<noteq> Inl XRunning"
  by (cases r) (simp_all add: lift_error_def)

lemma not_pending_basic [intro!]: "not_pending (ereturn x)" "not_pending m \<Longrightarrow> (\<And>x. not_pending (f x)) \<Longrightarrow> not_pending (ebind m f)"
  "not_pending (write_event W i ev lease)" "not_pending (run_cancel_flag W i)" "not_pending (\<lambda>s. (Inr y, g s))"
  by (auto simp: not_pending_def ereturn_def ebind_def write_event_def run_cancel_flag_def tx_def lift_error_ends split: prod.splits sum.splits)
     (metis fst_conv)+

lemma not_pending_turn: "not_pending (stream_turn W cfg cl seen i lease t0 wall_s idle_s tk m)"
proof -
  have poll: "not_pending (poll_cancel W i t0 wall_s idle_s tk cfg m)" unfolding poll_cancel_def by auto
  have take: "not_pending (take_item W cl seen i lease tk m')" for m'
    unfolding take_item_def by (auto simp: Let_def split: list.split queue_item.split)
  have "not_pending (ebind (poll_cancel W i t0 wall_s idle_s tk cfg m) (\<lambda>(t, m1). case t of
      Some ev \<Rightarrow> ereturn (StreamOver (Some ev) False False, m1) | None \<Rightarrow> take_item W cl seen i lease tk m1))"
    using poll take by (auto split: option.split)
  then show ?thesis by (auto simp: not_pending_def stream_turn_def)
qed

text \<open>Past the wall limit a turn never asks for another one.\<close>

lemma turn_past_wall:
  assumes "tk_now tk - t0 \<ge> wall_s" "stream_turn W cfg cl seen i lease t0 wall_s idle_s tk m s = (Inr (turn, m1), s1)"
  shows "turn \<noteq> Again"
  using assms by (auto simp: stream_turn_def poll_cancel_def ebind_def ereturn_def split: if_splits)

lemma stream_loop_ends:
  assumes "list_ex (\<lambda>tk. tk_now tk - t0 \<ge> wall_s) tks"
  shows "fst (stream_loop W cfg cl seen i lease t0 wall_s idle_s tks m s) \<noteq> Inl XRunning"
  using assms
proof (induction tks arbitrary: m s)
  case (Cons tk tks)
  obtain r s1 where t: "stream_turn W cfg cl seen i lease t0 wall_s idle_s tk m s = (r, s1)" by fastforce
  have "r \<noteq> Inl XRunning" using not_pending_turn t by (metis fst_conv not_pending_def)
  moreover have ?case if "r = Inr (Again, m1)" for m1
  proof -
    have "\<not> tk_now tk - t0 \<ge> wall_s" using turn_past_wall t that by blast
    then show ?thesis using Cons by (simp add: ebind_def t that)
  qed
  moreover have ?case if "r = Inr (StreamOver a b c, m1)" for a b c m1
    by (simp add: ebind_def t that ereturn_def)
  moreover have ?case if "r = Inl e" for e using calculation(1) by (simp add: ebind_def t that)
  ultimately show ?case by (metis prod.exhaust sum.exhaust turn.exhaust)
qed simp

definition stream_verdict :: "agent_event option \<Rightarrow> bool" where
  "stream_verdict t = (case t of None \<Rightarrow> True | Some ev \<Rightarrow> ends_stream ev \<or> (\<exists>l. ev = RunTimedOut l))"

lemma poll_verdict: "poll_cancel W i t0 wall_s idle_s tk cfg m s = (Inr (t, m1), s1) \<Longrightarrow> stream_verdict t"
  by (auto simp: poll_cancel_def ebind_def ereturn_def stream_verdict_def ends_stream_def split: if_splits prod.splits sum.splits)

lemma take_verdict:
  assumes "take_item W cl seen i lease tk m s = (Inr (StreamOver t lost stop_cli, m1), s1)"
  shows "stream_verdict t \<and> \<not> lost"
proof (cases "sm_queue m")
  case (Cons item q)
  then show ?thesis using assms
    by (cases item) (auto simp: take_item_def Let_def ebind_def ereturn_def stream_verdict_def split: if_splits prod.splits sum.splits)
qed (use assms in \<open>auto simp: take_item_def ereturn_def split: if_splits\<close>)

lemma turn_verdict:
  assumes "stream_turn W cfg cl seen i lease t0 wall_s idle_s tk m s = (Inr (StreamOver t lost stop_cli, m1), s1)"
  shows "stream_verdict t \<and> (lost \<longrightarrow> t = None)"
proof (cases "lease \<noteq> None \<and> tk_lost tk \<or> xs_gate s \<noteq> None \<and> tk_gate_lost tk")
  case True
  then show ?thesis using assms by (auto simp: stream_turn_def stream_verdict_def AUTH_LEASE_LOST_def ends_stream_def split: if_splits)
next
  case False
  obtain pr s2 where p: "poll_cancel W i t0 wall_s idle_s tk cfg m s = (pr, s2)" by fastforce
  with False assms obtain t2 m2 where t2: "pr = Inr (t2, m2)" by (cases pr) (auto simp: stream_turn_def ebind_def split: if_splits)
  show ?thesis
  proof (cases t2)
    case None
    then have "take_item W cl seen i lease tk m2 s2 = (Inr (StreamOver t lost stop_cli, m1), s1)"
      using assms False by (auto simp: stream_turn_def ebind_def p t2 split: if_splits)
    from take_verdict[OF this] show ?thesis by simp
  next
    case (Some ev)
    then show ?thesis using assms False poll_verdict[OF p[unfolded t2]] by (auto simp: stream_turn_def ebind_def p t2 ereturn_def split: if_splits)
  qed
qed

lemma loop_verdict:
  "stream_loop W cfg cl seen i lease t0 wall_s idle_s tks m s = (Inr (t, lost, stop_cli, m1), s1) \<Longrightarrow>
   stream_verdict t \<and> (lost \<longrightarrow> t = None)"
proof (induction tks arbitrary: m s)
  case (Cons tk tks)
  obtain r s2 where turn: "stream_turn W cfg cl seen i lease t0 wall_s idle_s tk m s = (r, s2)" by fastforce
  with Cons.prems obtain o1 m2 where r: "r = Inr (o1, m2)" by (cases r) (auto simp: ebind_def)
  show ?case
  proof (cases o1)
    case (StreamOver t' l' c')
    then show ?thesis using Cons.prems turn_verdict[OF turn[unfolded r StreamOver]] by (simp add: ebind_def turn r ereturn_def)
  next
    case Again
    then show ?thesis using Cons.prems Cons.IH[of m2 s2] by (simp add: ebind_def turn r)
  qed
qed (simp add: eraise_def)

lemma close_gate_open [simp]: "xs_gate (close_gate W s) = None"
  by (simp add: close_gate_def split: option.split)

lemma close_gate_stopped [simp]: "xs_stopped (close_gate W s) = xs_stopped s"
  by (simp add: close_gate_def unlock_session_def tx_def split: option.split)

lemma withdraw_sel [simp]: "xs_gate (withdraw_call W i s) = xs_gate s" "xs_stopped (withdraw_call W i s) = xs_stopped s"
  by (simp_all add: withdraw_call_def tx_def)

text \<open>
  C12. The stream of a tool ends. When some turn of its loop comes at or after the wall limit the
  loop has been left, whatever the tool emits and whatever fails. Then the refresh gate is open
  again, and the tool was told to stop unless the stream ended with a result or a failure: on a
  timeout, a cancel, a lost lease and a broken write it always was.
\<close>

theorem stream_ends_and_stops_the_tool:
  assumes "list_ex (\<lambda>tk. tk_now tk - xw_mono W (xs_step s) \<ge> wall_s) (xw_ticks W)"
    and "run_stream W cfg cl sp seen i lease wall_s idle_s s = (r, s')"
  shows "r \<noteq> Inl XRunning \<and> xs_gate s' = None \<and>
    (xs_stopped s' \<or> (\<exists>answer fs rest. r = Inr (RunCompleted answer fs, rest)) \<or> (\<exists>c msg t rest. r = Inr (RunFailed c msg t, rest)))"
proof -
  define t0 where "t0 = xw_mono W (xs_step s)"
  define m0 where "m0 = \<lparr>sm_queue = pump cl sp, sm_last = t0, sm_last_poll = t0, sm_totals = no_totals, sm_changed = []\<rparr>"
  obtain lr s1 where loop: "stream_loop W cfg cl seen i lease t0 wall_s idle_s (xw_ticks W) m0 (s\<lparr>xs_cli := True\<rparr>) = (lr, s1)"
    by fastforce
  have ended: "lr \<noteq> Inl XRunning"
    using stream_loop_ends[OF assms(1), of W cfg cl seen i lease idle_s m0 "s\<lparr>xs_cli := True\<rparr>"] loop by (simp add: t0_def)
  note run = assms(2)[unfolded run_stream_def Let_def, folded t0_def, folded m0_def, unfolded loop]
  show ?thesis
  proof (cases lr)
    case (Inl e)
    then show ?thesis using run ended by (cases e) (auto simp: stop_stream_def must_stop_def)
  next
    case (Inr x)
    obtain t lost stop_cli m where x: "x = (t, lost, stop_cli, m)" by (cases x)
    have v: "stream_verdict t" "lost \<longrightarrow> t = None" using loop_verdict[OF loop[unfolded Inr x]] by auto
    show ?thesis
    proof (cases t)
      case None
      then show ?thesis using run by (auto simp: Inr x stop_stream_def must_stop_def split: if_splits)
    next
      case (Some ev)
      then show ?thesis using run v
        by (cases ev) (auto simp: Inr x stop_stream_def must_stop_def stream_verdict_def ends_stream_def opt_or_def split: if_splits)
    qed
  qed
qed

section \<open>An outcome that is returned is recorded\<close>

interpretation fin: state_relation "\<lambda>s t. ended i (xs_db s) \<longrightarrow> ended i (xs_db t)" for i
  by unfold_locales auto

text \<open>What others do never reopens a run.\<close>

definition others_keep :: "int \<Rightarrow> exec_world \<Rightarrow> bool" where
  "others_keep i W \<longleftrightarrow> (\<forall>n d. ended i d \<longrightarrow> ended i (xw_between W n d))"

text \<open>Every way to report an outcome leaves the run ended, apart from a wait for quota.\<close>

definition reports :: "int \<Rightarrow> string exec \<Rightarrow> bool" where
  "reports i m \<longleftrightarrow> (\<forall>s out s'. m s = (Inr out, s') \<longrightarrow> out = ''waiting_quota'' \<or> ended i (xs_db s'))"

definition reports_some :: "int \<Rightarrow> string option exec \<Rightarrow> bool" where
  "reports_some i m \<longleftrightarrow> (\<forall>s out s'. m s = (Inr (Some out), s') \<longrightarrow> out = ''waiting_quota'' \<or> ended i (xs_db s'))"

lemma ebind_Inr: "ebind m f s = (Inr y, s') \<longleftrightarrow> (\<exists>x s1. m s = (Inr x, s1) \<and> f x s1 = (Inr y, s'))"
  by (auto simp: ebind_def split: prod.splits sum.splits)

lemma ecatch_Inr: "ecatch m h s = (Inr y, s') \<longleftrightarrow> m s = (Inr y, s') \<or> (\<exists>e s1. m s = (Inl e, s1) \<and> h e s1 = (Inr y, s'))"
  by (auto simp: ecatch_def split: prod.splits sum.splits)

lemma write_event_ends:
  assumes "event_type ev \<in> set TERMINAL_TYPES" "write_event W i ev lease s = (r, s')" "r = Inr n \<or> r = Inl e \<and> is_conflict e"
  shows "ended i (xs_db s')"
proof -
  define d where "d = xw_between W (xs_step s) (xs_db s)"
  obtain x d' where app: "append_event (xw_env W (xs_step s)) i ev lease False d = (x, d')" by fastforce
  then have s': "xs_db s' = d'" "r = lift_error x"
    using assms(2) by (auto simp: write_event_def tx_def simp flip: d_def)
  from assms(3) show ?thesis
  proof
    assume "r = Inr n"
    then have "x = Inr n" using s'(2) by (cases x) (simp_all add: lift_error_def)
    then show ?thesis using append_terminal_ends[OF app[unfolded \<open>x = Inr n\<close>] assms(1)] by (simp add: s')
  next
    assume "r = Inl e \<and> is_conflict e"
    then obtain msg where "x = Inl (RunConflict msg)"
      using s'(2) by (cases x) (auto simp: lift_error_def is_conflict_def split: exec_error.splits run_error.splits if_splits)
    then show ?thesis using append_conflict_ended app s'(1) by blast
  qed
qed

lemma finish_reports:
  assumes "event_type ev \<in> set TERMINAL_TYPES"
  shows "reports i (finish_run W i ev totals mode lease)"
  using write_event_ends[OF assms]
  by (fastforce simp: reports_def finish_run_def ebind_Inr ecatch_Inr ereturn_def eraise_def split: if_splits)

lemma reportsD: "reports i m \<Longrightarrow> m s = (Inr out, s') \<Longrightarrow> out = ''waiting_quota'' \<or> ended i (xs_db s')"
  by (simp add: reports_def)

lemma reports_bind: "(\<And>x s s1. m s = (Inr x, s1) \<Longrightarrow> reports i (f x)) \<Longrightarrow> reports i (ebind m f)"
  by (fastforce simp: reports_def ebind_Inr)

lemma reports_finally:
  "reports i m \<Longrightarrow> (\<And>s. ended i (xs_db s) \<Longrightarrow> ended i (xs_db (g s))) \<Longrightarrow> reports i (efinally m g)"
  by (fastforce simp: reports_def efinally_def split: prod.splits if_splits)

lemma reports_option: "(x = None \<Longrightarrow> reports i m) \<Longrightarrow> (\<And>y. x = Some y \<Longrightarrow> reports i (f y)) \<Longrightarrow> reports i (case x of None \<Rightarrow> m | Some y \<Rightarrow> f y)"
  by (cases x) simp_all

lemma reports_raise: "reports i (eraise e)"
  by (simp add: reports_def eraise_def)

lemma reports_waiting: "reports i (ereturn ''waiting_quota'')"
  by (simp add: reports_def ereturn_def)

lemma terminal_kinds: "event_type (RunFailed c m t) \<in> set TERMINAL_TYPES" "event_type RunCancelled \<in> set TERMINAL_TYPES"
  by (simp_all add: TERMINAL_TYPES_def)

lemma quota_reports: "reports (rn_run_id r) (wait_for_quota W cfg r j msg reset_at totals mode lease)"
proof -
  have park: "reports i (ebind m (\<lambda>_. ebind m' (\<lambda>_. ereturn ''waiting_quota'')))" for i and m :: "unit exec" and m' :: "int exec"
    by (intro reports_bind reports_waiting)
  have over: "reports (rn_run_id r) (finish_run W (rn_run_id r) (RunFailed c x t) totals mode' lease)" for c x t mode'
    by (rule finish_reports[OF terminal_kinds(1)])
  show ?thesis unfolding wait_for_quota_def Let_def
    by (subst reports_def) (auto split: if_split_asm dest: reportsD[OF park] reportsD[OF over])
qed

lemma stream_result_terminal:
  assumes "run_stream W cfg cl sp seen i lease wall_s idle_s s = (Inr (t, rest), s1)"
  shows "event_type t \<in> set TERMINAL_TYPES"
proof -
  define t0 where "t0 = xw_mono W (xs_step s)"
  define m0 where "m0 = \<lparr>sm_queue = pump cl sp, sm_last = t0, sm_last_poll = t0, sm_totals = no_totals, sm_changed = []\<rparr>"
  obtain lr s2 where loop: "stream_loop W cfg cl seen i lease t0 wall_s idle_s (xw_ticks W) m0 (s\<lparr>xs_cli := True\<rparr>) = (lr, s2)"
    by fastforce
  note run = assms[unfolded run_stream_def Let_def, folded t0_def, folded m0_def, unfolded loop]
  obtain t' lost stop_cli m where lr: "lr = Inr (t', lost, stop_cli, m)"
    using run by (cases lr) (auto split: exec_error.splits)
  have "stream_verdict t'" using loop_verdict[OF loop[unfolded lr]] by simp
  moreover have "t = opt_or t' (RunFailed ''no_terminal_event'' [] None)" using run by (simp add: lr split: if_splits)
  ultimately show ?thesis
    by (cases t') (auto simp: opt_or_def stream_verdict_def ends_stream_def TERMINAL_TYPES_def split: agent_event.splits)
qed

lemma final_event_terminal: "event_type t \<in> set TERMINAL_TYPES \<Longrightarrow> event_type (final_event cl r changed t) \<in> set TERMINAL_TYPES"
  by (cases t) (simp_all add: final_event_def Let_def TERMINAL_TYPES_def)

lemma end_reports:
  assumes "event_type t \<in> set TERMINAL_TYPES"
  shows "reports (rn_run_id r) (end_run W cfg cl r j mode lease (t, rest))"
  using assms finish_reports[OF final_event_terminal[OF assms]] quota_reports
  by (cases t; cases rest) (simp_all add: end_run_def)

lemma refusal_terminal:
  "check_model cl m = Some ev \<Longrightarrow> event_type ev \<in> set TERMINAL_TYPES"
  "snd (billing_verdict cfg cl r j) = Some ev \<Longrightarrow> event_type ev \<in> set TERMINAL_TYPES"
  by (auto simp: check_model_def billing_verdict_def check_billing_mode_def refusal_def paid_continuation_refusal_def Let_def
      TERMINAL_TYPES_def split: option.splits if_splits)

lemma start_reports: "reports (rn_run_id r) (start_cli W cfg cl r j mode lease seen)"
proof -
  have stream: "reports (rn_run_id r) (ebind (run_stream W cfg cl sp seen (rn_run_id r) lease a b) (end_run W cfg cl r j mode lease))" for a b sp
  proof (rule reports_bind)
    fix x s s1 assume "run_stream W cfg cl sp seen (rn_run_id r) lease a b s = (Inr x, s1)"
    then show "reports (rn_run_id r) (end_run W cfg cl r j mode lease x)"
      using stream_result_terminal[of W cfg cl sp seen "rn_run_id r" lease a b s "fst x" "snd x" s1] end_reports[of "fst x" r W cfg cl j mode lease "snd x"]
      by simp
  qed
  have lost: "reports (rn_run_id r) (finish_run W (rn_run_id r) AUTH_LEASE_LOST no_totals (Some mode) lease)"
    unfolding AUTH_LEASE_LOST_def by (rule finish_reports[OF terminal_kinds(1)])
  have "reports (rn_run_id r) (\<lambda>s. if xs_gate s \<noteq> None \<and> xw_gate_lost W
      then finish_run W (rn_run_id r) AUTH_LEASE_LOST no_totals (Some mode) lease s
      else ebind (run_stream W cfg cl sp seen (rn_run_id r) lease (fst (stream_limits j)) (snd (stream_limits j))) (end_run W cfg cl r j mode lease) s)" for sp
    using lost stream unfolding reports_def by (auto split: if_split_asm)
  then show ?thesis unfolding start_cli_def
    by (auto split: option.split sum.split intro!: finish_reports[OF refusal_terminal(1)] finish_reports[OF terminal_kinds(1)] reports_raise)
qed

lemma body_reports: "reports (rn_run_id r) (drive_body W cfg cl r j lease seen)"
proof -
  obtain mode verdict where v: "billing_verdict cfg cl r j = (mode, verdict)" by fastforce
  have "reports (rn_run_id r) (case (verdict, cl_attestation cl) of
      (Some ev, _) \<Rightarrow> finish_run W (rn_run_id r) ev no_totals (Some mode) lease
    | (None, None) \<Rightarrow> finish_run W (rn_run_id r) no_attestation no_totals (Some mode) lease
    | (None, Some (auth_method, api_provider)) \<Rightarrow>
        ebind (write_event W (rn_run_id r) (BillingAttested auth_method api_provider (verified_off cfg r) (xw_project_cap W)
                 (Some (rn_account_id r))) lease) (\<lambda>_. start_cli W cfg cl r j mode lease seen))"
    using finish_reports[OF refusal_terminal(2)[of cfg cl r j]] v
    by (auto simp: no_attestation_def split: option.split intro!: reports_bind start_reports finish_reports[OF terminal_kinds(1)])
  then show ?thesis unfolding drive_body_def v
    by (auto intro!: reports_bind finish_reports[OF terminal_kinds(1)])
qed

lemma ended_unlock:
  assumes "others_keep i W" "ended i (xs_db s)"
  shows "ended i (xs_db (unlock_session W l s))" "ended i (xs_db (close_gate W s))"
proof -
  have "ended i (xw_between W (xs_step s) (xs_db s))" using assms by (simp add: others_keep_def)
  then have u: "ended i (xs_db (unlock_session W l s))" for l by (simp add: unlock_session_def tx_def ended_def find_run_def)
  show "ended i (xs_db (unlock_session W l s))" by (rule u)
  show "ended i (xs_db (close_gate W s))" using u assms(2) by (simp add: close_gate_def split: option.split)
qed

lemma drive_reports:
  assumes "others_keep (rn_run_id r) W"
  shows "reports (rn_run_id r) (drive W cfg cl r j lease)"
proof -
  have fin: "reports (rn_run_id r) (efinally (drive_body W cfg cl r j lease seen) (\<lambda>s. s\<lparr>xs_workspace := False\<rparr>))" for seen
    by (rule reports_finally[OF body_reports]) simp
  have held: "reports (rn_run_id r) (drive_held_gate W cfg cl r j lease seen)" for seen
    unfolding reports_def drive_held_gate_def
  proof (intro allI impI)
    fix s out s'
    assume "efinally (drive_body W cfg cl r j lease seen) (\<lambda>s. s\<lparr>xs_workspace := False\<rparr>) (s\<lparr>xs_workspace := True\<rparr>) = (Inr out, s')"
    then show "out = ''waiting_quota'' \<or> ended (rn_run_id r) (xs_db s')" using fin[of seen] unfolding reports_def by blast
  qed
  have cancel: "reports (rn_run_id r) (ebind (run_cancel_flag W (rn_run_id r)) (\<lambda>c. if c then finish_run W (rn_run_id r) RunCancelled no_totals None lease
      else drive_held_gate W cfg cl r j lease seen))" for seen
    by (auto intro!: reports_bind held finish_reports[OF terminal_kinds(2)])
  have "reports (rn_run_id r) (\<lambda>s. if xs_gate s \<noteq> None
        then ebind (run_cancel_flag W (rn_run_id r)) (\<lambda>c. if c then finish_run W (rn_run_id r) RunCancelled no_totals None lease
               else drive_held_gate W cfg cl r j lease seen) s
        else drive_held_gate W cfg cl r j lease seen s)" for seen
    using cancel[of seen] held[of seen] unfolding reports_def by (auto split: if_split_asm)
  then show ?thesis unfolding drive_def
    using ended_unlock(2)[OF assms] by (intro reports_bind reports_finally) auto
qed

lemma reports_some_lift: "reports i m \<Longrightarrow> reports_some i (ebind m (\<lambda>out. ereturn (Some out)))"
  by (fastforce simp: reports_def reports_some_def ebind_Inr ereturn_def)

lemma reports_some_None: "reports_some i (ereturn None)" "reports_some i (eraise e)"
  by (simp_all add: reports_some_def ereturn_def eraise_def)

lemma reports_some_bind: "(\<And>x. reports_some i (f x)) \<Longrightarrow> reports_some i (ebind m f)"
  by (fastforce simp: reports_some_def ebind_Inr)

lemma reports_some_catch: "reports_some i m \<Longrightarrow> (\<And>e. reports_some i (h e)) \<Longrightarrow> reports_some i (ecatch m h)"
  by (fastforce simp: reports_some_def ecatch_Inr)

lemma reports_some_finally:
  "reports_some i m \<Longrightarrow> (\<And>s. ended i (xs_db s) \<Longrightarrow> ended i (xs_db (g s))) \<Longrightarrow> reports_some i (efinally m g)"
  by (fastforce simp: reports_some_def efinally_def split: prod.splits if_splits)

lemmas reports_some_rules = reports_some_lift reports_some_None reports_some_bind

lemma session_reports:
  assumes "others_keep (rn_run_id r) W"
  shows "reports_some (rn_run_id r) (execute_with_session W cfg cl r j)"
proof -
  have end_with: "reports_some (rn_run_id r) (ebind (finish_run W (rn_run_id r) ev no_totals None lease) (\<lambda>out. ereturn (Some out)))"
    if "event_type ev \<in> set TERMINAL_TYPES" for ev lease
    by (rule reports_some_lift[OF finish_reports[OF that]])
  have held: "reports_some (rn_run_id r) (held_drive W cfg cl r j lease)" for lease
    unfolding held_drive_def
    by (rule reports_some_catch[OF reports_some_lift[OF drive_reports[OF assms]]])
      (auto intro!: reports_some_None reports_some_bind end_with terminal_kinds)
  show ?thesis unfolding execute_with_session_def
    by (auto intro!: held reports_some_bind reports_some_None reports_some_finally end_with terminal_kinds ended_unlock(1)[OF assms]
        split: option.split)
qed

section \<open>Nothing is left behind\<close>

definition tidy_state :: "exec_state \<Rightarrow> bool" where
  "tidy_state s \<longleftrightarrow> \<not> xs_workspace s \<and> xs_gate s = None"

definition tidy :: "'a exec \<Rightarrow> bool" where
  "tidy m \<longleftrightarrow> (\<forall>s r s'. m s = (r, s') \<longrightarrow> tidy_state s \<longrightarrow> r \<noteq> Inl XRunning \<longrightarrow> tidy_state s')"

lemma tidyD: "tidy m \<Longrightarrow> m s = (r, s') \<Longrightarrow> tidy_state s \<Longrightarrow> r \<noteq> Inl XRunning \<Longrightarrow> tidy_state s'"
  by (simp add: tidy_def)

lemma tidy_basic [intro!]: "tidy (ereturn x)" "tidy (eraise e)" "tidy (tx W f)"
  by (auto simp: tidy_def ereturn_def eraise_def tx_def tidy_state_def split: prod.splits)

lemma tidy_bind [intro!]: "tidy m \<Longrightarrow> (\<And>x. tidy (f x)) \<Longrightarrow> tidy (ebind m f)"
  by (fastforce simp: tidy_def ebind_def split: prod.splits sum.splits)

lemma tidy_catch:
  assumes "tidy m" "\<And>e. e \<noteq> XRunning \<Longrightarrow> tidy (h e)" "h XRunning = eraise XRunning"
  shows "tidy (ecatch m h)"
proof (unfold tidy_def, intro allI impI)
  fix s r s' assume run: "ecatch m h s = (r, s')" "tidy_state s" "r \<noteq> Inl XRunning"
  obtain mr s1 where m: "m s = (mr, s1)" by fastforce
  have ok: "mr \<noteq> Inl XRunning" using run assms(3) m by (auto simp: ecatch_def eraise_def)
  then have t: "tidy_state s1" using tidyD[OF assms(1) m run(2)] by simp
  show "tidy_state s'"
  proof (cases mr)
    case (Inl e)
    then show ?thesis using run ok t m tidyD[OF assms(2), of e s1 r s'] by (simp add: ecatch_def)
  qed (use run t m in \<open>simp add: ecatch_def\<close>)
qed

lemma tidy_if [intro!]: "(b \<Longrightarrow> tidy m) \<Longrightarrow> (\<not> b \<Longrightarrow> tidy m') \<Longrightarrow> tidy (if b then m else m')"
  by simp

lemma tidy_finish [intro!]: "tidy (finish_run W i ev totals mode lease)"
  unfolding finish_run_def save_usage_def write_event_def
  by (intro tidy_bind tidy_catch) (auto simp: is_conflict_def eraise_def)

lemma tidy_small [intro!]: "tidy (run_cancel_flag W i)" "tidy (put_back W cfg i)" "tidy (lock_session W cfg a sid i)"
  unfolding run_cancel_flag_def put_back_def lock_session_def by blast+

lemma unlock_sel [simp]: "xs_workspace (unlock_session W l s) = xs_workspace s" "xs_gate (unlock_session W l s) = xs_gate s"
  by (simp_all add: unlock_session_def tx_def)

lemma close_gate_workspace [simp]: "xs_workspace (close_gate W s) = xs_workspace s"
  by (simp add: close_gate_def split: option.split)

lemma lock_session_Inr: "\<exists>l s1. lock_session W cfg a sid i s = (Inr l, s1)"
  by (simp add: lock_session_def tx_def split: prod.split)

interpretation ws: state_relation "\<lambda>s t. xs_workspace t \<longrightarrow> xs_workspace s"
  by unfold_locales auto

lemma finish_keeps_workspace:
  assumes "finish_run W i ev totals mode lease s = (r, s')" "\<not> xs_workspace s"
  shows "\<not> xs_workspace s'"
proof -
  have tx: "along (\<lambda>s t. xs_workspace t \<longrightarrow> xs_workspace s) (tx W f)" for f
    by (auto simp: along_def tx_def split: prod.splits)
  have "along (\<lambda>s t. xs_workspace t \<longrightarrow> xs_workspace s) (finish_run W i ev totals mode lease)"
    unfolding finish_run_def save_usage_def write_event_def
    by (intro ws.along_bind ws.along_catch tx) auto
  then show ?thesis using assms unfolding along_def by (metis snd_conv)
qed

lemma attempts_gate:
  "auth_attempts W cfg i deadline n s = (r, s') \<Longrightarrow> xs_workspace s' = xs_workspace s \<and> ((\<exists>e. r = Inl e) \<longrightarrow> xs_gate s' = xs_gate s)"
proof (induction n arbitrary: s)
  case (Suc n)
  obtain l s1 where lock: "lock_session W cfg ''__codex_auth__'' ''refresh'' i s = (Inr l, s1)"
    using lock_session_Inr by blast
  then have 1: "xs_workspace s1 = xs_workspace s" "xs_gate s1 = xs_gate s" by (auto simp: lock_session_def tx_def split: prod.splits)
  obtain c s2 where flag: "run_cancel_flag W i s1 = (Inr c, s2)" by (auto simp: run_cancel_flag_def tx_def)
  then have 2: "xs_workspace s2 = xs_workspace s1" "xs_gate s2 = xs_gate s1" by (auto simp: run_cancel_flag_def tx_def)
  show ?case using Suc.prems Suc.IH[of s2] 1 2
    by (cases l) (auto simp: ebind_def lock flag split: if_split_asm)
qed (simp add: eraise_def)

lemma auth_gate_state:
  assumes "codex_auth_gate W cfg cl i s = (r, s')"
  shows "xs_workspace s' = xs_workspace s \<and> ((\<exists>e. r = Inl e) \<longrightarrow> xs_gate s' = xs_gate s)"
proof -
  obtain ar s1 where a: "auth_attempts W cfg i (xw_mono W (xs_step s) + xc_codex_auth_wait_s cfg) (xw_polls W) s = (ar, s1)" by fastforce
  show ?thesis using assms attempts_gate[OF a]
    by (auto simp: codex_auth_gate_def Let_def ebind_def a ereturn_def split: if_split_asm sum.splits)
qed

lemma held_gate_workspace:
  "drive_held_gate W cfg cl r j lease seen s = (x, s') \<Longrightarrow> x \<noteq> Inl XRunning \<Longrightarrow> \<not> xs_workspace s'"
  by (auto simp: drive_held_gate_def efinally_def split: prod.splits if_splits)

lemma tidy_drive: "tidy (drive W cfg cl r j lease)"
proof (unfold tidy_def, intro allI impI)
  fix s x s'
  assume run: "drive W cfg cl r j lease s = (x, s')" and t: "tidy_state s" "x \<noteq> Inl XRunning"
  obtain g s1 where gate: "codex_auth_gate W cfg cl (rn_run_id r) s = (g, s1)" by fastforce
  note g = auth_gate_state[OF gate]
  define m where "m seen = (\<lambda>s. if xs_gate s \<noteq> None
        then ebind (run_cancel_flag W (rn_run_id r)) (\<lambda>c. if c then finish_run W (rn_run_id r) RunCancelled no_totals None lease
               else drive_held_gate W cfg cl r j lease seen) s
        else drive_held_gate W cfg cl r j lease seen s)" for seen
  show "tidy_state s'"
  proof (cases g)
    case (Inl e)
    then show ?thesis using run g t(1) by (simp add: drive_def ebind_def gate tidy_state_def)
  next
    case (Inr seen)
    obtain y s2 where inner: "m seen s1 = (y, s2)" by fastforce
    have "efinally (m seen) (close_gate W) s1 = (x, s')" using run by (simp add: drive_def ebind_def gate Inr m_def)
    then have y: "y \<noteq> Inl XRunning" "s' = close_gate W s2" using t(2) by (auto simp: efinally_def inner split: if_splits)
    have "\<not> xs_workspace s2"
    proof (cases "xs_gate s1 = None")
      case True
      then show ?thesis using inner held_gate_workspace[of W cfg cl r j lease seen s1 y s2] y by (simp add: m_def)
    next
      case False
      obtain c s3 where flag: "run_cancel_flag W (rn_run_id r) s1 = (Inr c, s3)" by (auto simp: run_cancel_flag_def tx_def)
      then have ws: "\<not> xs_workspace s3" using g t(1) by (auto simp: run_cancel_flag_def tx_def tidy_state_def)
      show ?thesis
      proof (cases c)
        case True
        then show ?thesis using inner False ws by (auto simp: m_def ebind_def flag dest: finish_keeps_workspace)
      next
        case False
        then show ?thesis using inner \<open>xs_gate s1 \<noteq> None\<close> held_gate_workspace[of W cfg cl r j lease seen s3 y s2] y
          by (simp add: m_def ebind_def flag)
      qed
    qed
    then show ?thesis by (simp add: y(2) tidy_state_def)
  qed
qed

lemma tidy_session: "tidy (execute_with_session W cfg cl r j)"
proof -
  have held: "tidy (held_drive W cfg cl r j lease)" for lease
    unfolding held_drive_def by (rule tidy_catch) (auto intro!: tidy_drive)
  have "tidy (efinally (held_drive W cfg cl r j lease) (unlock_session W l))" for lease l
    using held[of lease] by (fastforce simp: tidy_def efinally_def tidy_state_def split: prod.splits if_splits)
  then show ?thesis unfolding execute_with_session_def by (auto intro!: held split: option.split)
qed

lemma find_run_id: "find_run i d = Some r \<Longrightarrow> rn_run_id r = i"
  using find_row_SomeD by (fastforce simp: find_run_def)


section \<open>Waiting for quota\<close>

lemma back_to_pending_sel [simp]: "j_status (back_to_pending nb why j) = Pending" "j_run_after (back_to_pending nb why j) = Some nb"
  "j_id (back_to_pending nb why j) = j_id j"
  by (simp_all add: back_to_pending_def)

lemma park_pending:
  assumes "park_for_quota e i nb nb_iso reported lease reason d = (Inr n, d')"
  obtains j r where "find_job i d' = Some j" "j_status j = Pending" "j_run_after j = Some nb"
    "find_run i d = Some r" "rn_outcome r = None" "find_run i d' = Some (parked_run (re_now e) r)"
proof -
  obtain r j where rj: "find_run i d = Some r" "find_job i d = Some j" "rn_outcome r = None"
      "d' = set_job i (back_to_pending nb ''waiting_quota'')
        (add_event (re_now e) i (rn_last_seq (parked_run (re_now e) r)) ''run.waiting_quota''
          (waiting_payload nb_iso (rn_quota_waits (parked_run (re_now e) r)) reported reason) (set_run i (\<lambda>_. parked_run (re_now e) r) d))"
    using assms by (auto simp: park_for_quota_def Let_def split: if_splits option.splits)
  let ?d1 = "add_event (re_now e) i (rn_last_seq (parked_run (re_now e) r)) ''run.waiting_quota''
          (waiting_payload nb_iso (rn_quota_waits (parked_run (re_now e) r)) reported reason) (set_run i (\<lambda>_. parked_run (re_now e) r) d)"
  have "find_job i ?d1 = Some j" using rj(2) by (simp add: find_job_def add_event_def set_run_def)
  then have "find_job i d' = Some (back_to_pending nb ''waiting_quota'' j)"
    unfolding rj(4) by (rule find_job_set_job) (simp add: find_job_id[OF rj(2)])
  moreover have "find_run i d' = Some (parked_run (re_now e) r)"
  proof -
    have "rn_run_id (parked_run (re_now e) r) = i" using find_run_id[OF rj(1)] by (simp add: parked_run_def)
    then show ?thesis
      using update_where_found[of rn_run_id i "rd_runs d" r "parked_run (re_now e) r"] rj(1)
      by (simp add: rj(4) find_run_def add_event_def set_run_def set_job_def)
  qed
  ultimately show ?thesis using rj(1,3) by (intro that[of "back_to_pending nb ''waiting_quota'' j" r]) simp_all
qed

text \<open>
  C17. A run whose subscription quota is exhausted waits or ends: when it is parked,
  the job is pending again for a time before its deadline, at least five seconds after the reset the
  tool reported, or after a backoff that is capped when it reported none, and the run stays open.
  When no such time is left, the run ends as failed.
\<close>

theorem quota_wait_stays_before_the_deadline:
  assumes "wait_for_quota W cfg r j msg reset_at totals mode lease s = (Inr out, s')"
  defines "e \<equiv> xw_env W (xs_step s)"
  shows "out = ''waiting_quota'' \<and>
      (\<exists>j' r' nb. find_job (rn_run_id r) (xs_db s') = Some j' \<and> j_status j' = Pending \<and> j_run_after j' = Some nb \<and>
         nb < job_deadline j \<and> find_run (rn_run_id r) (xs_db s') = Some r' \<and> rn_outcome r' = None \<and>
         (case quota_reset e reset_at of Some t \<Rightarrow> t + 5 \<le> nb | None \<Rightarrow> nb \<le> re_now e + xc_quota_backoff_cap_s cfg)) \<or>
    out = ''failed'' \<and> ended (rn_run_id r) (xs_db s') \<and>
      job_deadline j \<le> re_now e + quota_delay cfg (re_now e) (quota_reset e reset_at) (rn_quota_waits r)"
proof (cases "job_deadline j \<le> re_now e + quota_delay cfg (re_now e) (quota_reset e reset_at) (rn_quota_waits r)")
  case True
  then obtain msg' where fin: "finish_run W (rn_run_id r) (RunFailed ''quota_exhausted'' msg' reset_at) totals (Some mode) lease s = (Inr out, s')"
    using assms(1) by (simp add: wait_for_quota_def Let_def e_def)
  have "out = ''failed''" using fin by (auto simp: finish_run_def ebind_Inr ereturn_def OUTCOME_BY_TYPE_def)
  then show ?thesis using reportsD[OF finish_reports[OF terminal_kinds(1)] fin] True by simp
next
  case False
  define nb where "nb = re_now e + quota_delay cfg (re_now e) (quota_reset e reset_at) (rn_quota_waits r)"
  have bound: "case quota_reset e reset_at of Some t \<Rightarrow> t + 5 \<le> nb | None \<Rightarrow> nb \<le> re_now e + xc_quota_backoff_cap_s cfg"
    by (auto simp: nb_def quota_delay_def split: option.split)
  define f where "f = (\<lambda>e' d. case park_for_quota e' (rn_run_id r) nb (xw_isof W nb @ ''Z'') (quota_reset e reset_at \<noteq> None) lease
      (char_take 300 msg) d of (x, d') \<Rightarrow> (lift_error x, d'))"
  obtain s1 n where out: "out = ''waiting_quota''" and park: "tx W f s1 = (Inr n, s')"
    using assms(1) False unfolding wait_for_quota_def Let_def e_def[symmetric] nb_def[symmetric] f_def[symmetric]
    by (auto simp: ebind_Inr ereturn_def)
  obtain x d' where call: "park_for_quota (xw_env W (xs_step s1)) (rn_run_id r) nb (xw_isof W nb @ ''Z'') (quota_reset e reset_at \<noteq> None) lease
      (char_take 300 msg) (xw_between W (xs_step s1) (xs_db s1)) = (x, d')" by fastforce
  have "lift_error x = Inr n" "d' = xs_db s'" using park unfolding tx_def f_def call by auto
  then have "x = Inr n" by (cases x) (simp_all add: lift_error_def)
  from park_pending[OF call[unfolded this \<open>d' = xs_db s'\<close>]] obtain j' r0
    where p: "find_job (rn_run_id r) (xs_db s') = Some j'" "j_status j' = Pending" "j_run_after j' = Some nb" "rn_outcome r0 = None"
      "find_run (rn_run_id r) (xs_db s') = Some (parked_run (re_now (xw_env W (xs_step s1))) r0)" by blast
  then show ?thesis using out bound False
    by (intro disjI1 conjI exI[of _ j'] exI[of _ "parked_run (re_now (xw_env W (xs_step s1))) r0"] exI[of _ nb])
       (simp_all add: parked_run_def nb_def)
qed

section \<open>An execution\<close>

definition demo_cli :: cli where
  "demo_cli = \<lparr>cl_codex = False, cl_supports_resume = True, cl_billing = Some ''subscription'', cl_attestation = Some (''oauth'', ''first_party''),
     cl_models = None, cl_last_refresh = \<lambda>_. None, cl_events = \<lambda>_. [], cl_crash = None, cl_collect = \<lambda>_. [], cl_images = [],
     cl_out_images = \<lambda>_ _. []\<rparr>"

definition demo_config :: exec_config where
  "demo_config = \<lparr>xc_workspace_root = ''/tmp'', xc_cancel_poll_s = 1, xc_session_busy_delay_s = 5, xc_session_busy_max = 60, xc_lease_ttl_s = 120, xc_paid_off = True,
     xc_codex_paid_off = False, xc_codex_auth_wait_s = 90, xc_refresh_due_after_s = 0, xc_refresh_proof_s = 0,
     xc_refresh_proof_max_age_s = 0, xc_quota_backoff_base_s = 60, xc_quota_backoff_cap_s = 1800, xc_env = [(''PATH'', ''/bin'')]\<rparr>"

text \<open>A silent tool, looked at again when the wall limit has passed.\<close>

definition demo_exec_world :: exec_world where
  "demo_exec_world = \<lparr>xw_between = \<lambda>_ d. d, xw_env = \<lambda>_. demo_run_env, xw_isof = \<lambda>_. ''t'', xw_mono = \<lambda>_. 0, xw_polls = 0,
     xw_ticks = [\<lparr>tk_now = 2000, tk_lost = False, tk_gate_lost = False, tk_ready = False, tk_after = 2000\<rparr>], xw_gate_lost = False,
     xw_settings = default_settings, xw_allowed = [], xw_policy = [],
     xw_snapshot = Some [(3, \<lparr>aa_enabled = True, aa_models = [''m''], aa_accounts = [''owner'']\<rparr>)], xw_rows = None,
     xw_project_cap = None, xw_adapter = \<lambda>_. Some demo_cli\<rparr>"

definition demo_agent_run :: AgentRunRow where
  "demo_agent_run = (side_row demo_new_run 1)\<lparr>rn_model := Some ''m''\<rparr>"

definition demo_exec_state :: exec_state where
  "demo_exec_state = \<lparr>xs_db = set_run 1 (\<lambda>_. demo_agent_run) demo_created, xs_step = 0, xs_proof = None, xs_workspace = False, xs_cli = False,
     xs_stopped = False, xs_gate = None\<rparr>"

lemma demo_rows: "find_run 1 (xs_db demo_exec_state) = Some demo_agent_run" "find_job 1 (xs_db demo_exec_state) = Some demo_job"
proof -
  show "find_run 1 (xs_db demo_exec_state) = Some demo_agent_run"
    using demo_created_run update_where_found[of rn_run_id 1 "rd_runs demo_created" "side_row demo_new_run 1" demo_agent_run]
    by (simp add: demo_exec_state_def find_run_def set_run_def demo_agent_run_def side_row_def)
  show "find_job 1 (xs_db demo_exec_state) = Some demo_job"
    using demo_created_job(1) by (simp add: demo_exec_state_def find_job_def set_run_def)
qed

text \<open>The tool that is started stays started.\<close>

interpretation up: state_relation "\<lambda>s t. xs_cli s \<longrightarrow> xs_cli t"
  by unfold_locales auto

definition started :: "'a exec \<Rightarrow> exec_state \<Rightarrow> bool" where
  "started m s \<longleftrightarrow> xs_cli (snd (m s))"

abbreviation stays_up :: "'a exec \<Rightarrow> bool" where
  "stays_up \<equiv> along (\<lambda>s t. xs_cli s \<longrightarrow> xs_cli t)"

lemma started_rules:
  "started m s \<Longrightarrow> (\<And>x. stays_up (f x)) \<Longrightarrow> started (ebind m f) s"
  "m s = (Inr x, s1) \<Longrightarrow> started (f x) s1 \<Longrightarrow> started (ebind m f) s"
  "started m s \<Longrightarrow> (\<And>e. stays_up (h e)) \<Longrightarrow> started (ecatch m h) s"
  "started m s \<Longrightarrow> (\<And>s. xs_cli s \<Longrightarrow> xs_cli (g s)) \<Longrightarrow> started (efinally m g) s"
  by (auto simp: started_def along_def ebind_def ecatch_def efinally_def split: prod.splits sum.splits)

lemma up_tx [intro!]: "stays_up (tx W f)"
  by (auto simp: along_def tx_def split: prod.splits)

lemma up_finish [intro!]: "stays_up (finish_run W i ev totals mode lease)"
  unfolding finish_run_def save_usage_def write_event_def by (intro up.along_bind up.along_catch up_tx) auto

lemma up_end: "stays_up (end_run W cfg cl r j mode lease (RunTimedOut l, rest))"
  by (auto simp: end_run_def split: prod.split)

text \<open>An event that does not end an open run is written.\<close>

lemma append_open:
  assumes "find_run i d = Some r" "rn_outcome r = None" "event_type ev \<notin> set TERMINAL_TYPES" "\<And>j. gated_event e j ev = ev"
  obtains n d' where "append_event e i ev None False d = (Inr n, d')" "find_run i d' = Some (run_after_event e ev r)"
proof -
  define r1 where "r1 = run_after_event e ev r"
  have rid: "rn_run_id r1 = i" using find_run_id[OF assms(1)] run_after_event_log(1)[OF assms(2)] by (simp add: r1_def)
  define d1 where "d1 = add_event (re_now e) i (rn_last_seq r1) (event_type ev) (event_payload ev) (set_run i (\<lambda>_. r1) d)"
  have found: "find_run i d1 = Some r1"
    using update_where_found[of rn_run_id i "rd_runs d" r r1] assms(1) rid by (simp add: d1_def find_run_def add_event_def set_run_def)
  define d' where "d' = (case (if reads_job ev then find_job i d else None) of
      None \<Rightarrow> d1 | Some j \<Rightarrow> set_job i (\<lambda>_. job_after_event e ev j) d1)"
  have "append_event e i ev None False d = (Inr (rn_last_seq r1), d')"
    using assms(1-3) unfolding append_event_def Let_def d'_def d1_def r1_def
    by (cases "find_job i d") (simp_all add: check_fence_def assms(4))
  moreover have "find_run i d' = Some r1" using found by (simp add: d'_def split: option.split)
  ultimately show ?thesis using that by (simp add: r1_def)
qed

lemma write_open:
  assumes "find_run i (xs_db s) = Some r" "rn_outcome r = None" "event_type ev \<notin> set TERMINAL_TYPES" "\<And>e j. gated_event e j ev = ev"
    and "\<And>n d. xw_between W n d = d"
  obtains n s1 r1 where "write_event W i ev None s = (Inr n, s1)" "find_run i (xs_db s1) = Some r1" "rn_outcome r1 = None"
    "xs_gate s1 = xs_gate s"
proof (rule append_open[OF assms(1,2,3), of "xw_env W (xs_step s)"])
  fix n d' assume "append_event (xw_env W (xs_step s)) i ev None False (xs_db s) = (Inr n, d')"
    "find_run i d' = Some (run_after_event (xw_env W (xs_step s)) ev r)"
  moreover have "rn_outcome (run_after_event (xw_env W (xs_step s)) ev r) = None"
    using run_after_event_log(3)[OF assms(2)] assms(3) by (auto simp: outcome_terminal terminal_type_def)
  ultimately show ?thesis
    by (intro that[of n "s\<lparr>xs_db := d', xs_step := Suc (xs_step s)\<rparr>"]) (auto simp: write_event_def tx_def assms(5) lift_error_def)
qed (rule assms(4))

lemma demo_stream:
  "xs_gate s = None \<Longrightarrow> \<exists>s1. run_stream demo_exec_world demo_config demo_cli sp seen 1 None 1800 idle s = (Inr (RunTimedOut ''wall'', [], no_totals), s1) \<and>
     xs_cli s1 \<and> xs_stopped s1"
  by (simp add: run_stream_def Let_def demo_exec_world_def stream_turn_def poll_cancel_def ebind_def ereturn_def stop_stream_def must_stop_def
      close_gate_def opt_or_def)

definition demo_spec :: run_spec where
  "demo_spec = spec_of demo_config demo_agent_run demo_job None (JStr ''p'') []"

theorem stream_ends_and_stops_the_tool_witness:
  "\<exists>r s1. run_stream demo_exec_world demo_config demo_cli demo_spec None 1 None 1800 300 demo_exec_state = (r, s1) \<and> xs_gate s1 = None \<and>
     r = Inr (RunTimedOut ''wall'', [], no_totals) \<and> xs_stopped s1"
proof -
  obtain s1 where run: "run_stream demo_exec_world demo_config demo_cli demo_spec None 1 None 1800 300 demo_exec_state = (Inr (RunTimedOut ''wall'', [], no_totals), s1)"
    using demo_stream[of demo_exec_state demo_spec None 300] by (auto simp: demo_exec_state_def)
  have "list_ex (\<lambda>tk. tk_now tk - xw_mono demo_exec_world (xs_step demo_exec_state) \<ge> 1800) (xw_ticks demo_exec_world)"
    by (simp add: demo_exec_world_def)
  from stream_ends_and_stops_the_tool[OF this run] run show ?thesis by auto
qed

lemma demo_job_request:
  "obj_get (j_request demo_job) ''wall_timeout_s'' = Some (JInt 1800)" "obj_get (j_request demo_job) ''attachments'' = Some (JList [])"
  "obj_get (j_request demo_job) ''prompt'' = Some (JStr ''p'')"
  "obj_get (j_request demo_job) ''deadline_s'' = Some (JInt 21600)" "j_created_at demo_job = 5"
  by code_simp+

lemma demo_facts:
  "rn_run_id demo_agent_run = 1" "rn_project_id demo_agent_run = 3" "rn_capability demo_agent_run = ''agent:claude''" "rn_account_id demo_agent_run = ''owner''"
  "rn_resume_session_id demo_agent_run = None" "rn_cancel_requested demo_agent_run = False" "rn_outcome demo_agent_run = None" "rn_model demo_agent_run = Some ''m''"
  "rn_quota_waits demo_agent_run = 0"
  by (simp_all add: demo_agent_run_def side_row_def demo_new_run_def)

lemma demo_job_facts: "tools_of demo_job = []" "job_deadline demo_job = 21605" "fst (stream_limits demo_job) = 1800"
proof -
  show "tools_of demo_job = []" by code_simp
  show "job_deadline demo_job = 21605" by (simp add: job_deadline_def number_of_def demo_job_request)
  show "fst (stream_limits demo_job) = 1800" by (simp add: stream_limits_def Let_def number_of_def demo_job_request)
qed

lemma demo_early: "early_end demo_exec_world demo_agent_run demo_job 10 = None"
  by (simp add: early_end_def demo_facts demo_job_facts tools_refused_def access_now_def Let_def access_problem_def project_allowed_def access_for_def
      account_only_def ACCOUNT_ONLY_def policy_violation_def policy_for_def has_policy_def allows_model_def allows_account_def
      demo_exec_world_def)

lemma demo_billing: "billing_verdict demo_config demo_cli demo_agent_run demo_job = (''subscription'', None)"
proof -
  have "forbidden_env_present ''agent:claude'' [(''PATH'', ''/bin'')] = []" by code_simp
  then show ?thesis
    by (simp add: billing_verdict_def demo_facts check_billing_mode_def FORBIDDEN_ENV_def demo_cli_def demo_config_def verified_off_def
        opt_or_def paid_continuation_refusal_def)
qed

lemma demo_tool: "cl_attestation demo_cli = Some (''oauth'', ''first_party'')" "\<not> cl_codex demo_cli" "xc_paid_off demo_config"
  "xw_project_cap demo_exec_world = None" "xw_adapter demo_exec_world c = Some demo_cli"
  by (simp_all add: demo_cli_def demo_config_def demo_exec_world_def)

lemma demo_body_starts:
  assumes "find_run 1 (xs_db s) = Some demo_agent_run" "xs_gate s = None"
  shows "started (drive_body demo_exec_world demo_config demo_cli demo_agent_run demo_job None seen) s"
proof -
  let ?W = demo_exec_world
  have same: "xw_between ?W n d = d" for n d by (simp add: demo_exec_world_def)
  let ?r = "demo_agent_run\<lparr>rn_workspace := Some (workspace_path ''/tmp'' 1)\<rparr>"
  define s1 where "s1 = snd (note_workspace ?W demo_config 1 None s)"
  have fence: "note_workspace ?W demo_config 1 None s = (Inr (), s1)" "xs_gate s1 = None"
    using assms(2) by (simp_all add: s1_def note_workspace_def tx_def check_fence_def same)
  have row: "find_run 1 (xs_db s1) = Some ?r"
    using assms(1) by (simp add: s1_def note_workspace_def tx_def check_fence_def same find_run_def set_run_def find_update_same demo_config_def)
  let ?start = "RunStarted ''agent:claude'' ''owner'' None" and ?bill = "BillingAttested ''oauth'' ''first_party'' True None (Some ''owner'')"
  have quiet: "event_type ?start \<notin> set TERMINAL_TYPES" "event_type ?bill \<notin> set TERMINAL_TYPES"
    "gated_event e j ?start = ?start" "gated_event e j ?bill = ?bill" for e j
    by (simp_all add: TERMINAL_TYPES_def gated_event_def)
  obtain n2 s2 r2 where w2: "write_event ?W 1 ?start None s1 = (Inr n2, s2)" "find_run 1 (xs_db s2) = Some r2" "rn_outcome r2 = None"
      "xs_gate s2 = None"
    by (rule write_open[OF row _ quiet(1,3) same]) (use fence(2) in \<open>simp_all add: demo_facts\<close>)
  obtain n3 s3 r3 where w3: "write_event ?W 1 ?bill None s2 = (Inr n3, s3)" "xs_gate s3 = None"
    by (rule write_open[OF w2(2,3) quiet(2,4) same]) (use w2(4) in simp_all)
  have stream: "started (ebind (run_stream ?W demo_config demo_cli sp seen 1 None 1800 idle)
      (end_run ?W demo_config demo_cli demo_agent_run demo_job ''subscription'' None)) s3" for sp idle
  proof -
    obtain s4 where "run_stream ?W demo_config demo_cli sp seen 1 None 1800 idle s3 = (Inr (RunTimedOut ''wall'', [], no_totals), s4)" "xs_cli s4"
      using demo_stream[OF w3(2)] by blast
    then show ?thesis
      using up_end[of ?W demo_config demo_cli demo_agent_run demo_job "''subscription''" None "''wall''" "([], no_totals)"]
      by (intro started_rules(2)) (auto simp: started_def along_def)
  qed
  have "started (start_cli ?W demo_config demo_cli demo_agent_run demo_job ''subscription'' None seen) s3"
    using stream[of _ "snd (stream_limits demo_job)"] w3(2)
    by (simp add: started_def start_cli_def check_model_def demo_facts demo_job_facts demo_cli_def demo_job_request list_or_empty_def
        write_attachments_def validate_attachments_def)
  moreover have "drive_body ?W demo_config demo_cli demo_agent_run demo_job None seen =
      ebind (note_workspace ?W demo_config 1 None) (\<lambda>_.
      ebind (write_event ?W 1 ?start None) (\<lambda>_. ebind (write_event ?W 1 ?bill None) (\<lambda>_.
      start_cli ?W demo_config demo_cli demo_agent_run demo_job ''subscription'' None seen)))"
    by (simp add: drive_body_def demo_facts given_def demo_billing demo_tool verified_off_def)
  ultimately show ?thesis by (simp add: started_def ebind_def fence(1) w2(1) w3(1))
qed

lemma up_rest [intro!]: "stays_up (run_cancel_flag W i)" "stays_up (put_back W cfg i)"
  unfolding run_cancel_flag_def put_back_def by (rule up_tx)+

lemma demo_starts: "started (execute_run demo_exec_world demo_config 1) demo_exec_state"
proof -
  let ?W = demo_exec_world and ?c = demo_config and ?s = "after_read demo_exec_world demo_exec_state"
  have rows: "read_rows ?W 1 demo_exec_state = (Some demo_agent_run, Some demo_job)" "find_run 1 (xs_db ?s) = Some demo_agent_run" "xs_gate ?s = None"
    using demo_rows by (simp_all add: read_rows_def Let_def demo_exec_world_def demo_exec_state_def)
  have "started (drive_held_gate ?W ?c demo_cli demo_agent_run demo_job None seen) ?s" for seen
    using started_rules(4)[OF demo_body_starts[of "?s\<lparr>xs_workspace := True\<rparr>" seen], of "\<lambda>s. s\<lparr>xs_workspace := False\<rparr>"] rows(2,3)
    by (simp add: started_def drive_held_gate_def)
  then have "started (drive ?W ?c demo_cli demo_agent_run demo_job None) ?s" unfolding drive_def
    by (intro started_rules(2)[of _ ?s None ?s] started_rules(4)) (simp_all add: started_def codex_auth_gate_def Let_def demo_tool rows(3)[simplified])
  then have "started (held_drive ?W ?c demo_cli demo_agent_run demo_job None) ?s" unfolding held_drive_def
    by (intro started_rules(1,3)) auto
  then have "started (execute_with_session ?W ?c demo_cli demo_agent_run demo_job) ?s"
    by (simp add: started_def execute_with_session_def demo_facts given_def)
  moreover have "re_now (xw_env ?W n) = 10" for n by (simp add: demo_exec_world_def demo_run_env_def)
  ultimately show ?thesis using rows(1)
    by (auto simp: execute_run_def started_def ebind_def[of "tx _ _"] tx_def read_rows_def Let_def after_read_def demo_facts demo_early demo_tool)
qed

theorem cli_starts_behind_its_guards_witness:
  "\<exists>r j cl. read_rows demo_exec_world 1 demo_exec_state = (Some r, Some j) \<and> xw_adapter demo_exec_world (rn_capability r) = Some cl \<and>
     cl_billing cl = Some ''subscription'' \<and> access_now demo_exec_world r = None \<and> input_ok cl r j"
proof -
  have "\<not> xs_cli demo_exec_state" by (simp add: demo_exec_state_def)
  from cli_starts_behind_its_guards[OF this demo_starts[unfolded started_def]] show ?thesis by blast
qed

definition demo_ended_state :: exec_state where
  "demo_ended_state = demo_exec_state\<lparr>xs_db := demo_completed\<rparr>"


lemma demo_waits:
  "\<exists>s1. wait_for_quota demo_exec_world demo_config demo_agent_run demo_job ''limit'' None no_totals ''subscription'' None demo_exec_state =
     (Inr ''waiting_quota'', s1)"
proof -
  have "xw_between demo_exec_world n d = d" "re_now (xw_env demo_exec_world n) = 10" for n d by (simp_all add: demo_exec_world_def demo_run_env_def)
  moreover have "quota_delay demo_config 10 None 0 = 60" by (simp add: quota_delay_def demo_config_def)
  ultimately show ?thesis using demo_rows
    by (simp add: wait_for_quota_def Let_def quota_reset_def demo_facts demo_job_facts ebind_def save_usage_def tx_def run_usage_def
        check_fence_def lift_error_def park_for_quota_def ereturn_def find_run_def find_job_def set_run_def find_update_same)
qed

theorem quota_wait_stays_before_the_deadline_witness:
  "\<exists>s1 j. wait_for_quota demo_exec_world demo_config demo_agent_run demo_job ''limit'' None no_totals ''subscription'' None demo_exec_state =
     (Inr ''waiting_quota'', s1) \<and> find_job 1 (xs_db s1) = Some j \<and> j_status j = Pending"
proof -
  obtain s1 where w: "wait_for_quota demo_exec_world demo_config demo_agent_run demo_job ''limit'' None no_totals ''subscription'' None demo_exec_state =
     (Inr ''waiting_quota'', s1)" using demo_waits by blast
  from quota_wait_stays_before_the_deadline[OF w] w show ?thesis by (auto simp: demo_facts)
qed

end
