(* ===== verification/Admission.thy ===== *)
theory Admission
  imports Cost_Guard Agent_Access Json_Roundtrip
begin

text \<open>
  How a caller gets in: the keys and headers of \<^verbatim>\<open>auth.py\<close>, the owner's login of
  \<^verbatim>\<open>auth_session.py\<close>, the lifetime request cap of \<^verbatim>\<open>services/request_cap.py\<close> and the public
  signup of \<^verbatim>\<open>services/signup.py\<close>. SHA-256, HMAC, random tokens and the clock are arguments. The
  audit row and the owner's notification of a signup are outside the model.
\<close>

section \<open>Keys and headers\<close>

text \<open>
  \<^verbatim>\<open>hmac.compare_digest\<close> of two texts: \<open>None\<close> is the \<^verbatim>\<open>TypeError\<close> it raises unless both are ASCII.
\<close>

definition ascii :: "string \<Rightarrow> bool" where
  "ascii s \<longleftrightarrow> list_all (\<lambda>c. (of_char c :: nat) < 128) s"

definition compare_digest :: "string \<Rightarrow> string \<Rightarrow> bool option" where
  "compare_digest a b = (if ascii a \<and> ascii b then Some (a = b) else None)"

datatype http_error = Unauthorized | Forbidden string | ServerError

definition generate_project_key :: "string \<Rightarrow> string \<Rightarrow> string" where
  "generate_project_key tok pre = pre @ tok"

definition verify_project_key :: "(string \<Rightarrow> string) \<Rightarrow> string \<Rightarrow> string \<Rightarrow> bool option" where
  "verify_project_key sha plaintext stored_hash = compare_digest (sha plaintext) stored_hash"

definition client_ip :: "string option \<Rightarrow> string option \<Rightarrow> string" where
  "client_ip forwarded_for host = (if given forwarded_for then py_strip (hd (split_on CHR '','' (the forwarded_for))) else opt_or host [])"

definition has_scope :: "ProjectRow \<Rightarrow> string \<Rightarrow> bool" where
  "has_scope p scope \<longleftrightarrow> scope \<in> set (p_allowed_scopes p)"

definition require_admin :: "string \<Rightarrow> string option \<Rightarrow> http_error + unit" where
  "require_admin admin_key header = (if \<not> given header then Inl Unauthorized
     else case compare_digest (the header) admin_key of None \<Rightarrow> Inl ServerError
       | Some eq \<Rightarrow> if eq then Inr () else Inl Unauthorized)"

text \<open>Several active projects with one hash make \<^verbatim>\<open>scalar_one_or_none\<close> raise.\<close>

definition require_project :: "(string \<Rightarrow> string) \<Rightarrow> string option \<Rightarrow> ProjectRow list \<Rightarrow> http_error + ProjectRow" where
  "require_project sha header rows = (if \<not> given header then Inl Unauthorized
     else case filter (\<lambda>p. p_key_hash p = sha (the header) \<and> p_is_active p) rows of
       [] \<Rightarrow> Inl Unauthorized | [p] \<Rightarrow> Inr p | _ \<Rightarrow> Inl ServerError)"

definition require_scope :: "(string \<Rightarrow> string) \<Rightarrow> string \<Rightarrow> string option \<Rightarrow> ProjectRow list \<Rightarrow> http_error + ProjectRow" where
  "require_scope sha scope header rows = (case require_project sha header rows of
      Inl e \<Rightarrow> Inl e
    | Inr p \<Rightarrow> if has_scope p scope then Inr p else Inl (Forbidden (''project lacks scope: '' @ scope)))"

section \<open>The owner's session\<close>

definition SESSION_TTL_S :: int where "SESSION_TTL_S = 30 * 24 * 3600"
definition TG_AUTH_FRESHNESS_S :: rat where "TG_AUTH_FRESHNESS_S = 24 * 3600"

datatype login = NotConfigured | DigestTypeError | NoLogin | LoggedIn int

text \<open>\<open>hexmac key msg\<close> is the hexadecimal HMAC-SHA256, \<open>sha_raw\<close> the raw SHA-256 digest.\<close>

definition verify_telegram_widget ::
  "(string \<Rightarrow> string \<Rightarrow> string) \<Rightarrow> (string \<Rightarrow> string) \<Rightarrow> string \<Rightarrow> rat \<Rightarrow> (string \<times> string) list \<Rightarrow> login" where
  "verify_telegram_widget hexmac sha_raw bot_token now data =
     (if bot_token = [] \<or> \<not> given (map_of data ''hash'') then NoLogin
      else let pairs = sort_key fst (filter (\<lambda>(k, v). k \<noteq> ''hash'' \<and> v \<noteq> []) data);
               check = join_with [CHR 0x0A] (map (\<lambda>(k, v). k @ ''='' @ v) pairs)
           in case compare_digest (hexmac (sha_raw bot_token) check) (the (map_of data ''hash'')) of
                None \<Rightarrow> DigestTypeError
              | Some eq \<Rightarrow>
                  if \<not> eq then NoLogin
                  else case py_int_str (opt_or (map_of data ''auth_date'') ''0'') of
                         None \<Rightarrow> NoLogin
                       | Some t \<Rightarrow> if \<bar>now - of_int t\<bar> > TG_AUTH_FRESHNESS_S then NoLogin
                                   else (case Option.bind (map_of data ''id'') py_int_str of None \<Rightarrow> NoLogin | Some uid \<Rightarrow> LoggedIn uid))"

definition cookie_payload :: "int \<Rightarrow> int \<Rightarrow> string" where
  "cookie_payload user_id expiry = show_int user_id @ ''.'' @ show_int expiry"

text \<open>\<open>None\<close>: no session secret is configured.\<close>

definition issue_session_cookie :: "(string \<Rightarrow> string \<Rightarrow> string) \<Rightarrow> string \<Rightarrow> rat \<Rightarrow> int \<Rightarrow> (string \<times> int) option" where
  "issue_session_cookie hexmac secret now user_id = (if secret = [] then None
     else let payload = cookie_payload user_id (py_trunc now + SESSION_TTL_S)
          in Some (payload @ ''.'' @ hexmac secret payload, SESSION_TTL_S))"

definition verify_session_cookie :: "(string \<Rightarrow> string \<Rightarrow> string) \<Rightarrow> string \<Rightarrow> rat \<Rightarrow> string option \<Rightarrow> login" where
  "verify_session_cookie hexmac secret now cookie =
     (if \<not> given cookie then NoLogin
      else case split_on CHR ''.'' (the cookie) of
        [uid_s, exp_s, sig] \<Rightarrow>
          (case (py_int_str uid_s, py_int_str exp_s) of
             (Some uid, Some expiry) \<Rightarrow>
               if of_int expiry < now then NoLogin
               else if secret = [] then NotConfigured
               else (case compare_digest (hexmac secret (cookie_payload uid expiry)) sig of
                       None \<Rightarrow> DigestTypeError | Some eq \<Rightarrow> if eq then LoggedIn uid else NoLogin)
           | _ \<Rightarrow> NoLogin)
      | _ \<Rightarrow> NoLogin)"

definition require_owner_session ::
  "(string \<Rightarrow> string \<Rightarrow> string) \<Rightarrow> string \<Rightarrow> string \<Rightarrow> int \<Rightarrow> rat \<Rightarrow> string option \<Rightarrow> string option \<Rightarrow> http_error + int" where
  "require_owner_session hexmac secret admin_key owner now admin_header cookie =
     (let by_cookie = (case verify_session_cookie hexmac secret now cookie of
            LoggedIn uid \<Rightarrow> if uid = owner then Inr uid else Inl Unauthorized
          | NoLogin \<Rightarrow> Inl Unauthorized
          | _ \<Rightarrow> Inl ServerError)
      in if given admin_header then
           (case compare_digest (the admin_header) admin_key of
              None \<Rightarrow> Inl ServerError | Some eq \<Rightarrow> if eq then Inr 0 else by_cookie)
         else by_cookie)"

section \<open>The request cap\<close>

datatype cap_error = RequestCapExhausted int int

definition has_allowance :: "int \<Rightarrow> ProjectRow \<Rightarrow> bool" where
  "has_allowance i r \<longleftrightarrow> p_id r = i \<and> (case p_total_request_cap r of None \<Rightarrow> True | Some cap \<Rightarrow> p_total_requests_used r < cap)"

definition spend_request :: "ProjectRow \<Rightarrow> ProjectRow" where
  "spend_request r = r\<lparr>p_total_requests_used := p_total_requests_used r + 1\<rparr>"

text \<open>
  \<open>project\<close> is the row as it was read at authentication; the statement meets the live table
  \<open>rows\<close>, and the read that explains a refusal meets \<open>later\<close>.
\<close>

definition admit_request :: "ProjectRow \<Rightarrow> ProjectRow list \<Rightarrow> ProjectRow list \<Rightarrow> cap_error option \<times> ProjectRow list" where
  "admit_request project rows later =
     (if p_total_request_cap project = None then (None, rows)
      else if list_ex (has_allowance (p_id project)) rows
      then (None, update_where (has_allowance (p_id project)) spend_request rows)
      else case find_row p_id (p_id project) later of
        None \<Rightarrow> (None, rows)
      | Some live \<Rightarrow> (case p_total_request_cap live of
            None \<Rightarrow> (None, rows)
          | Some cap \<Rightarrow> (Some (RequestCapExhausted cap (p_total_requests_used live)), rows)))"

section \<open>Signup\<close>

definition MAX_SLUG :: nat where "MAX_SLUG = 60"
definition NAME_RETRIES :: nat where "NAME_RETRIES = 5"
definition FIELD_MAX :: nat where "FIELD_MAX = 300"

definition lower_letter :: "char \<Rightarrow> bool" where
  "lower_letter c \<longleftrightarrow> c \<in> set ''abcdefghijklmnopqrstuvwxyz''"

definition slug_char :: "char \<Rightarrow> bool" where
  "slug_char c \<longleftrightarrow> lower_letter c \<or> is_digit c \<or> c = CHR ''_'' \<or> c = CHR ''-''"

text \<open>\<^verbatim>\<open>re.sub("[...]+", rep, s)\<close>: every run of such characters becomes \<open>rep\<close>.\<close>

function sub_runs :: "(char \<Rightarrow> bool) \<Rightarrow> string \<Rightarrow> string \<Rightarrow> string" where
  "sub_runs P rep [] = []"
| "sub_runs P rep (c # cs) = (if P c then rep @ sub_runs P rep (dropWhile P cs) else c # sub_runs P rep cs)"
  by pat_completeness auto
termination
  by (relation "measure (\<lambda>(P, rep, s). length s)") (auto simp: le_imp_less_Suc length_dropWhile_le)

definition rstrip_chars :: "string \<Rightarrow> string \<Rightarrow> string" where
  "rstrip_chars cs s = rev (dropWhile (\<lambda>c. c \<in> set cs) (rev s))"

definition strip_chars :: "string \<Rightarrow> string \<Rightarrow> string" where
  "strip_chars cs s = rstrip_chars cs (dropWhile (\<lambda>c. c \<in> set cs) s)"

text \<open>\<open>None\<close> is \<^verbatim>\<open>SignupNameInvalid\<close>; \<^verbatim>\<open>re.sub("^[^a-z]+", "", s)\<close> drops a leading run.\<close>

definition slugify_name :: "string \<Rightarrow> string option" where
  "slugify_name raw =
     (let s1 = strip_chars ''-_'' (sub_runs (\<lambda>c. \<not> slug_char c) ''-'' (py_lower (py_strip raw)));
          s2 = rstrip_chars ''-_'' (take MAX_SLUG (dropWhile (\<lambda>c. \<not> lower_letter c) s1))
      in if length s2 < 2 then None else Some s2)"

definition words_of :: "string \<Rightarrow> string list" where
  "words_of s = filter (\<lambda>w. w \<noteq> []) (split_on CHR '' '' (map (\<lambda>c. if is_space c then CHR '' '' else c) s))"

definition clean_field :: "string option \<Rightarrow> string" where
  "clean_field v = take FIELD_MAX (join_with '' '' (words_of (opt_or v [])))"

definition or_dash :: "string \<Rightarrow> string" where
  "or_dash s = (if s = [] then ''-'' else s)"

definition signup_notes :: "string \<Rightarrow> string \<Rightarrow> string \<Rightarrow> string \<Rightarrow> string \<Rightarrow> string" where
  "signup_notes stamp contact purpose ip user_agent =
     ''self-signup '' @ stamp @ ''Z | contact: '' @ or_dash contact @ '' | purpose: '' @ or_dash purpose @
     '' | ip: '' @ or_dash ip @ '' | ua: '' @ or_dash (clean_field (Some user_agent))"

record signup_settings =
  ss_enabled :: bool
  ss_per_ip_per_day :: int
  ss_per_day :: int
  ss_request_cap :: int
  ss_default_scopes :: string

datatype signup_error = SignupDisabled | SignupRateLimited string int | SignupNameInvalid

definition AGENT_SCOPE :: string where "AGENT_SCOPE = ''llm:agent''"
definition OWNER_ONLY_SCOPES :: "string list" where "OWNER_ONLY_SCOPES = [AGENT_SCOPE]"

definition signup_scopes :: "signup_settings \<Rightarrow> string list" where
  "signup_scopes s = filter (\<lambda>x. x \<noteq> [] \<and> x \<notin> set OWNER_ONLY_SCOPES) (map py_strip (split_on CHR '','' (ss_default_scopes s)))"

definition recent_signup :: "instant \<Rightarrow> ProjectRow \<Rightarrow> bool" where
  "recent_signup now r \<longleftrightarrow> p_self_signup r \<and> p_created_at r \<ge> now - 86400"

definition check_limits :: "signup_settings \<Rightarrow> instant \<Rightarrow> string \<Rightarrow> ProjectRow list \<Rightarrow> signup_error option" where
  "check_limits s now ip rows =
     (if \<not> ss_enabled s then Some SignupDisabled
      else if int (length (filter (recent_signup now) rows)) \<ge> ss_per_day s then Some (SignupRateLimited ''global'' (ss_per_day s))
      else if ip \<noteq> [] \<and> int (length (filter (\<lambda>r. recent_signup now r \<and> p_signup_ip r = Some ip) rows)) \<ge> ss_per_ip_per_day s
      then Some (SignupRateLimited ''ip'' (ss_per_ip_per_day s))
      else None)"

text \<open>
  The \<open>i\<close>-th insert meets the table \<open>tables i\<close>, whose unique index refuses a name that is there; \<open>hex i\<close>
  is the random suffix drawn after it. The result is the name and the number of the insert
  that succeeded.
\<close>

fun insert_unique :: "nat \<Rightarrow> (nat \<Rightarrow> ProjectRow list) \<Rightarrow> (nat \<Rightarrow> string) \<Rightarrow> string \<Rightarrow> nat \<Rightarrow> string \<Rightarrow> (string \<times> nat) option" where
  "insert_unique 0 tables hex slug i name = None"
| "insert_unique (Suc n) tables hex slug i name =
     (if name \<in> p_name ` set (tables i) then insert_unique n tables hex slug (Suc i) (take (MAX_SLUG - 5) slug @ ''-'' @ hex i)
      else Some (name, i))"

record signup_env =
  se_now :: instant
  se_stamp :: string
  se_token :: string
  se_sha :: "string \<Rightarrow> string"
  se_limits_table :: "ProjectRow list"
  se_tables :: "nat \<Rightarrow> ProjectRow list"
  se_hex :: "nat \<Rightarrow> string"
  se_next_id :: int

definition signup_row :: "signup_settings \<Rightarrow> signup_env \<Rightarrow> string \<Rightarrow> string \<Rightarrow> string \<Rightarrow> string \<Rightarrow> string \<Rightarrow> string \<Rightarrow> ProjectRow" where
  "signup_row s e plain contact purpose ip user_agent name =
     \<lparr>p_id = se_next_id e, p_name = name, p_owner_email = (if CHR ''@'' \<in> set contact then Some contact else None),
      p_key_hash = se_sha e plain, p_key_prefix = take 12 plain, p_allowed_scopes = signup_scopes s,
      p_daily_cost_cap_usd = Some 0, p_monthly_cost_cap_usd = None, p_total_request_cap = Some (ss_request_cap s),
      p_total_requests_used = 0, p_self_signup = True, p_signup_ip = (if ip = [] then None else Some ip), p_is_active = True,
      p_notes = signup_notes (se_stamp e) contact purpose ip user_agent, p_agent_enabled = False, p_agent_models = [],
      p_agent_accounts = [], p_created_at = se_now e, p_updated_at = se_now e\<rparr>"

text \<open>The project, its key in plain text, and the table with its row.\<close>

definition self_signup ::
  "signup_settings \<Rightarrow> signup_env \<Rightarrow> string \<Rightarrow> string option \<Rightarrow> string option \<Rightarrow> string \<Rightarrow> string \<Rightarrow> signup_error + ProjectRow \<times> string \<times> ProjectRow list" where
  "self_signup s e name contact purpose ip user_agent = (case slugify_name name of
      None \<Rightarrow> Inl SignupNameInvalid
    | Some slug \<Rightarrow>
        (case check_limits s (se_now e) ip (se_limits_table e) of
           Some err \<Rightarrow> Inl err
         | None \<Rightarrow>
             let plain = generate_project_key (se_token e) ''aib_prj_'' in
             (case insert_unique NAME_RETRIES (se_tables e) (se_hex e) slug 0 slug of
                None \<Rightarrow> Inl SignupNameInvalid
              | Some (final, i) \<Rightarrow>
                  let row = signup_row s e plain (clean_field contact) (clean_field purpose) ip user_agent final
                  in Inr (row, plain, se_tables e i @ [row]))))"

section \<open>Cookies\<close>

lemma split_on_no: "c \<notin> set xs \<Longrightarrow> split_on c xs = [xs]"
  by (induction xs) auto

lemma split_on_step: "c \<notin> set xs \<Longrightarrow> split_on c (xs @ c # ys) = xs # split_on c ys"
  by (induction xs) auto

lemma split_on_ne: "split_on c xs \<noteq> []"
  by (induction xs) (auto split: list.split)

lemma join_split_on: "join_with [c] (split_on c xs) = xs"
proof (induction xs)
  case (Cons x xs)
  obtain w ws where "split_on c xs = w # ws" using split_on_ne[of c xs] by (cases "split_on c xs") auto
  then show ?case using Cons by (cases ws) auto
qed simp

lemma show_int_chars: "c \<in> set (show_int n) \<Longrightarrow> json_digit c \<or> c = CHR ''-''"
  by (auto simp: show_int_def split: if_splits dest: show_nat_digits)

lemma json_digit_not: "json_digit c \<Longrightarrow> c \<noteq> CHR ''.'' \<and> c \<noteq> CHR ''-'' \<and> c \<noteq> CHR ''+'' \<and> \<not> is_space c"
  by (auto simp: json_digit_def is_space_def digit_val_def digits_def)

lemma py_strip_id: "(\<And>c. c \<in> set s \<Longrightarrow> \<not> is_space c) \<Longrightarrow> py_strip s = s"
proof -
  assume "\<And>c. c \<in> set s \<Longrightarrow> \<not> is_space c"
  then have "dropWhile is_space xs = xs" if "set xs \<subseteq> set s" for xs using that by (cases xs) auto
  then show ?thesis by (simp add: py_strip_def)
qed

lemma parse_unsigned_show: "parse_unsigned (show_nat n) = Some (int n)"
proof -
  obtain c cs where c: "show_nat n = c # cs" "json_digit c" by (rule show_nat_Cons)
  then have "digit_val c \<noteq> None" by (simp add: json_digit_def)
  then show ?thesis using c(1) parse_show_nat[of n] by (simp add: parse_unsigned_def)
qed

lemma py_int_show_int: "py_int_str (show_int n) = Some n"
proof -
  have strip: "py_strip (show_int n) = show_int n"
    by (rule py_strip_id) (auto dest!: show_int_chars json_digit_not simp: is_space_def)
  show ?thesis
  proof (cases "n < 0")
    case True
    then show ?thesis using strip parse_unsigned_show[of "nat (- n)"] by (simp add: py_int_str_def show_int_def)
  next
    case False
    obtain c cs where c: "show_nat (nat n) = c # cs" "json_digit c" by (rule show_nat_Cons)
    then show ?thesis using False strip json_digit_not[of c] parse_unsigned_show[of "nat n"] by (simp add: py_int_str_def show_int_def)
  qed
qed

lemma no_dot: "CHR ''.'' \<notin> set (show_int n)"
  using show_int_chars json_digit_not by fastforce

lemma split_cookie:
  assumes "CHR ''.'' \<notin> set sig"
  shows "split_on CHR ''.'' (cookie_payload uid expiry @ ''.'' @ sig) = [show_int uid, show_int expiry, sig]"
  using split_on_step[OF no_dot[of uid], of "show_int expiry @ ''.'' @ sig"] split_on_step[OF no_dot[of expiry], of sig] split_on_no[OF assms]
  by (simp add: cookie_payload_def)

text \<open>
  C28. The owner's cookie. A cookie the broker issues logs its user in, at any time up to its expiry
  thirty days later, and never after. Conversely, whatever a browser sends, a login as a user
  means that the text after the last dot is the broker's own MAC of that user and of an expiry
  that is not past: neither the user nor the expiry can be changed without the secret.
\<close>

theorem session_cookie_is_sound:
  assumes issued: "issue_session_cookie hexmac secret now uid = Some (cookie, ttl)"
    and hexdigest: "\<And>key msg. ascii (hexmac key msg) \<and> CHR ''.'' \<notin> set (hexmac key msg)"
  shows "verify_session_cookie hexmac secret t (Some cookie) = (if t \<le> of_int (py_trunc now + SESSION_TTL_S) then LoggedIn uid else NoLogin) \<and>
    (verify_session_cookie hexmac secret t (Some other) = LoggedIn user \<longrightarrow>
       (\<exists>uid_s exp_s expiry. other = uid_s @ ''.'' @ exp_s @ ''.'' @ hexmac secret (cookie_payload user expiry) \<and>
          py_int_str uid_s = Some user \<and> py_int_str exp_s = Some expiry \<and> t \<le> of_int expiry))"
proof
  let ?exp = "py_trunc now + SESSION_TTL_S"
  have c: "secret \<noteq> []" "cookie = cookie_payload uid ?exp @ ''.'' @ hexmac secret (cookie_payload uid ?exp)"
    using issued by (auto simp: issue_session_cookie_def Let_def split: if_splits)
  have "cookie \<noteq> []" using c(2) by simp
  then show "verify_session_cookie hexmac secret t (Some cookie) = (if t \<le> of_int ?exp then LoggedIn uid else NoLogin)"
    using split_cookie[of "hexmac secret (cookie_payload uid ?exp)" uid ?exp] hexdigest[of secret "cookie_payload uid ?exp"] c
    by (simp add: verify_session_cookie_def given_def py_int_show_int compare_digest_def)
  show "verify_session_cookie hexmac secret t (Some other) = LoggedIn user \<longrightarrow>
       (\<exists>uid_s exp_s expiry. other = uid_s @ ''.'' @ exp_s @ ''.'' @ hexmac secret (cookie_payload user expiry) \<and>
          py_int_str uid_s = Some user \<and> py_int_str exp_s = Some expiry \<and> t \<le> of_int expiry)"
  proof
    assume "verify_session_cookie hexmac secret t (Some other) = LoggedIn user"
    then obtain a b sig expiry where p: "split_on CHR ''.'' other = [a, b, sig]" "py_int_str a = Some user" "py_int_str b = Some expiry"
        "t \<le> of_int expiry" "sig = hexmac secret (cookie_payload user expiry)"
      by (auto simp: verify_session_cookie_def compare_digest_def split: if_splits list.splits option.splits)
    have "other = a @ ''.'' @ b @ ''.'' @ sig" using join_split_on[of "CHR ''.''" other] p(1) by simp
    then show "\<exists>uid_s exp_s expiry. other = uid_s @ ''.'' @ exp_s @ ''.'' @ hexmac secret (cookie_payload user expiry) \<and>
          py_int_str uid_s = Some user \<and> py_int_str exp_s = Some expiry \<and> t \<le> of_int expiry" using p by blast
  qed
qed

section \<open>The allowance under concurrent requests\<close>

text \<open>What the cap statements see of a project.\<close>

definition allowance :: "int \<Rightarrow> ProjectRow list \<Rightarrow> (int option \<times> int) list" where
  "allowance i rows = map (\<lambda>r. (p_total_request_cap r, p_total_requests_used r)) (filter (\<lambda>r. p_id r = i) rows)"

definition leaves_allowance :: "int \<Rightarrow> (ProjectRow list \<Rightarrow> ProjectRow list) \<Rightarrow> bool" where
  "leaves_allowance i g \<longleftrightarrow> (\<forall>rows. allowance i (g rows) = allowance i rows)"

text \<open>
  Admissions of one project in the order their statements run; \<open>g\<close> is what the rest of the
  system does to the table before a statement, \<open>h\<close> what it does before a refusal is read.
\<close>

fun admissions ::
  "ProjectRow \<Rightarrow> ((ProjectRow list \<Rightarrow> ProjectRow list) \<times> (ProjectRow list \<Rightarrow> ProjectRow list)) list \<Rightarrow> ProjectRow list \<Rightarrow> nat \<times> ProjectRow list" where
  "admissions p [] rows = (0, rows)"
| "admissions p ((g, h) # steps) rows = (case admit_request p (g rows) (h (g rows)) of
      (err, rows1) \<Rightarrow> (case admissions p steps rows1 of (n, rows2) \<Rightarrow> ((if err = None then 1 else 0) + n, rows2)))"

lemma has_allowance_view: "list_ex (has_allowance i) rows \<longleftrightarrow>
    list_ex (\<lambda>(cap, used). case cap of None \<Rightarrow> True | Some c \<Rightarrow> used < c) (allowance i rows)"
  by (induction rows) (auto simp: allowance_def has_allowance_def)

lemma spend_view: "allowance i (update_where (has_allowance i) spend_request rows) =
    map (\<lambda>(cap, used). (cap, if case cap of None \<Rightarrow> True | Some c \<Rightarrow> used < c then used + 1 else used)) (allowance i rows)"
  by (induction rows) (auto simp: allowance_def has_allowance_def spend_request_def)

lemma allowance_row:
  assumes "allowance i rows = [(cap, used)]"
  obtains r where "find_row p_id i rows = Some r" "p_total_request_cap r = cap" "p_total_requests_used r = used"
  using assms by (induction rows) (auto simp: allowance_def split: if_splits)

lemma admit_once:
  assumes "p_id p = i" "p_total_request_cap p \<noteq> None" "allowance i rows = [(Some cap, used)]" "allowance i later = [(Some cap, used)]"
  shows "\<exists>rows1. admit_request p rows later = (if used < cap then None else Some (RequestCapExhausted cap used), rows1) \<and>
    allowance i rows1 = [(Some cap, if used < cap then used + 1 else used)]"
proof -
  obtain r where r: "find_row p_id i later = Some r" "p_total_request_cap r = Some cap" "p_total_requests_used r = used"
    using assms(4) by (rule allowance_row)
  then show ?thesis using assms has_allowance_view[of i rows] spend_view[of i rows]
    by (auto simp: admit_request_def)
qed

text \<open>
  C23. The lifetime cap admits exactly the allowance. However many requests of a capped project
  arrive, in whatever order their statements run and whatever else happens to the table in
  between (short of editing the cap or the counter), exactly as many are admitted as the cap
  had left, no request is lost while allowance remains, and the counter grows by the number
  admitted.
\<close>

theorem request_cap_is_exact:
  assumes "p_total_request_cap p \<noteq> None" "allowance (p_id p) rows = [(Some cap, used)]"
    "list_all (\<lambda>(g, h). leaves_allowance (p_id p) g \<and> leaves_allowance (p_id p) h) steps"
  shows "fst (admissions p steps rows) = min (length steps) (nat (cap - used)) \<and>
    allowance (p_id p) (snd (admissions p steps rows)) = [(Some cap, used + int (min (length steps) (nat (cap - used))))]"
  using assms(2,3)
proof (induction steps arbitrary: rows used)
  case (Cons gh steps)
  obtain g h where gh: "gh = (g, h)" by (cases gh)
  have views: "allowance (p_id p) (g rows) = [(Some cap, used)]" "allowance (p_id p) (h (g rows)) = [(Some cap, used)]"
    using Cons.prems gh by (simp_all add: leaves_allowance_def)
  obtain rows1 where one: "admit_request p (g rows) (h (g rows)) = (if used < cap then None else Some (RequestCapExhausted cap used), rows1)"
      "allowance (p_id p) rows1 = [(Some cap, if used < cap then used + 1 else used)]"
    using admit_once[OF refl assms(1) views] by blast
  obtain n rows2 where rest: "admissions p steps rows1 = (n, rows2)" by fastforce
  have "list_all (\<lambda>(g, h). leaves_allowance (p_id p) g \<and> leaves_allowance (p_id p) h) steps" using Cons.prems(2) by simp
  from Cons.IH[OF one(2) this] show ?case using one(1) rest gh by (cases "used < cap") auto
qed simp

section \<open>A signed-up project\<close>

lemma zero_budget_refused:
  assumes "p_daily_cost_cap_usd p = Some 0" "\<And>u. u \<in> set (b_usage b) \<Longrightarrow> 0 \<le> u_cost_usd u"
    "k_tier k = ''paid'' \<and> \<not> known_free \<or> 0 < est"
  shows "fst (reserve_cost ck gcap k p est known_free b) \<noteq> None"
proof
  assume "fst (reserve_cost ck gcap k p est known_free b) = None"
  then obtain b' where adm: "reserve_cost ck gcap k p est known_free b = (None, b')" by (metis prod.collapse)
  have not_free: "\<not> (k_tier k = ''free'' \<and> est \<le> 0)" using assms(3) by auto
  obtain b1 where b1: "zero_cap_error k p est known_free = None" "reserve_key ck k est b = (None, b1)" "project_error ck p est b1 = None"
    using reserve_cost_admitted[OF adm not_free] by metis
  have usage: "b_usage b1 = b_usage b" using b1(2) by (cases rule: reserve_key_cases) auto
  show False
  proof (cases "k_tier k = ''paid'' \<and> \<not> known_free")
    case True
    then show False using b1(1) assms(1) by (simp add: zero_cap_error_def split: if_splits)
  next
    case False
    then have "0 < est" using assms(3) by blast
    moreover have "0 \<le> cost_between lo hi P (b_usage b1)" for lo hi P
      unfolding cost_between_def usage by (rule sum_list_nonneg) (use assms(2) in auto)
    ultimately show False using b1(3) assms(1)
      by (simp add: project_error_def Let_def split: if_splits) (metis add_nonneg_pos not_less)
  qed
qed

lemma sub_runs_chars: "c \<in> set (sub_runs P rep s) \<Longrightarrow> c \<in> set rep \<or> \<not> P c"
  by (induction P rep s rule: sub_runs.induct) (auto split: if_splits)

lemma rstrip_prefix: "\<exists>t. s = rstrip_chars cs s @ t"
  by (rule exI[of _ "rev (takeWhile (\<lambda>c. c \<in> set cs) (rev s))"])
    (metis rstrip_chars_def rev_append rev_rev_ident takeWhile_dropWhile_id)

lemma rstrip_set: "set (rstrip_chars cs s) \<subseteq> set s"
  by (auto simp: rstrip_chars_def dest: set_dropWhileD)

lemma slugify_shape:
  assumes "slugify_name raw = Some s"
  shows "2 \<le> length s \<and> length s \<le> 60 \<and> lower_letter (hd s) \<and> list_all slug_char s"
proof -
  define s0 where "s0 = strip_chars ''-_'' (sub_runs (\<lambda>c. \<not> slug_char c) ''-'' (py_lower (py_strip raw)))"
  define s1 where "s1 = take MAX_SLUG (dropWhile (\<lambda>c. \<not> lower_letter c) s0)"
  have s: "s = rstrip_chars ''-_'' s1" "2 \<le> length s"
    using assms by (auto simp: slugify_name_def Let_def s0_def s1_def split: if_splits)
  obtain t where t: "s1 = s @ t" using rstrip_prefix[of s1 "''-_''"] s(1) by auto
  have "length s1 \<le> 60" by (simp add: s1_def MAX_SLUG_def)
  then have len: "length s \<le> 60" using t by simp
  have "slug_char c" if "c \<in> set s0" for c
  proof -
    have "c \<in> set (sub_runs (\<lambda>c. \<not> slug_char c) ''-'' (py_lower (py_strip raw)))"
      using that rstrip_set by (fastforce simp: s0_def strip_chars_def dest: set_dropWhileD)
    from sub_runs_chars[OF this] show ?thesis by (auto simp: slug_char_def)
  qed
  moreover have "set s \<subseteq> set s0" using t by (auto simp: s1_def dest!: arg_cong[where f = set] in_set_takeD set_dropWhileD)
  ultimately have "list_all slug_char s" by (auto simp: list_all_iff)
  moreover have "lower_letter (hd s1)" if "s1 \<noteq> []"
    using that hd_dropWhile[of "\<lambda>c. \<not> lower_letter c" s0] by (auto simp: s1_def MAX_SLUG_def)
  moreover have "s \<noteq> []" using s(2) by auto
  ultimately show ?thesis using s(2) len t by simp
qed

lemma insert_unique_name:
  assumes "insert_unique n tables hex slug i name = Some (final, j)"
  shows "final \<notin> p_name ` set (tables j) \<and> (final = name \<or> (\<exists>k. final = take (MAX_SLUG - 5) slug @ ''-'' @ hex k))"
  using assms by (induction n arbitrary: i name) (auto split: if_splits)

lemma signup_cases:
  assumes "self_signup s e name contact purpose ip ua = Inr (row, key, rows)"
  obtains slug final i where "slugify_name name = Some slug" "check_limits s (se_now e) ip (se_limits_table e) = None"
    "insert_unique NAME_RETRIES (se_tables e) (se_hex e) slug 0 slug = Some (final, i)"
    "key = generate_project_key (se_token e) ''aib_prj_''"
    "row = signup_row s e key (clean_field contact) (clean_field purpose) ip ua final" "rows = se_tables e i @ [row]"
proof -
  obtain slug where slug: "slugify_name name = Some slug" using assms by (cases "slugify_name name") (simp_all add: self_signup_def)
  have lim: "check_limits s (se_now e) ip (se_limits_table e) = None"
    using assms slug by (cases "check_limits s (se_now e) ip (se_limits_table e)") (simp_all add: self_signup_def)
  obtain final i where ins: "insert_unique NAME_RETRIES (se_tables e) (se_hex e) slug 0 slug = Some (final, i)"
    using assms slug lim by (cases "insert_unique NAME_RETRIES (se_tables e) (se_hex e) slug 0 slug") (auto simp: self_signup_def Let_def)
  show ?thesis using that[OF slug lim ins] assms slug lim ins by (auto simp: self_signup_def Let_def)
qed

text \<open>
  C25. What a stranger gets from the public signup. The signup is on and both daily limits had room
  when they were read; the project has a fresh name of at most sixty characters from a-z, 0-9,
  dash and underscore, starting with a letter; its key logs in to it and to nothing else; it
  never has the agent scope; its requests are capped; and it can spend nothing: no paid key
  and no billed call on a free key is ever reserved for it, on any state of the broker.
\<close>

theorem signup_grants_free_use_only:
  assumes ok: "self_signup s e name contact purpose ip ua = Inr (row, key, rows)"
    and token_hex: "\<And>k. length (se_hex e k) = 4 \<and> list_all slug_char (se_hex e k)"
    and fresh_key: "\<And>i r. r \<in> set (se_tables e i) \<Longrightarrow> p_key_hash r \<noteq> se_sha e key"
    and costs: "\<And>u. u \<in> set (b_usage b) \<Longrightarrow> 0 \<le> u_cost_usd u"
    and priced: "k_tier k = ''paid'' \<and> \<not> known_free \<or> 0 < est"
  shows "ss_enabled s \<and> p_name row \<notin> p_name ` set (butlast rows) \<and>
    length (p_name row) \<le> 60 \<and> lower_letter (hd (p_name row)) \<and> list_all slug_char (p_name row) \<and>
    require_project (se_sha e) (Some key) rows = Inr row \<and> \<not> has_scope row AGENT_SCOPE \<and>
    p_total_request_cap row = Some (ss_request_cap s) \<and>
    fst (reserve_cost ck gcap k row est known_free b) \<noteq> None"
proof -
  obtain slug final i where c: "slugify_name name = Some slug" "check_limits s (se_now e) ip (se_limits_table e) = None"
      "insert_unique NAME_RETRIES (se_tables e) (se_hex e) slug 0 slug = Some (final, i)"
      "key = generate_project_key (se_token e) ''aib_prj_''"
      "row = signup_row s e key (clean_field contact) (clean_field purpose) ip ua final" "rows = se_tables e i @ [row]"
    using ok by (rule signup_cases)
  have nm: "p_name row = final" "p_key_hash row = se_sha e key" "p_is_active row" "p_allowed_scopes row = signup_scopes s"
      "p_daily_cost_cap_usd row = Some 0" "p_total_request_cap row = Some (ss_request_cap s)"
    using c(5) by (simp_all add: signup_row_def)
  note shape = slugify_shape[OF c(1)]
  obtain a w where slug: "slug = a # w" using shape by (cases slug) auto
  have name: "length final \<le> 60 \<and> lower_letter (hd final) \<and> list_all slug_char final"
  proof -
    have "final = slug \<or> (\<exists>n. final = take 55 slug @ ''-'' @ se_hex e n)"
      using insert_unique_name[OF c(3)] by (simp add: MAX_SLUG_def)
    then show ?thesis
    proof (elim disjE exE)
      fix n assume f: "final = take 55 slug @ ''-'' @ se_hex e n"
      have "list_all slug_char (take 55 slug)" using shape by (auto simp: list_all_iff dest: in_set_takeD)
      then show ?thesis using f shape slug token_hex[of n] by (simp add: slug_char_def)
    qed (use shape in simp)
  qed
  have "filter (\<lambda>p. p_key_hash p = se_sha e key \<and> p_is_active p) rows = [row]"
    using fresh_key nm by (auto simp: c(6) filter_empty_conv)
  then have login: "require_project (se_sha e) (Some key) rows = Inr row"
    using c(4) by (simp add: require_project_def given_def generate_project_key_def)
  have scope: "\<not> has_scope row AGENT_SCOPE" by (auto simp: has_scope_def nm signup_scopes_def OWNER_ONLY_SCOPES_def)
  have "fst (reserve_cost ck gcap k row est known_free b) \<noteq> None" using nm(5) costs priced by (rule zero_budget_refused)
  then show ?thesis
    using c(2) insert_unique_name[OF c(3)] name login scope nm by (simp add: check_limits_def c(6) split: if_splits)
qed

section \<open>Witnesses\<close>

definition capped_project :: ProjectRow where
  "capped_project = (new_project 1 ''p'' [])\<lparr>p_total_request_cap := Some 3, p_total_requests_used := 1\<rparr>"

theorem request_cap_is_exact_witness:
  "fst (admissions capped_project (replicate 5 (\<lambda>rows. rows, \<lambda>rows. rows)) [capped_project]) = 2"
proof -
  have "p_total_request_cap capped_project \<noteq> None" "allowance (p_id capped_project) [capped_project] = [(Some 3, 1)]"
    "list_all (\<lambda>(g, h). leaves_allowance (p_id capped_project) g \<and> leaves_allowance (p_id capped_project) h) (replicate 5 (\<lambda>rows. rows, \<lambda>rows. rows))"
    by (simp_all add: capped_project_def allowance_def leaves_allowance_def list_all_iff)
  from request_cap_is_exact[OF this] show ?thesis by simp
qed

theorem session_cookie_is_sound_witness:
  "verify_session_cookie (\<lambda>key msg. ''ab'') ''s'' 50 (Some ''7.2592010.ab'') = LoggedIn 7"
proof -
  have i: "issue_session_cookie (\<lambda>key msg. ''ab'') ''s'' 10 7 = Some (''7.2592010.ab'', 2592000)"
    by (simp add: issue_session_cookie_def cookie_payload_def show_int_def show_nat.simps digits_def py_trunc_def SESSION_TTL_S_def)
  have "ascii ((\<lambda>key msg. ''ab'') key msg) \<and> CHR ''.'' \<notin> set ((\<lambda>key msg. ''ab'') key msg)" for key msg :: string by (simp add: ascii_def)
  from session_cookie_is_sound[OF i this, of 50] show ?thesis by (simp add: py_trunc_def SESSION_TTL_S_def)
qed

definition open_signup :: signup_settings where
  "open_signup = \<lparr>ss_enabled = True, ss_per_ip_per_day = 3, ss_per_day = 50, ss_request_cap = 100, ss_default_scopes = ''llm:chat, llm:agent''\<rparr>"

definition signup_world :: signup_env where
  "signup_world = \<lparr>se_now = 0, se_stamp = ''now'', se_token = ''tok'', se_sha = \<lambda>x. x, se_limits_table = [],
     se_tables = \<lambda>_. [new_project 1 ''my-bot'' []], se_hex = \<lambda>_. ''0a1b'', se_next_id = 2\<rparr>"

lemma signup_world_taken: "insert_unique NAME_RETRIES (se_tables signup_world) (se_hex signup_world) ''my-bot'' 0 ''my-bot'' = Some (''my-bot-0a1b'', 1)"
  by code_simp

theorem signup_grants_free_use_only_witness:
  "case self_signup open_signup signup_world '' My Bot!'' None None [] [] of
     Inl err \<Rightarrow> False
   | Inr (row, key, rows) \<Rightarrow> \<not> has_scope row AGENT_SCOPE \<and> fst (reserve_cost demo_clock 0 capped_key row 1 False (broker_init [])) \<noteq> None"
proof -
  have slug: "slugify_name '' My Bot!'' = Some ''my-bot''" by code_simp
  have lim: "check_limits open_signup (se_now signup_world) [] (se_limits_table signup_world) = None" by code_simp
  obtain row rows where su: "self_signup open_signup signup_world '' My Bot!'' None None [] [] = Inr (row, ''aib_prj_tok'', rows)"
    using slug lim signup_world_taken by (simp add: self_signup_def Let_def generate_project_key_def signup_world_def)
  have h: "length (se_hex signup_world k) = 4 \<and> list_all slug_char (se_hex signup_world k)" for k
    by (simp add: signup_world_def slug_char_def lower_letter_def is_digit_def)
  have f: "p_key_hash r \<noteq> se_sha signup_world ''aib_prj_tok''" if "r \<in> set (se_tables signup_world i)" for i r
    using that by (simp add: signup_world_def new_project_def)
  have costs: "0 \<le> u_cost_usd u" if "u \<in> set (b_usage (broker_init []))" for u using that by (simp add: broker_init_def)
  have "k_tier capped_key = ''paid'' \<and> \<not> False \<or> 0 < (1::rat)" by simp
  from signup_grants_free_use_only[OF su h f costs this, where ck = demo_clock and gcap = 0] show ?thesis by (simp add: su)
qed

end
