(* ===== verification/Job_Poll.thy ===== *)
theory Job_Poll
  imports Client_Tools Admission Job_Files
begin

text \<open>
  The polling side of \<^verbatim>\<open>routes/proxy.py\<close>: what a client is told about its job, who may read the
  job of an agent run, and the route that accepts the result of a client tool. An HTTP error carries
  its status code; \<open>RouteBroken\<close> stands for a stored call the code cannot read, whatever it answers then.
  The clock, the timestamp parser and the settings of the access gates are arguments.
\<close>

section \<open>The response\<close>

datatype route_error = Http nat string | AgentProjectNotAllowed int | AgentPolicyViolation string | RouteBroken

record JobEvidence =
  je_provider :: "json option"
  je_account_id :: "json option"
  je_billing_mode :: "json option"
  je_model_requested :: "json option"
  je_model_served :: "json option"
  je_model_served_kind :: "json option"
  je_model_served_source :: "json option"
  je_model_observations :: "json option"
  je_run_status :: "json option"
  je_observations_truncated :: bool
  je_observations_complete :: bool
  je_model_rerouted :: "bool option"

record DeepJobResponse =
  jr_job_id :: int
  jr_status :: string
  jr_trace_id :: "string option"
  jr_labels :: "(string \<times> string) list option"
  jr_priority :: string
  jr_cancel_requested :: "bool option"
  jr_text :: "string option"
  jr_provider :: "json option"
  jr_model :: "json option"
  jr_requested_model :: "json option"
  jr_model_served :: "json option"
  jr_tokens_in :: "json option"
  jr_tokens_out :: "json option"
  jr_total_tokens :: "json option"
  jr_cache_read_tokens :: "json option"
  jr_cache_write_tokens :: "json option"
  jr_reasoning_tokens :: "json option"
  jr_cost_usd :: "json option"
  jr_billing_type :: "json option"
  jr_account_id :: "json option"
  jr_latency_ms :: "json option"
  jr_key_label :: "json option"
  jr_request_id :: "json option"
  jr_evidence :: "JobEvidence option"
  jr_error :: "string option"
  jr_tool_calls :: "json option"
  jr_finish_reason :: "json option"
  jr_refusal :: "json option"
  jr_files :: "file_meta list option"
  jr_vision_type :: "json option"
  jr_vision_format :: "json option"
  jr_poll_after_s :: "int option"
  jr_error_code :: "string option"
  jr_queued_ms :: "int option"
  jr_run_ms :: "int option"
  jr_pending_reason :: "string option"
  jr_retry_at :: "instant option"

text \<open>A field of a stored dict; \<^verbatim>\<open>None\<close> and a missing key read alike. \<open>py_or\<close> is Python's \<^verbatim>\<open>or\<close>.\<close>

definition field :: "(string \<times> json) list \<Rightarrow> string \<Rightarrow> json option" where
  "field m k = (case obj_get m k of Some JNull \<Rightarrow> None | v \<Rightarrow> v)"

definition py_or :: "json option \<Rightarrow> json option \<Rightarrow> json option" where
  "py_or a b = (case a of Some v \<Rightarrow> if truthy v then a else b | None \<Rightarrow> b)"

definition view_meta :: "JobView \<Rightarrow> (string \<times> json) list" where
  "view_meta row = (case v_result_meta row of Some (JObj kvs) \<Rightarrow> kvs | _ \<Rightarrow> [])"

definition job_evidence :: "(string \<times> json) list \<Rightarrow> (string \<times> json) list \<Rightarrow> string \<Rightarrow> JobEvidence option" where
  "job_evidence meta request run_status =
     (let cj = dict_or_empty (obj_get request ''client_job'');
          set_in = (\<lambda>k. case obj_get meta k of Some v \<Rightarrow> truthy v | None \<Rightarrow> False) in
      if cj = [] \<and> \<not> (set_in ''account_id'' \<and> set_in ''provider'' \<and> obj_get meta ''model_served_kind'' \<noteq> None) then None
      else let truncated = set_in ''observations_truncated'';
               served = served_model_meta (obj_get meta ''model_observations'') truncated;
               outcome = field meta ''run_outcome''
           in Some \<lparr>je_provider = py_or (field meta ''provider'') (field cj ''provider''),
                je_account_id = py_or (field meta ''account_id'') (field request ''account_id''),
                je_billing_mode = field meta ''billing_type'',
                je_model_requested = py_or (field meta ''model'') (field cj ''model''),
                je_model_served = field served ''model_observed_best'',
                je_model_served_kind = field served ''model_served_kind'',
                je_model_served_source = field served ''model_served_source'',
                je_model_observations = field served ''model_observations'',
                je_run_status = py_or outcome (Some (JStr run_status)),
                je_observations_truncated = truncated, je_observations_complete = (\<not> truncated),
                je_model_rerouted = (if outcome = Some (JStr ''completed'') \<and> set_in ''app_server_path'' then Some False else None)\<rparr>)"

section \<open>Shaping a row\<close>

fun status_name :: "job_status \<Rightarrow> string" where
  "status_name Pending = ''pending''"
| "status_name Running = ''running''"
| "status_name Done = ''done''"
| "status_name Error = ''error''"
| "status_name Cancelled = ''cancelled''"

definition requested_model :: "JobView \<Rightarrow> json option" where
  "requested_model row = py_or (field (dict_or_empty (obj_get (v_request row) ''client_job'')) ''model'') (field (v_request row) ''model'')"

definition request_account :: "JobView \<Rightarrow> json option" where
  "request_account row = (if dict_or_empty (obj_get (v_request row) ''client_job'') \<noteq> [] then field (v_request row) ''account_id'' else None)"

text \<open>The fields of every response: the tags, the timing and the error code.\<close>

definition tagged_response :: "run_env \<Rightarrow> JobView \<Rightarrow> string \<Rightarrow> DeepJobResponse" where
  "tagged_response e row status =
     (case job_timing (Some (v_created_at row)) (parsed_field (re_parse e) (view_meta row) ''first_started_at'') (v_started_at row)
             (v_completed_at row) (re_now e) of (queued_ms, run_ms) \<Rightarrow>
      \<lparr>jr_job_id = v_id row, jr_status = status, jr_trace_id = v_trace_id row, jr_labels = v_labels row,
        jr_priority = priority_name (Some (v_priority row)), jr_cancel_requested = None, jr_text = None, jr_provider = None,
        jr_model = None, jr_requested_model = requested_model row, jr_model_served = None, jr_tokens_in = None,
        jr_tokens_out = None, jr_total_tokens = None, jr_cache_read_tokens = None, jr_cache_write_tokens = None,
        jr_reasoning_tokens = None, jr_cost_usd = None, jr_billing_type = None, jr_account_id = request_account row,
        jr_latency_ms = None, jr_key_label = None, jr_request_id = None, jr_evidence = None, jr_error = None, jr_tool_calls = None,
        jr_finish_reason = None, jr_refusal = None, jr_files = None, jr_vision_type = None, jr_vision_format = None,
        jr_poll_after_s = None, jr_error_code = error_code (v_status row) (str_field (view_meta row) ''error_class'') (v_error_message row),
        jr_queued_ms = queued_ms, jr_run_ms = run_ms, jr_pending_reason = None, jr_retry_at = None\<rparr>)"

text \<open>The call a poll advertises while it may be answered; \<open>Inl\<close> when the stored call is malformed.\<close>

definition offered_tool :: "run_env \<Rightarrow> JobView \<Rightarrow> route_error + json option" where
  "offered_tool e row =
     (let call = dict_or_empty (obj_get (view_meta row) ''client_tool'') in
      case is_waiting e call of
        None \<Rightarrow> Inl RouteBroken
      | Some False \<Rightarrow> Inr None
      | Some True \<Rightarrow> (case (obj_get call ''call_id'', obj_get call ''name'', obj_get call ''arguments'') of
            (Some cid, Some name, Some args) \<Rightarrow>
              Inr (Some (JObj [(''id'', cid), (''type'', JStr ''function''), (''function'', JObj [(''name'', name), (''arguments'', args)])]))
          | _ \<Rightarrow> Inl RouteBroken))"

definition pending_response :: "run_env \<Rightarrow> JobView \<Rightarrow> json option \<Rightarrow> DeepJobResponse" where
  "pending_response e row call =
     (case pending_detail (v_status row) (v_run_after row) (str_field (view_meta row) ''pending_reason'') (call \<noteq> None) (re_now e) of
        (reason, retry_at) \<Rightarrow>
      (tagged_response e row ''pending'')\<lparr>jr_pending_reason := reason, jr_retry_at := retry_at,
         jr_evidence := job_evidence (view_meta row) (v_request row) (status_name (v_status row)),
         jr_cancel_requested := (if v_cancel_requested row then Some True else None),
         jr_poll_after_s := (if call = None then Some (next_poll_after_s (re_now e) (v_created_at row)) else None),
         jr_tool_calls := map_option (\<lambda>c. JList [c]) call,
         jr_finish_reason := (if call = None then None else Some (JStr ''tool_calls''))\<rparr>)"

definition done_response :: "run_env \<Rightarrow> JobView \<Rightarrow> file_meta list option \<Rightarrow> DeepJobResponse" where
  "done_response e row files =
     (let m = view_meta row in
      (tagged_response e row ''done'')\<lparr>jr_text := v_result_text row, jr_provider := field m ''provider'', jr_model := field m ''model'',
        jr_model_served := field m ''model_served'', jr_evidence := job_evidence m (v_request row) ''completed'',
        jr_tokens_in := field m ''tokens_in'', jr_tokens_out := field m ''tokens_out'', jr_total_tokens := field m ''total_tokens'',
        jr_cache_read_tokens := field m ''cache_read_tokens'', jr_account_id := py_or (field m ''account_id'') (request_account row),
        jr_cache_write_tokens := field m ''cache_write_tokens'', jr_reasoning_tokens := field m ''reasoning_tokens'',
        jr_cost_usd := field m ''cost_usd'', jr_latency_ms := field m ''latency_ms'', jr_billing_type := field m ''billing_type'',
        jr_key_label := field m ''key_label'', jr_request_id := field m ''request_id'', jr_vision_type := field m ''vision_type'',
        jr_vision_format := field m ''vision_format'', jr_tool_calls := field m ''tool_calls'', jr_finish_reason := field m ''finish_reason'',
        jr_refusal := field m ''refusal'', jr_files := files\<rparr>)"

definition job_response :: "run_env \<Rightarrow> JobView \<Rightarrow> file_meta list option \<Rightarrow> route_error + DeepJobResponse" where
  "job_response e row files =
     (case v_status row of
        Error \<Rightarrow> Inr ((tagged_response e row ''error'')\<lparr>jr_error := v_error_message row,
                   jr_evidence := job_evidence (view_meta row) (v_request row) ''failed''\<rparr>)
      | Cancelled \<Rightarrow> Inr ((tagged_response e row ''cancelled'')\<lparr>jr_evidence := job_evidence (view_meta row) (v_request row) ''cancelled''\<rparr>)
      | Done \<Rightarrow> Inr (done_response e row files)
      | _ \<Rightarrow> (case offered_tool e row of Inl err \<Rightarrow> Inl err | Inr call \<Rightarrow> Inr (pending_response e row call)))"

definition stored_files :: "JobView \<Rightarrow> file_meta list option" where
  "stored_files row = map_option (\<lambda>v. map json_obj (list_or_empty (Some v))) (field (view_meta row) ''files'')"

definition row_files :: "run_env \<Rightarrow> FileRow list \<Rightarrow> JobView \<Rightarrow> file_meta list option" where
  "row_files e table row =
     (if v_status row \<noteq> Done then None else map_option (live_files (re_now_iso e) (v_id row) table) (stored_files row))"

section \<open>The routes\<close>

record gate_settings =
  gs_allowed :: string
  gs_policy :: string
  gs_snapshot :: access_snapshot
  gs_subs :: "ModelSpec list"

definition require_capability_scope :: "ProjectRow \<Rightarrow> string \<Rightarrow> route_error option" where
  "require_capability_scope p scope = (if has_scope p scope then None else Some (Http 403 (''project lacks scope: '' @ scope)))"

definition row_violation :: "gate_settings \<Rightarrow> ProjectRow \<Rightarrow> JobView \<Rightarrow> string option" where
  "row_violation g p row = policy_violation (gs_policy g) (gs_snapshot g) (gs_subs g) (p_id p) (str_field (v_request row) ''model'')
     (opt_or (str_field (v_request row) ''account_id'') []) (Some (v_capability row))"

definition require_agent_read_access :: "gate_settings \<Rightarrow> ProjectRow \<Rightarrow> JobView \<Rightarrow> route_error option" where
  "require_agent_read_access g p row =
     (if \<not> starts_with (v_capability row) ''agent:'' then None
      else if \<not> has_scope p AGENT_SCOPE then Some (Http 403 (''project lacks scope: '' @ AGENT_SCOPE))
      else if \<not> project_allowed (gs_allowed g) (gs_snapshot g) (p_id p) then Some (AgentProjectNotAllowed (p_id p))
      else map_option AgentPolicyViolation (row_violation g p row))"

definition jobs_poll :: "run_env \<Rightarrow> gate_settings \<Rightarrow> FileRow list \<Rightarrow> ProjectRow \<Rightarrow> int \<Rightarrow> DeepJobRow list \<Rightarrow> route_error + DeepJobResponse" where
  "jobs_poll e g table p job_id rows = (case get_job job_id (p_id p) rows of
      None \<Rightarrow> Inl (Http 404 ''job not found'')
    | Some row \<Rightarrow> (case require_agent_read_access g p row of
        Some err \<Rightarrow> Inl err
      | None \<Rightarrow> job_response e row (row_files e table row)))"

definition tool_http :: "tool_error \<Rightarrow> route_error" where
  "tool_http err = (case err of
      ToolJobNotFound \<Rightarrow> Http 404 ''job not found''
    | ToolTooLarge \<Rightarrow> Http 413 ''tool result exceeds limit''
    | ClientToolConflict msg \<Rightarrow> Http 409 msg
    | _ \<Rightarrow> RouteBroken)"

definition jobs_tool_result ::
  "run_env \<Rightarrow> gate_settings \<Rightarrow> ProjectRow \<Rightarrow> int \<Rightarrow> string \<Rightarrow> bool \<Rightarrow> string \<Rightarrow> bool \<Rightarrow> run_db \<Rightarrow> (route_error + bool) \<times> run_db" where
  "jobs_tool_result e g p job_id call_id success content fin d =
     (case require_capability_scope p AGENT_SCOPE of
        Some err \<Rightarrow> (Inl err, d)
      | None \<Rightarrow>
          if \<not> project_allowed (gs_allowed g) (gs_snapshot g) (p_id p) then (Inl (AgentProjectNotAllowed (p_id p)), d)
          else (case get_job job_id (p_id p) (jt_rows (rd_jobs d)) of
            None \<Rightarrow> (Inl (Http 404 ''job not found''), d)
          | Some row \<Rightarrow> (case row_violation g p row of
              Some v \<Rightarrow> (Inl (AgentPolicyViolation v), d)
            | None \<Rightarrow> (case submit_result e job_id (p_id p) call_id success content fin d of
                (Inl err, d') \<Rightarrow> (Inl (tool_http err), d')
              | (Inr accepted, d') \<Rightarrow> (Inr accepted, d')))))"

section \<open>Polling and answering agree\<close>

definition view_of :: "DeepJobRow \<Rightarrow> JobView" where
  "view_of r = the (get_job (j_id r) (j_project_id r) [r])"

lemma view_of_sel [simp]:
  "v_id (view_of r) = j_id r" "v_status (view_of r) = j_status r" "v_capability (view_of r) = j_capability r"
  "v_result_meta (view_of r) = j_result_meta r" "v_request (view_of r) = poll_request (j_request r)"
  by (simp_all add: view_of_def get_job_def)

lemma view_meta_of [simp]: "view_meta (view_of r) = meta_of r"
  by (simp add: view_meta_def meta_of_def)

lemma get_job_own:
  assumes "find_job i d = Some j"
  shows "get_job i (j_project_id j) (jt_rows (rd_jobs d)) = Some (view_of j)"
proof -
  have "find (\<lambda>r. j_id r = i \<and> j_project_id r = j_project_id j) rows = Some j" if "find_row j_id i rows = Some j" for rows
    using that by (induction rows) (auto split: if_splits)
  then show ?thesis using assms find_job_id[OF assms] by (simp add: find_job_def get_job_def view_of_def)
qed

lemma agent_capability: "c \<in> set AGENT_CAPABILITIES \<Longrightarrow> starts_with c ''agent:''"
  by (auto simp: AGENT_CAPABILITIES_def starts_with_def)

lemma poll_open:
  assumes "find_job i d = Some j" "j_project_id j = p_id p" "j_status j = Running"
  shows "jobs_poll e g table p i (jt_rows (rd_jobs d)) =
    (case require_agent_read_access g p (view_of j) of Some err \<Rightarrow> Inl err
     | None \<Rightarrow> (case offered_tool e (view_of j) of Inl err \<Rightarrow> Inl err | Inr call \<Rightarrow> Inr (pending_response e (view_of j) call)))"
  using get_job_own[OF assms(1)] assms(2,3)
  by (cases "require_agent_read_access g p (view_of j)") (simp_all add: jobs_poll_def job_response_def)

lemma pending_calls [simp]: "jr_tool_calls (pending_response e row call) = map_option (\<lambda>c. JList [c]) call"
  by (simp add: pending_response_def split: prod.split)

lemma offered_tool_call:
  "offered_tool e (view_of j) = (case is_waiting e (pending_call j) of
      None \<Rightarrow> Inl RouteBroken | Some False \<Rightarrow> Inr None
    | Some True \<Rightarrow> (case (obj_get (pending_call j) ''call_id'', obj_get (pending_call j) ''name'', obj_get (pending_call j) ''arguments'') of
        (Some cid, Some name, Some args) \<Rightarrow>
          Inr (Some (JObj [(''id'', cid), (''type'', JStr ''function''), (''function'', JObj [(''name'', name), (''arguments'', args)])]))
      | _ \<Rightarrow> Inl RouteBroken))"
  unfolding offered_tool_def pending_call_def Let_def view_meta_of by (rule refl)

text \<open>A waiting call of a reachable exchange names a call id that was never answered.\<close>

lemma waiting_is_fresh:
  assumes "tool_reachable i w" "find_job i (tw_db w) = Some j" "is_waiting e (pending_call j) = Some True"
  obtains cid where "obj_get (pending_call j) ''call_id'' = Some (JStr cid)" "\<not> list_ex (same_result cid dg) (tool_history j)"
proof -
  have inv: "tool_inv i w" by (rule te.reach_inv[OF assms(1)])
  have st: "obj_get (pending_call j) ''state'' = Some (JStr ''waiting'')"
    using assms(3) by (auto simp: is_waiting_def split: if_splits)
  obtain v where v: "fst (exchange i (tw_db w)) = Some v" "pending_call j = json_obj v"
    using st assms(2) by (auto simp: exchange_def pending_call_def dict_or_empty_def json_obj_def obj_get_def split: option.splits json.splits)
  have "abs_call (Some v) \<noteq> Malformed" using inv v(1) by (auto simp: tool_inv_def pending_matches_def)
  then obtain cid where cid: "abs_call (Some v) = Waiting cid" "obj_get (pending_call j) ''call_id'' = Some (JStr cid)"
    using st v(2) by (auto simp: abs_call_def Let_def split: option.splits json.splits)
  have "cid \<notin> fst ` set (tw_delivered w)" "map history_id (tool_history j) = map (\<lambda>x. Some (JStr (fst x))) (tw_delivered w)"
    using inv v(1) cid(1) assms(2) by (auto simp: tool_inv_def pending_matches_def history_matches_def exchange_def)
  then have "Some (JStr cid) \<notin> set (map history_id (tool_history j))" by auto
  then have "\<not> list_ex (same_result cid dg) (tool_history j)"
    by (force simp: list_ex_iff same_result_def)
  then show ?thesis using cid(2) that by blast
qed

lemma answer_waiting:
  assumes "find_job i d = Some j" "j_status j = Running" "j_capability j \<in> set AGENT_CAPABILITIES" "\<not> call_gone i d"
    and "is_waiting e (pending_call j) = Some True" "obj_get (pending_call j) ''call_id'' = Some (JStr cid)"
    and "\<not> list_ex (same_result cid (result_digest e success content False)) (tool_history j)" "length content \<le> MAX_RESULT_BYTES"
  shows "submit_result e i (j_project_id j) cid success content False d =
    (Inr True, set_job i (with_meta (dict_set ''client_tool''
       (JObj (answered_call success content (result_digest e success content False) False (pending_call j))) (meta_of j))) d)"
proof -
  have "obj_get (pending_call j) ''state'' \<noteq> Some (JStr ''ready'')" using assms(5) by (auto simp: is_waiting_def split: if_splits)
  then show ?thesis using assms by (simp add: submit_result_def Let_def)
qed

text \<open>
  C14. What a poll advertises can be answered. When the poll of a running, uncancelled agent job shows
  a tool call, the project that polled may send a result for it at that moment through the result
  route: the same gates let it pass, the result is accepted as new, the worker that asks for it is
  handed exactly this result, and no later poll shows the call again.
\<close>

theorem polled_call_can_be_answered:
  assumes reach: "tool_reachable i w" and d: "d = tw_db w"
    and poll: "jobs_poll e g table p i (jt_rows (rd_jobs d)) = Inr resp" "jr_tool_calls resp = Some calls"
    and job: "find_job i d = Some j" "j_project_id j = p_id p" "j_status j = Running" "j_capability j \<in> set AGENT_CAPABILITIES"
    and gone: "\<not> call_gone i d" and size: "length content \<le> MAX_RESULT_BYTES"
  shows "\<exists>cid rest d'. calls = JList [JObj ((''id'', JStr cid) # rest)] \<and>
    jobs_tool_result e g p i cid success content False d = (Inr True, d') \<and>
    (fences_hold fences d' \<longrightarrow> fst (take_result e' i cid fences d') = Inr (Some (success, content, False))) \<and>
    (\<forall>resp'. jobs_poll e' g' table' p i (jt_rows (rd_jobs d')) = Inr resp' \<longrightarrow> jr_tool_calls resp' = None)"
proof -
  have open_gate: "require_agent_read_access g p (view_of j) = None"
    and call: "\<exists>c. offered_tool e (view_of j) = Inr (Some c) \<and> calls = JList [c]"
    using poll unfolding poll_open[OF job(1-3)] by (auto split: option.splits sum.splits)
  then have wait: "is_waiting e (pending_call j) = Some True" by (auto simp: offered_tool_call split: option.splits bool.splits)
  obtain cid where cid: "obj_get (pending_call j) ''call_id'' = Some (JStr cid)"
      "\<not> list_ex (same_result cid (result_digest e success content False)) (tool_history j)"
    using waiting_is_fresh[OF reach job(1)[unfolded d] wait] by blast
  define m where "m = dict_set ''client_tool''
    (JObj (answered_call success content (result_digest e success content False) False (pending_call j))) (meta_of j)"
  define d' where "d' = set_job i (with_meta m) d"
  have sub: "submit_result e i (p_id p) cid success content False d = (Inr True, d')"
    using answer_waiting[OF job(1,3,4) gone wait cid size] job(2) by (simp add: d'_def m_def)
  have job': "find_job i d' = Some (with_meta m j)" unfolding d'_def
    by (rule find_job_set_job[OF job(1)]) (simp add: find_job_id[OF job(1)])
  have "jobs_tool_result e g p i cid success content False d = (Inr True, d')"
    using open_gate agent_capability[OF job(4)] get_job_own[OF job(1)] job(2) sub
    by (auto simp: jobs_tool_result_def require_agent_read_access_def require_capability_scope_def split: if_splits)
  moreover have "fst (take_result e' i cid fences d') = Inr (Some (success, content, False))" if "fences_hold fences d'"
  proof (rule ready_is_handed_over[OF job' _ _ that])
    have "abs_call (Some (JObj (pending_call j))) = Waiting cid"
      using wait cid(1) by (auto simp: abs_call_def json_obj_def is_waiting_def split: if_splits)
    then show "abs_call (fst (exchange i d')) = Ready cid success content False"
      by (simp add: d'_def exchange_set_meta[OF job(1)] m_def obj_get_dict_set abs_answered_call)
  qed (use gone job(3) in \<open>simp_all add: d'_def call_gone_def\<close>)
  moreover have "jr_tool_calls resp' = None" if "jobs_poll e' g' table' p i (jt_rows (rd_jobs d')) = Inr resp'" for resp'
  proof -
    have "is_waiting e' (pending_call (with_meta m j)) = Some False"
      by (simp add: m_def pending_call_def dict_or_empty_def obj_get_dict_set is_waiting_def answered_call_def)
    then show ?thesis using that poll_open[OF job', of p e' g' table'] job(2,3)
      by (auto simp: offered_tool_call split: option.splits)
  qed
  ultimately show ?thesis using call cid(1)
    by (auto simp: offered_tool_call wait split: option.splits)
qed

section \<open>An exchange\<close>

definition demo_gate :: gate_settings where
  "demo_gate = \<lparr>gs_allowed = [], gs_policy = [],
     gs_snapshot = Some [(3, \<lparr>aa_enabled = True, aa_models = [''m''], aa_accounts = [''owner'']\<rparr>)], gs_subs = []\<rparr>"

definition demo_caller :: ProjectRow where
  "demo_caller = \<lparr>p_id = 3, p_name = ''p'', p_owner_email = None, p_key_hash = [], p_key_prefix = [], p_allowed_scopes = [AGENT_SCOPE],
     p_daily_cost_cap_usd = None, p_monthly_cost_cap_usd = None, p_total_request_cap = None, p_total_requests_used = 0,
     p_self_signup = False, p_signup_ip = None, p_is_active = True, p_notes = [], p_agent_enabled = True, p_agent_models = [],
     p_agent_accounts = [], p_created_at = 0, p_updated_at = 0\<rparr>"

lemma demo_poll:
  "\<exists>resp calls. jobs_poll demo_tool_env demo_gate [] demo_caller 1 (jt_rows (rd_jobs demo_published)) = Inr resp \<and>
     jr_tool_calls resp = Some calls"
proof -
  let ?c = "new_call ''c1'' (JStr ''sum'') ''{}'' ''t''"
  let ?j = "with_meta [(''client_tool'', JObj ?c)] demo_tool_job"
  have p: "pending_call ?j = ?c" by (simp add: pending_call_def dict_or_empty_def obj_get_def)
  have w: "is_waiting demo_tool_env ?c = Some True"
    by (simp add: is_waiting_def new_call_def obj_get_def before_deadline_def parsed_field_def str_field_def demo_tool_env_def demo_run_env_def)
  have r: "poll_request (j_request demo_tool_job) = [(''model'', JStr ''m''), (''account_id'', JStr ''owner''), (''client_job'', JObj (client_job_of demo_tool_job))]"
    by (simp add: poll_request_def POLL_REQUEST_KEYS_def demo_tool_job_def obj_get_def client_job_of_def)
  have "require_agent_read_access demo_gate demo_caller (view_of ?j) = None"
    by (simp add: require_agent_read_access_def has_scope_def demo_caller_def demo_gate_def project_allowed_def access_for_def
        account_only_def ACCOUNT_ONLY_def row_violation_def policy_violation_def policy_for_def has_policy_def allows_model_def
        allows_account_def r str_field_def obj_get_def opt_or_def)
  then show ?thesis using poll_open[OF demo_published_job, of demo_caller demo_tool_env demo_gate "[]"]
    by (simp add: demo_caller_def offered_tool_call p w) (simp add: new_call_def obj_get_def)
qed

theorem polled_call_can_be_answered_witness:
  "\<exists>cid d'. jobs_tool_result demo_tool_env demo_gate demo_caller 1 cid True ''42'' False demo_published = (Inr True, d')"
proof -
  obtain resp calls where poll: "jobs_poll demo_tool_env demo_gate [] demo_caller 1 (jt_rows (rd_jobs demo_published)) = Inr resp"
    "jr_tool_calls resp = Some calls" using demo_poll by blast
  have d: "demo_published = tw_db demo_open_world" by (simp add: demo_open_world_def)
  have gone: "\<not> call_gone 1 demo_published" by (simp add: call_gone_def demo_published_eq side_row_def)
  have size: "length ''42'' \<le> MAX_RESULT_BYTES" by (simp add: MAX_RESULT_BYTES_def)
  have own: "j_project_id demo_tool_job = p_id demo_caller" by (simp add: demo_caller_def)
  from polled_call_can_be_answered[OF demo_open_reachable d poll demo_published_job _ _ _ gone size, of True "[]" demo_tool_env demo_gate "[]"]
  show ?thesis using own by (simp add: AGENT_CAPABILITIES_def) blast
qed

end
