(* ===== verification/Model_Listing.thy ===== *)
theory Model_Listing
  imports Subscriptions Answer_Gate Catalog
begin

text \<open>
  The catalog as \<^verbatim>\<open>GET /v1/models\<close> lists it: the rest of \<^verbatim>\<open>providers/catalog.py\<close>, the benchmark scores of
  \<^verbatim>\<open>providers/model_scores.py\<close> and the request rules of \<^verbatim>\<open>providers/job_contract.py\<close>. The model map of
  LiteLLM is the argument \<open>lm\<close>: what it knows of a model, if anything.
\<close>

section \<open>Scores\<close>

record Score =
  sc_value :: rat
  sc_aa_slug :: string
  sc_aa_name :: string

definition SCORES :: "(string \<times> Score) list" where
  "SCORES = [
     (''muse-wonder'', \<lparr>sc_value = 56, sc_aa_slug = ''muse-wonder'', sc_aa_name = ''Meta Muse Wonder Full (max)''\<rparr>),
     (''grok-4.7'', \<lparr>sc_value = 46, sc_aa_slug = ''grok-4-7'', sc_aa_name = ''Grok 4.7 (xhigh)''\<rparr>),
     (''mimo-v2.6-pro'', \<lparr>sc_value = 46, sc_aa_slug = ''mimo-v2-6-pro'', sc_aa_name = ''Xiaomi MiMo-V2.6-Pro''\<rparr>),
     (''qwen3.8-max-0902'', \<lparr>sc_value = 45, sc_aa_slug = ''qwen3-8-max'', sc_aa_name = ''Qwen3.8 Max''\<rparr>),
     (''kimi-k3'', \<lparr>sc_value = 44, sc_aa_slug = ''kimi-k3'', sc_aa_name = ''Kimi K3 (max)''\<rparr>),
     (''claude-opus-5-5'', \<lparr>sc_value = 58, sc_aa_slug = ''claude-opus-5-5'', sc_aa_name = ''Claude Opus 5.5 (max with fallback)''\<rparr>),
     (''claude-sonnet-5-5'', \<lparr>sc_value = 56, sc_aa_slug = ''claude-sonnet-5-5'', sc_aa_name = ''Claude Sonnet 5.5 (max with fallback)''\<rparr>),
     (''claude-fable-5-1'', \<lparr>sc_value = 53, sc_aa_slug = ''claude-fable-5-1'', sc_aa_name = ''Claude Fable 5.1 (max with fallback)''\<rparr>),
     (''claude-haiku-5-5'', \<lparr>sc_value = 43, sc_aa_slug = ''claude-haiku-5-5'', sc_aa_name = ''Claude Haiku 5.5 (max)''\<rparr>),
     (''gpt-6-astra'', \<lparr>sc_value = 53, sc_aa_slug = ''gpt-6-astra'', sc_aa_name = ''GPT-6 Astra (max)''\<rparr>),
     (''gpt-6.1-sol'', \<lparr>sc_value = 52, sc_aa_slug = ''gpt-6-1-sol'', sc_aa_name = ''GPT-6.1 Sol (max)''\<rparr>),
     (''gpt-5.6-terra'', \<lparr>sc_value = 42, sc_aa_slug = ''gpt-5-6-terra'', sc_aa_name = ''GPT-5.6 Terra (max)''\<rparr>),
     (''gpt-6-luna'', \<lparr>sc_value = 38, sc_aa_slug = ''gpt-6-luna'', sc_aa_name = ''GPT-6 Luna (max)''\<rparr>),
     (''claude-sonnet-5'', \<lparr>sc_value = 954 / 25, sc_aa_slug = ''claude-sonnet-5'', sc_aa_name = ''Claude Sonnet 5 (Adaptive Reasoning, Max Effort)''\<rparr>),
     (''gpt-5'', \<lparr>sc_value = 1149 / 50, sc_aa_slug = ''gpt-5'', sc_aa_name = ''GPT-5 (High)''\<rparr>),
     (''gpt-5-mini'', \<lparr>sc_value = 1677 / 100, sc_aa_slug = ''gpt-5-mini'', sc_aa_name = ''GPT-5 mini (High)''\<rparr>),
     (''gpt-oss-120b'', \<lparr>sc_value = 58 / 5, sc_aa_slug = ''gpt-oss-120b'', sc_aa_name = ''gpt-oss-120b (High)''\<rparr>),
     (''gemini-3.5-flash'', \<lparr>sc_value = 163 / 5, sc_aa_slug = ''gemini-3-5-flash'', sc_aa_name = ''Gemini 3.5 Flash (High)''\<rparr>),
     (''gemini-3.5-flash-lite'', \<lparr>sc_value = 2217 / 100, sc_aa_slug = ''gemini-3-5-flash-lite'', sc_aa_name = ''Gemini 3.5 Flash-Lite''\<rparr>),
     (''gemini-3.6-flash'', \<lparr>sc_value = 1699 / 50, sc_aa_slug = ''gemini-3-6-flash'', sc_aa_name = ''Gemini 3.6 Flash (High)''\<rparr>),
     (''gemini-3.1-flash-lite'', \<lparr>sc_value = 311 / 20, sc_aa_slug = ''gemini-3-1-flash-lite-preview'', sc_aa_name = ''Gemini 3.1 Flash-Lite''\<rparr>),
     (''nemotron-3-ultra-550b-a55b'', \<lparr>sc_value = 2293 / 100, sc_aa_slug = ''nvidia-nemotron-3-ultra-550b-a55b'', sc_aa_name = ''Nemotron 3 Ultra 550B A55B (Reasoning)''\<rparr>)]"

definition intelligence_index :: "string \<Rightarrow> rat option" where
  "intelligence_index name = map_option sc_value (map_of SCORES name)"

section \<open>What a job may ask for\<close>

definition DEFAULT_MAX_TOKENS :: int where "DEFAULT_MAX_TOKENS = 1024"
definition DEFAULT_TEMPERATURE :: rat where "DEFAULT_TEMPERATURE = 7 / 10"
definition JOB_MAX_TOKENS_MIN :: int where "JOB_MAX_TOKENS_MIN = 1"
definition JOB_MAX_TOKENS_MAX :: int where "JOB_MAX_TOKENS_MAX = 16384"
definition JOB_TEMPERATURE_MIN :: rat where "JOB_TEMPERATURE_MIN = 0"
definition JOB_TEMPERATURE_MAX :: rat where "JOB_TEMPERATURE_MAX = 2"
definition SUBSCRIPTION_PROMPT_MAX_BYTES :: nat where "SUBSCRIPTION_PROMPT_MAX_BYTES = 3000000"
definition SUBSCRIPTION_ROLES :: "string list" where "SUBSCRIPTION_ROLES = [''system'', ''user'', ''assistant'']"
definition SUBSCRIPTION_RESPONSE_FORMATS :: "string list" where "SUBSCRIPTION_RESPONSE_FORMATS = [''json_object'', ''json_schema'']"

definition JOB_CAPABILITIES :: "string list" where
  "JOB_CAPABILITIES = [''chat:fast'', ''chat:smart'', ''chat:sales'', ''chat:code'', ''chat:edit'', ''chat:deep'', ''structured'',
     ''prefilter'', ''translate'', ''vision'']"

definition VISION_PROVIDERS :: "string list" where "VISION_PROVIDERS = [''codex-sub'', ''claude-sub'']"

definition json_opt_bool :: "bool option \<Rightarrow> json" where
  "json_opt_bool b = (case b of None \<Rightarrow> JNull | Some v \<Rightarrow> JBool v)"

definition strings :: "string list \<Rightarrow> json" where
  "strings xs = JList (map JStr xs)"

definition bounded :: "json \<Rightarrow> (string \<times> json) list \<Rightarrow> bool \<Rightarrow> json" where
  "bounded dflt accepted forwarded = JObj [(''default'', dflt), (''accepted'', JObj accepted), (''forwarded'', JBool forwarded)]"

definition job_request_contract :: "ModelSpec \<Rightarrow> bool option \<Rightarrow> (string \<times> json) list option" where
  "job_request_contract spec tools_supported =
     (if \<not> list_ex (\<lambda>c. c \<in> set JOB_CAPABILITIES) (ms_capabilities spec) then None
      else if ms_pricing spec = P_subscription then Some
        [(''max_tokens'', bounded (JInt DEFAULT_MAX_TOKENS) [(''const'', JInt DEFAULT_MAX_TOKENS)] False),
         (''temperature'', bounded (JFloat DEFAULT_TEMPERATURE) [(''const'', JFloat DEFAULT_TEMPERATURE)] False),
         (''message_roles'', strings (SUBSCRIPTION_ROLES @ (if tools_supported = Some True then [''tool''] else []))),
         (''message_content'', strings (if ''vision'' \<in> set (ms_capabilities spec) then [''text'', ''image_data_url''] else [''text''])),
         (''tools'', json_opt_bool tools_supported), (''tool_history'', JBool (tools_supported = Some True)), (''stream'', JBool False),
         (''response_format_types'', strings SUBSCRIPTION_RESPONSE_FORMATS), (''json_schema_refs'', JBool False),
         (''max_prompt_chars'', JNull), (''max_prompt_bytes'', JInt (int SUBSCRIPTION_PROMPT_MAX_BYTES))]
      else Some
        [(''max_tokens'', bounded (JInt DEFAULT_MAX_TOKENS)
            [(''minimum'', JInt JOB_MAX_TOKENS_MIN), (''maximum'', JInt JOB_MAX_TOKENS_MAX)] True),
         (''temperature'', bounded (JFloat DEFAULT_TEMPERATURE)
            [(''minimum'', JFloat JOB_TEMPERATURE_MIN), (''maximum'', JFloat JOB_TEMPERATURE_MAX)] True),
         (''message_roles'', JNull), (''message_content'', JNull), (''tools'', json_opt_bool tools_supported), (''tool_history'', JNull),
         (''stream'', JNull), (''response_format_types'', JNull), (''json_schema_refs'', JNull), (''max_prompt_chars'', JNull),
         (''max_prompt_bytes'', JNull)])"

section \<open>The rows of the listing\<close>

text \<open>\<open>lm_in\<close>, \<open>lm_out\<close>: the price per token in LiteLLM's map; \<open>None\<close> where the entry has no such field.\<close>

record litellm_info =
  lm_in :: "rat option"
  lm_out :: "rat option"
  lm_tools :: "json option"

text \<open>\<open>round6\<close> stands for \<^verbatim>\<open>round(x, 6)\<close>.\<close>

definition json_rat :: "rat option \<Rightarrow> json" where
  "json_rat x = (case x of None \<Rightarrow> JNull | Some v \<Rightarrow> JFloat v)"

fun pricing_name :: "pricing \<Rightarrow> string" where
  "pricing_name P_litellm = ''litellm''"
| "pricing_name P_override = ''override''"
| "pricing_name P_per_minute = ''per_minute''"
| "pricing_name P_free = ''free''"
| "pricing_name P_local = ''local''"
| "pricing_name P_subscription = ''subscription''"

definition price_info :: "(rat \<Rightarrow> rat) \<Rightarrow> (string \<Rightarrow> litellm_info option) \<Rightarrow> ModelSpec \<Rightarrow> (string \<times> json) list" where
  "price_info round6 lm spec = (case ms_pricing spec of
      P_litellm \<Rightarrow> (case lm (ms_id spec) of
          None \<Rightarrow> [(''kind'', JStr ''unknown'')]
        | Some mi \<Rightarrow> [(''kind'', JStr ''litellm''),
            (''input_usd_per_mtok'', json_rat (map_option (\<lambda>x. round6 (x * 1000000)) (lm_in mi))),
            (''output_usd_per_mtok'', json_rat (map_option (\<lambda>x. round6 (x * 1000000)) (lm_out mi)))])
    | P_override \<Rightarrow> [(''kind'', JStr ''override''), (''input_usd_per_mtok'', json_rat (ms_input_usd_per_mtok spec)),
        (''output_usd_per_mtok'', json_rat (ms_output_usd_per_mtok spec))]
    | P_per_minute \<Rightarrow> [(''kind'', JStr ''per_minute''), (''usd_per_minute'', json_rat (ms_usd_per_minute spec))]
    | P_subscription \<Rightarrow> [(''kind'', JStr ''subscription''), (''input_usd_per_mtok'', JFloat 0), (''output_usd_per_mtok'', JFloat 0),
        (''subscription_fee_excluded'', JBool True)]
    | p \<Rightarrow> [(''kind'', JStr (pricing_name p))])"

definition is_chat :: "ModelSpec \<Rightarrow> bool" where
  "is_chat spec \<longleftrightarrow> list_ex (\<lambda>c. capability_family c = ''chat'') (ms_capabilities spec)"

definition input_modalities :: "ModelSpec \<Rightarrow> string list option" where
  "input_modalities spec =
     (if ''vision'' \<in> set (ms_capabilities spec) then Some [''text'', ''image'']
      else if ''transcription'' \<in> set (ms_capabilities spec) then Some [''audio'']
      else if ms_pricing spec = P_subscription \<or> ''embedding'' \<in> set (ms_capabilities spec) \<or> is_chat spec then Some [''text'']
      else None)"

definition output_modalities :: "sub_settings \<Rightarrow> ModelSpec \<Rightarrow> string list option" where
  "output_modalities st spec =
     (if ms_pricing spec = P_subscription \<and> subscription_image_output_verified st (ms_id spec) then Some [''text'', ''image'']
      else if ms_pricing spec = P_subscription \<or> ''transcription'' \<in> set (ms_capabilities spec) \<or> is_chat spec then Some [''text'']
      else None)"

definition supports_tools :: "sub_settings \<Rightarrow> (string \<Rightarrow> litellm_info option) \<Rightarrow> ModelSpec \<Rightarrow> int option \<Rightarrow> bool option" where
  "supports_tools st lm spec project_id =
     (if ms_provider spec \<in> {''codex-sub'', ''claude-sub''} then Some (subscription_tools_advertised st (ms_id spec) project_id)
      else if ms_provider spec \<notin> set TOOL_PROVIDERS \<or> ms_transport spec \<noteq> ''litellm'' \<or> \<not> is_chat spec then Some False
      else (case lm (ms_id spec) of Some mi \<Rightarrow> (case lm_tools mi of Some (JBool b) \<Rightarrow> Some b | _ \<Rightarrow> None) | None \<Rightarrow> None))"

text \<open>A row without its two constant fields, \<^verbatim>\<open>object\<close> and \<^verbatim>\<open>source\<close>.\<close>

record listing_row =
  lr_id :: string
  lr_owned_by :: string
  lr_billing_type :: string
  lr_name :: string
  lr_intelligence_index :: "rat option"
  lr_capabilities :: "string list"
  lr_supports_tools :: "bool option"
  lr_job_request :: "(string \<times> json) list option"
  lr_modalities :: "string list option"
  lr_output_modalities :: "string list option"
  lr_also_served_by :: "string list"
  lr_price :: "(string \<times> json) list"
  lr_available :: "bool option"
  lr_tested :: "bool option"
  lr_evidence :: "json option"

definition billing_type :: "ModelSpec \<Rightarrow> string" where
  "billing_type m = (if ms_pricing m = P_subscription then ''subscription'' else if ms_pricing m = P_local then ''local'' else ''api'')"

definition sub_available :: "sub_settings \<Rightarrow> bool \<Rightarrow> ModelSpec \<Rightarrow> bool" where
  "sub_available st codex_auth m \<longleftrightarrow> subscription_model_verified st (ms_id m) \<and>
     (ms_provider m \<noteq> ''codex-sub'' \<or> SUB_CODEX_ENABLED st \<and> codex_auth)"

definition listing_row_of ::
  "sub_settings \<Rightarrow> (rat \<Rightarrow> rat) \<Rightarrow> (string \<Rightarrow> litellm_info option) \<Rightarrow> int option \<Rightarrow> bool \<Rightarrow> ModelSpec \<Rightarrow> listing_row" where
  "listing_row_of st round6 lm project_id codex_auth m =
     (let sub = ms_pricing m = P_subscription; tool_support = supports_tools st lm m project_id;
          evidence = subscription_model_evidence st
      in \<lparr>lr_id = ms_id m, lr_owned_by = ms_provider m, lr_billing_type = billing_type m, lr_name = canonical_name (ms_id m),
          lr_intelligence_index = intelligence_index (canonical_name (ms_id m)), lr_capabilities = sort (ms_capabilities m),
          lr_supports_tools = tool_support,
          lr_job_request = job_request_contract m
            (if sub then Some (subscription_tools_accepted st (ms_id m) project_id) else tool_support),
          lr_modalities = input_modalities m, lr_output_modalities = output_modalities st m,
          lr_also_served_by = map ms_id (filter (\<lambda>other. ms_id other \<noteq> ms_id m \<and> canonical_name (ms_id other) = canonical_name (ms_id m))
            (pinnable_models (subscription_models st))),
          lr_price = price_info round6 lm m,
          lr_available = (if sub then Some (sub_available st codex_auth m) else None),
          lr_tested = (if sub then Some (obj_get evidence (ms_id m) \<noteq> None) else None),
          lr_evidence = (if sub then obj_get evidence (ms_id m) else None)\<rparr>)"

definition listing :: "sub_settings \<Rightarrow> (rat \<Rightarrow> rat) \<Rightarrow> (string \<Rightarrow> litellm_info option) \<Rightarrow> int option \<Rightarrow> bool \<Rightarrow> listing_row list" where
  "listing st round6 lm project_id codex_auth =
     map (listing_row_of st round6 lm project_id codex_auth) (pinnable_models (subscription_models st))"

end
