(* ===== verification/Compare.thy ===== *)
theory Compare
  imports Model_Listing Job_Poll
begin

text \<open>
  \<^verbatim>\<open>services/compare.py\<close>: the public page that asks several models one question. The models it offers,
  the guard that admits one question at a time per browser and per address, the fan-out, the
  pull of finished jobs, and the history. The answer of the job queue to a submit is an argument;
  polls read the job table. Page texts are UTF-8 bytes.
\<close>

section \<open>Constants\<close>

definition bytes :: "nat list \<Rightarrow> string" where
  "bytes = map char_of"

definition COMPARE_PROJECT :: string where "COMPARE_PROJECT = ''model-compare''"
definition COMPARE_SCOPES :: "string list" where "COMPARE_SCOPES = [''llm:chat'', ''llm:edit'', ''llm:deep'', AGENT_SCOPE]"
definition PAGE_SIZE :: nat where "PAGE_SIZE = 20"
definition TOP_MODELS :: nat where "TOP_MODELS = 20"
definition ACTIVE_TIMEOUT_S :: secs where "ACTIVE_TIMEOUT_S = 300"
definition TERMINAL :: "string list" where "TERMINAL = [''done'', ''truncated'', ''error'', ''refused'']"
definition SUBSCRIPTION_PREFIXES :: "string list" where "SUBSCRIPTION_PREFIXES = [''claude-sub/'', ''codex-sub/'']"

definition CHAT_LANES :: "string list" where
  "CHAT_LANES = [''chat:fast'', ''chat:smart'', ''chat:code'', ''chat:sales'', ''chat:edit'', ''chat:deep'']"

definition TRUNCATED_NOTE :: string where
  "TRUNCATED_NOTE = bytes [208, 190, 208, 177, 209, 128, 208, 181, 208, 183, 208, 176, 208, 189, 208, 190, 58, 32, 208, 188, 208, 190, 208, 180, 208, 181, 208, 187, 209,
    140, 32, 209, 131, 208, 191, 209, 145, 209, 128, 208, 187, 208, 176, 209, 129, 209, 140, 32, 208, 178, 32, 208, 187, 208, 184, 208, 188, 208, 184,
    209, 130, 32, 208, 180, 208, 187, 208, 184, 208, 189, 209, 139, 32, 208, 190, 209, 130, 208, 178, 208, 181, 209, 130, 208, 176]"

definition TRUNCATED_EMPTY_NOTE :: string where
  "TRUNCATED_EMPTY_NOTE = bytes [208, 191, 209, 131, 209, 129, 209, 130, 208, 190, 32, 226, 128, 148, 32, 208, 178, 209, 129, 209, 145, 32, 209, 131, 209, 136, 208, 187, 208,
    190, 32, 208, 189, 208, 176, 32, 209, 128, 208, 176, 209, 129, 209, 129, 209, 131, 208, 182, 208, 180, 208, 181, 208, 189, 208, 184, 208, 181]"

definition BUSY_MESSAGE :: string where
  "BUSY_MESSAGE = bytes [208, 152, 208, 183, 208, 178, 208, 184, 208, 189, 208, 184, 209, 130, 208, 181, 44, 32, 208, 191, 208, 190, 208, 186, 208, 176, 32, 208, 184,
    208, 180, 209, 145, 209, 130, 32, 208, 178, 208, 176, 209, 136, 32, 208, 191, 209, 128, 208, 181, 208, 180, 209, 139, 208, 180, 209, 131, 209, 137,
    208, 184, 208, 185, 32, 208, 178, 208, 190, 208, 191, 209, 128, 208, 190, 209, 129, 44, 32, 208, 189, 208, 190, 208, 178, 209, 139, 208, 185, 32, 208,
    190, 209, 130, 208, 191, 209, 128, 208, 176, 208, 178, 208, 184, 209, 130, 209, 140, 32, 208, 189, 208, 181, 208, 187, 209, 140, 208, 183, 209, 143,
    46, 32, 208, 148, 208, 190, 208, 182, 208, 180, 208, 184, 209, 130, 208, 181, 209, 129, 209, 140, 32, 208, 190, 209, 130, 208, 178, 208, 181, 209,
    130, 208, 190, 208, 178, 32, 208, 178, 209, 129, 208, 181, 209, 133, 32, 208, 178, 209, 139, 208, 177, 209, 128, 208, 176, 208, 189, 208, 189, 209,
    139, 209, 133, 32, 208, 188, 208, 190, 208, 180, 208, 181, 208, 187, 208, 181, 208, 185, 32, 226, 128, 148, 32, 209, 130, 208, 176, 208, 186, 32, 208,
    188, 209, 139, 32, 208, 183, 208, 176, 209, 137, 208, 184, 209, 137, 208, 176, 208, 181, 208, 188, 32, 209, 129, 208, 181, 209, 128, 208, 178, 208,
    184, 209, 129, 32, 208, 190, 209, 130, 32, 208, 191, 208, 181, 209, 128, 208, 181, 208, 179, 209, 128, 209, 131, 208, 183, 208, 186, 208, 184, 46]"

definition TIMEOUT_MESSAGE :: string where
  "TIMEOUT_MESSAGE = bytes [209, 130, 208, 176, 208, 185, 208, 188, 208, 176, 209, 131, 209, 130, 58, 32, 208, 188, 208, 190, 208, 180, 208, 181, 208, 187, 209, 140, 32,
    208, 189, 208, 181, 32, 208, 190, 209, 130, 208, 178, 208, 181, 209, 130, 208, 184, 208, 187, 208, 176, 32, 208, 183, 208, 176, 32, 53, 32, 208, 188,
    208, 184, 208, 189, 209, 131, 209, 130]"

definition REFUSED_CAP :: string where
  "REFUSED_CAP = bytes [208, 190, 209, 130, 208, 186, 208, 176, 208, 183, 58, 32, 208, 187, 208, 184, 208, 188, 208, 184, 209, 130, 32, 208, 191, 209, 128, 208, 190,
    208, 181, 208, 186, 209, 130, 208, 176, 32, 40]"

definition REFUSED :: string where
  "REFUSED = bytes [208, 190, 209, 130, 208, 186, 208, 176, 208, 183, 58, 32]"

definition REFUSED_REQUESTS :: string where
  "REFUSED_REQUESTS = bytes [208, 190, 209, 130, 208, 186, 208, 176, 208, 183, 58, 32, 208, 187, 208, 184, 208, 188, 208, 184, 209, 130, 32, 208, 183, 208, 176, 208, 191,
    209, 128, 208, 190, 209, 129, 208, 190, 208, 178, 32, 208, 191, 209, 128, 208, 190, 208, 181, 208, 186, 209, 130, 208, 176, 32, 40]"

definition REFUSED_PROJECT :: string where
  "REFUSED_PROJECT = bytes [208, 190, 209, 130, 208, 186, 208, 176, 208, 183, 58, 32, 208, 191, 209, 128, 208, 190, 208, 181, 208, 186, 209, 130, 32, 208, 189, 208, 181,
    32, 208, 180, 208, 190, 208, 191, 209, 131, 209, 137, 208, 181, 208, 189, 32, 208, 186, 32, 208, 191, 208, 190, 208, 180, 208, 191, 208, 184, 209,
    129, 208, 190, 209, 135, 208, 189, 209, 139, 208, 188, 32, 208, 188, 208, 190, 208, 180, 208, 181, 208, 187, 209, 143, 208, 188, 32, 40, 97, 103, 101,
    110, 116, 95, 112, 114, 111, 106, 101, 99, 116, 95, 110, 111, 116, 95, 97, 108, 108, 111, 119, 101, 100, 41]"

definition REFUSED_POLICY :: string where
  "REFUSED_POLICY = bytes [208, 190, 209, 130, 208, 186, 208, 176, 208, 183, 58, 32, 208, 191, 208, 190, 208, 187, 208, 184, 209, 130, 208, 184, 208, 186, 208, 176, 32,
    208, 191, 209, 128, 208, 190, 208, 181, 208, 186, 209, 130, 208, 176, 32, 40]"

definition SUBMIT_ERROR :: string where
  "SUBMIT_ERROR = bytes [208, 190, 209, 136, 208, 184, 208, 177, 208, 186, 208, 176, 32, 208, 190, 209, 130, 208, 191, 209, 128, 208, 176, 208, 178, 208, 186, 208, 184,
    58, 32]"

section \<open>The models of the page\<close>

definition lane_for :: "string list \<Rightarrow> string \<Rightarrow> string option" where
  "lane_for capabilities provider = find (\<lambda>lane. lane \<in> set capabilities \<and>
     (case chain_for lane of Inr chain \<Rightarrow> provider \<in> set chain | Inl _ \<Rightarrow> False)) CHAT_LANES"

definition subscription_lane :: "string list \<Rightarrow> string option" where
  "subscription_lane capabilities = (if ''chat:smart'' \<in> set capabilities then Some ''chat:smart''
     else find (\<lambda>lane. lane \<in> set capabilities) CHAT_LANES)"

record page_model =
  pm_id :: string
  pm_name :: string
  pm_provider :: string
  pm_intelligence_index :: "rat option"
  pm_capability :: string
  pm_subscription :: bool

definition page_model_of :: "listing_row \<Rightarrow> page_model option" where
  "page_model_of row =
     (let sub = (lr_billing_type row = ''subscription'');
          lane = (if sub then if lr_available row = Some False then None else subscription_lane (lr_capabilities row)
                  else lane_for (lr_capabilities row) (lr_owned_by row))
      in map_option (\<lambda>l. \<lparr>pm_id = lr_id row, pm_name = lr_name row, pm_provider = lr_owned_by row,
           pm_intelligence_index = lr_intelligence_index row, pm_capability = l, pm_subscription = sub\<rparr>) lane)"

definition score_key :: "page_model \<Rightarrow> bool \<times> rat \<times> string \<times> string" where
  "score_key m = (pm_intelligence_index m = None, - opt_or (pm_intelligence_index m) 0, pm_name m, pm_id m)"

definition chat_models :: "listing_row list \<Rightarrow> page_model list" where
  "chat_models rows = sort_key score_key (List.map_filter page_model_of rows)"

definition model_rank :: "page_model \<Rightarrow> bool \<times> bool \<times> string" where
  "model_rank m = (\<not> pm_subscription m, ps_paid (spec_or_default (Some (pm_provider m))), pm_id m)"

definition keep_best :: "page_model \<Rightarrow> (string \<times> page_model) list \<Rightarrow> (string \<times> page_model) list" where
  "keep_best m best = (case map_of best (pm_name m) of
      Some cur \<Rightarrow> if model_rank m < model_rank cur then dict_set (pm_name m) m best else best
    | None \<Rightarrow> dict_set (pm_name m) m best)"

definition page_models :: "listing_row list \<Rightarrow> page_model list" where
  "page_models rows = take TOP_MODELS (sort_key score_key (map snd (fold keep_best (chat_models rows) [])))"

definition is_subscription :: "string \<Rightarrow> bool" where
  "is_subscription model_id = list_ex (starts_with model_id) SUBSCRIPTION_PREFIXES"

definition cookie_ok :: "string \<Rightarrow> bool" where
  "cookie_ok c \<longleftrightarrow> 16 \<le> length c \<and> length c \<le> 64 \<and> list_all (\<lambda>x. ascii_alnum x \<or> x = CHR ''_'' \<or> x = CHR ''-'') c"

text \<open>\<^verbatim>\<open>_COOKIE_RE.match\<close> with \<^verbatim>\<open>$\<close> also lets one newline end the cookie.\<close>

definition browser_id_from :: "string \<Rightarrow> string option \<Rightarrow> string" where
  "browser_id_from fresh cookie = (case cookie of
      Some c \<Rightarrow> if cookie_ok c \<or> (c \<noteq> [] \<and> last c = CHR 0x0A \<and> cookie_ok (butlast c)) then c else fresh
    | None \<Rightarrow> fresh)"

section \<open>Questions and results\<close>

record CompareRequestRow =
  cq_id :: int
  cq_prompt :: string
  cq_browser_id :: string
  cq_client_ip :: string
  cq_created_at :: instant

record CompareResultRow =
  cr_id :: int
  cr_request_id :: int
  cr_model_id :: string
  cr_capability :: string
  cr_intelligence_index :: "rat option"
  cr_job_id :: "int option"
  cr_status :: string
  cr_answer :: "string option"
  cr_error :: "string option"
  cr_model_served :: "json option"
  cr_latency_ms :: "json option"
  cr_tokens_in :: "json option"
  cr_tokens_out :: "json option"
  cr_cost_usd :: "json option"
  cr_finish_reason :: "json option"
  cr_billing_type :: "json option"
  cr_created_at :: instant
  cr_completed_at :: "instant option"

record compare_db =
  cd_requests :: "CompareRequestRow list"
  cd_results :: "CompareResultRow list"
  cd_next_request :: int
  cd_next_result :: int

definition get_project :: "ProjectRow list \<Rightarrow> ProjectRow option" where
  "get_project rows = find (\<lambda>p. p_name p = COMPARE_PROJECT \<and> p_is_active p) rows"

definition asked_by :: "string \<Rightarrow> string \<Rightarrow> CompareRequestRow \<Rightarrow> bool" where
  "asked_by browser_id ip q \<longleftrightarrow> cq_browser_id q = browser_id \<or> (ip \<noteq> [] \<and> cq_client_ip q = ip)"

definition is_active :: "instant \<Rightarrow> compare_db \<Rightarrow> CompareRequestRow \<Rightarrow> bool" where
  "is_active now db q \<longleftrightarrow> cq_created_at q > now - ACTIVE_TIMEOUT_S \<and>
     list_ex (\<lambda>r. cr_request_id r = cq_id q \<and> cr_status r \<notin> set TERMINAL) (cd_results db)"

definition active_request_id :: "instant \<Rightarrow> string \<Rightarrow> string \<Rightarrow> compare_db \<Rightarrow> int option" where
  "active_request_id now browser_id ip db =
     (case filter (\<lambda>q. asked_by browser_id ip q \<and> is_active now db q) (cd_requests db) of
        [] \<Rightarrow> None | q # qs \<Rightarrow> Some (fold max (map cq_id qs) (cq_id q)))"

definition new_result :: "instant \<Rightarrow> int \<Rightarrow> int \<Rightarrow> page_model \<Rightarrow> CompareResultRow" where
  "new_result now request_id rid m = \<lparr>cr_id = rid, cr_request_id = request_id, cr_model_id = pm_id m, cr_capability = pm_capability m,
     cr_intelligence_index = pm_intelligence_index m, cr_job_id = None, cr_status = ''pending'', cr_answer = None, cr_error = None,
     cr_model_served = None, cr_latency_ms = None, cr_tokens_in = None, cr_tokens_out = None, cr_cost_usd = None,
     cr_finish_reason = None, cr_billing_type = None, cr_created_at = now, cr_completed_at = None\<rparr>"

definition insert_request :: "instant \<Rightarrow> string \<Rightarrow> string \<Rightarrow> string \<Rightarrow> page_model list \<Rightarrow> compare_db \<Rightarrow> compare_db" where
  "insert_request now prompt browser_id ip models db = db\<lparr>
     cd_requests := cd_requests db @ [\<lparr>cq_id = cd_next_request db, cq_prompt = prompt, cq_browser_id = browser_id,
       cq_client_ip = ip, cq_created_at = now\<rparr>],
     cd_results := cd_results db @ map (\<lambda>(n, m). new_result now (cd_next_request db) (cd_next_result db + int n) m) (enumerate 0 models),
     cd_next_request := cd_next_request db + 1, cd_next_result := cd_next_result db + int (length models)\<rparr>"

text \<open>Guard and insert, as they run under the caller's locks.\<close>

definition create_request ::
  "instant \<Rightarrow> string \<Rightarrow> string \<Rightarrow> string \<Rightarrow> page_model list \<Rightarrow> compare_db \<Rightarrow> (route_error + int) \<times> compare_db" where
  "create_request now prompt browser_id ip models db =
     (if active_request_id now browser_id ip db \<noteq> None then (Inl (Http 429 BUSY_MESSAGE), db)
      else (Inr (cd_next_request db), insert_request now prompt browser_id ip models db))"

section \<open>Fan-out\<close>

text \<open>
  What the job queue says to the submit of one model. \<open>submit_model\<close> turns the refusals it knows into
  the reason shown to the user.
\<close>

datatype submit_reply = Enqueued int | SaysHttp string | CapExhausted string | ProjectNotAllowed | OutsidePolicy string | Raises string

definition submit_params :: "string \<Rightarrow> string \<Rightarrow> (string \<times> json) list" where
  "submit_params model_id prompt =
     [(''messages'', JList [JObj [(''role'', JStr ''user''), (''content'', JStr prompt)]]), (''model'', JStr model_id),
      (''labels'', JObj [(''page'', JStr ''compare'')])] @
     (if is_subscription model_id then [] else [(''max_tokens'', JInt JOB_MAX_TOKENS_MAX)])"

definition submit_model :: "submit_reply \<Rightarrow> (string \<times> string) + int" where
  "submit_model reply = (case reply of
      Enqueued job_id \<Rightarrow> Inr job_id
    | SaysHttp det \<Rightarrow> Inl (''refused'', REFUSED @ det)
    | CapExhausted msg \<Rightarrow> Inl (''refused'', REFUSED_REQUESTS @ msg @ '')'')
    | ProjectNotAllowed \<Rightarrow> Inl (''refused'', REFUSED_PROJECT)
    | OutsidePolicy err \<Rightarrow> Inl (''refused'', REFUSED_POLICY @ err @ '')'')
    | Raises name \<Rightarrow> Inl (''error'', SUBMIT_ERROR @ name))"

definition submit_values :: "instant \<Rightarrow> submit_reply \<Rightarrow> CompareResultRow \<Rightarrow> CompareResultRow" where
  "submit_values now reply r = (case submit_model reply of
      Inr job_id \<Rightarrow> r\<lparr>cr_job_id := Some job_id\<rparr>
    | Inl (status, err) \<Rightarrow> r\<lparr>cr_status := status, cr_error := Some err, cr_completed_at := Some now\<rparr>)"

definition write_result :: "int \<Rightarrow> (CompareResultRow \<Rightarrow> CompareResultRow) \<Rightarrow> compare_db \<Rightarrow> compare_db" where
  "write_result rid f db = db\<lparr>cd_results := update_where (\<lambda>r. cr_id r = rid) f (cd_results db)\<rparr>"

text \<open>One job per result row; the rows answer in any order, each at its own time.\<close>

definition fan_out :: "(int \<times> instant \<times> submit_reply) list \<Rightarrow> int \<Rightarrow> compare_db \<Rightarrow> compare_db" where
  "fan_out replies request_id db =
     (let ids = map cr_id (filter (\<lambda>r. cr_request_id r = request_id) (cd_results db)) in
      fold (\<lambda>(rid, now, reply). write_result rid (submit_values now reply)) (filter (\<lambda>(rid, _). rid \<in> set ids) replies) db)"

section \<open>Pulling the answers\<close>

definition poll_job :: "run_env \<Rightarrow> ProjectRow \<Rightarrow> int \<Rightarrow> DeepJobRow list \<Rightarrow> (route_error + DeepJobResponse) option" where
  "poll_job e p job_id rows = map_option (\<lambda>row. job_response e row
     (map_option (live_files_inline (re_now_iso e)) (stored_files row))) (get_job job_id (p_id p) rows)"

definition is_cap_error :: "string \<Rightarrow> bool" where
  "is_cap_error msg \<longleftrightarrow> msg \<in> {cap_message ''daily'', cap_message ''monthly''}"

definition done_values :: "instant \<Rightarrow> DeepJobResponse \<Rightarrow> CompareResultRow \<Rightarrow> CompareResultRow" where
  "done_values now job r =
     (let cutoff = (jr_finish_reason job = Some (JStr ''length'')) in
      r\<lparr>cr_status := (if cutoff then ''truncated'' else ''done''), cr_answer := jr_text job, cr_model_served := jr_model_served job,
        cr_latency_ms := jr_latency_ms job, cr_completed_at := Some now, cr_tokens_in := jr_tokens_in job,
        cr_tokens_out := jr_tokens_out job, cr_cost_usd := jr_cost_usd job, cr_billing_type := jr_billing_type job,
        cr_finish_reason := jr_finish_reason job,
        cr_error := (if cutoff then Some (if py_strip (opt_or (jr_text job) []) \<noteq> [] then TRUNCATED_NOTE
                       else TRUNCATED_NOTE @ ''; '' @ TRUNCATED_EMPTY_NOTE) else cr_error r)\<rparr>)"

definition failed_values :: "instant \<Rightarrow> DeepJobResponse \<Rightarrow> CompareResultRow \<Rightarrow> CompareResultRow" where
  "failed_values now job r =
     (let err = (if given (jr_error job) then the (jr_error job) else jr_status job) in
      if is_cap_error err then r\<lparr>cr_status := ''refused'', cr_error := Some (REFUSED_CAP @ err @ '')''), cr_completed_at := Some now\<rparr>
      else r\<lparr>cr_status := ''error'', cr_error := Some err, cr_completed_at := Some now\<rparr>)"

definition timeout_values :: "instant \<Rightarrow> CompareResultRow \<Rightarrow> CompareResultRow" where
  "timeout_values now r = r\<lparr>cr_status := ''error'', cr_error := Some TIMEOUT_MESSAGE, cr_completed_at := Some now\<rparr>"

text \<open>What to write, if anything, and the job to cancel on a timeout.\<close>

definition sync_values ::
  "instant \<Rightarrow> bool \<Rightarrow> DeepJobResponse option \<Rightarrow> int option \<Rightarrow> (CompareResultRow \<Rightarrow> CompareResultRow) option \<times> int list" where
  "sync_values now expired job job_id = (case job of
      Some resp \<Rightarrow> if jr_status resp = ''done'' then (Some (done_values now resp), [])
        else if jr_status resp \<in> {''error'', ''cancelled''} then (Some (failed_values now resp), [])
        else if expired then (Some (timeout_values now), case job_id of Some i \<Rightarrow> [i] | None \<Rightarrow> [])
        else (None, [])
    | None \<Rightarrow> if expired then (Some (timeout_values now), case job_id of Some i \<Rightarrow> [i] | None \<Rightarrow> []) else (None, []))"

text \<open>
  \<open>ce_run n\<close> and \<open>ce_rows n\<close> are the clock and the job table at step \<open>n\<close>; \<open>ce_between n\<close> is what others
  write to the page's tables before it.
\<close>

record compare_env =
  ce_run :: "nat \<Rightarrow> run_env"
  ce_rows :: "nat \<Rightarrow> DeepJobRow list"
  ce_between :: "nat \<Rightarrow> compare_db \<Rightarrow> compare_db"

definition pending_results :: "int \<Rightarrow> compare_db \<Rightarrow> CompareResultRow list" where
  "pending_results request_id db = filter (\<lambda>r. cr_request_id r = request_id \<and> cr_status r = ''pending'') (cd_results db)"

definition write_pending :: "int \<Rightarrow> (CompareResultRow \<Rightarrow> CompareResultRow) \<Rightarrow> compare_db \<Rightarrow> compare_db" where
  "write_pending rid f db = db\<lparr>cd_results := update_where (\<lambda>r. cr_id r = rid \<and> cr_status r = ''pending'') f (cd_results db)\<rparr>"

definition polled :: "compare_env \<Rightarrow> nat \<Rightarrow> ProjectRow option \<Rightarrow> CompareResultRow \<Rightarrow> (route_error + DeepJobResponse) option" where
  "polled E n p r = (case (p, cr_job_id r) of (Some pr, Some i) \<Rightarrow> poll_job (ce_run E n) pr i (ce_rows E n) | _ \<Rightarrow> None)"

fun sync_rows ::
  "compare_env \<Rightarrow> ProjectRow option \<Rightarrow> bool \<Rightarrow> nat \<Rightarrow> CompareResultRow list \<Rightarrow> compare_db \<Rightarrow> (route_error + int list) \<times> compare_db" where
  "sync_rows E p expired n [] db = (Inr [], db)"
| "sync_rows E p expired n (r # rs) db =
     (case polled E n p r of
        Some (Inl err) \<Rightarrow> (Inl err, db)
      | reply \<Rightarrow>
          (let job = map_option projr reply; now = re_now (ce_run E n) in
           case sync_values now expired job (if p = None then None else cr_job_id r) of (values, cancels) \<Rightarrow>
             let db1 = (case values of Some f \<Rightarrow> write_pending (cr_id r) f (ce_between E n db) | None \<Rightarrow> db) in
             (case sync_rows E p expired (Suc n) rs db1 of
                (Inl err, db2) \<Rightarrow> (Inl err, db2) | (Inr more_cancels, db2) \<Rightarrow> (Inr (cancels @ more_cancels), db2))))"

definition sync_request :: "compare_env \<Rightarrow> ProjectRow option \<Rightarrow> int \<Rightarrow> compare_db \<Rightarrow> (route_error + int list) \<times> compare_db" where
  "sync_request E p request_id db =
     (case find_row cq_id request_id (cd_requests db) of
        None \<Rightarrow> (Inr [], db)
      | Some req \<Rightarrow> if pending_results request_id db = [] then (Inr [], db)
          else sync_rows E p (re_now (ce_run E 0) - cq_created_at req > ACTIVE_TIMEOUT_S) 0 (pending_results request_id db) db)"

text \<open>The background poller: one pass per entry of the schedule, while it is before its deadline.\<close>

fun track_passes :: "compare_env list \<Rightarrow> instant \<Rightarrow> ProjectRow option \<Rightarrow> int \<Rightarrow> compare_db \<Rightarrow> (route_error + bool) \<times> compare_db" where
  "track_passes [] deadline p request_id db = (Inr False, db)"
| "track_passes (E # Es) deadline p request_id db =
     (if re_now (ce_run E 0) \<ge> deadline then (Inr True, db)
      else case sync_request E p request_id db of
        (Inl err, db1) \<Rightarrow> (Inl err, db1)
      | (Inr _, db1) \<Rightarrow> if pending_results request_id db1 = [] then (Inr True, db1) else track_passes Es deadline p request_id db1)"

definition track :: "instant \<Rightarrow> compare_env list \<Rightarrow> ProjectRow option \<Rightarrow> int \<Rightarrow> compare_db \<Rightarrow> (route_error + bool) \<times> compare_db" where
  "track started Es p request_id db = track_passes Es (started + ACTIVE_TIMEOUT_S + 10) p request_id db"

section \<open>Reading\<close>

definition number :: "json \<Rightarrow> rat" where
  "number v = (case v of JInt i \<Rightarrow> of_int i | JFloat x \<Rightarrow> x | _ \<Rightarrow> 0)"

record result_view =
  rv_row :: CompareResultRow
  rv_model_served :: json
  rv_subscription :: bool

definition result_dict :: "CompareResultRow \<Rightarrow> result_view" where
  "result_dict r = \<lparr>rv_row = r, rv_model_served = (case cr_model_served r of Some v \<Rightarrow> if truthy v then v else JStr ''unknown'' | None \<Rightarrow> JStr ''unknown''),
     rv_subscription = (cr_billing_type r = Some (JStr ''subscription'') \<or> is_subscription (cr_model_id r))\<rparr>"

definition known :: "(CompareResultRow \<Rightarrow> json option) \<Rightarrow> result_view list \<Rightarrow> rat \<times> nat" where
  "known col rows = (let vals = List.map_filter (\<lambda>x. col (rv_row x)) rows in (sum_list (map number vals), length rows - length vals))"

record totals_view =
  tv_tokens_in :: int
  tv_tokens_out :: int
  tv_cost_usd :: rat
  tv_tokens_unknown :: nat
  tv_cost_unknown :: nat
  tv_subscription :: nat

definition usage_totals :: "result_view list \<Rightarrow> totals_view" where
  "usage_totals results =
     (let finished = filter (\<lambda>x. cr_status (rv_row x) \<in> {''done'', ''truncated''}) results;
          priced = filter (\<lambda>x. \<not> rv_subscription x) finished
      in \<lparr>tv_tokens_in = py_trunc (fst (known cr_tokens_in finished)), tv_tokens_out = py_trunc (fst (known cr_tokens_out finished)),
          tv_cost_usd = fst (known cr_cost_usd priced),
          tv_tokens_unknown = max (snd (known cr_tokens_in finished)) (snd (known cr_tokens_out finished)),
          tv_cost_unknown = snd (known cr_cost_usd priced), tv_subscription = length finished - length priced\<rparr>)"

record request_view =
  qv_request :: CompareRequestRow
  qv_done :: bool
  qv_results :: "result_view list"
  qv_usage :: totals_view

definition request_dict :: "CompareRequestRow \<Rightarrow> CompareResultRow list \<Rightarrow> request_view" where
  "request_dict req results =
     (let rows = map result_dict (sort_key cr_id results) in
      \<lparr>qv_request = req, qv_done = list_all (\<lambda>r. cr_status r \<in> set TERMINAL) results, qv_results = rows, qv_usage = usage_totals rows\<rparr>)"

definition results_of :: "int \<Rightarrow> compare_db \<Rightarrow> CompareResultRow list" where
  "results_of request_id db = filter (\<lambda>r. cr_request_id r = request_id) (cd_results db)"

definition get_request :: "int \<Rightarrow> compare_db \<Rightarrow> request_view option" where
  "get_request request_id db =
     map_option (\<lambda>req. request_dict req (results_of request_id db)) (find_row cq_id request_id (cd_requests db))"

definition escape_char :: "char \<Rightarrow> string" where
  "escape_char c = (if c = CHR 0x5C \<or> c = CHR ''%'' \<or> c = CHR ''_'' then [CHR 0x5C, c] else [c])"

definition like_pattern :: "string \<Rightarrow> string" where
  "like_pattern q = ''%'' @ concat (map escape_char q) @ ''%''"

text \<open>
  SQL's \<^verbatim>\<open>ILIKE\<close> with a backslash as escape; \<open>low\<close> is the case folding of the database. A pattern that
  ends in its escape matches nothing.
\<close>

fun ilike :: "(char \<Rightarrow> char) \<Rightarrow> string \<Rightarrow> string \<Rightarrow> bool" where
  "ilike low [] s = (s = [])"
| "ilike low (c # pat) [] = (c = CHR ''%'' \<and> ilike low pat [])"
| "ilike low (c # pat) (x # s) =
     (if c = CHR ''%'' then ilike low pat (x # s) \<or> ilike low (c # pat) s
      else if c = CHR ''_'' then ilike low pat s
      else if c = CHR 0x5C then (case pat of [] \<Rightarrow> False | d # pat' \<Rightarrow> low d = low x \<and> ilike low pat' s)
      else low c = low x \<and> ilike low pat s)"

record history_page =
  hp_items :: "request_view list"
  hp_page :: int
  hp_total :: nat
  hp_has_more :: bool

definition search_history :: "(char \<Rightarrow> char) \<Rightarrow> string \<Rightarrow> int \<Rightarrow> compare_db \<Rightarrow> history_page" where
  "search_history low q page db =
     (let pg = max page 1;
          hits = (if q = [] then cd_requests db else filter (\<lambda>r. ilike low (like_pattern q) (cq_prompt r)) (cd_requests db));
          reqs = take PAGE_SIZE (drop (nat (pg - 1) * PAGE_SIZE) (rev (sort_key cq_id hits)))
      in \<lparr>hp_items = map (\<lambda>r. request_dict r (results_of (cq_id r) db)) reqs, hp_page = pg, hp_total = length hits,
          hp_has_more = (pg * int PAGE_SIZE < int (length hits))\<rparr>)"

end
