(* ===== verification/Compare_Facts.thy ===== *)
theory Compare_Facts
  imports Compare
begin

text \<open>
  What holds of the comparison page: one question at a time per browser and per address under any
  interleaving of submits, answers that stay, questions that close, a history search that finds
  what was asked for, and a page that offers only models a job can be pinned to.
\<close>

section \<open>One question at a time\<close>

text \<open>
  A submit runs in a transaction that takes the lock of its browser, then the lock of its address, then
  checks, then inserts; commit or refusal frees both. A lock is held on a hash \<open>hk\<close> of its name,
  so different names may share one.
\<close>

datatype tx_phase = Begun | HasBrowser | HasBoth | Admitted instant | Ended

record submit_tx =
  tx_browser :: string
  tx_ip :: string
  tx_prompt :: string
  tx_models :: "page_model list"
  tx_phase :: tx_phase

definition browser_key :: "(string \<Rightarrow> int) \<Rightarrow> submit_tx \<Rightarrow> int" where
  "browser_key hk t = hk (''cmp:b:'' @ tx_browser t)"

definition ip_key :: "(string \<Rightarrow> int) \<Rightarrow> submit_tx \<Rightarrow> int" where
  "ip_key hk t = hk (''cmp:i:'' @ tx_ip t)"

definition lock_caller :: "(string \<Rightarrow> int) \<Rightarrow> submit_tx \<Rightarrow> int list" where
  "lock_caller hk t = (case tx_phase t of
      Begun \<Rightarrow> [] | HasBrowser \<Rightarrow> [browser_key hk t] | Ended \<Rightarrow> []
    | _ \<Rightarrow> browser_key hk t # (if tx_ip t = [] then [] else [ip_key hk t]))"

record compare_world =
  cw_now :: instant
  cw_db :: compare_db
  cw_txs :: "submit_tx list"

definition free_for :: "(string \<Rightarrow> int) \<Rightarrow> submit_tx list \<Rightarrow> nat \<Rightarrow> int \<Rightarrow> bool" where
  "free_for hk txs k key \<longleftrightarrow> (\<forall>l < length txs. l \<noteq> k \<longrightarrow> key \<notin> set (lock_caller hk (txs ! l)))"

definition set_phase :: "nat \<Rightarrow> tx_phase \<Rightarrow> compare_world \<Rightarrow> compare_world" where
  "set_phase k ph w = w\<lparr>cw_txs := (cw_txs w)[k := (cw_txs w ! k)\<lparr>tx_phase := ph\<rparr>]\<rparr>"

inductive compare_step :: "(string \<Rightarrow> int) \<Rightarrow> compare_world \<Rightarrow> compare_world \<Rightarrow> bool" for hk where
  step_begin: "tx_phase t = Begun \<Longrightarrow> compare_step hk w (w\<lparr>cw_txs := cw_txs w @ [t]\<rparr>)"
| step_browser: "k < length (cw_txs w) \<Longrightarrow> t = cw_txs w ! k \<Longrightarrow> tx_phase t = Begun \<Longrightarrow> free_for hk (cw_txs w) k (browser_key hk t) \<Longrightarrow>
    compare_step hk w (set_phase k HasBrowser w)"
| step_ip: "k < length (cw_txs w) \<Longrightarrow> t = cw_txs w ! k \<Longrightarrow> tx_phase t = HasBrowser \<Longrightarrow>
    tx_ip t = [] \<or> free_for hk (cw_txs w) k (ip_key hk t) \<Longrightarrow> compare_step hk w (set_phase k HasBoth w)"
| step_check: "k < length (cw_txs w) \<Longrightarrow> t = cw_txs w ! k \<Longrightarrow> tx_phase t = HasBoth \<Longrightarrow>
    compare_step hk w (set_phase k (if active_request_id (cw_now w) (tx_browser t) (tx_ip t) (cw_db w) \<noteq> None then Ended
      else Admitted (cw_now w)) w)"
| step_commit: "k < length (cw_txs w) \<Longrightarrow> t = cw_txs w ! k \<Longrightarrow> tx_phase t = Admitted at_time \<Longrightarrow>
    compare_step hk w ((set_phase k Ended w)\<lparr>cw_db :=
      insert_request at_time (tx_prompt t) (tx_browser t) (tx_ip t) (tx_models t) (cw_db w)\<rparr>)"
| step_submit: "compare_step hk w (w\<lparr>cw_db := write_result rid (submit_values now reply) (cw_db w)\<rparr>)"
| step_pull: "fst (sync_values now expired job job_id) = Some f \<Longrightarrow> compare_step hk w (w\<lparr>cw_db := write_pending rid f (cw_db w)\<rparr>)"
| step_tick: "s \<ge> 0 \<Longrightarrow> compare_step hk w (w\<lparr>cw_now := cw_now w + s\<rparr>)"

text \<open>A write to a result row that never reopens it.\<close>

definition closing :: "(CompareResultRow \<Rightarrow> CompareResultRow) \<Rightarrow> bool" where
  "closing f \<longleftrightarrow> (\<forall>r. cr_request_id (f r) = cr_request_id r \<and> cr_id (f r) = cr_id r \<and>
     (cr_status r \<in> set TERMINAL \<longrightarrow> cr_status (f r) \<in> set TERMINAL))"

lemma keys_phase [simp]: "browser_key hk (t\<lparr>tx_phase := ph\<rparr>) = browser_key hk t" "ip_key hk (t\<lparr>tx_phase := ph\<rparr>) = ip_key hk t"
  by (simp_all add: browser_key_def ip_key_def)

lemma closing_submit: "closing (submit_values now reply)"
  by (auto simp: closing_def submit_values_def submit_model_def TERMINAL_def split: submit_reply.split)

lemma sync_values_terminal:
  assumes "fst (sync_values now expired job job_id) = Some f"
  shows "cr_request_id (f r) = cr_request_id r \<and> cr_id (f r) = cr_id r \<and> cr_status (f r) \<in> set TERMINAL"
proof -
  consider resp where "f = done_values now resp" | resp where "f = failed_values now resp" | "f = timeout_values now"
    using assms by (auto simp: sync_values_def split: option.splits if_splits)
  then show ?thesis
    by cases (simp_all add: done_values_def failed_values_def timeout_values_def Let_def TERMINAL_def)
qed

lemma closing_sync: "fst (sync_values now expired job job_id) = Some f \<Longrightarrow> closing f"
  using sync_values_terminal by (auto simp: closing_def)

text \<open>Questions only ever cease to be active.\<close>

lemma active_update:
  assumes "closing f" "is_active now (db\<lparr>cd_results := update_where P f (cd_results db)\<rparr>) q"
  shows "is_active now db q"
proof -
  obtain r where "r \<in> set (update_where P f (cd_results db))" "cr_request_id r = cq_id q" "cr_status r \<notin> set TERMINAL"
    using assms(2) by (auto simp: is_active_def list_ex_iff)
  then have "\<exists>r \<in> set (cd_results db). cr_request_id r = cq_id q \<and> cr_status r \<notin> set TERMINAL"
    using assms(1) by (auto simp: set_update_where closing_def split: if_splits)
  then show ?thesis using assms(2) by (auto simp: is_active_def list_ex_iff)
qed

lemma active_later: "s \<ge> 0 \<Longrightarrow> is_active (now + s) db q \<Longrightarrow> is_active now db q"
  by (auto simp: is_active_def)

lemma active_insert:
  assumes "cq_id q < cd_next_request db"
  shows "is_active now (insert_request t prompt b ip models db) q = is_active now db q"
proof -
  have "\<not> list_ex (\<lambda>r. cr_request_id r = cq_id q \<and> cr_status r \<notin> set TERMINAL)
      (map (\<lambda>(n, m). new_result t (cd_next_request db) (cd_next_result db + int n) m) (enumerate 0 models))"
    using assms by (auto simp: list_ex_iff new_result_def)
  then show ?thesis by (simp add: is_active_def insert_request_def)
qed

lemma active_request_None: "active_request_id now b ip db = None \<longleftrightarrow> (\<forall>q \<in> set (cd_requests db). \<not> (asked_by b ip q \<and> is_active now db q))"
proof -
  have "active_request_id now b ip db = None \<longleftrightarrow> filter (\<lambda>q. asked_by b ip q \<and> is_active now db q) (cd_requests db) = []"
    by (simp add: active_request_id_def split: list.split)
  then show ?thesis by (simp add: filter_empty_conv)
qed

definition alone :: "instant \<Rightarrow> compare_db \<Rightarrow> string \<Rightarrow> string \<Rightarrow> bool" where
  "alone now db b ip \<longleftrightarrow> (\<forall>q \<in> set (cd_requests db). asked_by b ip q \<longrightarrow> \<not> is_active now db q)"

definition ids_below :: "compare_db \<Rightarrow> bool" where
  "ids_below db \<longleftrightarrow> (\<forall>q \<in> set (cd_requests db). cq_id q < cd_next_request db) \<and> (\<forall>r \<in> set (cd_results db). cr_request_id r < cd_next_request db)"

definition one_each :: "instant \<Rightarrow> compare_db \<Rightarrow> bool" where
  "one_each now db \<longleftrightarrow> (\<forall>q \<in> set (cd_requests db). \<forall>q' \<in> set (cd_requests db). cq_id q \<noteq> cq_id q' \<longrightarrow> is_active now db q \<longrightarrow>
     is_active now db q' \<longrightarrow> \<not> asked_by (cq_browser_id q) (cq_client_ip q) q')"

definition locks_disjoint :: "(string \<Rightarrow> int) \<Rightarrow> submit_tx list \<Rightarrow> bool" where
  "locks_disjoint hk txs \<longleftrightarrow> (\<forall>k < length txs. \<forall>key \<in> set (lock_caller hk (txs ! k)). free_for hk txs k key)"

definition admitted_alone :: "instant \<Rightarrow> compare_db \<Rightarrow> submit_tx list \<Rightarrow> bool" where
  "admitted_alone now db txs \<longleftrightarrow> (\<forall>t \<in> set txs. (\<exists>at_time. tx_phase t = Admitted at_time) \<longrightarrow> alone now db (tx_browser t) (tx_ip t))"

definition compare_inv :: "(string \<Rightarrow> int) \<Rightarrow> compare_world \<Rightarrow> bool" where
  "compare_inv hk w \<longleftrightarrow> ids_below (cw_db w) \<and> one_each (cw_now w) (cw_db w) \<and> locks_disjoint hk (cw_txs w) \<and>
     admitted_alone (cw_now w) (cw_db w) (cw_txs w)"

text \<open>Whatever only closes questions keeps the invariant.\<close>

lemma inv_closing:
  assumes "compare_inv hk w" "cw_txs v = cw_txs w" "cd_requests (cw_db v) = cd_requests (cw_db w)" "ids_below (cw_db v)"
    and "\<And>q. is_active (cw_now v) (cw_db v) q \<Longrightarrow> is_active (cw_now w) (cw_db w) q"
  shows "compare_inv hk v"
  using assms unfolding compare_inv_def one_each_def admitted_alone_def alone_def by metis

text \<open>Locks change hands one transaction at a time.\<close>

lemma locks_set_phase:
  assumes "locks_disjoint hk txs" "k < length txs"
    and "\<And>key. key \<in> set (lock_caller hk ((txs ! k)\<lparr>tx_phase := ph\<rparr>)) \<Longrightarrow> key \<in> set (lock_caller hk (txs ! k)) \<or> free_for hk txs k key"
  shows "locks_disjoint hk (txs[k := (txs ! k)\<lparr>tx_phase := ph\<rparr>])"
proof -
  let ?t = "(txs ! k)\<lparr>tx_phase := ph\<rparr>"
  have mine: "free_for hk txs k key" if "key \<in> set (lock_caller hk ?t)" for key
    using that assms unfolding locks_disjoint_def by blast
  show ?thesis unfolding locks_disjoint_def
  proof (intro allI impI ballI)
    fix l key assume l: "l < length (txs[k := ?t])" "key \<in> set (lock_caller hk (txs[k := ?t] ! l))"
    show "free_for hk (txs[k := ?t]) l key"
    proof (cases "l = k")
      case True
      then have "free_for hk txs k key" using l assms(2) mine by simp
      then show ?thesis using True by (auto simp: free_for_def)
    next
      case False
      then have key: "free_for hk txs l key" "key \<in> set (lock_caller hk (txs ! l))" using l assms(1) by (auto simp: locks_disjoint_def)
      have "key \<notin> set (lock_caller hk ?t)" using mine[of key] key(2) False l(1) by (auto simp: free_for_def)
      then have "key \<notin> set (lock_caller hk (txs[k := ?t] ! m))" if "m < length txs" "m \<noteq> l" for m
        using key(1) that by (cases "m = k") (auto simp: free_for_def)
      then show ?thesis by (simp add: free_for_def)
    qed
  qed
qed

lemma set_phase_sel [simp]: "cw_now (set_phase k ph w) = cw_now w" "cw_db (set_phase k ph w) = cw_db w"
  "cw_txs (set_phase k ph w) = (cw_txs w)[k := (cw_txs w ! k)\<lparr>tx_phase := ph\<rparr>]"
  by (simp_all add: set_phase_def)

lemma in_set_phase: "t \<in> set (txs[k := x]) \<Longrightarrow> t = x \<or> t \<in> set txs"
  using set_update_subset_insert by fastforce

lemma inv_set_phase:
  assumes "compare_inv hk w" "k < length (cw_txs w)"
    and "\<And>key. key \<in> set (lock_caller hk ((cw_txs w ! k)\<lparr>tx_phase := ph\<rparr>)) \<Longrightarrow>
      key \<in> set (lock_caller hk (cw_txs w ! k)) \<or> free_for hk (cw_txs w) k key"
    and "(\<exists>at_time. ph = Admitted at_time) \<Longrightarrow> alone (cw_now w) (cw_db w) (tx_browser (cw_txs w ! k)) (tx_ip (cw_txs w ! k))"
  shows "compare_inv hk (set_phase k ph w)"
proof -
  have "locks_disjoint hk (cw_txs (set_phase k ph w))"
    using locks_set_phase[OF _ assms(2,3)] assms(1) by (simp add: compare_inv_def)
  moreover have "admitted_alone (cw_now w) (cw_db w) (cw_txs (set_phase k ph w))"
    using assms(1,4) by (auto simp: admitted_alone_def compare_inv_def dest!: in_set_phase)
  ultimately show ?thesis using assms(1) by (simp add: compare_inv_def)
qed

lemma asked_by_sym: "asked_by (cq_browser_id q) (cq_client_ip q) q' \<longleftrightarrow> asked_by (cq_browser_id q') (cq_client_ip q') q"
  by (auto simp: asked_by_def)

text \<open>Two callers who could block each other share a lock.\<close>

lemma admitted_conflict:
  assumes "locks_disjoint hk txs" "k < length txs" "l < length txs" "l \<noteq> k"
    and "tx_phase (txs ! k) = Admitted a" "tx_phase (txs ! l) = Admitted b"
  shows "tx_browser (txs ! k) \<noteq> tx_browser (txs ! l) \<and> (tx_ip (txs ! k) = tx_ip (txs ! l) \<longrightarrow> tx_ip (txs ! k) = [])"
proof -
  have no: "key \<notin> set (lock_caller hk (txs ! l))" if "key \<in> set (lock_caller hk (txs ! k))" for key
    using assms that unfolding locks_disjoint_def free_for_def by blast
  have "browser_key hk (txs ! k) \<noteq> browser_key hk (txs ! l)"
    using no[of "browser_key hk (txs ! k)"] assms(5,6) by (auto simp: lock_caller_def)
  moreover have "ip_key hk (txs ! k) \<noteq> ip_key hk (txs ! l)" if "tx_ip (txs ! k) \<noteq> []" "tx_ip (txs ! l) \<noteq> []"
    using no[of "ip_key hk (txs ! k)"] assms(5,6) that by (auto simp: lock_caller_def)
  ultimately show ?thesis unfolding browser_key_def ip_key_def by metis
qed

lemma inv_commit:
  assumes inv: "compare_inv hk w" and k: "k < length (cw_txs w)" "t = cw_txs w ! k" "tx_phase t = Admitted at_time"
  shows "compare_inv hk ((set_phase k Ended w)\<lparr>cw_db :=
      insert_request at_time (tx_prompt t) (tx_browser t) (tx_ip t) (tx_models t) (cw_db w)\<rparr>)"
proof -
  let ?db = "cw_db w" and ?now = "cw_now w" and ?txs = "(cw_txs w)[k := (cw_txs w ! k)\<lparr>tx_phase := Ended\<rparr>]"
  define db' where "db' = insert_request at_time (tx_prompt t) (tx_browser t) (tx_ip t) (tx_models t) ?db"
  define new where "new = \<lparr>cq_id = cd_next_request ?db, cq_prompt = tx_prompt t, cq_browser_id = tx_browser t,
    cq_client_ip = tx_ip t, cq_created_at = at_time\<rparr>"
  have reqs: "cd_requests db' = cd_requests ?db @ [new]" by (simp add: db'_def insert_request_def new_def)
  have below: "ids_below ?db" and locks: "locks_disjoint hk (cw_txs w)" using inv by (simp_all add: compare_inv_def)
  have act: "is_active ?now db' q = is_active ?now ?db q" if "q \<in> set (cd_requests ?db)" for q
    using below that active_insert[of q ?db] by (auto simp: ids_below_def db'_def)
  have mine: "alone ?now ?db (tx_browser t) (tx_ip t)"
    using inv k nth_mem[OF k(1)] by (auto simp: compare_inv_def admitted_alone_def)
  have "ids_below db'" using below by (auto simp: ids_below_def db'_def insert_request_def new_result_def)
  moreover have "one_each ?now db'"
  proof -
    have "\<not> asked_by (cq_browser_id q) (cq_client_ip q) q'"
      if q: "q \<in> set (cd_requests db')" "q' \<in> set (cd_requests db')" "cq_id q \<noteq> cq_id q'" "is_active ?now db' q" "is_active ?now db' q'" for q q'
    proof -
      consider "q \<in> set (cd_requests ?db)" "q' \<in> set (cd_requests ?db)" | "q = new" "q' \<in> set (cd_requests ?db)"
        | "q \<in> set (cd_requests ?db)" "q' = new" using q(1-3) by (auto simp: reqs)
      then show ?thesis
      proof cases
        case 1 then show ?thesis using inv q(3-5) act by (auto simp: compare_inv_def one_each_def)
      next
        case 2 then show ?thesis using mine q(5) act by (auto simp: alone_def new_def)
      next
        case 3 then show ?thesis using mine q(4) act asked_by_sym[of q q'] by (auto simp: alone_def new_def)
      qed
    qed
    then show ?thesis by (auto simp: one_each_def)
  qed
  moreover have "locks_disjoint hk ?txs" by (rule locks_set_phase[OF locks k(1)]) (simp add: lock_caller_def)
  moreover have "admitted_alone ?now db' ?txs"
  proof -
    have "alone ?now db' (tx_browser u) (tx_ip u)" if u: "u \<in> set ?txs" "tx_phase u = Admitted b" for u b
    proof -
      obtain l where "l < length ?txs" "u = ?txs ! l" using u(1) by (metis in_set_conv_nth)
      then have l: "l < length (cw_txs w)" "l \<noteq> k" "u = cw_txs w ! l"
        using u(2) k(1) by (cases "l = k"; simp)+
      have "alone ?now ?db (tx_browser u) (tx_ip u)"
        using inv l u(2) by (auto simp: compare_inv_def admitted_alone_def)
      moreover have "\<not> asked_by (tx_browser u) (tx_ip u) new"
        using admitted_conflict[OF locks k(1) l(1,2), of at_time b] k(2,3) l(3) u(2) by (auto simp: asked_by_def new_def)
      ultimately show ?thesis using act by (auto simp: alone_def reqs)
    qed
    then show ?thesis by (auto simp: admitted_alone_def)
  qed
  ultimately show ?thesis by (simp add: compare_inv_def db'_def)
qed

definition compare_start :: "compare_world \<Rightarrow> bool" where
  "compare_start w \<longleftrightarrow> cd_requests (cw_db w) = [] \<and> cd_results (cw_db w) = [] \<and> cw_txs w = []"

lemma ids_below_update:
  "closing f \<Longrightarrow> ids_below db \<Longrightarrow> ids_below (db\<lparr>cd_results := update_where P f (cd_results db)\<rparr>)"
  by (auto simp: ids_below_def closing_def set_update_where split: if_splits)

interpretation cmp: invariant_system compare_start "compare_step hk" "compare_inv hk" for hk
proof
  show "compare_inv hk w" if "compare_start w" for w
    using that by (simp add: compare_start_def compare_inv_def ids_below_def one_each_def locks_disjoint_def admitted_alone_def)
  show "compare_inv hk v" if inv: "compare_inv hk w" and "compare_step hk w v" for w v
    using that(2)
  proof cases
    case (step_begin t)
    have "lock_caller hk t = []" using step_begin by (simp add: lock_caller_def)
    then have "locks_disjoint hk (cw_txs w @ [t])"
      using inv by (auto simp: compare_inv_def locks_disjoint_def free_for_def nth_append less_Suc_eq)
    then show ?thesis using inv step_begin by (auto simp: compare_inv_def admitted_alone_def)
  next
    case (step_browser k t)
    then show ?thesis by (auto intro!: inv_set_phase[OF inv] simp: lock_caller_def)
  next
    case (step_ip k t)
    then show ?thesis by (auto intro!: inv_set_phase[OF inv] simp: lock_caller_def split: if_splits)
  next
    case (step_check k t)
    then show ?thesis
      by (auto intro!: inv_set_phase[OF inv] simp: lock_caller_def alone_def active_request_None split: if_splits)
  next
    case step_commit
    then show ?thesis using inv_commit[OF inv] by blast
  next
    case step_submit
    then show ?thesis using inv ids_below_update[OF closing_submit]
      by (intro inv_closing[OF inv]) (auto simp: write_result_def compare_inv_def dest: active_update[OF closing_submit])
  next
    case (step_pull now expired job job_id f rid)
    note c = closing_sync[OF step_pull(2)]
    show ?thesis using inv step_pull ids_below_update[OF c]
      by (intro inv_closing[OF inv]) (auto simp: write_pending_def compare_inv_def dest: active_update[OF c])
  next
    case step_tick
    then show ?thesis using inv by (intro inv_closing[OF inv]) (auto simp: compare_inv_def dest: active_later)
  qed
qed

text \<open>
  C15. One question at a time: in every state the page can reach, with any number of submits running
  at once in any order, two different questions that are both unfinished and younger than five
  minutes never come from the same browser, nor from the same known address.
\<close>

theorem one_question_at_a_time:
  assumes "reach compare_start (compare_step hk) w" "q \<in> set (cd_requests (cw_db w))" "q' \<in> set (cd_requests (cw_db w))"
    and "cq_id q \<noteq> cq_id q'" "is_active (cw_now w) (cw_db w) q" "is_active (cw_now w) (cw_db w) q'"
  shows "cq_browser_id q \<noteq> cq_browser_id q' \<and> (cq_client_ip q = cq_client_ip q' \<longrightarrow> cq_client_ip q = [])"
proof -
  have "\<not> asked_by (cq_browser_id q) (cq_client_ip q) q'"
    using cmp.reach_inv[OF assms(1)] assms(2-) by (auto simp: compare_inv_def one_each_def)
  then show ?thesis by (auto simp: asked_by_def)
qed

section \<open>Searching the history\<close>

lemma ilike_rest: "ilike low ''%'' s"
  by (induction s) auto

lemma ilike_prefix: "ilike low (concat (map escape_char q) @ ''%'') s \<longleftrightarrow> take (length q) (map low s) = map low q"
proof (induction q arbitrary: s)
  case Nil
  show ?case by (simp add: ilike_rest)
next
  case (Cons c q)
  show ?case using Cons by (cases s) (auto simp: escape_char_def)
qed

lemma ilike_like_pattern: "ilike low (like_pattern q) s \<longleftrightarrow> py_in (map low q) (map low s)"
proof (induction s)
  case Nil
  show ?case using ilike_prefix[of low q "[]"] by (cases q) (simp_all add: like_pattern_def)
next
  case (Cons x s)
  show ?case using ilike_prefix[of low q "x # s"] Cons by (simp add: like_pattern_def)
qed

definition found :: "(char \<Rightarrow> char) \<Rightarrow> string \<Rightarrow> compare_db \<Rightarrow> CompareRequestRow list" where
  "found low q db = rev (sort_key cq_id (filter (\<lambda>r. py_in (map low q) (map low (cq_prompt r))) (cd_requests db)))"

lemma pages_concat: "concat (map (\<lambda>p. take n (drop (p * n) xs)) [0..<k]) = take (k * n) xs"
proof (induction k)
  case (Suc k)
  then show ?case using take_add[of "k * n" n xs] by (simp add: add.commute)
qed simp

text \<open>
  C21. Searching the history finds exactly the questions that contain the text asked for, apart from
  case: percent signs, underscores and backslashes in it mean themselves. The pages put together list
  each of them once, newest first, and a page says there is more exactly when a later page has some.
\<close>

theorem history_search_is_exact:
  "map qv_request (concat (map (\<lambda>p. hp_items (search_history low q (int p + 1) db)) [0..<k])) = take (k * PAGE_SIZE) (found low q db) \<and>
   hp_has_more (search_history low q (int p + 1) db) = (drop ((p + 1) * PAGE_SIZE) (found low q db) \<noteq> []) \<and>
   hp_total (search_history low q (int p + 1) db) = length (found low q db)"
proof -
  have hits: "(if q = [] then cd_requests db else filter (\<lambda>r. ilike low (like_pattern q) (cq_prompt r)) (cd_requests db)) =
      filter (\<lambda>r. py_in (map low q) (map low (cq_prompt r))) (cd_requests db)"
    by (simp add: ilike_like_pattern py_in_sublist)
  have req: "qv_request \<circ> (\<lambda>r. request_dict r (f r)) = id" for f
    by (simp add: fun_eq_iff request_dict_def Let_def)
  have items: "map qv_request (hp_items (search_history low q (int m + 1) db)) = take PAGE_SIZE (drop (m * PAGE_SIZE) (found low q db))" for m
    unfolding search_history_def hits Let_def by (simp add: req found_def)
  have "map qv_request (concat (map (\<lambda>p. hp_items (search_history low q (int p + 1) db)) [0..<k])) =
      concat (map (\<lambda>p. take PAGE_SIZE (drop (p * PAGE_SIZE) (found low q db))) [0..<k])"
    by (simp add: map_concat items comp_def)
  moreover have "hp_total (search_history low q (int p + 1) db) = length (found low q db)"
    unfolding search_history_def hits Let_def by (simp add: found_def)
  moreover have "hp_has_more (search_history low q (int p + 1) db) = (int p * int PAGE_SIZE + int PAGE_SIZE < int (length (found low q db)))"
    unfolding search_history_def hits Let_def by (simp add: found_def algebra_simps)
  moreover have "(int p * int PAGE_SIZE + int PAGE_SIZE < int (length (found low q db))) = ((p + 1) * PAGE_SIZE < length (found low q db))"
    by (simp only: of_nat_less_iff[symmetric, where ?'a = int] of_nat_mult of_nat_add of_nat_1 distrib_right mult_1)
  ultimately show ?thesis by (simp add: pages_concat not_le)
qed

section \<open>Questions close\<close>

text \<open>Others neither reopen a result nor add one to the question; the polled jobs can be read.\<close>

definition pending_ids :: "int \<Rightarrow> compare_db \<Rightarrow> int set" where
  "pending_ids i db = cr_id ` set (pending_results i db)"

definition others_close :: "int \<Rightarrow> compare_env \<Rightarrow> bool" where
  "others_close i E \<longleftrightarrow> (\<forall>n db. pending_ids i (ce_between E n db) \<subseteq> pending_ids i db \<and> cd_requests (ce_between E n db) = cd_requests db)"

definition polls_answer :: "compare_env \<Rightarrow> bool" where
  "polls_answer E \<longleftrightarrow> (\<forall>n p i err. poll_job (ce_run E n) p i (ce_rows E n) \<noteq> Some (Inl err))"

lemma pending_ids_write:
  assumes "\<And>r. cr_status (f r) \<in> set TERMINAL"
  shows "pending_ids i (write_pending rid f db) \<subseteq> pending_ids i db - {rid}"
proof -
  have "cr_status (f r) \<noteq> ''pending''" for r using assms[of r] by (auto simp: TERMINAL_def)
  then show ?thesis by (auto simp: pending_ids_def pending_results_def write_pending_def set_update_where split: if_splits)
qed

lemma sync_rows_close:
  assumes "others_close i E" "polls_answer E"
  shows "\<exists>cancels db'. sync_rows E p expired n rs db = (Inr cancels, db') \<and> cd_requests db' = cd_requests db \<and>
    pending_ids i db' \<subseteq> pending_ids i db - (if expired then cr_id ` set rs else {})"
proof (induction rs arbitrary: n db)
  case Nil
  show ?case by simp
next
  case (Cons r rs)
  have ok: "polled E n p r \<noteq> Some (Inl err)" for err using assms(2) by (auto simp: polled_def polls_answer_def split: option.splits)
  obtain vs cancels where v: "sync_values (re_now (ce_run E n)) expired (map_option projr (polled E n p r)) (if p = None then None else cr_job_id r) = (vs, cancels)"
    by fastforce
  define db1 where "db1 = (case vs of Some f \<Rightarrow> write_pending (cr_id r) f (ce_between E n db) | None \<Rightarrow> db)"
  have step: "sync_rows E p expired n (r # rs) db = (case sync_rows E p expired (Suc n) rs db1 of
      (Inl err, db2) \<Rightarrow> (Inl err, db2) | (Inr more_cancels, db2) \<Rightarrow> (Inr (cancels @ more_cancels), db2))"
  proof (cases "polled E n p r")
    case None
    then show ?thesis using v by (simp add: Let_def db1_def)
  next
    case (Some x)
    then show ?thesis using ok v by (cases x) (auto simp: Let_def db1_def)
  qed
  have d1: "pending_ids i db1 \<subseteq> pending_ids i db - (if expired then {cr_id r} else {}) \<and> cd_requests db1 = cd_requests db"
  proof (cases vs)
    case None
    then show ?thesis using v by (auto simp: db1_def sync_values_def split: option.splits if_splits)
  next
    case (Some f)
    have "cr_status (f x) \<in> set TERMINAL" for x using sync_values_terminal v Some by (metis fst_conv)
    from pending_ids_write[of f i "cr_id r" "ce_between E n db", OF this] show ?thesis
      using assms(1) Some by (auto simp: db1_def others_close_def write_pending_def)
  qed
  from Cons[of "Suc n" db1] obtain c2 db2 where "sync_rows E p expired (Suc n) rs db1 = (Inr c2, db2)" "cd_requests db2 = cd_requests db1"
    "pending_ids i db2 \<subseteq> pending_ids i db1 - (if expired then cr_id ` set rs else {})" by blast
  then show ?case using d1 unfolding step by (auto split: if_splits)
qed

lemma sync_closes:
  assumes "others_close i E" "polls_answer E"
  shows "\<exists>cancels db'. sync_request E p i db = (Inr cancels, db') \<and> cd_requests db' = cd_requests db \<and>
    ((\<exists>req. find_row cq_id i (cd_requests db) = Some req \<and> re_now (ce_run E 0) - cq_created_at req > ACTIVE_TIMEOUT_S) \<longrightarrow>
       pending_results i db' = [])"
proof (cases "find_row cq_id i (cd_requests db)")
  case None
  then show ?thesis by (simp add: sync_request_def)
next
  case (Some req)
  let ?expired = "re_now (ce_run E 0) - cq_created_at req > ACTIVE_TIMEOUT_S"
  obtain c db' where run: "sync_rows E p ?expired 0 (pending_results i db) db = (Inr c, db')" "cd_requests db' = cd_requests db"
    "pending_ids i db' \<subseteq> pending_ids i db - (if ?expired then cr_id ` set (pending_results i db) else {})"
    using sync_rows_close[OF assms, of p ?expired 0 "pending_results i db" db] by blast
  then show ?thesis using Some by (auto simp: sync_request_def pending_ids_def)
qed

text \<open>
  C16. Every question closes. The background poller, whatever the queue answers and whatever others
  write meanwhile (they never reopen a result), ends with no result left pending, provided one of its
  passes falls between five minutes after the question and its own deadline, ten seconds later.
\<close>

theorem question_closes:
  assumes "\<And>E. E \<in> set Es \<Longrightarrow> others_close i E \<and> polls_answer E" "sorted (map (\<lambda>E. re_now (ce_run E 0)) Es)"
    and "find_row cq_id i (cd_requests db) = Some req" "E \<in> set Es"
    and "cq_created_at req + ACTIVE_TIMEOUT_S < re_now (ce_run E 0)" "re_now (ce_run E 0) < started + ACTIVE_TIMEOUT_S + 10"
  shows "\<exists>db'. track started Es p i db = (Inr True, db') \<and> pending_results i db' = []"
  using assms(1-4) unfolding track_def
proof (induction Es arbitrary: db)
  case (Cons E0 Es)
  have first: "re_now (ce_run E0 0) \<le> re_now (ce_run E 0)" using Cons(3,5) by auto
  obtain c db1 where sync: "sync_request E0 p i db = (Inr c, db1)" "cd_requests db1 = cd_requests db"
    "(\<exists>req. find_row cq_id i (cd_requests db) = Some req \<and> re_now (ce_run E0 0) - cq_created_at req > ACTIVE_TIMEOUT_S) \<longrightarrow>
       pending_results i db1 = []"
    using sync_closes[of i E0 p db] Cons(2)[of E0] by auto
  show ?case
  proof (cases "pending_results i db1 = []")
    case True
    then show ?thesis using first assms(6) sync(1) by simp
  next
    case False
    then have "E \<noteq> E0" using sync(3) Cons(4) assms(5) by (auto simp: algebra_simps)
    then have "\<exists>db'. track_passes Es (started + ACTIVE_TIMEOUT_S + 10) p i db1 = (Inr True, db') \<and> pending_results i db' = []"
      using Cons(1)[of db1] Cons(2-5) sync(2) by auto
    then show ?thesis using first assms(6) sync(1) False by auto
  qed
qed simp

section \<open>What the page offers\<close>

lemma table_ids_plain:
  "list_all (\<lambda>(i, p, pr, facts). list_all (\<lambda>c. \<not> is_space c) i \<and> provider_part i \<notin> set (map fst SUB_PROVIDERS) \<and> pr \<noteq> P_subscription) model_table"
  by code_simp

lemma registry_model:
  assumes "m \<in> set all_models"
  shows "model_spec (ms_id m) = Some m" "py_strip (ms_id m) = ms_id m" "ms_pricing m \<noteq> P_subscription"
    "provider_part (ms_id m) \<notin> set (map fst SUB_PROVIDERS)"
proof -
  obtain i where i: "(i, m) \<in> set registry_models" using assms by (force simp: all_models_def registry_models_def)
  then have id: "ms_id m = i" using registry_models_table by (auto simp: list_all_iff)
  have "(i, model_facts m) \<in> set model_table"
    unfolding registry_models_table[THEN conjunct1, symmetric] using i by force
  then have plain: "list_all (\<lambda>c. \<not> is_space c) i" "provider_part i \<notin> set (map fst SUB_PROVIDERS)" "ms_pricing m \<noteq> P_subscription"
    using table_ids_plain by (auto simp: list_all_iff model_facts_def)
  show "model_spec (ms_id m) = Some m" using i registry_models_distinct by (simp add: model_spec_registry id)
  show "py_strip (ms_id m) = ms_id m" using plain(1) by (intro py_strip_id) (auto simp: list_all_iff id)
  show "ms_pricing m \<noteq> P_subscription" "provider_part (ms_id m) \<notin> set (map fst SUB_PROVIDERS)" using plain by (simp_all add: id)
qed

lemma sub_model_route:
  assumes "m \<in> set (subscription_models st)"
  obtains p mid where "ms_id m = route_id p mid" "p \<in> set (map fst SUB_PROVIDERS)" "model_id_ok mid"
proof (rule sub_catalog_cases[of st])
  assume "sub_catalog st = ([], [])"
  then show ?thesis using assms by (simp add: subscription_models_def)
next
  fix data verified vision
  assume ok: "id_table_ok data" and cat: "sub_catalog st = (concat (map (\<lambda>(p, ids). map (sub_spec vision p) ids) data),
    concat (map (\<lambda>(p, ids). map (route_id p) ids) verified))"
  then obtain p ids mid where m: "(p, ids) \<in> set data" "mid \<in> set ids" "m = sub_spec vision p mid"
    using assms by (auto simp: subscription_models_def)
  then have "p \<in> set (map fst SUB_PROVIDERS)" "model_id_ok mid" using ok by (auto simp: id_table_ok_def list_all_iff)
  then show ?thesis using that m(3) by simp
qed

lemma sub_model:
  assumes "m \<in> set (subscription_models st)"
  shows "model_spec (ms_id m) = None" "py_strip (ms_id m) = ms_id m" "ms_pricing m = P_subscription"
    "subscription_model (subscription_models st) (ms_id m) = Some m"
proof -
  have pin: "pinned_only m" by (rule catalog_models_pinned[OF assms])
  show "ms_pricing m = P_subscription" using pin by (simp add: pinned_only_def)
  show "subscription_model (subscription_models st) (ms_id m) = Some m"
    using find_by_id[OF catalog_ids_distinct assms] by (simp add: subscription_model_def)
  show "model_spec (ms_id m) = None"
  proof (cases "model_spec (ms_id m)")
    case (Some m')
    then have "m' \<in> set all_models" "ms_id m' = ms_id m" using model_spec_in_all model_spec_id by blast+
    then have False using registry_model(4)[of m'] pin by (auto simp: pinned_only_def simp del: set_map)
    then show ?thesis ..
  qed simp
  show "py_strip (ms_id m) = ms_id m"
  proof (rule py_strip_id)
    fix c assume c: "c \<in> set (ms_id m)"
    obtain p mid where m: "ms_id m = route_id p mid" "p \<in> set (map fst SUB_PROVIDERS)" "model_id_ok mid" using assms by (rule sub_model_route)
    have "c \<in> set p \<or> c = CHR ''/'' \<or> c \<in> set mid" using c by (auto simp: m(1) route_id_def)
    moreover have "c \<in> set p \<Longrightarrow> \<not> is_space c" using m(2) by (auto simp: SUB_PROVIDERS_def is_space_def)
    moreover have "c \<in> set mid \<Longrightarrow> \<not> is_space c"
      using m(3) by (cases mid) (auto simp: model_id_ok_def list_all_iff ascii_alnum_def is_space_def Let_def)
    ultimately show "\<not> is_space c" by (auto simp: is_space_def)
  qed
qed

lemma exact_pin:
  assumes "m \<in> set (pinnable_models (subscription_models st))" "serves m lane" "ms_provider m \<in> set chain"
  shows "resolve_pin (subscription_models st) (ms_id m) lane chain = Inr [\<lparr>pt_provider = ms_provider m, pt_model = ms_id m\<rparr>]"
proof -
  have "m \<in> set all_models \<or> m \<in> set (subscription_models st)" using assms(1) by (auto simp: pinnable_models_def order_models_def)
  then have "pin_matches (subscription_models st) (py_strip (ms_id m)) = [m]"
    using registry_model[of m] sub_model[of m st] by (auto simp: pin_matches_def)
  then show ?thesis using assms(2,3) by (simp add: resolve_pin_def Let_def order_models_def)
qed

lemma dict_set_entry: "e \<in> set (dict_set k v d) \<Longrightarrow> e = (k, v) \<or> e \<in> set d"
  by (induction k v d rule: dict_set.induct) (auto split: if_splits)

lemma keep_best_inv:
  assumes "distinct (map fst best)" "\<And>n m. (n, m) \<in> set best \<Longrightarrow> pm_name m = n \<and> m \<in> M" "m0 \<in> M"
  shows "distinct (map fst (keep_best m0 best)) \<and> (\<forall>(n, m) \<in> set (keep_best m0 best). pm_name m = n \<and> m \<in> M)"
proof -
  have "distinct (map fst (dict_set (pm_name m0) m0 best)) \<and> (\<forall>(n, m) \<in> set (dict_set (pm_name m0) m0 best). pm_name m = n \<and> m \<in> M)"
    using assms distinct_dict_set[OF assms(1)] dict_set_entry[of _ "pm_name m0" m0 best] by fast
  then show ?thesis using assms(1,2) by (auto simp: keep_best_def split: option.splits)
qed

lemma fold_keep_best:
  assumes "set ms \<subseteq> M" "distinct (map fst best)" "\<And>n m. (n, m) \<in> set best \<Longrightarrow> pm_name m = n \<and> m \<in> M"
  shows "distinct (map fst (fold keep_best ms best)) \<and> (\<forall>(n, m) \<in> set (fold keep_best ms best). pm_name m = n \<and> m \<in> M)"
  using assms
proof (induction ms arbitrary: best)
  case (Cons m0 ms)
  have "distinct (map fst (keep_best m0 best)) \<and> (\<forall>(n, m) \<in> set (keep_best m0 best). pm_name m = n \<and> m \<in> M)"
    using Cons.prems by (intro keep_best_inv) auto
  then show ?case using Cons.IH[of "keep_best m0 best"] Cons.prems(1) by auto
qed auto

lemma page_models_shape:
  "set (page_models rows) \<subseteq> set (chat_models rows) \<and> distinct (map pm_name (page_models rows)) \<and> length (page_models rows) \<le> TOP_MODELS"
proof -
  let ?best = "fold keep_best (chat_models rows) []"
  have best: "distinct (map fst ?best) \<and> (\<forall>(n, m) \<in> set ?best. pm_name m = n \<and> m \<in> set (chat_models rows))"
    by (rule fold_keep_best) auto
  have names: "map pm_name (map snd ?best) = map fst ?best" using best by (induction ?best) auto
  have "distinct (map pm_name (map snd ?best))" unfolding names using best by blast
  moreover have "mset (map pm_name (sort_key score_key (map snd ?best))) = mset (map pm_name (map snd ?best))"
    by (simp add: multiset.map_comp)
  ultimately have "distinct (map pm_name (sort_key score_key (map snd ?best)))" using mset_eq_imp_distinct_iff by blast
  moreover have "set (page_models rows) \<subseteq> snd ` set ?best"
    using set_take_subset[of TOP_MODELS "sort_key score_key (map snd ?best)"] by (simp add: page_models_def)
  moreover have "snd ` set ?best \<subseteq> set (chat_models rows)" using best by auto
  ultimately show ?thesis by (auto simp: page_models_def simp flip: take_map)
qed

definition lane_chain :: "page_model \<Rightarrow> string list" where
  "lane_chain m = (case chain_for (pm_capability m) of Inr chain \<Rightarrow> chain | Inl _ \<Rightarrow> []) @ (if pm_subscription m then [pm_provider m] else [])"

lemma find_lane: "find P CHAT_LANES = Some lane \<Longrightarrow> P lane \<and> lane \<in> set JOB_CAPABILITIES"
proof -
  assume "find P CHAT_LANES = Some lane"
  then have "P lane" "lane \<in> set CHAT_LANES" by (auto simp: find_Some_iff)
  then show ?thesis by (auto simp: CHAT_LANES_def JOB_CAPABILITIES_def)
qed

lemma chat_model_of:
  assumes "page_model_of (listing_row_of st round6 lm pid auth m) = Some pm"
  shows "pm_id pm = ms_id m \<and> pm_provider pm = ms_provider m \<and> pm_capability pm \<in> set JOB_CAPABILITIES \<and>
    pm_capability pm \<in> set (ms_capabilities m) \<and> ms_provider m \<in> set (lane_chain pm) \<and>
    (pm_subscription pm \<longrightarrow> sub_available st auth m)"
proof -
  let ?row = "listing_row_of st round6 lm pid auth m"
  have row: "lr_id ?row = ms_id m" "lr_owned_by ?row = ms_provider m" "set (lr_capabilities ?row) = set (ms_capabilities m)"
    "lr_billing_type ?row = ''subscription'' \<longleftrightarrow> ms_pricing m = P_subscription"
    "ms_pricing m = P_subscription \<Longrightarrow> lr_available ?row = Some (sub_available st auth m)"
    by (simp_all add: listing_row_of_def Let_def billing_type_def)
  show ?thesis
  proof (cases "ms_pricing m = P_subscription")
    case True
    then obtain lane where lane: "subscription_lane (lr_capabilities ?row) = Some lane" "sub_available st auth m"
      "pm = \<lparr>pm_id = ms_id m, pm_name = lr_name ?row, pm_provider = ms_provider m, pm_intelligence_index = lr_intelligence_index ?row,
         pm_capability = lane, pm_subscription = True\<rparr>"
      using assms row by (auto simp: page_model_of_def Let_def split: if_splits)
    then have "lane \<in> set (ms_capabilities m) \<and> lane \<in> set JOB_CAPABILITIES"
      using row(3) find_lane[of "\<lambda>l. l \<in> set (lr_capabilities ?row)" lane]
      by (auto simp: subscription_lane_def JOB_CAPABILITIES_def split: if_splits)
    then show ?thesis using lane by (simp add: lane_chain_def)
  next
    case False
    then obtain lane where lane: "lane_for (lr_capabilities ?row) (ms_provider m) = Some lane"
      "pm = \<lparr>pm_id = ms_id m, pm_name = lr_name ?row, pm_provider = ms_provider m, pm_intelligence_index = lr_intelligence_index ?row,
         pm_capability = lane, pm_subscription = False\<rparr>"
      using assms row by (auto simp: page_model_of_def Let_def)
    then show ?thesis using find_lane[OF lane(1)[unfolded lane_for_def]] row(3) by (auto simp: lane_chain_def split: sum.splits)
  qed
qed

text \<open>
  C22. Every model the page offers can be asked: it has at most twenty, under different names, and
  pinning the job to the model on its lane resolves to exactly that model, through the chain of the
  lane to which a submit adds the provider of a subscription model. A subscription model is offered only
  when its route is verified (and Codex switched on).
\<close>

theorem page_offers_routable_models:
  assumes "m \<in> set (page_models (listing st round6 lm None True))"
  shows "length (page_models (listing st round6 lm None True)) \<le> 20 \<and> distinct (map pm_name (page_models (listing st round6 lm None True))) \<and>
    pm_capability m \<in> set JOB_CAPABILITIES \<and>
    resolve_pin (subscription_models st) (pm_id m) (pm_capability m) (lane_chain m) =
      Inr [\<lparr>pt_provider = pm_provider m, pt_model = pm_id m\<rparr>] \<and>
    (pm_subscription m \<longrightarrow> subscription_model_verified st (pm_id m) \<and> (pm_provider m = ''codex-sub'' \<longrightarrow> SUB_CODEX_ENABLED st))"
proof -
  let ?rows = "listing st round6 lm None True"
  have "m \<in> set (chat_models ?rows)" using assms page_models_shape[of ?rows] by blast
  then obtain sp where sp: "sp \<in> set (pinnable_models (subscription_models st))" "page_model_of (listing_row_of st round6 lm None True sp) = Some m"
    by (auto simp: chat_models_def listing_def List.map_filter_def)
  note facts = chat_model_of[OF sp(2)]
  have "serves sp (pm_capability m)" using facts by (auto simp: serves_def list_ex_iff)
  then have "resolve_pin (subscription_models st) (pm_id m) (pm_capability m) (lane_chain m) = Inr [\<lparr>pt_provider = pm_provider m, pt_model = pm_id m\<rparr>]"
    using exact_pin[OF sp(1)] facts by simp
  then show ?thesis using facts page_models_shape[of ?rows] by (auto simp: TOP_MODELS_def sub_available_def)
qed

section \<open>A page in use\<close>

text \<open>A submit that nobody disturbs does what \<open>create_request\<close> does.\<close>

lemma undisturbed_submit:
  assumes "reach compare_start (compare_step hk) w" "\<And>t. t \<in> set (cw_txs w) \<Longrightarrow> tx_phase t = Ended"
    and "active_request_id (cw_now w) b ip (cw_db w) = None"
  shows "\<exists>w'. reach compare_start (compare_step hk) w' \<and> cw_db w' = insert_request (cw_now w) prompt b ip models (cw_db w) \<and>
    cw_now w' = cw_now w \<and> (\<forall>t \<in> set (cw_txs w'). tx_phase t = Ended)"
proof -
  let ?k = "length (cw_txs w)"
  define t where "t ph = \<lparr>tx_browser = b, tx_ip = ip, tx_prompt = prompt, tx_models = models, tx_phase = ph\<rparr>" for ph
  define v where "v ph = w\<lparr>cw_txs := cw_txs w @ [t ph]\<rparr>" for ph
  have at_k: "cw_txs (v ph) ! ?k = t ph" "?k < length (cw_txs (v ph))" for ph by (simp_all add: v_def nth_append)
  have phase: "set_phase ?k ph' (v ph) = v ph'" for ph ph' by (simp add: set_phase_def v_def t_def)
  have free: "free_for hk (cw_txs (v ph)) ?k key" for ph key
    using assms(2) by (auto simp: free_for_def v_def nth_append lock_caller_def less_Suc_eq)
  have "reach compare_start (compare_step hk) (v Begun)"
    unfolding v_def by (rule reach_step[OF assms(1)], rule step_begin) (simp add: t_def)
  then have "reach compare_start (compare_step hk) (v HasBrowser)"
    using step_browser[OF at_k(2)[of Begun] refl _ free] by (auto simp: at_k phase t_def intro: reach_step)
  then have "reach compare_start (compare_step hk) (v HasBoth)"
    using step_ip[OF at_k(2)[of HasBrowser] refl, of hk] free by (auto simp: at_k phase t_def intro: reach_step)
  moreover have "compare_step hk (v HasBoth) (v (Admitted (cw_now w)))"
    using step_check[OF at_k(2)[of HasBoth] refl, of hk] assms(3) by (simp add: at_k phase t_def) (simp add: v_def)
  ultimately have "reach compare_start (compare_step hk) (v (Admitted (cw_now w)))" by (rule reach_step)
  moreover have "compare_step hk (v (Admitted (cw_now w))) ((v Ended)\<lparr>cw_db := insert_request (cw_now w) prompt b ip models (cw_db w)\<rparr>)"
    using step_commit[OF at_k(2)[of "Admitted (cw_now w)"] refl, of "cw_now w" hk] by (simp add: at_k phase t_def) (simp add: v_def)
  ultimately have "reach compare_start (compare_step hk) ((v Ended)\<lparr>cw_db := insert_request (cw_now w) prompt b ip models (cw_db w)\<rparr>)"
    by (rule reach_step)
  then show ?thesis using assms(2)
    by (intro exI[of _ "(v Ended)\<lparr>cw_db := insert_request (cw_now w) prompt b ip models (cw_db w)\<rparr>"]) (auto simp: v_def t_def)
qed

definition demo_model :: page_model where
  "demo_model = \<lparr>pm_id = ''cerebras/gpt-oss-120b'', pm_name = ''gpt-oss-120b'', pm_provider = ''cerebras'',
     pm_intelligence_index = None, pm_capability = ''chat:fast'', pm_subscription = False\<rparr>"

definition demo_empty_page :: compare_db where
  "demo_empty_page = \<lparr>cd_requests = [], cd_results = [], cd_next_request = 1, cd_next_result = 1\<rparr>"

definition demo_page :: compare_db where
  "demo_page = insert_request 0 ''hi'' ''b2'' ''2'' [demo_model] (insert_request 0 ''hi'' ''b1'' ''1'' [demo_model] demo_empty_page)"

theorem one_question_at_a_time_witness:
  "\<exists>(w :: compare_world) (q :: CompareRequestRow) (q' :: CompareRequestRow). cw_db w = demo_page \<and> q \<in> set (cd_requests demo_page) \<and> q' \<in> set (cd_requests demo_page) \<and> cq_browser_id q \<noteq> cq_browser_id q'"
proof -
  define w0 where "w0 = \<lparr>cw_now = 0, cw_db = demo_empty_page, cw_txs = []\<rparr>"
  have "reach compare_start (compare_step (\<lambda>_. 0)) w0" by (rule reach_init) (simp add: compare_start_def w0_def demo_empty_page_def)
  from undisturbed_submit[OF this, of "''b1''" "''1''" "''hi''" "[demo_model]"]
  obtain w1 where w1: "reach compare_start (compare_step (\<lambda>_. 0)) w1" "cw_db w1 = insert_request 0 ''hi'' ''b1'' ''1'' [demo_model] demo_empty_page"
    "cw_now w1 = 0" "\<And>t. t \<in> set (cw_txs w1) \<Longrightarrow> tx_phase t = Ended"
    by (auto simp: w0_def active_request_id_def demo_empty_page_def)
  have "active_request_id 0 ''b2'' ''2'' (cw_db w1) = None"
    by (simp add: w1(2) active_request_None insert_request_def demo_empty_page_def asked_by_def)
  with undisturbed_submit[OF w1(1,4), of "''b2''" "''2''" "''hi''" "[demo_model]"] w1(2,3)
  obtain w where w: "reach compare_start (compare_step (\<lambda>_. 0)) w" "cw_db w = demo_page" "cw_now w = 0" by (auto simp: demo_page_def)
  have q: "cd_requests demo_page = [\<lparr>cq_id = 1, cq_prompt = ''hi'', cq_browser_id = ''b1'', cq_client_ip = ''1'', cq_created_at = 0\<rparr>,
      \<lparr>cq_id = 2, cq_prompt = ''hi'', cq_browser_id = ''b2'', cq_client_ip = ''2'', cq_created_at = 0\<rparr>]" (is "_ = [?q, ?q']")
    by (simp add: demo_page_def insert_request_def demo_empty_page_def)
  have "is_active 0 demo_page ?q" "is_active 0 demo_page ?q'"
    by (simp_all add: is_active_def ACTIVE_TIMEOUT_S_def demo_page_def insert_request_def demo_empty_page_def new_result_def TERMINAL_def)
  then have "cq_browser_id ?q \<noteq> cq_browser_id ?q'" using one_question_at_a_time[OF w(1), of ?q ?q'] by (simp add: w q)
  moreover have "?q \<in> set (cd_requests demo_page)" "?q' \<in> set (cd_requests demo_page)" by (simp_all add: q)
  ultimately show ?thesis using w(2) by blast
qed

definition demo_late :: compare_env where
  "demo_late = \<lparr>ce_run = \<lambda>_. demo_run_env\<lparr>re_now := 400\<rparr>, ce_rows = \<lambda>_. [], ce_between = \<lambda>_ db. db\<rparr>"

theorem question_closes_witness:
  "\<exists>db'. track 100 [demo_late] None 1 demo_page = (Inr True, db') \<and> pending_results 1 db' = []"
proof (rule question_closes)
  show "find_row cq_id 1 (cd_requests demo_page) =
      Some \<lparr>cq_id = 1, cq_prompt = ''hi'', cq_browser_id = ''b1'', cq_client_ip = ''1'', cq_created_at = 0\<rparr>"
    by (simp add: demo_page_def insert_request_def demo_empty_page_def)
qed (auto simp: others_close_def polls_answer_def demo_late_def poll_job_def get_job_def ACTIVE_TIMEOUT_S_def)

lemma sort_key_Nil: "sort_key k xs = [] \<longleftrightarrow> xs = []"
  by (metis set_empty set_sort)

lemma page_not_empty: "chat_models rows \<noteq> [] \<Longrightarrow> page_models rows \<noteq> []"
proof -
  have set_ne: "dict_set k v d \<noteq> []" for k :: string and v :: page_model and d by (cases d) (auto split: if_splits)
  then have keep: "keep_best m best \<noteq> []" for m best by (auto simp: keep_best_def split: option.splits)
  then have more: "best \<noteq> [] \<Longrightarrow> fold keep_best ms best \<noteq> []" for ms best by (induction ms arbitrary: best) auto
  assume "chat_models rows \<noteq> []"
  then obtain m ms where "chat_models rows = m # ms" by (cases "chat_models rows") auto
  then have "fold keep_best (chat_models rows) [] \<noteq> []" using more[OF keep] by simp
  then show ?thesis by (simp add: page_models_def TOP_MODELS_def sort_key_Nil)
qed

lemma demo_offered: "chat_models (listing st round6 lm pid auth) \<noteq> []"
proof -
  have "map_of model_table ''cerebras/gpt-oss-120b'' =
      Some (''cerebras'', P_litellm, None, None, None, [''chat:fast'', ''chat:smart'', ''chat:code'', ''structured''])" by code_simp
  then obtain m where m: "model_spec ''cerebras/gpt-oss-120b'' = Some m" "ms_provider m = ''cerebras''" "ms_pricing m = P_litellm"
    "ms_capabilities m = [''chat:fast'', ''chat:smart'', ''chat:code'', ''structured'']"
    using model_facts_table[of "''cerebras/gpt-oss-120b''"] by (auto simp: model_facts_def)
  have chain: "(case chain_for ''chat:fast'' of Inr c \<Rightarrow> ''cerebras'' \<in> set c | Inl _ \<Rightarrow> False)" by code_simp
  have "lr_owned_by (listing_row_of st round6 lm pid auth m) = ''cerebras''" "''chat:fast'' \<in> set (lr_capabilities (listing_row_of st round6 lm pid auth m))"
    "lr_billing_type (listing_row_of st round6 lm pid auth m) = ''api''"
    using m by (simp_all add: listing_row_of_def Let_def billing_type_def)
  then have "page_model_of (listing_row_of st round6 lm pid auth m) \<noteq> None"
    using chain by (simp add: page_model_of_def Let_def lane_for_def CHAT_LANES_def)
  moreover have "m \<in> set (pinnable_models (subscription_models st))"
    using model_spec_in_all[OF m(1)] m(4) by (simp add: pinnable_models_def order_models_def)
  ultimately have "List.map_filter page_model_of (listing st round6 lm pid auth) \<noteq> []"
    by (force simp: listing_def List.map_filter_def filter_empty_conv)
  then show ?thesis by (simp add: chat_models_def sort_key_Nil)
qed

theorem page_offers_routable_models_witness:
  "\<exists>m. m \<in> set (page_models (listing default_settings (\<lambda>x. x) (\<lambda>_. None) None True)) \<and> pm_capability m \<in> set JOB_CAPABILITIES"
proof -
  obtain m where "m \<in> set (page_models (listing default_settings (\<lambda>x. x) (\<lambda>_. None) None True))"
    using page_not_empty[OF demo_offered[of default_settings "\<lambda>x. x" "\<lambda>_. None" None True]] by (meson list.set_sel(1))
  with page_offers_routable_models[OF this] show ?thesis by blast
qed

end
