(* ===== verification/Spec2Isabelle.thy ===== *)
theory Spec2Isabelle
  imports Prelude Calendar Registry Provider_Specs Chains Db_Models Circuit Shared_State Affinity
    Quotas Broker_State Selector Cost_Guard Regex Provider_Errors Cooldown Deep_Jobs Job_Queue Job_World
    Context_Limits Pricing Attempt Json_Roundtrip Job_List Response_Cache Catalog
    Answer_Gate Chat_Walk Chat_Facts Chat_Demo
    Service_Walks Agent_Lease Agent_Redact Job_Files Agent_Runs Agent_Log
    Agent_Access Subscriptions Agent_Accounts Agent_Worker Client_Tools Attachments
    Agent_Executor Executor_Facts Admission Job_Poll Model_Listing Compare Compare_Facts
begin

text \<open>
  AIbroker is an LLM broker: projects send chat, embedding, decision and transcription
  requests, and the broker walks a chain of providers, picks an API key for each attempt
  under quota, cooldown and budget rules, books what the attempt cost, and answers. Long
  requests go through a job table that any number of worker processes drain. Agent runs are
  jobs that drive a command line tool on a subscription account, with an event log and a
  lease per session. The files are those under \<^verbatim>\<open>src/src/aibroker\<close>; every path below is
  relative to it.

  \<^bold>\<open>Shared vocabulary.\<close> \<open>Prelude\<close> has the number and string types, the operations of the Python
  library the broker uses, JSON values, tables as row lists (\<open>update_where\<close>, \<open>find_row\<close>) and the
  locales for keyed tables and transition systems. \<open>Calendar\<close> is the part of \<^verbatim>\<open>datetime\<close> used for
  quota windows. \<open>Regex\<close> is a backtracking matcher for the part of \<^verbatim>\<open>re\<close> the patterns need. \<open>Json\<close> and
  \<open>Json_Roundtrip\<close> are \<^verbatim>\<open>json.dumps\<close>, \<^verbatim>\<open>json.loads\<close> with its hooks and \<^verbatim>\<open>strict_json.py\<close>: the
  strict decoder is sound, total and inverts the encoder.

  \<^bold>\<open>Catalog of providers.\<close> \<open>Registry\<close> (\<^verbatim>\<open>providers/registry.py\<close>), \<open>Provider_Specs\<close> (the fifteen
  \<^verbatim>\<open>providers/provider_specs\<close> modules), \<open>Model_Table\<close> (the evaluated model table), \<open>Chains\<close>
  (\<^verbatim>\<open>routing/chains.py\<close>), \<open>Catalog\<close> (pins of \<^verbatim>\<open>providers/catalog.py\<close>), \<open>Quotas\<close>
  (\<^verbatim>\<open>providers/quotas.py\<close>), \<open>Pricing\<close> (\<^verbatim>\<open>providers/pricing.py\<close>, \<^verbatim>\<open>peak_pricing.py\<close>, \<^verbatim>\<open>cost.py\<close>) and
  \<open>Context_Limits\<close> (\<^verbatim>\<open>providers/context_limits.py\<close>, \<^verbatim>\<open>observations.py\<close>). Every chain names registered
  providers that have a model for the capability; a pin resolves to models of that name; a
  paid route is never estimated as free; a learned size ceiling filters and decays.

  \<^bold>\<open>Routing core.\<close> \<open>Db_Models\<close> has the rows of \<^verbatim>\<open>db/models.py\<close>, \<open>Broker_State\<close> the state one process
  threads through its calls. \<open>Circuit\<close>, \<open>Shared_State\<close>, \<open>Affinity\<close> are the in-process memories of
  \<^verbatim>\<open>routing/circuit.py\<close>, \<^verbatim>\<open>shared_state.py\<close>, \<^verbatim>\<open>affinity.py\<close>; \<open>Selector\<close> is \<^verbatim>\<open>routing/selector.py\<close>
  with \<^verbatim>\<open>model_cooldown.py\<close>: what a pick may hand out, in which order, and when it is empty.
  \<open>Cost_Guard\<close> is \<^verbatim>\<open>routing/cost_guard.py\<close>: the ledger invariant under any interleaving of
  reservations, refunds and bookings. \<open>Provider_Errors\<close> and \<open>Cooldown\<close> are
  \<^verbatim>\<open>providers/provider_errors.py\<close> and \<^verbatim>\<open>routing/cooldown.py\<close>: classification and bounded parking.
  \<open>Attempt\<close> is \<^verbatim>\<open>services/attempt.py\<close>, one key attempt from reservation to verdict, on the state of
  all of the above.

  \<^bold>\<open>Walks.\<close> \<open>Answer_Gate\<close> (\<^verbatim>\<open>services/tool_contract.py\<close> and the structured-output part of
  \<^verbatim>\<open>agent/subscription_job.py\<close>), \<open>Response_Cache\<close> (\<^verbatim>\<open>services/response_cache.py\<close>), \<open>Chat_Walk\<close>, \<open>Chat_Facts\<close>,
  \<open>Chat_Demo\<close> (the chat walk of \<^verbatim>\<open>services/llm_service.py\<close>) and \<open>Service_Walks\<close> (its embedding, decision
  and transcription walks with the checks of \<^verbatim>\<open>providers/decisions.py\<close>). A walk is a function of
  what its rounds meet (\<open>env i\<close> for round i), so its theorems hold for every schedule: which keys
  and models it may use, how many calls it starts and when the last one ends, and what its
  verdicts mean.

  \<^bold>\<open>Job queue.\<close> \<open>Deep_Jobs\<close> (\<^verbatim>\<open>services/deep_jobs.py\<close>, \<^verbatim>\<open>job_meta.py\<close>), \<open>Job_Queue\<close>
  (\<^verbatim>\<open>services/job_queue.py\<close> and the plain part of \<^verbatim>\<open>job_control.py\<close>), \<open>Job_World\<close> (the table under
  concurrent workers as a step relation with its invariant) and \<open>Job_List\<close>
  (\<^verbatim>\<open>services/job_list.py\<close>). Submission is idempotent, a claim is exclusive, a superseded worker
  writes nothing, finished jobs are final, every due job settles, and the cursor walk lists
  every job once.

  \<^bold>\<open>Agent runs.\<close> \<open>Agent_Lease\<close> (\<^verbatim>\<open>agent/lock.py\<close>: leases, fence tokens and the heartbeat, with any
  number of workers), \<open>Agent_Redact\<close> (\<^verbatim>\<open>agent/redact.py\<close>), \<open>Job_Files\<close> (\<^verbatim>\<open>agent/job_files.py\<close>),
  \<open>Agent_Runs\<close> (\<^verbatim>\<open>agent/runs.py\<close> with the schema of \<^verbatim>\<open>agent/events.py\<close>) and \<open>Agent_Log\<close> (the log
  discipline). A taken-over worker writes nothing, the log has consecutive numbers and one
  terminal event, a served answer keeps its format and its secrets masked.

  \<^bold>\<open>Executing a run.\<close> \<open>Subscriptions\<close> (\<^verbatim>\<open>providers/subscriptions.py\<close>), \<open>Agent_Access\<close>
  (\<^verbatim>\<open>agent/account_choices.py\<close>, \<^verbatim>\<open>project_access.py\<close>, \<^verbatim>\<open>constants.py\<close>, \<^verbatim>\<open>policy.py\<close>), \<open>Agent_Accounts\<close>
  (\<^verbatim>\<open>agent/accounts.py\<close>, \<^verbatim>\<open>billing.py\<close>, \<^verbatim>\<open>job_status.py\<close>), \<open>Agent_Worker\<close> (claims and sweeps of
  \<^verbatim>\<open>agent/worker.py\<close>), \<open>Attachments\<close> (\<^verbatim>\<open>agent/attachments.py\<close>), \<open>Client_Tools\<close>
  (\<^verbatim>\<open>agent/client_tools.py\<close>: the handoff of a tool call to the client and back),
  \<open>Agent_Executor\<close> and \<open>Executor_Facts\<close> (\<^verbatim>\<open>agent/executor.py\<close>, \<^verbatim>\<open>codex_refresh_proof.py\<close>). The executor
  threads an explicit state and may raise; between its transactions other parties may do
  anything to the database. The tool starts only behind the access, billing and refresh guards,
  its stream ends within the limits and stops the tool, a returned outcome is the recorded one,
  a quota wait stays before the deadline, and a result of a client tool is delivered once.

  \<^bold>\<open>Admission and clients.\<close> \<open>Admission\<close> (\<^verbatim>\<open>auth.py\<close>, \<^verbatim>\<open>auth_session.py\<close>, \<^verbatim>\<open>services/request_cap.py\<close>,
  \<^verbatim>\<open>services/signup.py\<close>): session cookies are sound, the lifetime cap is exact under concurrency, a
  signup gets free scopes only. \<open>Job_Poll\<close> (the poll and tool-result routes of \<^verbatim>\<open>routes/proxy.py\<close>): a
  call that a poll shows can be answered through the result route. \<open>Model_Listing\<close> (the rest of
  \<^verbatim>\<open>providers/catalog.py\<close>, \<^verbatim>\<open>model_scores.py\<close>, \<^verbatim>\<open>job_contract.py\<close>) is what clients are told about
  models. \<open>Compare\<close> and \<open>Compare_Facts\<close> (\<^verbatim>\<open>services/compare.py\<close>) are the comparison page, a client of the
  job queue inside the broker: one open question per browser and per address under any
  interleaving, every question closes, the history search is exact, and each model offered is
  one a job can be pinned to.

  \<^bold>\<open>Interfaces.\<close> What a client relies on is a locale with its laws, interpreted on the model's own
  operations: keyed tables and invariant systems (\<open>Prelude\<close>), stamped stores (\<open>Affinity\<close>), the
  ledger (\<open>Cost_Guard\<close>), fencing (\<open>Agent_Lease\<close>) and the others named in their theories. Refinements:
  the cache refines a map of last answers (\<open>Response_Cache\<close>), every operation on agent runs is a
  move of an abstract log machine (\<open>Agent_Log\<close>).

  \<^bold>\<open>Conventions.\<close> Floats are exact rationals: rounding of IEEE doubles is not modelled. Strings are
  lists of 8-bit characters, the bytes of the UTF-8 text; case folding is that of ASCII. A
  clock reading, a random number, a row lock held by another transaction, a Redis reply, a
  provider's answer, a decrypted key and a hash are arguments; where the code reads a table in
  one transaction and writes in a later one, the model takes both tables. A raise is a value
  of a sum or option type. Libraries outside the repository (LiteLLM's prices, \<^verbatim>\<open>jsonschema\<close>,
  SHA-256, MD5, HMAC) are arguments too.

  \<^bold>\<open>Termination and fuel.\<close> Loops of the code are structural recursion or \<open>function\<close> with a measure.
  Fuel appears where Python has none: a regular-expression repetition runs on the length of
  the text plus its minimum count plus one (\<open>rep_match_fuel\<close>), the JSON decoder on twice the length
  of the text plus two (\<open>loads_terminates\<close>), the cursor walk of the job list on the number of pages
  asked for; each bound is proved sufficient.

  \<^bold>\<open>Not modelled.\<close> The submit routes with their request schemas and the remaining HTTP
  glue; the dashboard and the landing pages (SQL reports, HTML); the code that builds and sends
  provider requests; the drivers of the command line tools with their parsers, workspaces and
  collectors of files and images, which appear as the record \<open>cli\<close> of the executor; process wiring
  (configuration, engine, dispatcher loops, monitor, notifier, telemetry) and maintenance
  scripts. They are I/O around the parts above.
\<close>

end
